(* ===== verification/Prelude.thy ===== *)
theory Prelude
  imports Main "HOL-Library.Word" "HOL-Library.Monad_Syntax"
begin

text \<open>
  Shared vocabulary of the development: machine integers, byte buffers, C strings, and the
  generic lemmas on lists and options that the component theories use.

  A value of type \<open>'a option\<close> returned by a modelled C function reads as follows throughout:
  \<open>None\<close> is \<^emph>\<open>no defined result\<close> (an access outside an object, a null dereference, or a loop
  that does not end), \<open>Some v\<close> is a run that returns \<open>v\<close>. Error codes and null results of the
  source are ordinary values inside the \<open>Some\<close>.
\<close>

unbundle bit_operations_syntax

section \<open>Machine integers and bytes\<close>

type_synonym byte = "8 word"
type_synonym u16 = "16 word"
type_synonym u32 = "32 word"
type_synonym u64 = "64 word"
type_synonym bytes = "byte list"

text \<open>\<open>size_t\<close> values are natural numbers; \<open>SIZE_MAX\<close> is that of a 64-bit target.\<close>

definition SIZE_MAX :: nat where
  "SIZE_MAX = 2 ^ 64 - 1"

section \<open>Collections of proof rules\<close>

named_theorems c_defs \<open>definitions unfolded to run a model\<close>

section \<open>Character arrays and C strings\<close>

text \<open>
  A \<open>char\<close> array is the list of its characters, the terminating NUL included wherever it is.
  Reading it as a string stops at the first NUL; an array without one has no string value.
\<close>

type_synonym cbuf = "char list"

definition nul :: char where
  "nul = CHR 0x00"

definition c_str :: "cbuf \<Rightarrow> string option" where
  "c_str b = (if nul \<in> set b then Some (takeWhile (\<lambda>c. c \<noteq> nul) b) else None)"

text \<open>
  \<open>strcmp\<close> of an array with a proper (NUL-free) string: whether they are equal. The comparison
  stops at the first difference, so an unterminated array is read past its end only when the
  whole array is a prefix of the string.
\<close>

definition strcmp_eq :: "cbuf \<Rightarrow> string \<Rightarrow> bool option" where
  "strcmp_eq b s =
     (case c_str b of
        Some t \<Rightarrow> Some (t = s)
      | None \<Rightarrow> if take (length b) s = b then None else Some False)"

lemma takeWhile_nul [simp]:
  "nul \<notin> set s \<Longrightarrow> takeWhile (\<lambda>c. c \<noteq> nul) (s @ nul # r) = s"
  by (induction s) auto

lemma takeWhile_nul_free [simp]:
  "nul \<notin> set s \<Longrightarrow> takeWhile (\<lambda>c. c \<noteq> nul) s = s"
  by (induction s) auto

lemma c_str_append_nul [simp]:
  "nul \<notin> set s \<Longrightarrow> c_str (s @ nul # r) = Some s"
  by (simp add: c_str_def)

lemma c_str_nul_free: "c_str b = Some s \<Longrightarrow> nul \<notin> set s"
  by (auto simp: c_str_def split: if_splits dest: set_takeWhileD)

lemma strcmp_eq_terminated [simp]:
  "c_str b = Some t \<Longrightarrow> strcmp_eq b s = Some (t = s)"
  by (simp add: strcmp_eq_def)

section \<open>Lists\<close>

lemma find_None_iff_all: "List.find P xs = None \<longleftrightarrow> (\<forall>x\<in>set xs. \<not> P x)"
  by (auto simp: find_None_iff)

end
