(* ===== verification/Darkflows.thy ===== *)
theory Darkflows
  imports Prelude
begin

text \<open>
  The command dispatcher \<open>src/C/darkflows.c\<close> (the same file is \<open>src/src/live-ifstat/darkflows.c\<close>):
  the command table, the loader of the CSV form of the table, the help printer and the
  dispatcher that ends in \<open>execvp\<close>.

  Standard output and the process replacement are a trace of actions. What the operating system
  answers is a parameter: \<open>access_ok\<close> for \<open>access(script, X_OK) == 0\<close> and \<open>exec_ok\<close> for an
  \<open>execvp\<close> that does not return.
\<close>

section \<open>Data\<close>

definition MAX_ARGS :: nat where
  "MAX_ARGS = 10"

record command =
  primary :: cbuf
  secondary :: cbuf
  command_script :: cbuf
  help_text :: cbuf

text \<open>A string literal that initialises an array member: the rest of the array is zero.\<close>

definition char_array :: "nat \<Rightarrow> string \<Rightarrow> cbuf" where
  "char_array n s = s @ replicate (n - length s) nul"

definition mk_command :: "string \<Rightarrow> string \<Rightarrow> string \<Rightarrow> string \<Rightarrow> command" where
  "mk_command p s c h =
     \<lparr>primary = char_array 50 p, secondary = char_array 50 s,
      command_script = char_array 100 c, help_text = char_array 200 h\<rparr>"

definition embedded_commands :: "command list" where
  "embedded_commands =
     [mk_command ''route'' '''' '''' ''this is to route stuff'',
      mk_command ''route'' ''add'' ''route_add.sh'' ''this is to add a route'',
      mk_command ''route'' ''del'' ''route_delete.sh -d'' ''this is to delete a route'',
      mk_command ''status'' '''' ''status.sh'' ''this is to get server status'',
      mk_command '''' '''' '''' '''']"

datatype action =
    Print string
  | Perror string
  | Execvp string "string list"

section \<open>Loading the table from a file\<close>

text \<open>
  \<open>fgets(line, 256, file)\<close>: up to 255 characters, through the first newline; \<open>None\<close> at the end
  of the file. The pair is the line and the rest of the file.
\<close>

fun fgets :: "nat \<Rightarrow> string \<Rightarrow> string \<times> string" where
  "fgets 0 f = ([], f)"
| "fgets (Suc n) [] = ([], [])"
| "fgets (Suc n) (c # f) =
     (if c = CHR ''\<newline>'' then ([c], f)
      else let (l, r) = fgets n f in (c # l, r))"

text \<open>
  \<open>strtok\<close> with its saved position: leading delimiters are skipped, the token runs to the next
  delimiter, which is consumed.
\<close>

definition strtok :: "string \<Rightarrow> string \<Rightarrow> string option \<times> string" where
  "strtok s delim =
     (let s' = dropWhile (\<lambda>c. c \<in> set delim) s
      in if s' = [] then (None, [])
         else (Some (takeWhile (\<lambda>c. c \<notin> set delim) s'),
               tl (dropWhile (\<lambda>c. c \<notin> set delim) s')))"

text \<open>\<open>strncpy(dst, src, n)\<close>: at most \<open>n\<close> characters, zero padded to \<open>n\<close>; the rest of \<open>dst\<close> is kept.\<close>

definition strncpy :: "cbuf \<Rightarrow> string \<Rightarrow> nat \<Rightarrow> cbuf" where
  "strncpy dst src n = take n (src @ replicate n nul) @ drop n dst"

definition store_command :: "command \<Rightarrow> string \<Rightarrow> string option \<Rightarrow> string option \<Rightarrow> string option \<Rightarrow> command" where
  "store_command c p s k h =
     c\<lparr>primary := strncpy (primary c) p 49,
       secondary := strncpy (secondary c) (case s of Some x \<Rightarrow> x | None \<Rightarrow> '''') 49,
       command_script := strncpy (command_script c) (case k of Some x \<Rightarrow> x | None \<Rightarrow> '''') 99,
       help_text := strncpy (help_text c) (case h of Some x \<Rightarrow> x | None \<Rightarrow> ''No description'') 199\<rparr>"

text \<open>
  One line of the file: the tokens in the order of the four \<open>strtok\<close> calls. The first is
  \<open>None\<close> for a line with nothing but separators, which stores nothing.
\<close>

definition parse_line :: "string \<Rightarrow> string option \<times> string option \<times> string option \<times> string option" where
  "parse_line line =
     (let line = takeWhile (\<lambda>c. c \<noteq> nul) line;
          (p, r1) = strtok line '','';
          (s, r2) = strtok r1 '','';
          (k, r3) = strtok r2 '','';
          (h, r4) = strtok r3 ''\<newline>''
      in (p, s, k, h))"

lemma fgets_decreases: "0 < n \<Longrightarrow> f \<noteq> [] \<Longrightarrow> length (snd (fgets n f)) < length f"
proof (induction n f rule: fgets.induct)
  case (3 n c f)
  show ?case
  proof (cases "n = 0 \<or> f = []")
    case True
    then show ?thesis by (cases n; cases f) auto
  next
    case False
    with 3 show ?thesis by (auto split: prod.splits)
  qed
qed auto

lemma fgets_decreases_pair:
  "(l, r) = fgets 255 f \<Longrightarrow> f \<noteq> [] \<Longrightarrow> length r < length f"
  using fgets_decreases [of 255 f] by (metis snd_conv zero_less_numeral)

text \<open>
  The loop of \<open>load_commands\<close>. The array \<open>commands\<close> is on the stack of \<open>main\<close> and not initialised:
  its contents before the call are an argument. \<open>None\<close> of the file is the failed \<open>fopen\<close>.
\<close>

function load_loop :: "command list \<Rightarrow> nat \<Rightarrow> nat \<Rightarrow> string \<Rightarrow> nat \<times> command list" where
  "load_loop cmds count max_commands f =
     (if f = [] then (count, cmds)
      else let (line, f') = fgets 255 f
           in if count < max_commands
              then (case parse_line line of
                      (Some p, s, k, h) \<Rightarrow>
                        load_loop (cmds[count := store_command (cmds ! count) p s k h])
                          (Suc count) max_commands f'
                    | (None, _) \<Rightarrow> load_loop cmds count max_commands f')
              else (count, cmds))"
  by pat_completeness auto
termination
  by (relation "measure (\<lambda>(cmds, count, m, f). length f)")
     (simp_all add: fgets_decreases_pair)

definition load_commands :: "string option \<Rightarrow> command list \<Rightarrow> nat \<Rightarrow> action list \<times> (nat \<times> command list) option" where
  "load_commands file cmds max_commands =
     (case file of
        None \<Rightarrow> ([Perror ''Error opening command file''], None)
      | Some f \<Rightarrow> ([], Some (load_loop cmds 0 max_commands f)))"

section \<open>Help\<close>

definition is_help_flag :: "string \<Rightarrow> bool" where
  "is_help_flag arg \<longleftrightarrow>
     arg = ''-h'' \<or> arg = ''--h'' \<or> arg = ''-help'' \<or> arg = ''--help''"

text \<open>
  The test on a table entry that the help printer and the dispatcher share: does \<open>c\<close> match
  \<open>cmd\<close> and \<open>subcmd\<close>? The null \<open>subcmd\<close> (\<open>None\<close>) asks for the entry with an empty second word.
\<close>

definition entry_matches :: "command \<Rightarrow> string \<Rightarrow> string option \<Rightarrow> bool option" where
  "entry_matches c cmd subcmd =
     do {
       b \<leftarrow> strcmp_eq (primary c) cmd;
       if b then
         (case subcmd of
            Some sub \<Rightarrow> strcmp_eq (secondary c) sub
          | None \<Rightarrow> Some (take 1 (secondary c) = [nul]))
       else Some False
     }"

definition usage_line :: "command \<Rightarrow> string option \<Rightarrow> string option" where
  "usage_line c subcmd =
     do {
       p \<leftarrow> c_str (primary c);
       h \<leftarrow> c_str (help_text c);
       (case subcmd of
          Some _ \<Rightarrow> do {
            s \<leftarrow> c_str (secondary c);
            Some (''Usage: darkflows '' @ p @ '' '' @ s @ '' - '' @ h @ ''\<newline>'')
          }
        | None \<Rightarrow> Some (''Usage: darkflows '' @ p @ '' - '' @ h @ ''\<newline>''))
     }"

fun show_command_help :: "command list \<Rightarrow> string \<Rightarrow> string option \<Rightarrow> action list option" where
  "show_command_help [] cmd subcmd =
     Some [Print (''No help available for '' @ [CHR 0x27] @ cmd @ '' '' @
       (case subcmd of Some s \<Rightarrow> s | None \<Rightarrow> '''') @ [CHR 0x27] @ ''\<newline>'')]"
| "show_command_help (c # cs) cmd subcmd =
     do {
       m \<leftarrow> entry_matches c cmd subcmd;
       if m then do { l \<leftarrow> usage_line c subcmd; Some [Print l] }
       else show_command_help cs cmd subcmd
     }"

fun show_entries :: "command list \<Rightarrow> action list option" where
  "show_entries [] = Some []"
| "show_entries (c # cs) =
     do {
       p \<leftarrow> c_str (primary c);
       if p \<noteq> [] then do {
         s \<leftarrow> c_str (secondary c);
         h \<leftarrow> c_str (help_text c);
         rest \<leftarrow> show_entries cs;
         Some (Print (if s \<noteq> [] then ''  '' @ p @ '' '' @ s @ '' - '' @ h @ ''\<newline>''
                      else ''  '' @ p @ '' - '' @ h @ ''\<newline>'') # rest)
       } else show_entries cs
     }"

definition show_all_commands :: "command list \<Rightarrow> action list option" where
  "show_all_commands cs =
     do { rest \<leftarrow> show_entries cs; Some (Print ''Available commands:\<newline>'' # rest) }"

section \<open>Dispatch\<close>

fun find_script :: "command list \<Rightarrow> string \<Rightarrow> string option \<Rightarrow> cbuf option option" where
  "find_script [] cmd subcmd = Some None"
| "find_script (c # cs) cmd subcmd =
     do {
       m \<leftarrow> entry_matches c cmd subcmd;
       if m then Some (Some (command_script c)) else find_script cs cmd subcmd
     }"

text \<open>
  The argument list for \<open>execvp\<close>: the loop runs while there are arguments and
  \<open>arg_index < MAX_ARGS - 1\<close>, and skips help flags.
\<close>

fun collect_args :: "nat \<Rightarrow> string list \<Rightarrow> string list" where
  "collect_args arg_index [] = []"
| "collect_args arg_index (a # as) =
     (if arg_index < MAX_ARGS - 1 then
        (if is_help_flag a then collect_args arg_index as
         else a # collect_args (Suc arg_index) as)
      else [])"

text \<open>\<open>subcmd\<close> and \<open>help_flag\<close>, from the arguments after the command word.\<close>

definition scan_args :: "string list \<Rightarrow> string option \<times> bool" where
  "scan_args rest =
     (case rest of
        [] \<Rightarrow> (None, False)
      | a # as \<Rightarrow> if is_help_flag a then (None, True) else (Some a, list_ex is_help_flag as))"

definition execute_command ::
  "(string \<Rightarrow> bool) \<Rightarrow> (string \<Rightarrow> string list \<Rightarrow> bool) \<Rightarrow> command list \<Rightarrow> string list \<Rightarrow> action list option" where
  "execute_command access_ok exec_ok commands argv =
     (if length argv < 2 then show_all_commands commands
      else
        let cmd = argv ! 1;
            (subcmd, help_flag) = scan_args (drop 2 argv)
        in do {
          found \<leftarrow> find_script commands cmd subcmd;
          script \<leftarrow> (case found of None \<Rightarrow> Some '''' | Some b \<Rightarrow> c_str b);
          if script = '''' then show_command_help commands cmd subcmd
          else if help_flag then show_command_help commands cmd subcmd
          else if \<not> access_ok script
          then Some [Perror ''Error: Command script not found or not executable'']
          else
            let start_index = (if subcmd \<noteq> None then 3 else 2);
                exec_args = script # collect_args 1 (drop start_index argv);
                run = [Print (''Executing: '' @ script @ ''\<newline>''), Execvp script exec_args]
            in Some (if exec_ok script exec_args then run else run @ [Perror ''execvp failed''])
        })"

text \<open>
  \<open>main\<close> with \<open>USE_EMBEDDED_COMMANDS\<close> set to 1: the table is the embedded one, less its end marker,
  and the exit status is 0. \<open>main_from_file\<close> is the other branch of the same test.
\<close>

definition df_main :: "(string \<Rightarrow> bool) \<Rightarrow> (string \<Rightarrow> string list \<Rightarrow> bool) \<Rightarrow> string list \<Rightarrow> (action list \<times> nat) option" where
  "df_main access_ok exec_ok argv =
     (let command_count = length embedded_commands - 1
      in map_option (\<lambda>acts. (acts, 0))
           (execute_command access_ok exec_ok (take command_count embedded_commands) argv))"

definition main_from_file ::
  "(string \<Rightarrow> bool) \<Rightarrow> (string \<Rightarrow> string list \<Rightarrow> bool) \<Rightarrow> string option \<Rightarrow> command list \<Rightarrow> string list
     \<Rightarrow> (action list \<times> nat) option" where
  "main_from_file access_ok exec_ok file commands argv =
     (case load_commands file commands 50 of
        (acts, None) \<Rightarrow> Some (acts, 1)
      | (acts, Some (command_count, cmds)) \<Rightarrow>
          map_option (\<lambda>acts'. (acts @ acts', 0))
            (execute_command access_ok exec_ok (take command_count cmds) argv))"

section \<open>Well-formed tables\<close>

text \<open>Every member array of the entry holds a terminated string.\<close>

definition terminated :: "command \<Rightarrow> bool" where
  "terminated c \<longleftrightarrow>
     nul \<in> set (primary c) \<and> nul \<in> set (secondary c) \<and>
     nul \<in> set (command_script c) \<and> nul \<in> set (help_text c)"

definition str_of :: "cbuf \<Rightarrow> string" where
  "str_of b = takeWhile (\<lambda>c. c \<noteq> nul) b"

lemma c_str_terminated: "nul \<in> set b \<Longrightarrow> c_str b = Some (str_of b)"
  by (simp add: c_str_def str_of_def)

lemma take1_nul: "nul \<in> set b \<Longrightarrow> (take 1 b = [nul]) \<longleftrightarrow> str_of b = []"
  by (cases b) (auto simp: str_of_def)

text \<open>The entry that the first-match scans look for, as a plain predicate.\<close>

definition entry_for :: "string \<Rightarrow> string option \<Rightarrow> command \<Rightarrow> bool" where
  "entry_for cmd sub c \<longleftrightarrow>
     str_of (primary c) = cmd \<and> str_of (secondary c) = (case sub of Some s \<Rightarrow> s | None \<Rightarrow> '''')"

lemma entry_matches_terminated [simp]:
  "terminated c \<Longrightarrow> entry_matches c cmd sub = Some (entry_for cmd sub c)"
  using take1_nul [of "secondary c"]
  by (auto simp: entry_matches_def entry_for_def terminated_def c_str_terminated split: option.splits)

lemma find_script_terminated:
  "list_all terminated cs \<Longrightarrow>
     find_script cs cmd sub = Some (map_option command_script (List.find (entry_for cmd sub) cs))"
  by (induction cs) auto

lemma usage_line_terminated: "terminated c \<Longrightarrow> \<exists>l. usage_line c sub = Some l"
  by (cases sub) (auto simp: usage_line_def terminated_def c_str_terminated)

lemma show_command_help_terminated:
  "list_all terminated cs \<Longrightarrow> \<exists>l. show_command_help cs cmd sub = Some [Print l]"
proof (induction cs)
  case (Cons c cs)
  then show ?case using usage_line_terminated [of c sub] by auto
qed simp

lemma show_entries_terminated:
  "list_all terminated cs \<Longrightarrow> \<exists>ls. show_entries cs = Some (map Print ls)"
proof (induction cs)
  case (Cons c cs)
  then obtain ls where "show_entries cs = Some (map Print ls)" by auto
  with Cons.prems show ?case
    by (auto simp: terminated_def c_str_terminated Cons_eq_map_conv)
qed simp

section \<open>What is executed\<close>

lemma collect_args_no_flag:
  "list_all (\<lambda>a. \<not> is_help_flag a) as \<Longrightarrow> collect_args i as = take (9 - i) as"
proof (induction as arbitrary: i)
  case (Cons a as)
  then show ?case by (auto simp: MAX_ARGS_def take_Cons')
qed simp

lemma scan_args_no_flag:
  "list_all (\<lambda>a. \<not> is_help_flag a) rest \<Longrightarrow>
     scan_args rest = (case rest of [] \<Rightarrow> None | a # _ \<Rightarrow> Some a, False)"
  by (cases rest) (auto simp: scan_args_def list_ex_iff list_all_iff)

lemma scan_args_flag:
  "\<not> list_all (\<lambda>a. \<not> is_help_flag a) rest \<Longrightarrow> snd (scan_args rest)"
  by (cases rest) (auto simp: scan_args_def list_ex_iff list_all_iff)

text \<open>The dispatcher over a terminated table, with the scans replaced by \<open>List.find\<close>.\<close>

lemma execute_command_terminated:
  assumes "list_all terminated cs" and "2 \<le> length argv"
  shows "execute_command acc ex cs argv =
    (let (sub, hf) = scan_args (drop 2 argv);
         script = (case List.find (entry_for (argv ! 1) sub) cs of
                     None \<Rightarrow> '''' | Some c \<Rightarrow> str_of (command_script c))
     in if script = '''' \<or> hf then show_command_help cs (argv ! 1) sub
        else if \<not> acc script
        then Some [Perror ''Error: Command script not found or not executable'']
        else let exec_args = script # collect_args 1 (drop (if sub \<noteq> None then 3 else 2) argv);
                 run = [Print (''Executing: '' @ script @ ''\<newline>''), Execvp script exec_args]
             in Some (if ex script exec_args then run else run @ [Perror ''execvp failed'']))"
proof -
  have tm: "terminated c" if "List.find P cs = Some c" for P c
    using that assms(1) by (auto simp: find_Some_iff list_all_iff)
  have "c_str (command_script c) = Some (str_of (command_script c))"
    if "List.find P cs = Some c" for P c
    using tm [OF that] by (simp add: terminated_def c_str_terminated)
  then show ?thesis
    using assms
    by (auto simp: execute_command_def find_script_terminated Let_def
        split: prod.splits option.splits)
qed

lemma drop3_of_drop2: "drop 2 argv = a # as \<Longrightarrow> drop 3 argv = as"
  by (metis One_nat_def add.commute add_2_eq_Suc' drop0 drop_Suc_Cons drop_drop numeral_2_eq_2
      numeral_3_eq_3 plus_1_eq_Suc)

lemma show_help_no_exec:
  "list_all terminated cs \<Longrightarrow> show_command_help cs cmd sub = Some acts \<Longrightarrow> Execvp p as \<notin> set acts"
  using show_command_help_terminated [of cs cmd sub] by auto

text \<open>
  C31. The dispatcher replaces the process exactly when a command word is given, no argument
  after it is a help flag, the first table entry for the words has a non-empty script that
  \<open>access\<close> accepts; and then with that script and at most eight of the remaining arguments.
\<close>

theorem execute_command_execs_iff:
  assumes "list_all terminated cs"
  shows "(\<exists>acts. execute_command acc ex cs argv = Some acts \<and> Execvp p args \<in> set acts) \<longleftrightarrow>
    2 \<le> length argv \<and> list_all (\<lambda>a. \<not> is_help_flag a) (drop 2 argv) \<and>
    (\<exists>c. List.find (entry_for (argv ! 1) (if length argv = 2 then None else Some (argv ! 2))) cs = Some c
       \<and> p = str_of (command_script c)) \<and>
    p \<noteq> '''' \<and> acc p \<and> args = p # take 8 (drop 3 argv)"
proof (cases "2 \<le> length argv")
  case False
  with assms show ?thesis
    using show_entries_terminated [OF assms]
    by (auto simp: execute_command_def show_all_commands_def)
next
  case len: True
  note run = execute_command_terminated [OF assms len, of acc ex]
  show ?thesis
  proof (cases "list_all (\<lambda>a. \<not> is_help_flag a) (drop 2 argv)")
    case False
    then have "snd (scan_args (drop 2 argv))" by (rule scan_args_flag)
    then show ?thesis
      using False run show_help_no_exec [OF assms] by (auto split: prod.splits)
  next
    case True
    define sub where "sub = (if length argv = 2 then None else Some (argv ! 2))"
    have scan: "scan_args (drop 2 argv) = (sub, False)"
    proof (cases "drop 2 argv")
      case Nil
      then have "length argv = 2" using len by simp
      with Nil show ?thesis by (simp add: scan_args_def sub_def)
    next
      case (Cons a as)
      then have "a = argv ! 2" and "length argv \<noteq> 2"
        by (metis drop_eq_Nil hd_drop_conv_nth le_eq_less_or_eq linorder_not_le list.distinct(1) list.sel(1))
           (use Cons in auto)
      with Cons scan_args_no_flag [OF True] show ?thesis by (simp add: sub_def)
    qed
    have args: "collect_args 1 (drop (if sub \<noteq> None then 3 else 2) argv) = take 8 (drop 3 argv)"
    proof (cases "drop 2 argv")
      case Nil
      then have "length argv = 2" using len by simp
      then show ?thesis by (simp add: sub_def)
    next
      case (Cons a as)
      then have "drop 3 argv = as" and "length argv \<noteq> 2"
        by (auto simp: drop3_of_drop2)
      moreover have "list_all (\<lambda>a. \<not> is_help_flag a) as" using True Cons by simp
      ultimately show ?thesis by (simp add: sub_def collect_args_no_flag)
    qed
    show ?thesis
      unfolding sub_def [symmetric] run scan
      using len True args show_help_no_exec [OF assms]
      by (auto simp: Let_def split: option.splits if_splits)
  qed
qed

theorem execute_command_execs_iff_witness:
  "list_all terminated [mk_command ''a'' ''b'' ''c'' ''d''] \<and>
   (\<exists>acts. execute_command (\<lambda>_. True) (\<lambda>_ _. True) [mk_command ''a'' ''b'' ''c'' ''d'']
       [''darkflows'', ''a'', ''b'', ''x''] = Some acts \<and> Execvp ''c'' [''c'', ''x''] \<in> set acts)"
proof -
  have t: "list_all terminated [mk_command ''a'' ''b'' ''c'' ''d'']"
    by (simp add: terminated_def mk_command_def char_array_def)
  have "(\<exists>acts. execute_command (\<lambda>_. True) (\<lambda>_ _. True) [mk_command ''a'' ''b'' ''c'' ''d'']
       [''darkflows'', ''a'', ''b'', ''x''] = Some acts \<and> Execvp ''c'' [''c'', ''x''] \<in> set acts)"
    by (subst execute_command_execs_iff [OF t])
       (simp add: is_help_flag_def entry_for_def mk_command_def char_array_def str_of_def nul_def
         numeral_eq_Suc)
  with t show ?thesis by blast
qed

section \<open>The loader\<close>

text \<open>A row of the file and the conditions under which it is one line of four columns.\<close>

type_synonym row = "string \<times> string \<times> string \<times> string"

fun csv_row :: "row \<Rightarrow> string" where
  "csv_row (p, s, k, h) = p @ '','' @ s @ '','' @ k @ '','' @ h @ ''\<newline>''"

definition plain :: "string \<Rightarrow> bool" where
  "plain s \<longleftrightarrow> s \<noteq> [] \<and> CHR '','' \<notin> set s \<and> CHR ''\<newline>'' \<notin> set s \<and> nul \<notin> set s"

fun row_ok :: "row \<Rightarrow> bool" where
  "row_ok (p, s, k, h) \<longleftrightarrow>
     plain p \<and> plain s \<and> plain k \<and> plain h \<and>
     length p < 49 \<and> length s < 49 \<and> length k < 99 \<and> length h < 199 \<and>
     length (csv_row (p, s, k, h)) \<le> 255"

text \<open>The row an entry of the table holds.\<close>

definition entry_row :: "command \<Rightarrow> row" where
  "entry_row c = (str_of (primary c), str_of (secondary c), str_of (command_script c), str_of (help_text c))"

lemma fgets_line:
  "CHR ''\<newline>'' \<notin> set l \<Longrightarrow> length l < n \<Longrightarrow> fgets n (l @ CHR ''\<newline>'' # f) = (l @ ''\<newline>'', f)"
proof (induction l arbitrary: n)
  case Nil
  then show ?case by (cases n) auto
next
  case (Cons c l)
  then show ?case by (cases n) auto
qed

lemma strtok_token:
  assumes "t \<noteq> []" and "\<forall>c\<in>set t. c \<notin> set delim" and "d \<in> set delim"
  shows "strtok (t @ d # r) delim = (Some t, r)"
proof -
  have "dropWhile (\<lambda>c. c \<in> set delim) (t @ d # r) = t @ d # r"
    using assms(1,2) by (cases t) auto
  then show ?thesis
    using assms by (simp add: strtok_def takeWhile_append2 dropWhile_append2)
qed

lemma strtok_last:
  assumes "t \<noteq> []" and "\<forall>c\<in>set t. c \<notin> set delim"
  shows "strtok t delim = (Some t, [])"
proof -
  have "dropWhile (\<lambda>c. c \<in> set delim) t = t" using assms by (cases t) auto
  moreover have "dropWhile (\<lambda>c. c \<notin> set delim) t = []" and "takeWhile (\<lambda>c. c \<notin> set delim) t = t"
    using assms(2) by (auto simp: takeWhile_eq_all_conv)
  ultimately show ?thesis using assms(1) by (simp only: strtok_def Let_def if_False list.sel)
qed

lemma strtok_empty [simp]: "strtok [] delim = (None, [])"
  by (simp add: strtok_def)

lemma strncpy_short:
  assumes "length s < n" and "nul \<notin> set s"
  shows "str_of (strncpy dst s n) = s" and "nul \<in> set (strncpy dst s n)"
proof -
  have "take n (s @ replicate n nul) = s @ nul # replicate (n - length s - 1) nul"
    using assms(1) by (cases "n - length s") (auto simp: min_def)
  then have eq: "strncpy dst s n = s @ nul # (replicate (n - length s - 1) nul @ drop n dst)"
    by (simp add: strncpy_def)
  show "str_of (strncpy dst s n) = s" using assms(2) by (simp add: eq str_of_def)
  show "nul \<in> set (strncpy dst s n)" by (simp add: eq)
qed

lemma parse_line_row:
  assumes "plain p" "plain s" "plain k" "plain h"
  shows "parse_line (csv_row (p, s, k, h)) = (Some p, Some s, Some k, Some h)"
proof -
  have "nul \<notin> set (csv_row (p, s, k, h))"
    using assms by (auto simp: plain_def nul_def)
  then have "takeWhile (\<lambda>c. c \<noteq> nul) (csv_row (p, s, k, h)) = csv_row (p, s, k, h)"
    by (rule takeWhile_nul_free)
  moreover have tok: "strtok (t @ CHR '','' # r) '','' = (Some t, r)" if "plain t" for t r
    using that by (intro strtok_token) (auto simp: plain_def)
  moreover have "strtok (h @ ''\<newline>'') ''\<newline>'' = (Some h, [])"
    using assms(4) by (intro strtok_token) (auto simp: plain_def)
  ultimately show ?thesis using assms by (simp add: parse_line_def)
qed

lemma store_row:
  assumes "row_ok (p, s, k, h)"
  shows "entry_row (store_command c p (Some s) (Some k) (Some h)) = (p, s, k, h)"
    and "terminated (store_command c p (Some s) (Some k) (Some h))"
  using assms by (auto simp: entry_row_def store_command_def terminated_def strncpy_short plain_def)

lemma fgets_row:
  assumes "row_ok r"
  shows "fgets 255 (csv_row r @ f) = (csv_row r, f)"
proof -
  obtain p s k h where r: "r = (p, s, k, h)" by (cases r)
  define l where "l = p @ '','' @ s @ '','' @ k @ '','' @ h"
  have eq: "csv_row r = l @ ''\<newline>''" by (simp add: r l_def)
  have "CHR ''\<newline>'' \<notin> set l" and "length l < 255"
    using assms by (auto simp: r l_def plain_def)
  then show ?thesis unfolding eq by (simp add: fgets_line del: fgets.simps)
qed

declare load_loop.simps [simp del]

lemma load_loop_row:
  assumes "row_ok (p, s, k, h)" and "count < m"
  shows "load_loop cmds count m (csv_row (p, s, k, h) @ f) =
    load_loop (cmds[count := store_command (cmds ! count) p (Some s) (Some k) (Some h)]) (Suc count) m f"
proof -
  have pl: "plain p" "plain s" "plain k" "plain h" using assms(1) by auto
  have ne: "csv_row (p, s, k, h) @ f \<noteq> []" by simp
  show ?thesis
    by (subst load_loop.simps, subst fgets_row [OF assms(1)], subst if_not_P [OF ne])
       (simp only: parse_line_row [OF pl] Let_def prod.case option.case assms(2) if_True)
qed

lemma load_loop_rows:
  assumes "list_all row_ok rows" and "count + length rows \<le> m" and "m \<le> length cmds"
  shows "\<exists>cmds'. load_loop cmds count m (concat (map csv_row rows)) = (count + length rows, cmds') \<and>
    length cmds' = length cmds \<and> take count cmds' = take count cmds \<and>
    list_all terminated (take (length rows) (drop count cmds')) \<and>
    map entry_row (take (length rows) (drop count cmds')) = rows"
  using assms
proof (induction rows arbitrary: count cmds)
  case Nil
  then show ?case by (subst load_loop.simps) simp
next
  case (Cons r rows)
  obtain p s k h where r: "r = (p, s, k, h)" by (cases r)
  define e where "e = store_command (cmds ! count) p (Some s) (Some k) (Some h)"
  let ?cmds = "cmds[count := e]"
  have ok: "row_ok (p, s, k, h)" and cm: "count < m" using Cons.prems r by auto
  obtain cmds' where IH: "load_loop ?cmds (Suc count) m (concat (map csv_row rows)) = (Suc count + length rows, cmds')"
    "length cmds' = length ?cmds" "take (Suc count) cmds' = take (Suc count) ?cmds"
    "list_all terminated (take (length rows) (drop (Suc count) cmds'))"
    "map entry_row (take (length rows) (drop (Suc count) cmds')) = rows"
    using Cons.IH [of "Suc count" ?cmds] Cons.prems by auto
  have lt: "count < length cmds'" using cm Cons.prems IH(2) by simp
  have nth: "cmds' ! count = e"
    using IH(3) lt IH(2) by (metis length_list_update lessI nth_list_update_eq nth_take)
  have dr: "drop count cmds' = e # drop (Suc count) cmds'"
    using lt nth by (metis Cons_nth_drop_Suc)
  have tk: "take count cmds' = take count cmds"
    using arg_cong [OF IH(3), of "take count"] by (simp add: min_def)
  show ?case
    using load_loop_row [OF ok cm, of cmds "concat (map csv_row rows)"] IH dr tk store_row [OF ok, of "cmds ! count"]
    by (simp add: r e_def del: csv_row.simps row_ok.simps)
qed

text \<open>
  Loading is the inverse of printing: from a file of at most 50 rows of four non-empty
  columns that fit their fields, \<open>load_commands\<close> reads exactly those rows into the array, in
  order and properly terminated, whatever the (uninitialised) array held before.
\<close>

theorem load_commands_rows:
  assumes "list_all row_ok rows" and "length rows \<le> 50" and "length cmds = 50"
  shows "\<exists>cmds'. load_commands (Some (concat (map csv_row rows))) cmds 50 = ([], Some (length rows, cmds')) \<and>
    list_all terminated (take (length rows) cmds') \<and> map entry_row (take (length rows) cmds') = rows"
  using load_loop_rows [of rows 0 50 cmds] assms by (auto simp: load_commands_def)

theorem load_commands_rows_witness:
  "\<exists>cmds'. load_commands (Some ''route,add,route_add.sh,adds\<newline>'')
      (replicate 50 \<lparr>primary = [], secondary = [], command_script = [], help_text = []\<rparr>) 50
      = ([], Some (1, cmds')) \<and>
    map entry_row (take 1 cmds') = [(''route'', ''add'', ''route_add.sh'', ''adds'')]"
proof -
  let ?z = "\<lparr>primary = [], secondary = [], command_script = [], help_text = []\<rparr>"
  have ok: "list_all row_ok [(''route'', ''add'', ''route_add.sh'', ''adds'')]"
    by (simp add: plain_def nul_def)
  have ft: "concat (map csv_row [(''route'', ''add'', ''route_add.sh'', ''adds'')])
      = ''route,add,route_add.sh,adds\<newline>''" by simp
  have "length [(''route'', ''add'', ''route_add.sh'', ''adds'')] = 1" by simp
  then show ?thesis
    using load_commands_rows [OF ok _ length_replicate, of ?z, unfolded ft] by force
qed

text \<open>
  A row whose second column is empty cannot be expressed in the file: \<open>strtok\<close> takes the
  two adjacent commas as one separator, so the script column is stored as the second word, the
  help column and its line end as the script, and the help text is the default.
\<close>

theorem load_commands_empty_column:
  assumes "plain p" and "plain k" and "plain h"
  shows "parse_line (csv_row (p, '''', k, h)) = (Some p, Some k, Some (h @ ''\<newline>''), None)"
proof -
  have "nul \<notin> set (csv_row (p, '''', k, h))"
    using assms by (auto simp: plain_def nul_def)
  then have "takeWhile (\<lambda>c. c \<noteq> nul) (csv_row (p, '''', k, h)) = csv_row (p, '''', k, h)"
    by (rule takeWhile_nul_free)
  moreover have tok: "strtok (t @ CHR '','' # r) '','' = (Some t, r)" if "plain t" for t r
    using that by (intro strtok_token) (auto simp: plain_def)
  moreover have "strtok (CHR '','' # k @ CHR '','' # r) '','' = (Some k, r)" for r
    using tok [OF assms(2), of r] by (simp add: strtok_def)
  moreover have "strtok (h @ ''\<newline>'') '','' = (Some (h @ ''\<newline>''), [])"
    using assms(3) by (intro strtok_last) (auto simp: plain_def)
  ultimately show ?thesis using assms by (simp add: parse_line_def)
qed

theorem load_commands_empty_column_witness:
  "parse_line ''status,,status.sh,get status\<newline>'' =
     (Some ''status'', Some ''status.sh'', Some ''get status\<newline>'', None)"
  using load_commands_empty_column [of "''status''" "''status.sh''" "''get status''"]
  by (simp add: plain_def nul_def)

section \<open>The embedded table\<close>

lemma embedded_terminated: "list_all terminated embedded_commands"
  by (simp add: embedded_commands_def terminated_def mk_command_def char_array_def)

lemma str_of_char_array: "length s < n \<Longrightarrow> nul \<notin> set s \<Longrightarrow> str_of (char_array n s) = s"
  by (cases "n - length s") (auto simp: char_array_def str_of_def)

text \<open>
  The embedded entry for \<open>route del\<close> is never run through its script file: the file that is
  looked up is the whole text \<open>route_delete.sh -d\<close>, so with only \<open>route_delete.sh\<close> present the
  command ends in the error message.
\<close>

theorem route_del_not_executable:
  assumes "\<not> acc ''route_delete.sh -d''" and "list_all (\<lambda>a. \<not> is_help_flag a) args"
  shows "df_main acc ex ([prog, ''route'', ''del''] @ args) =
    Some ([Perror ''Error: Command script not found or not executable''], 0)"
proof -
  let ?cs = "take (length embedded_commands - 1) embedded_commands"
  have t: "list_all terminated ?cs"
    using embedded_terminated by (auto simp: list_all_iff dest: in_set_takeD)
  have scan: "scan_args (drop 2 ([prog, ''route'', ''del''] @ args)) = (Some ''del'', False)"
    using assms(2) by (subst scan_args_no_flag) (auto simp: is_help_flag_def)
  have "List.find (entry_for ''route'' (Some ''del'')) ?cs =
      Some (mk_command ''route'' ''del'' ''route_delete.sh -d'' ''this is to delete a route'')"
    by (simp add: embedded_commands_def entry_for_def mk_command_def str_of_char_array nul_def)
  then show ?thesis
    using execute_command_terminated [OF t, of "[prog, ''route'', ''del''] @ args" acc ex] scan assms(1)
    by (simp add: df_main_def mk_command_def str_of_char_array nul_def)
qed

theorem route_del_not_executable_witness:
  "df_main (\<lambda>f. f = ''route_delete.sh'') (\<lambda>_ _. True) [''darkflows'', ''route'', ''del'', ''10.0.0.1''] =
     Some ([Perror ''Error: Command script not found or not executable''], 0)"
  using route_del_not_executable [of "\<lambda>f. f = ''route_delete.sh''" "[''10.0.0.1'']" "\<lambda>_ _. True" "''darkflows''"]
  by (simp add: is_help_flag_def)

end
