(* ===== verification/Common.thy ===== *)
theory Common
  imports Prelude
begin

text \<open>
  The byte and string helpers of \<open>src/utils/common.c\<close> and \<open>common.h\<close>.
\<close>

section \<open>MAC addresses\<close>

type_synonym mac = bytes

definition ETH_ALEN :: nat where
  "ETH_ALEN = 6"

text \<open>\<open>memcmp\<close> over the six bytes of the two addresses.\<close>

definition ether_addr_equal :: "mac \<Rightarrow> mac \<Rightarrow> bool" where
  "ether_addr_equal a b \<longleftrightarrow> take ETH_ALEN a = take ETH_ALEN b"

lemma ether_addr_equal_iff [simp]:
  "length a = 6 \<Longrightarrow> length b = 6 \<Longrightarrow> ether_addr_equal a b \<longleftrightarrow> a = b"
  by (simp add: ether_addr_equal_def ETH_ALEN_def)

section \<open>Numbers and names in text\<close>

text \<open>
  \<open>strtol\<close> in base 10, as \<open>atoi\<close> uses it: white space, a sign, digits up to the first other
  character, the value held to the range of a 64-bit \<open>long\<close>. \<open>atoi\<close> keeps its low 32 bits.
\<close>

definition is_space :: "char \<Rightarrow> bool" where
  "is_space c \<longleftrightarrow> c = CHR '' '' \<or> (of_char c \<ge> (9::nat) \<and> of_char c \<le> (13::nat))"

definition is_digit :: "char \<Rightarrow> bool" where
  "is_digit c \<longleftrightarrow> of_char c \<ge> (48::nat) \<and> of_char c \<le> (57::nat)"

fun digits_value :: "int \<Rightarrow> string \<Rightarrow> int" where
  "digits_value acc [] = acc"
| "digits_value acc (c # cs) = (if is_digit c then digits_value (acc * 10 + (of_char c - 48)) cs else acc)"

definition strtol10 :: "string \<Rightarrow> int" where
  "strtol10 str =
     (let str = dropWhile is_space str;
          v = (case str of
                 [] \<Rightarrow> 0
               | c # cs \<Rightarrow> if c = CHR ''-'' then - digits_value 0 cs
                           else if c = CHR ''+'' then digits_value 0 cs
                           else digits_value 0 (c # cs))
      in max (- (2 ^ 63)) (min (2 ^ 63 - 1) v))"

definition atoi :: "string \<Rightarrow> u32" where
  "atoi str = word_of_int (strtol10 str)"

text \<open>\<open>strcasecmp\<close> in the C locale: whether the strings agree up to the case of ASCII letters.\<close>

definition to_lower :: "char \<Rightarrow> char" where
  "to_lower c = (if of_char c \<ge> (65::nat) \<and> of_char c \<le> (90::nat) then char_of (of_char c + (32::nat)) else c)"

definition strcasecmp_eq :: "string \<Rightarrow> string \<Rightarrow> bool" where
  "strcasecmp_eq a b \<longleftrightarrow> map to_lower a = map to_lower b"

section \<open>Merging byte arrays\<close>

text \<open>
  \<open>merge_byte_arrays\<close> fills an array of \<open>res_len\<close> bytes: zero, then as much of each present
  source as fits. The result is the array and the returned length.
\<close>

definition merge_byte_arrays :: "nat \<Rightarrow> bytes option \<Rightarrow> bytes option \<Rightarrow> bytes \<times> nat" where
  "merge_byte_arrays res_len src1 src2 =
     (let zero = replicate res_len 0;
          step2 = (\<lambda>res len.
            case src2 of
              None \<Rightarrow> (res, len)
            | Some s2 \<Rightarrow>
                if len + length s2 \<ge> res_len
                then (take len res @ take (res_len - len) s2, res_len)
                else (take len res @ s2 @ drop (len + length s2) res, len + length s2))
      in case src1 of
           None \<Rightarrow> step2 zero 0
         | Some s1 \<Rightarrow>
             if length s1 \<ge> res_len then (take res_len s1, res_len)
             else step2 (s1 @ drop (length s1) zero) (length s1))"

text \<open>A missing source counts as an empty one: the result is the cut or zero-padded concatenation.\<close>

lemma merge_byte_arrays_eq:
  "merge_byte_arrays n s1 s2 =
     (let s = (case s1 of None \<Rightarrow> [] | Some x \<Rightarrow> x) @ (case s2 of None \<Rightarrow> [] | Some x \<Rightarrow> x)
      in (take n s @ replicate (n - length s) 0, min n (length s)))"
  by (auto simp: merge_byte_arrays_def Let_def min_def not_le not_less split: option.splits)

lemma length_merge_byte_arrays [simp]: "length (fst (merge_byte_arrays n s1 s2)) = n"
  by (simp add: merge_byte_arrays_eq Let_def)

section \<open>Comparison in constant time\<close>

definition os_memcmp_const :: "bytes \<Rightarrow> bytes \<Rightarrow> nat \<Rightarrow> byte" where
  "os_memcmp_const a b n = foldl (\<lambda>res i. res OR (a ! i XOR b ! i)) 0 [0..<n]"

lemma or_zero_iff: "x OR y = 0 \<longleftrightarrow> x = 0 \<and> y = (0 :: byte)"
  by (metis bit.disj_zero_right or.assoc or.commute or.idem or_eq_0_iff)

lemma xor_zero_iff: "x XOR y = 0 \<longleftrightarrow> x = (y :: byte)"
  by (metis xor.assoc xor.left_neutral xor_self_eq)

lemma memcmp_const_nth: "os_memcmp_const a b n = 0 \<longleftrightarrow> (\<forall>i < n. a ! i = b ! i)"
proof -
  have "foldl (\<lambda>res i. res OR (a ! i XOR b ! i)) r xs = 0 \<longleftrightarrow> r = 0 \<and> (\<forall>i \<in> set xs. a ! i = b ! i)" for r xs
    by (induction xs arbitrary: r) (auto simp: or_zero_iff xor_zero_iff)
  then show ?thesis by (auto simp: os_memcmp_const_def)
qed

lemma memcmp_const_zero:
  "n \<le> length a \<Longrightarrow> n \<le> length b \<Longrightarrow> os_memcmp_const a b n = 0 \<longleftrightarrow> take n a = take n b"
  by (auto simp: memcmp_const_nth list_eq_iff_nth_eq)

end
