(* ===== verification/Os_Time.thy ===== *)
theory Os_Time
  imports Prelude
begin

text \<open>
  Relative times, \<open>struct os_reltime\<close> of \<open>src/utils/os.h\<close>, and the comparison and subtraction the
  rest of the program uses. Seconds and microseconds are 64-bit \<open>long\<close> in the source; the values the
  clock delivers are far from its limits, and where the code guards against overflow the limit is
  written out.
\<close>

record reltime =
  sec :: int
  usec :: int

definition os_reltime_sub :: "reltime \<Rightarrow> reltime \<Rightarrow> reltime" where
  "os_reltime_sub a b =
     (let s = sec a - sec b; u = usec a - usec b
      in if u < 0 then \<lparr>sec = s - 1, usec = u + 1000000\<rparr> else \<lparr>sec = s, usec = u\<rparr>)"

definition os_reltime_expired :: "reltime \<Rightarrow> reltime \<Rightarrow> int \<Rightarrow> bool" where
  "os_reltime_expired now ts timeout_secs =
     (let age = os_reltime_sub now ts
      in sec age > timeout_secs \<or> (sec age = timeout_secs \<and> usec age > 0))"

definition os_reltime_before :: "reltime \<Rightarrow> reltime \<Rightarrow> bool" where
  "os_reltime_before a b \<longleftrightarrow> sec a < sec b \<or> (sec a = sec b \<and> usec a < usec b)"

text \<open>A time as the clock gives it, and the number of microseconds it stands for.\<close>

definition time_ok :: "reltime \<Rightarrow> bool" where
  "time_ok t \<longleftrightarrow> 0 \<le> usec t \<and> usec t < 1000000"

definition micros :: "reltime \<Rightarrow> int" where
  "micros t = sec t * 1000000 + usec t"

lemma before_micros: "time_ok a \<Longrightarrow> time_ok b \<Longrightarrow> os_reltime_before a b \<longleftrightarrow> micros a < micros b"
  by (auto simp: time_ok_def micros_def os_reltime_before_def)

lemma before_irrefl [simp]: "\<not> os_reltime_before t t"
  by (simp add: os_reltime_before_def)

lemma before_asym: "os_reltime_before a b \<Longrightarrow> \<not> os_reltime_before b a"
  by (auto simp: os_reltime_before_def)

lemma not_before_trans: "\<not> os_reltime_before b a \<Longrightarrow> \<not> os_reltime_before c b \<Longrightarrow> \<not> os_reltime_before c a"
  by (auto simp: os_reltime_before_def)

lemma reltime_sub_micros:
  "time_ok a \<Longrightarrow> time_ok b \<Longrightarrow> micros (os_reltime_sub a b) = micros a - micros b \<and> time_ok (os_reltime_sub a b)"
  by (auto simp: time_ok_def micros_def os_reltime_sub_def Let_def)

end
