(* ===== verification/Linked_Lists.thy ===== *)
theory Linked_Lists
  imports Prelude
begin

text \<open>
  Linked structures in an explicit store. A store maps addresses to nodes; a pointer is an
  optional address, \<open>None\<close> for the null pointer. A node may carry several link fields (list order,
  hash chain, back link): each is given by its accessor, so one node can be on several chains, as
  the nodes of the AP table and of the PMKSA cache are.

  \<open>chain h nx p xs\<close> says that following the field \<open>nx\<close> from \<open>p\<close> visits exactly the allocated nodes
  \<open>xs\<close> and ends at null. The loops of the source that walk a chain are \<open>partial_function\<close>s, for
  which a cyclic chain has no result; on a chain they return what the list functions return.
\<close>

type_synonym ptr = "nat option"
type_synonym 'n store = "nat \<Rightarrow> 'n option"

section \<open>Chains\<close>

fun chain :: "'n store \<Rightarrow> ('n \<Rightarrow> ptr) \<Rightarrow> ptr \<Rightarrow> nat list \<Rightarrow> bool" where
  "chain h nx p [] \<longleftrightarrow> p = None"
| "chain h nx p (a # as) \<longleftrightarrow> p = Some a \<and> (\<exists>n. h a = Some n \<and> chain h nx (nx n) as)"

text \<open>The head pointer of a chain over \<open>xs\<close>.\<close>

definition head :: "nat list \<Rightarrow> ptr" where
  "head xs = (case xs of [] \<Rightarrow> None | a # _ \<Rightarrow> Some a)"

lemma head_simps [simp]: "head [] = None" "head (a # as) = Some a"
  by (simp_all add: head_def)

lemma chain_head: "chain h nx p xs \<Longrightarrow> p = head xs"
  by (cases xs) auto

lemma chain_None [simp]: "chain h nx None xs \<longleftrightarrow> xs = []"
  by (cases xs) auto

lemma chain_dom: "chain h nx p xs \<Longrightarrow> a \<in> set xs \<Longrightarrow> \<exists>n. h a = Some n"
  by (induction xs arbitrary: p) auto

lemma chain_unique: "chain h nx p xs \<Longrightarrow> chain h nx p ys \<Longrightarrow> xs = ys"
proof (induction xs arbitrary: p ys)
  case Nil
  then show ?case by simp
next
  case (Cons a as)
  then show ?case by (cases ys) auto
qed

lemma chain_append:
  "chain h nx p (xs @ y # ys) \<Longrightarrow> chain h nx (Some y) (y # ys)"
  by (induction xs arbitrary: p) auto

lemma chain_distinct: "chain h nx p xs \<Longrightarrow> distinct xs"
proof (induction xs arbitrary: p)
  case (Cons a as)
  obtain n where n: "h a = Some n" "chain h nx (nx n) as" using Cons.prems by auto
  have "a \<notin> set as"
  proof
    assume "a \<in> set as"
    then obtain us vs where as: "as = us @ a # vs" by (auto simp: in_set_conv_decomp)
    have "chain h nx (Some a) (a # vs)" using n(2) unfolding as by (rule chain_append)
    then have "a # vs = a # as" using Cons.prems chain_unique by (metis chain.simps(2))
    then show False using as by simp
  qed
  then show ?case using Cons.IH n(2) by simp
qed simp

text \<open>A chain depends only on the link fields of its own nodes.\<close>

lemma chain_cong:
  "(\<And>a. a \<in> set xs \<Longrightarrow> map_option nx (h a) = map_option nx (h' a)) \<Longrightarrow>
     chain h nx p xs \<longleftrightarrow> chain h' nx p xs"
proof (induction xs arbitrary: p)
  case (Cons a as)
  have "map_option nx (h a) = map_option nx (h' a)" using Cons.prems by simp
  moreover have "chain h nx q as \<longleftrightarrow> chain h' nx q as" for q
    using Cons.IH Cons.prems by simp
  ultimately show ?case by (cases "h a"; cases "h' a") auto
qed simp

lemma chain_upd_other [simp]:
  "a \<notin> set xs \<Longrightarrow> chain (h(a := v)) nx p xs \<longleftrightarrow> chain h nx p xs"
  by (rule chain_cong) auto

lemma chain_upd_same_link:
  "h a = Some n \<Longrightarrow> nx n' = nx n \<Longrightarrow> chain (h(a \<mapsto> n')) nx p xs \<longleftrightarrow> chain h nx p xs"
  by (rule chain_cong) auto

lemma chain_Cons_new:
  "chain h nx p xs \<Longrightarrow> a \<notin> set xs \<Longrightarrow> nx n = p \<Longrightarrow> chain (h(a \<mapsto> n)) nx (Some a) (a # xs)"
  by simp

section \<open>Walking a chain\<close>

text \<open>The first node for which the test holds; the test sees the address and the node.\<close>

partial_function (option) chain_find ::
  "'n store \<Rightarrow> ('n \<Rightarrow> ptr) \<Rightarrow> (nat \<Rightarrow> 'n \<Rightarrow> bool) \<Rightarrow> ptr \<Rightarrow> ptr option" where
  "chain_find h nx P p =
     (case p of
        None \<Rightarrow> Some None
      | Some a \<Rightarrow> do { n \<leftarrow> h a; if P a n then Some (Some a) else chain_find h nx P (nx n) })"

text \<open>
  The walk with a trailing pointer, used to unlink: \<open>Some None\<close> if the test holds nowhere,
  \<open>Some (Some q)\<close> if it holds first at a node whose predecessor is \<open>q\<close>.
\<close>

partial_function (option) chain_find_prev ::
  "'n store \<Rightarrow> ('n \<Rightarrow> ptr) \<Rightarrow> (nat \<Rightarrow> 'n \<Rightarrow> bool) \<Rightarrow> ptr \<Rightarrow> ptr \<Rightarrow> ptr option option" where
  "chain_find_prev h nx P prev p =
     (case p of
        None \<Rightarrow> Some None
      | Some a \<Rightarrow> do { n \<leftarrow> h a;
          if P a n then Some (Some prev) else chain_find_prev h nx P (Some a) (nx n) })"

abbreviation at :: "'n store \<Rightarrow> (nat \<Rightarrow> 'n \<Rightarrow> bool) \<Rightarrow> nat \<Rightarrow> bool" where
  "at h P a \<equiv> P a (the (h a))"

lemma chain_find_chain:
  "chain h nx p xs \<Longrightarrow> chain_find h nx P p = Some (List.find (at h P) xs)"
proof (induction xs arbitrary: p)
  case Nil
  then show ?case by (simp add: chain_find.simps)
next
  case (Cons a as)
  then show ?case by (subst chain_find.simps) auto
qed

lemma chain_find_prev_not_found:
  "chain h nx p xs \<Longrightarrow> \<forall>a\<in>set xs. \<not> at h P a \<Longrightarrow> chain_find_prev h nx P q p = Some None"
proof (induction xs arbitrary: p q)
  case Nil
  then show ?case by (simp add: chain_find_prev.simps)
next
  case (Cons a as)
  then show ?case by (subst chain_find_prev.simps) auto
qed

lemma chain_find_prev_found:
  "chain h nx p (xs @ a # ys) \<Longrightarrow> \<forall>b\<in>set xs. \<not> at h P b \<Longrightarrow> at h P a \<Longrightarrow>
     chain_find_prev h nx P q p = Some (Some (if xs = [] then q else Some (last xs)))"
proof (induction xs arbitrary: p q)
  case Nil
  then show ?case by (subst chain_find_prev.simps) auto
next
  case (Cons b xs)
  then show ?case by (subst chain_find_prev.simps) auto
qed

section \<open>Unlinking\<close>

text \<open>Skipping the node after \<open>q\<close>: the predecessor takes over the removed node's link.\<close>

lemma chain_skip:
  assumes "chain h nx p (xs @ q # a # ys)" and "h q = Some m" and "h a = Some n" and "nx m' = nx n"
  shows "chain (h(q \<mapsto> m')) nx p (xs @ q # ys)"
  using assms
proof (induction xs arbitrary: p)
  case Nil
  then have "q \<notin> set ys" using chain_distinct [of h nx p "q # a # ys"] by simp
  with Nil have "chain (h(q \<mapsto> m')) nx p ([] @ q # ys)" by auto
  then show ?case .
next
  case (Cons b xs)
  obtain k where k: "p = Some b" "h b = Some k" "chain h nx (nx k) (xs @ q # a # ys)"
    using Cons.prems(1) by auto
  have "b \<noteq> q" using chain_distinct [OF Cons.prems(1)] by auto
  moreover have "chain (h(q \<mapsto> m')) nx (nx k) (xs @ q # ys)"
    using Cons.IH [OF k(3)] Cons.prems(2-4) by blast
  ultimately have "chain (h(q \<mapsto> m')) nx p ((b # xs) @ q # ys)" using k(1,2) by simp
  then show ?case .
qed

lemma chain_tail:
  "chain h nx p (a # xs) \<Longrightarrow> h a = Some n \<Longrightarrow> chain h nx (nx n) xs"
  by auto

section \<open>Back links\<close>

text \<open>
  \<open>backs h pv q xs\<close>: the field \<open>pv\<close> of the first node of \<open>xs\<close> is \<open>q\<close>, that of every other node
  is its predecessor in \<open>xs\<close>.
\<close>

fun backs :: "'n store \<Rightarrow> ('n \<Rightarrow> ptr) \<Rightarrow> ptr \<Rightarrow> nat list \<Rightarrow> bool" where
  "backs h pv q [] \<longleftrightarrow> True"
| "backs h pv q (a # as) \<longleftrightarrow> (\<exists>n. h a = Some n \<and> pv n = q) \<and> backs h pv (Some a) as"

lemma backs_cong:
  "(\<And>a. a \<in> set xs \<Longrightarrow> map_option pv (h a) = map_option pv (h' a)) \<Longrightarrow>
     backs h pv q xs \<longleftrightarrow> backs h' pv q xs"
proof (induction xs arbitrary: q)
  case (Cons a as)
  have "map_option pv (h a) = map_option pv (h' a)" using Cons.prems by simp
  moreover have "backs h pv q' as \<longleftrightarrow> backs h' pv q' as" for q'
    using Cons.IH Cons.prems by simp
  ultimately show ?case by (cases "h a"; cases "h' a") auto
qed simp

lemma backs_upd_other [simp]:
  "a \<notin> set xs \<Longrightarrow> backs (h(a := v)) pv q xs \<longleftrightarrow> backs h pv q xs"
  by (rule backs_cong) auto

lemma backs_append [simp]:
  "backs h pv q (xs @ ys) \<longleftrightarrow>
     backs h pv q xs \<and> backs h pv (if xs = [] then q else Some (last xs)) ys"
  by (induction xs arbitrary: q) auto

section \<open>Writing to the store\<close>

text \<open>A write through a pointer has no defined result when nothing is allocated there.\<close>

definition wr :: "'n store \<Rightarrow> nat \<Rightarrow> ('n \<Rightarrow> 'n) \<Rightarrow> 'n store option" where
  "wr h a f = do { n \<leftarrow> h a; Some (h(a \<mapsto> f n)) }"

lemma wr_Some [simp]: "h a = Some n \<Longrightarrow> wr h a f = Some (h(a \<mapsto> f n))"
  by (simp add: wr_def)

section \<open>Index chains\<close>

text \<open>
  A hash table: every bucket is the head of a chain, and the chains together hold exactly the
  nodes \<open>A\<close>, each in the bucket its key selects.
\<close>

definition indexed :: "'n store \<Rightarrow> ('n \<Rightarrow> ptr) \<Rightarrow> ('n \<Rightarrow> 'b) \<Rightarrow> ('b \<Rightarrow> ptr) \<Rightarrow> nat set \<Rightarrow> bool" where
  "indexed h nx bk tab A \<longleftrightarrow>
     (\<forall>b. \<exists>ys. chain h nx (tab b) ys \<and> set ys = {a \<in> A. \<exists>n. h a = Some n \<and> bk n = b}) \<and>
     (\<forall>a\<in>A. \<exists>n. h a = Some n)"

lemma indexedE:
  assumes "indexed h nx bk tab A"
  obtains ys where "chain h nx (tab b) ys" "set ys = {a \<in> A. \<exists>n. h a = Some n \<and> bk n = b}"
  using assms unfolding indexed_def by blast

lemma indexed_cong:
  assumes "\<And>a. a \<in> A \<Longrightarrow> map_option (\<lambda>n. (nx n, bk n)) (h a) = map_option (\<lambda>n. (nx n, bk n)) (h' a)"
    and "indexed h nx bk tab A"
  shows "indexed h' nx bk tab A"
  unfolding indexed_def
proof (intro conjI allI ballI)
  fix b
  obtain ys where ys: "chain h nx (tab b) ys" "set ys = {a \<in> A. \<exists>n. h a = Some n \<and> bk n = b}"
    using assms(2) by (rule indexedE)
  have eq: "(\<exists>n. h a = Some n \<and> bk n = b) \<longleftrightarrow> (\<exists>n. h' a = Some n \<and> bk n = b)"
    and lk: "map_option nx (h a) = map_option nx (h' a)" if "a \<in> A" for a
    using assms(1) [OF that] by (cases "h a"; cases "h' a"; auto)+
  have "chain h' nx (tab b) ys"
    using ys lk by (subst chain_cong [of ys nx h' h]) auto
  moreover have "set ys = {a \<in> A. \<exists>n. h' a = Some n \<and> bk n = b}" using ys(2) eq by auto
  ultimately show "\<exists>ys. chain h' nx (tab b) ys \<and> set ys = {a \<in> A. \<exists>n. h' a = Some n \<and> bk n = b}"
    by blast
next
  fix a assume "a \<in> A"
  then have "\<exists>n. h a = Some n" using assms(2) by (simp add: indexed_def)
  then show "\<exists>n. h' a = Some n" using assms(1) [OF \<open>a \<in> A\<close>] by (cases "h' a") auto
qed

lemma indexed_upd_outside:
  "indexed h nx bk tab A \<Longrightarrow> a \<notin> A \<Longrightarrow> indexed (h(a := v)) nx bk tab A"
  by (rule indexed_cong [of A nx bk h]) auto

lemma indexed_insert:
  assumes "indexed h nx bk tab A" and "a \<notin> A" and "nx n = tab (bk n)"
  shows "indexed (h(a \<mapsto> n)) nx bk (tab(bk n := Some a)) (insert a A)"
  unfolding indexed_def
proof (intro conjI allI ballI)
  fix b
  obtain ys where ys: "chain h nx (tab b) ys" "set ys = {a \<in> A. \<exists>n. h a = Some n \<and> bk n = b}"
    using assms(1) by (rule indexedE)
  have notin: "a \<notin> set ys" using ys(2) assms(2) by blast
  show "\<exists>ys. chain (h(a \<mapsto> n)) nx ((tab(bk n := Some a)) b) ys \<and>
      set ys = {x \<in> insert a A. \<exists>m. (h(a \<mapsto> n)) x = Some m \<and> bk m = b}"
  proof (cases "b = bk n")
    case True
    have "chain (h(a \<mapsto> n)) nx (Some a) (a # ys)"
      using ys(1) notin assms(3) True by simp
    then show ?thesis using True ys(2) assms(2) by (intro exI [of _ "a # ys"]) auto
  next
    case False
    have "set ys = {x \<in> insert a A. \<exists>m. (h(a \<mapsto> n)) x = Some m \<and> bk m = b}"
      using False ys(2) assms(2) by auto
    then show ?thesis using False ys(1) notin by (intro exI [of _ ys]) simp
  qed
next
  fix x assume "x \<in> insert a A"
  then show "\<exists>m. (h(a \<mapsto> n)) x = Some m" using assms(1) by (auto simp: indexed_def)
qed

text \<open>Removing a node: from the head of its bucket, or by skipping it after its predecessor.\<close>

lemma indexed_remove_bucket:
  assumes "indexed h nx bk tab A" and "h a = Some n" and "chain h' nx q ys'"
    and "set ys' = {x \<in> A - {a}. \<exists>m. h x = Some m \<and> bk m = bk n}"
    and "\<And>x. x \<in> A \<Longrightarrow> bk (the (h x)) \<noteq> bk n \<Longrightarrow> h' x = h x"
    and "\<And>x. map_option bk (h' x) = map_option bk (h x)"
  shows "indexed h' nx bk (tab(bk n := q)) (A - {a})"
  unfolding indexed_def
proof (intro conjI allI ballI)
  fix b
  have mb: "(\<exists>m. h' x = Some m \<and> bk m = b) \<longleftrightarrow> (\<exists>m. h x = Some m \<and> bk m = b)" for x b
    using assms(6) [of x] by (cases "h x"; cases "h' x") auto
  show "\<exists>ys. chain h' nx ((tab(bk n := q)) b) ys \<and> set ys = {x \<in> A - {a}. \<exists>m. h' x = Some m \<and> bk m = b}"
  proof (cases "b = bk n")
    case True
    then show ?thesis using assms(3,4) mb by (intro exI [of _ ys']) auto
  next
    case False
    obtain ys where ys: "chain h nx (tab b) ys" "set ys = {a \<in> A. \<exists>n. h a = Some n \<and> bk n = b}"
      using assms(1) by (rule indexedE)
    have "h' x = h x" if "x \<in> set ys" for x using that ys(2) False assms(5) by auto
    then have "chain h' nx (tab b) ys" using ys(1) by (subst chain_cong [of ys nx h' h]) auto
    then show ?thesis using False ys(2) mb assms(2) by (intro exI [of _ ys]) auto
  qed
next
  fix x assume "x \<in> A - {a}"
  then have "\<exists>m. h x = Some m" using assms(1) by (simp add: indexed_def)
  then show "\<exists>m. h' x = Some m" using assms(6) [of x] by (cases "h' x") auto
qed

section \<open>The link-field interface\<close>

text \<open>
  What a client needs to know of a node type with a hash link: reading the link gives what was
  written, and writing it leaves the bucket of the node alone.
\<close>

locale hash_link =
  fixes hnext :: "'n \<Rightarrow> ptr"
    and set_hnext :: "ptr \<Rightarrow> 'n \<Rightarrow> 'n"
    and bk :: "'n \<Rightarrow> 'b"
  assumes hnext_set: "hnext (set_hnext p n) = p"
    and bk_set: "bk (set_hnext p n) = bk n"
begin

lemma find_sound:
  assumes "indexed h hnext bk tab A" and "\<And>a n. a \<in> A \<Longrightarrow> h a = Some n \<Longrightarrow> P a n \<Longrightarrow> bk n = b"
  shows "\<exists>r. chain_find h hnext P (tab b) = Some r \<and>
    (case r of None \<Rightarrow> \<forall>a\<in>A. \<not> at h P a | Some a \<Rightarrow> a \<in> A \<and> at h P a)"
proof -
  obtain ys where ys: "chain h hnext (tab b) ys" "set ys = {a \<in> A. \<exists>n. h a = Some n \<and> bk n = b}"
    using assms(1) by (rule indexedE)
  have inA: "a \<in> set ys \<longleftrightarrow> a \<in> A" if "at h P a" for a
    using that ys(2) assms by (fastforce simp: indexed_def)
  show ?thesis
  proof (cases "List.find (at h P) ys")
    case None
    then have "\<forall>a\<in>A. \<not> at h P a" using inA by (auto simp: find_None_iff)
    with None show ?thesis using chain_find_chain [OF ys(1), of P] by auto
  next
    case (Some a)
    then have "a \<in> set ys" and "at h P a" by (auto simp: find_Some_iff)
    with Some show ?thesis using chain_find_chain [OF ys(1), of P] inA by auto
  qed
qed

text \<open>
  Unlinking the one node that satisfies the test: its bucket is not empty, and either it is the
  head, whose link becomes the new head, or the walk finds its predecessor, which skips it.
\<close>

lemma unlink_sound:
  assumes ix: "indexed h hnext bk tab A" and a: "a \<in> A" "h a = Some n"
    and P: "\<forall>x\<in>A. at h P x \<longleftrightarrow> x = a"
  obtains (head) "tab (bk n) = Some a"
      "indexed h hnext bk (tab(bk n := hnext n)) (A - {a})"
      "chain_find_prev h hnext P None (tab (bk n)) = Some (Some None)"
  | (inner) x xn q qn where "tab (bk n) = Some x" "x \<noteq> a" "x \<in> A" "h x = Some xn"
      "chain_find_prev h hnext P (Some x) (hnext xn) = Some (Some (Some q))"
      "chain_find_prev h hnext P None (tab (bk n)) = Some (Some (Some q))"
      "q \<in> A" "q \<noteq> a" "h q = Some qn" "hnext qn = Some a"
      "indexed (h(q \<mapsto> set_hnext (hnext n) qn)) hnext bk tab (A - {a})"
proof -
  obtain ys where ys: "chain h hnext (tab (bk n)) ys" "set ys = {x \<in> A. \<exists>m. h x = Some m \<and> bk m = bk n}"
    using ix by (rule indexedE)
  have "a \<in> set ys" using a ys(2) by auto
  then obtain us vs where split: "ys = us @ a # vs" by (auto simp: in_set_conv_decomp)
  have dist: "distinct ys" using ys(1) by (rule chain_distinct)
  have Pus: "\<forall>b\<in>set us. \<not> at h P b" and Pa: "at h P a"
    using P ys(2) dist a(1) by (auto simp: split)
  have walk: "chain_find_prev h hnext P r (tab (bk n)) = Some (Some (if us = [] then r else Some (last us)))" for r
    using ys(1) [unfolded split] Pus Pa by (rule chain_find_prev_found)
  show thesis
  proof (cases us rule: rev_cases)
    case Nil
    have "tab (bk n) = Some a" and rest: "chain h hnext (hnext n) vs"
      using ys(1) a(2) by (auto simp: split Nil)
    moreover have "indexed h hnext bk (tab(bk n := hnext n)) (A - {a})"
    proof (rule indexed_remove_bucket [OF ix a(2) rest])
      show "set vs = {x \<in> A - {a}. \<exists>m. h x = Some m \<and> bk m = bk n}"
        using ys(2) dist by (auto simp: split Nil)
    qed auto
    ultimately show thesis using walk [of None] by (intro head) (simp_all add: Nil)
  next
    case (snoc us' q)
    have "us \<noteq> []" using snoc by simp
    then obtain x zs where us: "us = x # zs" by (cases us) blast+
    obtain xn where xn: "h x = Some xn" "tab (bk n) = Some x" "chain h hnext (hnext xn) (zs @ a # vs)"
      using ys(1) by (auto simp: split us)
    have "q \<in> set ys" by (simp add: split snoc)
    then obtain qn where qn: "h q = Some qn" "bk qn = bk n" "q \<in> A" using ys(2) by auto
    have xq: "x \<in> set us" by (simp add: us)
    have "q \<in> set us" by (simp add: snoc)
    with xq have qa: "q \<noteq> a" "x \<noteq> a" and "x \<in> set ys" using dist by (auto simp: split)
    then have xA: "x \<in> A" using ys(2) by auto
    have ch: "chain h hnext (tab (bk n)) (us' @ q # a # vs)" using ys(1) by (simp add: split snoc)
    have hq: "hnext qn = Some a" using chain_append [OF ch] qn(1) by auto
    have "chain (h(q \<mapsto> set_hnext (hnext n) qn)) hnext (tab (bk n)) (us' @ q # vs)"
      using ch qn(1) a(2) hnext_set by (rule chain_skip)
    then have "indexed (h(q \<mapsto> set_hnext (hnext n) qn)) hnext bk (tab(bk n := tab (bk n))) (A - {a})"
    proof (rule indexed_remove_bucket [OF ix a(2)])
      show "set (us' @ q # vs) = {x \<in> A - {a}. \<exists>m. h x = Some m \<and> bk m = bk n}"
        using ys(2) dist by (auto simp: split snoc)
    qed (use qn bk_set in auto)
    then have "indexed (h(q \<mapsto> set_hnext (hnext n) qn)) hnext bk tab (A - {a})" by simp
    moreover have "chain_find_prev h hnext P (Some x) (hnext xn) = Some (Some (Some q))"
    proof -
      have "last us = q" by (simp add: snoc)
      then have "(if zs = [] then Some x else Some (last zs)) = Some q" by (simp add: us split: if_splits)
      moreover have "\<forall>b\<in>set zs. \<not> at h P b" using Pus by (simp add: us)
      ultimately show ?thesis using chain_find_prev_found [OF xn(3), of P "Some x"] Pa by simp
    qed
    ultimately show thesis
      using xn qn qa hq xA walk [of None] by (intro inner [of x xn q qn]) (simp_all add: snoc)
  qed
qed

end

section \<open>Singly linked lists\<close>

text \<open>
  The walk to a place in a list: the node before the first that satisfies the test, or the last
  node if none does (\<open>prev\<close> if there is no node before).
\<close>

partial_function (option) chain_walk ::
  "'n store \<Rightarrow> ('n \<Rightarrow> ptr) \<Rightarrow> (nat \<Rightarrow> 'n \<Rightarrow> bool) \<Rightarrow> ptr \<Rightarrow> ptr \<Rightarrow> ptr option" where
  "chain_walk h nx P prev p =
     (case p of
        None \<Rightarrow> Some prev
      | Some a \<Rightarrow> do { n \<leftarrow> h a; if P a n then Some prev else chain_walk h nx P (Some a) (nx n) })"

lemma chain_walk_chain:
  "chain h nx p xs \<Longrightarrow>
     chain_walk h nx P q p =
       Some (let ys = takeWhile (\<lambda>a. \<not> at h P a) xs in if ys = [] then q else Some (last ys))"
proof (induction xs arbitrary: p q)
  case Nil
  then show ?case by (simp add: chain_walk.simps)
next
  case (Cons a as)
  then obtain n where n: "p = Some a" "h a = Some n" "chain h nx (nx n) as" by auto
  then have "chain_walk h nx P q p = (if P a n then Some q else chain_walk h nx P (Some a) (nx n))"
    by (subst chain_walk.simps) simp
  then show ?case using Cons.IH [OF n(3)] n(2) by (simp add: Let_def)
qed

lemma chain_insert_after:
  assumes "chain h nx p (us @ q # vs)" and "a \<notin> set (us @ q # vs)" and "nx n = head vs" and "nx m' = Some a"
  shows "chain (h(q \<mapsto> m', a \<mapsto> n)) nx p (us @ q # a # vs)"
  using assms
proof (induction us arbitrary: p)
  case Nil
  then obtain m where m: "p = Some q" "h q = Some m" "chain h nx (nx m) vs" by auto
  have d: "q \<notin> set vs" "a \<notin> set vs" "a \<noteq> q" using Nil chain_distinct [OF Nil(1)] by auto
  have "chain h nx (head vs) vs" using m(3) chain_head by metis
  then have "chain (h(q \<mapsto> m', a \<mapsto> n)) nx (head vs) vs" using d by (simp del: fun_upd_apply)
  then have "chain (h(q \<mapsto> m', a \<mapsto> n)) nx p ([] @ q # a # vs)" using m(1) d(3) Nil.prems(3,4) by simp
  then show ?case .
next
  case (Cons b us)
  obtain k where k: "p = Some b" "h b = Some k" "chain h nx (nx k) (us @ q # vs)"
    using Cons.prems(1) by auto
  have "b \<noteq> q" "b \<noteq> a" using chain_distinct [OF Cons.prems(1)] Cons.prems(2) by auto
  moreover have "chain (h(q \<mapsto> m', a \<mapsto> n)) nx (nx k) (us @ q # a # vs)"
    using Cons.prems(2-4) by (intro Cons.IH [OF k(3)]) auto
  ultimately have "chain (h(q \<mapsto> m', a \<mapsto> n)) nx p ((b # us) @ q # a # vs)" using k(1,2) by simp
  then show ?case .
qed

text \<open>
  A node type with a list link: what an unlinking by address and an insertion after a node make
  of a list.
\<close>

locale list_link =
  fixes next_of :: "'n \<Rightarrow> ptr"
    and set_next :: "ptr \<Rightarrow> 'n \<Rightarrow> 'n"
  assumes next_set: "next_of (set_next p n) = p"
begin

lemma unlink_chain:
  assumes ch: "chain h next_of p xs" and a: "a \<in> set xs" "h a = Some n"
  obtains (head) "chain_find_prev h next_of (\<lambda>b _. b = a) None p = Some (Some None)"
      "chain h next_of (next_of n) (remove1 a xs)"
  | (inner) q qn where "chain_find_prev h next_of (\<lambda>b _. b = a) None p = Some (Some (Some q))"
      "q \<in> set xs" "q \<noteq> a" "h q = Some qn" "chain (h(q \<mapsto> set_next (next_of n) qn)) next_of p (remove1 a xs)"
proof -
  have d: "distinct xs" using ch by (rule chain_distinct)
  obtain us vs where xs: "xs = us @ a # vs" using a(1) by (auto simp: in_set_conv_decomp)
  have nin: "a \<notin> set us" using d xs by simp
  then have rm: "remove1 a xs = us @ vs" by (simp add: xs remove1_append)
  have walk: "chain_find_prev h next_of (\<lambda>b _. b = a) None p = Some (Some (if us = [] then None else Some (last us)))"
    using ch [unfolded xs] by (rule chain_find_prev_found) (use nin in auto)
  show thesis
  proof (cases us rule: rev_cases)
    case Nil
    show thesis using walk ch a(2) rm by (intro head) (auto simp: Nil xs)
  next
    case (snoc us' q)
    have ch': "chain h next_of p (us' @ q # a # vs)" using ch by (simp add: xs snoc)
    obtain qn where q: "h q = Some qn" using chain_dom [OF ch'] by fastforce
    have "chain (h(q \<mapsto> set_next (next_of n) qn)) next_of p (us' @ q # vs)"
      using ch' q a(2) next_set by (rule chain_skip)
    then show thesis using walk q nin rm by (intro inner [of q qn]) (auto simp: xs snoc remove1_append)
  qed
qed

end

section \<open>Stores that agree on a view\<close>

text \<open>
  Two stores that allocate the same nodes and agree on what the function \<open>f\<close> shows of each. A write
  of a field that \<open>f\<close> does not show keeps it; a chain through a field that \<open>f\<close> shows is kept by it.
\<close>

definition same_view :: "('n \<Rightarrow> 'v) \<Rightarrow> 'n store \<Rightarrow> 'n store \<Rightarrow> bool" where
  "same_view f h h' \<longleftrightarrow> (\<forall>b. map_option f (h' b) = map_option f (h b))"

lemma same_view_refl [simp]: "same_view f h h"
  by (simp add: same_view_def)

lemma same_view_trans: "same_view f h h' \<Longrightarrow> same_view f h' h'' \<Longrightarrow> same_view f h h''"
  by (simp add: same_view_def)

lemma same_view_upd: "h a = Some n \<Longrightarrow> f n' = f n \<Longrightarrow> same_view f h (h(a \<mapsto> n'))"
  by (simp add: same_view_def)

lemma same_view_dest:
  assumes "same_view f h h'" and "h b = Some n"
  obtains n' where "h' b = Some n'" "f n' = f n"
  using assms by (cases "h' b") (auto simp: same_view_def dest: spec [of _ b])

lemma same_view_None: "same_view f h h' \<Longrightarrow> h' b = None \<longleftrightarrow> h b = None"
  unfolding same_view_def by (metis map_option_is_None)

lemma same_view_weaken:
  assumes "same_view f h h'" and "\<And>m n. f m = f n \<Longrightarrow> g m = g n"
  shows "same_view g h h'"
  unfolding same_view_def
proof
  fix b
  show "map_option g (h' b) = map_option g (h b)"
  proof (cases "h b")
    case None
    then show ?thesis using same_view_None [OF assms(1)] by simp
  next
    case (Some n)
    obtain n' where n': "h' b = Some n'" "f n' = f n" using same_view_dest [OF assms(1) Some] .
    show ?thesis using Some n'(1) assms(2) [OF n'(2)] by simp
  qed
qed

lemma same_view_chain:
  assumes "same_view f h h'" and "\<And>m n. f m = f n \<Longrightarrow> nx m = nx n"
  shows "chain h' nx p xs \<longleftrightarrow> chain h nx p xs"
  using same_view_weaken [OF assms] by (intro chain_cong) (simp add: same_view_def)

lemma same_view_indexed:
  assumes "same_view f h h'" and "\<And>m n. f m = f n \<Longrightarrow> nx m = nx n \<and> bk m = bk n" and "indexed h nx bk tab A"
  shows "indexed h' nx bk tab A"
  using _ assms(3)
proof (rule indexed_cong)
  fix a
  have "(nx m, bk m) = (nx n, bk n)" if "f m = f n" for m n using assms(2) [OF that] by simp
  then have "same_view (\<lambda>n. (nx n, bk n)) h h'" using assms(1) by (rule same_view_weaken [rotated])
  then show "map_option (\<lambda>n. (nx n, bk n)) (h a) = map_option (\<lambda>n. (nx n, bk n)) (h' a)"
    by (simp add: same_view_def)
qed

end
