(* ===== verification/Ap_List.thy ===== *)
theory Ap_List
  imports Common Os_Time Linked_Lists
begin

text \<open>
  The table of neighbouring access points, \<open>src/ap/ap_list.c\<close>: entries on a doubly linked list in
  order of use (the head's back link is the tail) and on hash chains by address; beacons move an
  entry to the front, the table is bounded, and a timer drops entries from the tail.

  The state record holds the members of \<open>struct hostapd_iface\<close> that this file uses, with the store
  of the allocated entries. Two calls into other files, \<open>hostapd_ht_operation_update\<close> and
  \<open>ieee802_11_update_beacons\<close>, are recorded in \<open>events\<close>. The allocator is a parameter: given the
  store it returns the address of a new entry or null.
\<close>

section \<open>Data\<close>

definition WLAN_SUPP_RATES_MAX :: nat where
  "WLAN_SUPP_RATES_MAX = 32"

record ap_info =
  ap_next :: ptr
  ap_prev :: ptr
  ap_hnext :: ptr
  ap_addr :: mac
  supported_rates :: bytes
  erp :: int
  ap_channel :: int
  ht_support :: bool
  last_beacon :: reltime

definition zero_ap :: ap_info where
  "zero_ap = \<lparr>ap_next = None, ap_prev = None, ap_hnext = None, ap_addr = replicate 6 0,
     supported_rates = replicate WLAN_SUPP_RATES_MAX 0, erp = 0, ap_channel = 0,
     ht_support = False, last_beacon = \<lparr>sec = 0, usec = 0\<rparr>\<rparr>"

datatype hw_mode = MODE_B | MODE_G | MODE_A | MODE_AD | MODE_ANY

datatype ap_event = HtOperationUpdate | UpdateBeacons

record iface =
  heap :: "ap_info store"
  ap_list :: ptr
  ap_hash :: "byte \<Rightarrow> ptr"
  num_ap :: int
  olbc :: bool
  olbc_ht :: bool
  current_mode :: "hw_mode option"
  conf_channel :: byte
  conf_secondary_channel :: int
  ap_table_max_size :: int
  ap_table_expiration_time :: int
  events :: "ap_event list"

text \<open>The elements of a beacon that are used; a present element is the list of its octets.\<close>

record beacon_elems =
  supp_rates :: "bytes option"
  ext_supp_rates :: "bytes option"
  erp_info :: "bytes option"
  ds_params :: "bytes option"
  ht_operation :: "bytes option"
  ht_capabilities :: "bytes option"

definition STA_HASH :: "mac \<Rightarrow> byte" where
  "STA_HASH sta = sta ! 5"

section \<open>Overlapping legacy BSS\<close>

fun olbc_rates :: "bytes \<Rightarrow> bool" where
  "olbc_rates [] = True"
| "olbc_rates (r # rs) =
     (let rate = unat (r AND 0x7f) * 5
      in if rate = 60 \<or> rate = 90 \<or> rate > 110 then False else olbc_rates rs)"

definition ap_list_beacon_olbc :: "iface \<Rightarrow> ap_info \<Rightarrow> bool" where
  "ap_list_beacon_olbc s ap =
     (if current_mode s \<noteq> Some MODE_G \<or> uint (conf_channel s) \<noteq> ap_channel ap then False
      else if erp ap \<noteq> -1 \<and> odd (erp ap) then True
      else olbc_rates (supported_rates ap))"

section \<open>List and hash links\<close>

definition ap_get_ap :: "iface \<Rightarrow> mac \<Rightarrow> ptr option" where
  "ap_get_ap s ap =
     chain_find (heap s) ap_hnext (\<lambda>_ n. ether_addr_equal (ap_addr n) ap) (ap_hash s (STA_HASH ap))"

definition ap_ap_list_add :: "iface \<Rightarrow> nat \<Rightarrow> iface option" where
  "ap_ap_list_add s ap =
     do {
       h \<leftarrow> (case ap_list s of
               Some l \<Rightarrow> do {
                 ln \<leftarrow> heap s l;
                 h \<leftarrow> wr (heap s) ap (\<lambda>n. n\<lparr>ap_prev := ap_prev ln\<rparr>);
                 wr h l (\<lambda>n. n\<lparr>ap_prev := Some ap\<rparr>)
               }
             | None \<Rightarrow> wr (heap s) ap (\<lambda>n. n\<lparr>ap_prev := Some ap\<rparr>));
       h \<leftarrow> wr h ap (\<lambda>n. n\<lparr>ap_next := ap_list s\<rparr>);
       Some (s\<lparr>heap := h, ap_list := Some ap\<rparr>)
     }"

definition ap_ap_list_del :: "iface \<Rightarrow> nat \<Rightarrow> iface option" where
  "ap_ap_list_del s ap =
     do {
       n \<leftarrow> heap s ap;
       s \<leftarrow> (if ap_list s = Some ap then Some (s\<lparr>ap_list := ap_next n\<rparr>)
             else do {
               q \<leftarrow> ap_prev n;
               h \<leftarrow> wr (heap s) q (\<lambda>m. m\<lparr>ap_next := ap_next n\<rparr>);
               Some (s\<lparr>heap := h\<rparr>)
             });
       n \<leftarrow> heap s ap;
       (case ap_next n of
          Some x \<Rightarrow> do {
            h \<leftarrow> wr (heap s) x (\<lambda>m. m\<lparr>ap_prev := ap_prev n\<rparr>);
            Some (s\<lparr>heap := h\<rparr>)
          }
        | None \<Rightarrow>
            (case ap_list s of
               Some l \<Rightarrow> do {
                 h \<leftarrow> wr (heap s) l (\<lambda>m. m\<lparr>ap_prev := ap_prev n\<rparr>);
                 Some (s\<lparr>heap := h\<rparr>)
               }
             | None \<Rightarrow> Some s))
     }"

definition ap_ap_hash_add :: "iface \<Rightarrow> nat \<Rightarrow> iface option" where
  "ap_ap_hash_add s ap =
     do {
       n \<leftarrow> heap s ap;
       let b = STA_HASH (ap_addr n);
       h \<leftarrow> wr (heap s) ap (\<lambda>n. n\<lparr>ap_hnext := ap_hash s b\<rparr>);
       Some (s\<lparr>heap := h, ap_hash := (ap_hash s)(b := Some ap)\<rparr>)
     }"

text \<open>
  The walk of the source looks one node ahead; \<open>chain_find_prev\<close> started at the second node
  returns the same predecessor. When nothing matches the source only prints a message.
\<close>

definition ap_ap_hash_del :: "iface \<Rightarrow> nat \<Rightarrow> iface option" where
  "ap_ap_hash_del s ap =
     do {
       n \<leftarrow> heap s ap;
       let b = STA_HASH (ap_addr n);
       (case ap_hash s b of
          None \<Rightarrow> Some s
        | Some x \<Rightarrow> do {
            xn \<leftarrow> heap s x;
            if ether_addr_equal (ap_addr xn) (ap_addr n)
            then Some (s\<lparr>ap_hash := (ap_hash s)(b := ap_hnext xn)\<rparr>)
            else do {
              r \<leftarrow> chain_find_prev (heap s) ap_hnext (\<lambda>_ m. ether_addr_equal (ap_addr m) (ap_addr n))
                     (Some x) (ap_hnext xn);
              (case r of
                 None \<Rightarrow> Some s
               | Some q \<Rightarrow> do {
                   q \<leftarrow> q;
                   qn \<leftarrow> heap s q;
                   y \<leftarrow> ap_hnext qn;
                   yn \<leftarrow> heap s y;
                   h \<leftarrow> wr (heap s) q (\<lambda>m. m\<lparr>ap_hnext := ap_hnext yn\<rparr>);
                   Some (s\<lparr>heap := h\<rparr>)
                 })
            }
          })
     }"

section \<open>Entries\<close>

definition ap_free_ap :: "iface \<Rightarrow> nat \<Rightarrow> iface option" where
  "ap_free_ap s ap =
     do {
       s \<leftarrow> ap_ap_hash_del s ap;
       s \<leftarrow> ap_ap_list_del s ap;
       Some (s\<lparr>num_ap := num_ap s - 1, heap := (heap s)(ap := None)\<rparr>)
     }"

partial_function (option) free_aps_loop :: "iface \<Rightarrow> ptr \<Rightarrow> iface option" where
  "free_aps_loop s p =
     (case p of
        None \<Rightarrow> Some s
      | Some ap \<Rightarrow> do {
          n \<leftarrow> heap s ap;
          s' \<leftarrow> ap_free_ap s ap;
          free_aps_loop s' (ap_next n)
        })"

definition hostapd_free_aps :: "iface \<Rightarrow> iface option" where
  "hostapd_free_aps s =
     do { s \<leftarrow> free_aps_loop s (ap_list s); Some (s\<lparr>ap_list := None\<rparr>) }"

definition ap_ap_add :: "(ap_info store \<Rightarrow> ptr) \<Rightarrow> iface \<Rightarrow> mac \<Rightarrow> (ptr \<times> iface) option" where
  "ap_ap_add alloc s addr =
     (case alloc (heap s) of
        None \<Rightarrow> Some (None, s)
      | Some ap \<Rightarrow> do {
          let s = s\<lparr>heap := (heap s)(ap \<mapsto> zero_ap\<lparr>ap_addr := addr\<rparr>)\<rparr>;
          s \<leftarrow> ap_ap_list_add s ap;
          let s = s\<lparr>num_ap := num_ap s + 1\<rparr>;
          s \<leftarrow> ap_ap_hash_add s ap;
          n \<leftarrow> heap s ap;
          if num_ap s > ap_table_max_size s \<and> ap_prev n \<noteq> Some ap
          then do { t \<leftarrow> ap_prev n; s \<leftarrow> ap_free_ap s t; Some (Some ap, s) }
          else Some (Some ap, s)
        })"

section \<open>Beacons\<close>

definition first_octet :: "bytes \<Rightarrow> byte option" where
  "first_octet bs = (case bs of [] \<Rightarrow> None | b # _ \<Rightarrow> Some b)"

text \<open>What a beacon writes into the entry. \<open>fi_channel\<close> is the channel of the frame info, if any.\<close>

definition beacon_update :: "beacon_elems \<Rightarrow> u32 option \<Rightarrow> reltime \<Rightarrow> ap_info \<Rightarrow> ap_info option" where
  "beacon_update elems fi_channel now n =
     do {
       e \<leftarrow> (case erp_info elems of None \<Rightarrow> Some (-1) | Some bs \<Rightarrow> map_option uint (first_octet bs));
       ch \<leftarrow> (case ds_params elems of
                Some bs \<Rightarrow> map_option uint (first_octet bs)
              | None \<Rightarrow> (case ht_operation elems of
                  Some bs \<Rightarrow> map_option uint (first_octet bs)
                | None \<Rightarrow> (case fi_channel of Some c \<Rightarrow> Some (sint c) | None \<Rightarrow> Some (ap_channel n))));
       Some (n\<lparr>supported_rates :=
                 fst (merge_byte_arrays WLAN_SUPP_RATES_MAX (supp_rates elems) (ext_supp_rates elems)),
               erp := e, ap_channel := ch,
               ht_support := (ht_capabilities elems \<noteq> None),
               last_beacon := now\<rparr>)
     }"

text \<open>The end of the function: the two protection flags and the calls they cause.\<close>

definition beacon_flags :: "iface \<Rightarrow> ap_info \<Rightarrow> iface" where
  "beacon_flags s n =
     (let set1 = (\<not> olbc s \<and> ap_list_beacon_olbc s n);
          s = (if set1 then s\<lparr>olbc := True\<rparr> else s);
          set2 = (\<not> olbc_ht s \<and> \<not> ht_support n \<and>
                  (ap_channel n = 0 \<or> ap_channel n = uint (conf_channel s) \<or>
                   ap_channel n = uint (conf_channel s) + conf_secondary_channel s * 4));
          s = (if set2 then s\<lparr>olbc_ht := True, events := events s @ [HtOperationUpdate]\<rparr> else s)
      in if set1 \<or> set2 then s\<lparr>events := events s @ [UpdateBeacons]\<rparr> else s)"

definition ap_list_process_beacon ::
  "(ap_info store \<Rightarrow> ptr) \<Rightarrow> reltime \<Rightarrow> iface \<Rightarrow> mac \<Rightarrow> beacon_elems \<Rightarrow> u32 option \<Rightarrow> iface option" where
  "ap_list_process_beacon alloc now s bssid elems fi_channel =
     (if ap_table_max_size s < 1 then Some s
      else do {
        r \<leftarrow> ap_get_ap s bssid;
        (ap, s, new_ap) \<leftarrow>
          (case r of
             Some ap \<Rightarrow> Some (Some ap, s, False)
           | None \<Rightarrow> do { (ap, s) \<leftarrow> ap_ap_add alloc s bssid; Some (ap, s, True) });
        (case ap of
           None \<Rightarrow> Some s
         | Some ap \<Rightarrow> do {
             n \<leftarrow> heap s ap;
             n \<leftarrow> beacon_update elems fi_channel now n;
             h \<leftarrow> wr (heap s) ap (\<lambda>_. n);
             let s = s\<lparr>heap := h\<rparr>;
             s \<leftarrow> (if \<not> new_ap \<and> Some ap \<noteq> ap_list s
                   then do { s \<leftarrow> ap_ap_list_del s ap; ap_ap_list_add s ap }
                   else Some s);
             Some (beacon_flags s n)
           })
      })"

section \<open>The timer\<close>

partial_function (option) expire_loop :: "reltime \<Rightarrow> iface \<Rightarrow> iface option" where
  "expire_loop now s =
     (case ap_list s of
        None \<Rightarrow> Some s
      | Some l \<Rightarrow> do {
          ln \<leftarrow> heap s l;
          t \<leftarrow> ap_prev ln;
          tn \<leftarrow> heap s t;
          if \<not> os_reltime_expired now (last_beacon tn) (ap_table_expiration_time s) then Some s
          else do { s' \<leftarrow> ap_free_ap s t; expire_loop now s' }
        })"

partial_function (option) olbc_scan :: "iface \<Rightarrow> ptr \<Rightarrow> bool \<Rightarrow> bool \<Rightarrow> (bool \<times> bool) option" where
  "olbc_scan s p o1 o2 =
     (case p of
        None \<Rightarrow> Some (o1, o2)
      | Some ap \<Rightarrow>
          if o1 \<and> o2 then Some (o1, o2)
          else do {
            n \<leftarrow> heap s ap;
            olbc_scan s (ap_next n) (o1 \<or> ap_list_beacon_olbc s n) (o2 \<or> \<not> ht_support n)
          })"

text \<open>Clearing the protection flags that nothing in the table calls for.\<close>

definition timer_flags :: "iface \<Rightarrow> bool \<Rightarrow> bool \<Rightarrow> iface" where
  "timer_flags s o1 o2 =
     (let clear1 = (\<not> o1 \<and> olbc s);
          s = (if clear1 then s\<lparr>olbc := False\<rparr> else s);
          clear2 = (\<not> o2 \<and> olbc_ht s);
          s = (if clear2 then s\<lparr>olbc_ht := False, events := events s @ [HtOperationUpdate]\<rparr> else s)
      in if clear1 \<or> clear2 then s\<lparr>events := events s @ [UpdateBeacons]\<rparr> else s)"

definition ap_list_timer :: "reltime \<Rightarrow> iface \<Rightarrow> iface option" where
  "ap_list_timer now s =
     (case ap_list s of
        None \<Rightarrow> Some s
      | Some _ \<Rightarrow> do {
          s \<leftarrow> expire_loop now s;
          if olbc s \<or> olbc_ht s then do {
            (o1, o2) \<leftarrow> olbc_scan s (ap_list s) False False;
            Some (timer_flags s o1 o2)
          } else Some s
        })"

definition ap_list_deinit :: "iface \<Rightarrow> iface option" where
  "ap_list_deinit s = hostapd_free_aps s"

section \<open>The linked structure and its abstraction\<close>

text \<open>The doubly linked list from \<open>p\<close> through \<open>xs\<close>, with the back link of the head at the tail.\<close>

definition list_ok :: "ap_info store \<Rightarrow> ptr \<Rightarrow> nat list \<Rightarrow> bool" where
  "list_ok h p xs \<longleftrightarrow>
     chain h ap_next p xs \<and> backs h ap_prev (if xs = [] then None else Some (last xs)) xs"

text \<open>A node without its list links, and without any link: what the table says of an AP.\<close>

definition unlisted :: "ap_info \<Rightarrow> ap_info" where
  "unlisted n = n\<lparr>ap_next := None, ap_prev := None\<rparr>"

definition entry :: "ap_info \<Rightarrow> ap_info" where
  "entry n = n\<lparr>ap_next := None, ap_prev := None, ap_hnext := None\<rparr>"

definition table :: "iface \<Rightarrow> nat list \<Rightarrow> ap_info list" where
  "table s xs = map (\<lambda>a. entry (the (heap s a))) xs"

definition same_unlisted :: "ap_info store \<Rightarrow> ap_info store \<Rightarrow> bool" where
  "same_unlisted h h' \<longleftrightarrow> (\<forall>b. map_option unlisted (h' b) = map_option unlisted (h b))"

lemma unlisted_eqD:
  assumes "unlisted m = unlisted n"
  shows "ap_hnext m = ap_hnext n" "ap_addr m = ap_addr n" "entry m = entry n"
proof -
  have "ap_hnext (unlisted m) = ap_hnext (unlisted n)" "ap_addr (unlisted m) = ap_addr (unlisted n)"
    "(unlisted m)\<lparr>ap_hnext := None\<rparr> = (unlisted n)\<lparr>ap_hnext := None\<rparr>"
    using assms by simp_all
  then show "ap_hnext m = ap_hnext n" "ap_addr m = ap_addr n" "entry m = entry n"
    by (simp_all add: unlisted_def entry_def)
qed

lemma same_unlisted_dest:
  assumes "same_unlisted h h'" and "h b = Some n"
  obtains n' where "h' b = Some n'" "ap_hnext n' = ap_hnext n" "ap_addr n' = ap_addr n" "entry n' = entry n"
proof -
  have "map_option unlisted (h' b) = Some (unlisted n)"
    using assms by (simp add: same_unlisted_def)
  then obtain n' where "h' b = Some n'" "unlisted n' = unlisted n" by auto
  then show thesis using that unlisted_eqD [of n' n] by blast
qed

lemma same_unlisted_refl [simp]: "same_unlisted h h"
  by (simp add: same_unlisted_def)

lemma same_unlisted_trans: "same_unlisted h h' \<Longrightarrow> same_unlisted h' h'' \<Longrightarrow> same_unlisted h h''"
  by (simp add: same_unlisted_def)

lemma same_unlisted_upd:
  "h a = Some n \<Longrightarrow> unlisted n' = unlisted n \<Longrightarrow> same_unlisted h (h(a \<mapsto> n'))"
  by (simp add: same_unlisted_def)

lemma unlisted_links [simp]:
  "unlisted (n\<lparr>ap_next := p\<rparr>) = unlisted n" "unlisted (n\<lparr>ap_prev := p\<rparr>) = unlisted n"
  by (simp_all add: unlisted_def)

subsection \<open>Linking and unlinking in the list\<close>

lemma list_add_ok:
  assumes "list_ok (heap s) (ap_list s) xs" and "a \<notin> set xs" and "heap s a = Some n"
  obtains h' where "ap_ap_list_add s a = Some (s\<lparr>heap := h', ap_list := Some a\<rparr>)"
    "list_ok h' (Some a) (a # xs)" "same_unlisted (heap s) h'"
proof (cases xs)
  case Nil
  then have l: "ap_list s = None" using assms(1) by (simp add: list_ok_def)
  let ?h = "(heap s)(a \<mapsto> n\<lparr>ap_prev := Some a, ap_next := None\<rparr>)"
  have "ap_ap_list_add s a = Some (s\<lparr>heap := ?h, ap_list := Some a\<rparr>)"
    by (simp add: ap_ap_list_add_def l assms(3))
  moreover have "list_ok ?h (Some a) (a # xs)" by (simp add: list_ok_def Nil)
  moreover have "same_unlisted (heap s) ?h"
    using assms(3) by (intro same_unlisted_upd) auto
  ultimately show thesis by (rule that)
next
  case (Cons b bs)
  from assms(1) obtain bn where b: "ap_list s = Some b" "heap s b = Some bn"
    "chain (heap s) ap_next (ap_next bn) bs" "ap_prev bn = Some (last xs)"
    "backs (heap s) ap_prev (Some b) bs"
    by (auto simp: list_ok_def Cons)
  have ab: "a \<noteq> b" "a \<notin> set bs" using assms(2) by (auto simp: Cons)
  have "distinct xs" using assms(1) chain_distinct by (auto simp: list_ok_def)
  then have bb: "b \<notin> set bs" by (simp add: Cons)
  let ?n = "n\<lparr>ap_prev := Some (last xs), ap_next := Some b\<rparr>"
  let ?h = "(heap s)(b \<mapsto> bn\<lparr>ap_prev := Some a\<rparr>, a \<mapsto> ?n)"
  have "ap_ap_list_add s a = Some (s\<lparr>heap := ?h, ap_list := Some a\<rparr>)"
    using ab by (simp add: ap_ap_list_add_def b assms(3) fun_upd_twist)
  moreover have "list_ok ?h (Some a) (a # xs)"
    using b ab bb by (simp add: list_ok_def Cons)
  moreover have "same_unlisted (heap s) ?h"
    using assms(3) b(2) ab(1)
    by (intro same_unlisted_trans [OF same_unlisted_upd same_unlisted_upd]) auto
  ultimately show thesis by (rule that)
qed

text \<open>The list around one of its nodes: its predecessor, its successor and the two links.\<close>

lemma list_ok_around:
  assumes "list_ok h p (us @ a # vs)" and "h a = Some n"
  shows "ap_next n = head vs"
    and "ap_prev n = (if us = [] then Some (last (a # vs)) else Some (last us))"
    and "chain h ap_next (head vs) vs" and "backs h ap_prev (Some a) vs"
    and "backs h ap_prev (Some (last (a # vs))) us"
proof -
  have "chain h ap_next (Some a) (a # vs)"
    using assms(1) unfolding list_ok_def by (blast intro: chain_append)
  then have c: "chain h ap_next (ap_next n) vs" using assms(2) by simp
  then show "ap_next n = head vs" by (rule chain_head)
  with c show "chain h ap_next (head vs) vs" by simp
  show "ap_prev n = (if us = [] then Some (last (a # vs)) else Some (last us))"
    "backs h ap_prev (Some a) vs" "backs h ap_prev (Some (last (a # vs))) us"
    using assms by (auto simp: list_ok_def)
qed

lemma list_del_head:
  assumes "list_ok (heap s) (ap_list s) (a # vs)" and "heap s a = Some n"
  obtains h' where "ap_ap_list_del s a = Some (s\<lparr>heap := h', ap_list := head vs\<rparr>)"
    "list_ok h' (head vs) vs" "same_unlisted (heap s) h'"
proof -
  have "list_ok (heap s) (ap_list s) ([] @ a # vs)" using assms(1) by simp
  note ar = list_ok_around [OF this assms(2), simplified]
  have l: "ap_list s = Some a" and d: "distinct (a # vs)"
    using assms(1) chain_distinct unfolding list_ok_def by fastforce+
  show thesis
  proof (cases vs)
    case Nil
    have "ap_ap_list_del s a = Some (s\<lparr>heap := heap s, ap_list := head vs\<rparr>)"
      by (simp add: ap_ap_list_del_def assms(2) l ar(1) Nil)
    then show thesis by (rule that) (simp_all add: list_ok_def Nil)
  next
    case (Cons v ws)
    obtain vn where v: "heap s v = Some vn" using ar(3) by (auto simp: Cons)
    let ?h = "(heap s)(v \<mapsto> vn\<lparr>ap_prev := Some (last vs)\<rparr>)"
    have "ap_ap_list_del s a = Some (s\<lparr>heap := ?h, ap_list := head vs\<rparr>)"
      using ar(1,2) by (simp add: ap_ap_list_del_def assms(2) l v Cons)
    moreover have "list_ok ?h (head vs) vs"
      using ar(3,4) d by (simp add: list_ok_def Cons v)
    moreover have "same_unlisted (heap s) ?h" using v by (intro same_unlisted_upd) auto
    ultimately show thesis by (rule that)
  qed
qed

lemma list_del_inner:
  assumes "list_ok (heap s) (ap_list s) (us @ q # a # vs)" and "heap s a = Some n"
  obtains h' where "ap_ap_list_del s a = Some (s\<lparr>heap := h'\<rparr>)"
    "list_ok h' (ap_list s) (us @ q # vs)" "same_unlisted (heap s) h'"
proof -
  have ok: "list_ok (heap s) (ap_list s) ((us @ [q]) @ a # vs)" using assms(1) by simp
  note ar = list_ok_around [OF ok assms(2)]
  have ch: "chain (heap s) ap_next (ap_list s) (us @ q # a # vs)"
    using assms(1) by (simp add: list_ok_def)
  have d: "distinct (us @ q # a # vs)" using ch by (rule chain_distinct)
  obtain qn where q: "heap s q = Some qn" using chain_dom [OF ch] by fastforce
  let ?q = "qn\<lparr>ap_next := head vs\<rparr>"
  let ?h = "(heap s)(q \<mapsto> ?q)"
  have skip: "chain ?h ap_next (ap_list s) (us @ q # vs)"
    using ch q assms(2) by (rule chain_skip) (simp add: ar(1))
  have lst: "ap_list s \<noteq> Some a"
    using chain_head [OF ch] d by (cases us) auto
  have aq: "a \<noteq> q" using d by auto
  have bk: "backs ?h ap_prev r zs = backs (heap s) ap_prev r zs" for r zs
    by (rule backs_cong) (auto simp: q)
  have s1: "same_unlisted (heap s) ?h" using q by (intro same_unlisted_upd) auto
  show thesis
  proof (cases vs)
    case (Cons v ws)
    obtain vn where v: "heap s v = Some vn" using ar(3) by (auto simp: Cons)
    have vq: "v \<noteq> q" and vn: "v \<notin> set (us @ [q])" "v \<notin> set ws" using d by (auto simp: Cons)
    let ?h' = "?h(v \<mapsto> vn\<lparr>ap_prev := Some q\<rparr>)"
    have "ap_ap_list_del s a = Some (s\<lparr>heap := ?h'\<rparr>)"
      using ar(1,2) aq vq by (simp add: ap_ap_list_del_def assms(2) lst q v Cons)
    moreover have "chain ?h' ap_next (ap_list s) (us @ q # vs)"
      using skip v vq by (subst chain_upd_same_link [of _ _ vn]) auto
    moreover have "backs ?h' ap_prev (Some (last (us @ q # vs))) (us @ q # vs)"
      using ar(4,5) vn bk by (simp add: Cons q)
    moreover have "same_unlisted (heap s) ?h'"
      using v vq by (intro same_unlisted_trans [OF s1 same_unlisted_upd]) auto
    ultimately show thesis using that by (simp add: list_ok_def)
  next
    case Nil
    obtain l zs where uq: "us @ [q] = l # zs" by (cases us) auto
    obtain ln where l: "?h l = Some ln" "ap_list s = Some l"
      using skip uq by (auto simp: Nil)
    have "distinct ((l # zs) @ [a])" using d uq by (metis Nil append.assoc append_Cons append_Nil)
    then have lz: "l \<notin> set zs" and la: "l \<noteq> a" by auto
    let ?h' = "?h(l \<mapsto> ln\<lparr>ap_prev := Some q\<rparr>)"
    have "ap_ap_list_del s a = Some (s\<lparr>heap := ?h'\<rparr>)"
      using ar(1,2) aq la l by (simp add: ap_ap_list_del_def assms(2) lst q Nil)
    moreover have "chain ?h' ap_next (ap_list s) (us @ [q])"
      using skip l by (subst chain_upd_same_link [of _ _ ln]) (auto simp: Nil)
    moreover have "backs ?h' ap_prev (Some q) (l # zs)"
      using ar(5) bk [of "Some l" zs] lz by (simp add: Nil uq)
    moreover have "same_unlisted (heap s) ?h'"
      using l by (intro same_unlisted_trans [OF s1 same_unlisted_upd]) auto
    ultimately show thesis using that by (simp add: list_ok_def Nil uq [symmetric])
  qed
qed

lemma list_del_ok:
  assumes "list_ok (heap s) (ap_list s) xs" and "a \<in> set xs" and "heap s a = Some n"
  obtains h' l' where "ap_ap_list_del s a = Some (s\<lparr>heap := h', ap_list := l'\<rparr>)"
    "list_ok h' l' (remove1 a xs)" "same_unlisted (heap s) h'"
proof -
  have "distinct xs" using assms(1) chain_distinct unfolding list_ok_def by blast
  obtain us vs where xs: "xs = us @ a # vs" using assms(2) by (auto simp: in_set_conv_decomp)
  with \<open>distinct xs\<close> have rm: "remove1 a xs = us @ vs" by (simp add: remove1_append)
  show thesis
  proof (cases us rule: rev_cases)
    case Nil
    then have "list_ok (heap s) (ap_list s) (a # vs)" using assms(1) xs by simp
    then show thesis using list_del_head assms(3) that rm Nil by (metis append_Nil)
  next
    case (snoc us' q)
    then have "list_ok (heap s) (ap_list s) (us' @ q # a # vs)" using assms(1) xs by simp
    from list_del_inner [OF this assms(3)] obtain h' where
      "ap_ap_list_del s a = Some (s\<lparr>heap := h'\<rparr>)" "list_ok h' (ap_list s) (us' @ q # vs)"
      "same_unlisted (heap s) h'" .
    then show thesis using that [of "ap_list s" h'] by (simp add: rm snoc)
  qed
qed

subsection \<open>The hash chains\<close>

interpretation aph: hash_link ap_hnext "\<lambda>p n. n\<lparr>ap_hnext := p\<rparr>" "\<lambda>n. STA_HASH (ap_addr n)"
  by unfold_locales simp_all

definition same_unhashed :: "ap_info store \<Rightarrow> ap_info store \<Rightarrow> bool" where
  "same_unhashed h h' \<longleftrightarrow>
     (\<forall>b. map_option (\<lambda>n. (ap_next n, ap_prev n, entry n)) (h' b) =
          map_option (\<lambda>n. (ap_next n, ap_prev n, entry n)) (h b))"

lemma entry_sels [simp]:
  "ap_addr (entry n) = ap_addr n" "supported_rates (entry n) = supported_rates n" "erp (entry n) = erp n"
  "ap_channel (entry n) = ap_channel n" "ht_support (entry n) = ht_support n"
  "last_beacon (entry n) = last_beacon n"
  by (simp_all add: entry_def)

lemma entry_links [simp]:
  "entry (n\<lparr>ap_next := p\<rparr>) = entry n" "entry (n\<lparr>ap_prev := p\<rparr>) = entry n"
  "entry (n\<lparr>ap_hnext := p\<rparr>) = entry n" "entry (entry n) = entry n"
  by (simp_all add: entry_def)

lemma same_unhashed_refl [simp]: "same_unhashed h h"
  by (simp add: same_unhashed_def)

lemma same_unhashed_upd:
  "h a = Some n \<Longrightarrow> same_unhashed h (h(a \<mapsto> n\<lparr>ap_hnext := p\<rparr>))"
  by (simp add: same_unhashed_def)

lemma same_unhashed_dest:
  assumes "same_unhashed h h'" and "h b = Some n"
  obtains n' where "h' b = Some n'" "ap_next n' = ap_next n" "ap_prev n' = ap_prev n" "entry n' = entry n"
  using assms unfolding same_unhashed_def by (cases "h' b") (fastforce dest: spec [of _ b])+

lemma same_unhashed_list_ok:
  assumes "same_unhashed h h'" and "list_ok h p xs"
  shows "list_ok h' p xs"
proof -
  have nx: "map_option ap_next (h a) = map_option ap_next (h' a)"
    and pv: "map_option ap_prev (h a) = map_option ap_prev (h' a)" for a
    using assms(1) unfolding same_unhashed_def
    by (cases "h a"; cases "h' a"; fastforce dest: spec [of _ a])+
  show ?thesis
    using assms(2) chain_cong [of xs ap_next h h' p, OF nx] backs_cong [of xs ap_prev h h', OF pv]
    by (simp add: list_ok_def)
qed

lemma entry_addr: "entry m = entry n \<Longrightarrow> ap_addr m = ap_addr n"
  by (metis entry_sels(1))

text \<open>The addresses of a set of entries: six bytes each and all different.\<close>

definition addrs_ok :: "ap_info store \<Rightarrow> nat set \<Rightarrow> bool" where
  "addrs_ok h A \<longleftrightarrow>
     inj_on (\<lambda>a. ap_addr (the (h a))) A \<and> (\<forall>a\<in>A. length (ap_addr (the (h a))) = 6)"

text \<open>
  The invariant: the list and the hash chains hold the same entries, which have different
  addresses, and the counter counts them.
\<close>

definition table_ok :: "iface \<Rightarrow> nat list \<Rightarrow> bool" where
  "table_ok s xs \<longleftrightarrow>
     list_ok (heap s) (ap_list s) xs \<and>
     indexed (heap s) ap_hnext (\<lambda>n. STA_HASH (ap_addr n)) (ap_hash s) (set xs) \<and>
     num_ap s = int (length xs) \<and> addrs_ok (heap s) (set xs)"

lemma addrs_ok_subset: "addrs_ok h A \<Longrightarrow> B \<subseteq> A \<Longrightarrow> addrs_ok h B"
  by (auto simp: addrs_ok_def intro: inj_on_subset)

lemma addrs_ok_cong:
  assumes "addrs_ok h A" and "\<And>a. a \<in> A \<Longrightarrow> ap_addr (the (h' a)) = ap_addr (the (h a))"
  shows "addrs_ok h' A"
  using assms inj_on_cong [of A "\<lambda>a. ap_addr (the (h' a))" "\<lambda>a. ap_addr (the (h a))"]
  by (auto simp: addrs_ok_def)

lemma hash_del_ok:
  assumes ix: "indexed (heap s) ap_hnext (\<lambda>n. STA_HASH (ap_addr n)) (ap_hash s) A"
    and ad: "addrs_ok (heap s) A" and a: "a \<in> A" "heap s a = Some n"
  obtains h' t' where "ap_ap_hash_del s a = Some (s\<lparr>heap := h', ap_hash := t'\<rparr>)"
    "indexed h' ap_hnext (\<lambda>n. STA_HASH (ap_addr n)) t' (A - {a})" "same_unhashed (heap s) h'"
proof -
  let ?P = "\<lambda>_ m. ether_addr_equal (ap_addr m) (ap_addr n)"
  have eq: "at (heap s) ?P x \<longleftrightarrow> x = a" if "x \<in> A" for x
  proof -
    have "length (ap_addr (the (heap s x))) = 6" "length (ap_addr n) = 6"
      using ad that a by (auto simp: addrs_ok_def)
    then show ?thesis
      using ad that a inj_onD [of "\<lambda>a. ap_addr (the (heap s a))" A x a] by (auto simp: addrs_ok_def)
  qed
  then have "\<forall>x\<in>A. at (heap s) ?P x \<longleftrightarrow> x = a" by blast
  with ix a show thesis
  proof (cases rule: aph.unlink_sound)
    case head
    then have "ap_ap_hash_del s a = Some (s\<lparr>heap := heap s, ap_hash := (ap_hash s)(STA_HASH (ap_addr n) := ap_hnext n)\<rparr>)"
      using eq [OF a(1)] a by (simp add: ap_ap_hash_del_def)
    then show thesis by (rule that) (use head in simp_all)
  next
    case (inner x xn q qn)
    have "\<not> ether_addr_equal (ap_addr xn) (ap_addr n)" using eq [OF inner(3)] inner(2,4) by simp
    then have "ap_ap_hash_del s a =
        Some (s\<lparr>heap := (heap s)(q \<mapsto> qn\<lparr>ap_hnext := ap_hnext n\<rparr>), ap_hash := ap_hash s\<rparr>)"
      using inner a by (simp add: ap_ap_hash_del_def)
    then show thesis
      by (rule that) (use inner same_unhashed_upd in auto)
  qed
qed

lemma ap_get_ap_ok:
  assumes ix: "indexed (heap s) ap_hnext (\<lambda>n. STA_HASH (ap_addr n)) (ap_hash s) A"
    and ad: "addrs_ok (heap s) A" and len: "length b = 6"
  obtains r where "ap_get_ap s b = Some r"
    "case r of None \<Rightarrow> \<forall>a\<in>A. ap_addr (the (heap s a)) \<noteq> b
     | Some a \<Rightarrow> a \<in> A \<and> ap_addr (the (heap s a)) = b"
proof -
  let ?P = "\<lambda>_ m. ether_addr_equal (ap_addr m) b"
  have eq: "at (heap s) ?P a \<longleftrightarrow> ap_addr (the (heap s a)) = b" if "a \<in> A" for a
    using that ad len by (simp add: addrs_ok_def)
  have "\<exists>r. chain_find (heap s) ap_hnext ?P (ap_hash s (STA_HASH b)) = Some r \<and>
    (case r of None \<Rightarrow> \<forall>a\<in>A. \<not> at (heap s) ?P a | Some a \<Rightarrow> a \<in> A \<and> at (heap s) ?P a)"
    using ix by (rule aph.find_sound) (use eq in force)
  then obtain r where
    "chain_find (heap s) ap_hnext ?P (ap_hash s (STA_HASH b)) = Some r"
    "case r of None \<Rightarrow> \<forall>a\<in>A. \<not> at (heap s) ?P a | Some a \<Rightarrow> a \<in> A \<and> at (heap s) ?P a" by blast
  then show thesis using that [of r] eq by (auto simp: ap_get_ap_def split: option.splits)
qed

subsection \<open>Freeing and adding entries\<close>

lemma same_unlisted_indexed:
  assumes "same_unlisted h h'" and "indexed h ap_hnext (\<lambda>n. STA_HASH (ap_addr n)) t A"
  shows "indexed h' ap_hnext (\<lambda>n. STA_HASH (ap_addr n)) t A"
proof (rule indexed_cong [OF _ assms(2)])
  fix a assume "a \<in> A"
  then obtain n where n: "h a = Some n" using assms(2) by (auto simp: indexed_def)
  from assms(1) n obtain n' where "h' a = Some n'" "ap_hnext n' = ap_hnext n" "ap_addr n' = ap_addr n"
    by (rule same_unlisted_dest)
  with n show "map_option (\<lambda>n. (ap_hnext n, STA_HASH (ap_addr n))) (h a) =
      map_option (\<lambda>n. (ap_hnext n, STA_HASH (ap_addr n))) (h' a)" by simp
qed

lemma table_okD:
  assumes "table_ok s xs"
  shows "list_ok (heap s) (ap_list s) xs"
    and "indexed (heap s) ap_hnext (\<lambda>n. STA_HASH (ap_addr n)) (ap_hash s) (set xs)"
    and "num_ap s = int (length xs)" and "addrs_ok (heap s) (set xs)" and "distinct xs"
    and "a \<in> set xs \<Longrightarrow> \<exists>n. heap s a = Some n"
  using assms chain_distinct chain_dom unfolding table_ok_def list_ok_def by fast+

lemma list_ok_upd_other: "list_ok h p xs \<Longrightarrow> a \<notin> set xs \<Longrightarrow> list_ok (h(a := v)) p xs"
  by (simp add: list_ok_def)

text \<open>Two stores that agree on what they say of a set of nodes.\<close>

definition same_entries :: "ap_info store \<Rightarrow> ap_info store \<Rightarrow> nat set \<Rightarrow> bool" where
  "same_entries h h' A \<longleftrightarrow> (\<forall>b\<in>A. entry (the (h' b)) = entry (the (h b)))"

lemma same_entries_addrs: "same_entries h h' A \<Longrightarrow> addrs_ok h A \<Longrightarrow> addrs_ok h' A"
  by (erule addrs_ok_cong) (auto simp: same_entries_def intro: entry_addr)

lemma same_entries_sets:
  "same_unlisted h h' \<Longrightarrow> \<forall>a\<in>A. \<exists>n. h a = Some n \<Longrightarrow> same_entries h h' A"
  "same_unhashed h h' \<Longrightarrow> \<forall>a\<in>A. \<exists>n. h a = Some n \<Longrightarrow> same_entries h h' A"
  by (fastforce simp: same_entries_def elim: same_unlisted_dest same_unhashed_dest)+

lemma same_entries_trans: "same_entries h h' A \<Longrightarrow> same_entries h' h'' A \<Longrightarrow> same_entries h h'' A"
  by (simp add: same_entries_def)

lemma same_entries_subset: "same_entries h h' A \<Longrightarrow> B \<subseteq> A \<Longrightarrow> same_entries h h' B"
  by (auto simp: same_entries_def)

lemma same_entries_upd_other: "a \<notin> A \<Longrightarrow> same_entries h (h(a := v)) A"
  by (simp add: same_entries_def)

lemma same_links_dom:
  "same_unlisted h h' \<Longrightarrow> dom h' = dom h" "same_unhashed h h' \<Longrightarrow> dom h' = dom h"
proof -
  have eq: "dom h' = dom h" if "\<And>b. map_option f (h' b) = map_option f (h b)" for f :: "ap_info \<Rightarrow> 'a"
    unfolding dom_def by (rule Collect_cong) (metis that map_option_is_None)
  show "same_unlisted h h' \<Longrightarrow> dom h' = dom h" "same_unhashed h h' \<Longrightarrow> dom h' = dom h"
    unfolding same_unlisted_def same_unhashed_def using eq by blast+
qed

lemma ap_free_ok:
  assumes ok: "table_ok s xs" and a: "a \<in> set xs"
  obtains h' l' t' where
    "ap_free_ap s a = Some (s\<lparr>heap := h', ap_list := l', ap_hash := t', num_ap := num_ap s - 1\<rparr>)"
    "table_ok (s\<lparr>heap := h', ap_list := l', ap_hash := t', num_ap := num_ap s - 1\<rparr>) (remove1 a xs)"
    "same_entries (heap s) h' (set xs - {a})" "dom h' = dom (heap s) - {a}"
proof -
  note D = table_okD [OF ok]
  obtain n where n: "heap s a = Some n" using D(6) a by blast
  obtain h1 t1 where 1: "ap_ap_hash_del s a = Some (s\<lparr>heap := h1, ap_hash := t1\<rparr>)"
    "indexed h1 ap_hnext (\<lambda>n. STA_HASH (ap_addr n)) t1 (set xs - {a})" "same_unhashed (heap s) h1"
    using hash_del_ok [OF D(2,4) a n] .
  let ?s1 = "s\<lparr>heap := h1, ap_hash := t1\<rparr>"
  have l1: "list_ok (heap ?s1) (ap_list ?s1) xs" using same_unhashed_list_ok [OF 1(3) D(1)] by simp
  obtain n1 where n1: "heap ?s1 a = Some n1" using same_unhashed_dest [OF 1(3) n] by auto
  obtain h2 l2 where 2: "ap_ap_list_del ?s1 a = Some (?s1\<lparr>heap := h2, ap_list := l2\<rparr>)"
    "list_ok h2 l2 (remove1 a xs)" "same_unlisted (heap ?s1) h2"
    using list_del_ok [OF l1 a n1] .
  let ?h = "h2(a := None)"
  let ?s = "s\<lparr>heap := ?h, ap_list := l2, ap_hash := t1, num_ap := num_ap s - 1\<rparr>"
  have rm: "set (remove1 a xs) = set xs - {a}" using D(5) by simp
  have dom: "\<forall>b\<in>set xs. \<exists>m. heap s b = Some m" using D(6) by blast
  then have dom1: "\<forall>b\<in>set xs. \<exists>m. h1 b = Some m" using same_unhashed_dest [OF 1(3)] by metis
  have se: "same_entries (heap s) h2 (set xs)"
    using same_entries_sets(2) [OF 1(3) dom] same_entries_sets(1) [OF 2(3)] dom1
    by (auto intro: same_entries_trans)
  have se': "same_entries (heap s) ?h (set xs - {a})"
    using se same_entries_upd_other [of a "set xs - {a}" h2 None]
    by (auto intro: same_entries_trans same_entries_subset)
  have "ap_free_ap s a = Some ?s" using 1(1) 2(1) by (simp add: ap_free_ap_def)
  moreover have "table_ok ?s (remove1 a xs)"
    unfolding table_ok_def rm
  proof (intro conjI)
    show "list_ok (heap ?s) (ap_list ?s) (remove1 a xs)"
      using 2(2) list_ok_upd_other [of h2 l2 "remove1 a xs" a None] rm by simp
    show "indexed (heap ?s) ap_hnext (\<lambda>n. STA_HASH (ap_addr n)) (ap_hash ?s) (set xs - {a})"
      using indexed_upd_outside [OF same_unlisted_indexed [OF 2(3)], of t1 "set xs - {a}" a None] 1(2) by simp
    show "num_ap ?s = int (length (remove1 a xs))"
      using D(3) a by (cases xs) (simp_all add: length_remove1 of_nat_diff del: remove1.simps)
    show "addrs_ok (heap ?s) (set xs - {a})"
      using same_entries_addrs [OF se'] D(4) by (auto intro: addrs_ok_subset)
  qed
  moreover have "dom ?h = dom (heap s) - {a}"
    using same_links_dom 1(3) 2(3) by auto
  ultimately show thesis using se' by (intro that [where h' = ?h]) assumption+
qed

text \<open>Linking a freshly allocated entry in front, before the size of the table is checked.\<close>

definition link_new :: "iface \<Rightarrow> nat \<Rightarrow> ap_info \<Rightarrow> iface option" where
  "link_new s a n =
     do {
       s \<leftarrow> ap_ap_list_add (s\<lparr>heap := (heap s)(a \<mapsto> n)\<rparr>) a;
       ap_ap_hash_add (s\<lparr>num_ap := num_ap s + 1\<rparr>) a
     }"

lemma link_new_ok:
  assumes ok: "table_ok s xs" and fresh: "heap s a = None"
    and len: "length (ap_addr n) = 6" and new: "\<forall>b\<in>set xs. ap_addr (the (heap s b)) \<noteq> ap_addr n"
  obtains h' t' where
    "link_new s a n = Some (s\<lparr>heap := h', ap_list := Some a, ap_hash := t', num_ap := num_ap s + 1\<rparr>)"
    "table_ok (s\<lparr>heap := h', ap_list := Some a, ap_hash := t', num_ap := num_ap s + 1\<rparr>) (a # xs)"
    "same_entries (heap s) h' (set xs)" "entry (the (h' a)) = entry n"
proof -
  note D = table_okD [OF ok]
  have nin: "a \<notin> set xs" using D(6) fresh by force
  let ?ha = "(heap s)(a \<mapsto> n)" and ?sa = "s\<lparr>heap := (heap s)(a \<mapsto> n)\<rparr>"
  have l0: "list_ok (heap ?sa) (ap_list ?sa) xs" using D(1) nin by (simp add: list_ok_upd_other)
  obtain h1 where 1: "ap_ap_list_add ?sa a = Some (?sa\<lparr>heap := h1, ap_list := Some a\<rparr>)"
    "list_ok h1 (Some a) (a # xs)" "same_unlisted (heap ?sa) h1"
    using list_add_ok [OF l0 nin, of n] by auto
  have "indexed ?ha ap_hnext (\<lambda>n. STA_HASH (ap_addr n)) (ap_hash s) (set xs)"
    using D(2) nin by (rule indexed_upd_outside)
  then have ix1: "indexed h1 ap_hnext (\<lambda>n. STA_HASH (ap_addr n)) (ap_hash s) (set xs)"
    using same_unlisted_indexed 1(3) by simp
  obtain n1 where n1: "h1 a = Some n1" "ap_addr n1 = ap_addr n" "entry n1 = entry n"
    using same_unlisted_dest [OF 1(3), of a n] by auto
  let ?b = "STA_HASH (ap_addr n)"
  let ?h = "h1(a \<mapsto> n1\<lparr>ap_hnext := ap_hash s ?b\<rparr>)" and ?t = "(ap_hash s)(?b := Some a)"
  let ?s = "s\<lparr>heap := ?h, ap_list := Some a, ap_hash := ?t, num_ap := num_ap s + 1\<rparr>"
  have "link_new s a n = Some ?s"
    using 1(1) n1 by (simp add: link_new_def ap_ap_hash_add_def Let_def)
  moreover have se: "same_entries (heap s) ?h (set xs)"
  proof -
    have "\<forall>b\<in>set xs. \<exists>m. heap ?sa b = Some m" using D(6) nin by auto
    then have "same_entries (heap ?sa) h1 (set xs)" using same_entries_sets(1) [OF 1(3)] by blast
    then show ?thesis using nin by (simp add: same_entries_def)
  qed
  moreover have "table_ok ?s (a # xs)"
    unfolding table_ok_def
  proof (intro conjI)
    show "list_ok (heap ?s) (ap_list ?s) (a # xs)"
      using same_unhashed_list_ok [OF same_unhashed_upd [of h1 a n1] 1(2)] n1(1) by simp
    show "indexed (heap ?s) ap_hnext (\<lambda>n. STA_HASH (ap_addr n)) (ap_hash ?s) (set (a # xs))"
      using indexed_insert [OF ix1 nin, of "n1\<lparr>ap_hnext := ap_hash s ?b\<rparr>"] n1 by simp
    show "num_ap ?s = int (length (a # xs))" using D(3) by simp
    have "addrs_ok ?h (set xs)" using se D(4) by (rule same_entries_addrs)
    moreover have "ap_addr (the (?h b)) = ap_addr (the (heap s b))" if "b \<in> set xs" for b
      using se that entry_addr unfolding same_entries_def by blast
    ultimately show "addrs_ok (heap ?s) (set (a # xs))"
      using new n1(2) len nin by (auto simp: addrs_ok_def inj_on_def)
  qed
  ultimately show thesis using that [where h' = ?h and t' = ?t] n1(3) by simp
qed

lemma table_ok_last:
  assumes "table_ok s (a # xs)" and "heap s a = Some n"
  shows "ap_prev n = Some (last (a # xs))"
  using assms by (auto simp: table_ok_def list_ok_def)

text \<open>What adding an unknown address does to the table: in front, and the last entry goes if the
  table is larger than its limit.\<close>

definition add_spec :: "int \<Rightarrow> ap_info \<Rightarrow> ap_info list \<Rightarrow> ap_info list" where
  "add_spec m e t = e # (if int (length t) + 1 > m \<and> t \<noteq> [] then butlast t else t)"

lemma table_cong: "same_entries (heap s) (heap s') (set xs) \<Longrightarrow> table s' xs = table s xs"
  by (simp add: table_def same_entries_def)

lemma table_Nil [simp]: "table s [] = []"
  by (simp add: table_def)

lemma table_Cons [simp]: "table s (a # xs) = entry (the (heap s a)) # table s xs"
  by (simp add: table_def)

lemma ap_ap_add_ok:
  assumes ok: "table_ok s xs" and fresh: "alloc (heap s) = Some a" "heap s a = None"
    and len: "length b = 6" and new: "\<forall>x\<in>set xs. ap_addr (the (heap s x)) \<noteq> b"
  obtains h' t' k ys where "ap_ap_add alloc s b = Some (Some a, s\<lparr>heap := h', ap_list := Some a, ap_hash := t', num_ap := k\<rparr>)"
    "table_ok (s\<lparr>heap := h', ap_list := Some a, ap_hash := t', num_ap := k\<rparr>) (a # ys)"
    "entry (the (h' a)) # table (s\<lparr>heap := h'\<rparr>) ys = add_spec (ap_table_max_size s) (zero_ap\<lparr>ap_addr := b\<rparr>) (table s xs)"
proof -
  let ?n = "zero_ap\<lparr>ap_addr := b\<rparr>"
  have en: "entry ?n = ?n" by (simp add: entry_def zero_ap_def)
  have n6: "length (ap_addr ?n) = 6" and nw: "\<forall>x\<in>set xs. ap_addr (the (heap s x)) \<noteq> ap_addr ?n"
    using len new by simp_all
  obtain h1 t1 where 1:
    "link_new s a ?n = Some (s\<lparr>heap := h1, ap_list := Some a, ap_hash := t1, num_ap := num_ap s + 1\<rparr>)"
    "table_ok (s\<lparr>heap := h1, ap_list := Some a, ap_hash := t1, num_ap := num_ap s + 1\<rparr>) (a # xs)"
    "same_entries (heap s) h1 (set xs)" "entry (the (h1 a)) = ?n"
    using link_new_ok [OF ok fresh(2) n6 nw] unfolding en .
  let ?s1 = "s\<lparr>heap := h1, ap_list := Some a, ap_hash := t1, num_ap := num_ap s + 1\<rparr>"
  note D = table_okD [OF 1(2)]
  obtain n1 where n1: "h1 a = Some n1" using D(6) by auto
  have pv: "ap_prev n1 = Some (last (a # xs))" using table_ok_last [OF 1(2)] n1 by simp
  have sz: "num_ap ?s1 = int (length xs) + 1" using D(3) by simp
  have nin: "a \<notin> set xs" using D(5) by simp
  have run: "ap_ap_add alloc s b =
      (if num_ap ?s1 > ap_table_max_size s \<and> ap_prev n1 \<noteq> Some a
       then do { s' \<leftarrow> ap_free_ap ?s1 (last (a # xs)); Some (Some a, s') } else Some (Some a, ?s1))"
    using 1(1) n1 pv by (auto simp: ap_ap_add_def link_new_def fresh(1) Let_def bind_eq_Some_conv split: if_splits)
  have tx: "table ?s1 xs = table s xs" using 1(3) by (intro table_cong) simp
  show thesis
  proof (cases "int (length xs) + 1 > ap_table_max_size s \<and> xs \<noteq> []")
    case False
    have nx: "\<not> (num_ap ?s1 > ap_table_max_size s \<and> ap_prev n1 \<noteq> Some a)"
      using False sz pv by (cases xs) auto
    show thesis
      using 1(2,4) run nx False tx
      by (intro that [where h' = h1 and t' = t1 and k = "num_ap s + 1" and ys = xs]) (auto simp: add_spec_def table_def)
  next
    case True
    let ?z = "last xs"
    have z: "?z \<in> set (a # xs)" "?z \<noteq> a" "last (a # xs) = ?z" using True nin by (auto dest: last_in_set)
    have xs: "xs = butlast xs @ [?z]" using True by simp
    have "?z \<notin> set (butlast xs)" using D(5) xs by (metis distinct.simps(2) distinct_append IntI empty_iff list.set_intros(1) distinct_butlast not_distinct_conv_prefix)
    then have rm: "remove1 ?z (a # xs) = a # butlast xs"
      using z(2) by (subst xs) (simp add: remove1_append)
    obtain h2 l2 t2 where 2:
      "ap_free_ap ?s1 ?z = Some (?s1\<lparr>heap := h2, ap_list := l2, ap_hash := t2, num_ap := num_ap ?s1 - 1\<rparr>)"
      "table_ok (?s1\<lparr>heap := h2, ap_list := l2, ap_hash := t2, num_ap := num_ap ?s1 - 1\<rparr>) (a # butlast xs)"
      "same_entries (heap ?s1) h2 (set (a # xs) - {?z})" "dom h2 = dom (heap ?s1) - {?z}"
      using ap_free_ok [OF 1(2) z(1)] unfolding rm .
    have l2: "l2 = Some a" using 2(2) chain_head by (fastforce simp: table_ok_def list_ok_def)
    have sub: "set (a # butlast xs) \<subseteq> set (a # xs) - {?z}"
      using z(2) \<open>?z \<notin> set (butlast xs)\<close> by (auto dest: in_set_butlastD)
    have ent: "entry (the (h2 a)) = ?n" "table (s\<lparr>heap := h2\<rparr>) (butlast xs) = butlast (table s xs)"
    proof -
      show "entry (the (h2 a)) = ?n" using 2(3) sub 1(4) by (auto simp: same_entries_def)
      have "same_entries (heap s) h2 (set (butlast xs))"
      proof (rule same_entries_trans)
        show "same_entries (heap s) h1 (set (butlast xs))"
          using 1(3) by (rule same_entries_subset) (auto dest: in_set_butlastD)
        show "same_entries h1 h2 (set (butlast xs))"
          using same_entries_subset [OF 2(3), of "set (butlast xs)"] sub by auto
      qed
      then have "table (s\<lparr>heap := h2\<rparr>) (butlast xs) = table s (butlast xs)" by (intro table_cong) simp
      then show "table (s\<lparr>heap := h2\<rparr>) (butlast xs) = butlast (table s xs)"
        by (simp add: table_def map_butlast)
    qed
    show thesis
      using run True sz pv z 2(1,2) ent l2
      by (intro that [where h' = h2 and t' = t2 and k = "num_ap s" and ys = "butlast xs"]) (auto simp: add_spec_def table_def)
  qed
qed

subsection \<open>Processing a beacon\<close>

text \<open>The elements that are read are not empty.\<close>

definition elems_ok :: "beacon_elems \<Rightarrow> bool" where
  "elems_ok e \<longleftrightarrow> erp_info e \<noteq> Some [] \<and> ds_params e \<noteq> Some [] \<and> ht_operation e \<noteq> Some []"

text \<open>What the table says of an AP after its beacon was heard.\<close>

definition heard :: "beacon_elems \<Rightarrow> u32 option \<Rightarrow> reltime \<Rightarrow> ap_info \<Rightarrow> ap_info" where
  "heard elems fi_channel now n =
     n\<lparr>supported_rates := fst (merge_byte_arrays WLAN_SUPP_RATES_MAX (supp_rates elems) (ext_supp_rates elems)),
       erp := (case erp_info elems of None \<Rightarrow> -1 | Some bs \<Rightarrow> uint (hd bs)),
       ap_channel := (case ds_params elems of Some bs \<Rightarrow> uint (hd bs)
                      | None \<Rightarrow> (case ht_operation elems of Some bs \<Rightarrow> uint (hd bs)
                                 | None \<Rightarrow> (case fi_channel of Some c \<Rightarrow> sint c | None \<Rightarrow> ap_channel n))),
       ht_support := (ht_capabilities elems \<noteq> None), last_beacon := now\<rparr>"

lemma first_octet_eq [simp]: "bs \<noteq> [] \<Longrightarrow> first_octet bs = Some (hd bs)"
  by (cases bs) (auto simp: first_octet_def)

lemma beacon_update_heard: "elems_ok elems \<Longrightarrow> beacon_update elems fi now n = Some (heard elems fi now n)"
  by (auto simp: beacon_update_def heard_def elems_ok_def split: option.splits)

lemma heard_keeps [simp]:
  "ap_next (heard elems fi now n) = ap_next n" "ap_prev (heard elems fi now n) = ap_prev n"
  "ap_hnext (heard elems fi now n) = ap_hnext n" "ap_addr (heard elems fi now n) = ap_addr n"
  by (simp_all add: heard_def)

lemma entry_heard [simp]: "entry (heard elems fi now n) = heard elems fi now (entry n)"
  by (rule ap_info.equality) (simp_all add: heard_def entry_def split: option.split)

text \<open>Writing the payload of an entry keeps the structure.\<close>

lemma table_ok_write:
  assumes ok: "table_ok s xs" and n: "heap s a = Some n"
    and n': "ap_next n' = ap_next n" "ap_prev n' = ap_prev n" "ap_hnext n' = ap_hnext n" "ap_addr n' = ap_addr n"
  shows "table_ok (s\<lparr>heap := (heap s)(a \<mapsto> n')\<rparr>) xs"
proof -
  note D = table_okD [OF ok]
  let ?h = "(heap s)(a \<mapsto> n')"
  have "list_ok ?h (ap_list s) xs"
    using D(1) chain_cong [of xs ap_next "heap s" ?h] backs_cong [of xs ap_prev "heap s" ?h] n n'
    by (auto simp: list_ok_def)
  moreover have "indexed ?h ap_hnext (\<lambda>n. STA_HASH (ap_addr n)) (ap_hash s) (set xs)"
    using indexed_cong [OF _ D(2), of ?h] n n' by auto
  moreover have "addrs_ok ?h (set xs)" using D(4) by (rule addrs_ok_cong) (auto simp: n n')
  ultimately show ?thesis using D(3) by (simp add: table_ok_def)
qed

text \<open>Moving an entry to the front.\<close>

lemma table_ok_swap_list:
  assumes ok: "table_ok s xs" and l: "list_ok h' l' ys" and u: "same_unlisted (heap s) h'"
    and p: "set ys = set xs" "length ys = length xs"
  shows "table_ok (s\<lparr>heap := h', ap_list := l'\<rparr>) ys" and "same_entries (heap s) h' (set xs)"
proof -
  note D = table_okD [OF ok]
  show se: "same_entries (heap s) h' (set xs)" using same_entries_sets(1) [OF u] D(6) by blast
  show "table_ok (s\<lparr>heap := h', ap_list := l'\<rparr>) ys"
    using l same_unlisted_indexed [OF u D(2)] D(3) same_entries_addrs [OF se D(4)] p
    by (simp add: table_ok_def)
qed

lemma move_front_ok:
  assumes ok: "table_ok s xs" and a: "a \<in> set xs"
  obtains h' where "(do { s \<leftarrow> ap_ap_list_del s a; ap_ap_list_add s a }) = Some (s\<lparr>heap := h', ap_list := Some a\<rparr>)"
    "table_ok (s\<lparr>heap := h', ap_list := Some a\<rparr>) (a # remove1 a xs)" "same_entries (heap s) h' (set xs)"
proof -
  note D = table_okD [OF ok]
  obtain n where n: "heap s a = Some n" using D(6) a by blast
  obtain h1 l1 where 1: "ap_ap_list_del s a = Some (s\<lparr>heap := h1, ap_list := l1\<rparr>)"
    "list_ok h1 l1 (remove1 a xs)" "same_unlisted (heap s) h1"
    using list_del_ok [OF D(1) a n] .
  let ?s1 = "s\<lparr>heap := h1, ap_list := l1\<rparr>"
  obtain n1 where n1: "h1 a = Some n1" using same_unlisted_dest [OF 1(3) n] by blast
  have nin: "a \<notin> set (remove1 a xs)" using D(5) by simp
  obtain h2 where 2: "ap_ap_list_add ?s1 a = Some (?s1\<lparr>heap := h2, ap_list := Some a\<rparr>)"
    "list_ok h2 (Some a) (a # remove1 a xs)" "same_unlisted (heap ?s1) h2"
    using list_add_ok [of ?s1 "remove1 a xs" a n1] 1(2) nin n1 by auto
  have u: "same_unlisted (heap s) h2" using same_unlisted_trans [OF 1(3)] 2(3) by simp
  have p: "set (a # remove1 a xs) = set xs" "length (a # remove1 a xs) = length xs"
    using a D(5) by (auto simp: length_remove1) (metis Suc_pred length_pos_if_in_set)
  show thesis
    using that [of h2] 1(1) 2(1) table_ok_swap_list [OF ok 2(2) u p] by simp
qed

text \<open>The flags and the events are not part of the table.\<close>

lemma beacon_flags_keeps [simp]:
  "heap (beacon_flags s n) = heap s" "ap_list (beacon_flags s n) = ap_list s"
  "ap_hash (beacon_flags s n) = ap_hash s" "num_ap (beacon_flags s n) = num_ap s"
  "ap_table_max_size (beacon_flags s n) = ap_table_max_size s"
  "ap_table_expiration_time (beacon_flags s n) = ap_table_expiration_time s"
  "current_mode (beacon_flags s n) = current_mode s" "conf_channel (beacon_flags s n) = conf_channel s"
  "conf_secondary_channel (beacon_flags s n) = conf_secondary_channel s"
  by (simp_all add: beacon_flags_def Let_def)

lemma table_ok_beacon_flags [simp]: "table_ok (beacon_flags s n) xs = table_ok s xs"
  by (simp add: table_ok_def)

lemma table_beacon_flags [simp]: "table (beacon_flags s n) xs = table s xs"
  by (simp add: table_def)

text \<open>An AP of a legacy BSS, read off its entry; HT protection against an AP on our channels.\<close>

definition legacy_on :: "iface \<Rightarrow> ap_info \<Rightarrow> bool" where
  "legacy_on s n \<longleftrightarrow> \<not> ht_support n \<and>
     (ap_channel n = 0 \<or> ap_channel n = uint (conf_channel s) \<or>
      ap_channel n = uint (conf_channel s) + conf_secondary_channel s * 4)"

lemma ap_list_beacon_olbc_cong:
  assumes "current_mode s' = current_mode s" "conf_channel s' = conf_channel s"
  shows "ap_list_beacon_olbc s' n = ap_list_beacon_olbc s n"
  by (simp add: ap_list_beacon_olbc_def assms)

lemma ap_list_beacon_olbc_entry [simp]: "ap_list_beacon_olbc s (entry n) = ap_list_beacon_olbc s n"
  by (simp add: ap_list_beacon_olbc_def)

lemma legacy_on_entry [simp]: "legacy_on s (entry n) = legacy_on s n"
  by (simp add: legacy_on_def)

lemma legacy_on_cong:
  "conf_channel s' = conf_channel s \<Longrightarrow> conf_secondary_channel s' = conf_secondary_channel s \<Longrightarrow>
     legacy_on s' n = legacy_on s n"
  by (simp add: legacy_on_def)

lemma heard_entry_flags [simp]:
  "ap_list_beacon_olbc s (heard elems fi now (entry n)) = ap_list_beacon_olbc s (heard elems fi now n)"
  "legacy_on s (heard elems fi now (entry n)) = legacy_on s (heard elems fi now n)"
  by (metis entry_heard ap_list_beacon_olbc_entry, metis entry_heard legacy_on_entry)

lemma beacon_flags_olbc:
  "olbc (beacon_flags s n) \<longleftrightarrow> olbc s \<or> ap_list_beacon_olbc s n"
  "olbc_ht (beacon_flags s n) \<longleftrightarrow> olbc_ht s \<or> legacy_on s n"
  "events (beacon_flags s n) = events s @
     (if \<not> olbc_ht s \<and> legacy_on s n then [HtOperationUpdate] else []) @
     (if (\<not> olbc s \<and> ap_list_beacon_olbc s n) \<or> (\<not> olbc_ht s \<and> legacy_on s n) then [UpdateBeacons] else [])"
  by (auto simp: beacon_flags_def Let_def legacy_on_def)

text \<open>What a beacon from address \<open>b\<close> makes of the table.\<close>

definition beacon_spec :: "int \<Rightarrow> (ap_info \<Rightarrow> ap_info) \<Rightarrow> mac \<Rightarrow> ap_info list \<Rightarrow> ap_info list" where
  "beacon_spec m hear b t =
     (case List.find (\<lambda>e. ap_addr e = b) t of
        Some e \<Rightarrow> hear e # filter (\<lambda>e. ap_addr e \<noteq> b) t
      | None \<Rightarrow> hear (zero_ap\<lparr>ap_addr := b\<rparr>) # (if int (length t) + 1 > m \<and> t \<noteq> [] then butlast t else t))"

text \<open>In a table with different addresses, a listed entry is the one found under its address.\<close>

lemma table_find:
  assumes ok: "table_ok s xs" and a: "a \<in> set xs" "ap_addr (the (heap s a)) = b"
  shows "List.find (\<lambda>e. ap_addr e = b) (table s xs) = Some (entry (the (heap s a)))"
    and "filter (\<lambda>e. ap_addr e \<noteq> b) (table s xs) = table s (remove1 a xs)"
proof -
  note D = table_okD [OF ok]
  have one: "ap_addr (the (heap s x)) = b \<longleftrightarrow> x = a" if "x \<in> set xs" for x
    using D(4) a that inj_onD [of "\<lambda>a. ap_addr (the (heap s a))" "set xs" x a] by (auto simp: addrs_ok_def)
  have "List.find (\<lambda>x. ap_addr (the (heap s x)) = b) xs = Some a"
  proof (cases "List.find (\<lambda>x. ap_addr (the (heap s x)) = b) xs")
    case None
    then show ?thesis using a by (auto simp: find_None_iff)
  next
    case (Some x)
    then have "x \<in> set xs" "ap_addr (the (heap s x)) = b" by (auto simp: find_Some_iff)
    then show ?thesis using Some one by blast
  qed
  moreover have "List.find (\<lambda>e. ap_addr e = b) (table s ys) =
      map_option (\<lambda>a. entry (the (heap s a))) (List.find (\<lambda>x. ap_addr (the (heap s x)) = b) ys)" for ys
    by (induction ys) (simp_all add: table_def)
  ultimately show "List.find (\<lambda>e. ap_addr e = b) (table s xs) = Some (entry (the (heap s a)))" by simp
  have "filter (\<lambda>x. ap_addr (the (heap s x)) \<noteq> b) xs = filter (\<lambda>x. x \<noteq> a) xs"
    using one by (intro filter_cong) auto
  also have "\<dots> = remove1 a xs" using D(5) by (simp add: distinct_remove1_removeAll removeAll_filter_not_eq) (metis (mono_tags))
  finally show "filter (\<lambda>e. ap_addr e \<noteq> b) (table s xs) = table s (remove1 a xs)"
    by (simp add: table_def filter_map comp_def)
qed

lemma table_find_none:
  assumes "\<forall>a\<in>set xs. ap_addr (the (heap s a)) \<noteq> b"
  shows "List.find (\<lambda>e. ap_addr e = b) (table s xs) = None"
  using assms by (auto simp: find_None_iff table_def)


text \<open>The second half of the handler: the entry is written, and moved to the front unless it is there.\<close>

definition refresh :: "beacon_elems \<Rightarrow> u32 option \<Rightarrow> reltime \<Rightarrow> bool \<Rightarrow> nat \<Rightarrow> iface \<Rightarrow> iface option" where
  "refresh elems fi now new_ap ap s =
     do {
       n \<leftarrow> heap s ap;
       n \<leftarrow> beacon_update elems fi now n;
       h \<leftarrow> wr (heap s) ap (\<lambda>_. n);
       let s = s\<lparr>heap := h\<rparr>;
       s \<leftarrow> (if \<not> new_ap \<and> Some ap \<noteq> ap_list s
             then do { s \<leftarrow> ap_ap_list_del s ap; ap_ap_list_add s ap } else Some s);
       Some (beacon_flags s n)
     }"

lemma ap_list_process_beacon_eq:
  "ap_list_process_beacon alloc now s b elems fi =
     (if ap_table_max_size s < 1 then Some s
      else do {
        r \<leftarrow> ap_get_ap s b;
        (case r of
           Some a \<Rightarrow> refresh elems fi now False a s
         | None \<Rightarrow> do { (r, s) \<leftarrow> ap_ap_add alloc s b;
             (case r of None \<Rightarrow> Some s | Some a \<Rightarrow> refresh elems fi now True a s) }) })"
proof (cases "ap_get_ap s b")
  case (Some r)
  then show ?thesis
    by (cases r; cases "ap_ap_add alloc s b")
      (auto simp: ap_list_process_beacon_def refresh_def Let_def split: option.split)
qed (simp add: ap_list_process_beacon_def)

text \<open>Two states that agree outside the table: the configuration, the flags and the events.\<close>

definition same_rest :: "iface \<Rightarrow> iface \<Rightarrow> bool" where
  "same_rest s s' \<longleftrightarrow> current_mode s' = current_mode s \<and> conf_channel s' = conf_channel s \<and>
     conf_secondary_channel s' = conf_secondary_channel s \<and> ap_table_max_size s' = ap_table_max_size s \<and>
     ap_table_expiration_time s' = ap_table_expiration_time s \<and>
     olbc s' = olbc s \<and> olbc_ht s' = olbc_ht s \<and> events s' = events s"

lemma same_rest_flags:
  assumes "same_rest s s'"
  shows "ap_list_beacon_olbc s' n = ap_list_beacon_olbc s n" "legacy_on s' n = legacy_on s n"
    "olbc s' = olbc s" "olbc_ht s' = olbc_ht s" "ap_table_max_size s' = ap_table_max_size s"
  using assms ap_list_beacon_olbc_cong [of s' s] legacy_on_cong [of s' s] by (simp_all add: same_rest_def)

lemma refresh_ok:
  assumes ok: "table_ok s xs" and a: "a \<in> set xs" and el: "elems_ok elems"
    and fr: "new_ap \<Longrightarrow> hd xs = a"
  obtains s' where "refresh elems fi now new_ap a s = Some (beacon_flags s' (heard elems fi now (the (heap s a))))"
    "table_ok s' (a # remove1 a xs)"
    "table s' (a # remove1 a xs) = heard elems fi now (entry (the (heap s a))) # table s (remove1 a xs)"
    "same_rest s s'"
proof -
  note D = table_okD [OF ok]
  obtain n where n: "heap s a = Some n" using D(6) a by blast
  let ?n = "heard elems fi now n" and ?s1 = "s\<lparr>heap := (heap s)(a \<mapsto> heard elems fi now n)\<rparr>"
  have ok1: "table_ok ?s1 xs" using ok n by (rule table_ok_write) simp_all
  have nin: "a \<notin> set (remove1 a xs)" using D(5) by simp
  have t1: "table ?s1 (remove1 a xs) = table s (remove1 a xs)"
    using same_entries_upd_other [OF nin] by (intro table_cong) simp
  show thesis
  proof (cases "\<not> new_ap \<and> Some a \<noteq> ap_list s")
    case True
    obtain h' where 2: "(do { s \<leftarrow> ap_ap_list_del ?s1 a; ap_ap_list_add s a }) = Some (?s1\<lparr>heap := h', ap_list := Some a\<rparr>)"
      "table_ok (?s1\<lparr>heap := h', ap_list := Some a\<rparr>) (a # remove1 a xs)" "same_entries (heap ?s1) h' (set xs)"
      using move_front_ok [OF ok1 a] .
    let ?s2 = "?s1\<lparr>heap := h', ap_list := Some a\<rparr>"
    have "table ?s2 (a # remove1 a xs) = table ?s1 (a # remove1 a xs)"
      using same_entries_subset [OF 2(3), of "set (a # remove1 a xs)"] a D(5) by (intro table_cong) auto
    then have "table ?s2 (a # remove1 a xs) = entry ?n # table s (remove1 a xs)" using t1 by simp
    moreover have "refresh elems fi now new_ap a s = Some (beacon_flags ?s2 ?n)"
      using True n 2(1) by (auto simp: refresh_def beacon_update_heard [OF el] bind_eq_Some_conv)
    ultimately show thesis using that [of ?s2] 2(2) n by (simp add: same_rest_def)
  next
    case False
    have "ap_list s = head xs" using D(1) chain_head unfolding list_ok_def by blast
    then have "hd xs = a" using False fr a by (cases xs) auto
    then have xs: "xs = a # remove1 a xs" using a by (cases xs) auto
    have "refresh elems fi now new_ap a s = Some (beacon_flags ?s1 ?n)"
      using False n by (auto simp: refresh_def beacon_update_heard [OF el])
    moreover have "table_ok ?s1 (a # remove1 a xs)" using ok1 xs by simp
    ultimately show thesis using that [of ?s1] n t1 by (simp add: same_rest_def)
  qed
qed

lemma process_beacon_ok:
  assumes "table_ok s xs" and "elems_ok elems" and "length b = 6" and "1 \<le> ap_table_max_size s"
    and alloc: "(\<exists>x\<in>set xs. ap_addr (the (heap s x)) = b) \<or> alloc (heap s) = Some a \<and> heap s a = None"
  shows "\<exists>s' ys. ap_list_process_beacon alloc now s b elems fi = Some s' \<and> table_ok s' ys \<and>
    table s' ys = beacon_spec (ap_table_max_size s) (heard elems fi now) b (table s xs) \<and>
    (olbc s' \<longleftrightarrow> olbc s \<or> ap_list_beacon_olbc s (hd (table s' ys))) \<and>
    (olbc_ht s' \<longleftrightarrow> olbc_ht s \<or> legacy_on s (hd (table s' ys))) \<and>
    ap_table_max_size s' = ap_table_max_size s"
proof -
  note D = table_okD [OF assms(1)]
  obtain r where r: "ap_get_ap s b = Some r"
    "case r of None \<Rightarrow> \<forall>x\<in>set xs. ap_addr (the (heap s x)) \<noteq> b
     | Some x \<Rightarrow> x \<in> set xs \<and> ap_addr (the (heap s x)) = b"
    using ap_get_ap_ok [OF D(2,4) assms(3)] .
  show ?thesis
  proof (cases r)
    case (Some x)
    then have x: "x \<in> set xs" "ap_addr (the (heap s x)) = b" using r(2) by auto
    obtain s' where s': "refresh elems fi now False x s = Some (beacon_flags s' (heard elems fi now (the (heap s x))))"
      "table_ok s' (x # remove1 x xs)"
      "table s' (x # remove1 x xs) = heard elems fi now (entry (the (heap s x))) # table s (remove1 x xs)"
      "same_rest s s'"
      using refresh_ok [OF assms(1) x(1) assms(2), of False] by blast
    let ?n = "heard elems fi now (the (heap s x))"
    have "ap_list_process_beacon alloc now s b elems fi = Some (beacon_flags s' ?n)"
      using assms(4) r(1) Some s'(1) by (simp add: ap_list_process_beacon_eq)
    moreover have "table s' (x # remove1 x xs) = beacon_spec (ap_table_max_size s) (heard elems fi now) b (table s xs)"
      unfolding s'(3) beacon_spec_def table_find [OF assms(1) x] by simp
    moreover have "hd (table s' (x # remove1 x xs)) = heard elems fi now (entry (the (heap s x)))"
      unfolding s'(3) by simp
    ultimately show ?thesis
      using s'(2) same_rest_flags [OF s'(4)]
      by (intro exI [of _ "beacon_flags s' ?n"] exI [of _ "x # remove1 x xs"])
        (simp add: beacon_flags_olbc del: table_Cons)
  next
    case None
    then have new: "\<forall>x\<in>set xs. ap_addr (the (heap s x)) \<noteq> b" using r(2) by auto
    then have fresh: "alloc (heap s) = Some a" "heap s a = None" using alloc by auto
    let ?z = "zero_ap\<lparr>ap_addr := b\<rparr>"
    obtain h' t' k ys where 1: "ap_ap_add alloc s b = Some (Some a, s\<lparr>heap := h', ap_list := Some a, ap_hash := t', num_ap := k\<rparr>)"
      "table_ok (s\<lparr>heap := h', ap_list := Some a, ap_hash := t', num_ap := k\<rparr>) (a # ys)"
      "entry (the (h' a)) # table (s\<lparr>heap := h'\<rparr>) ys = add_spec (ap_table_max_size s) ?z (table s xs)"
      using ap_ap_add_ok [where alloc = alloc, OF assms(1) fresh assms(3) new] .
    let ?s1 = "s\<lparr>heap := h', ap_list := Some a, ap_hash := t', num_ap := k\<rparr>"
    obtain s' where s': "refresh elems fi now True a ?s1 = Some (beacon_flags s' (heard elems fi now (the (heap ?s1 a))))"
      "table_ok s' (a # remove1 a (a # ys))"
      "table s' (a # remove1 a (a # ys)) = heard elems fi now (entry (the (heap ?s1 a))) # table ?s1 (remove1 a (a # ys))"
      "same_rest ?s1 s'"
      using refresh_ok [OF 1(2) _ assms(2), of a True] by auto
    then have "same_rest s s'" by (simp add: same_rest_def)
    have ts: "table ?s1 ys = table (s\<lparr>heap := h'\<rparr>) ys" by (simp add: table_def)
    let ?n = "heard elems fi now (the (heap ?s1 a))"
    have "ap_list_process_beacon alloc now s b elems fi = Some (beacon_flags s' ?n)"
      using assms(4) r(1) None s'(1) 1(1) by (simp add: ap_list_process_beacon_eq)
    moreover have "table s' (a # ys) = beacon_spec (ap_table_max_size s) (heard elems fi now) b (table s xs)"
      using 1(3) s'(3) ts unfolding beacon_spec_def table_find_none [OF new] by (simp add: add_spec_def)
    moreover have "hd (table s' (a # ys)) = heard elems fi now (entry (the (heap ?s1 a)))"
      using s'(3) by simp
    ultimately show ?thesis
      using s'(2) same_rest_flags [OF \<open>same_rest s s'\<close>]
      by (intro exI [of _ "beacon_flags s' ?n"] exI [of _ "a # ys"])
        (simp add: beacon_flags_olbc del: table_Cons)
  qed
qed


text \<open>
  C28. Processing a beacon always has a defined result that keeps the structure of the table, and
  refines the specification on the list of entries: a known AP is refreshed and moved to the
  front; an unknown one is put in front with the last entry dropped if the table was full; the
  protection flags are raised exactly by the entry now in front.
\<close>

theorem ap_list_process_beacon_refines:
  assumes "table_ok s xs" and "elems_ok elems" and "length b = 6" and "1 \<le> ap_table_max_size s"
    and "alloc (heap s) = Some a" and "heap s a = None"
  shows "\<exists>s' ys. ap_list_process_beacon alloc now s b elems fi = Some s' \<and> table_ok s' ys \<and>
    table s' ys = beacon_spec (ap_table_max_size s) (heard elems fi now) b (table s xs) \<and>
    (olbc s' \<longleftrightarrow> olbc s \<or> ap_list_beacon_olbc s (hd (table s' ys))) \<and>
    (olbc_ht s' \<longleftrightarrow> olbc_ht s \<or> legacy_on s (hd (table s' ys)))"
  using process_beacon_ok [OF assms(1-4), of alloc a now fi] assms(5,6) by blast

subsection \<open>The timer and the end\<close>

lemma remove1_last: "distinct xs \<Longrightarrow> xs \<noteq> [] \<Longrightarrow> remove1 (last xs) xs = butlast xs"
  by (induction xs) auto

lemma expire_loop_ok:
  assumes "table_ok s xs"
  shows "\<exists>s' ys. expire_loop now s = Some s' \<and> table_ok s' ys \<and> same_rest s s' \<and>
    table s' ys = rev (dropWhile (\<lambda>e. os_reltime_expired now (last_beacon e) (ap_table_expiration_time s))
      (rev (table s xs)))"
  using assms
proof (induction xs arbitrary: s rule: rev_induct)
  case Nil
  then have "ap_list s = None" by (simp add: table_ok_def list_ok_def)
  then show ?case using Nil by (subst expire_loop.simps) (auto simp: same_rest_def table_def)
next
  case (snoc z xs)
  let ?exp = "\<lambda>e. os_reltime_expired now (last_beacon e) (ap_table_expiration_time s)"
  note D = table_okD [OF snoc.prems]
  obtain l ys where l: "xs @ [z] = l # ys" by (cases xs) auto
  obtain ln where ln: "ap_list s = Some l" "heap s l = Some ln" "ap_prev ln = Some z"
    using D(1) l by (auto simp: list_ok_def) (metis last_ConsL last_ConsR last_snoc)
  obtain zn where zn: "heap s z = Some zn" using D(6) [of z] by auto
  have t: "table s (xs @ [z]) = table s xs @ [entry zn]" by (simp add: table_def zn)
  show ?case
  proof (cases "?exp zn")
    case False
    then have "expire_loop now s = Some s" using ln zn by (subst expire_loop.simps) simp
    moreover have "\<not> ?exp (entry zn)" using False by simp
    ultimately show ?thesis
      using snoc.prems unfolding t by (intro exI [of _ s] exI [of _ "xs @ [z]"]) (simp add: same_rest_def t)
  next
    case True
    have zin: "z \<in> set (xs @ [z])" by simp
    have rm: "remove1 z (xs @ [z]) = xs" using remove1_last [OF D(5)] by simp
    obtain h' l' t' where f:
      "ap_free_ap s z = Some (s\<lparr>heap := h', ap_list := l', ap_hash := t', num_ap := num_ap s - 1\<rparr>)"
      "table_ok (s\<lparr>heap := h', ap_list := l', ap_hash := t', num_ap := num_ap s - 1\<rparr>) xs"
      "same_entries (heap s) h' (set (xs @ [z]) - {z})" "dom h' = dom (heap s) - {z}"
      using ap_free_ok [OF snoc.prems zin] unfolding rm .
    let ?s = "s\<lparr>heap := h', ap_list := l', ap_hash := t', num_ap := num_ap s - 1\<rparr>"
    have "set xs \<subseteq> set (xs @ [z]) - {z}" using D(5) by auto
    then have tx: "table ?s xs = table s xs" using same_entries_subset [OF f(3)] by (intro table_cong) simp
    have "expire_loop now s = expire_loop now ?s"
      using ln zn True f(1) by (subst expire_loop.simps) simp
    moreover have "?exp (entry zn)" using True by simp
    ultimately show ?thesis using snoc.IH [OF f(2)] tx unfolding t by (simp add: same_rest_def)
  qed
qed


lemma olbc_scan_ok:
  "chain (heap s) ap_next p xs \<Longrightarrow>
     olbc_scan s p o1 o2 =
       Some (o1 \<or> (\<exists>a\<in>set xs. ap_list_beacon_olbc s (the (heap s a))),
             o2 \<or> (\<exists>a\<in>set xs. \<not> ht_support (the (heap s a))))"
proof (induction xs arbitrary: p o1 o2)
  case Nil
  then show ?case by (subst olbc_scan.simps) simp
next
  case (Cons a as)
  then obtain n where n: "p = Some a" "heap s a = Some n" "chain (heap s) ap_next (ap_next n) as" by auto
  have "olbc_scan s p o1 o2 =
      (if o1 \<and> o2 then Some (o1, o2)
       else olbc_scan s (ap_next n) (o1 \<or> ap_list_beacon_olbc s n) (o2 \<or> \<not> ht_support n))"
    using n by (subst olbc_scan.simps) simp
  then show ?case using Cons.IH [OF n(3)] n(2) by (simp add: disj_assoc)
qed

lemma table_ex: "(\<exists>e\<in>set (table s xs). P e) \<longleftrightarrow> (\<exists>a\<in>set xs. P (entry (the (heap s a))))"
  by (simp add: table_def)

lemma timer_ok:
  assumes "table_ok s xs" and "xs \<noteq> []"
  shows "\<exists>s' ys. ap_list_timer now s = Some s' \<and> table_ok s' ys \<and>
    table s' ys = rev (dropWhile (\<lambda>e. os_reltime_expired now (last_beacon e) (ap_table_expiration_time s))
      (rev (table s xs))) \<and>
    (olbc s' \<longleftrightarrow> olbc s \<and> (\<exists>e\<in>set (table s' ys). ap_list_beacon_olbc s e)) \<and>
    (olbc_ht s' \<longleftrightarrow> olbc_ht s \<and> (\<exists>e\<in>set (table s' ys). \<not> ht_support e)) \<and>
    ap_table_max_size s' = ap_table_max_size s"
proof -
  obtain s1 ys where 1: "expire_loop now s = Some s1" "table_ok s1 ys" "same_rest s s1"
    "table s1 ys = rev (dropWhile (\<lambda>e. os_reltime_expired now (last_beacon e) (ap_table_expiration_time s))
      (rev (table s xs)))"
    using expire_loop_ok [OF assms(1)] by blast
  obtain l where l: "ap_list s = Some l"
    using table_okD(1) [OF assms(1)] assms(2) by (cases xs) (auto simp: list_ok_def)
  let ?o1 = "\<exists>a\<in>set ys. ap_list_beacon_olbc s1 (the (heap s1 a))"
    and ?o2 = "\<exists>a\<in>set ys. \<not> ht_support (the (heap s1 a))"
  have scan: "olbc_scan s1 (ap_list s1) False False = Some (?o1, ?o2)"
    using olbc_scan_ok [of s1 "ap_list s1" ys False False] table_okD(1) [OF 1(2)] by (simp add: list_ok_def)
  define s' where "s' = (if olbc s1 \<or> olbc_ht s1 then timer_flags s1 ?o1 ?o2 else s1)"
  have run: "ap_list_timer now s = Some s'"
    using l 1(1) scan by (simp add: ap_list_timer_def s'_def)
  have s': "heap s' = heap s1" "ap_list s' = ap_list s1" "ap_hash s' = ap_hash s1" "num_ap s' = num_ap s1"
    "olbc s' = (olbc s1 \<and> ?o1)" "olbc_ht s' = (olbc_ht s1 \<and> ?o2)"
    "ap_table_max_size s' = ap_table_max_size s1"
    by (auto simp: timer_flags_def Let_def s'_def)
  have t: "table s' ys = table s1 ys" by (simp only: table_def s')
  have "table_ok s' ys" using 1(2) by (simp only: table_ok_def s')
  then show ?thesis
    using run unfolding 1(4) [symmetric]
    by (intro exI [of _ s'] exI [of _ ys]) (simp add: t table_ex s' same_rest_flags [OF 1(3)])
qed

text \<open>
  The timer always has a defined result that keeps the structure of a table with entries: it
  drops, from the oldest, exactly the entries that expired before the first that did not, keeps
  the others in order, and clears a protection flag when no remaining entry calls for it.
\<close>

theorem ap_list_timer_refines:
  assumes "table_ok s xs" and "xs \<noteq> []"
  shows "\<exists>s' ys. ap_list_timer now s = Some s' \<and> table_ok s' ys \<and>
    table s' ys = rev (dropWhile (\<lambda>e. os_reltime_expired now (last_beacon e) (ap_table_expiration_time s))
      (rev (table s xs))) \<and>
    (olbc s' \<longleftrightarrow> olbc s \<and> (\<exists>e\<in>set (table s' ys). ap_list_beacon_olbc s e)) \<and>
    (olbc_ht s' \<longleftrightarrow> olbc_ht s \<and> (\<exists>e\<in>set (table s' ys). \<not> ht_support e))"
  using timer_ok [OF assms] by blast

lemma free_aps_loop_ok:
  "table_ok s xs \<Longrightarrow> \<exists>s'. free_aps_loop s (ap_list s) = Some s' \<and> ap_list s' = None \<and>
     ap_hash s' = (\<lambda>_. None) \<and> num_ap s' = 0 \<and> dom (heap s') = dom (heap s) - set xs"
proof (induction xs arbitrary: s)
  case Nil
  then have "ap_list s = None" "num_ap s = 0" by (simp_all add: table_ok_def list_ok_def)
  moreover have "ap_hash s = (\<lambda>_. None)"
    using Nil by (auto simp: table_ok_def indexed_def)
  ultimately show ?case by (subst free_aps_loop.simps) simp
next
  case (Cons a xs)
  note D = table_okD [OF Cons.prems]
  obtain n where n: "ap_list s = Some a" "heap s a = Some n" "ap_next n = head xs"
    using D(1) chain_head by (fastforce simp: list_ok_def)
  obtain h' l' t' where f:
    "ap_free_ap s a = Some (s\<lparr>heap := h', ap_list := l', ap_hash := t', num_ap := num_ap s - 1\<rparr>)"
    "table_ok (s\<lparr>heap := h', ap_list := l', ap_hash := t', num_ap := num_ap s - 1\<rparr>) xs"
    "dom h' = dom (heap s) - {a}"
    using ap_free_ok [OF Cons.prems, of a thesis] by simp
  let ?s = "s\<lparr>heap := h', ap_list := l', ap_hash := t', num_ap := num_ap s - 1\<rparr>"
  have l': "l' = head xs" using table_okD(1) [OF f(2)] chain_head by (fastforce simp: list_ok_def)
  have "free_aps_loop s (ap_list s) = free_aps_loop ?s (ap_list ?s)"
    using n f(1) l' by (subst free_aps_loop.simps) simp
  then show ?case using Cons.IH [OF f(2)] f(3) by auto
qed

text \<open>
  Freeing the table ends with no entry on the list or on a hash chain and a zero counter, and
  every entry of the table is deallocated; nothing else is.
\<close>

theorem ap_list_deinit_frees:
  assumes "table_ok s xs"
  shows "\<exists>s'. ap_list_deinit s = Some s' \<and> ap_list s' = None \<and> ap_hash s' = (\<lambda>_. None) \<and> num_ap s' = 0 \<and>
    dom (heap s') = dom (heap s) - set xs"
  using free_aps_loop_ok [OF assms] by (auto simp: ap_list_deinit_def hostapd_free_aps_def)


section \<open>All runs\<close>

text \<open>The entry points the rest of the program calls, in any order.\<close>

datatype ap_op = Beacon reltime mac beacon_elems "u32 option" | Timer reltime

fun ap_op_run :: "(ap_info store \<Rightarrow> ptr) \<Rightarrow> ap_op \<Rightarrow> iface \<Rightarrow> iface option" where
  "ap_op_run alloc (Beacon now b elems fi) s = ap_list_process_beacon alloc now s b elems fi"
| "ap_op_run alloc (Timer now) s = ap_list_timer now s"

fun ap_runs :: "(ap_info store \<Rightarrow> ptr) \<Rightarrow> ap_op list \<Rightarrow> iface \<Rightarrow> iface option" where
  "ap_runs alloc [] s = Some s"
| "ap_runs alloc (op # ops) s = do { s \<leftarrow> ap_op_run alloc op s; ap_runs alloc ops s }"

fun op_ok :: "ap_op \<Rightarrow> bool" where
  "op_ok (Beacon now b elems fi) \<longleftrightarrow> length b = 6 \<and> elems_ok elems"
| "op_ok (Timer now) \<longleftrightarrow> True"

text \<open>A consistent table within its limit (no entry at all when the limit is below one).\<close>

definition table_inv :: "iface \<Rightarrow> bool" where
  "table_inv s \<longleftrightarrow> (\<exists>xs. table_ok s xs \<and> int (length xs) \<le> max 0 (ap_table_max_size s))"

lemma length_table [simp]: "length (table s xs) = length xs"
  by (simp add: table_def)

lemma length_beacon_spec:
  assumes "1 \<le> m" and "int (length t) \<le> m"
  shows "int (length (beacon_spec m f b t)) \<le> m"
proof (cases "List.find (\<lambda>e. ap_addr e = b) t")
  case None
  then show ?thesis using assms by (cases t) (auto simp: beacon_spec_def)
next
  case (Some e)
  then have "e \<in> set t" "\<not> ap_addr e \<noteq> b" by (auto simp: find_Some_iff)
  then have "length (filter (\<lambda>e. ap_addr e \<noteq> b) t) < length t" by (rule length_filter_less)
  then show ?thesis using Some assms by (simp add: beacon_spec_def)
qed

lemma beacon_inv:
  assumes inv: "table_inv s" and ok: "length b = 6" "elems_ok elems"
    and alloc: "\<And>h a. alloc h = Some a \<Longrightarrow> h a = None"
  shows "\<exists>s'. ap_list_process_beacon alloc now s b elems fi = Some s' \<and> table_inv s' \<and>
    ap_table_max_size s' = ap_table_max_size s"
proof -
  obtain xs where xs: "table_ok s xs" "int (length xs) \<le> max 0 (ap_table_max_size s)"
    using inv by (auto simp: table_inv_def)
  show ?thesis
  proof (cases "1 \<le> ap_table_max_size s")
    case False
    then show ?thesis using inv by (simp add: ap_list_process_beacon_def)
  next
    case m: True
    then have le: "int (length (table s xs)) \<le> ap_table_max_size s" using xs(2) by simp
    note D = table_okD [OF xs(1)]
    show ?thesis
    proof (cases "(\<exists>x\<in>set xs. ap_addr (the (heap s x)) = b) \<or> alloc (heap s) \<noteq> None")
      case True
      then have "(\<exists>x\<in>set xs. ap_addr (the (heap s x)) = b) \<or>
          alloc (heap s) = Some (the (alloc (heap s))) \<and> heap s (the (alloc (heap s))) = None"
        using alloc by auto
      from process_beacon_ok [where alloc = alloc, OF xs(1) ok(2,1) m this]
      obtain s' ys where s': "ap_list_process_beacon alloc now s b elems fi = Some s'" "table_ok s' ys"
        "table s' ys = beacon_spec (ap_table_max_size s) (heard elems fi now) b (table s xs)"
        "ap_table_max_size s' = ap_table_max_size s" by blast
      have "int (length ys) \<le> ap_table_max_size s"
        using length_beacon_spec [OF m le, of "heard elems fi now" b] s'(3) length_table by metis
      then show ?thesis using s' m by (auto simp: table_inv_def)
    next
      case False
      obtain r where r: "ap_get_ap s b = Some r"
        "case r of None \<Rightarrow> \<forall>x\<in>set xs. ap_addr (the (heap s x)) \<noteq> b
         | Some x \<Rightarrow> x \<in> set xs \<and> ap_addr (the (heap s x)) = b"
        using ap_get_ap_ok [OF D(2,4) ok(1)] .
      then have "ap_get_ap s b = Some None" using False by (cases r) auto
      then show ?thesis using False m inv by (simp add: ap_list_process_beacon_eq ap_ap_add_def)
    qed
  qed
qed

lemma timer_inv:
  assumes "table_inv s"
  shows "\<exists>s'. ap_list_timer now s = Some s' \<and> table_inv s' \<and> ap_table_max_size s' = ap_table_max_size s"
proof -
  obtain xs where xs: "table_ok s xs" "int (length xs) \<le> max 0 (ap_table_max_size s)"
    using assms by (auto simp: table_inv_def)
  show ?thesis
  proof (cases "xs = []")
    case True
    then have "ap_list s = None" using xs(1) by (simp add: table_ok_def list_ok_def)
    then show ?thesis using assms by (simp add: ap_list_timer_def)
  next
    case False
    obtain s' ys where s': "ap_list_timer now s = Some s'" "table_ok s' ys"
      "table s' ys = rev (dropWhile (\<lambda>e. os_reltime_expired now (last_beacon e) (ap_table_expiration_time s))
        (rev (table s xs)))" "ap_table_max_size s' = ap_table_max_size s"
      using timer_ok [OF xs(1) False, of now] by blast
    have "length ys \<le> length xs" using arg_cong [OF s'(3), of length] length_dropWhile_le
      by (metis length_rev length_table)
    then show ?thesis using s' xs(2) by (auto simp: table_inv_def)
  qed
qed

text \<open>
  C29. From a consistent table within its limit, every sequence of beacons and timer calls has a
  defined result (no write through a null or dangling link, no endless walk), whatever the
  allocator returns as long as it never hands out an entry in use: the result is again a
  consistent table within its limit.
\<close>

theorem ap_runs_safe:
  assumes "table_inv s" and "\<forall>op\<in>set ops. op_ok op" and "\<forall>h a. alloc h = Some a \<longrightarrow> h a = None"
  shows "\<exists>s'. ap_runs alloc ops s = Some s' \<and> table_inv s'"
  using assms(1,2)
proof (induction ops arbitrary: s)
  case (Cons op ops)
  have "\<exists>s'. ap_op_run alloc op s = Some s' \<and> table_inv s'"
    using Cons.prems assms(3) beacon_inv timer_inv by (cases op) (simp; metis)+
  then show ?case using Cons by auto
qed simp

section \<open>A concrete table\<close>

text \<open>One AP, heard at second 10, in a table of at most two entries.\<close>

definition sample_mac :: "byte \<Rightarrow> mac" where
  "sample_mac b = [2, 0, 0, 0, 0, b]"

definition sample_ap :: ap_info where
  "sample_ap = zero_ap\<lparr>ap_prev := Some 7, ap_addr := sample_mac 1, ap_channel := 6,
     last_beacon := \<lparr>sec = 10, usec = 0\<rparr>\<rparr>"

definition sample_iface :: iface where
  "sample_iface = \<lparr>heap = [7 \<mapsto> sample_ap], ap_list = Some 7, ap_hash = (\<lambda>_. None)(1 := Some 7), num_ap = 1,
     olbc = False, olbc_ht = True, current_mode = Some MODE_G, conf_channel = 6, conf_secondary_channel = 0,
     ap_table_max_size = 2, ap_table_expiration_time = 60, events = []\<rparr>"

definition sample_elems :: beacon_elems where
  "sample_elems = \<lparr>supp_rates = Some [0x82, 0x84, 0x8b, 0x96], ext_supp_rates = None, erp_info = Some [1],
     ds_params = Some [6], ht_operation = None, ht_capabilities = None\<rparr>"

lemma sample_table_ok: "table_ok sample_iface [7]"
proof -
  have "indexed [7 \<mapsto> sample_ap] ap_hnext (\<lambda>n. STA_HASH (ap_addr n)) ((\<lambda>_. None)(1 := Some 7)) {7}"
    using indexed_insert [of "Map.empty" ap_hnext "\<lambda>n. STA_HASH (ap_addr n)" "\<lambda>_. None" "{}" 7 sample_ap]
    by (simp add: indexed_def sample_ap_def zero_ap_def STA_HASH_def sample_mac_def)
  then show ?thesis
    by (simp add: table_ok_def list_ok_def addrs_ok_def sample_iface_def sample_ap_def zero_ap_def sample_mac_def)
qed

lemma sample_elems_ok: "elems_ok sample_elems"
  by (simp add: elems_ok_def sample_elems_def)

lemma sample_max: "ap_table_max_size sample_iface = 2" "heap sample_iface = [7 \<mapsto> sample_ap]"
  by (simp_all add: sample_iface_def)

text \<open>The allocator of the examples: the first free address up to 9.\<close>

definition sample_alloc :: "ap_info store \<Rightarrow> ptr" where
  "sample_alloc h = List.find (\<lambda>a. h a = None) [0..<10]"

lemma sample_alloc_fresh: "sample_alloc h = Some a \<Longrightarrow> h a = None"
  by (auto simp: sample_alloc_def find_Some_iff)

lemma sample_spec:
  "beacon_spec 2 f (sample_mac 2) (table sample_iface [7]) = [f (zero_ap\<lparr>ap_addr := sample_mac 2\<rparr>), entry sample_ap]"
  by (simp add: beacon_spec_def sample_max sample_ap_def sample_mac_def)

theorem ap_list_process_beacon_refines_witness:
  "\<exists>s' ys. ap_list_process_beacon sample_alloc \<lparr>sec = 20, usec = 0\<rparr> sample_iface (sample_mac 2) sample_elems None = Some s' \<and>
     table_ok s' ys \<and> map ap_addr (table s' ys) = [sample_mac 2, sample_mac 1] \<and> olbc s'"
proof -
  have a: "sample_alloc (heap sample_iface) = Some 0" "heap sample_iface 0 = None"
    "length (sample_mac 2) = 6" "1 \<le> ap_table_max_size sample_iface"
    by (simp_all add: sample_alloc_def sample_max upt_conv_Cons sample_mac_def)
  have "ap_addr sample_ap = sample_mac 1"
    "ap_list_beacon_olbc sample_iface (heard sample_elems None \<lparr>sec = 20, usec = 0\<rparr> (zero_ap\<lparr>ap_addr := sample_mac 2\<rparr>))"
    by (simp_all add: ap_list_beacon_olbc_def sample_iface_def sample_ap_def heard_def sample_elems_def)
  then show ?thesis
    using ap_list_process_beacon_refines [where alloc = sample_alloc, OF sample_table_ok sample_elems_ok a(3,4,1,2),
        of "\<lparr>sec = 20, usec = 0\<rparr>" None]
    unfolding sample_max sample_spec by fastforce
qed

theorem ap_list_timer_refines_witness:
  "\<exists>s' ys. ap_list_timer \<lparr>sec = 70, usec = 1\<rparr> sample_iface = Some s' \<and> table_ok s' ys \<and> table s' ys = [] \<and> \<not> olbc_ht s'"
proof -
  have "os_reltime_expired \<lparr>sec = 70, usec = 1\<rparr> (last_beacon (entry sample_ap)) (ap_table_expiration_time sample_iface)"
    by (simp add: sample_ap_def os_reltime_expired_def os_reltime_sub_def sample_iface_def)
  then have "dropWhile (\<lambda>e. os_reltime_expired \<lparr>sec = 70, usec = 1\<rparr> (last_beacon e) (ap_table_expiration_time sample_iface))
      (rev (table sample_iface [7])) = []"
    by (simp add: sample_max)
  then show ?thesis
    using ap_list_timer_refines [OF sample_table_ok, of "\<lparr>sec = 70, usec = 1\<rparr>"] by fastforce
qed

theorem ap_list_deinit_frees_witness:
  "\<exists>s'. ap_list_deinit sample_iface = Some s' \<and> ap_list s' = None \<and> num_ap s' = 0 \<and> dom (heap s') = {}"
  using ap_list_deinit_frees [OF sample_table_ok] by (auto simp: sample_max)

theorem ap_runs_safe_witness:
  "\<exists>s'. ap_runs sample_alloc
     [Beacon \<lparr>sec = 20, usec = 0\<rparr> (sample_mac 2) sample_elems None, Beacon \<lparr>sec = 21, usec = 0\<rparr> (sample_mac 3) sample_elems (Some 6),
      Timer \<lparr>sec = 75, usec = 0\<rparr>] sample_iface = Some s' \<and> table_inv s'"
proof -
  have "table_inv sample_iface"
    unfolding table_inv_def by (intro exI [of _ "[7]"]) (simp add: sample_table_ok sample_max)
  then show ?thesis
    by (rule ap_runs_safe) (auto simp: sample_elems_ok sample_mac_def dest: sample_alloc_fresh)
qed

end
