(* ===== verification/Eap_Common.thy ===== *)
theory Eap_Common
  imports Common
begin

text \<open>
  EAP frames: \<open>src/eap_common/eap_common.c\<close>, with the constants of \<open>eap_defs.h\<close>. A frame is the list
  of its bytes (the used part of a \<open>struct wpabuf\<close>); a pointer into it is an offset.
\<close>

section \<open>Constants\<close>

definition EAP_CODE_REQUEST :: byte where "EAP_CODE_REQUEST = 1"
definition EAP_CODE_RESPONSE :: byte where "EAP_CODE_RESPONSE = 2"
definition EAP_CODE_SUCCESS :: byte where "EAP_CODE_SUCCESS = 3"
definition EAP_CODE_FAILURE :: byte where "EAP_CODE_FAILURE = 4"
definition EAP_CODE_INITIATE :: byte where "EAP_CODE_INITIATE = 5"
definition EAP_CODE_FINISH :: byte where "EAP_CODE_FINISH = 6"

definition EAP_TYPE_NONE :: u32 where "EAP_TYPE_NONE = 0"
definition EAP_TYPE_IDENTITY :: u32 where "EAP_TYPE_IDENTITY = 1"
definition EAP_TYPE_NOTIFICATION :: u32 where "EAP_TYPE_NOTIFICATION = 2"
definition EAP_TYPE_NAK :: u32 where "EAP_TYPE_NAK = 3"
definition EAP_TYPE_MD5 :: u32 where "EAP_TYPE_MD5 = 4"
definition EAP_TYPE_EXPANDED :: u32 where "EAP_TYPE_EXPANDED = 254"

definition EAP_VENDOR_IETF :: int where "EAP_VENDOR_IETF = 0"

definition EAP_ERP_TYPE_REAUTH_START :: u32 where "EAP_ERP_TYPE_REAUTH_START = 1"
definition EAP_ERP_TYPE_REAUTH :: u32 where "EAP_ERP_TYPE_REAUTH = 2"

definition EAP_ERP_TLV_KEYNAME_NAI :: byte where "EAP_ERP_TLV_KEYNAME_NAI = 1"
definition EAP_ERP_TV_RRK_LIFETIME :: byte where "EAP_ERP_TV_RRK_LIFETIME = 2"
definition EAP_ERP_TV_RMSK_LIFETIME :: byte where "EAP_ERP_TV_RMSK_LIFETIME = 3"
definition EAP_ERP_TLV_DOMAIN_NAME :: byte where "EAP_ERP_TLV_DOMAIN_NAME = 4"
definition EAP_ERP_TLV_CRYPTOSUITES :: byte where "EAP_ERP_TLV_CRYPTOSUITES = 5"
definition EAP_ERP_TLV_AUTHORIZATION_INDICATION :: byte where "EAP_ERP_TLV_AUTHORIZATION_INDICATION = 6"
definition EAP_ERP_TLV_CALLED_STATION_ID :: byte where "EAP_ERP_TLV_CALLED_STATION_ID = 128"
definition EAP_ERP_TLV_CALLING_STATION_ID :: byte where "EAP_ERP_TLV_CALLING_STATION_ID = 129"
definition EAP_ERP_TLV_NAS_IDENTIFIER :: byte where "EAP_ERP_TLV_NAS_IDENTIFIER = 130"
definition EAP_ERP_TLV_NAS_IP_ADDRESS :: byte where "EAP_ERP_TLV_NAS_IP_ADDRESS = 131"
definition EAP_ERP_TLV_NAS_IPV6_ADDRESS :: byte where "EAP_ERP_TLV_NAS_IPV6_ADDRESS = 132"

definition EAP_ERP_CS_HMAC_SHA256_128 :: byte where "EAP_ERP_CS_HMAC_SHA256_128 = 2"
definition EAP_ERP_CS_HMAC_SHA256_256 :: byte where "EAP_ERP_CS_HMAC_SHA256_256 = 3"

lemmas eap_consts = EAP_CODE_REQUEST_def EAP_CODE_RESPONSE_def EAP_CODE_SUCCESS_def EAP_CODE_FAILURE_def
  EAP_CODE_INITIATE_def EAP_CODE_FINISH_def EAP_TYPE_NONE_def EAP_TYPE_IDENTITY_def EAP_TYPE_NOTIFICATION_def
  EAP_TYPE_NAK_def EAP_TYPE_MD5_def EAP_TYPE_EXPANDED_def EAP_VENDOR_IETF_def EAP_ERP_TYPE_REAUTH_START_def
  EAP_ERP_TYPE_REAUTH_def EAP_ERP_CS_HMAC_SHA256_128_def EAP_ERP_CS_HMAC_SHA256_256_def

lemmas erp_tlv_consts = EAP_ERP_TLV_KEYNAME_NAI_def EAP_ERP_TV_RRK_LIFETIME_def EAP_ERP_TV_RMSK_LIFETIME_def
  EAP_ERP_TLV_DOMAIN_NAME_def EAP_ERP_TLV_CRYPTOSUITES_def EAP_ERP_TLV_AUTHORIZATION_INDICATION_def
  EAP_ERP_TLV_CALLED_STATION_ID_def EAP_ERP_TLV_CALLING_STATION_ID_def EAP_ERP_TLV_NAS_IDENTIFIER_def
  EAP_ERP_TLV_NAS_IP_ADDRESS_def EAP_ERP_TLV_NAS_IPV6_ADDRESS_def

section \<open>Big-endian numbers\<close>

definition get_be16 :: "bytes \<Rightarrow> nat \<Rightarrow> nat" where
  "get_be16 b i = unat (b ! i) * 256 + unat (b ! (i + 1))"

definition get_be24 :: "bytes \<Rightarrow> nat \<Rightarrow> nat" where
  "get_be24 b i = unat (b ! i) * 65536 + get_be16 b (i + 1)"

definition get_be32 :: "bytes \<Rightarrow> nat \<Rightarrow> nat" where
  "get_be32 b i = unat (b ! i) * 16777216 + get_be24 b (i + 1)"

text \<open>The stored bytes; a number that does not fit loses its high bits.\<close>

definition put_be16 :: "nat \<Rightarrow> bytes" where
  "put_be16 n = [of_nat (n div 256), of_nat n]"

definition put_be24 :: "nat \<Rightarrow> bytes" where
  "put_be24 n = [of_nat (n div 65536), of_nat (n div 256), of_nat n]"

definition put_be32 :: "nat \<Rightarrow> bytes" where
  "put_be32 n = [of_nat (n div 16777216), of_nat (n div 65536), of_nat (n div 256), of_nat n]"

lemma length_put [simp]: "length (put_be16 n) = 2" "length (put_be24 n) = 3" "length (put_be32 n) = 4"
  by (simp_all add: put_be16_def put_be24_def put_be32_def)

lemma unat_byte_of_nat [simp]: "unat (of_nat n :: byte) = n mod 256"
  by (simp add: unat_of_nat)

lemma get_put_be16:
  assumes "k = length xs" and "n < 65536"
  shows "get_be16 (xs @ put_be16 n @ ys) k = n"
  using assms by (simp add: get_be16_def put_be16_def nth_append)

lemma get_put_be24:
  assumes "k = length xs" and "n < 16777216"
  shows "get_be24 (xs @ put_be24 n @ ys) k = n"
proof -
  have d: "n div 65536 = n div 256 div 256" by (simp flip: div_mult2_eq)
  have "get_be24 (xs @ put_be24 n @ ys) k = n div 256 div 256 * 65536 + (n div 256 mod 256 * 256 + n mod 256)"
    using assms by (simp add: get_be24_def get_be16_def put_be24_def nth_append d)
  also have "\<dots> = n" using div_mult_mod_eq [of "n div 256" 256] div_mult_mod_eq [of n 256] by linarith
  finally show ?thesis .
qed

lemma get_put_be32:
  assumes "k = length xs" and "n < 4294967296"
  shows "get_be32 (xs @ put_be32 n @ ys) k = n"
proof -
  have d: "n div 16777216 = n div 256 div 256 div 256" "n div 65536 = n div 256 div 256" by (simp_all flip: div_mult2_eq)
  have "get_be32 (xs @ put_be32 n @ ys) k = n div 256 div 256 div 256 * 16777216 +
      (n div 256 div 256 mod 256 * 65536 + (n div 256 mod 256 * 256 + n mod 256))"
    using assms by (simp add: get_be32_def get_be24_def get_be16_def put_be32_def nth_append d)
  also have "\<dots> = n"
    using div_mult_mod_eq [of "n div 256 div 256" 256] div_mult_mod_eq [of "n div 256" 256] div_mult_mod_eq [of n 256]
    by linarith
  finally show ?thesis .
qed

lemma ucast_ucast_byte: "unat t < 256 \<Longrightarrow> ucast (ucast t :: byte) = (t :: u32)"
  by (simp add: word_eq_iff_unsigned [where ?'a = nat] unsigned_ucast_eq take_bit_eq_mod unat_mod)

section \<open>Headers\<close>

definition eap_hdr_len_valid :: "bytes option \<Rightarrow> nat \<Rightarrow> bool" where
  "eap_hdr_len_valid msg min_payload =
     (case msg of
        None \<Rightarrow> False
      | Some b \<Rightarrow>
          if length b < 4 then False
          else let len = get_be16 b 2
               in \<not> (len < 4 + min_payload \<or> len > length b))"

text \<open>The offset of the payload behind the type and its length, or \<open>None\<close> for the null pointer.\<close>

definition eap_hdr_validate :: "int \<Rightarrow> u32 \<Rightarrow> bytes option \<Rightarrow> (nat \<times> nat) option" where
  "eap_hdr_validate vendor eap_type msg =
     (if \<not> eap_hdr_len_valid msg 1 then None
      else
        let b = the msg; len = get_be16 b 2
        in if ucast (b ! 4) = EAP_TYPE_EXPANDED then
             if len < 4 + 8 then None
             else if int (get_be24 b 5) \<noteq> vendor \<or> of_nat (get_be32 b 8) \<noteq> eap_type then None
             else Some (12, len - 4 - 8)
           else if vendor \<noteq> EAP_VENDOR_IETF \<or> ucast (b ! 4) \<noteq> eap_type then None
           else Some (5, len - 4 - 1))"

text \<open>
  The used part of a freshly allocated message; the caller appends \<open>payload_len\<close> bytes to it, for
  which the buffer has room. \<open>room\<close> says whether the allocation succeeds.
\<close>

definition eap_msg_alloc :: "bool \<Rightarrow> int \<Rightarrow> u32 \<Rightarrow> nat \<Rightarrow> byte \<Rightarrow> byte \<Rightarrow> bytes option" where
  "eap_msg_alloc room vendor type payload_len code identifier =
     (let len = 4 + (if vendor = EAP_VENDOR_IETF then 1 else 8) + payload_len
      in if \<not> room then None
         else Some ([code, identifier] @ put_be16 len @
           (if vendor = EAP_VENDOR_IETF then [ucast type]
            else [254] @ put_be24 (nat (vendor mod 2 ^ 24)) @ put_be32 (unat type))))"

definition eap_update_len :: "bytes \<Rightarrow> bytes" where
  "eap_update_len msg = (if length msg < 4 then msg else take 2 msg @ put_be16 (length msg) @ drop 4 msg)"

definition eap_get_id :: "bytes \<Rightarrow> byte" where
  "eap_get_id msg = (if length msg < 4 then 0 else msg ! 1)"

definition eap_get_type :: "bytes \<Rightarrow> u32" where
  "eap_get_type msg = (if length msg < 4 + 1 then EAP_TYPE_NONE else ucast (msg ! 4))"

text \<open>
  A message built by \<open>eap_msg_alloc\<close> and filled with its payload is accepted by
  \<open>eap_hdr_validate\<close> for the same vendor and type, which finds exactly that payload, provided that
  the length fits the 16-bit field, that a vendor fits 24 bits, and that an IETF type is a byte
  other than the marker of expanded types.
\<close>

theorem eap_msg_roundtrip:
  assumes "eap_msg_alloc room vendor type (length payload) code ident = Some hdr"
    and "length hdr + length payload < 2 ^ 16" and "0 \<le> vendor" and "vendor < 2 ^ 24"
    and "vendor = EAP_VENDOR_IETF \<Longrightarrow> unat type < 256 \<and> type \<noteq> EAP_TYPE_EXPANDED"
  shows "\<exists>pos. eap_hdr_validate vendor type (Some (hdr @ payload)) = Some (pos, length payload) \<and>
    drop pos (hdr @ payload) = payload \<and> eap_get_id (hdr @ payload) = ident \<and> (hdr @ payload) ! 0 = code"
proof (cases "vendor = EAP_VENDOR_IETF")
  case True
  have h: "hdr = [code, ident] @ put_be16 (5 + length payload) @ [ucast type]"
    using assms(1) True by (simp add: eap_msg_alloc_def split: if_splits)
  have t: "ucast (ucast type :: byte) = type" "type \<noteq> 254"
    using assms(5) [OF True] by (simp_all add: ucast_ucast_byte EAP_TYPE_EXPANDED_def)
  have len: "get_be16 (hdr @ payload) 2 = 5 + length payload"
    using get_put_be16 [of 2 "[code, ident]" "5 + length payload" "[ucast type] @ payload"] assms(2) by (simp add: h)
  have v: "eap_hdr_len_valid (Some (hdr @ payload)) 1" using len by (simp add: eap_hdr_len_valid_def h)
  have "(hdr @ payload) ! 4 = ucast type" by (simp add: h put_be16_def)
  then show ?thesis
    using True v len t by (simp add: eap_hdr_validate_def Let_def eap_consts) (simp add: h put_be16_def eap_get_id_def)
next
  case False
  have h: "hdr = [code, ident] @ put_be16 (12 + length payload) @ [254] @ put_be24 (nat vendor) @ put_be32 (unat type)"
    using assms(1,3,4) False by (simp add: eap_msg_alloc_def split: if_splits)
  have len: "get_be16 (hdr @ payload) 2 = 12 + length payload"
    using get_put_be16 [of 2 "[code, ident]" "12 + length payload" "[254] @ put_be24 (nat vendor) @ put_be32 (unat type) @ payload"]
      assms(2) by (simp add: h)
  have vd: "get_be24 (hdr @ payload) 5 = nat vendor"
    using get_put_be24 [of 5 "[code, ident] @ put_be16 (12 + length payload) @ [254]" "nat vendor" "put_be32 (unat type) @ payload"]
      assms(3,4) by (simp add: h nat_less_iff)
  have ty: "get_be32 (hdr @ payload) 8 = unat type"
    using get_put_be32 [of 8 "[code, ident] @ put_be16 (12 + length payload) @ [254] @ put_be24 (nat vendor)" "unat type" payload]
      unsigned_less [of type] by (simp add: h)
  have v: "eap_hdr_len_valid (Some (hdr @ payload)) 1" using len by (simp add: eap_hdr_len_valid_def h)
  have "(hdr @ payload) ! 4 = 254" by (simp add: h put_be16_def)
  then show ?thesis
    using False v len vd ty assms(3)
    by (simp add: eap_hdr_validate_def Let_def eap_consts) (simp add: h put_be16_def put_be24_def put_be32_def eap_get_id_def)
qed

section \<open>Attributes of the re-authentication protocol\<close>

text \<open>Ranges of the frame, as offset and length.\<close>

record erp_tlvs =
  keyname :: "(nat \<times> nat) option"
  domain :: "(nat \<times> nat) option"

definition no_tlvs :: erp_tlvs where
  "no_tlvs = \<lparr>keyname = None, domain = None\<rparr>"

text \<open>A byte of the frame; reading outside it is undefined.\<close>

definition rd_byte :: "bytes \<Rightarrow> nat \<Rightarrow> byte option" where
  "rd_byte b i = (if i < length b then Some (b ! i) else None)"

definition known_tlv :: "byte \<Rightarrow> bool" where
  "known_tlv t \<longleftrightarrow> t \<in> {EAP_ERP_TLV_DOMAIN_NAME, EAP_ERP_TLV_KEYNAME_NAI, EAP_ERP_TLV_CRYPTOSUITES,
     EAP_ERP_TLV_AUTHORIZATION_INDICATION, EAP_ERP_TLV_CALLED_STATION_ID, EAP_ERP_TLV_CALLING_STATION_ID,
     EAP_ERP_TLV_NAS_IDENTIFIER, EAP_ERP_TLV_NAS_IP_ADDRESS, EAP_ERP_TLV_NAS_IPV6_ADDRESS}"

text \<open>The loop; the result is the returned code with the attributes found so far.\<close>

function erp_parse_loop :: "bytes \<Rightarrow> nat \<Rightarrow> bool \<Rightarrow> nat \<Rightarrow> erp_tlvs \<Rightarrow> (int \<times> erp_tlvs) option" where
  "erp_parse_loop b end stop pos tlvs =
     (if \<not> pos < end then Some (0, tlvs)
      else case rd_byte b pos of None \<Rightarrow> None | Some tlv_type \<Rightarrow>
        if tlv_type = EAP_ERP_TV_RRK_LIFETIME \<or> tlv_type = EAP_ERP_TV_RMSK_LIFETIME then
          if pos + 1 + 4 > end then Some (-1, tlvs)
          else erp_parse_loop b end stop (pos + 1 + 4) tlvs
        else if known_tlv tlv_type then
          if pos + 1 \<ge> end then Some (-1, tlvs)
          else case rd_byte b (pos + 1) of None \<Rightarrow> None | Some tlv_len \<Rightarrow>
            if unat tlv_len > end - (pos + 2) then Some (-1, tlvs)
            else if tlv_type = EAP_ERP_TLV_KEYNAME_NAI then
              if keyname tlvs \<noteq> None then Some (-1, tlvs)
              else if stop then Some (0, tlvs\<lparr>keyname := Some (pos + 2, unat tlv_len)\<rparr>)
              else erp_parse_loop b end stop (pos + 2 + unat tlv_len)
                     (tlvs\<lparr>keyname := Some (pos + 2, unat tlv_len)\<rparr>)
            else if tlv_type = EAP_ERP_TLV_DOMAIN_NAME then
              erp_parse_loop b end stop (pos + 2 + unat tlv_len) (tlvs\<lparr>domain := Some (pos + 2, unat tlv_len)\<rparr>)
            else erp_parse_loop b end stop (pos + 2 + unat tlv_len) tlvs
        else if tlv_type \<ge> 128 \<and> tlv_type \<le> 191 then
          if pos + 1 \<ge> end then Some (-1, tlvs)
          else case rd_byte b (pos + 1) of None \<Rightarrow> None | Some tlv_len \<Rightarrow>
            if unat tlv_len > end - (pos + 2) then Some (-1, tlvs)
            else erp_parse_loop b end stop (pos + 2 + unat tlv_len) tlvs
        else erp_parse_loop b end stop end tlvs)"
  by pat_completeness auto
termination by (relation "measure (\<lambda>(b, end, stop, pos, tlvs). end - pos)") auto

declare erp_parse_loop.simps [simp del]

definition erp_parse_tlvs :: "bytes \<Rightarrow> nat \<Rightarrow> nat \<Rightarrow> bool \<Rightarrow> (int \<times> erp_tlvs) option" where
  "erp_parse_tlvs b pos end stop_at_keyname = erp_parse_loop b end stop_at_keyname pos no_tlvs"

text \<open>A range that lies between two offsets.\<close>

definition range_in :: "nat \<Rightarrow> nat \<Rightarrow> (nat \<times> nat) option \<Rightarrow> bool" where
  "range_in lo hi r = (case r of None \<Rightarrow> True | Some (i, n) \<Rightarrow> lo \<le> i \<and> i + n \<le> hi)"

lemma range_in_simps [simp]:
  "range_in lo hi None" "range_in lo hi (Some (i, n)) \<longleftrightarrow> lo \<le> i \<and> i + n \<le> hi"
  by (simp_all add: range_in_def)

text \<open>The loop never reads outside the frame, and what it reports lies inside.\<close>

lemma erp_parse_loop_ok:
  assumes "e \<le> length b" and "range_in lo e (keyname t)" and "range_in lo e (domain t)" and "lo \<le> pos"
  shows "\<exists>r t'. erp_parse_loop b e stop pos t = Some (r, t') \<and> r \<in> {0, -1} \<and>
    range_in lo e (keyname t') \<and> range_in lo e (domain t')"
  using assms(2-)
proof (induction "e - pos" arbitrary: pos t rule: less_induct)
  case less
  have rd: "rd_byte b i = Some (b ! i)" if "i < e" for i using that assms(1) by (simp add: rd_byte_def)
  have IH: "\<exists>r t'. erp_parse_loop b e stop p u = Some (r, t') \<and> r \<in> {0, -1} \<and>
      range_in lo e (keyname t') \<and> range_in lo e (domain t')"
    if "pos < e" "pos < p" "range_in lo e (keyname u)" "range_in lo e (domain u)" for p u
    using less.hyps [of p u] less.prems that by simp
  show ?case
  proof (cases "pos < e")
    case True
    let ?t = "b ! pos" and ?n = "unat (b ! (pos + 1))"
    note step = erp_parse_loop.simps [of b e _ pos t]
    consider "?t = EAP_ERP_TV_RRK_LIFETIME \<or> ?t = EAP_ERP_TV_RMSK_LIFETIME"
      | "?t \<noteq> EAP_ERP_TV_RRK_LIFETIME" "?t \<noteq> EAP_ERP_TV_RMSK_LIFETIME" "known_tlv ?t"
      | "?t \<noteq> EAP_ERP_TV_RRK_LIFETIME" "?t \<noteq> EAP_ERP_TV_RMSK_LIFETIME" "\<not> known_tlv ?t" by blast
    then show ?thesis
    proof cases
      case 1
      then show ?thesis using True less.prems IH [of "pos + 1 + 4" t] by (simp add: step rd)
    next
      case 2
      show ?thesis
      proof (cases "pos + 1 < e \<and> ?n \<le> e - (pos + 2)")
        case fits: True
        then have "\<not> ?n > e - (pos + 2)" "pos + 2 + ?n \<le> e" by linarith+
        then show ?thesis
          using 2 True less.prems fits IH [of "pos + 2 + ?n" t] IH [of "pos + 2 + ?n" "t\<lparr>keyname := Some (pos + 2, ?n)\<rparr>"]
            IH [of "pos + 2 + ?n" "t\<lparr>domain := Some (pos + 2, ?n)\<rparr>"]
          by (cases stop) (simp_all add: step rd)
      qed (use 2 True less.prems in \<open>auto simp: step rd\<close>)
    next
      case 3
      show ?thesis
      proof (cases "pos + 1 < e \<and> ?n \<le> e - (pos + 2)")
        case fits: True
        then show ?thesis using 3 True less.prems IH [of "pos + 2 + ?n" t] IH [of e t] by (simp add: step rd)
      qed (use 3 True less.prems IH [of e t] in \<open>auto simp: step rd\<close>)
    qed
  qed (use less.prems in \<open>simp add: erp_parse_loop.simps [of b e]\<close>)
qed

lemma erp_parse_tlvs_ok:
  assumes "end \<le> length b"
  shows "\<exists>r t. erp_parse_tlvs b pos end stop = Some (r, t) \<and> r \<in> {0, -1} \<and>
    range_in pos end (keyname t) \<and> range_in pos end (domain t)"
  unfolding erp_parse_tlvs_def by (rule erp_parse_loop_ok) (use assms in \<open>simp_all add: no_tlvs_def\<close>)

text \<open>
  The attributes of a re-authentication message: with an end inside the frame the parser reads
  no byte outside it, returns 0 or -1, and every range it reports lies between the two bounds.
\<close>

theorem erp_parse_tlvs_safe:
  assumes "end \<le> length b"
  shows "\<exists>r t. erp_parse_tlvs b pos end stop = Some (r, t) \<and> r \<in> {0, -1} \<and>
    range_in pos end (keyname t) \<and> range_in pos end (domain t)"
  using assms by (rule erp_parse_tlvs_ok)

section \<open>Examples\<close>

theorem eap_msg_roundtrip_witness:
  "\<exists>pos. eap_hdr_validate 0 EAP_TYPE_MD5 (Some ([1, 7, 0, 8, 4] @ [0xAA, 0xBB, 0xCC])) = Some (pos, 3) \<and>
     drop pos ([1, 7, 0, 8, 4] @ [0xAA, 0xBB, 0xCC]) = [0xAA, 0xBB, 0xCC :: byte]"
proof -
  have "eap_msg_alloc True 0 EAP_TYPE_MD5 (length [0xAA, 0xBB, 0xCC :: byte]) 1 7 = Some [1, 7, 0, 8, 4]"
    by (simp add: eap_msg_alloc_def eap_consts put_be16_def)
  from eap_msg_roundtrip [OF this] show ?thesis by (auto simp: eap_consts)
qed

theorem erp_parse_tlvs_safe_witness:
  "\<exists>r t. erp_parse_tlvs [1, 2, 0x41, 0x40, 5, 1, 2] 0 7 False = Some (r, t) \<and> range_in 0 7 (keyname t)"
  using erp_parse_tlvs_safe [of 7 "[1, 2, 0x41, 0x40, 5, 1, 2]" 0 False] by auto

end
