(* ===== verification/Eapol_Auth.thy ===== *)
theory Eapol_Auth
  imports Eap_Common
begin

text \<open>
  The IEEE 802.1X authenticator of \<open>src/eapol_auth/eapol_auth_sm.c\<close>: six state machines that share
  one structure (\<open>eapol_auth_sm_i.h\<close>), run in rounds until none of them moves.

  The structure is the record \<open>eapol_sm\<close>; its statistics counters are the nested record \<open>cnt\<close> and
  the interface to the EAP server, \<open>struct eap_eapol_interface\<close>, the nested record \<open>eap_if\<close>.
  Every \<open>SM_STATE\<close> function is a definition \<open>sm_<machine>_<state>_Enter\<close>, every \<open>SM_STEP\<close> a
  definition \<open>sm_<machine>_Step\<close>, as the macros of \<open>state_machine.h\<close> name them. Calls through the
  callback table and to the event loop are appended to \<open>trace\<close>; a callback that returns a value
  answers as a function of the trace so far. The callbacks do not change the structure
  themselves. The EAP server behind \<open>eap_server_sm_step\<close> is a parameter: it maps its own state and
  the interface to new ones and says whether it moved. Logging is left out.
\<close>

section \<open>Data\<close>

datatype PortTypes = NoPortType | ForceUnauthorized | ForceAuthorized | Auto
datatype PortState = NoPortState | Unauthorized | Authorized
datatype ControlledDirection = Both | In

text \<open>
  \<open>NoPortType\<close> and \<open>NoPortState\<close> are the value 0 of a zeroed structure, which is none of the
  values of the two enumerations.
\<close>

datatype auth_pae = AUTH_PAE_INITIALIZE | AUTH_PAE_DISCONNECTED | AUTH_PAE_CONNECTING
  | AUTH_PAE_AUTHENTICATING | AUTH_PAE_AUTHENTICATED | AUTH_PAE_ABORTING | AUTH_PAE_HELD
  | AUTH_PAE_FORCE_AUTH | AUTH_PAE_FORCE_UNAUTH | AUTH_PAE_RESTART

datatype be_auth = BE_AUTH_REQUEST | BE_AUTH_RESPONSE | BE_AUTH_SUCCESS | BE_AUTH_FAIL
  | BE_AUTH_TIMEOUT | BE_AUTH_IDLE | BE_AUTH_INITIALIZE | BE_AUTH_IGNORE

datatype reauth_timer = REAUTH_TIMER_INITIALIZE | REAUTH_TIMER_REAUTHENTICATE
datatype auth_key_tx = AUTH_KEY_TX_NO_KEY_TRANSMIT | AUTH_KEY_TX_KEY_TRANSMIT
datatype key_rx = KEY_RX_NO_KEY_RECEIVE | KEY_RX_KEY_RECEIVE
datatype ctrl_dir = CTRL_DIR_FORCE_BOTH | CTRL_DIR_IN_OR_BOTH

datatype eapol_event = EAPOL_AUTH_SM_CHANGE | EAPOL_AUTH_REAUTHENTICATE

datatype eapol_timeout = PortTimersTick | SmStepCb

text \<open>The calls the machines make.\<close>

datatype eapol_out =
    SetPortAuthorized bool
  | EapolSend byte bytes
  | AaaSend bytes
  | Finished bool bool bool bool \<comment> \<open>success, preauth, remediation, logoff\<close>
  | AbortAuth
  | TxKey
  | EapolEvent eapol_event
  | RegisterTimeout nat eapol_timeout
  | CancelTimeout eapol_timeout

text \<open>
  The interface between the authenticator and the EAP server. A pointer with its length is one
  optional list.
\<close>

record eap_eapol_interface =
  eapResp :: bool
  eapRespData :: "bytes option"
  portEnabled :: bool
  retransWhile :: int
  eapRestart :: bool
  eapSRTT :: int
  eapRTTVAR :: int
  eapReq :: bool
  eapNoReq :: bool
  eapSuccess :: bool
  eapFail :: bool
  eapTimeout :: bool
  eapReqData :: "bytes option"
  eapKeyData :: "bytes option"
  eapSessionId :: "bytes option"
  eapKeyAvailable :: bool
  aaaEapReq :: bool
  aaaEapNoReq :: bool
  aaaSuccess :: bool
  aaaFail :: bool
  aaaEapReqData :: "bytes option"
  aaaEapKeyData :: "bytes option"
  aaaEapKeyAvailable :: bool
  aaaMethodTimeout :: int
  aaaEapResp :: bool
  aaaEapRespData :: "bytes option"
  aaaTimeout :: bool

record eapol_counters =
  authEntersConnecting :: u32
  authEapLogoffsWhileConnecting :: u32
  authAuthSuccessesWhileAuthenticating :: u32
  authAuthTimeoutsWhileAuthenticating :: u32
  authAuthFailWhileAuthenticating :: u32
  authAuthEapStartsWhileAuthenticating :: u32
  authAuthEapLogoffWhileAuthenticating :: u32
  authAuthReauthsWhileAuthenticated :: u32
  authAuthEapStartsWhileAuthenticated :: u32
  authAuthEapLogoffWhileAuthenticated :: u32
  backendResponses :: u32
  backendAccessChallenges :: u32
  backendOtherRequestsToSupplicant :: u32
  backendAuthSuccesses :: u32
  backendAuthFails :: u32
  dot1xAuthEapolFramesTx :: u32
  dot1xAuthEapolReqIdFramesTx :: u32
  dot1xAuthEapolReqFramesTx :: u32

record 'e eapol_sm =
  aWhile :: int
  quietWhile :: int
  reAuthWhen :: int
  authAbort :: bool
  authFail :: bool
  authPortStatus :: PortState
  authStart :: bool
  authTimeout :: bool
  authSuccess :: bool
  eapolEap :: bool
  initialize :: bool
  keyDone :: bool
  keyRun :: bool
  keyTxEnabled :: bool
  portControl :: PortTypes
  portValid :: bool
  reAuthenticate :: bool
  auth_pae_state :: auth_pae
  eapolLogoff :: bool
  eapolStart :: bool
  portMode :: PortTypes
  reAuthCount :: u32
  quietPeriod :: u32
  reAuthMax :: u32
  be_auth_state :: be_auth
  serverTimeout :: u32
  reauth_timer_state :: reauth_timer
  reAuthPeriod :: u32
  reAuthEnabled :: bool
  auth_key_tx_state :: auth_key_tx
  key_rx_state :: key_rx
  rxKey :: bool
  ctrl_dir_state :: ctrl_dir
  adminControlledDirections :: ControlledDirection
  operControlledDirections :: ControlledDirection
  operEdge :: bool
  sm_addr :: mac
  sm_flags :: u32
  eap_if :: eap_eapol_interface
  last_eap_id :: byte
  identity :: "string option"
  radius_cui :: "string option"
  acct_multi_session_id :: u64
  eap :: "'e option"
  initializing :: bool
  changed :: bool
  remediation :: bool
  authenticated :: u32
  stopped :: bool
  cnt :: eapol_counters
  trace :: "eapol_out list"

text \<open>
  What surrounds the machines: whether the two key machines are built in (\<open>CONFIG_WEP\<close>), the two
  callbacks that return a value, and one step of the EAP server. Besides its new state and
  interface, a server step says whether it moved and whether the user data base asked for
  remediation on the way (\<open>eapol_sm_get_eap_user\<close>).
\<close>

record 'e eapol_env =
  config_wep :: bool
  cb_finished :: "eapol_out list \<Rightarrow> bool"
  cb_sta_entry_alive :: "eapol_out list \<Rightarrow> bool"
  eap_server_sm_step :: "'e \<Rightarrow> eap_eapol_interface \<Rightarrow> 'e \<times> eap_eapol_interface \<times> bool \<times> bool"

definition EAPOL_SM_PREAUTH :: u32 where "EAPOL_SM_PREAUTH = 1"
definition EAPOL_SM_WAIT_START :: u32 where "EAPOL_SM_WAIT_START = 2"
definition EAPOL_SM_USES_WPA :: u32 where "EAPOL_SM_USES_WPA = 4"
definition EAPOL_SM_FROM_PMKSA_CACHE :: u32 where "EAPOL_SM_FROM_PMKSA_CACHE = 8"

definition flag_set :: "u32 \<Rightarrow> 'e eapol_sm \<Rightarrow> bool" where
  "flag_set f s \<longleftrightarrow> sm_flags s AND f \<noteq> 0"

section \<open>Procedures\<close>

definition emit :: "eapol_out \<Rightarrow> 'e eapol_sm \<Rightarrow> 'e eapol_sm" where
  "emit x s = s\<lparr>trace := trace s @ [x]\<rparr>"

text \<open>A counter, selected by its update function, goes up by one (modulo \<open>2 ^ 32\<close>).\<close>

definition bump :: "((u32 \<Rightarrow> u32) \<Rightarrow> eapol_counters \<Rightarrow> eapol_counters) \<Rightarrow> 'e eapol_sm \<Rightarrow> 'e eapol_sm" where
  "bump c s = s\<lparr>cnt := c (\<lambda>n. n + 1) (cnt s)\<rparr>"

definition bump_if :: "bool \<Rightarrow> ((u32 \<Rightarrow> u32) \<Rightarrow> eapol_counters \<Rightarrow> eapol_counters) \<Rightarrow> 'e eapol_sm \<Rightarrow> 'e eapol_sm" where
  "bump_if b c s = s\<lparr>cnt := (if b then c (\<lambda>n. n + 1) (cnt s) else cnt s)\<rparr>"

abbreviation upd_if :: "(eap_eapol_interface \<Rightarrow> eap_eapol_interface) \<Rightarrow> 'e eapol_sm \<Rightarrow> 'e eapol_sm" where
  "upd_if f s \<equiv> s\<lparr>eap_if := f (eap_if s)\<rparr>"

definition setPortAuthorized :: "'e eapol_sm \<Rightarrow> 'e eapol_sm" where
  "setPortAuthorized s = emit (SetPortAuthorized True) s"

definition setPortUnauthorized :: "'e eapol_sm \<Rightarrow> 'e eapol_sm" where
  "setPortUnauthorized s = emit (SetPortAuthorized False) s"

definition eapol_auth_tx_canned_eap :: "bool \<Rightarrow> 'e eapol_sm \<Rightarrow> 'e eapol_sm" where
  "eapol_auth_tx_canned_eap success s =
     (let s = s\<lparr>last_eap_id := last_eap_id s + 1\<rparr>;
          s = emit (EapolSend 0 [if success then 3 else 4, last_eap_id s, 0, 4]) s
      in bump dot1xAuthEapolFramesTx_update s)"

definition eapol_auth_tx_req :: "'e eapol_sm \<Rightarrow> 'e eapol_sm" where
  "eapol_auth_tx_req s =
     (case eapReqData (eap_if s) of
        None \<Rightarrow> s
      | Some req \<Rightarrow>
          if length req < 4 then s
          else if flag_set EAPOL_SM_WAIT_START s then s
          else
            let s = s\<lparr>last_eap_id := eap_get_id req\<rparr>;
                s = emit (EapolSend 0 req) s;
                s = bump dot1xAuthEapolFramesTx_update s
            in if eap_get_type req = EAP_TYPE_IDENTITY then bump dot1xAuthEapolReqIdFramesTx_update s
               else bump dot1xAuthEapolReqFramesTx_update s)"

section \<open>Authenticator PAE\<close>

text \<open>\<open>SM_ENTRY_MA\<close>: the machine takes the state; re-entering it by a global rule is no change.\<close>

definition pae_entry :: "bool \<Rightarrow> auth_pae \<Rightarrow> 'e eapol_sm \<Rightarrow> 'e eapol_sm" where
  "pae_entry global st s =
     s\<lparr>changed := (changed s \<or> \<not> global \<or> auth_pae_state s \<noteq> st), auth_pae_state := st\<rparr>"

definition sm_AUTH_PAE_INITIALIZE_Enter :: "bool \<Rightarrow> 'e eapol_sm \<Rightarrow> 'e eapol_sm" where
  "sm_AUTH_PAE_INITIALIZE_Enter global s =
     (pae_entry global AUTH_PAE_INITIALIZE s)\<lparr>portMode := Auto, keyRun := False\<rparr>"

definition sm_AUTH_PAE_DISCONNECTED_Enter :: "'e eapol_env \<Rightarrow> bool \<Rightarrow> 'e eapol_sm \<Rightarrow> 'e eapol_sm" where
  "sm_AUTH_PAE_DISCONNECTED_Enter env global s =
     (let from_initialize = (auth_pae_state s = AUTH_PAE_INITIALIZE);
          pre_auth_logoff = (auth_pae_state s = AUTH_PAE_ABORTING \<and> eapolLogoff s \<and> authenticated s = 0);
          logoff = eapolLogoff s;
          s = (if eapolLogoff s then
                 if auth_pae_state s = AUTH_PAE_CONNECTING
                 then bump authEapLogoffsWhileConnecting_update s
                 else if auth_pae_state s = AUTH_PAE_AUTHENTICATED
                 then bump authAuthEapLogoffWhileAuthenticated_update s
                 else s
               else s);
          s = pae_entry global AUTH_PAE_DISCONNECTED s;
          s = s\<lparr>authPortStatus := Unauthorized\<rparr>;
          s = setPortUnauthorized s;
          s = s\<lparr>reAuthCount := 0, eapolLogoff := False\<rparr>
      in if \<not> from_initialize \<and> \<not> pre_auth_logoff then
           let s = emit (Finished False (flag_set EAPOL_SM_PREAUTH s) (remediation s) logoff) s
           in if cb_finished env (trace s) then s\<lparr>stopped := True\<rparr> else s
         else s)"

definition sm_AUTH_PAE_RESTART_Enter :: "bool \<Rightarrow> 'e eapol_sm \<Rightarrow> 'e eapol_sm" where
  "sm_AUTH_PAE_RESTART_Enter global s =
     (let s = (if auth_pae_state s = AUTH_PAE_AUTHENTICATED then
                 let s = bump_if (reAuthenticate s) authAuthReauthsWhileAuthenticated_update s;
                     s = bump_if (eapolStart s) authAuthEapStartsWhileAuthenticated_update s
                 in bump_if (eapolLogoff s) authAuthEapLogoffWhileAuthenticated_update s
               else s);
          s = pae_entry global AUTH_PAE_RESTART s
      in upd_if (\<lambda>i. i\<lparr>eapRestart := True\<rparr>) s)"

definition sm_AUTH_PAE_CONNECTING_Enter :: "bool \<Rightarrow> 'e eapol_sm \<Rightarrow> 'e eapol_sm" where
  "sm_AUTH_PAE_CONNECTING_Enter global s =
     (let s = bump_if (auth_pae_state s \<noteq> AUTH_PAE_CONNECTING) authEntersConnecting_update s;
          s = pae_entry global AUTH_PAE_CONNECTING s
      in s\<lparr>reAuthenticate := False, reAuthCount := reAuthCount s + 1\<rparr>)"

definition sm_AUTH_PAE_HELD_Enter :: "'e eapol_env \<Rightarrow> bool \<Rightarrow> 'e eapol_sm \<Rightarrow> 'e eapol_sm" where
  "sm_AUTH_PAE_HELD_Enter env global s =
     (let s = bump_if (auth_pae_state s = AUTH_PAE_AUTHENTICATING \<and> authFail s)
                authAuthFailWhileAuthenticating_update s;
          s = pae_entry global AUTH_PAE_HELD s;
          s = s\<lparr>authPortStatus := Unauthorized\<rparr>;
          s = setPortUnauthorized s;
          s = s\<lparr>quietWhile := sint (quietPeriod s), eapolLogoff := False\<rparr>
      in emit (Finished False (flag_set EAPOL_SM_PREAUTH s) (remediation s) False) s)"

definition sm_AUTH_PAE_AUTHENTICATED_Enter :: "bool \<Rightarrow> 'e eapol_sm \<Rightarrow> 'e eapol_sm" where
  "sm_AUTH_PAE_AUTHENTICATED_Enter global s =
     (let s = bump_if (auth_pae_state s = AUTH_PAE_AUTHENTICATING \<and> authSuccess s)
                authAuthSuccessesWhileAuthenticating_update s;
          s = pae_entry global AUTH_PAE_AUTHENTICATED s;
          s = s\<lparr>authPortStatus := Authorized\<rparr>;
          s = setPortAuthorized s;
          s = s\<lparr>reAuthCount := 0\<rparr>;
          s = (if authSuccess s then s\<lparr>authenticated := authenticated s + 1\<rparr> else s)
      in emit (Finished True (flag_set EAPOL_SM_PREAUTH s) (remediation s) False) s)"

definition sm_AUTH_PAE_AUTHENTICATING_Enter :: "bool \<Rightarrow> 'e eapol_sm \<Rightarrow> 'e eapol_sm" where
  "sm_AUTH_PAE_AUTHENTICATING_Enter global s =
     (pae_entry global AUTH_PAE_AUTHENTICATING s)
       \<lparr>eapolStart := False, authSuccess := False, authFail := False, authTimeout := False,
        authStart := True, keyRun := False, keyDone := False\<rparr>"

definition sm_AUTH_PAE_ABORTING_Enter :: "bool \<Rightarrow> 'e eapol_sm \<Rightarrow> 'e eapol_sm" where
  "sm_AUTH_PAE_ABORTING_Enter global s =
     (let s = (if auth_pae_state s = AUTH_PAE_AUTHENTICATING then
                 let s = bump_if (authTimeout s) authAuthTimeoutsWhileAuthenticating_update s;
                     s = bump_if (eapolStart s) authAuthEapStartsWhileAuthenticating_update s
                 in bump_if (eapolLogoff s) authAuthEapLogoffWhileAuthenticating_update s
               else s)
      in (pae_entry global AUTH_PAE_ABORTING s)\<lparr>authAbort := True, keyRun := False, keyDone := False\<rparr>)"

definition sm_AUTH_PAE_FORCE_AUTH_Enter :: "bool \<Rightarrow> 'e eapol_sm \<Rightarrow> 'e eapol_sm" where
  "sm_AUTH_PAE_FORCE_AUTH_Enter global s =
     (let s = (pae_entry global AUTH_PAE_FORCE_AUTH s)\<lparr>authPortStatus := Authorized\<rparr>;
          s = setPortAuthorized s;
          s = s\<lparr>portMode := ForceAuthorized, eapolStart := False\<rparr>
      in eapol_auth_tx_canned_eap True s)"

definition sm_AUTH_PAE_FORCE_UNAUTH_Enter :: "bool \<Rightarrow> 'e eapol_sm \<Rightarrow> 'e eapol_sm" where
  "sm_AUTH_PAE_FORCE_UNAUTH_Enter global s =
     (let s = (pae_entry global AUTH_PAE_FORCE_UNAUTH s)\<lparr>authPortStatus := Unauthorized\<rparr>;
          s = setPortUnauthorized s;
          s = s\<lparr>portMode := ForceUnauthorized, eapolStart := False\<rparr>
      in eapol_auth_tx_canned_eap False s)"

definition sm_AUTH_PAE_Step :: "'e eapol_env \<Rightarrow> 'e eapol_sm \<Rightarrow> 'e eapol_sm" where
  "sm_AUTH_PAE_Step env s =
     (if (portControl s = Auto \<and> portMode s \<noteq> portControl s) \<or> initialize s \<or> \<not> portEnabled (eap_if s)
      then sm_AUTH_PAE_INITIALIZE_Enter True s
      else if portControl s = ForceAuthorized \<and> portMode s \<noteq> portControl s \<and>
              \<not> (initialize s \<or> \<not> portEnabled (eap_if s))
      then sm_AUTH_PAE_FORCE_AUTH_Enter True s
      else if portControl s = ForceUnauthorized \<and> portMode s \<noteq> portControl s \<and>
              \<not> (initialize s \<or> \<not> portEnabled (eap_if s))
      then sm_AUTH_PAE_FORCE_UNAUTH_Enter True s
      else case auth_pae_state s of
        AUTH_PAE_INITIALIZE \<Rightarrow> sm_AUTH_PAE_DISCONNECTED_Enter env False s
      | AUTH_PAE_DISCONNECTED \<Rightarrow> if \<not> stopped s then sm_AUTH_PAE_RESTART_Enter False s else s
      | AUTH_PAE_RESTART \<Rightarrow> if \<not> eapRestart (eap_if s) then sm_AUTH_PAE_CONNECTING_Enter False s else s
      | AUTH_PAE_HELD \<Rightarrow> if quietWhile s = 0 then sm_AUTH_PAE_RESTART_Enter False s else s
      | AUTH_PAE_CONNECTING \<Rightarrow>
          if eapolLogoff s \<or> reAuthCount s > reAuthMax s then sm_AUTH_PAE_DISCONNECTED_Enter env False s
          else if (eapReq (eap_if s) \<and> reAuthCount s \<le> reAuthMax s) \<or> eapSuccess (eap_if s) \<or> eapFail (eap_if s)
          then sm_AUTH_PAE_AUTHENTICATING_Enter False s
          else s
      | AUTH_PAE_AUTHENTICATED \<Rightarrow>
          if eapolStart s \<or> reAuthenticate s then sm_AUTH_PAE_RESTART_Enter False s
          else if eapolLogoff s \<or> \<not> portValid s then sm_AUTH_PAE_DISCONNECTED_Enter env False s
          else s
      | AUTH_PAE_AUTHENTICATING \<Rightarrow>
          if authSuccess s \<and> portValid s then sm_AUTH_PAE_AUTHENTICATED_Enter False s
          else if authFail s \<or> (keyDone s \<and> \<not> portValid s) then sm_AUTH_PAE_HELD_Enter env False s
          else if eapolStart s \<or> eapolLogoff s \<or> authTimeout s then sm_AUTH_PAE_ABORTING_Enter False s
          else s
      | AUTH_PAE_ABORTING \<Rightarrow>
          if eapolLogoff s \<and> \<not> authAbort s then sm_AUTH_PAE_DISCONNECTED_Enter env False s
          else if \<not> eapolLogoff s \<and> \<not> authAbort s then sm_AUTH_PAE_RESTART_Enter False s
          else s
      | AUTH_PAE_FORCE_AUTH \<Rightarrow> if eapolStart s then sm_AUTH_PAE_FORCE_AUTH_Enter False s else s
      | AUTH_PAE_FORCE_UNAUTH \<Rightarrow> if eapolStart s then sm_AUTH_PAE_FORCE_UNAUTH_Enter False s else s)"

section \<open>Backend authentication\<close>

definition be_entry :: "bool \<Rightarrow> be_auth \<Rightarrow> 'e eapol_sm \<Rightarrow> 'e eapol_sm" where
  "be_entry global st s =
     s\<lparr>changed := (changed s \<or> \<not> global \<or> be_auth_state s \<noteq> st), be_auth_state := st\<rparr>"

definition sm_BE_AUTH_INITIALIZE_Enter :: "bool \<Rightarrow> 'e eapol_sm \<Rightarrow> 'e eapol_sm" where
  "sm_BE_AUTH_INITIALIZE_Enter global s =
     (let s = emit AbortAuth (be_entry global BE_AUTH_INITIALIZE s);
          s = upd_if (\<lambda>i. i\<lparr>eapNoReq := False\<rparr>) s
      in s\<lparr>authAbort := False\<rparr>)"

definition sm_BE_AUTH_REQUEST_Enter :: "bool \<Rightarrow> 'e eapol_sm \<Rightarrow> 'e eapol_sm" where
  "sm_BE_AUTH_REQUEST_Enter global s =
     (let s = eapol_auth_tx_req (be_entry global BE_AUTH_REQUEST s);
          s = upd_if (\<lambda>i. i\<lparr>eapReq := False\<rparr>) s;
          s = bump backendOtherRequestsToSupplicant_update s
      in s\<lparr>eapolEap := False\<rparr>)"

definition sm_BE_AUTH_RESPONSE_Enter :: "bool \<Rightarrow> 'e eapol_sm \<Rightarrow> 'e eapol_sm" where
  "sm_BE_AUTH_RESPONSE_Enter global s =
     (let s = (be_entry global BE_AUTH_RESPONSE s)\<lparr>authTimeout := False, eapolEap := False\<rparr>;
          s = upd_if (\<lambda>i. i\<lparr>eapNoReq := False\<rparr>) s;
          s = s\<lparr>aWhile := sint (serverTimeout s)\<rparr>;
          s = upd_if (\<lambda>i. i\<lparr>eapResp := True\<rparr>) s
      in bump backendResponses_update s)"

definition sm_BE_AUTH_SUCCESS_Enter :: "bool \<Rightarrow> 'e eapol_sm \<Rightarrow> 'e eapol_sm" where
  "sm_BE_AUTH_SUCCESS_Enter global s =
     (eapol_auth_tx_req (be_entry global BE_AUTH_SUCCESS s))\<lparr>authSuccess := True, keyRun := True\<rparr>"

definition sm_BE_AUTH_FAIL_Enter :: "bool \<Rightarrow> 'e eapol_sm \<Rightarrow> 'e eapol_sm" where
  "sm_BE_AUTH_FAIL_Enter global s =
     (eapol_auth_tx_req (be_entry global BE_AUTH_FAIL s))\<lparr>authFail := True\<rparr>"

definition sm_BE_AUTH_TIMEOUT_Enter :: "bool \<Rightarrow> 'e eapol_sm \<Rightarrow> 'e eapol_sm" where
  "sm_BE_AUTH_TIMEOUT_Enter global s = (be_entry global BE_AUTH_TIMEOUT s)\<lparr>authTimeout := True\<rparr>"

definition sm_BE_AUTH_IDLE_Enter :: "bool \<Rightarrow> 'e eapol_sm \<Rightarrow> 'e eapol_sm" where
  "sm_BE_AUTH_IDLE_Enter global s = (be_entry global BE_AUTH_IDLE s)\<lparr>authStart := False\<rparr>"

definition sm_BE_AUTH_IGNORE_Enter :: "bool \<Rightarrow> 'e eapol_sm \<Rightarrow> 'e eapol_sm" where
  "sm_BE_AUTH_IGNORE_Enter global s = upd_if (\<lambda>i. i\<lparr>eapNoReq := False\<rparr>) (be_entry global BE_AUTH_IGNORE s)"

text \<open>The states from which an EAP request or response is awaited share their rules.\<close>

definition sm_BE_AUTH_Step :: "'e eapol_sm \<Rightarrow> 'e eapol_sm" where
  "sm_BE_AUTH_Step s =
     (if portControl s \<noteq> Auto \<or> initialize s \<or> authAbort s then sm_BE_AUTH_INITIALIZE_Enter True s
      else case be_auth_state s of
        BE_AUTH_INITIALIZE \<Rightarrow> sm_BE_AUTH_IDLE_Enter False s
      | BE_AUTH_REQUEST \<Rightarrow>
          if eapolEap s then sm_BE_AUTH_RESPONSE_Enter False s
          else if eapReq (eap_if s) then sm_BE_AUTH_REQUEST_Enter False s
          else if eapTimeout (eap_if s) then sm_BE_AUTH_TIMEOUT_Enter False s
          else s
      | BE_AUTH_RESPONSE \<Rightarrow>
          let s = (if eapNoReq (eap_if s) then sm_BE_AUTH_IGNORE_Enter False s else s)
          in if eapReq (eap_if s)
             then sm_BE_AUTH_REQUEST_Enter False (bump backendAccessChallenges_update s)
             else if aWhile s = 0 then sm_BE_AUTH_TIMEOUT_Enter False s
             else if eapFail (eap_if s) then sm_BE_AUTH_FAIL_Enter False (bump backendAuthFails_update s)
             else if eapSuccess (eap_if s)
             then sm_BE_AUTH_SUCCESS_Enter False (bump backendAuthSuccesses_update s)
             else s
      | BE_AUTH_SUCCESS \<Rightarrow> sm_BE_AUTH_IDLE_Enter False s
      | BE_AUTH_FAIL \<Rightarrow> sm_BE_AUTH_IDLE_Enter False s
      | BE_AUTH_TIMEOUT \<Rightarrow> sm_BE_AUTH_IDLE_Enter False s
      | BE_AUTH_IDLE \<Rightarrow>
          if eapFail (eap_if s) \<and> authStart s then sm_BE_AUTH_FAIL_Enter False s
          else if eapReq (eap_if s) \<and> authStart s then sm_BE_AUTH_REQUEST_Enter False s
          else if eapSuccess (eap_if s) \<and> authStart s then sm_BE_AUTH_SUCCESS_Enter False s
          else s
      | BE_AUTH_IGNORE \<Rightarrow>
          if eapolEap s then sm_BE_AUTH_RESPONSE_Enter False s
          else if eapReq (eap_if s) then sm_BE_AUTH_REQUEST_Enter False s
          else if eapTimeout (eap_if s) then sm_BE_AUTH_TIMEOUT_Enter False s
          else s)"

section \<open>Reauthentication timer, key machines and controlled directions\<close>

definition sm_REAUTH_TIMER_INITIALIZE_Enter :: "bool \<Rightarrow> 'e eapol_sm \<Rightarrow> 'e eapol_sm" where
  "sm_REAUTH_TIMER_INITIALIZE_Enter global s =
     s\<lparr>changed := (changed s \<or> \<not> global \<or> reauth_timer_state s \<noteq> REAUTH_TIMER_INITIALIZE),
       reauth_timer_state := REAUTH_TIMER_INITIALIZE, reAuthWhen := sint (reAuthPeriod s)\<rparr>"

definition sm_REAUTH_TIMER_REAUTHENTICATE_Enter :: "bool \<Rightarrow> 'e eapol_sm \<Rightarrow> 'e eapol_sm" where
  "sm_REAUTH_TIMER_REAUTHENTICATE_Enter global s =
     emit (EapolEvent EAPOL_AUTH_REAUTHENTICATE)
       (s\<lparr>changed := (changed s \<or> \<not> global \<or> reauth_timer_state s \<noteq> REAUTH_TIMER_REAUTHENTICATE),
          reauth_timer_state := REAUTH_TIMER_REAUTHENTICATE, reAuthenticate := True\<rparr>)"

definition sm_REAUTH_TIMER_Step :: "'e eapol_sm \<Rightarrow> 'e eapol_sm" where
  "sm_REAUTH_TIMER_Step s =
     (if portControl s \<noteq> Auto \<or> initialize s \<or> authPortStatus s = Unauthorized \<or> \<not> reAuthEnabled s
      then sm_REAUTH_TIMER_INITIALIZE_Enter True s
      else case reauth_timer_state s of
        REAUTH_TIMER_INITIALIZE \<Rightarrow>
          if reAuthWhen s = 0 then sm_REAUTH_TIMER_REAUTHENTICATE_Enter False s else s
      | REAUTH_TIMER_REAUTHENTICATE \<Rightarrow> sm_REAUTH_TIMER_INITIALIZE_Enter False s)"

definition sm_AUTH_KEY_TX_NO_KEY_TRANSMIT_Enter :: "bool \<Rightarrow> 'e eapol_sm \<Rightarrow> 'e eapol_sm" where
  "sm_AUTH_KEY_TX_NO_KEY_TRANSMIT_Enter global s =
     s\<lparr>changed := (changed s \<or> \<not> global \<or> auth_key_tx_state s \<noteq> AUTH_KEY_TX_NO_KEY_TRANSMIT),
       auth_key_tx_state := AUTH_KEY_TX_NO_KEY_TRANSMIT\<rparr>"

definition sm_AUTH_KEY_TX_KEY_TRANSMIT_Enter :: "bool \<Rightarrow> 'e eapol_sm \<Rightarrow> 'e eapol_sm" where
  "sm_AUTH_KEY_TX_KEY_TRANSMIT_Enter global s =
     (let s = s\<lparr>changed := (changed s \<or> \<not> global \<or> auth_key_tx_state s \<noteq> AUTH_KEY_TX_KEY_TRANSMIT),
                auth_key_tx_state := AUTH_KEY_TX_KEY_TRANSMIT\<rparr>;
          s = emit TxKey s;
          s = upd_if (\<lambda>i. i\<lparr>eapKeyAvailable := False\<rparr>) s
      in s\<lparr>keyDone := True\<rparr>)"

definition sm_AUTH_KEY_TX_Step :: "'e eapol_sm \<Rightarrow> 'e eapol_sm" where
  "sm_AUTH_KEY_TX_Step s =
     (if initialize s \<or> portControl s \<noteq> Auto then sm_AUTH_KEY_TX_NO_KEY_TRANSMIT_Enter True s
      else case auth_key_tx_state s of
        AUTH_KEY_TX_NO_KEY_TRANSMIT \<Rightarrow>
          if keyTxEnabled s \<and> eapKeyAvailable (eap_if s) \<and> keyRun s \<and> \<not> flag_set EAPOL_SM_USES_WPA s
          then sm_AUTH_KEY_TX_KEY_TRANSMIT_Enter False s else s
      | AUTH_KEY_TX_KEY_TRANSMIT \<Rightarrow>
          if \<not> keyTxEnabled s \<or> \<not> keyRun s then sm_AUTH_KEY_TX_NO_KEY_TRANSMIT_Enter False s
          else if eapKeyAvailable (eap_if s) then sm_AUTH_KEY_TX_KEY_TRANSMIT_Enter False s
          else s)"

definition sm_KEY_RX_NO_KEY_RECEIVE_Enter :: "bool \<Rightarrow> 'e eapol_sm \<Rightarrow> 'e eapol_sm" where
  "sm_KEY_RX_NO_KEY_RECEIVE_Enter global s =
     s\<lparr>changed := (changed s \<or> \<not> global \<or> key_rx_state s \<noteq> KEY_RX_NO_KEY_RECEIVE),
       key_rx_state := KEY_RX_NO_KEY_RECEIVE\<rparr>"

definition sm_KEY_RX_KEY_RECEIVE_Enter :: "bool \<Rightarrow> 'e eapol_sm \<Rightarrow> 'e eapol_sm" where
  "sm_KEY_RX_KEY_RECEIVE_Enter global s =
     s\<lparr>changed := (changed s \<or> \<not> global \<or> key_rx_state s \<noteq> KEY_RX_KEY_RECEIVE),
       key_rx_state := KEY_RX_KEY_RECEIVE, rxKey := False\<rparr>"

definition sm_KEY_RX_Step :: "'e eapol_sm \<Rightarrow> 'e eapol_sm" where
  "sm_KEY_RX_Step s =
     (if initialize s \<or> \<not> portEnabled (eap_if s) then sm_KEY_RX_NO_KEY_RECEIVE_Enter True s
      else case key_rx_state s of
        KEY_RX_NO_KEY_RECEIVE \<Rightarrow> if rxKey s then sm_KEY_RX_KEY_RECEIVE_Enter False s else s
      | KEY_RX_KEY_RECEIVE \<Rightarrow> if rxKey s then sm_KEY_RX_KEY_RECEIVE_Enter False s else s)"

definition sm_CTRL_DIR_FORCE_BOTH_Enter :: "bool \<Rightarrow> 'e eapol_sm \<Rightarrow> 'e eapol_sm" where
  "sm_CTRL_DIR_FORCE_BOTH_Enter global s =
     s\<lparr>changed := (changed s \<or> \<not> global \<or> ctrl_dir_state s \<noteq> CTRL_DIR_FORCE_BOTH),
       ctrl_dir_state := CTRL_DIR_FORCE_BOTH, operControlledDirections := Both\<rparr>"

definition sm_CTRL_DIR_IN_OR_BOTH_Enter :: "bool \<Rightarrow> 'e eapol_sm \<Rightarrow> 'e eapol_sm" where
  "sm_CTRL_DIR_IN_OR_BOTH_Enter global s =
     s\<lparr>changed := (changed s \<or> \<not> global \<or> ctrl_dir_state s \<noteq> CTRL_DIR_IN_OR_BOTH),
       ctrl_dir_state := CTRL_DIR_IN_OR_BOTH, operControlledDirections := adminControlledDirections s\<rparr>"

definition sm_CTRL_DIR_Step :: "'e eapol_sm \<Rightarrow> 'e eapol_sm" where
  "sm_CTRL_DIR_Step s =
     (if initialize s then sm_CTRL_DIR_IN_OR_BOTH_Enter True s
      else case ctrl_dir_state s of
        CTRL_DIR_FORCE_BOTH \<Rightarrow>
          if portEnabled (eap_if s) \<and> operEdge s then sm_CTRL_DIR_IN_OR_BOTH_Enter False s else s
      | CTRL_DIR_IN_OR_BOTH \<Rightarrow>
          let s = (if operControlledDirections s \<noteq> adminControlledDirections s
                   then sm_CTRL_DIR_IN_OR_BOTH_Enter False s else s)
          in if \<not> portEnabled (eap_if s) \<or> \<not> operEdge s then sm_CTRL_DIR_FORCE_BOTH_Enter False s else s)"

section \<open>Running the machines\<close>

definition eapol_auth_step :: "'e eapol_sm \<Rightarrow> 'e eapol_sm" where
  "eapol_auth_step s = emit (RegisterTimeout 0 SmStepCb) s"

text \<open>A machine other than the PAE runs only while its station is still there.\<close>

definition step_if_alive :: "'e eapol_env \<Rightarrow> ('e eapol_sm \<Rightarrow> 'e eapol_sm) \<Rightarrow> 'e eapol_sm \<Rightarrow> 'e eapol_sm" where
  "step_if_alive env f s = (if initializing s \<or> cb_sta_entry_alive env (trace s) then f s else s)"

text \<open>One round of all machines, in the order of the source.\<close>

definition machines_round :: "'e eapol_env \<Rightarrow> 'e eapol_sm \<Rightarrow> 'e eapol_sm" where
  "machines_round env s =
     (let s = sm_AUTH_PAE_Step env s;
          s = step_if_alive env sm_BE_AUTH_Step s;
          s = step_if_alive env sm_REAUTH_TIMER_Step s;
          s = (if config_wep env then step_if_alive env sm_AUTH_KEY_TX_Step s else s);
          s = (if config_wep env then step_if_alive env sm_KEY_RX_Step s else s)
      in step_if_alive env sm_CTRL_DIR_Step s)"

definition machine_states ::
  "'e eapol_sm \<Rightarrow> auth_pae \<times> be_auth \<times> reauth_timer \<times> auth_key_tx \<times> key_rx \<times> ctrl_dir" where
  "machine_states s = (auth_pae_state s, be_auth_state s, reauth_timer_state s,
     auth_key_tx_state s, key_rx_state s, ctrl_dir_state s)"

text \<open>The end of a run: the response for the AAA server, and the event that the machines moved.\<close>

definition run_tail :: "'e eapol_env \<Rightarrow> 'e eapol_sm \<Rightarrow> 'e eapol_sm" where
  "run_tail env s =
     (if cb_sta_entry_alive env (trace s) then emit (EapolEvent EAPOL_AUTH_SM_CHANGE) s else s)"

definition aaa_tail :: "'e eapol_env \<Rightarrow> 'e eapol_sm \<Rightarrow> 'e eapol_sm" where
  "aaa_tail env s =
     (if aaaEapResp (eap_if s) then
        let s = upd_if (\<lambda>i. i\<lparr>aaaEapResp := False\<rparr>) s
        in case aaaEapRespData (eap_if s) of
             None \<Rightarrow> s
           | Some d \<Rightarrow> run_tail env (emit (AaaSend d) s)
      else run_tail env s)"

definition eap_step :: "'e eapol_env \<Rightarrow> 'e \<Rightarrow> 'e eapol_sm \<Rightarrow> 'e eapol_sm \<times> bool" where
  "eap_step env e s =
     (let (e', i', moved, rem) = eap_server_sm_step env e (eap_if s)
      in (s\<lparr>eap := Some e', eap_if := i', remediation := (remediation s \<or> rem)\<rparr>, moved))"

text \<open>
  The loop of \<open>eapol_sm_step_run\<close>; the argument is \<open>max_steps\<close>, which the source counts down from
  100. When it runs out the rest is left to the event loop.
\<close>

fun step_run_loop :: "'e eapol_env \<Rightarrow> nat \<Rightarrow> 'e eapol_sm \<Rightarrow> 'e eapol_sm" where
  "step_run_loop env 0 s = eapol_auth_step s"
| "step_run_loop env (Suc n) s =
     (let s' = machines_round env s
      in if machine_states s' \<noteq> machine_states s then step_run_loop env n s'
         else case (if cb_sta_entry_alive env (trace s') then eap s' else None) of
           None \<Rightarrow> run_tail env s'
         | Some e \<Rightarrow>
             let (s'', moved) = eap_step env e s'
             in if moved then step_run_loop env n s'' else aaa_tail env s'')"

definition eapol_sm_step_run :: "'e eapol_env \<Rightarrow> 'e eapol_sm \<Rightarrow> 'e eapol_sm" where
  "eapol_sm_step_run env s = step_run_loop env 100 s"

definition eapol_sm_step_cb :: "'e eapol_env \<Rightarrow> 'e eapol_sm \<Rightarrow> 'e eapol_sm" where
  "eapol_sm_step_cb env s = eapol_sm_step_run env s"

definition count_down :: "int \<Rightarrow> int" where
  "count_down t = (if t > 0 then t - 1 else t)"

definition eapol_port_timers_tick :: "'e eapol_env \<Rightarrow> 'e eapol_sm \<Rightarrow> 'e eapol_sm" where
  "eapol_port_timers_tick env s =
     (let s = s\<lparr>aWhile := count_down (aWhile s), quietWhile := count_down (quietWhile s),
                reAuthWhen := count_down (reAuthWhen s)\<rparr>;
          s = upd_if (\<lambda>i. i\<lparr>retransWhile := count_down (retransWhile i)\<rparr>) s;
          s = eapol_sm_step_run env s
      in emit (RegisterTimeout 1 PortTimersTick) s)"

definition eapol_auth_initialize :: "'e eapol_env \<Rightarrow> 'e eapol_sm \<Rightarrow> 'e eapol_sm" where
  "eapol_auth_initialize env s =
     (let s = s\<lparr>initializing := True, initialize := True\<rparr>;
          s = eapol_sm_step_run env s;
          s = eapol_sm_step_run env (s\<lparr>initialize := False\<rparr>);
          s = s\<lparr>initializing := False\<rparr>;
          s = emit (CancelTimeout PortTimersTick) s
      in emit (RegisterTimeout 1 PortTimersTick) s)"


section \<open>Requests from outside\<close>

definition eapol_auth_reauthenticate :: "'e eapol_sm \<Rightarrow> 'e eapol_sm" where
  "eapol_auth_reauthenticate s = eapol_auth_step (s\<lparr>reAuthenticate := True\<rparr>)"

text \<open>
  \<open>eapol_auth_eap_pending_cb\<close>: the context passed has to be the EAP server of this machine (\<open>own\<close>);
  \<open>eap_sm_pending_cb\<close> is a parameter on the server's state and interface.
\<close>

definition eapol_auth_eap_pending_cb ::
  "('e \<Rightarrow> eap_eapol_interface \<Rightarrow> 'e \<times> eap_eapol_interface) \<Rightarrow> 'e eapol_sm option \<Rightarrow> bool \<Rightarrow> ('e eapol_sm option \<times> int)" where
  "eapol_auth_eap_pending_cb eap_sm_pending_cb sm own =
     (case sm of
        None \<Rightarrow> (None, -1)
      | Some s \<Rightarrow>
          (case eap s of
             None \<Rightarrow> (Some s, -1)
           | Some e \<Rightarrow>
               if \<not> own then (Some s, -1)
               else let (e', i') = eap_sm_pending_cb e (eap_if s)
                    in (Some (eapol_auth_step (s\<lparr>eap := Some e', eap_if := i'\<rparr>)), 0)))"

definition eapol_auth_set_conf :: "'e eapol_sm \<Rightarrow> string \<Rightarrow> string \<Rightarrow> 'e eapol_sm \<times> int" where
  "eapol_auth_set_conf s param val =
     (if strcasecmp_eq param ''AdminControlledDirections'' then
        if val = ''Both'' then (eapol_auth_step (s\<lparr>adminControlledDirections := Both\<rparr>), 0)
        else if val = ''In'' then (eapol_auth_step (s\<lparr>adminControlledDirections := In\<rparr>), 0)
        else (s, -1)
      else if strcasecmp_eq param ''AdminControlledPortControl'' then
        if val = ''ForceAuthorized'' then (eapol_auth_step (s\<lparr>portControl := ForceAuthorized\<rparr>), 0)
        else if val = ''ForceUnauthorized'' then (eapol_auth_step (s\<lparr>portControl := ForceUnauthorized\<rparr>), 0)
        else if val = ''Auto'' then (eapol_auth_step (s\<lparr>portControl := Auto\<rparr>), 0)
        else (s, -1)
      else if strcasecmp_eq param ''quietPeriod'' then (s\<lparr>quietPeriod := atoi val\<rparr>, 0)
      else if strcasecmp_eq param ''serverTimeout'' then (s\<lparr>serverTimeout := atoi val\<rparr>, 0)
      else if strcasecmp_eq param ''reAuthPeriod'' then (s\<lparr>reAuthPeriod := atoi val\<rparr>, 0)
      else if strcasecmp_eq param ''reAuthEnabled'' then
        if val = ''TRUE'' then (eapol_auth_step (s\<lparr>reAuthEnabled := True\<rparr>), 0)
        else if val = ''FALSE'' then (eapol_auth_step (s\<lparr>reAuthEnabled := False\<rparr>), 0)
        else (s, -1)
      else if strcasecmp_eq param ''KeyTransmissionEnabled'' then
        if val = ''TRUE'' then (eapol_auth_step (s\<lparr>keyTxEnabled := True\<rparr>), 0)
        else if val = ''FALSE'' then (eapol_auth_step (s\<lparr>keyTxEnabled := False\<rparr>), 0)
        else (s, -1)
      else (s, -1))"

section \<open>The authenticator and its machines: creation\<close>

record eapol_auth_config =
  eap_reauth_period :: int
  conf_wpa :: int
  individual_wep_key_len :: int
  eap_req_id_text :: "string option"
  erp_send_reauth_start :: int
  erp_domain :: "string option"

record eapol_authenticator =
  conf :: eapol_auth_config
  default_wep_key :: "bytes option"
  default_wep_key_idx :: byte

definition zero_conf :: eapol_auth_config where
  "zero_conf = \<lparr>eap_reauth_period = 0, conf_wpa = 0, individual_wep_key_len = 0, eap_req_id_text = None,
     erp_send_reauth_start = 0, erp_domain = None\<rparr>"

text \<open>
  Copying a configuration: the two strings are duplicated, and \<open>dup\<close> says whether the allocator has
  room for one. \<open>None\<close> is the error return, after which the destination holds no string.
\<close>

definition eapol_auth_conf_clone ::
  "bool \<Rightarrow> (string \<Rightarrow> bool) \<Rightarrow> eapol_auth_config \<Rightarrow> eapol_auth_config \<Rightarrow> eapol_auth_config option" where
  "eapol_auth_conf_clone wep dup dst src =
     (let dst = dst\<lparr>eap_reauth_period := eap_reauth_period src, conf_wpa := conf_wpa src,
                    individual_wep_key_len :=
                      (if wep then individual_wep_key_len src else individual_wep_key_len dst)\<rparr>
      in case (case eap_req_id_text src of
                 Some t \<Rightarrow> if dup t then Some (Some t) else None
               | None \<Rightarrow> Some None) of
           None \<Rightarrow> None
         | Some t \<Rightarrow>
             (case (case erp_domain src of
                      Some d \<Rightarrow> if dup d then Some (Some d) else None
                    | None \<Rightarrow> Some None) of
                None \<Rightarrow> None
              | Some d \<Rightarrow>
                  Some (dst\<lparr>eap_req_id_text := t, erp_domain := d,
                            erp_send_reauth_start := erp_send_reauth_start src\<rparr>)))"

definition eapol_auth_init ::
  "bool \<Rightarrow> bool \<Rightarrow> (string \<Rightarrow> bool) \<Rightarrow> eapol_auth_config \<Rightarrow> eapol_authenticator option" where
  "eapol_auth_init wep room dup src =
     (if \<not> room then None
      else case eapol_auth_conf_clone wep dup zero_conf src of
        None \<Rightarrow> None
      | Some c \<Rightarrow>
          Some \<lparr>conf = c, default_wep_key = None,
            default_wep_key_idx = (if wep \<and> individual_wep_key_len src > 0 then 1 else 0)\<rparr>)"

definition zero_counters :: eapol_counters where
  "zero_counters = \<lparr>authEntersConnecting = 0, authEapLogoffsWhileConnecting = 0,
     authAuthSuccessesWhileAuthenticating = 0, authAuthTimeoutsWhileAuthenticating = 0,
     authAuthFailWhileAuthenticating = 0, authAuthEapStartsWhileAuthenticating = 0,
     authAuthEapLogoffWhileAuthenticating = 0, authAuthReauthsWhileAuthenticated = 0,
     authAuthEapStartsWhileAuthenticated = 0, authAuthEapLogoffWhileAuthenticated = 0,
     backendResponses = 0, backendAccessChallenges = 0, backendOtherRequestsToSupplicant = 0,
     backendAuthSuccesses = 0, backendAuthFails = 0, dot1xAuthEapolFramesTx = 0,
     dot1xAuthEapolReqIdFramesTx = 0, dot1xAuthEapolReqFramesTx = 0\<rparr>"

text \<open>The zeroed structure with the defaults that \<open>eapol_auth_alloc\<close> writes before it starts the machines.\<close>

definition new_sm :: "bool \<Rightarrow> eapol_authenticator \<Rightarrow> mac \<Rightarrow> u32 \<Rightarrow> 'e \<Rightarrow> eap_eapol_interface \<Rightarrow> 'e eapol_sm" where
  "new_sm wep eapol addr flags e i =
     \<lparr>aWhile = 0, quietWhile = 0, reAuthWhen = 0, authAbort = False, authFail = False,
      authPortStatus = NoPortState, authStart = False, authTimeout = False, authSuccess = False,
      eapolEap = False, initialize = False, keyDone = False, keyRun = False,
      keyTxEnabled = (wep \<and> conf_wpa (conf eapol) = 0 \<and>
        (default_wep_key eapol \<noteq> None \<or> individual_wep_key_len (conf eapol) > 0)),
      portControl = Auto, portValid = (conf_wpa (conf eapol) = 0), reAuthenticate = False,
      auth_pae_state = AUTH_PAE_INITIALIZE, eapolLogoff = False, eapolStart = False,
      portMode = NoPortType, reAuthCount = 0, quietPeriod = 60, reAuthMax = 2,
      be_auth_state = BE_AUTH_INITIALIZE, serverTimeout = 30,
      reauth_timer_state = REAUTH_TIMER_INITIALIZE,
      reAuthPeriod = word_of_int (eap_reauth_period (conf eapol)),
      reAuthEnabled = (eap_reauth_period (conf eapol) > 0),
      auth_key_tx_state = AUTH_KEY_TX_NO_KEY_TRANSMIT, key_rx_state = KEY_RX_NO_KEY_RECEIVE,
      rxKey = False, ctrl_dir_state = CTRL_DIR_IN_OR_BOTH, adminControlledDirections = Both,
      operControlledDirections = Both, operEdge = False, sm_addr = take ETH_ALEN addr, sm_flags = flags,
      eap_if = i, last_eap_id = 0, identity = None, radius_cui = None, acct_multi_session_id = 0, eap = Some e, initializing = False, changed = False,
      remediation = False, authenticated = 0, stopped = False, cnt = zero_counters, trace = []\<rparr>"

text \<open>
  Creation fails, and frees what it had, when there is no authenticator, no room, no EAP server
  session (\<open>eap_init\<close>), or no RADIUS session id. The machines run before the identity strings are
  copied; \<open>dup\<close> says whether there is room for a copy, and without room the string is left out.
\<close>

definition eapol_auth_alloc ::
  "'e eapol_env \<Rightarrow> bool \<Rightarrow> (string \<Rightarrow> bool) \<Rightarrow> ('e \<times> eap_eapol_interface) option \<Rightarrow> u64 option \<Rightarrow>
   eapol_authenticator option \<Rightarrow> mac \<Rightarrow> u32 \<Rightarrow> string option \<Rightarrow> string option \<Rightarrow> 'e eapol_sm option" where
  "eapol_auth_alloc env room dup eap_init session_id eapol addr flags ident cui =
     (case eapol of
        None \<Rightarrow> None
      | Some a \<Rightarrow>
          if \<not> room then None
          else case eap_init of
            None \<Rightarrow> None
          | Some (e, i) \<Rightarrow>
              let copy = (\<lambda>str. case str of Some t \<Rightarrow> if dup t then Some t else None | None \<Rightarrow> None);
                  s = eapol_auth_initialize env (new_sm (config_wep env) a addr flags e i);
                  s = s\<lparr>identity := copy ident, radius_cui := copy cui\<rparr>
              in case session_id of
                   None \<Rightarrow> None
                 | Some n \<Rightarrow> Some (s\<lparr>acct_multi_session_id := n\<rparr>))"

text \<open>
  What \<open>ieee802_1x_new_station\<close> (\<open>src/ap/ieee802_1x.c\<close>) writes into the machine when the PMK of the
  station is cached: the machines are put where they are after a successful authentication.
  \<open>eap_sm_notify_cached\<close> is a parameter on the state of the EAP server.
\<close>

definition new_station_cached :: "('e \<Rightarrow> 'e) \<Rightarrow> 'e eapol_sm \<Rightarrow> 'e eapol_sm" where
  "new_station_cached eap_sm_notify_cached s =
     s\<lparr>eap_if := (eap_if s)\<lparr>portEnabled := True, eapKeyAvailable := True\<rparr>, keyRun := True,
       auth_pae_state := AUTH_PAE_AUTHENTICATING, be_auth_state := BE_AUTH_SUCCESS,
       authSuccess := True, authFail := False, eap := map_option eap_sm_notify_cached (eap s)\<rparr>"

section \<open>The state of the port\<close>

text \<open>What the driver was last told about the port.\<close>

fun port_told :: "bool option \<Rightarrow> eapol_out \<Rightarrow> bool option" where
  "port_told p (SetPortAuthorized b) = Some b"
| "port_told p _ = p"

definition last_port :: "eapol_out list \<Rightarrow> bool option" where
  "last_port tr = foldl port_told None tr"

lemma last_port_Nil [simp]: "last_port [] = None"
  by (simp add: last_port_def)

lemma last_port_append [simp]: "last_port (tr @ xs) = foldl port_told (last_port tr) xs"
  by (simp add: last_port_def)

definition told_status :: "PortState \<Rightarrow> bool option" where
  "told_status p = (case p of NoPortState \<Rightarrow> None | Unauthorized \<Rightarrow> Some False | Authorized \<Rightarrow> Some True)"

lemma told_status_simps [simp]:
  "told_status NoPortState = None" "told_status Unauthorized = Some False" "told_status Authorized = Some True"
  by (simp_all add: told_status_def)

text \<open>
  The driver was last told what the status of the port is, and in the states of the PAE that
  decide the status it has the right value.
\<close>

definition port_inv :: "'e eapol_sm \<Rightarrow> bool" where
  "port_inv s \<longleftrightarrow>
     last_port (trace s) = told_status (authPortStatus s) \<and>
     (auth_pae_state s \<in> {AUTH_PAE_AUTHENTICATED, AUTH_PAE_FORCE_AUTH} \<longrightarrow> authPortStatus s = Authorized) \<and>
     (auth_pae_state s \<in> {AUTH_PAE_DISCONNECTED, AUTH_PAE_HELD, AUTH_PAE_FORCE_UNAUTH} \<longrightarrow>
        authPortStatus s = Unauthorized)"

text \<open>Two states that agree on all of this.\<close>

definition same_port :: "'e eapol_sm \<Rightarrow> 'e eapol_sm \<Rightarrow> bool" where
  "same_port s s' \<longleftrightarrow> auth_pae_state s' = auth_pae_state s \<and> authPortStatus s' = authPortStatus s \<and>
     portMode s' = portMode s \<and> last_port (trace s') = last_port (trace s)"

lemma same_port_refl [simp]: "same_port s s"
  by (simp add: same_port_def)

lemma same_port_trans: "same_port s s' \<Longrightarrow> same_port s' s'' \<Longrightarrow> same_port s s''"
  by (simp add: same_port_def)

lemma same_port_inv: "same_port s s' \<Longrightarrow> port_inv s \<Longrightarrow> port_inv s'"
  by (simp add: same_port_def port_inv_def)

text \<open>The entry functions, unfolded in the proofs about a step.\<close>

named_theorems enter_defs

lemmas [enter_defs] =
  sm_AUTH_PAE_INITIALIZE_Enter_def sm_AUTH_PAE_DISCONNECTED_Enter_def sm_AUTH_PAE_RESTART_Enter_def
  sm_AUTH_PAE_CONNECTING_Enter_def sm_AUTH_PAE_HELD_Enter_def sm_AUTH_PAE_AUTHENTICATED_Enter_def
  sm_AUTH_PAE_AUTHENTICATING_Enter_def sm_AUTH_PAE_ABORTING_Enter_def sm_AUTH_PAE_FORCE_AUTH_Enter_def
  sm_AUTH_PAE_FORCE_UNAUTH_Enter_def
  sm_BE_AUTH_INITIALIZE_Enter_def sm_BE_AUTH_REQUEST_Enter_def sm_BE_AUTH_RESPONSE_Enter_def
  sm_BE_AUTH_SUCCESS_Enter_def sm_BE_AUTH_FAIL_Enter_def sm_BE_AUTH_TIMEOUT_Enter_def
  sm_BE_AUTH_IDLE_Enter_def sm_BE_AUTH_IGNORE_Enter_def
  sm_REAUTH_TIMER_INITIALIZE_Enter_def sm_REAUTH_TIMER_REAUTHENTICATE_Enter_def
  sm_AUTH_KEY_TX_NO_KEY_TRANSMIT_Enter_def sm_AUTH_KEY_TX_KEY_TRANSMIT_Enter_def
  sm_KEY_RX_NO_KEY_RECEIVE_Enter_def sm_KEY_RX_KEY_RECEIVE_Enter_def
  sm_CTRL_DIR_FORCE_BOTH_Enter_def sm_CTRL_DIR_IN_OR_BOTH_Enter_def
  pae_entry_def be_entry_def setPortAuthorized_def setPortUnauthorized_def
  bump_def bump_if_def emit_def eapol_auth_tx_canned_eap_def Let_def

text \<open>Sending a request changes the trace, the counters and the EAP identifier only.\<close>

lemma tx_req_shape:
  obtains i tr c where "eapol_auth_tx_req s = s\<lparr>last_eap_id := i, trace := tr, cnt := c\<rparr>"
    "last_port tr = last_port (trace s)"
proof (cases "eapReqData (eap_if s)")
  case None
  then have "eapol_auth_tx_req s = s\<lparr>last_eap_id := last_eap_id s, trace := trace s, cnt := cnt s\<rparr>"
    by (simp add: eapol_auth_tx_req_def)
  then show thesis by (rule that) simp
next
  case (Some req)
  show thesis
  proof (cases "length req < 4 \<or> flag_set EAPOL_SM_WAIT_START s")
    case True
    then have "eapol_auth_tx_req s = s\<lparr>last_eap_id := last_eap_id s, trace := trace s, cnt := cnt s\<rparr>"
      using Some by (auto simp: eapol_auth_tx_req_def)
    then show thesis by (rule that) simp
  next
    case False
    let ?c = "dot1xAuthEapolFramesTx_update (\<lambda>n. n + 1) (cnt s)"
    have "eapol_auth_tx_req s = s\<lparr>last_eap_id := eap_get_id req, trace := trace s @ [EapolSend 0 req],
        cnt := (if eap_get_type req = EAP_TYPE_IDENTITY then dot1xAuthEapolReqIdFramesTx_update (\<lambda>n. n + 1) ?c
                else dot1xAuthEapolReqFramesTx_update (\<lambda>n. n + 1) ?c)\<rparr>"
      using False Some by (simp add: eapol_auth_tx_req_def Let_def bump_def emit_def)
    then show thesis by (rule that) simp
  qed
qed

text \<open>What the PAE owns or depends on apart from the events: none of it is written by another machine.\<close>

definition pae_view :: "'e eapol_sm \<Rightarrow>
  (auth_pae \<times> PortState \<times> PortTypes \<times> bool option) \<times> PortTypes \<times> bool \<times> bool \<times> int \<times> bool" where
  "pae_view s = ((auth_pae_state s, authPortStatus s, portMode s, last_port (trace s)),
     portControl s, initialize s, portEnabled (eap_if s), quietWhile s, initializing s)"

lemma pae_view_same_port: "pae_view s' = pae_view s \<Longrightarrow> same_port s s'"
  by (simp add: pae_view_def same_port_def)

text \<open>
  The other machines share one contract: they leave all that alone. A machine that runs only
  while its station is there keeps the contract.
\<close>

locale side_machine =
  fixes step :: "'e eapol_sm \<Rightarrow> 'e eapol_sm"
  assumes view_step: "pae_view (step s) = pae_view s"
begin

lemma view_if_alive [simp]: "pae_view (step_if_alive env step s) = pae_view s"
  by (simp add: step_if_alive_def view_step)

end

text \<open>
  A side machine that never finds success by itself: without success of the EAP server it does
  not report any to the PAE.
\<close>

definition closed :: "'e eapol_sm \<Rightarrow> bool" where
  "closed s \<longleftrightarrow> portControl s = Auto \<and> authPortStatus s \<noteq> Authorized \<and>
     auth_pae_state s \<noteq> AUTH_PAE_FORCE_AUTH \<and> \<not> authSuccess s \<and> \<not> eapSuccess (eap_if s)"

locale quiet_machine = side_machine step for step :: "'e eapol_sm \<Rightarrow> 'e eapol_sm" +
  assumes no_success: "\<not> authSuccess s \<Longrightarrow> \<not> eapSuccess (eap_if s) \<Longrightarrow>
    \<not> authSuccess (step s) \<and> \<not> eapSuccess (eap_if (step s))"
begin

lemma closed_if_alive: "closed s \<Longrightarrow> closed (step_if_alive env step s)"
  using view_step [of s] no_success [of s] by (auto simp: closed_def step_if_alive_def pae_view_def)

end

lemma tx_req_view [simp]: "pae_view (eapol_auth_tx_req s) = pae_view s"
  by (rule tx_req_shape [of s]) (simp add: pae_view_def)

lemma be_enter_view [simp]:
  "pae_view (sm_BE_AUTH_REQUEST_Enter g s) = pae_view s" "pae_view (sm_BE_AUTH_SUCCESS_Enter g s) = pae_view s"
  "pae_view (sm_BE_AUTH_FAIL_Enter g s) = pae_view s" "pae_view (sm_BE_AUTH_RESPONSE_Enter g s) = pae_view s"
  "pae_view (sm_BE_AUTH_TIMEOUT_Enter g s) = pae_view s" "pae_view (sm_BE_AUTH_IDLE_Enter g s) = pae_view s"
  "pae_view (sm_BE_AUTH_INITIALIZE_Enter g s) = pae_view s" "pae_view (sm_BE_AUTH_IGNORE_Enter g s) = pae_view s"
  "pae_view (bump c s) = pae_view s"
proof -
  show "pae_view (sm_BE_AUTH_REQUEST_Enter g s) = pae_view s" "pae_view (sm_BE_AUTH_SUCCESS_Enter g s) = pae_view s"
    "pae_view (sm_BE_AUTH_FAIL_Enter g s) = pae_view s"
    using tx_req_view [of "be_entry g BE_AUTH_REQUEST s"] tx_req_view [of "be_entry g BE_AUTH_SUCCESS s"]
      tx_req_view [of "be_entry g BE_AUTH_FAIL s"]
    by (simp_all add: pae_view_def enter_defs)
qed (simp_all add: pae_view_def enter_defs)

lemma tx_req_flags [simp]:
  "authSuccess (eapol_auth_tx_req s) = authSuccess s" "eap_if (eapol_auth_tx_req s) = eap_if s"
  by (rule tx_req_shape [of s]; simp)+

lemma be_enter_flags [simp]:
  "authSuccess (sm_BE_AUTH_REQUEST_Enter g s) = authSuccess s" "authSuccess (sm_BE_AUTH_FAIL_Enter g s) = authSuccess s"
  "authSuccess (sm_BE_AUTH_RESPONSE_Enter g s) = authSuccess s" "authSuccess (sm_BE_AUTH_TIMEOUT_Enter g s) = authSuccess s"
  "authSuccess (sm_BE_AUTH_IDLE_Enter g s) = authSuccess s" "authSuccess (sm_BE_AUTH_INITIALIZE_Enter g s) = authSuccess s"
  "authSuccess (sm_BE_AUTH_IGNORE_Enter g s) = authSuccess s" "authSuccess (bump c s) = authSuccess s"
  "eapSuccess (eap_if (sm_BE_AUTH_REQUEST_Enter g s)) = eapSuccess (eap_if s)"
  "eapSuccess (eap_if (sm_BE_AUTH_FAIL_Enter g s)) = eapSuccess (eap_if s)"
  "eapSuccess (eap_if (sm_BE_AUTH_RESPONSE_Enter g s)) = eapSuccess (eap_if s)"
  "eapSuccess (eap_if (sm_BE_AUTH_TIMEOUT_Enter g s)) = eapSuccess (eap_if s)"
  "eapSuccess (eap_if (sm_BE_AUTH_IDLE_Enter g s)) = eapSuccess (eap_if s)"
  "eapSuccess (eap_if (sm_BE_AUTH_INITIALIZE_Enter g s)) = eapSuccess (eap_if s)"
  "eapSuccess (eap_if (sm_BE_AUTH_IGNORE_Enter g s)) = eapSuccess (eap_if s)"
  "eapSuccess (eap_if (bump c s)) = eapSuccess (eap_if s)"
  by (simp_all add: enter_defs)

interpretation be: quiet_machine sm_BE_AUTH_Step
proof unfold_locales
  show "pae_view (sm_BE_AUTH_Step s) = pae_view s" for s :: "'a eapol_sm"
    by (simp add: sm_BE_AUTH_Step_def Let_def split: be_auth.split)
  show "\<not> authSuccess (sm_BE_AUTH_Step s) \<and> \<not> eapSuccess (eap_if (sm_BE_AUTH_Step s))"
    if "\<not> authSuccess s" "\<not> eapSuccess (eap_if s)" for s :: "'a eapol_sm"
    using that by (simp add: sm_BE_AUTH_Step_def Let_def split: be_auth.split)
qed

interpretation reauth: quiet_machine sm_REAUTH_TIMER_Step
  by unfold_locales (simp_all add: sm_REAUTH_TIMER_Step_def pae_view_def enter_defs split: reauth_timer.split)

interpretation key_tx: quiet_machine sm_AUTH_KEY_TX_Step
  by unfold_locales (simp_all add: sm_AUTH_KEY_TX_Step_def pae_view_def enter_defs split: auth_key_tx.split)

interpretation key_rx: quiet_machine sm_KEY_RX_Step
  by unfold_locales (simp_all add: sm_KEY_RX_Step_def pae_view_def enter_defs split: key_rx.split)

interpretation ctrl_dir: quiet_machine sm_CTRL_DIR_Step
  by unfold_locales (simp_all add: sm_CTRL_DIR_Step_def pae_view_def enter_defs split: ctrl_dir.split)

text \<open>So a round shows of the PAE what its own step made.\<close>

lemma round_view: "pae_view (machines_round env s) = pae_view (sm_AUTH_PAE_Step env s)"
  by (simp add: machines_round_def Let_def)

lemma tail_view [simp]:
  "pae_view (run_tail env s) = pae_view s" "pae_view (aaa_tail env s) = pae_view s"
  "pae_view (eapol_auth_step s) = pae_view s"
  by (simp_all add: run_tail_def aaa_tail_def eapol_auth_step_def pae_view_def enter_defs split: option.split)

section \<open>Invariants of a run\<close>

text \<open>What the tick does before it runs the machines.\<close>

definition count_timers :: "'e eapol_sm \<Rightarrow> 'e eapol_sm" where
  "count_timers s =
     s\<lparr>aWhile := count_down (aWhile s), quietWhile := count_down (quietWhile s),
       reAuthWhen := count_down (reAuthWhen s),
       eap_if := (eap_if s)\<lparr>retransWhile := count_down (retransWhile (eap_if s))\<rparr>\<rparr>"

lemma eapol_port_timers_tick_eq:
  "eapol_port_timers_tick env s = emit (RegisterTimeout 1 PortTimersTick) (eapol_sm_step_run env (count_timers s))"
  by (simp add: eapol_port_timers_tick_def count_timers_def Let_def)

text \<open>What the event loop calls, in any order: the step callback and the second tick.\<close>

fun eapol_runs :: "'e eapol_env \<Rightarrow> eapol_timeout list \<Rightarrow> 'e eapol_sm \<Rightarrow> 'e eapol_sm" where
  "eapol_runs env [] s = s"
| "eapol_runs env (SmStepCb # cs) s = eapol_runs env cs (eapol_sm_step_cb env s)"
| "eapol_runs env (PortTimersTick # cs) s = eapol_runs env cs (eapol_port_timers_tick env s)"

text \<open>
  A property that every part of a run keeps (a round, a step of the EAP server, the calls other
  than those that set the port, the flag of the AAA response) is kept by a run; if the count of
  the timers keeps it too, it is kept by all that the event loop calls.
\<close>

definition is_port_call :: "eapol_out \<Rightarrow> bool" where
  "is_port_call x \<longleftrightarrow> (\<exists>b. x = SetPortAuthorized b)"

locale run_invariant =
  fixes env :: "'e eapol_env" and P :: "'e eapol_sm \<Rightarrow> bool"
  assumes round: "P s \<Longrightarrow> P (machines_round env s)"
    and server: "P s \<Longrightarrow> eap s = Some e \<Longrightarrow> P (fst (eap_step env e s))"
    and call: "P s \<Longrightarrow> \<not> is_port_call x \<Longrightarrow> P (emit x s)"
    and aaa: "P s \<Longrightarrow> P (s\<lparr>eap_if := (eap_if s)\<lparr>aaaEapResp := False\<rparr>\<rparr>)"
begin

lemma tails: "P s \<Longrightarrow> P (run_tail env s)" "P s \<Longrightarrow> P (aaa_tail env s)" "P s \<Longrightarrow> P (eapol_auth_step s)"
  using call aaa
  by (simp_all add: run_tail_def aaa_tail_def eapol_auth_step_def is_port_call_def Let_def split: option.split)

lemma step_run_loop: "P s \<Longrightarrow> P (step_run_loop env n s)"
proof (induction n arbitrary: s)
  case (Suc n)
  let ?s = "machines_round env s"
  have r: "P ?s" using Suc.prems by (rule round)
  show ?case
  proof (cases "if cb_sta_entry_alive env (trace ?s) then eap ?s else None")
    case None
    then show ?thesis using r Suc.IH tails by (simp add: Let_def)
  next
    case (Some e)
    obtain s' m where e: "eap_step env e ?s = (s', m)" by force
    have "eap ?s = Some e" using Some by (simp split: if_splits)
    then have "P s'" using server [OF r, of e] by (simp add: e)
    then show ?thesis using r Suc.IH tails Some e by (simp add: Let_def)
  qed
qed (simp add: tails)

lemma step_run: "P s \<Longrightarrow> P (eapol_sm_step_run env s)"
  by (simp add: eapol_sm_step_run_def step_run_loop)

end

locale tick_invariant = run_invariant +
  assumes timers: "P s \<Longrightarrow> P (count_timers s)"
begin

lemma tick: "P s \<Longrightarrow> P (eapol_port_timers_tick env s)"
  using timers step_run call by (simp add: eapol_port_timers_tick_eq is_port_call_def)

lemma runs: "P s \<Longrightarrow> P (eapol_runs env cs s)"
proof (induction cs arbitrary: s)
  case (Cons c cs)
  then show ?case using step_run tick by (cases c) (simp_all add: eapol_sm_step_cb_def)
qed simp

end

section \<open>The PAE and the port\<close>

lemma pae_enter_inv:
  "port_inv (sm_AUTH_PAE_DISCONNECTED_Enter env g s)" "port_inv (sm_AUTH_PAE_HELD_Enter env g s)"
  "port_inv (sm_AUTH_PAE_AUTHENTICATED_Enter g s)" "port_inv (sm_AUTH_PAE_FORCE_AUTH_Enter g s)"
  "port_inv (sm_AUTH_PAE_FORCE_UNAUTH_Enter g s)"
  by (simp_all add: port_inv_def enter_defs)

lemma pae_enter_inv_keep:
  assumes "port_inv s"
  shows "port_inv (sm_AUTH_PAE_INITIALIZE_Enter g s)" "port_inv (sm_AUTH_PAE_RESTART_Enter g s)"
    "port_inv (sm_AUTH_PAE_CONNECTING_Enter g s)" "port_inv (sm_AUTH_PAE_AUTHENTICATING_Enter g s)"
    "port_inv (sm_AUTH_PAE_ABORTING_Enter g s)"
  using assms by (simp_all add: port_inv_def enter_defs)

lemma port_inv_if: "port_inv s \<Longrightarrow> port_inv t \<Longrightarrow> port_inv (if c then s else t)"
  by simp

lemma pae_step_inv: "port_inv s \<Longrightarrow> port_inv (sm_AUTH_PAE_Step env s)"
  by (cases "auth_pae_state s"; simp only: sm_AUTH_PAE_Step_def auth_pae.case;
    intro port_inv_if pae_enter_inv pae_enter_inv_keep; assumption)

lemma round_inv: "port_inv s \<Longrightarrow> port_inv (machines_round env s)"
  using pae_step_inv same_port_inv pae_view_same_port round_view by metis

interpretation port: tick_invariant env port_inv for env
proof unfold_locales
  show "port_inv s \<Longrightarrow> port_inv (machines_round env s)" for s :: "'a eapol_sm" by (rule round_inv)
  show "port_inv s \<Longrightarrow> port_inv (fst (eap_step env e s))" for s and e :: 'a
    by (simp add: eap_step_def port_inv_def split: prod.split)
  show "port_inv s \<Longrightarrow> \<not> is_port_call x \<Longrightarrow> port_inv (emit x s)" for x and s :: "'a eapol_sm"
    by (cases x) (simp_all add: port_inv_def emit_def is_port_call_def)
qed (simp_all add: port_inv_def count_timers_def)

text \<open>The state and the port status after each entry function.\<close>

lemma pae_enter_state [simp]:
  "auth_pae_state (sm_AUTH_PAE_INITIALIZE_Enter g s) = AUTH_PAE_INITIALIZE"
  "auth_pae_state (sm_AUTH_PAE_DISCONNECTED_Enter env g s) = AUTH_PAE_DISCONNECTED"
  "auth_pae_state (sm_AUTH_PAE_RESTART_Enter g s) = AUTH_PAE_RESTART"
  "auth_pae_state (sm_AUTH_PAE_CONNECTING_Enter g s) = AUTH_PAE_CONNECTING"
  "auth_pae_state (sm_AUTH_PAE_HELD_Enter env g s) = AUTH_PAE_HELD"
  "auth_pae_state (sm_AUTH_PAE_AUTHENTICATED_Enter g s) = AUTH_PAE_AUTHENTICATED"
  "auth_pae_state (sm_AUTH_PAE_AUTHENTICATING_Enter g s) = AUTH_PAE_AUTHENTICATING"
  "auth_pae_state (sm_AUTH_PAE_ABORTING_Enter g s) = AUTH_PAE_ABORTING"
  "auth_pae_state (sm_AUTH_PAE_FORCE_AUTH_Enter g s) = AUTH_PAE_FORCE_AUTH"
  "auth_pae_state (sm_AUTH_PAE_FORCE_UNAUTH_Enter g s) = AUTH_PAE_FORCE_UNAUTH"
  by (simp_all add: enter_defs)

lemma pae_enter_status [simp]:
  "authPortStatus (sm_AUTH_PAE_INITIALIZE_Enter g s) = authPortStatus s"
  "authPortStatus (sm_AUTH_PAE_DISCONNECTED_Enter env g s) = Unauthorized"
  "authPortStatus (sm_AUTH_PAE_RESTART_Enter g s) = authPortStatus s"
  "authPortStatus (sm_AUTH_PAE_CONNECTING_Enter g s) = authPortStatus s"
  "authPortStatus (sm_AUTH_PAE_HELD_Enter env g s) = Unauthorized"
  "authPortStatus (sm_AUTH_PAE_AUTHENTICATED_Enter g s) = Authorized"
  "authPortStatus (sm_AUTH_PAE_AUTHENTICATING_Enter g s) = authPortStatus s"
  "authPortStatus (sm_AUTH_PAE_ABORTING_Enter g s) = authPortStatus s"
  "authPortStatus (sm_AUTH_PAE_FORCE_AUTH_Enter g s) = Authorized"
  "authPortStatus (sm_AUTH_PAE_FORCE_UNAUTH_Enter g s) = Unauthorized"
  by (simp_all add: enter_defs)

text \<open>
  C4. The port opens only for cause: a step of the PAE that makes the status authorized runs on an
  enabled port outside initialization, and either the backend had reported success in the state
  AUTHENTICATING with a valid port, or the administrator forced the port open.
\<close>

theorem port_opens_for_cause:
  assumes "port_inv s" and "authPortStatus s \<noteq> Authorized" and "authPortStatus (sm_AUTH_PAE_Step env s) = Authorized"
  shows "\<not> initialize s \<and> portEnabled (eap_if s) \<and>
    (auth_pae_state s = AUTH_PAE_AUTHENTICATING \<and> authSuccess s \<and> portValid s \<or>
     portControl s = ForceAuthorized \<and> portMode s \<noteq> ForceAuthorized)"
proof -
  have "auth_pae_state s \<noteq> AUTH_PAE_FORCE_AUTH" using assms(1,2) by (auto simp: port_inv_def)
  then show ?thesis
    using assms(2,3) by (cases "auth_pae_state s"; cases "portControl s")
      (simp_all add: sm_AUTH_PAE_Step_def split: if_split_asm)
qed


subsection \<open>Without success of the EAP server\<close>

lemma pae_enter_closed:
  assumes "closed s"
  shows "closed (sm_AUTH_PAE_INITIALIZE_Enter g s)" "closed (sm_AUTH_PAE_DISCONNECTED_Enter env g s)"
    "closed (sm_AUTH_PAE_RESTART_Enter g s)" "closed (sm_AUTH_PAE_CONNECTING_Enter g s)"
    "closed (sm_AUTH_PAE_HELD_Enter env g s)" "closed (sm_AUTH_PAE_AUTHENTICATING_Enter g s)"
    "closed (sm_AUTH_PAE_ABORTING_Enter g s)" "closed (sm_AUTH_PAE_FORCE_UNAUTH_Enter g s)"
  using assms by (simp_all add: closed_def enter_defs)

lemma pae_step_closed: "closed s \<Longrightarrow> closed (sm_AUTH_PAE_Step env s)"
proof -
  assume c: "closed s"
  then have "portControl s = Auto" "\<not> authSuccess s" "auth_pae_state s \<noteq> AUTH_PAE_FORCE_AUTH"
    by (simp_all add: closed_def)
  then show ?thesis
    using c pae_enter_closed [OF c] by (cases "auth_pae_state s") (simp_all add: sm_AUTH_PAE_Step_def)
qed

lemma round_closed: "closed s \<Longrightarrow> closed (machines_round env s)"
  by (simp add: machines_round_def Let_def pae_step_closed be.closed_if_alive reauth.closed_if_alive
      key_tx.closed_if_alive key_rx.closed_if_alive ctrl_dir.closed_if_alive)

text \<open>A server that never reports success.\<close>

definition never_succeeds :: "'e eapol_env \<Rightarrow> bool" where
  "never_succeeds env \<longleftrightarrow> (\<forall>e i. \<not> eapSuccess i \<longrightarrow> \<not> eapSuccess (fst (snd (eap_server_sm_step env e i))))"

interpretation clo: tick_invariant env "\<lambda>s. never_succeeds env \<longrightarrow> closed s" for env
proof unfold_locales
  show "never_succeeds env \<longrightarrow> closed (machines_round env s)" if "never_succeeds env \<longrightarrow> closed s"
    for s :: "'a eapol_sm" using that round_closed by blast
  show "never_succeeds env \<longrightarrow> closed (fst (eap_step env e s))" if "never_succeeds env \<longrightarrow> closed s" for s and e :: 'a
    using that by (auto simp: eap_step_def closed_def never_succeeds_def split: prod.split) (metis fst_conv snd_conv)
qed (simp_all add: closed_def emit_def count_timers_def)

text \<open>
  C2. Without success of the EAP server no access: as long as the server never reports success, a
  machine under automatic control whose port is not authorized never authorizes it, however often
  the event loop runs it and whatever the callbacks answer.
\<close>

theorem no_success_no_access:
  assumes "never_succeeds env"
    and "portControl s = Auto" and "authPortStatus s \<noteq> Authorized" and "auth_pae_state s \<noteq> AUTH_PAE_FORCE_AUTH"
    and "\<not> authSuccess s" and "\<not> eapSuccess (eap_if s)"
  shows "authPortStatus (eapol_runs env cs s) \<noteq> Authorized"
  using clo.runs [of env s cs] assms by (simp add: closed_def)

subsection \<open>All reachable states\<close>

text \<open>
  The life of a machine: it is created, runs from the event loop, is configured, is told that a
  key is cached, and has its event flags and its interface written by the rest of hostapd, which
  leaves the state of the PAE, the port and what was sent alone.
\<close>

inductive eapol_reach :: "'e eapol_env \<Rightarrow> 'e eapol_sm \<Rightarrow> bool" for env :: "'e eapol_env" where
  created: "eapol_auth_alloc env room dup ei sid a addr flags ident cui = Some s \<Longrightarrow> eapol_reach env s"
| step_cb: "eapol_reach env s \<Longrightarrow> eapol_reach env (eapol_sm_step_cb env s)"
| tick: "eapol_reach env s \<Longrightarrow> eapol_reach env (eapol_port_timers_tick env s)"
| set_conf: "eapol_reach env s \<Longrightarrow> eapol_reach env (fst (eapol_auth_set_conf s param val))"
| reauthenticate: "eapol_reach env s \<Longrightarrow> eapol_reach env (eapol_auth_reauthenticate s)"
| pending: "eapol_reach env s \<Longrightarrow> eapol_auth_eap_pending_cb f (Some s) own = (Some s', r) \<Longrightarrow> eapol_reach env s'"
| cached: "eapol_reach env s \<Longrightarrow> eapol_reach env (new_station_cached g s)"
| outside: "eapol_reach env s \<Longrightarrow> same_port s s' \<Longrightarrow> eapol_reach env s'"

lemma initialize_inv: "port_inv s \<Longrightarrow> port_inv (eapol_auth_initialize env s)"
proof -
  assume "port_inv s"
  have k: "port_inv (s\<lparr>initialize := b\<rparr>) = port_inv s" "port_inv (s\<lparr>initializing := b\<rparr>) = port_inv s"
    "port_inv (emit (CancelTimeout t) s) = port_inv s" "port_inv (emit (RegisterTimeout n t) s) = port_inv s"
    for s :: "'a eapol_sm" and b t n
    by (simp_all add: port_inv_def emit_def)
  show ?thesis
    unfolding eapol_auth_initialize_def Let_def k
    by (intro port.step_run) (simp add: k port.step_run \<open>port_inv s\<close>)
qed

lemma set_conf_same_port: "same_port s (fst (eapol_auth_set_conf s param val))"
  by (simp add: eapol_auth_set_conf_def same_port_def eapol_auth_step_def emit_def)

text \<open>
  C11. In every reachable state the driver was last told exactly what the status of the port is,
  the port is authorized in the states AUTHENTICATED and FORCE_AUTH, and it is unauthorized in
  the states DISCONNECTED, HELD and FORCE_UNAUTH.
\<close>

theorem reachable_port_inv:
  assumes "eapol_reach env s"
  shows "port_inv s"
  using assms
proof (induction rule: eapol_reach.induct)
  case (created room dup ei sid a addr flags ident cui s)
  have "port_inv (new_sm w b addr flags e i)" for w b and e :: 'a and i
    by (simp add: new_sm_def port_inv_def)
  then have "port_inv (eapol_auth_initialize env (new_sm w b addr flags e i))" for w b and e :: 'a and i
    by (rule initialize_inv)
  moreover have "port_inv (t\<lparr>identity := x, radius_cui := y, acct_multi_session_id := z\<rparr>) = port_inv t"
    for t :: "'a eapol_sm" and x y z by (simp add: port_inv_def)
  ultimately show ?case
    using created by (auto simp: eapol_auth_alloc_def Let_def split: option.splits if_splits)
next
  case (step_cb s)
  then show ?case by (simp add: eapol_sm_step_cb_def port.step_run)
next
  case (tick s)
  then show ?case by (simp add: port.tick)
next
  case (set_conf s param val)
  show ?case using set_conf_same_port set_conf.IH by (rule same_port_inv)
next
  case (reauthenticate s)
  then show ?case by (simp add: eapol_auth_reauthenticate_def eapol_auth_step_def emit_def port_inv_def)
next
  case (pending s f own s' r)
  then have "same_port s s'"
    by (auto simp: eapol_auth_eap_pending_cb_def same_port_def eapol_auth_step_def emit_def Let_def
        split: option.splits if_splits prod.splits)
  then show ?case using pending.IH by (rule same_port_inv)
next
  case (cached s g)
  then show ?case by (simp add: port_inv_def new_station_cached_def)
next
  case (outside s s')
  then show ?case by (blast intro: same_port_inv)
qed


subsection \<open>The quiet period\<close>

text \<open>The EAP server reads whether the port is enabled and leaves it alone.\<close>

definition keeps_port_enabled :: "'e eapol_env \<Rightarrow> bool" where
  "keeps_port_enabled env \<longleftrightarrow> (\<forall>e i. portEnabled (fst (snd (eap_server_sm_step env e i))) = portEnabled i)"

definition held :: "int \<Rightarrow> 'e eapol_sm \<Rightarrow> bool" where
  "held k s \<longleftrightarrow> auth_pae_state s = AUTH_PAE_HELD \<and> authPortStatus s = Unauthorized \<and> quietWhile s = k \<and> k \<noteq> 0 \<and>
     portControl s = Auto \<and> portMode s = Auto \<and> \<not> initialize s \<and> portEnabled (eap_if s)"

lemma round_held: "held k s \<Longrightarrow> held k (machines_round env s)"
proof -
  assume h: "held k s"
  then have "sm_AUTH_PAE_Step env s = s" by (simp add: held_def sm_AUTH_PAE_Step_def)
  then have "pae_view (machines_round env s) = pae_view s" by (simp add: round_view)
  then show ?thesis using h by (simp add: held_def pae_view_def)
qed

interpretation quiet: run_invariant env "\<lambda>s. keeps_port_enabled env \<longrightarrow> held k s" for env k
proof unfold_locales
  show "keeps_port_enabled env \<longrightarrow> held k (fst (eap_step env e s))" if "keeps_port_enabled env \<longrightarrow> held k s" for s and e :: 'a
    using that by (auto simp: eap_step_def held_def keeps_port_enabled_def split: prod.split) (metis fst_conv snd_conv)
  show "keeps_port_enabled env \<longrightarrow> held k (machines_round env s)" if "keeps_port_enabled env \<longrightarrow> held k s"
    for s :: "'a eapol_sm" using that round_held by blast
qed (simp_all add: held_def emit_def)

text \<open>
  C21. A machine in HELD with a running quiet period stays there, with the port closed and the
  timer counting one per tick, through any interleaving of step callbacks and fewer ticks than
  the timer has left.
\<close>

theorem held_for_quiet_period:
  assumes "keeps_port_enabled env" and "auth_pae_state s = AUTH_PAE_HELD" and "authPortStatus s = Unauthorized"
    and "portControl s = Auto" and "portMode s = Auto" and "\<not> initialize s" and "portEnabled (eap_if s)"
    and "int (count_list cs PortTimersTick) < quietWhile s"
  shows "auth_pae_state (eapol_runs env cs s) = AUTH_PAE_HELD \<and>
    authPortStatus (eapol_runs env cs s) = Unauthorized \<and>
    quietWhile (eapol_runs env cs s) = quietWhile s - int (count_list cs PortTimersTick)"
proof -
  have "held k s \<Longrightarrow> int (count_list cs PortTimersTick) < k \<Longrightarrow>
      held (k - int (count_list cs PortTimersTick)) (eapol_runs env cs s)" for k
  proof (induction cs arbitrary: s k)
    case (Cons c cs)
    show ?case
    proof (cases c)
      case SmStepCb
      have "held k (eapol_sm_step_cb env s)"
        using quiet.step_run [of env k s] Cons.prems(1) assms(1) by (simp add: eapol_sm_step_cb_def)
      then show ?thesis using Cons.IH Cons.prems(2) by (simp add: SmStepCb)
    next
      case PortTimersTick
      then have k: "k > 1" using Cons.prems(2) by simp
      have "held (k - 1) (count_timers s)" using Cons.prems(1) k by (simp add: held_def count_timers_def count_down_def)
      then have "held (k - 1) (eapol_sm_step_run env (count_timers s))"
        using quiet.step_run [of env "k - 1"] assms(1) by blast
      then have "held (k - 1) (eapol_port_timers_tick env s)"
        by (simp add: eapol_port_timers_tick_eq held_def emit_def)
      then show ?thesis using Cons.IH [of "k - 1"] Cons.prems(2) by (simp add: PortTimersTick algebra_simps)
    qed
  qed simp
  from this [of "quietWhile s"] show ?thesis using assms(2-8) by (simp add: held_def)
qed

subsection \<open>The end of a run\<close>

text \<open>
  What a round leaves for the next one, if it moved a machine or the EAP server; and how a run ends
  after a round that moved neither.
\<close>

definition next_round :: "'e eapol_env \<Rightarrow> 'e eapol_sm \<Rightarrow> 'e eapol_sm option" where
  "next_round env s =
     (let s' = machines_round env s
      in if machine_states s' \<noteq> machine_states s then Some s'
         else case (if cb_sta_entry_alive env (trace s') then eap s' else None) of
           None \<Rightarrow> None
         | Some e \<Rightarrow> if snd (eap_step env e s') then Some (fst (eap_step env e s')) else None)"

definition quiet_end :: "'e eapol_env \<Rightarrow> 'e eapol_sm \<Rightarrow> 'e eapol_sm" where
  "quiet_end env s =
     (let s' = machines_round env s
      in case (if cb_sta_entry_alive env (trace s') then eap s' else None) of
           None \<Rightarrow> run_tail env s'
         | Some e \<Rightarrow> aaa_tail env (fst (eap_step env e s')))"

primrec rounds :: "'e eapol_env \<Rightarrow> nat \<Rightarrow> 'e eapol_sm \<Rightarrow> 'e eapol_sm option" where
  "rounds env 0 s = Some s"
| "rounds env (Suc k) s = (case next_round env s of None \<Rightarrow> None | Some s' \<Rightarrow> rounds env k s')"

lemma step_run_loop_round:
  "step_run_loop env (Suc n) s = (case next_round env s of None \<Rightarrow> quiet_end env s | Some s' \<Rightarrow> step_run_loop env n s')"
  by (auto simp: next_round_def quiet_end_def Let_def split_beta split: option.split)

lemma step_run_loop_ends:
  "(\<exists>k<n. \<exists>t. rounds env k s = Some t \<and> next_round env t = None \<and> step_run_loop env n s = quiet_end env t) \<or>
   (\<exists>t. rounds env n s = Some t \<and> step_run_loop env n s = eapol_auth_step t)"
proof (induction n arbitrary: s)
  case (Suc n)
  show ?case
  proof (cases "next_round env s")
    case None
    then show ?thesis unfolding step_run_loop_round by (intro disjI1 exI [of _ 0]) simp
  next
    case (Some s')
    from Suc.IH [of s'] show ?thesis
    proof (elim disjE exE conjE)
      fix k t
      assume "k < n" "rounds env k s' = Some t" "next_round env t = None" "step_run_loop env n s' = quiet_end env t"
      then show ?thesis unfolding step_run_loop_round using Some by (intro disjI1 exI [of _ "Suc k"]) simp
    qed (use Some in \<open>simp add: step_run_loop_round del: step_run_loop.simps\<close>)
  qed
qed simp

text \<open>
  C22. A run ends within a hundred rounds. Either fewer than a hundred rounds that moved a machine or
  the EAP server are followed by one that moved neither, and the run ends there with its event and
  the response for the AAA server; or all of a hundred rounds moved something, and the run stops after
  them and is registered again in the event loop, which continues from that state.
\<close>

theorem step_run_ends:
  "(\<exists>k<100. \<exists>t. rounds env k s = Some t \<and> next_round env t = None \<and> eapol_sm_step_run env s = quiet_end env t) \<or>
   (\<exists>t. rounds env 100 s = Some t \<and> eapol_sm_step_run env s = eapol_auth_step t)"
  unfolding eapol_sm_step_run_def by (rule step_run_loop_ends)

subsection \<open>The backend reports what the EAP server says\<close>

text \<open>
  C23. The backend machine reports success to the PAE exactly when the EAP server does: a step raises
  the flag if and only if the EAP server has reported success, and neither a failure nor a new
  request, under automatic control, with no initialization and no abort, and the machine is in IDLE
  with an authentication started, or has a pending response whose timer has not run out.
\<close>

theorem backend_success_for_cause:
  assumes "\<not> authSuccess s"
  shows "authSuccess (sm_BE_AUTH_Step s) \<longleftrightarrow>
    eapSuccess (eap_if s) \<and> portControl s = Auto \<and> \<not> initialize s \<and> \<not> authAbort s \<and> \<not> eapFail (eap_if s) \<and>
    \<not> eapReq (eap_if s) \<and>
    (be_auth_state s = BE_AUTH_IDLE \<and> authStart s \<or> be_auth_state s = BE_AUTH_RESPONSE \<and> aWhile s \<noteq> 0)"
proof -
  have ig: "eapReq (eap_if (sm_BE_AUTH_IGNORE_Enter g t)) = eapReq (eap_if t)"
    "eapFail (eap_if (sm_BE_AUTH_IGNORE_Enter g t)) = eapFail (eap_if t)"
    "eapSuccess (eap_if (sm_BE_AUTH_IGNORE_Enter g t)) = eapSuccess (eap_if t)"
    "aWhile (sm_BE_AUTH_IGNORE_Enter g t) = aWhile t" for g and t :: "'a eapol_sm"
    by (simp_all add: enter_defs)
  have up: "authSuccess (sm_BE_AUTH_SUCCESS_Enter g t)" for g and t :: "'a eapol_sm"
    by (simp add: sm_BE_AUTH_SUCCESS_Enter_def)
  show ?thesis
    using assms by (cases "be_auth_state s") (auto simp: sm_BE_AUTH_Step_def Let_def ig up split: if_split_asm)
qed

subsection \<open>A reauthentication period of zero\<close>

text \<open>What the reauthentication timer depends on; the other side machines leave it alone.\<close>

definition reauth_view :: "'e eapol_sm \<Rightarrow> bool \<times> bool \<times> u32 \<times> int \<times> reauth_timer \<times> 'e option" where
  "reauth_view s = (eapRestart (eap_if s), reAuthEnabled s, reAuthPeriod s, reAuthWhen s, reauth_timer_state s, eap s)"

lemma tx_req_reauth [simp]: "reauth_view (eapol_auth_tx_req s) = reauth_view s"
  by (rule tx_req_shape [of s]) (simp add: reauth_view_def)

lemma be_enter_reauth [simp]:
  "reauth_view (sm_BE_AUTH_REQUEST_Enter g s) = reauth_view s" "reauth_view (sm_BE_AUTH_SUCCESS_Enter g s) = reauth_view s"
  "reauth_view (sm_BE_AUTH_FAIL_Enter g s) = reauth_view s" "reauth_view (sm_BE_AUTH_RESPONSE_Enter g s) = reauth_view s"
  "reauth_view (sm_BE_AUTH_TIMEOUT_Enter g s) = reauth_view s" "reauth_view (sm_BE_AUTH_IDLE_Enter g s) = reauth_view s"
  "reauth_view (sm_BE_AUTH_INITIALIZE_Enter g s) = reauth_view s" "reauth_view (sm_BE_AUTH_IGNORE_Enter g s) = reauth_view s"
  "reauth_view (bump c s) = reauth_view s"
proof -
  show "reauth_view (sm_BE_AUTH_REQUEST_Enter g s) = reauth_view s" "reauth_view (sm_BE_AUTH_SUCCESS_Enter g s) = reauth_view s"
    "reauth_view (sm_BE_AUTH_FAIL_Enter g s) = reauth_view s"
    using tx_req_reauth [of "be_entry g BE_AUTH_REQUEST s"] tx_req_reauth [of "be_entry g BE_AUTH_SUCCESS s"]
      tx_req_reauth [of "be_entry g BE_AUTH_FAIL s"]
    by (simp_all add: reauth_view_def enter_defs)
qed (simp_all add: reauth_view_def enter_defs)

lemma side_reauth [simp]:
  "reauth_view (sm_BE_AUTH_Step s) = reauth_view s" "reauth_view (sm_AUTH_KEY_TX_Step s) = reauth_view s"
  "reauth_view (sm_KEY_RX_Step s) = reauth_view s" "reauth_view (sm_CTRL_DIR_Step s) = reauth_view s"
proof -
  show "reauth_view (sm_BE_AUTH_Step s) = reauth_view s"
    by (simp add: sm_BE_AUTH_Step_def Let_def split: be_auth.split)
  show "reauth_view (sm_AUTH_KEY_TX_Step s) = reauth_view s" "reauth_view (sm_KEY_RX_Step s) = reauth_view s"
    "reauth_view (sm_CTRL_DIR_Step s) = reauth_view s"
    by (simp_all add: sm_AUTH_KEY_TX_Step_def sm_KEY_RX_Step_def sm_CTRL_DIR_Step_def reauth_view_def enter_defs
        split: auth_key_tx.split key_rx.split ctrl_dir.split)
qed

text \<open>
  A station under reauthentication whose PAE waits for the EAP server to restart, with a period of
  zero and the timer enabled.
\<close>

definition spinning :: "'e option \<Rightarrow> 'e eapol_sm \<Rightarrow> bool" where
  "spinning e s \<longleftrightarrow> auth_pae_state s = AUTH_PAE_RESTART \<and> authPortStatus s = Authorized \<and> portControl s = Auto \<and>
     portMode s = Auto \<and> \<not> initialize s \<and> portEnabled (eap_if s) \<and> eapRestart (eap_if s) \<and>
     reAuthEnabled s \<and> reAuthPeriod s = 0 \<and> reAuthWhen s = 0 \<and> eap s = e"

lemma spinning_view:
  "pae_view s' = pae_view s \<Longrightarrow> reauth_view s' = reauth_view s \<Longrightarrow> spinning e s' = spinning e s"
  by (simp add: spinning_def pae_view_def reauth_view_def)

lemma round_spins:
  assumes "spinning e s" and alive: "\<And>tr. cb_sta_entry_alive env tr"
  shows "spinning e (machines_round env s) \<and> reauth_timer_state (machines_round env s) \<noteq> reauth_timer_state s"
proof -
  have p: "sm_AUTH_PAE_Step env s = s" using assms(1) by (simp add: spinning_def sm_AUTH_PAE_Step_def)
  let ?b = "sm_BE_AUTH_Step s"
  have b: "spinning e ?b" "reauth_timer_state ?b = reauth_timer_state s"
    using assms(1) spinning_view [OF be.view_step side_reauth(1)] side_reauth(1) [of s] by (auto simp: reauth_view_def)
  let ?r = "sm_REAUTH_TIMER_Step ?b"
  have r: "spinning e ?r" "reauth_timer_state ?r \<noteq> reauth_timer_state ?b"
    using b(1) by (auto simp: sm_REAUTH_TIMER_Step_def spinning_def enter_defs split: reauth_timer.split)
  have alive_step: "step_if_alive env f t = f t" for f and t :: "'a eapol_sm" by (simp add: step_if_alive_def alive)
  have "pae_view (machines_round env s) = pae_view ?r" "reauth_view (machines_round env s) = reauth_view ?r"
    by (simp_all add: machines_round_def Let_def p alive_step key_tx.view_step key_rx.view_step ctrl_dir.view_step)
  then show ?thesis using r b spinning_view by (auto simp: reauth_view_def)
qed

lemma loop_spins:
  assumes "spinning e s" and "\<And>tr. cb_sta_entry_alive env tr"
  shows "\<exists>s1. spinning e s1 \<and> step_run_loop env n s = eapol_auth_step s1"
  using assms(1)
proof (induction n arbitrary: s)
  case 0
  then show ?case by auto
next
  case (Suc n)
  have r: "spinning e (machines_round env s) \<and> reauth_timer_state (machines_round env s) \<noteq> reauth_timer_state s"
    using Suc.prems assms(2) by (rule round_spins)
  then have "machine_states (machines_round env s) \<noteq> machine_states s" by (simp add: machine_states_def)
  then show ?case using Suc.IH [of "machines_round env s"] r by (simp add: Let_def)
qed

text \<open>
  C32. With reauthentication enabled and a period of zero, a machine that waits for the EAP server
  to restart never lets the server run: every run uses up its hundred rounds on the
  reauthentication timer, registers itself again without delay, and leaves the machine where it
  was, however often the event loop calls it.
\<close>

theorem zero_reauth_period_livelock:
  assumes "spinning e s" and "\<And>tr. cb_sta_entry_alive env tr"
  shows "spinning e (eapol_runs env (replicate n SmStepCb) s) \<and>
    last (trace (eapol_runs env (replicate (Suc n) SmStepCb) s)) = RegisterTimeout 0 SmStepCb"
  using assms(1)
proof (induction n arbitrary: s)
  case (Suc n)
  obtain s1 where s1: "spinning e s1" "eapol_sm_step_cb env s = eapol_auth_step s1"
    using loop_spins [OF Suc.prems assms(2)] by (auto simp: eapol_sm_step_cb_def eapol_sm_step_run_def)
  then have "spinning e (eapol_sm_step_cb env s)" by (simp add: spinning_def eapol_auth_step_def emit_def)
  then show ?case using Suc.IH by simp
next
  case 0
  obtain s1 where "eapol_sm_step_cb env s = eapol_auth_step s1"
    using loop_spins [OF 0 assms(2)] by (auto simp: eapol_sm_step_cb_def eapol_sm_step_run_def)
  then show ?case using 0 by (simp add: eapol_auth_step_def emit_def)
qed

subsection \<open>A cached key and a port forced closed\<close>

text \<open>
  C33. A port that the administrator forced closed is opened by a reassociation with a cached key:
  the machine is put into AUTHENTICATING with success, the global rule does not fire because the
  mode was already taken over, and the next step of the PAE authorizes the port.
\<close>

theorem cached_key_overrides_force_unauthorized:
  assumes "portControl s = ForceUnauthorized" and "portMode s = ForceUnauthorized" and "\<not> initialize s" and "portValid s"
  shows "authPortStatus (sm_AUTH_PAE_Step env (new_station_cached f s)) = Authorized \<and>
    last_port (trace (sm_AUTH_PAE_Step env (new_station_cached f s))) = Some True"
  using assms by (simp add: sm_AUTH_PAE_Step_def new_station_cached_def enter_defs)


section \<open>Concrete machines\<close>

text \<open>A station that is always there, and an EAP server that never moves.\<close>

definition sample_env :: "unit eapol_env" where
  "sample_env = \<lparr>config_wep = False, cb_finished = (\<lambda>_. False), cb_sta_entry_alive = (\<lambda>_. True),
     eap_server_sm_step = (\<lambda>e i. (e, i, False, False))\<rparr>"

definition sample_if :: eap_eapol_interface where
  "sample_if = \<lparr>eapResp = False, eapRespData = None, portEnabled = True, retransWhile = 0, eapRestart = False,
     eapSRTT = 0, eapRTTVAR = 0, eapReq = False, eapNoReq = False, eapSuccess = False, eapFail = False,
     eapTimeout = False, eapReqData = None, eapKeyData = None, eapSessionId = None, eapKeyAvailable = False,
     aaaEapReq = False, aaaEapNoReq = False, aaaSuccess = False, aaaFail = False, aaaEapReqData = None,
     aaaEapKeyData = None, aaaEapKeyAvailable = False, aaaMethodTimeout = 0, aaaEapResp = False,
     aaaEapRespData = None, aaaTimeout = False\<rparr>"

definition sample_auth :: eapol_authenticator where
  "sample_auth = \<lparr>conf = zero_conf\<lparr>eap_reauth_period := 3600\<rparr>, default_wep_key = None, default_wep_key_idx = 0\<rparr>"

definition sample_sm :: "unit eapol_sm" where
  "sample_sm = (new_sm False sample_auth [2, 0, 0, 0, 0, 1] 0 () sample_if)\<lparr>portMode := Auto\<rparr>"

text \<open>The fields of the sample that the examples look at.\<close>

lemma sample_fields [simp]:
  "portControl sample_sm = Auto" "portMode sample_sm = Auto" "authPortStatus sample_sm = NoPortState"
  "auth_pae_state sample_sm = AUTH_PAE_INITIALIZE" "be_auth_state sample_sm = BE_AUTH_INITIALIZE"
  "portValid sample_sm" "\<not> authSuccess sample_sm" "\<not> initialize sample_sm" "\<not> authAbort sample_sm"
  "eap_if sample_sm = sample_if" "trace sample_sm = []" "reAuthEnabled sample_sm" "reAuthWhen sample_sm = 0"
  "portEnabled sample_if" "\<not> eapSuccess sample_if" "\<not> eapFail sample_if" "\<not> eapReq sample_if"
  "eap sample_sm = Some ()" "stopped sample_sm = False"
  by (simp_all add: sample_sm_def new_sm_def sample_auth_def zero_conf_def sample_if_def)

lemma sample_env_fields [simp]:
  "cb_sta_entry_alive sample_env tr" "never_succeeds sample_env" "keeps_port_enabled sample_env"
  by (simp_all add: sample_env_def never_succeeds_def keeps_port_enabled_def)

theorem port_opens_for_cause_witness:
  "\<not> initialize sample_sm \<and> authPortStatus (sm_AUTH_PAE_Step sample_env
     (sample_sm\<lparr>auth_pae_state := AUTH_PAE_AUTHENTICATING, authSuccess := True\<rparr>)) = Authorized"
proof -
  let ?s = "sample_sm\<lparr>auth_pae_state := AUTH_PAE_AUTHENTICATING, authSuccess := True\<rparr>"
  have "port_inv ?s" "authPortStatus ?s \<noteq> Authorized" by (simp_all add: port_inv_def)
  moreover have "authPortStatus (sm_AUTH_PAE_Step sample_env ?s) = Authorized" by (simp add: sm_AUTH_PAE_Step_def)
  ultimately show ?thesis using port_opens_for_cause [of ?s sample_env] by simp
qed

theorem no_success_no_access_witness:
  "authPortStatus (eapol_runs sample_env [SmStepCb, PortTimersTick, SmStepCb] sample_sm) \<noteq> Authorized"
  by (rule no_success_no_access) simp_all

theorem reachable_port_inv_witness:
  "\<exists>s. eapol_auth_alloc sample_env True (\<lambda>_. True) (Some ((), sample_if)) (Some 77) (Some sample_auth)
       [2, 0, 0, 0, 0, 1] 0 (Some ''user'') None = Some s \<and>
     port_inv s"
proof -
  obtain s where s: "eapol_auth_alloc sample_env True (\<lambda>_. True) (Some ((), sample_if)) (Some 77) (Some sample_auth)
      [2, 0, 0, 0, 0, 1] 0 (Some ''user'') None = Some s"
    by (simp add: eapol_auth_alloc_def Let_def)
  then show ?thesis using reachable_port_inv [OF eapol_reach.created [OF s]] by blast
qed

theorem held_for_quiet_period_witness:
  "quietWhile (eapol_runs sample_env [PortTimersTick, SmStepCb, PortTimersTick]
     (sample_sm\<lparr>auth_pae_state := AUTH_PAE_HELD, authPortStatus := Unauthorized, quietWhile := 60\<rparr>)) = 58"
  using held_for_quiet_period [of sample_env "sample_sm\<lparr>auth_pae_state := AUTH_PAE_HELD,
    authPortStatus := Unauthorized, quietWhile := 60\<rparr>" "[PortTimersTick, SmStepCb, PortTimersTick]"] by simp

theorem backend_success_for_cause_witness:
  "authSuccess (sm_BE_AUTH_Step
     (sample_sm\<lparr>be_auth_state := BE_AUTH_IDLE, authStart := True, eap_if := sample_if\<lparr>eapSuccess := True\<rparr>\<rparr>)) \<and>
   \<not> authSuccess (sm_BE_AUTH_Step
     (sample_sm\<lparr>be_auth_state := BE_AUTH_IDLE, authStart := False, eap_if := sample_if\<lparr>eapSuccess := True\<rparr>\<rparr>))"
  by (subst backend_success_for_cause, simp)+ simp

theorem zero_reauth_period_livelock_witness:
  "last (trace (eapol_runs sample_env (replicate (Suc 5) SmStepCb)
     (sample_sm\<lparr>auth_pae_state := AUTH_PAE_RESTART, authPortStatus := Authorized, reAuthPeriod := 0,
       eap_if := sample_if\<lparr>eapRestart := True\<rparr>\<rparr>))) = RegisterTimeout 0 SmStepCb"
  using zero_reauth_period_livelock [of "Some ()" "sample_sm\<lparr>auth_pae_state := AUTH_PAE_RESTART,
    authPortStatus := Authorized, reAuthPeriod := 0, eap_if := sample_if\<lparr>eapRestart := True\<rparr>\<rparr>" sample_env 5]
  by (simp add: spinning_def del: eapol_runs.simps replicate.simps)

theorem cached_key_overrides_force_unauthorized_witness:
  "authPortStatus (sm_AUTH_PAE_Step sample_env (new_station_cached id
     (sample_sm\<lparr>portControl := ForceUnauthorized, portMode := ForceUnauthorized,
       auth_pae_state := AUTH_PAE_FORCE_UNAUTH, authPortStatus := Unauthorized\<rparr>))) = Authorized"
  using cached_key_overrides_force_unauthorized [of "sample_sm\<lparr>portControl := ForceUnauthorized,
    portMode := ForceUnauthorized, auth_pae_state := AUTH_PAE_FORCE_UNAUTH, authPortStatus := Unauthorized\<rparr>" sample_env id]
  by simp


end
