(* ===== verification/Wpa_Defs.thy ===== *)
theory Wpa_Defs
  imports Common
begin

text \<open>
  The cipher and key management suites of \<open>src/common/defs.h\<close> and the functions on them there and
  in \<open>src/common/wpa_common.c\<close>. A suite is a bit of a 32-bit word, a set of suites the union of its
  bits. The build has the options \<open>CONFIG_DPP\<close>, \<open>CONFIG_DPP2\<close> and \<open>CONFIG_SHA384\<close> and neither
  fast transition nor SAE, OWE, FILS or Suite B.
\<close>

section \<open>Cipher suites\<close>

abbreviation (input) WPA_CIPHER_NONE :: u32 where "WPA_CIPHER_NONE \<equiv> 0x1"
abbreviation (input) WPA_CIPHER_TKIP :: u32 where "WPA_CIPHER_TKIP \<equiv> 0x8"
abbreviation (input) WPA_CIPHER_CCMP :: u32 where "WPA_CIPHER_CCMP \<equiv> 0x10"
abbreviation (input) WPA_CIPHER_AES_128_CMAC :: u32 where "WPA_CIPHER_AES_128_CMAC \<equiv> 0x20"
abbreviation (input) WPA_CIPHER_GCMP :: u32 where "WPA_CIPHER_GCMP \<equiv> 0x40"
abbreviation (input) WPA_CIPHER_GCMP_256 :: u32 where "WPA_CIPHER_GCMP_256 \<equiv> 0x100"
abbreviation (input) WPA_CIPHER_CCMP_256 :: u32 where "WPA_CIPHER_CCMP_256 \<equiv> 0x200"
abbreviation (input) WPA_CIPHER_BIP_GMAC_128 :: u32 where "WPA_CIPHER_BIP_GMAC_128 \<equiv> 0x800"
abbreviation (input) WPA_CIPHER_BIP_GMAC_256 :: u32 where "WPA_CIPHER_BIP_GMAC_256 \<equiv> 0x1000"
abbreviation (input) WPA_CIPHER_BIP_CMAC_256 :: u32 where "WPA_CIPHER_BIP_CMAC_256 \<equiv> 0x2000"
abbreviation (input) WPA_CIPHER_GTK_NOT_USED :: u32 where "WPA_CIPHER_GTK_NOT_USED \<equiv> 0x4000"

datatype wpa_alg = WPA_ALG_NONE | WPA_ALG_WEP | WPA_ALG_TKIP | WPA_ALG_CCMP | WPA_ALG_BIP_CMAC_128
  | WPA_ALG_GCMP | WPA_ALG_SMS4 | WPA_ALG_KRK | WPA_ALG_GCMP_256 | WPA_ALG_CCMP_256
  | WPA_ALG_BIP_GMAC_128 | WPA_ALG_BIP_GMAC_256 | WPA_ALG_BIP_CMAC_256

definition wpa_cipher_key_len :: "u32 \<Rightarrow> nat" where
  "wpa_cipher_key_len cipher =
     (if cipher \<in> {WPA_CIPHER_CCMP_256, WPA_CIPHER_GCMP_256, WPA_CIPHER_BIP_GMAC_256, WPA_CIPHER_BIP_CMAC_256} then 32
      else if cipher \<in> {WPA_CIPHER_CCMP, WPA_CIPHER_GCMP, WPA_CIPHER_AES_128_CMAC, WPA_CIPHER_BIP_GMAC_128} then 16
      else if cipher = WPA_CIPHER_TKIP then 32
      else 0)"

definition wpa_cipher_to_alg :: "u32 \<Rightarrow> wpa_alg" where
  "wpa_cipher_to_alg cipher =
     (if cipher = WPA_CIPHER_CCMP_256 then WPA_ALG_CCMP_256
      else if cipher = WPA_CIPHER_GCMP_256 then WPA_ALG_GCMP_256
      else if cipher = WPA_CIPHER_CCMP then WPA_ALG_CCMP
      else if cipher = WPA_CIPHER_GCMP then WPA_ALG_GCMP
      else if cipher = WPA_CIPHER_TKIP then WPA_ALG_TKIP
      else if cipher = WPA_CIPHER_AES_128_CMAC then WPA_ALG_BIP_CMAC_128
      else if cipher = WPA_CIPHER_BIP_GMAC_128 then WPA_ALG_BIP_GMAC_128
      else if cipher = WPA_CIPHER_BIP_GMAC_256 then WPA_ALG_BIP_GMAC_256
      else if cipher = WPA_CIPHER_BIP_CMAC_256 then WPA_ALG_BIP_CMAC_256
      else WPA_ALG_NONE)"

definition wpa_cipher_valid_pairwise :: "u32 \<Rightarrow> bool" where
  "wpa_cipher_valid_pairwise cipher \<longleftrightarrow>
     cipher \<in> {WPA_CIPHER_CCMP_256, WPA_CIPHER_GCMP_256, WPA_CIPHER_CCMP, WPA_CIPHER_GCMP, WPA_CIPHER_TKIP}"

definition wpa_cipher_valid_group :: "u32 \<Rightarrow> bool" where
  "wpa_cipher_valid_group cipher \<longleftrightarrow> wpa_cipher_valid_pairwise cipher \<or> cipher = WPA_CIPHER_GTK_NOT_USED"

definition wpa_cipher_valid_mgmt_group :: "u32 \<Rightarrow> bool" where
  "wpa_cipher_valid_mgmt_group cipher \<longleftrightarrow>
     cipher \<in> {WPA_CIPHER_GTK_NOT_USED, WPA_CIPHER_AES_128_CMAC, WPA_CIPHER_BIP_GMAC_128, WPA_CIPHER_BIP_GMAC_256,
               WPA_CIPHER_BIP_CMAC_256}"

section \<open>Key management suites\<close>

abbreviation (input) WPA_KEY_MGMT_IEEE8021X :: u32 where "WPA_KEY_MGMT_IEEE8021X \<equiv> 0x1"
abbreviation (input) WPA_KEY_MGMT_PSK :: u32 where "WPA_KEY_MGMT_PSK \<equiv> 0x2"
abbreviation (input) WPA_KEY_MGMT_WPA_NONE :: u32 where "WPA_KEY_MGMT_WPA_NONE \<equiv> 0x10"
abbreviation (input) WPA_KEY_MGMT_FT_IEEE8021X :: u32 where "WPA_KEY_MGMT_FT_IEEE8021X \<equiv> 0x20"
abbreviation (input) WPA_KEY_MGMT_FT_PSK :: u32 where "WPA_KEY_MGMT_FT_PSK \<equiv> 0x40"
abbreviation (input) WPA_KEY_MGMT_IEEE8021X_SHA256 :: u32 where "WPA_KEY_MGMT_IEEE8021X_SHA256 \<equiv> 0x80"
abbreviation (input) WPA_KEY_MGMT_PSK_SHA256 :: u32 where "WPA_KEY_MGMT_PSK_SHA256 \<equiv> 0x100"
abbreviation (input) WPA_KEY_MGMT_SAE :: u32 where "WPA_KEY_MGMT_SAE \<equiv> 0x400"
abbreviation (input) WPA_KEY_MGMT_FT_SAE :: u32 where "WPA_KEY_MGMT_FT_SAE \<equiv> 0x800"
abbreviation (input) WPA_KEY_MGMT_CCKM :: u32 where "WPA_KEY_MGMT_CCKM \<equiv> 0x4000"
abbreviation (input) WPA_KEY_MGMT_OSEN :: u32 where "WPA_KEY_MGMT_OSEN \<equiv> 0x8000"
abbreviation (input) WPA_KEY_MGMT_IEEE8021X_SUITE_B :: u32 where "WPA_KEY_MGMT_IEEE8021X_SUITE_B \<equiv> 0x10000"
abbreviation (input) WPA_KEY_MGMT_IEEE8021X_SUITE_B_192 :: u32 where "WPA_KEY_MGMT_IEEE8021X_SUITE_B_192 \<equiv> 0x20000"
abbreviation (input) WPA_KEY_MGMT_FILS_SHA256 :: u32 where "WPA_KEY_MGMT_FILS_SHA256 \<equiv> 0x40000"
abbreviation (input) WPA_KEY_MGMT_FILS_SHA384 :: u32 where "WPA_KEY_MGMT_FILS_SHA384 \<equiv> 0x80000"
abbreviation (input) WPA_KEY_MGMT_FT_FILS_SHA256 :: u32 where "WPA_KEY_MGMT_FT_FILS_SHA256 \<equiv> 0x100000"
abbreviation (input) WPA_KEY_MGMT_FT_FILS_SHA384 :: u32 where "WPA_KEY_MGMT_FT_FILS_SHA384 \<equiv> 0x200000"
abbreviation (input) WPA_KEY_MGMT_OWE :: u32 where "WPA_KEY_MGMT_OWE \<equiv> 0x400000"
abbreviation (input) WPA_KEY_MGMT_DPP :: u32 where "WPA_KEY_MGMT_DPP \<equiv> 0x800000"
abbreviation (input) WPA_KEY_MGMT_FT_IEEE8021X_SHA384 :: u32 where "WPA_KEY_MGMT_FT_IEEE8021X_SHA384 \<equiv> 0x1000000"
abbreviation (input) WPA_KEY_MGMT_SAE_EXT_KEY :: u32 where "WPA_KEY_MGMT_SAE_EXT_KEY \<equiv> 0x4000000"
abbreviation (input) WPA_KEY_MGMT_FT_SAE_EXT_KEY :: u32 where "WPA_KEY_MGMT_FT_SAE_EXT_KEY \<equiv> 0x8000000"
abbreviation (input) WPA_KEY_MGMT_IEEE8021X_SHA384 :: u32 where "WPA_KEY_MGMT_IEEE8021X_SHA384 \<equiv> 0x10000000"

definition wpa_key_mgmt_wpa_ieee8021x :: "u32 \<Rightarrow> bool" where
  "wpa_key_mgmt_wpa_ieee8021x akm \<longleftrightarrow>
     akm AND (WPA_KEY_MGMT_IEEE8021X OR WPA_KEY_MGMT_FT_IEEE8021X OR WPA_KEY_MGMT_FT_IEEE8021X_SHA384 OR
              WPA_KEY_MGMT_CCKM OR WPA_KEY_MGMT_OSEN OR WPA_KEY_MGMT_IEEE8021X_SHA256 OR
              WPA_KEY_MGMT_IEEE8021X_SUITE_B OR WPA_KEY_MGMT_IEEE8021X_SUITE_B_192 OR WPA_KEY_MGMT_FILS_SHA256 OR
              WPA_KEY_MGMT_FILS_SHA384 OR WPA_KEY_MGMT_FT_FILS_SHA256 OR WPA_KEY_MGMT_FT_FILS_SHA384 OR
              WPA_KEY_MGMT_IEEE8021X_SHA384) \<noteq> 0"

definition wpa_key_mgmt_wpa_psk_no_sae :: "u32 \<Rightarrow> bool" where
  "wpa_key_mgmt_wpa_psk_no_sae akm \<longleftrightarrow>
     akm AND (WPA_KEY_MGMT_PSK OR WPA_KEY_MGMT_FT_PSK OR WPA_KEY_MGMT_PSK_SHA256) \<noteq> 0"

definition wpa_key_mgmt_wpa_psk :: "u32 \<Rightarrow> bool" where
  "wpa_key_mgmt_wpa_psk akm \<longleftrightarrow>
     akm AND (WPA_KEY_MGMT_PSK OR WPA_KEY_MGMT_FT_PSK OR WPA_KEY_MGMT_PSK_SHA256 OR WPA_KEY_MGMT_SAE OR
              WPA_KEY_MGMT_SAE_EXT_KEY OR WPA_KEY_MGMT_FT_SAE OR WPA_KEY_MGMT_FT_SAE_EXT_KEY) \<noteq> 0"

definition wpa_key_mgmt_ft :: "u32 \<Rightarrow> bool" where
  "wpa_key_mgmt_ft akm \<longleftrightarrow>
     akm AND (WPA_KEY_MGMT_FT_PSK OR WPA_KEY_MGMT_FT_IEEE8021X OR WPA_KEY_MGMT_FT_IEEE8021X_SHA384 OR
              WPA_KEY_MGMT_FT_SAE OR WPA_KEY_MGMT_FT_SAE_EXT_KEY OR WPA_KEY_MGMT_FT_FILS_SHA256 OR
              WPA_KEY_MGMT_FT_FILS_SHA384) \<noteq> 0"

definition wpa_key_mgmt_sae :: "u32 \<Rightarrow> bool" where
  "wpa_key_mgmt_sae akm \<longleftrightarrow>
     akm AND (WPA_KEY_MGMT_SAE OR WPA_KEY_MGMT_SAE_EXT_KEY OR WPA_KEY_MGMT_FT_SAE OR WPA_KEY_MGMT_FT_SAE_EXT_KEY) \<noteq> 0"

definition wpa_key_mgmt_sae_ext_key :: "u32 \<Rightarrow> bool" where
  "wpa_key_mgmt_sae_ext_key akm \<longleftrightarrow> akm AND (WPA_KEY_MGMT_SAE_EXT_KEY OR WPA_KEY_MGMT_FT_SAE_EXT_KEY) \<noteq> 0"

definition wpa_key_mgmt_fils :: "u32 \<Rightarrow> bool" where
  "wpa_key_mgmt_fils akm \<longleftrightarrow>
     akm AND (WPA_KEY_MGMT_FILS_SHA256 OR WPA_KEY_MGMT_FILS_SHA384 OR WPA_KEY_MGMT_FT_FILS_SHA256 OR
              WPA_KEY_MGMT_FT_FILS_SHA384) \<noteq> 0"

definition wpa_key_mgmt_sha256 :: "u32 \<Rightarrow> bool" where
  "wpa_key_mgmt_sha256 akm \<longleftrightarrow>
     akm AND (WPA_KEY_MGMT_FT_IEEE8021X OR WPA_KEY_MGMT_PSK_SHA256 OR WPA_KEY_MGMT_IEEE8021X_SHA256 OR
              WPA_KEY_MGMT_SAE OR WPA_KEY_MGMT_FT_SAE OR WPA_KEY_MGMT_OSEN OR WPA_KEY_MGMT_IEEE8021X_SUITE_B OR
              WPA_KEY_MGMT_FILS_SHA256 OR WPA_KEY_MGMT_FT_FILS_SHA256) \<noteq> 0"

definition wpa_key_mgmt_sha384 :: "u32 \<Rightarrow> bool" where
  "wpa_key_mgmt_sha384 akm \<longleftrightarrow>
     akm AND (WPA_KEY_MGMT_IEEE8021X_SUITE_B_192 OR WPA_KEY_MGMT_FT_IEEE8021X_SHA384 OR WPA_KEY_MGMT_FILS_SHA384 OR
              WPA_KEY_MGMT_FT_FILS_SHA384 OR WPA_KEY_MGMT_IEEE8021X_SHA384) \<noteq> 0"

definition wpa_key_mgmt_suite_b :: "u32 \<Rightarrow> bool" where
  "wpa_key_mgmt_suite_b akm \<longleftrightarrow>
     akm AND (WPA_KEY_MGMT_IEEE8021X_SUITE_B OR WPA_KEY_MGMT_IEEE8021X_SUITE_B_192) \<noteq> 0"

lemmas akm_defs = wpa_key_mgmt_wpa_ieee8021x_def wpa_key_mgmt_wpa_psk_no_sae_def wpa_key_mgmt_wpa_psk_def wpa_key_mgmt_ft_def
  wpa_key_mgmt_sae_def wpa_key_mgmt_sae_ext_key_def wpa_key_mgmt_fils_def wpa_key_mgmt_sha256_def wpa_key_mgmt_sha384_def
  wpa_key_mgmt_suite_b_def

section \<open>Lengths and algorithms that go with a key management suite\<close>

definition wpa_kck_len :: "u32 \<Rightarrow> nat \<Rightarrow> nat" where
  "wpa_kck_len akmp pmk_len =
     (if akmp \<in> {WPA_KEY_MGMT_IEEE8021X_SUITE_B_192, WPA_KEY_MGMT_IEEE8021X_SHA384, WPA_KEY_MGMT_FT_IEEE8021X_SHA384} then 24
      else if akmp \<in> {WPA_KEY_MGMT_FILS_SHA256, WPA_KEY_MGMT_FT_FILS_SHA256, WPA_KEY_MGMT_FILS_SHA384,
                      WPA_KEY_MGMT_FT_FILS_SHA384} then 0
      else if akmp \<in> {WPA_KEY_MGMT_DPP, WPA_KEY_MGMT_OWE, WPA_KEY_MGMT_SAE_EXT_KEY, WPA_KEY_MGMT_FT_SAE_EXT_KEY}
           then pmk_len div 2
      else 16)"

definition wpa_kek_len :: "u32 \<Rightarrow> nat \<Rightarrow> nat" where
  "wpa_kek_len akmp pmk_len =
     (if akmp \<in> {WPA_KEY_MGMT_FILS_SHA384, WPA_KEY_MGMT_FT_FILS_SHA384} then 64
      else if akmp \<in> {WPA_KEY_MGMT_IEEE8021X_SUITE_B_192, WPA_KEY_MGMT_FILS_SHA256, WPA_KEY_MGMT_FT_FILS_SHA256,
                      WPA_KEY_MGMT_FT_IEEE8021X_SHA384, WPA_KEY_MGMT_IEEE8021X_SHA384} then 32
      else if akmp \<in> {WPA_KEY_MGMT_DPP, WPA_KEY_MGMT_OWE, WPA_KEY_MGMT_SAE_EXT_KEY, WPA_KEY_MGMT_FT_SAE_EXT_KEY}
           then (if pmk_len \<le> 32 then 16 else 32)
      else 16)"

definition wpa_mic_len :: "u32 \<Rightarrow> nat \<Rightarrow> nat" where
  "wpa_mic_len akmp pmk_len =
     (if akmp \<in> {WPA_KEY_MGMT_IEEE8021X_SUITE_B_192, WPA_KEY_MGMT_FT_IEEE8021X_SHA384, WPA_KEY_MGMT_IEEE8021X_SHA384} then 24
      else if akmp \<in> {WPA_KEY_MGMT_FILS_SHA256, WPA_KEY_MGMT_FILS_SHA384, WPA_KEY_MGMT_FT_FILS_SHA256,
                      WPA_KEY_MGMT_FT_FILS_SHA384} then 0
      else if akmp \<in> {WPA_KEY_MGMT_DPP, WPA_KEY_MGMT_OWE, WPA_KEY_MGMT_SAE_EXT_KEY, WPA_KEY_MGMT_FT_SAE_EXT_KEY}
           then pmk_len div 2
      else 16)"

definition wpa_use_akm_defined :: "u32 \<Rightarrow> bool" where
  "wpa_use_akm_defined akmp \<longleftrightarrow>
     akmp \<in> {WPA_KEY_MGMT_OSEN, WPA_KEY_MGMT_OWE, WPA_KEY_MGMT_DPP, WPA_KEY_MGMT_FT_IEEE8021X_SHA384,
             WPA_KEY_MGMT_IEEE8021X_SHA384} \<or>
     wpa_key_mgmt_sae akmp \<or> wpa_key_mgmt_suite_b akmp \<or> wpa_key_mgmt_fils akmp"

definition wpa_use_cmac :: "u32 \<Rightarrow> bool" where
  "wpa_use_cmac akmp \<longleftrightarrow>
     akmp \<in> {WPA_KEY_MGMT_OSEN, WPA_KEY_MGMT_OWE, WPA_KEY_MGMT_DPP} \<or> wpa_key_mgmt_ft akmp \<or>
     wpa_key_mgmt_sha256 akmp \<or> (wpa_key_mgmt_sae akmp \<and> \<not> wpa_key_mgmt_sae_ext_key akmp) \<or> wpa_key_mgmt_suite_b akmp"

definition wpa_use_aes_key_wrap :: "u32 \<Rightarrow> bool" where
  "wpa_use_aes_key_wrap akmp \<longleftrightarrow>
     akmp \<in> {WPA_KEY_MGMT_OSEN, WPA_KEY_MGMT_OWE, WPA_KEY_MGMT_DPP, WPA_KEY_MGMT_IEEE8021X_SHA384} \<or>
     wpa_key_mgmt_ft akmp \<or> wpa_key_mgmt_sha256 akmp \<or> wpa_key_mgmt_sae akmp \<or> wpa_key_mgmt_suite_b akmp"

text \<open>The field of the MIC in a frame has the length of the key confirmation key.\<close>

lemma mic_len_eq_kck_len: "wpa_mic_len akmp n = wpa_kck_len akmp n"
  by (auto simp: wpa_mic_len_def wpa_kck_len_def)

end
