(* ===== verification/Pmksa_Cache.thy ===== *)
theory Pmksa_Cache
  imports Wpa_Defs Common Linked_Lists
begin

text \<open>
  The PMKSA cache of the authenticator, \<open>src/ap/pmksa_cache_auth.c\<close>: pairwise master keys with
  their identifiers, on a list ordered by expiration and on hash chains by the first octet of the
  identifier.

  The state is the cache structure with the store of the entries. Calls of the free callback and
  of the event loop are recorded in \<open>log\<close>. Time, the allocator and the derivation of an
  identifier (keyed hashes of a cryptographic library) are parameters.
\<close>

section \<open>Data\<close>

definition pmksa_cache_max_entries :: int where
  "pmksa_cache_max_entries = 1024"

definition dot11RSNAConfigPMKLifetime :: int where
  "dot11RSNAConfigPMKLifetime = 43200"

definition PMKID_LEN :: nat where
  "PMKID_LEN = 16"

definition PMK_LEN_MAX :: nat where
  "PMK_LEN_MAX = 64"

definition WPA_KCK_MAX_LEN :: nat where
  "WPA_KCK_MAX_LEN = 32"

record vlan_description =
  notempty :: bool
  untagged :: int
  tagged :: "int list"

text \<open>
  The arrays \<open>pmk\<close> and \<open>kck\<close> of an entry are the lists of their used octets, so that the length
  fields are the lengths of the lists; a list for \<open>radius_class\<close> likewise.
\<close>

record pmksa_entry =
  nxt :: ptr
  hnext :: ptr
  pmkid :: bytes
  pmk :: bytes
  kck :: bytes
  expiration :: int
  akmp :: u32
  spa :: mac
  identity :: "bytes option"
  cui :: "bytes option"
  radius_class :: "bytes list option"
  eap_type_authsrv :: byte
  vlan_desc :: "vlan_description option"
  opportunistic :: bool
  acct_multi_session_id :: u64

definition zero_entry :: pmksa_entry where
  "zero_entry = \<lparr>nxt = None, hnext = None, pmkid = replicate 16 0, pmk = [], kck = [], expiration = 0,
     akmp = 0, spa = replicate 6 0, identity = None, cui = None, radius_class = None, eap_type_authsrv = 0,
     vlan_desc = None, opportunistic = False, acct_multi_session_id = 0\<rparr>"

datatype pmksa_event = FreeCb nat | CancelExpire | RegisterExpire int

record pmksa_cache =
  heap :: "pmksa_entry store"
  pmkid_tab :: "byte \<Rightarrow> ptr"
  pmksa :: ptr
  pmksa_count :: int
  free_cb :: bool
  log :: "pmksa_event list"

definition PMKID_HASH :: "bytes \<Rightarrow> byte" where
  "PMKID_HASH i = (i ! 0) AND 0x7f"

text \<open>What the EAPOL machine of a station contributes to an entry, and takes from it.\<close>

record eapol_data =
  ed_identity :: "bytes option"
  ed_radius_cui :: "bytes option"
  ed_radius_class :: "bytes list option"
  ed_eap_type_authsrv :: byte
  ed_vlan_desc :: "vlan_description option"
  ed_acct_multi_session_id :: u64

text \<open>
  The derivations of an identifier: the general one, and the two of Suite B, which a build without
  Suite B leaves out (no identifier is written).
\<close>

record pmkid_fns =
  rsn_pmkid :: "bytes \<Rightarrow> mac \<Rightarrow> mac \<Rightarrow> u32 \<Rightarrow> bytes"
  rsn_pmkid_suite_b :: "bytes \<Rightarrow> mac \<Rightarrow> mac \<Rightarrow> bytes option"
  rsn_pmkid_suite_b_192 :: "bytes \<Rightarrow> mac \<Rightarrow> mac \<Rightarrow> bytes option"

section \<open>Removing entries\<close>

definition logged :: "pmksa_event \<Rightarrow> pmksa_cache \<Rightarrow> pmksa_cache" where
  "logged e c = c\<lparr>log := log c @ [e]\<rparr>"

text \<open>
  Unlinking by address. \<open>prev\<close> is null when the entry is the first of its chain; when the entry is
  not on the chain nothing happens.
\<close>

definition unlink_hash :: "pmksa_cache \<Rightarrow> nat \<Rightarrow> pmksa_cache option" where
  "unlink_hash c e =
     do {
       n \<leftarrow> heap c e;
       let hash = PMKID_HASH (pmkid n);
       r \<leftarrow> chain_find_prev (heap c) hnext (\<lambda>b _. b = e) None (pmkid_tab c hash);
       (case r of
          None \<Rightarrow> Some c
        | Some None \<Rightarrow> Some (c\<lparr>pmkid_tab := (pmkid_tab c)(hash := hnext n)\<rparr>)
        | Some (Some q) \<Rightarrow> do { h \<leftarrow> wr (heap c) q (\<lambda>m. m\<lparr>hnext := hnext n\<rparr>); Some (c\<lparr>heap := h\<rparr>) })
     }"

definition unlink_list :: "pmksa_cache \<Rightarrow> nat \<Rightarrow> pmksa_cache option" where
  "unlink_list c e =
     do {
       n \<leftarrow> heap c e;
       r \<leftarrow> chain_find_prev (heap c) nxt (\<lambda>b _. b = e) None (pmksa c);
       (case r of
          None \<Rightarrow> Some c
        | Some None \<Rightarrow> Some (c\<lparr>pmksa := nxt n\<rparr>)
        | Some (Some q) \<Rightarrow> do { h \<leftarrow> wr (heap c) q (\<lambda>m. m\<lparr>nxt := nxt n\<rparr>); Some (c\<lparr>heap := h\<rparr>) })
     }"

definition pmksa_cache_free_entry :: "pmksa_cache \<Rightarrow> nat \<Rightarrow> pmksa_cache option" where
  "pmksa_cache_free_entry c e =
     do {
       let c = c\<lparr>pmksa_count := pmksa_count c - 1\<rparr>;
       let c = (if free_cb c then logged (FreeCb e) c else c);
       c \<leftarrow> unlink_hash c e;
       c \<leftarrow> unlink_list c e;
       Some (c\<lparr>heap := (heap c)(e := None)\<rparr>)
     }"

partial_function (option) pmksa_cache_auth_flush :: "pmksa_cache \<Rightarrow> pmksa_cache option" where
  "pmksa_cache_auth_flush c =
     (case pmksa c of
        None \<Rightarrow> Some c
      | Some e \<Rightarrow> do { c \<leftarrow> pmksa_cache_free_entry c e; pmksa_cache_auth_flush c })"

text \<open>The timeout is an \<open>int\<close>: the difference of the times is cut to 32 bits.\<close>

definition pmksa_cache_set_expiration :: "int \<Rightarrow> pmksa_cache \<Rightarrow> pmksa_cache option" where
  "pmksa_cache_set_expiration now c =
     (let c = logged CancelExpire c
      in case pmksa c of
           None \<Rightarrow> Some c
         | Some e \<Rightarrow> do {
             n \<leftarrow> heap c e;
             let sec = sint (word_of_int (expiration n - now) :: u32);
             Some (logged (RegisterExpire (max 0 sec + 1)) c)
           })"

partial_function (option) expire_loop :: "int \<Rightarrow> pmksa_cache \<Rightarrow> pmksa_cache option" where
  "expire_loop now c =
     (case pmksa c of
        None \<Rightarrow> Some c
      | Some e \<Rightarrow> do {
          n \<leftarrow> heap c e;
          if expiration n \<le> now then do { c \<leftarrow> pmksa_cache_free_entry c e; expire_loop now c } else Some c
        })"

definition pmksa_cache_expire :: "int \<Rightarrow> pmksa_cache \<Rightarrow> pmksa_cache option" where
  "pmksa_cache_expire now c = do { c \<leftarrow> expire_loop now c; pmksa_cache_set_expiration now c }"

section \<open>Adding entries\<close>

text \<open>\<open>room n\<close> says whether the allocator has \<open>n\<close> octets; without room a copied part is left out.\<close>

definition dup :: "(nat \<Rightarrow> bool) \<Rightarrow> bytes option \<Rightarrow> bytes option" where
  "dup room x = (case x of Some b \<Rightarrow> if room (length b) then Some b else None | None \<Rightarrow> None)"

definition radius_copy_class :: "(nat \<Rightarrow> bool) \<Rightarrow> bytes list option \<Rightarrow> bytes list option \<Rightarrow> bytes list option" where
  "radius_copy_class room dst src =
     (case src of
        None \<Rightarrow> dst
      | Some attrs \<Rightarrow>
          if room (16 * length attrs) then Some (takeWhile (\<lambda>a. room (length a)) attrs) else None)"

definition pmksa_cache_from_eapol_data :: "(nat \<Rightarrow> bool) \<Rightarrow> pmksa_entry \<Rightarrow> eapol_data option \<Rightarrow> pmksa_entry" where
  "pmksa_cache_from_eapol_data room e eapol =
     (case eapol of
        None \<Rightarrow> e
      | Some d \<Rightarrow>
          e\<lparr>identity := (if ed_identity d \<noteq> None then dup room (ed_identity d) else identity e),
            cui := (if ed_radius_cui d \<noteq> None then dup room (ed_radius_cui d) else cui e),
            radius_class := radius_copy_class room (radius_class e) (ed_radius_class d),
            eap_type_authsrv := ed_eap_type_authsrv d,
            vlan_desc := (case ed_vlan_desc d of
                            Some v \<Rightarrow> if notempty v \<and> room 136 then Some v else None
                          | None \<Rightarrow> None),
            acct_multi_session_id := ed_acct_multi_session_id d\<rparr>)"

text \<open>
  The way back. \<open>ap_sta_set_vlan\<close> is a parameter that says what the station's VLAN becomes.
\<close>

definition pmksa_cache_to_eapol_data ::
  "(nat \<Rightarrow> bool) \<Rightarrow> (vlan_description option \<Rightarrow> vlan_description option) \<Rightarrow>
   pmksa_entry option \<Rightarrow> eapol_data option \<Rightarrow> eapol_data option" where
  "pmksa_cache_to_eapol_data room ap_sta_set_vlan entry eapol =
     (case (entry, eapol) of
        (Some e, Some d) \<Rightarrow>
          Some (d\<lparr>ed_identity := (if identity e \<noteq> None then dup room (identity e) else ed_identity d),
                  ed_radius_cui := (if cui e \<noteq> None then dup room (cui e) else ed_radius_cui d),
                  ed_radius_class := radius_copy_class room None (radius_class e),
                  ed_eap_type_authsrv := eap_type_authsrv e,
                  ed_vlan_desc := ap_sta_set_vlan (vlan_desc e),
                  ed_acct_multi_session_id := acct_multi_session_id e\<rparr>)
      | _ \<Rightarrow> eapol)"

text \<open>The list part of linking: the new node behind the place the walk found.\<close>

definition link_list :: "pmksa_cache \<Rightarrow> nat \<Rightarrow> ptr \<Rightarrow> pmksa_cache option" where
  "link_list c e prev =
     (case prev of
        None \<Rightarrow> do { h \<leftarrow> wr (heap c) e (\<lambda>m. m\<lparr>nxt := pmksa c\<rparr>); Some (c\<lparr>heap := h, pmksa := Some e\<rparr>) }
      | Some q \<Rightarrow> do {
          qn \<leftarrow> heap c q;
          h \<leftarrow> wr (heap c) e (\<lambda>m. m\<lparr>nxt := nxt qn\<rparr>);
          h \<leftarrow> wr h q (\<lambda>m. m\<lparr>nxt := Some e\<rparr>);
          Some (c\<lparr>heap := h\<rparr>)
        })"

definition pmksa_cache_link_entry :: "int \<Rightarrow> pmksa_cache \<Rightarrow> nat \<Rightarrow> pmksa_cache option" where
  "pmksa_cache_link_entry now c e =
     do {
       n \<leftarrow> heap c e;
       prev \<leftarrow> chain_walk (heap c) nxt (\<lambda>_ m. expiration m > expiration n) None (pmksa c);
       c \<leftarrow> link_list c e prev;
       let hash = PMKID_HASH (pmkid n);
       h \<leftarrow> wr (heap c) e (\<lambda>m. m\<lparr>hnext := pmkid_tab c hash\<rparr>);
       let c = c\<lparr>heap := h, pmkid_tab := (pmkid_tab c)(hash := Some e), pmksa_count := pmksa_count c + 1\<rparr>;
       if prev = None then pmksa_cache_set_expiration now c else Some c
     }"

text \<open>
  A new entry; null when the key is too long, when a Suite B key management has no KCK, or without
  room. The allocator returns the address of a new entry.
\<close>

definition new_pmkid :: "pmkid_fns \<Rightarrow> bytes \<Rightarrow> bytes option \<Rightarrow> bytes option \<Rightarrow> mac \<Rightarrow> mac \<Rightarrow> u32 \<Rightarrow> bytes" where
  "new_pmkid fns key i kk aa sp akm =
     (case i of
        Some b \<Rightarrow> b
      | None \<Rightarrow>
          if akm = WPA_KEY_MGMT_IEEE8021X_SUITE_B_192
          then (case rsn_pmkid_suite_b_192 fns (case kk of Some k \<Rightarrow> k | None \<Rightarrow> []) aa sp of
                  Some b \<Rightarrow> b | None \<Rightarrow> pmkid zero_entry)
          else if wpa_key_mgmt_suite_b akm
          then (case rsn_pmkid_suite_b fns (case kk of Some k \<Rightarrow> k | None \<Rightarrow> []) aa sp of
                  Some b \<Rightarrow> b | None \<Rightarrow> pmkid zero_entry)
          else rsn_pmkid fns key aa sp akm)"

definition pmksa_cache_auth_create_entry ::
  "pmkid_fns \<Rightarrow> (pmksa_entry store \<Rightarrow> ptr) \<Rightarrow> (nat \<Rightarrow> bool) \<Rightarrow> int \<Rightarrow> pmksa_cache \<Rightarrow> bytes \<Rightarrow> bytes option \<Rightarrow>
   bytes option \<Rightarrow> mac \<Rightarrow> mac \<Rightarrow> int \<Rightarrow> eapol_data option \<Rightarrow> u32 \<Rightarrow> pmksa_cache \<times> ptr" where
  "pmksa_cache_auth_create_entry fns alloc room now c key i kk aa sp session_timeout eapol akm =
     (if length key > PMK_LEN_MAX then (c, None)
      else if wpa_key_mgmt_suite_b akm \<and> kk = None then (c, None)
      else case alloc (heap c) of
        None \<Rightarrow> (c, None)
      | Some a \<Rightarrow>
          let e = zero_entry
                \<lparr>pmk := key,
                 kck := (case kk of Some k \<Rightarrow> if k \<noteq> [] \<and> length k < WPA_KCK_MAX_LEN then k else [] | None \<Rightarrow> []),
                 pmkid := new_pmkid fns key i kk aa sp akm,
                 expiration := now + (if session_timeout > 0 then session_timeout else dot11RSNAConfigPMKLifetime),
                 akmp := akm, spa := sp\<rparr>;
              e = pmksa_cache_from_eapol_data room e eapol
          in (c\<lparr>heap := (heap c)(a \<mapsto> e)\<rparr>, Some a))"

section \<open>Looking up\<close>

definition pmksa_cache_auth_get :: "pmksa_cache \<Rightarrow> mac option \<Rightarrow> bytes option \<Rightarrow> ptr option" where
  "pmksa_cache_auth_get c sp i =
     (let addr_ok = (\<lambda>n. case sp of None \<Rightarrow> True | Some a \<Rightarrow> ether_addr_equal (spa n) a)
      in case i of
           Some b \<Rightarrow>
             chain_find (heap c) hnext (\<lambda>_ n. addr_ok n \<and> take PMKID_LEN (pmkid n) = take PMKID_LEN b)
               (pmkid_tab c (PMKID_HASH b))
         | None \<Rightarrow> chain_find (heap c) nxt (\<lambda>_ n. addr_ok n) (pmksa c))"

text \<open>
  Opportunistic key caching: the identifier an entry would have with this authenticator. A Suite B
  derivation that writes nothing leaves the compared buffer undefined.
\<close>

definition okc_pmkid :: "pmkid_fns \<Rightarrow> mac \<Rightarrow> mac \<Rightarrow> pmksa_entry \<Rightarrow> bytes option" where
  "okc_pmkid fns aa sp n =
     (if wpa_key_mgmt_sae (akmp n) \<or> wpa_key_mgmt_fils (akmp n) then Some (pmkid n)
      else if akmp n = WPA_KEY_MGMT_IEEE8021X_SUITE_B_192 \<and> kck n \<noteq> [] then rsn_pmkid_suite_b_192 fns (kck n) aa sp
      else if wpa_key_mgmt_suite_b (akmp n) \<and> kck n \<noteq> [] then rsn_pmkid_suite_b fns (kck n) aa sp
      else Some (rsn_pmkid fns (pmk n) aa sp (akmp n)))"

partial_function (option) okc_find :: "pmkid_fns \<Rightarrow> pmksa_entry store \<Rightarrow> mac \<Rightarrow> mac \<Rightarrow> bytes \<Rightarrow> ptr \<Rightarrow> ptr option" where
  "okc_find fns h aa sp i p =
     (case p of
        None \<Rightarrow> Some None
      | Some a \<Rightarrow> do {
          n \<leftarrow> h a;
          if \<not> ether_addr_equal (spa n) sp then okc_find fns h aa sp i (nxt n)
          else do {
            b \<leftarrow> okc_pmkid fns aa sp n;
            if take PMKID_LEN b = take PMKID_LEN i then Some (Some a) else okc_find fns h aa sp i (nxt n)
          }
        })"

definition pmksa_cache_get_okc :: "pmkid_fns \<Rightarrow> pmksa_cache \<Rightarrow> mac \<Rightarrow> mac \<Rightarrow> bytes \<Rightarrow> ptr option" where
  "pmksa_cache_get_okc fns c aa sp i = okc_find fns (heap c) aa sp i (pmksa c)"

section \<open>Adding to the cache\<close>

definition pmksa_cache_auth_add_entry :: "int \<Rightarrow> pmksa_cache \<Rightarrow> ptr \<Rightarrow> (pmksa_cache \<times> int) option" where
  "pmksa_cache_auth_add_entry now c entry =
     (case entry of
        None \<Rightarrow> Some (c, -1)
      | Some e \<Rightarrow> do {
          n \<leftarrow> heap c e;
          pos \<leftarrow> pmksa_cache_auth_get c (Some (spa n)) None;
          c \<leftarrow> (case pos of None \<Rightarrow> Some c | Some p \<Rightarrow> pmksa_cache_free_entry c p);
          c \<leftarrow> (if pmksa_count c \<ge> pmksa_cache_max_entries
                then (case pmksa c of None \<Rightarrow> Some c | Some p \<Rightarrow> pmksa_cache_free_entry c p) else Some c);
          c \<leftarrow> pmksa_cache_link_entry now c e;
          Some (c, 0)
        })"

definition pmksa_cache_auth_add ::
  "pmkid_fns \<Rightarrow> (pmksa_entry store \<Rightarrow> ptr) \<Rightarrow> (nat \<Rightarrow> bool) \<Rightarrow> int \<Rightarrow> pmksa_cache \<Rightarrow> bytes \<Rightarrow> bytes option \<Rightarrow>
   bytes option \<Rightarrow> mac \<Rightarrow> mac \<Rightarrow> int \<Rightarrow> eapol_data option \<Rightarrow> u32 \<Rightarrow> (pmksa_cache \<times> ptr) option" where
  "pmksa_cache_auth_add fns alloc room now c key i kk aa sp session_timeout eapol akm =
     (let (c, entry) = pmksa_cache_auth_create_entry fns alloc room now c key i kk aa sp session_timeout eapol akm
      in do {
           (c, r) \<leftarrow> pmksa_cache_auth_add_entry now c entry;
           Some (c, if r < 0 then None else entry)
         })"

text \<open>The entry of \<open>pmksa_cache_add_okc\<close>: the old one under a new identifier.\<close>

definition okc_entry :: "(nat \<Rightarrow> bool) \<Rightarrow> pmksa_entry \<Rightarrow> bytes \<Rightarrow> pmksa_entry" where
  "okc_entry room old i =
     zero_entry\<lparr>pmkid := i, pmk := pmk old, expiration := expiration old, akmp := akmp old, spa := spa old,
       opportunistic := True, identity := dup room (identity old), cui := dup room (cui old),
       radius_class := radius_copy_class room None (radius_class old), eap_type_authsrv := eap_type_authsrv old,
       vlan_desc := (case vlan_desc old of Some v \<Rightarrow> if room 136 then Some v else None | None \<Rightarrow> None)\<rparr>"

definition pmksa_cache_add_okc ::
  "(pmksa_entry store \<Rightarrow> ptr) \<Rightarrow> (nat \<Rightarrow> bool) \<Rightarrow> int \<Rightarrow> pmksa_cache \<Rightarrow> pmksa_entry \<Rightarrow> bytes \<Rightarrow> (pmksa_cache \<times> ptr) option" where
  "pmksa_cache_add_okc alloc room now c old i =
     (case alloc (heap c) of
        None \<Rightarrow> Some (c, None)
      | Some a \<Rightarrow> do {
          c \<leftarrow> pmksa_cache_link_entry now (c\<lparr>heap := (heap c)(a \<mapsto> okc_entry room old i)\<rparr>) a;
          Some (c, Some a)
        })"

section \<open>The end of the cache and RADIUS disconnection\<close>

partial_function (option) deinit_loop :: "pmksa_entry store \<Rightarrow> ptr \<Rightarrow> pmksa_entry store option" where
  "deinit_loop h p =
     (case p of None \<Rightarrow> Some h | Some e \<Rightarrow> do { n \<leftarrow> h e; deinit_loop (h(e := None)) (nxt n) })"

definition pmksa_cache_auth_deinit :: "pmksa_cache option \<Rightarrow> pmksa_cache option option" where
  "pmksa_cache_auth_deinit pc =
     (case pc of
        None \<Rightarrow> Some None
      | Some c \<Rightarrow> do {
          h \<leftarrow> deinit_loop (heap c) (pmksa c);
          Some (Some (logged CancelExpire
            (c\<lparr>heap := h, pmksa_count := 0, pmksa := None, pmkid_tab := (\<lambda>_. None)\<rparr>)))
        })"

definition pmksa_cache_auth_init :: "bool \<Rightarrow> bool \<Rightarrow> pmksa_cache option" where
  "pmksa_cache_auth_init room cb =
     (if room then Some \<lparr>heap = (\<lambda>_. None), pmkid_tab = (\<lambda>_. None), pmksa = None, pmksa_count = 0, free_cb = cb, log = []\<rparr>
      else None)"

record das_attrs =
  sta_addr :: "mac option"
  user_name :: "bytes option"
  das_acct_session_id :: "bytes option"
  das_acct_multi_session_id :: "bytes option"
  das_cui :: "bytes option"

text \<open>\<open>%016llX\<close>: sixteen upper-case hexadecimal digits, as octets.\<close>

definition hex_upper :: "nat \<Rightarrow> byte" where
  "hex_upper d = (if d < 10 then of_nat (48 + d) else of_nat (55 + d))"

definition hex16 :: "u64 \<Rightarrow> bytes" where
  "hex16 w = map (\<lambda>i. hex_upper (unat (drop_bit (4 * (15 - i)) w AND 15))) [0..<16]"

text \<open>An entry matches if at least one attribute is given and every given one agrees.\<close>

definition das_attr_match :: "pmksa_entry \<Rightarrow> das_attrs \<Rightarrow> int" where
  "das_attr_match e attr =
     (if (case sta_addr attr of Some a \<Rightarrow> \<not> ether_addr_equal a (spa e) | None \<Rightarrow> False) then 0
      else if (case das_acct_multi_session_id attr of
                 Some b \<Rightarrow> length b \<noteq> 16 \<or> b \<noteq> hex16 (acct_multi_session_id e) | None \<Rightarrow> False) then 0
      else if (case das_cui attr of Some b \<Rightarrow> cui e \<noteq> Some b | None \<Rightarrow> False) then 0
      else if (case user_name attr of Some b \<Rightarrow> identity e \<noteq> Some b | None \<Rightarrow> False) then 0
      else (if sta_addr attr \<noteq> None then 1 else 0) + (if das_acct_multi_session_id attr \<noteq> None then 1 else 0) +
           (if das_cui attr \<noteq> None then 1 else 0) + (if user_name attr \<noteq> None then 1 else 0))"

partial_function (option) das_loop :: "das_attrs \<Rightarrow> pmksa_cache \<Rightarrow> ptr \<Rightarrow> int \<Rightarrow> (pmksa_cache \<times> int) option" where
  "das_loop attr c p found =
     (case p of
        None \<Rightarrow> Some (c, found)
      | Some e \<Rightarrow> do {
          n \<leftarrow> heap c e;
          if das_attr_match n attr \<noteq> 0
          then do { c \<leftarrow> pmksa_cache_free_entry c e; das_loop attr c (nxt n) (found + 1) }
          else das_loop attr c (nxt n) found
        })"

definition pmksa_cache_auth_radius_das_disconnect :: "pmksa_cache \<Rightarrow> das_attrs \<Rightarrow> (pmksa_cache \<times> int) option" where
  "pmksa_cache_auth_radius_das_disconnect c attr =
     (if das_acct_session_id attr \<noteq> None then Some (c, -1)
      else do {
        (c, found) \<leftarrow> das_loop attr c (pmksa c) 0;
        Some (c, if found \<noteq> 0 then 0 else -1)
      })"


section \<open>The structure of the cache and its abstraction\<close>

text \<open>What the cache says of an entry: the node without its links.\<close>

definition entry :: "pmksa_entry \<Rightarrow> pmksa_entry" where
  "entry n = n\<lparr>nxt := None, hnext := None\<rparr>"

definition entries :: "pmksa_cache \<Rightarrow> nat list \<Rightarrow> pmksa_entry list" where
  "entries c xs = map (\<lambda>a. entry (the (heap c a))) xs"

lemma pm_entry_sels [simp]:
  "pmkid (entry n) = pmkid n" "pmk (entry n) = pmk n" "kck (entry n) = kck n" "expiration (entry n) = expiration n"
  "akmp (entry n) = akmp n" "spa (entry n) = spa n" "identity (entry n) = identity n" "cui (entry n) = cui n"
  "acct_multi_session_id (entry n) = acct_multi_session_id n"
  by (simp_all add: entry_def)

lemma pm_entry_links [simp]:
  "entry (n\<lparr>nxt := p\<rparr>) = entry n" "entry (n\<lparr>hnext := p\<rparr>) = entry n" "entry (entry n) = entry n"
  by (simp_all add: entry_def)

lemma entry_eqD: "entry m = entry n \<Longrightarrow> pmkid m = pmkid n \<and> expiration m = expiration n \<and> spa m = spa n"
  by (metis pm_entry_sels(1,4,6))

text \<open>
  The invariant: the list and the hash chains hold the same entries, the counter counts them, the
  list is ordered by expiration, and identifiers and addresses have their lengths.
\<close>

definition entry_ok :: "pmksa_entry \<Rightarrow> bool" where
  "entry_ok e \<longleftrightarrow> length (pmkid e) = 16 \<and> length (spa e) = 6"

definition cache_ok :: "pmksa_cache \<Rightarrow> nat list \<Rightarrow> bool" where
  "cache_ok c xs \<longleftrightarrow>
     chain (heap c) nxt (pmksa c) xs \<and>
     indexed (heap c) hnext (\<lambda>n. PMKID_HASH (pmkid n)) (pmkid_tab c) (set xs) \<and>
     pmksa_count c = int (length xs) \<and>
     sorted (map expiration (entries c xs)) \<and> list_all entry_ok (entries c xs)"

lemma cache_okD:
  assumes "cache_ok c xs"
  shows "chain (heap c) nxt (pmksa c) xs"
    and "indexed (heap c) hnext (\<lambda>n. PMKID_HASH (pmkid n)) (pmkid_tab c) (set xs)"
    and "pmksa_count c = int (length xs)" and "sorted (map expiration (entries c xs))"
    and "list_all entry_ok (entries c xs)" and "distinct xs" and "a \<in> set xs \<Longrightarrow> \<exists>n. heap c a = Some n"
  using assms chain_distinct chain_dom unfolding cache_ok_def by fast+

interpretation ph: hash_link hnext "\<lambda>p n. n\<lparr>hnext := p\<rparr>" "\<lambda>n. PMKID_HASH (pmkid n)"
  by unfold_locales simp_all

interpretation pl: list_link nxt "\<lambda>p n. n\<lparr>nxt := p\<rparr>"
  by unfold_locales simp

lemma unlink_hash_ok:
  assumes "indexed (heap c) hnext (\<lambda>n. PMKID_HASH (pmkid n)) (pmkid_tab c) A" and "a \<in> A" and "heap c a = Some n"
  obtains h' t' where "unlink_hash c a = Some (c\<lparr>heap := h', pmkid_tab := t'\<rparr>)"
    "indexed h' hnext (\<lambda>n. PMKID_HASH (pmkid n)) t' (A - {a})" "same_view (\<lambda>n. (nxt n, entry n)) (heap c) h'"
proof -
  have "\<forall>x\<in>A. at (heap c) (\<lambda>b _. b = a) x \<longleftrightarrow> x = a" by simp
  with assms show thesis
  proof (cases rule: ph.unlink_sound)
    case head
    then have "unlink_hash c a = Some (c\<lparr>heap := heap c, pmkid_tab := (pmkid_tab c)(PMKID_HASH (pmkid n) := hnext n)\<rparr>)"
      using assms(3) by (simp add: unlink_hash_def)
    then show thesis by (rule that) (use head in simp_all)
  next
    case (inner x xn q qn)
    then have "unlink_hash c a = Some (c\<lparr>heap := (heap c)(q \<mapsto> qn\<lparr>hnext := hnext n\<rparr>), pmkid_tab := pmkid_tab c\<rparr>)"
      using assms(3) by (simp add: unlink_hash_def)
    then show thesis by (rule that) (use inner in \<open>auto simp: same_view_def\<close>)
  qed
qed

lemma unlink_list_ok:
  assumes "chain (heap c) nxt (pmksa c) xs" and "a \<in> set xs" and "heap c a = Some n"
  obtains h' l' where "unlink_list c a = Some (c\<lparr>heap := h', pmksa := l'\<rparr>)"
    "chain h' nxt l' (remove1 a xs)" "same_view (\<lambda>n. (hnext n, entry n)) (heap c) h'"
  using assms
proof (cases rule: pl.unlink_chain)
  case head
  then have "unlink_list c a = Some (c\<lparr>heap := heap c, pmksa := nxt n\<rparr>)"
    using assms(3) by (simp add: unlink_list_def)
  then show thesis by (rule that) (use head in simp_all)
next
  case (inner q qn)
  then have "unlink_list c a = Some (c\<lparr>heap := (heap c)(q \<mapsto> qn\<lparr>nxt := nxt n\<rparr>), pmksa := pmksa c\<rparr>)"
    using assms(3) by (simp add: unlink_list_def)
  then show thesis by (rule that) (use inner in \<open>auto simp: same_view_def\<close>)
qed

lemma entries_cong:
  "(\<And>b. b \<in> set xs \<Longrightarrow> map_option entry (heap c' b) = map_option entry (heap c b)) \<Longrightarrow>
     (\<And>b. b \<in> set xs \<Longrightarrow> \<exists>n. heap c b = Some n) \<Longrightarrow> entries c' xs = entries c xs"
  unfolding entries_def by (intro map_cong) (auto, fastforce)

lemma cache_ok_remove:
  assumes ok: "cache_ok c xs" and ch: "chain h' nxt l' (remove1 a xs)" and a: "a \<in> set xs"
    and ix: "indexed h' hnext (\<lambda>n. PMKID_HASH (pmkid n)) t' (set xs - {a})"
    and e: "\<And>b. b \<noteq> a \<Longrightarrow> map_option entry (h' b) = map_option entry (heap c b)"
  shows "cache_ok (c\<lparr>heap := h', pmkid_tab := t', pmksa := l', pmksa_count := pmksa_count c - 1, log := lg\<rparr>) (remove1 a xs)"
    and "entries (c\<lparr>heap := h'\<rparr>) (remove1 a xs) = entries c (remove1 a xs)"
proof -
  note D = cache_okD [OF ok]
  have rm: "set (remove1 a xs) = set xs - {a}" using D(6) by simp
  show en: "entries (c\<lparr>heap := h'\<rparr>) (remove1 a xs) = entries c (remove1 a xs)"
    using e D(7) rm by (intro entries_cong) auto
  have "sorted (map expiration (entries c (remove1 a xs)))"
    using D(4) by (simp add: entries_def comp_def sorted_map_remove1)
  moreover have "list_all entry_ok (entries c (remove1 a xs))"
    using D(5) rm by (auto simp: entries_def list_all_iff)
  moreover have "entries (c\<lparr>heap := h', pmkid_tab := t', pmksa := l', pmksa_count := k, log := lg\<rparr>) ys =
      entries (c\<lparr>heap := h'\<rparr>) ys" for k ys by (simp add: entries_def)
  ultimately show "cache_ok (c\<lparr>heap := h', pmkid_tab := t', pmksa := l', pmksa_count := pmksa_count c - 1, log := lg\<rparr>) (remove1 a xs)"
    using ch ix rm D(3) a en by (cases xs) (auto simp: cache_ok_def length_remove1 of_nat_diff simp del: remove1.simps)
qed


subsection \<open>Freeing an entry\<close>

text \<open>Two caches that agree on all entries but the freed one.\<close>

definition frees :: "nat \<Rightarrow> pmksa_cache \<Rightarrow> pmksa_cache \<Rightarrow> bool" where
  "frees a c c' \<longleftrightarrow> (\<forall>b. b \<noteq> a \<longrightarrow> map_option entry (heap c' b) = map_option entry (heap c b)) \<and>
     heap c' a = None \<and> free_cb c' = free_cb c \<and>
     log c' = log c @ (if free_cb c then [FreeCb a] else [])"

lemma free_entry_ok:
  assumes ok: "cache_ok c xs" and a: "a \<in> set xs"
  obtains c' where "pmksa_cache_free_entry c a = Some c'" "cache_ok c' (remove1 a xs)" "frees a c c'"
    "entries c' (remove1 a xs) = entries c (remove1 a xs)"
proof -
  note D = cache_okD [OF ok]
  obtain n where n: "heap c a = Some n" using D(7) a by blast
  let ?lg = "log c @ (if free_cb c then [FreeCb a] else [])"
  let ?c0 = "c\<lparr>pmksa_count := pmksa_count c - 1, log := ?lg\<rparr>"
  have c0: "(if free_cb c then logged (FreeCb a) (c\<lparr>pmksa_count := pmksa_count c - 1\<rparr>)
      else c\<lparr>pmksa_count := pmksa_count c - 1\<rparr>) = ?c0"
    by (simp add: logged_def)
  have ix0: "indexed (heap ?c0) hnext (\<lambda>n. PMKID_HASH (pmkid n)) (pmkid_tab ?c0) (set xs)" using D(2) by simp
  have n0: "heap ?c0 a = Some n" using n by simp
  obtain h1 t1 where 1: "unlink_hash ?c0 a = Some (?c0\<lparr>heap := h1, pmkid_tab := t1\<rparr>)"
    "indexed h1 hnext (\<lambda>n. PMKID_HASH (pmkid n)) t1 (set xs - {a})" "same_view (\<lambda>n. (nxt n, entry n)) (heap ?c0) h1"
    using unlink_hash_ok [OF ix0 a n0] .
  have 13: "same_view (\<lambda>n. (nxt n, entry n)) (heap c) h1" using 1(3) by simp
  let ?c1 = "?c0\<lparr>heap := h1, pmkid_tab := t1\<rparr>"
  obtain n1 where n1: "h1 a = Some n1" using same_view_dest [OF 13 n] by blast
  have n1': "heap ?c1 a = Some n1" using n1 by simp
  have ch1: "chain (heap ?c1) nxt (pmksa ?c1) xs" using same_view_chain [OF 13, of nxt] D(1) by simp
  obtain h2 l2 where 2: "unlink_list ?c1 a = Some (?c1\<lparr>heap := h2, pmksa := l2\<rparr>)"
    "chain h2 nxt l2 (remove1 a xs)" "same_view (\<lambda>n. (hnext n, entry n)) (heap ?c1) h2"
    using unlink_list_ok [OF ch1 a n1'] .
  have 23: "same_view (\<lambda>n. (hnext n, entry n)) h1 h2" using 2(3) by simp
  let ?h = "h2(a := None)"
  let ?c = "c\<lparr>heap := ?h, pmkid_tab := t1, pmksa := l2, pmksa_count := pmksa_count c - 1, log := ?lg\<rparr>"
  have run: "pmksa_cache_free_entry c a = Some ?c"
    using 1(1) 2(1) unfolding pmksa_cache_free_entry_def by (simp add: c0 Let_def)
  have nin: "a \<notin> set (remove1 a xs)" using D(6) by simp
  have ch: "chain ?h nxt l2 (remove1 a xs)" using 2(2) nin by simp
  have ix: "indexed ?h hnext (\<lambda>n. PMKID_HASH (pmkid n)) t1 (set xs - {a})"
  proof (rule indexed_upd_outside)
    show "indexed h2 hnext (\<lambda>n. PMKID_HASH (pmkid n)) t1 (set xs - {a})"
      using 23 _ 1(2) by (rule same_view_indexed) (auto dest: entry_eqD)
  qed simp
  have "same_view entry (heap c) h1" "same_view entry h1 h2"
    using same_view_weaken [OF 13, of entry] same_view_weaken [OF 23, of entry] by auto
  then have e: "map_option entry (?h b) = map_option entry (heap c b)" if "b \<noteq> a" for b
    using that same_view_trans by (fastforce simp: same_view_def)
  note rm = cache_ok_remove [OF ok ch a ix e]
  have "entries ?c (remove1 a xs) = entries (c\<lparr>heap := ?h\<rparr>) (remove1 a xs)" by (simp add: entries_def)
  also have "\<dots> = entries c (remove1 a xs)" by (rule rm(2))
  finally have en: "entries ?c (remove1 a xs) = entries c (remove1 a xs)" .
  have fr: "frees a c ?c" using e by (simp add: frees_def)
  show thesis using run rm(1) fr en by (rule that)
qed

lemma entries_Nil [simp]: "entries c [] = []"
  by (simp add: entries_def)

lemma entries_Cons [simp]: "entries c (a # xs) = entry (the (heap c a)) # entries c xs"
  by (simp add: entries_def)

lemma length_entries [simp]: "length (entries c xs) = length xs"
  by (simp add: entries_def)

text \<open>
  Freeing an entry of the cache has a defined result: that entry is off the list and off its
  hash chain, deallocated and reported to the callback; all other entries are unchanged and in
  order, and the invariant holds.
\<close>

theorem pmksa_cache_free_entry_removes:
  assumes "cache_ok c xs" and "a \<in> set xs"
  shows "\<exists>c'. pmksa_cache_free_entry c a = Some c' \<and> cache_ok c' (remove1 a xs) \<and> heap c' a = None \<and>
    entries c' (remove1 a xs) = entries c (remove1 a xs) \<and>
    log c' = log c @ (if free_cb c then [FreeCb a] else [])"
  using free_entry_ok [OF assms] by (metis frees_def)


subsection \<open>Linking an entry\<close>

text \<open>Insertion behind all entries that expire no later.\<close>

definition exp_insert :: "pmksa_entry \<Rightarrow> pmksa_entry list \<Rightarrow> pmksa_entry list" where
  "exp_insert e t = takeWhile (\<lambda>x. expiration x \<le> expiration e) t @ e # dropWhile (\<lambda>x. expiration x \<le> expiration e) t"

lemma sorted_exp_insert:
  assumes "sorted (map expiration t)"
  shows "sorted (map expiration (exp_insert e t))"
proof -
  have "map expiration (exp_insert e t) =
      takeWhile (\<lambda>x. x \<le> expiration e) (map expiration t) @ expiration e # dropWhile (\<lambda>x. x \<le> expiration e) (map expiration t)"
    by (simp add: exp_insert_def takeWhile_map dropWhile_map comp_def)
  moreover have "sorted (takeWhile (\<lambda>x. x \<le> k) ts @ k # dropWhile (\<lambda>x. x \<le> k) ts)" if "sorted ts" for k :: int and ts
    using that by (induction ts) (auto dest: set_takeWhileD set_dropWhileD)
  ultimately show ?thesis using assms by simp
qed

text \<open>The calls that set the timer: it is cancelled, and set for the first entry to expire if there is one.\<close>

definition timer_calls :: "int \<Rightarrow> pmksa_entry list \<Rightarrow> pmksa_event list" where
  "timer_calls now t =
     CancelExpire # (case t of [] \<Rightarrow> [] | e # _ \<Rightarrow> [RegisterExpire (max 0 (sint (word_of_int (expiration e - now) :: u32)) + 1)])"

lemma set_expiration_ok:
  assumes "chain (heap c) nxt (pmksa c) xs"
  shows "pmksa_cache_set_expiration now c = Some (c\<lparr>log := log c @ timer_calls now (entries c xs)\<rparr>)"
proof (cases xs)
  case Nil
  then show ?thesis using assms by (simp add: pmksa_cache_set_expiration_def logged_def timer_calls_def entries_def)
next
  case (Cons a as)
  then show ?thesis using assms by (auto simp: pmksa_cache_set_expiration_def logged_def timer_calls_def entries_def Let_def)
qed

lemma link_list_ok:
  assumes ch: "chain (heap c) nxt (pmksa c) (ys @ zs)" and a: "a \<notin> set (ys @ zs)" "heap c a = Some n"
  obtains h' l' where "link_list c a (if ys = [] then None else Some (last ys)) = Some (c\<lparr>heap := h', pmksa := l'\<rparr>)"
    "chain h' nxt l' (ys @ a # zs)" "same_view (\<lambda>n. (hnext n, entry n)) (heap c) h'"
proof (cases ys rule: rev_cases)
  case Nil
  let ?h = "(heap c)(a \<mapsto> n\<lparr>nxt := pmksa c\<rparr>)"
  have "link_list c a None = Some (c\<lparr>heap := ?h, pmksa := Some a\<rparr>)" using a(2) by (simp add: link_list_def)
  moreover have "chain ?h nxt (Some a) (a # zs)" using ch a(1) by (intro chain_Cons_new) (auto simp: Nil)
  moreover have "same_view (\<lambda>n. (hnext n, entry n)) (heap c) ?h" using a(2) by (intro same_view_upd) auto
  ultimately show thesis using that [where h' = ?h and l' = "Some a"] by (simp add: Nil)
next
  case (snoc us q)
  have ch': "chain (heap c) nxt (pmksa c) (us @ q # zs)" using ch by (simp add: snoc)
  obtain qn where q: "heap c q = Some qn" using chain_dom [OF ch'] by fastforce
  have nq: "nxt qn = head zs" using chain_append [OF ch'] q chain_head by auto
  have aq: "a \<noteq> q" using a(1) by (simp add: snoc)
  let ?h = "(heap c)(a \<mapsto> n\<lparr>nxt := nxt qn\<rparr>, q \<mapsto> qn\<lparr>nxt := Some a\<rparr>)"
  have sw: "?h = (heap c)(q \<mapsto> qn\<lparr>nxt := Some a\<rparr>, a \<mapsto> n\<lparr>nxt := nxt qn\<rparr>)" using aq by (simp add: fun_upd_twist)
  have "link_list c a (Some q) = Some (c\<lparr>heap := ?h, pmksa := pmksa c\<rparr>)"
    using a(2) q aq by (simp add: link_list_def)
  moreover have "chain ?h nxt (pmksa c) (us @ q # a # zs)"
    unfolding sw using ch' by (rule chain_insert_after) (use a(1) nq in \<open>auto simp: snoc\<close>)
  moreover have "same_view (\<lambda>n. (hnext n, entry n)) (heap c) ?h" using a(2) q aq by (auto simp: same_view_def)
  ultimately show thesis using that [where h' = ?h and l' = "pmksa c"] by (simp add: snoc)
qed

lemma link_entry_ok:
  assumes ok: "cache_ok c xs" and a: "a \<notin> set xs" "heap c a = Some n" and eo: "entry_ok n"
  obtains c' ys zs where "pmksa_cache_link_entry now c a = Some c'" "cache_ok c' (ys @ a # zs)" "xs = ys @ zs"
    "entries c' (ys @ a # zs) = exp_insert (entry n) (entries c xs)"
    "pmkid_tab c' (PMKID_HASH (pmkid n)) = Some a" "same_view entry (heap c) (heap c')" "free_cb c' = free_cb c"
proof -
  note D = cache_okD [OF ok]
  let ?le = "\<lambda>x. expiration (the (heap c x)) \<le> expiration n"
  define ys zs where "ys = takeWhile ?le xs" and "zs = dropWhile ?le xs"
  have xs: "xs = ys @ zs" by (simp add: ys_def zs_def)
  let ?prev = "if ys = [] then None else Some (last ys)"
  have "(\<lambda>x. \<not> at (heap c) (\<lambda>_ m. expiration m > expiration n) x) = ?le" by (simp add: not_less)
  then have walk: "chain_walk (heap c) nxt (\<lambda>_ m. expiration m > expiration n) None (pmksa c) = Some ?prev"
    using chain_walk_chain [OF D(1), of "\<lambda>_ m. expiration m > expiration n" None] by (simp add: ys_def Let_def)
  have ch: "chain (heap c) nxt (pmksa c) (ys @ zs)" and na: "a \<notin> set (ys @ zs)" using D(1) a(1) xs by simp_all
  obtain h1 l1 where 1: "link_list c a ?prev = Some (c\<lparr>heap := h1, pmksa := l1\<rparr>)"
    "chain h1 nxt l1 (ys @ a # zs)" "same_view (\<lambda>n. (hnext n, entry n)) (heap c) h1"
    using link_list_ok [OF ch na a(2)] .
  obtain n1 where n1: "h1 a = Some n1" "hnext n1 = hnext n" "entry n1 = entry n"
    using same_view_dest [OF 1(3) a(2)] by auto
  then have pk: "pmkid n1 = pmkid n" using entry_eqD by blast
  let ?b = "PMKID_HASH (pmkid n)"
  let ?n2 = "n1\<lparr>hnext := pmkid_tab c ?b\<rparr>"
  let ?h = "h1(a \<mapsto> ?n2)" and ?t = "(pmkid_tab c)(?b := Some a)"
  let ?c2 = "c\<lparr>pmksa := l1, heap := ?h, pmkid_tab := ?t, pmksa_count := pmksa_count c + 1\<rparr>"
  have run: "pmksa_cache_link_entry now c a = (if ?prev = None then pmksa_cache_set_expiration now ?c2 else Some ?c2)"
    using a(2) walk 1(1) n1 by (simp add: pmksa_cache_link_entry_def Let_def)
  have ch2: "chain ?h nxt l1 (ys @ a # zs)" using 1(2) n1(1) by (subst chain_upd_same_link [of _ _ n1]) auto
  have ix1: "indexed h1 hnext (\<lambda>n. PMKID_HASH (pmkid n)) (pmkid_tab c) (set xs)"
    using 1(3) _ D(2) by (rule same_view_indexed) (auto dest: entry_eqD)
  have ix: "indexed ?h hnext (\<lambda>n. PMKID_HASH (pmkid n)) ?t (insert a (set xs))"
    using indexed_insert [OF ix1 a(1), of ?n2] pk by simp
  have se: "same_view entry (heap c) ?h"
  proof (rule same_view_trans)
    show "same_view entry (heap c) h1" using same_view_weaken [OF 1(3), of entry] by simp
    show "same_view entry h1 ?h" using n1(1) by (intro same_view_upd) auto
  qed
  have sev: "entry (the (?h b)) = entry (the (heap c b))" if ab: "b = a \<or> b \<in> set xs" for b
  proof -
    obtain m where m: "heap c b = Some m" using ab D(7) a(2) by auto
    obtain m' where "?h b = Some m'" "entry m' = entry m" using same_view_dest [OF se m] .
    then show ?thesis using m by (simp del: fun_upd_apply)
  qed
  have ents: "map (\<lambda>a. entry (the (?h a))) (ys @ a # zs) = exp_insert (entry n) (entries c xs)"
  proof -
    have "map (\<lambda>a. entry (the (?h a))) (ys @ a # zs) = map (\<lambda>a. entry (the (heap c a))) (ys @ a # zs)"
      using sev xs by (intro map_cong) auto
    then show ?thesis
      using a(2) by (simp add: exp_insert_def entries_def takeWhile_map dropWhile_map comp_def ys_def zs_def)
  qed
  have ok2: "cache_ok (?c2\<lparr>log := lg\<rparr>) (ys @ a # zs)" for lg
    using ch2 ix D(3,5) sorted_exp_insert [OF D(4), of "entry n"] eo xs
    by (simp add: cache_ok_def entries_def ents del: map_append list.map fun_upd_apply)
      (auto simp: exp_insert_def list_all_iff entry_ok_def entries_def dest!: set_takeWhileD set_dropWhileD)
  obtain lg where lg: "pmksa_cache_link_entry now c a = Some (?c2\<lparr>log := lg\<rparr>)"
  proof (cases "ys = []")
    case True
    have "chain (heap ?c2) nxt (pmksa ?c2) (ys @ a # zs)" using ch2 by simp
    from set_expiration_ok [OF this, of now] show thesis using that True run by auto
  next
    case False
    then show thesis using that [of "log c"] run by simp
  qed
  show thesis
    using lg ok2 xs by (rule that) (use ents se in \<open>simp_all add: entries_def fun_upd_same del: map_append list.map fun_upd_apply\<close>)
qed


subsection \<open>Looking up\<close>

definition matches :: "mac option \<Rightarrow> bytes option \<Rightarrow> pmksa_entry \<Rightarrow> bool" where
  "matches sp i e \<longleftrightarrow> (case sp of None \<Rightarrow> True | Some a \<Rightarrow> spa e = a) \<and> (case i of None \<Rightarrow> True | Some b \<Rightarrow> pmkid e = b)"

lemma matches_entry [simp]: "matches sp i (entry n) = matches sp i n"
  by (simp add: matches_def split: option.split)

text \<open>The arguments of a lookup have the lengths of an address and an identifier.\<close>

definition query_ok :: "mac option \<Rightarrow> bytes option \<Rightarrow> bool" where
  "query_ok sp i \<longleftrightarrow> (\<forall>a. sp = Some a \<longrightarrow> length a = 6) \<and> (\<forall>b. i = Some b \<longrightarrow> length b = 16)"

lemma get_ok:
  assumes ok: "cache_ok c xs" and q: "query_ok sp i"
  obtains r where "pmksa_cache_auth_get c sp i = Some r"
    "case r of None \<Rightarrow> \<forall>a\<in>set xs. \<not> matches sp i (the (heap c a)) | Some a \<Rightarrow> a \<in> set xs \<and> matches sp i (the (heap c a))"
    "i = None \<Longrightarrow> r = List.find (\<lambda>a. matches sp i (the (heap c a))) xs"
proof -
  note D = cache_okD [OF ok]
  have len: "length (pmkid (the (heap c a))) = 16" "length (spa (the (heap c a))) = 6" if "a \<in> set xs" for a
    using D(5) that by (auto simp: entries_def list_all_iff entry_ok_def)
  have addr: "(case sp of None \<Rightarrow> True | Some b \<Rightarrow> ether_addr_equal (spa (the (heap c a))) b) \<longleftrightarrow>
      (case sp of None \<Rightarrow> True | Some b \<Rightarrow> spa (the (heap c a)) = b)" if "a \<in> set xs" for a
    using len [OF that] q by (auto simp: query_ok_def split: option.split)
  show thesis
  proof (cases i)
    case None
    have "pmksa_cache_auth_get c sp i = Some (List.find (\<lambda>a. matches sp i (the (heap c a))) xs)"
      using chain_find_chain [OF D(1), of "\<lambda>_ n. case sp of None \<Rightarrow> True | Some a \<Rightarrow> ether_addr_equal (spa n) a"]
        find_cong [OF refl, of xs "\<lambda>a. case sp of None \<Rightarrow> True | Some b \<Rightarrow> ether_addr_equal (spa (the (heap c a))) b"] addr
      by (simp add: pmksa_cache_auth_get_def None matches_def)
    then show thesis by (rule that) (auto simp: find_None_iff find_Some_iff split: option.split)
  next
    case (Some b)
    let ?P = "\<lambda>_ n. (case sp of None \<Rightarrow> True | Some a \<Rightarrow> ether_addr_equal (spa n) a) \<and> take PMKID_LEN (pmkid n) = take PMKID_LEN b"
    have eq: "at (heap c) ?P a \<longleftrightarrow> matches sp i (the (heap c a))" if "a \<in> set xs" for a
      using addr [OF that] len [OF that] q by (simp add: matches_def Some PMKID_LEN_def query_ok_def)
    have "\<exists>r. chain_find (heap c) hnext ?P (pmkid_tab c (PMKID_HASH b)) = Some r \<and>
      (case r of None \<Rightarrow> \<forall>a\<in>set xs. \<not> at (heap c) ?P a | Some a \<Rightarrow> a \<in> set xs \<and> at (heap c) ?P a)"
      using D(2)
    proof (rule ph.find_sound)
      fix a n assume "a \<in> set xs" "heap c a = Some n" "?P a n"
      then have "at (heap c) ?P a" by (auto split: option.split)
      then have "matches sp i (the (heap c a))" using eq \<open>a \<in> set xs\<close> by blast
      then show "PMKID_HASH (pmkid n) = PMKID_HASH b" using \<open>heap c a = Some n\<close> by (simp add: matches_def Some)
    qed
    then obtain r where "pmksa_cache_auth_get c sp i = Some r"
      "case r of None \<Rightarrow> \<forall>a\<in>set xs. \<not> at (heap c) ?P a | Some a \<Rightarrow> a \<in> set xs \<and> at (heap c) ?P a"
      by (auto simp: pmksa_cache_auth_get_def Some)
    then show thesis using that [of r] eq by (auto simp: Some split: option.splits)
  qed
qed

text \<open>
  C26. A lookup is sound and complete: it returns null exactly when no entry of the cache has the
  given address and identifier (either may be left open), and otherwise an entry that has them.
\<close>

theorem pmksa_cache_auth_get_correct:
  assumes "cache_ok c xs" and "query_ok sp i"
  shows "\<exists>r. pmksa_cache_auth_get c sp i = Some r \<and>
    (case r of None \<Rightarrow> \<forall>e\<in>set (entries c xs). \<not> matches sp i e
     | Some a \<Rightarrow> a \<in> set xs \<and> matches sp i (entry (the (heap c a))))"
proof -
  obtain r where "pmksa_cache_auth_get c sp i = Some r"
    "case r of None \<Rightarrow> \<forall>a\<in>set xs. \<not> matches sp i (the (heap c a)) | Some a \<Rightarrow> a \<in> set xs \<and> matches sp i (the (heap c a))"
    using get_ok [OF assms] .
  then show ?thesis by (auto simp: entries_def split: option.splits)
qed

subsection \<open>Adding an entry\<close>

definition drop_first :: "('a \<Rightarrow> bool) \<Rightarrow> 'a list \<Rightarrow> 'a list" where
  "drop_first P t = takeWhile (\<lambda>x. \<not> P x) t @ tl (dropWhile (\<lambda>x. \<not> P x) t)"

text \<open>
  What adding an entry makes of the list: the first entry of the same station goes, the entry that
  expires first goes if the cache is full, and the new one is inserted by its expiration.
\<close>

definition add_spec :: "pmksa_entry \<Rightarrow> pmksa_entry list \<Rightarrow> pmksa_entry list" where
  "add_spec e t =
     (let t = drop_first (\<lambda>x. spa x = spa e) t
      in exp_insert e (if int (length t) \<ge> pmksa_cache_max_entries then tl t else t))"

lemma drop_first_none: "\<forall>x\<in>set t. \<not> P x \<Longrightarrow> drop_first P t = t"
  by (induction t) (auto simp: drop_first_def)

lemma drop_first_remove1:
  "List.find P xs = Some a \<Longrightarrow> map f (remove1 a xs) = drop_first Q (map f xs)" if "\<And>x. x \<in> set xs \<Longrightarrow> Q (f x) = P x"
  using that
proof (induction xs)
  case (Cons x xs)
  show ?case
  proof (cases "P x")
    case True
    then have "a = x" using Cons.prems(1) by simp
    then show ?thesis using True Cons.prems(2) by (simp add: drop_first_def)
  next
    case False
    then have f: "List.find P xs = Some a" using Cons.prems(1) by simp
    then have "a \<noteq> x" using False by (auto simp: find_Some_iff)
    then show ?thesis using Cons.IH [OF f] False Cons.prems(2) by (simp add: drop_first_def)
  qed
qed simp

lemma free_opt_ok:
  assumes ok: "cache_ok c xs" and r: "case r of None \<Rightarrow> True | Some a \<Rightarrow> a \<in> set xs"
    and e: "e \<notin> set xs" "heap c e = Some n"
  obtains c' n' where "(case r of None \<Rightarrow> Some c | Some p \<Rightarrow> pmksa_cache_free_entry c p) = Some c'"
    "cache_ok c' (case r of None \<Rightarrow> xs | Some a \<Rightarrow> remove1 a xs)"
    "entries c' (case r of None \<Rightarrow> xs | Some a \<Rightarrow> remove1 a xs) = entries c (case r of None \<Rightarrow> xs | Some a \<Rightarrow> remove1 a xs)"
    "heap c' e = Some n'" "entry n' = entry n" "free_cb c' = free_cb c"
proof (cases r)
  case None
  then show thesis using that [of c n] ok e by simp
next
  case (Some a)
  then have a: "a \<in> set xs" using r by simp
  obtain c' where c': "pmksa_cache_free_entry c a = Some c'" "cache_ok c' (remove1 a xs)" "frees a c c'"
    "entries c' (remove1 a xs) = entries c (remove1 a xs)"
    using free_entry_ok [OF ok a] .
  have "e \<noteq> a" using a e(1) by auto
  then have "map_option entry (heap c' e) = Some (entry n)" using c'(3) e(2) by (simp add: frees_def)
  then obtain n' where "heap c' e = Some n'" "entry n' = entry n" by auto
  then show thesis using that [of c' n'] c' Some by (simp add: frees_def)
qed


lemma add_entry_ok:
  assumes ok: "cache_ok c xs" and e: "e \<notin> set xs" "heap c e = Some n" and eo: "entry_ok n"
  obtains c' ys where "pmksa_cache_auth_add_entry now c (Some e) = Some (c', 0)" "cache_ok c' ys" "e \<in> set ys"
    "entries c' ys = add_spec (entry n) (entries c xs)" "pmkid_tab c' (PMKID_HASH (pmkid n)) = Some e"
    "map_option entry (heap c' e) = Some (entry n)"
proof -
  have qo: "query_ok (Some (spa n)) None" using eo by (simp add: query_ok_def entry_ok_def)
  obtain r where r: "pmksa_cache_auth_get c (Some (spa n)) None = Some r"
    "r = List.find (\<lambda>a. matches (Some (spa n)) None (the (heap c a))) xs"
    using get_ok [OF ok qo] by blast
  have rin: "case r of None \<Rightarrow> True | Some a \<Rightarrow> a \<in> set xs"
    using r(2) by (auto simp: find_Some_iff split: option.split)
  let ?xs1 = "case r of None \<Rightarrow> xs | Some a \<Rightarrow> remove1 a xs"
  obtain c1 n1 where 1: "(case r of None \<Rightarrow> Some c | Some p \<Rightarrow> pmksa_cache_free_entry c p) = Some c1"
    "cache_ok c1 ?xs1" "entries c1 ?xs1 = entries c ?xs1" "heap c1 e = Some n1" "entry n1 = entry n" "free_cb c1 = free_cb c"
    using free_opt_ok [OF ok rin e] .
  have d1: "entries c ?xs1 = drop_first (\<lambda>x. spa x = spa n) (entries c xs)"
  proof (cases r)
    case None
    then have "\<forall>x\<in>set (entries c xs). spa x \<noteq> spa n"
      using r(2) [symmetric] by (auto simp: find_None_iff matches_def entries_def)
    then show ?thesis using None by (simp add: drop_first_none)
  next
    case (Some a)
    have "map (\<lambda>a. entry (the (heap c a))) (remove1 a xs) =
        drop_first (\<lambda>x. spa x = spa n) (map (\<lambda>a. entry (the (heap c a))) xs)"
      using r(2) Some by (intro drop_first_remove1 [of xs _ _ "\<lambda>a. matches (Some (spa n)) None (the (heap c a))"])
        (auto simp: matches_def)
    then show ?thesis using Some by (simp add: entries_def)
  qed
  have e1: "e \<notin> set ?xs1" using e(1) by (auto split: option.split dest: notin_set_remove1)
  let ?full = "pmksa_count c1 \<ge> pmksa_cache_max_entries"
  let ?r2 = "if ?full then pmksa c1 else None"
  note D1 = cache_okD [OF 1(2)]
  have p1: "pmksa c1 = head ?xs1" using D1(1) by (rule chain_head)
  have r2: "case ?r2 of None \<Rightarrow> True | Some a \<Rightarrow> a \<in> set ?xs1"
    using p1 by (cases ?xs1) (auto split: option.split)
  let ?xs2 = "case ?r2 of None \<Rightarrow> ?xs1 | Some a \<Rightarrow> remove1 a ?xs1"
  obtain c2 n2 where 2: "(case ?r2 of None \<Rightarrow> Some c1 | Some p \<Rightarrow> pmksa_cache_free_entry c1 p) = Some c2"
    "cache_ok c2 ?xs2" "entries c2 ?xs2 = entries c1 ?xs2" "heap c2 e = Some n2" "entry n2 = entry n1" "free_cb c2 = free_cb c1"
    using free_opt_ok [OF 1(2) r2 e1 1(4)] .
  have x2: "?xs2 = (if ?full then tl ?xs1 else ?xs1)" using p1 by (cases ?xs1) auto
  have e2: "e \<notin> set ?xs2" unfolding x2 using e1 by (auto dest: list.set_sel(2) split: if_splits) (metis list.sel(2) list.set_sel(2))
  have en: "entry n2 = entry n" using 1(5) 2(5) by simp
  have eo2: "entry_ok n2" using eo entry_eqD [OF en] by (simp add: entry_ok_def)
  obtain c' ys zs where 3: "pmksa_cache_link_entry now c2 e = Some c'" "cache_ok c' (ys @ e # zs)" "?xs2 = ys @ zs"
    "entries c' (ys @ e # zs) = exp_insert (entry n2) (entries c2 ?xs2)"
    "pmkid_tab c' (PMKID_HASH (pmkid n2)) = Some e" "same_view entry (heap c2) (heap c')" "free_cb c' = free_cb c2"
    using link_entry_ok [OF 2(2) e2 2(4) eo2] .
  have run: "pmksa_cache_auth_add_entry now c (Some e) = Some (c', 0)"
  proof -
    have "(if ?full then (case pmksa c1 of None \<Rightarrow> Some c1 | Some p \<Rightarrow> pmksa_cache_free_entry c1 p) else Some c1) = Some c2"
      using 2(1) by (simp split: if_splits)
    then show ?thesis using e(2) r(1) 1(1) 3(1) by (simp add: pmksa_cache_auth_add_entry_def)
  qed
  have t: "entries c1 ?xs1 = drop_first (\<lambda>x. spa x = spa n) (entries c xs)" using 1(3) d1 by simp
  have full: "?full = (int (length (drop_first (\<lambda>x. spa x = spa n) (entries c xs))) \<ge> pmksa_cache_max_entries)"
    using D1(3) unfolding t [symmetric] by simp
  have "entries c1 ?xs2 = (if ?full then tl (entries c1 ?xs1) else entries c1 ?xs1)"
    unfolding x2 by (simp add: entries_def map_tl)
  then have "entries c2 ?xs2 = (if ?full then tl (entries c1 ?xs1) else entries c1 ?xs1)" using 2(3) by simp
  then have "entries c' (ys @ e # zs) = add_spec (entry n) (entries c xs)"
    unfolding 3(4) add_spec_def Let_def en pm_entry_sels t full by simp
  moreover have "map_option entry (heap c' e) = Some (entry n)"
    using 3(6) 2(4) en by (simp add: same_view_def)
  moreover have "e \<in> set (ys @ e # zs)" by simp
  ultimately show thesis using that [OF run 3(2)] 3(5) entry_eqD [OF en] by simp
qed

text \<open>
  C27. Adding an allocated entry has a defined result and refines the specification on the list
  of entries: the first entry of the same station goes, the entry that expires first goes if the
  cache is full, and the new entry takes its place by expiration; the invariant holds.
\<close>

theorem pmksa_cache_auth_add_entry_refines:
  assumes "cache_ok c xs" and "e \<notin> set xs" and "heap c e = Some n" and "entry_ok n"
  shows "\<exists>c' ys. pmksa_cache_auth_add_entry now c (Some e) = Some (c', 0) \<and> cache_ok c' ys \<and> e \<in> set ys \<and>
    entries c' ys = add_spec (entry n) (entries c xs)"
proof -
  obtain c' ys where "pmksa_cache_auth_add_entry now c (Some e) = Some (c', 0)" "cache_ok c' ys" "e \<in> set ys"
    "entries c' ys = add_spec (entry n) (entries c xs)"
    using add_entry_ok [OF assms] .
  then show ?thesis by blast
qed

text \<open>
  What was added is found: after adding an entry, a lookup with its address and its
  identifier returns that very entry.
\<close>

theorem pmksa_cache_add_get:
  assumes "cache_ok c xs" and "e \<notin> set xs" and "heap c e = Some n" and "entry_ok n"
  shows "\<exists>c'. pmksa_cache_auth_add_entry now c (Some e) = Some (c', 0) \<and>
    pmksa_cache_auth_get c' (Some (spa n)) (Some (pmkid n)) = Some (Some e)"
proof -
  obtain c' ys where c': "pmksa_cache_auth_add_entry now c (Some e) = Some (c', 0)"
    "pmkid_tab c' (PMKID_HASH (pmkid n)) = Some e" "map_option entry (heap c' e) = Some (entry n)"
    using add_entry_ok [OF assms] .
  then obtain m where m: "heap c' e = Some m" "entry m = entry n" by auto
  then have "spa m = spa n" "pmkid m = pmkid n" using entry_eqD by blast+
  then have "pmksa_cache_auth_get c' (Some (spa n)) (Some (pmkid n)) = Some (Some e)"
    using m(1) c'(2) by (simp add: pmksa_cache_auth_get_def Let_def, subst chain_find.simps) (simp add: ether_addr_equal_def)
  then show ?thesis using c'(1) by blast
qed


lemma length_exp_insert [simp]: "length (exp_insert e t) = Suc (length t)"
proof -
  have "length t = length (takeWhile (\<lambda>x. expiration x \<le> expiration e) t) + length (dropWhile (\<lambda>x. expiration x \<le> expiration e) t)"
    by (metis length_append takeWhile_dropWhile_id)
  then show ?thesis by (simp add: exp_insert_def)
qed

lemma length_drop_first: "length (drop_first P t) \<le> length t"
  by (induction t) (auto simp: drop_first_def)

text \<open>
  Adding keeps the bound: a cache of at most 1024 entries has at most 1024 entries after an
  addition.
\<close>

theorem pmksa_cache_bounded:
  assumes "cache_ok c xs" and "e \<notin> set xs" and "heap c e = Some n" and "entry_ok n" and "pmksa_count c \<le> 1024"
  shows "\<exists>c'. pmksa_cache_auth_add_entry now c (Some e) = Some (c', 0) \<and> pmksa_count c' \<le> 1024"
proof -
  obtain c' ys where c': "pmksa_cache_auth_add_entry now c (Some e) = Some (c', 0)" "cache_ok c' ys"
    "entries c' ys = add_spec (entry n) (entries c xs)"
    using add_entry_ok [OF assms(1-4)] .
  have "int (length xs) \<le> 1024" using cache_okD(3) [OF assms(1)] assms(5) by simp
  moreover have "length (drop_first (\<lambda>x. spa x = spa n) (entries c xs)) \<le> length xs"
    using length_drop_first [of _ "entries c xs"] by simp
  ultimately have "int (length (add_spec (entry n) (entries c xs))) \<le> 1024"
    by (auto simp: add_spec_def Let_def pmksa_cache_max_entries_def)
  then have "int (length ys) \<le> 1024" using c'(3) length_entries by metis
  then show ?thesis using c'(1) cache_okD(3) [OF c'(2)] by simp
qed

text \<open>
  An opportunistic entry is linked without regard to the limit or to older entries of the
  station: whenever the allocator has room, the count goes up by one.
\<close>

theorem pmksa_cache_add_okc_unbounded:
  assumes "cache_ok c xs" and "alloc (heap c) = Some a" and "heap c a = None" and "length i = 16" and "length (spa old) = 6"
  shows "\<exists>c'. pmksa_cache_add_okc alloc room now c old i = Some (c', Some a) \<and> pmksa_count c' = pmksa_count c + 1"
proof -
  note D = cache_okD [OF assms(1)]
  let ?n = "okc_entry room old i" and ?c = "c\<lparr>heap := (heap c)(a \<mapsto> okc_entry room old i)\<rparr>"
  have nin: "a \<notin> set xs" using D(7) assms(3) by force
  have "entries ?c xs = entries c xs" unfolding entries_def using nin by (intro map_cong) auto
  then have ok: "cache_ok ?c xs"
    using D indexed_upd_outside [OF D(2) nin] nin by (simp add: cache_ok_def del: fun_upd_apply)
  have "entry_ok ?n" "heap ?c a = Some ?n" using assms(4,5) by (simp_all add: entry_ok_def okc_entry_def)
  then obtain c' ys zs where "pmksa_cache_link_entry now ?c a = Some c'" "cache_ok c' (ys @ a # zs)" "xs = ys @ zs"
    using link_entry_ok [OF ok nin] by metis
  then show ?thesis using D(3) cache_okD(3) [of c' "ys @ a # zs"] assms(2) by (simp add: pmksa_cache_add_okc_def)
qed

subsection \<open>Expiration, flushing and disconnection\<close>

lemma free_head_ok:
  assumes "cache_ok c (a # xs)"
  obtains c' n where "pmksa c = Some a" "heap c a = Some n" "pmksa_cache_free_entry c a = Some c'" "cache_ok c' xs"
    "entries c' xs = entries c xs" "frees a c c'"
proof -
  have "pmksa c = Some a" "\<exists>n. heap c a = Some n" using cache_okD(1) [OF assms] by auto
  moreover obtain c' where "pmksa_cache_free_entry c a = Some c'" "cache_ok c' (remove1 a (a # xs))" "frees a c c'"
    "entries c' (remove1 a (a # xs)) = entries c (remove1 a (a # xs))"
    using free_entry_ok [OF assms] by (metis list.set_intros(1))
  ultimately show thesis using that by auto
qed

lemma pm_expire_loop_ok:
  "cache_ok c xs \<Longrightarrow> \<exists>c' ys. expire_loop now c = Some c' \<and> cache_ok c' ys \<and>
     entries c' ys = filter (\<lambda>e. expiration e > now) (entries c xs)"
proof (induction xs arbitrary: c)
  case Nil
  then have "pmksa c = None" using cache_okD(1) by fastforce
  then show ?case using Nil by (subst expire_loop.simps) auto
next
  case (Cons a xs)
  obtain c' n where f: "pmksa c = Some a" "heap c a = Some n" "pmksa_cache_free_entry c a = Some c'" "cache_ok c' xs"
    "entries c' xs = entries c xs"
    using free_head_ok [OF Cons.prems] .
  show ?case
  proof (cases "expiration n \<le> now")
    case True
    then have "expire_loop now c = expire_loop now c'" using f by (subst expire_loop.simps) simp
    then show ?thesis using Cons.IH [OF f(4)] f(2,5) True by simp
  next
    case False
    then have "expire_loop now c = Some c" using f by (subst expire_loop.simps) simp
    moreover have "filter (\<lambda>e. expiration e > now) (entries c (a # xs)) = entries c (a # xs)"
      using cache_okD(4) [OF Cons.prems] False f(2) by (intro filter_True) fastforce
    ultimately show ?thesis using Cons.prems by auto
  qed
qed

lemma cache_ok_log [simp]: "cache_ok (c\<lparr>log := lg\<rparr>) xs = cache_ok c xs"
  by (simp add: cache_ok_def entries_def)

text \<open>
  The expiration callback removes exactly the entries whose time has come, keeps the others
  in order, and last sets the timer for the first that remains, if one does.
\<close>

theorem pmksa_cache_expire_correct:
  assumes "cache_ok c xs"
  shows "\<exists>c' ys calls. pmksa_cache_expire now c = Some c' \<and> cache_ok c' ys \<and>
    entries c' ys = filter (\<lambda>e. expiration e > now) (entries c xs) \<and>
    log c' = calls @ timer_calls now (entries c' ys)"
proof -
  obtain c1 ys where 1: "expire_loop now c = Some c1" "cache_ok c1 ys"
    "entries c1 ys = filter (\<lambda>e. expiration e > now) (entries c xs)"
    using pm_expire_loop_ok [OF assms] by blast
  let ?c = "c1\<lparr>log := log c1 @ timer_calls now (entries c1 ys)\<rparr>"
  have "pmksa_cache_set_expiration now c1 = Some ?c"
    using set_expiration_ok [OF cache_okD(1) [OF 1(2)]] .
  moreover have "entries ?c ys = entries c1 ys" by (simp add: entries_def)
  ultimately show ?thesis using 1 by (intro exI [of _ ?c] exI [of _ ys] exI [of _ "log c1"]) (simp add: pmksa_cache_expire_def)
qed

text \<open>
  Flushing the cache ends with an empty cache: no entry on the list or a hash chain, a zero
  count, and every entry deallocated.
\<close>

theorem pmksa_cache_auth_flush_empties:
  assumes "cache_ok c xs"
  shows "\<exists>c'. pmksa_cache_auth_flush c = Some c' \<and> cache_ok c' [] \<and> (\<forall>a\<in>set xs. heap c' a = None)"
  using assms
proof (induction xs arbitrary: c)
  case Nil
  then have "pmksa c = None" using cache_okD(1) by fastforce
  then show ?case using Nil by (subst pmksa_cache_auth_flush.simps) auto
next
  case (Cons a xs)
  have keep: "pmksa_cache_auth_flush c = Some c' \<Longrightarrow> cache_ok c xs \<Longrightarrow> heap c b = None \<Longrightarrow> heap c' b = None" for c c' xs b
  proof (induction xs arbitrary: c)
    case Nil
    then have "pmksa c = None" using cache_okD(1) by fastforce
    then show ?case using Nil by (subst (asm) pmksa_cache_auth_flush.simps) auto
  next
    case (Cons d ds)
    obtain c1 n where f: "pmksa c = Some d" "heap c d = Some n" "pmksa_cache_free_entry c d = Some c1" "cache_ok c1 ds"
      "entries c1 ds = entries c ds" "frees d c c1"
      using free_head_ok [OF Cons.prems(2)] .
    have "pmksa_cache_auth_flush c1 = Some c'"
      using Cons.prems(1) f(1,3) by (subst (asm) pmksa_cache_auth_flush.simps) simp
    moreover have "heap c1 b = None"
      using f(6) Cons.prems(3) unfolding frees_def by (metis map_option_is_None)
    ultimately show ?case using Cons.IH f(4) by blast
  qed
  obtain c1 n where f: "pmksa c = Some a" "heap c a = Some n" "pmksa_cache_free_entry c a = Some c1" "cache_ok c1 xs"
    "entries c1 xs = entries c xs" "frees a c c1"
    using free_head_ok [OF Cons.prems] .
  have run: "pmksa_cache_auth_flush c = pmksa_cache_auth_flush c1"
    using f(1,3) by (subst pmksa_cache_auth_flush.simps) simp
  obtain c' where c': "pmksa_cache_auth_flush c1 = Some c'" "cache_ok c' []" "\<forall>b\<in>set xs. heap c' b = None"
    using Cons.IH [OF f(4)] by blast
  moreover have "heap c' a = None" using keep [OF c'(1) f(4)] f(6) by (simp add: frees_def)
  ultimately show ?case using run by auto
qed


lemma das_attr_match_entry [simp]: "das_attr_match (entry n) attr = das_attr_match n attr"
  unfolding das_attr_match_def pm_entry_sels by (rule refl)

lemma das_loop_ok:
  "cache_ok c (us @ vs) \<Longrightarrow> 0 \<le> found \<Longrightarrow>
     \<exists>c' ys k. das_loop attr c (head vs) found = Some (c', k) \<and> cache_ok c' ys \<and>
       entries c' ys = entries c us @ filter (\<lambda>e. das_attr_match e attr = 0) (entries c vs) \<and>
       (k = 0 \<longleftrightarrow> found = 0 \<and> (\<forall>e\<in>set (entries c vs). das_attr_match e attr = 0))"
proof (induction vs arbitrary: us c found)
  case Nil
  then show ?case by (subst das_loop.simps) auto
next
  case (Cons a vs)
  note D = cache_okD [OF Cons.prems(1)]
  obtain n where n: "heap c a = Some n" using D(7) by auto
  have nx: "nxt n = head vs" using chain_append [OF D(1)] n chain_head by auto
  show ?case
  proof (cases "das_attr_match n attr = 0")
    case True
    have "das_loop attr c (head (a # vs)) found = das_loop attr c (head vs) found"
      using n nx True by (subst das_loop.simps) simp
    moreover have "cache_ok c ((us @ [a]) @ vs)" using Cons.prems(1) by simp
    ultimately show ?thesis using Cons.IH [of c "us @ [a]" found] Cons.prems(2) n True by (simp add: entries_def)
  next
    case False
    have a: "a \<in> set (us @ a # vs)" by simp
    have rm: "remove1 a (us @ a # vs) = us @ vs" using D(6) by (simp add: remove1_append)
    obtain c1 where c1: "pmksa_cache_free_entry c a = Some c1" "cache_ok c1 (us @ vs)" "frees a c c1"
      "entries c1 (us @ vs) = entries c (us @ vs)"
      using free_entry_ok [OF Cons.prems(1) a] unfolding rm .
    have run: "das_loop attr c (head (a # vs)) found = das_loop attr c1 (head vs) (found + 1)"
      using n nx False c1(1) by (subst das_loop.simps) simp
    have en: "entries c1 us = entries c us" "entries c1 vs = entries c vs"
      using c1(4) by (simp_all add: entries_def)
    obtain c' ys k where k: "das_loop attr c1 (head vs) (found + 1) = Some (c', k)" "cache_ok c' ys"
      "entries c' ys = entries c1 us @ filter (\<lambda>e. das_attr_match e attr = 0) (entries c1 vs)" "k \<noteq> 0"
      using Cons.IH [OF c1(2), of "found + 1"] Cons.prems(2) by auto
    then show ?thesis using run en n False by auto
  qed
qed

text \<open>
  A RADIUS disconnection without a session id removes exactly the entries that match its
  attributes, keeps the others in order, and reports success exactly if one matched.
\<close>

theorem das_disconnect_correct:
  assumes "cache_ok c xs" and "das_acct_session_id attr = None"
  shows "\<exists>c' ys. pmksa_cache_auth_radius_das_disconnect c attr =
      Some (c', if \<exists>e\<in>set (entries c xs). das_attr_match e attr \<noteq> 0 then 0 else -1) \<and>
    cache_ok c' ys \<and> entries c' ys = filter (\<lambda>e. das_attr_match e attr = 0) (entries c xs)"
proof -
  have "cache_ok c ([] @ xs)" using assms(1) by simp
  from das_loop_ok [OF this, of 0 attr] obtain c' ys k where
    "das_loop attr c (head xs) 0 = Some (c', k)" "cache_ok c' ys"
    "entries c' ys = filter (\<lambda>e. das_attr_match e attr = 0) (entries c xs)"
    "k = 0 \<longleftrightarrow> (\<forall>e\<in>set (entries c xs). das_attr_match e attr = 0)" by auto
  moreover have "pmksa c = head xs" using cache_okD(1) [OF assms(1)] by (rule chain_head)
  ultimately show ?thesis using assms(2) by (auto simp: pmksa_cache_auth_radius_das_disconnect_def)
qed

section \<open>A concrete cache\<close>

definition sample_entry :: "byte \<Rightarrow> int \<Rightarrow> pmksa_entry" where
  "sample_entry b t = zero_entry\<lparr>pmkid := replicate 16 b, pmk := replicate 32 1, expiration := t, spa := [2, 0, 0, 0, 0, b]\<rparr>"

text \<open>A cache with one entry, and a second one allocated but not yet added.\<close>

definition sample_cache :: pmksa_cache where
  "sample_cache = \<lparr>heap = [1 \<mapsto> sample_entry 5 100, 2 \<mapsto> sample_entry 6 50], pmkid_tab = (\<lambda>_. None)(5 := Some 1),
     pmksa = Some 1, pmksa_count = 1, free_cb = True, log = []\<rparr>"

lemma sample_entry_fields [simp]:
  "pmkid (sample_entry b t) = replicate 16 b" "expiration (sample_entry b t) = t" "spa (sample_entry b t) = [2, 0, 0, 0, 0, b]"
  "hnext (sample_entry b t) = None" "nxt (sample_entry b t) = None" "entry (sample_entry b t) = sample_entry b t"
  "cui (sample_entry b t) = None" "identity (sample_entry b t) = None"
  by (simp_all add: sample_entry_def zero_entry_def entry_def)

lemma sample_cache_fields [simp]:
  "heap sample_cache = [1 \<mapsto> sample_entry 5 100, 2 \<mapsto> sample_entry 6 50]" "pmksa sample_cache = Some 1"
  "pmksa_count sample_cache = 1" "log sample_cache = []" "free_cb sample_cache"
  by (simp_all add: sample_cache_def)

lemma sample_cache_ok: "cache_ok sample_cache [1]"
proof -
  have "indexed [1 \<mapsto> sample_entry 5 100] hnext (\<lambda>n. PMKID_HASH (pmkid n)) ((\<lambda>_. None)(5 := Some 1)) {1}"
    using indexed_insert [of "Map.empty" hnext "\<lambda>n. PMKID_HASH (pmkid n)" "\<lambda>_. None" "{}" 1 "sample_entry 5 100"]
    by (simp add: indexed_def PMKID_HASH_def)
  from indexed_upd_outside [OF this, of 2 "Some (sample_entry 6 50)"]
  have "indexed (heap sample_cache) hnext (\<lambda>n. PMKID_HASH (pmkid n)) (pmkid_tab sample_cache) (set [1])"
    by (simp add: sample_cache_def)
  then show ?thesis by (simp add: cache_ok_def entries_def entry_ok_def)
qed

lemma sample_new: "(2::nat) \<notin> set [1]" "heap sample_cache 2 = Some (sample_entry 6 50)" "entry_ok (sample_entry 6 50)"
  by (simp_all add: entry_ok_def)

lemma sample_entries: "entries sample_cache [1] = [sample_entry 5 100]"
  by (simp add: entries_def)

theorem pmksa_cache_free_entry_removes_witness:
  "\<exists>c'. pmksa_cache_free_entry sample_cache 1 = Some c' \<and> cache_ok c' [] \<and> heap c' 1 = None \<and> log c' = [FreeCb 1]"
  using pmksa_cache_free_entry_removes [OF sample_cache_ok, of 1] by auto

theorem pmksa_cache_auth_get_correct_witness:
  "\<exists>r. pmksa_cache_auth_get sample_cache None (Some (replicate 16 5)) = Some r \<and> r \<noteq> None"
  using pmksa_cache_auth_get_correct [OF sample_cache_ok, of None "Some (replicate 16 5)"]
  by (auto simp: query_ok_def sample_entries matches_def split: option.splits)

theorem pmksa_cache_auth_add_entry_refines_witness:
  "\<exists>c' ys. pmksa_cache_auth_add_entry 10 sample_cache (Some 2) = Some (c', 0) \<and> cache_ok c' ys \<and>
     entries c' ys = [sample_entry 6 50, sample_entry 5 100]"
proof -
  have "add_spec (sample_entry 6 50) [sample_entry 5 100] = [sample_entry 6 50, sample_entry 5 100]"
    by (simp add: add_spec_def drop_first_def exp_insert_def pmksa_cache_max_entries_def)
  then show ?thesis
    using pmksa_cache_auth_add_entry_refines [OF sample_cache_ok sample_new, of 10] unfolding sample_entries by auto
qed

theorem pmksa_cache_add_get_witness:
  "\<exists>c'. pmksa_cache_auth_add_entry 10 sample_cache (Some 2) = Some (c', 0) \<and>
     pmksa_cache_auth_get c' (Some [2, 0, 0, 0, 0, 6]) (Some (replicate 16 6)) = Some (Some 2)"
  using pmksa_cache_add_get [OF sample_cache_ok sample_new, of 10] by simp

theorem pmksa_cache_bounded_witness:
  "\<exists>c'. pmksa_cache_auth_add_entry 10 sample_cache (Some 2) = Some (c', 0) \<and> pmksa_count c' \<le> 1024"
  by (rule pmksa_cache_bounded [OF sample_cache_ok sample_new]) simp

theorem pmksa_cache_add_okc_unbounded_witness:
  "\<exists>c'. pmksa_cache_add_okc (\<lambda>_. Some 3) (\<lambda>_. True) 10 sample_cache (sample_entry 5 100) (replicate 16 9) = Some (c', Some 3) \<and>
     pmksa_count c' = 2"
  using pmksa_cache_add_okc_unbounded [where c = sample_cache and xs = "[1]" and alloc = "\<lambda>_. Some 3" and a = 3
    and i = "replicate 16 9" and old = "sample_entry 5 100" and room = "\<lambda>_. True" and now = 10] sample_cache_ok by simp

theorem pmksa_cache_expire_correct_witness:
  "\<exists>c' ys. pmksa_cache_expire 100 sample_cache = Some c' \<and> cache_ok c' ys \<and> entries c' ys = []"
  using pmksa_cache_expire_correct [OF sample_cache_ok, of 100] unfolding sample_entries by auto

theorem pmksa_cache_auth_flush_empties_witness:
  "\<exists>c'. pmksa_cache_auth_flush sample_cache = Some c' \<and> cache_ok c' [] \<and> heap c' 1 = None"
  using pmksa_cache_auth_flush_empties [OF sample_cache_ok] by auto

theorem das_disconnect_correct_witness:
  "\<exists>c' ys. pmksa_cache_auth_radius_das_disconnect sample_cache
      \<lparr>sta_addr = Some [2, 0, 0, 0, 0, 5], user_name = None, das_acct_session_id = None,
       das_acct_multi_session_id = None, das_cui = None\<rparr> = Some (c', 0) \<and> entries c' ys = []"
proof -
  let ?at = "\<lparr>sta_addr = Some [2, 0, 0, 0, 0, 5], user_name = None, das_acct_session_id = None,
    das_acct_multi_session_id = None, das_cui = None\<rparr>"
  have "das_attr_match (sample_entry 5 100) ?at = 1" by (simp add: das_attr_match_def)
  then show ?thesis
    using das_disconnect_correct [OF sample_cache_ok, of ?at] unfolding sample_entries by auto
qed


end
