(* ===== verification/Eloop.thy ===== *)
theory Eloop
  imports Common Os_Time
begin

text \<open>
  The event loop, \<open>src/utils/eloop.c\<close>, in its default configuration (\<open>select\<close>): registered
  sockets, timeouts kept in order of time, signals, and the loop that dispatches them.

  The record holds \<open>struct eloop_data\<close>: a socket table is the list of its entries (its \<open>count\<close> is the
  length), and the doubly linked list of timeouts is the list of its entries. Three members are added: \<open>ticks\<close>
  counts the calls into the clock and the allocator, whose answers are functions of that count,
  \<open>world\<close> is the state of the rest of the program, and \<open>trace\<close> records the handlers run, with the
  timeouts pending and the time at that moment.

  The handlers are code of other files. A handler is any program that works on \<open>world\<close> and calls the
  functions of this file, looking at their results: a tree whose inner nodes are calls. Nothing else
  is assumed of it.
\<close>

section \<open>State\<close>

record eloop_sock =
  sock :: int
  s_eloop_data :: nat
  s_user_data :: nat
  s_handler :: nat

record eloop_timeout =
  time :: reltime
  eloop_data :: nat
  user_data :: nat
  handler :: nat

record eloop_signal =
  sig :: int
  sig_user_data :: nat
  sig_handler :: nat
  sig_signaled :: int

record eloop_sock_table =
  entries :: "eloop_sock list"
  changed :: bool

datatype event_type = EVENT_TYPE_READ | EVENT_TYPE_WRITE | EVENT_TYPE_EXCEPTION

datatype ran =
  RanTimeout eloop_timeout reltime "eloop_timeout list"
| RanSock event_type eloop_sock
| RanSignal int

record 'w eloop =
  max_sock :: int
  total :: nat
  readers :: eloop_sock_table
  writers :: eloop_sock_table
  exceptions :: eloop_sock_table
  timeouts :: "eloop_timeout list"
  signals :: "eloop_signal list"
  signaled :: int
  pending_terminate :: bool
  terminate :: bool
  ticks :: nat
  world :: 'w
  trace :: "ran list"

text \<open>The calls a handler can make, and handlers as trees of calls.\<close>

datatype call =
  RegisterSock int event_type nat nat nat
| UnregisterSock int event_type
| RegisterTimeout u32 u32 nat nat nat
| CancelTimeout nat nat nat
| CancelTimeoutOne nat nat nat
| IsTimeoutRegistered nat nat nat
| DepleteTimeout u32 u32 nat nat nat
| ReplenishTimeout u32 u32 nat nat nat
| RegisterSignal int nat nat
| Terminate

type_synonym answer = "int \<times> reltime"

datatype 'w prog = Return 'w | Call call "answer \<Rightarrow> 'w prog"

record 'w env =
  clk :: "nat \<Rightarrow> reltime option"
  room :: "nat \<Rightarrow> bool"
  timeout_handler :: "nat \<Rightarrow> nat \<Rightarrow> nat \<Rightarrow> 'w \<Rightarrow> 'w prog"
  sock_handler :: "nat \<Rightarrow> int \<Rightarrow> nat \<Rightarrow> nat \<Rightarrow> 'w \<Rightarrow> 'w prog"
  signal_handler :: "nat \<Rightarrow> int \<Rightarrow> nat \<Rightarrow> 'w \<Rightarrow> 'w prog"

definition tick :: "'w eloop \<Rightarrow> 'w eloop" where
  "tick s = s\<lparr>ticks := ticks s + 1\<rparr>"

definition zero_time :: reltime where
  "zero_time = \<lparr>sec = 0, usec = 0\<rparr>"

definition eloop_init :: "'w \<Rightarrow> 'w eloop" where
  "eloop_init w =
     \<lparr>max_sock = 0, total = 0, readers = \<lparr>entries = [], changed = False\<rparr>,
      writers = \<lparr>entries = [], changed = False\<rparr>, exceptions = \<lparr>entries = [], changed = False\<rparr>,
      timeouts = [], signals = [], signaled = 0, pending_terminate = False, terminate = False,
      ticks = 0, world = w, trace = []\<rparr>"

section \<open>Sockets\<close>

definition eloop_get_sock_table :: "event_type \<Rightarrow> 'w eloop \<Rightarrow> eloop_sock_table" where
  "eloop_get_sock_table ty s =
     (case ty of EVENT_TYPE_READ \<Rightarrow> readers s | EVENT_TYPE_WRITE \<Rightarrow> writers s
      | EVENT_TYPE_EXCEPTION \<Rightarrow> exceptions s)"

definition put_sock_table :: "event_type \<Rightarrow> eloop_sock_table \<Rightarrow> 'w eloop \<Rightarrow> 'w eloop" where
  "put_sock_table ty t s =
     (case ty of EVENT_TYPE_READ \<Rightarrow> s\<lparr>readers := t\<rparr> | EVENT_TYPE_WRITE \<Rightarrow> s\<lparr>writers := t\<rparr>
      | EVENT_TYPE_EXCEPTION \<Rightarrow> s\<lparr>exceptions := t\<rparr>)"

definition eloop_sock_table_add_sock ::
  "'w env \<Rightarrow> event_type \<Rightarrow> int \<Rightarrow> nat \<Rightarrow> nat \<Rightarrow> nat \<Rightarrow> 'w eloop \<Rightarrow> int \<times> 'w eloop" where
  "eloop_sock_table_add_sock E ty fd h ed ud s =
     (let new_max_sock = (if fd > max_sock s then fd else max_sock s);
          table = eloop_get_sock_table ty s
      in if \<not> room E (ticks s) then (-1, tick s)
         else (0, (put_sock_table ty
                     \<lparr>entries = entries table @ [\<lparr>sock = fd, s_eloop_data = ed, s_user_data = ud, s_handler = h\<rparr>],
                      changed = True\<rparr> (tick s))
                   \<lparr>max_sock := new_max_sock, total := total s + 1\<rparr>))"

definition eloop_sock_table_remove_sock :: "event_type \<Rightarrow> int \<Rightarrow> 'w eloop \<Rightarrow> 'w eloop" where
  "eloop_sock_table_remove_sock ty fd s =
     (let table = eloop_get_sock_table ty s;
          i = length (takeWhile (\<lambda>e. sock e \<noteq> fd) (entries table))
      in if entries table = [] then s
         else if i = length (entries table) then s
         else (put_sock_table ty \<lparr>entries = take i (entries table) @ drop (i + 1) (entries table), changed = True\<rparr> s)
                \<lparr>total := total s - 1\<rparr>)"

text \<open>A negative socket fails the assertion.\<close>

definition eloop_register_sock ::
  "'w env \<Rightarrow> int \<Rightarrow> event_type \<Rightarrow> nat \<Rightarrow> nat \<Rightarrow> nat \<Rightarrow> 'w eloop \<Rightarrow> (int \<times> 'w eloop) option" where
  "eloop_register_sock E fd ty h ed ud s =
     (if fd < 0 then None else Some (eloop_sock_table_add_sock E ty fd h ed ud s))"

definition eloop_unregister_sock :: "int \<Rightarrow> event_type \<Rightarrow> 'w eloop \<Rightarrow> 'w eloop" where
  "eloop_unregister_sock fd ty s = eloop_sock_table_remove_sock ty fd s"

section \<open>Timeouts\<close>

definition LONG_MAX :: int where
  "LONG_MAX = 2 ^ 63 - 1"

definition ELOOP_ALL_CTX :: nat where
  "ELOOP_ALL_CTX = 2 ^ 64 - 1"

text \<open>The loop that carries microseconds into seconds.\<close>

function carry :: "int \<Rightarrow> int \<Rightarrow> reltime" where
  "carry s u = (if u \<ge> 1000000 then carry (s + 1) (u - 1000000) else \<lparr>sec = s, usec = u\<rparr>)"
  by pat_completeness auto
termination by (relation "measure (\<lambda>(s, u). nat u)") auto

text \<open>The walk that finds the place of a new timeout: before the first later one.\<close>

fun insert_timeout :: "eloop_timeout \<Rightarrow> eloop_timeout list \<Rightarrow> eloop_timeout list" where
  "insert_timeout t [] = [t]"
| "insert_timeout t (x # xs) = (if os_reltime_before (time t) (time x) then t # x # xs else x # insert_timeout t xs)"

text \<open>
  Overflow of the seconds beyond a \<open>long\<close> has no defined result; the tests of the source for a
  wrapped value stand as they are.
\<close>

definition eloop_register_timeout ::
  "'w env \<Rightarrow> u32 \<Rightarrow> u32 \<Rightarrow> nat \<Rightarrow> nat \<Rightarrow> nat \<Rightarrow> 'w eloop \<Rightarrow> (int \<times> 'w eloop) option" where
  "eloop_register_timeout E secs usecs h ed ud s =
     (if \<not> room E (ticks s) then Some (-1, tick s)
      else case clk E (ticks s + 1) of
        None \<Rightarrow> Some (-1, tick (tick s))
      | Some now \<Rightarrow>
          let now_sec = sec now; s1 = sec now + uint secs in
          if s1 > LONG_MAX then None
          else if s1 < now_sec then Some (0, tick (tick s))
          else
            let t = carry s1 (usec now + uint usecs) in
            if sec t > LONG_MAX then None
            else if sec t < now_sec then Some (0, tick (tick s))
            else Some (0, (tick (tick s))\<lparr>timeouts := insert_timeout
                   \<lparr>time = t, eloop_data = ed, user_data = ud, handler = h\<rparr> (timeouts s)\<rparr>))"

definition cancels :: "nat \<Rightarrow> nat \<Rightarrow> nat \<Rightarrow> eloop_timeout \<Rightarrow> bool" where
  "cancels h ed ud t \<longleftrightarrow>
     handler t = h \<and> (eloop_data t = ed \<or> ed = ELOOP_ALL_CTX) \<and> (user_data t = ud \<or> ud = ELOOP_ALL_CTX)"

fun cancel_loop :: "(eloop_timeout \<Rightarrow> bool) \<Rightarrow> int \<Rightarrow> eloop_timeout list \<Rightarrow> int \<times> eloop_timeout list" where
  "cancel_loop P removed [] = (removed, [])"
| "cancel_loop P removed (t # ts) =
     (if P t then cancel_loop P (removed + 1) ts
      else let (n, ts') = cancel_loop P removed ts in (n, t # ts'))"

definition eloop_cancel_timeout :: "nat \<Rightarrow> nat \<Rightarrow> nat \<Rightarrow> 'w eloop \<Rightarrow> int \<times> 'w eloop" where
  "eloop_cancel_timeout h ed ud s =
     (let (n, ts) = cancel_loop (cancels h ed ud) 0 (timeouts s) in (n, s\<lparr>timeouts := ts\<rparr>))"

definition is_timeout :: "nat \<Rightarrow> nat \<Rightarrow> nat \<Rightarrow> eloop_timeout \<Rightarrow> bool" where
  "is_timeout h ed ud t \<longleftrightarrow> handler t = h \<and> eloop_data t = ed \<and> user_data t = ud"

definition eloop_cancel_timeout_one ::
  "'w env \<Rightarrow> nat \<Rightarrow> nat \<Rightarrow> nat \<Rightarrow> 'w eloop \<Rightarrow> ((int \<times> reltime) \<times> 'w eloop) option" where
  "eloop_cancel_timeout_one E h ed ud s =
     (case clk E (ticks s) of
        None \<Rightarrow> None
      | Some now \<Rightarrow>
          case List.extract (is_timeout h ed ud) (timeouts s) of
            None \<Rightarrow> Some ((0, zero_time), tick s)
          | Some (pre, t, post) \<Rightarrow>
              Some ((1, if os_reltime_before now (time t) then os_reltime_sub (time t) now else zero_time),
                    (tick s)\<lparr>timeouts := pre @ post\<rparr>))"

definition eloop_is_timeout_registered :: "nat \<Rightarrow> nat \<Rightarrow> nat \<Rightarrow> 'w eloop \<Rightarrow> int" where
  "eloop_is_timeout_registered h ed ud s = (if \<exists>t\<in>set (timeouts s). is_timeout h ed ud t then 1 else 0)"

text \<open>The two functions that move a timeout differ only in the comparison.\<close>

definition change_timeout ::
  "(reltime \<Rightarrow> reltime \<Rightarrow> bool) \<Rightarrow> 'w env \<Rightarrow> u32 \<Rightarrow> u32 \<Rightarrow> nat \<Rightarrow> nat \<Rightarrow> nat \<Rightarrow> 'w eloop \<Rightarrow> (int \<times> 'w eloop) option" where
  "change_timeout move E req_secs req_usecs h ed ud s =
     (case List.find (is_timeout h ed ud) (timeouts s) of
        None \<Rightarrow> Some (-1, s)
      | Some t \<Rightarrow>
          (case clk E (ticks s) of
             None \<Rightarrow> None
           | Some now \<Rightarrow>
               let s = tick s;
                   requested = \<lparr>sec = uint req_secs, usec = uint req_usecs\<rparr>;
                   remaining = os_reltime_sub (time t) now
               in if move requested remaining then do {
                    (ret, s) \<leftarrow> eloop_register_timeout E req_secs req_usecs h ed ud (snd (eloop_cancel_timeout h ed ud s));
                    Some (1, s) }
                  else Some (0, s)))"

definition eloop_deplete_timeout ::
  "'w env \<Rightarrow> u32 \<Rightarrow> u32 \<Rightarrow> nat \<Rightarrow> nat \<Rightarrow> nat \<Rightarrow> 'w eloop \<Rightarrow> (int \<times> 'w eloop) option" where
  "eloop_deplete_timeout = change_timeout (\<lambda>requested remaining. os_reltime_before requested remaining)"

definition eloop_replenish_timeout ::
  "'w env \<Rightarrow> u32 \<Rightarrow> u32 \<Rightarrow> nat \<Rightarrow> nat \<Rightarrow> nat \<Rightarrow> 'w eloop \<Rightarrow> (int \<times> 'w eloop) option" where
  "eloop_replenish_timeout = change_timeout (\<lambda>requested remaining. os_reltime_before remaining requested)"

section \<open>Signals\<close>

definition SIGINT :: int where "SIGINT = 2"
definition SIGTERM :: int where "SIGTERM = 15"
definition SIGHUP :: int where "SIGHUP = 1"

fun count_signal :: "int \<Rightarrow> eloop_signal list \<Rightarrow> eloop_signal list" where
  "count_signal n [] = []"
| "count_signal n (x # xs) = (if sig x = n then x\<lparr>sig_signaled := sig_signaled x + 1\<rparr> # xs else x # count_signal n xs)"

text \<open>The alarm that kills a blocked process is left to the operating system.\<close>

definition eloop_handle_signal :: "int \<Rightarrow> 'w eloop \<Rightarrow> 'w eloop" where
  "eloop_handle_signal n s =
     (let s = (if (n = SIGINT \<or> n = SIGTERM) \<and> \<not> pending_terminate s then s\<lparr>pending_terminate := True\<rparr> else s)
      in s\<lparr>signaled := signaled s + 1, signals := count_signal n (signals s)\<rparr>)"

definition eloop_register_signal :: "'w env \<Rightarrow> int \<Rightarrow> nat \<Rightarrow> nat \<Rightarrow> 'w eloop \<Rightarrow> int \<times> 'w eloop" where
  "eloop_register_signal E n h ud s =
     (if \<not> room E (ticks s) then (-1, tick s)
      else (0, (tick s)\<lparr>signals := signals s @ [\<lparr>sig = n, sig_user_data = ud, sig_handler = h, sig_signaled = 0\<rparr>]\<rparr>))"

definition eloop_register_signal_terminate :: "'w env \<Rightarrow> nat \<Rightarrow> nat \<Rightarrow> 'w eloop \<Rightarrow> int \<times> 'w eloop" where
  "eloop_register_signal_terminate E h ud s =
     (let (ret, s) = eloop_register_signal E SIGINT h ud s
      in if ret = 0 then eloop_register_signal E SIGTERM h ud s else (ret, s))"

definition eloop_register_signal_reconfig :: "'w env \<Rightarrow> nat \<Rightarrow> nat \<Rightarrow> 'w eloop \<Rightarrow> int \<times> 'w eloop" where
  "eloop_register_signal_reconfig E h ud s = eloop_register_signal E SIGHUP h ud s"

definition eloop_terminate :: "'w eloop \<Rightarrow> 'w eloop" where
  "eloop_terminate s = s\<lparr>terminate := True\<rparr>"

definition eloop_terminated :: "'w eloop \<Rightarrow> bool" where
  "eloop_terminated s \<longleftrightarrow> terminate s \<or> pending_terminate s"

section \<open>Handlers\<close>

definition run_call :: "'w env \<Rightarrow> call \<Rightarrow> 'w eloop \<Rightarrow> (answer \<times> 'w eloop) option" where
  "run_call E c s =
     (let plain = (\<lambda>(n, s). ((n, zero_time), s)) in
      case c of
        RegisterSock fd ty h ed ud \<Rightarrow> map_option plain (eloop_register_sock E fd ty h ed ud s)
      | UnregisterSock fd ty \<Rightarrow> Some ((0, zero_time), eloop_unregister_sock fd ty s)
      | RegisterTimeout secs usecs h ed ud \<Rightarrow> map_option plain (eloop_register_timeout E secs usecs h ed ud s)
      | CancelTimeout h ed ud \<Rightarrow> Some (plain (eloop_cancel_timeout h ed ud s))
      | CancelTimeoutOne h ed ud \<Rightarrow> eloop_cancel_timeout_one E h ed ud s
      | IsTimeoutRegistered h ed ud \<Rightarrow> Some ((eloop_is_timeout_registered h ed ud s, zero_time), s)
      | DepleteTimeout secs usecs h ed ud \<Rightarrow> map_option plain (eloop_deplete_timeout E secs usecs h ed ud s)
      | ReplenishTimeout secs usecs h ed ud \<Rightarrow> map_option plain (eloop_replenish_timeout E secs usecs h ed ud s)
      | RegisterSignal n h ud \<Rightarrow> Some (plain (eloop_register_signal E n h ud s))
      | Terminate \<Rightarrow> Some ((0, zero_time), eloop_terminate s))"

primrec run_prog :: "'w env \<Rightarrow> 'w prog \<Rightarrow> 'w eloop \<Rightarrow> 'w eloop option" where
  "run_prog E (Return w) = (\<lambda>s. Some (s\<lparr>world := w\<rparr>))"
| "run_prog E (Call c k) = (\<lambda>s. do { as \<leftarrow> run_call E c s; run_prog E (k (fst as)) (snd as) })"

section \<open>The loop\<close>

partial_function (option) signal_loop :: "'w env \<Rightarrow> nat \<Rightarrow> 'w eloop \<Rightarrow> 'w eloop option" where
  "signal_loop E i s =
     (if i < length (signals s) then
        let x = signals s ! i in
        if sig_signaled x \<noteq> 0 then do {
          s \<leftarrow> run_prog E (signal_handler E (sig_handler x) (sig x) (sig_user_data x) (world s))
                 (s\<lparr>signals := (signals s)[i := x\<lparr>sig_signaled := 0\<rparr>], trace := trace s @ [RanSignal (sig x)]\<rparr>);
          signal_loop E (i + 1) s }
        else signal_loop E (i + 1) s
      else Some s)"

definition eloop_process_pending_signals :: "'w env \<Rightarrow> 'w eloop \<Rightarrow> 'w eloop option" where
  "eloop_process_pending_signals E s =
     (if signaled s = 0 then Some s
      else signal_loop E 0 (s\<lparr>signaled := 0, pending_terminate := False\<rparr>))"

text \<open>A descriptor set is the predicate of its members; a socket beyond its size is outside the object.\<close>

definition FD_SETSIZE :: int where
  "FD_SETSIZE = 1024"

definition eloop_sock_table_set_fds :: "eloop_sock_table \<Rightarrow> (int \<Rightarrow> bool) option" where
  "eloop_sock_table_set_fds table =
     (if list_all (\<lambda>e. 0 \<le> sock e \<and> sock e < FD_SETSIZE) (entries table)
      then Some (\<lambda>fd. fd \<in> sock ` set (entries table)) else None)"

partial_function (option) dispatch_loop ::
  "'w env \<Rightarrow> event_type \<Rightarrow> (int \<Rightarrow> bool) \<Rightarrow> nat \<Rightarrow> 'w eloop \<Rightarrow> 'w eloop option" where
  "dispatch_loop E ty fds i s =
     (let table = eloop_get_sock_table ty s in
      if i < length (entries table) then
        let e = entries table ! i in
        if fds (sock e) then do {
          s \<leftarrow> run_prog E (sock_handler E (s_handler e) (sock e) (s_eloop_data e) (s_user_data e) (world s))
                 (s\<lparr>trace := trace s @ [RanSock ty e]\<rparr>);
          if changed (eloop_get_sock_table ty s) then Some s else dispatch_loop E ty fds (i + 1) s }
        else dispatch_loop E ty fds (i + 1) s
      else Some s)"

definition eloop_sock_table_dispatch :: "'w env \<Rightarrow> event_type \<Rightarrow> (int \<Rightarrow> bool) \<Rightarrow> 'w eloop \<Rightarrow> 'w eloop option" where
  "eloop_sock_table_dispatch E ty fds s =
     (if entries (eloop_get_sock_table ty s) = [] then Some s
      else dispatch_loop E ty fds 0 (put_sock_table ty ((eloop_get_sock_table ty s)\<lparr>changed := False\<rparr>) s))"

text \<open>How long \<open>select\<close> may wait: until the first timeout, without limit when there is none.\<close>

definition select_wait :: "'w env \<Rightarrow> 'w eloop \<Rightarrow> (reltime option \<times> 'w eloop) option" where
  "select_wait E s =
     (case timeouts s of
        [] \<Rightarrow> Some (None, s)
      | t # _ \<Rightarrow> do {
          now \<leftarrow> clk E (ticks s);
          Some (Some (if os_reltime_before now (time t) then os_reltime_sub (time t) now else zero_time), tick s) })"

text \<open>At most one timeout is run in a round: the first, when it is due.\<close>

definition run_due_timeout :: "'w env \<Rightarrow> 'w eloop \<Rightarrow> 'w eloop option" where
  "run_due_timeout E s =
     (case timeouts s of
        [] \<Rightarrow> Some s
      | t # ts \<Rightarrow> do {
          now \<leftarrow> clk E (ticks s);
          if \<not> os_reltime_before now (time t) then
            run_prog E (timeout_handler E (handler t) (eloop_data t) (user_data t) (world s))
              ((tick s)\<lparr>timeouts := ts, trace := trace s @ [RanTimeout t now ts]\<rparr>)
          else Some (tick s) })"

text \<open>
  What the operating system answers in one round: the signals delivered before and during the wait, the
  result of \<open>select\<close>, whether an error is one other than an interruption, and which sockets are ready.
\<close>

record wake =
  sigs_before :: "int list"
  sigs_during :: "int list"
  res :: int
  fatal :: bool
  ready :: "event_type \<Rightarrow> int \<Rightarrow> bool"

definition any_changed :: "'w eloop \<Rightarrow> bool" where
  "any_changed s \<longleftrightarrow> changed (readers s) \<or> changed (writers s) \<or> changed (exceptions s)"

definition clear_changed :: "'w eloop \<Rightarrow> 'w eloop" where
  "clear_changed s = s\<lparr>readers := (readers s)\<lparr>changed := False\<rparr>, writers := (writers s)\<lparr>changed := False\<rparr>,
     exceptions := (exceptions s)\<lparr>changed := False\<rparr>\<rparr>"

datatype leave = Next | Break | Out

text \<open>One round of the loop in two parts: up to the return of \<open>select\<close>, and the dispatching.\<close>

definition round_dispatch ::
  "'w env \<Rightarrow> wake \<Rightarrow> (event_type \<Rightarrow> int \<Rightarrow> bool) \<Rightarrow> 'w eloop \<Rightarrow> (leave \<times> 'w eloop) option" where
  "round_dispatch E w fds s = do {
     s \<leftarrow> eloop_process_pending_signals E (clear_changed s);
     s \<leftarrow> run_due_timeout E s;
     if res w \<le> 0 then Some (Next, s)
     else if any_changed s then Some (Next, s)
     else do {
       s \<leftarrow> eloop_sock_table_dispatch E EVENT_TYPE_READ (fds EVENT_TYPE_READ) s;
       s \<leftarrow> eloop_sock_table_dispatch E EVENT_TYPE_WRITE (fds EVENT_TYPE_WRITE) s;
       s \<leftarrow> eloop_sock_table_dispatch E EVENT_TYPE_EXCEPTION (fds EVENT_TYPE_EXCEPTION) s;
       Some (Next, s) } }"

definition round_select :: "'w env \<Rightarrow> wake \<Rightarrow> 'w eloop \<Rightarrow> (leave \<times> 'w eloop) option" where
  "round_select E w s = do {
     (wait, s) \<leftarrow> select_wait E s;
     r \<leftarrow> eloop_sock_table_set_fds (readers s);
     wr \<leftarrow> eloop_sock_table_set_fds (writers s);
     ex \<leftarrow> eloop_sock_table_set_fds (exceptions s);
     let fds = (\<lambda>ty fd. (case ty of EVENT_TYPE_READ \<Rightarrow> r fd | EVENT_TYPE_WRITE \<Rightarrow> wr fd
                         | EVENT_TYPE_EXCEPTION \<Rightarrow> ex fd) \<and> ready w ty fd);
     let s = fold eloop_handle_signal (sigs_during w) s;
     if res w < 0 \<and> fatal w then Some (Out, s)
     else round_dispatch E w fds s }"

definition eloop_round :: "'w env \<Rightarrow> wake \<Rightarrow> 'w eloop \<Rightarrow> (leave \<times> 'w eloop) option" where
  "eloop_round E w s =
     (let s = fold eloop_handle_signal (sigs_before w) s in
      if pending_terminate s then do {
        s \<leftarrow> eloop_process_pending_signals E s;
        if terminate s then Some (Break, s) else round_select E w s }
      else round_select E w s)"

definition loop_goes :: "'w eloop \<Rightarrow> bool" where
  "loop_goes s \<longleftrightarrow> \<not> terminate s \<and>
     (timeouts s \<noteq> [] \<or> entries (readers s) \<noteq> [] \<or> entries (writers s) \<noteq> [] \<or> entries (exceptions s) \<noteq> [])"

text \<open>
  The loop on the answers of successive rounds: the state, and whether the function has returned. It has
  not when the answers given are used up and it would go round again.
\<close>

fun run_rounds :: "'w env \<Rightarrow> wake list \<Rightarrow> 'w eloop \<Rightarrow> (bool \<times> 'w eloop) option" where
  "run_rounds E ws s =
     (if \<not> loop_goes s then Some (True, s\<lparr>terminate := False\<rparr>)
      else case ws of
        [] \<Rightarrow> Some (False, s)
      | w # ws \<Rightarrow> do {
          (l, s) \<leftarrow> eloop_round E w s;
          (case l of
             Next \<Rightarrow> run_rounds E ws s
           | Break \<Rightarrow> Some (True, s\<lparr>terminate := False\<rparr>)
           | Out \<Rightarrow> Some (True, s)) })"

text \<open>Three descriptor sets are allocated first; without them the function returns at once.\<close>

definition eloop_run :: "'w env \<Rightarrow> wake list \<Rightarrow> 'w eloop \<Rightarrow> (bool \<times> 'w eloop) option" where
  "eloop_run E ws s =
     (let granted = (room E (ticks s) \<and> room E (ticks s + 1) \<and> room E (ticks s + 2));
          s = tick (tick (tick s))
      in if \<not> granted then Some (True, s) else run_rounds E ws s)"

section \<open>What a call changes\<close>

declare signal_loop.simps [code] dispatch_loop.simps [code]
declare carry.simps [simp del] run_rounds.simps [simp del]

lemma table_simps [simp]:
  "eloop_get_sock_table ty (put_sock_table ty' t s) = (if ty = ty' then t else eloop_get_sock_table ty s)"
  "eloop_get_sock_table ty (s\<lparr>max_sock := m\<rparr>) = eloop_get_sock_table ty s"
  "eloop_get_sock_table ty (s\<lparr>total := c\<rparr>) = eloop_get_sock_table ty s"
  "eloop_get_sock_table ty (s\<lparr>timeouts := ts\<rparr>) = eloop_get_sock_table ty s"
  "eloop_get_sock_table ty (s\<lparr>signals := gs\<rparr>) = eloop_get_sock_table ty s"
  "eloop_get_sock_table ty (s\<lparr>terminate := b\<rparr>) = eloop_get_sock_table ty s"
  "eloop_get_sock_table ty (s\<lparr>world := x\<rparr>) = eloop_get_sock_table ty s"
  "eloop_get_sock_table ty (s\<lparr>trace := tr\<rparr>) = eloop_get_sock_table ty s"
  "eloop_get_sock_table ty (s\<lparr>signaled := n\<rparr>) = eloop_get_sock_table ty s"
  "eloop_get_sock_table ty (s\<lparr>pending_terminate := b\<rparr>) = eloop_get_sock_table ty s"
  "eloop_get_sock_table ty (tick s) = eloop_get_sock_table ty s"
  by (auto simp: eloop_get_sock_table_def put_sock_table_def tick_def split: event_type.splits)

lemma put_simps [simp]:
  "timeouts (put_sock_table ty t s) = timeouts s" "signals (put_sock_table ty t s) = signals s"
  "trace (put_sock_table ty t s) = trace s" "max_sock (put_sock_table ty t s) = max_sock s"
  "total (put_sock_table ty t s) = total s" "terminate (put_sock_table ty t s) = terminate s"
  "world (put_sock_table ty t s) = world s" "ticks (put_sock_table ty t s) = ticks s"
  by (auto simp: put_sock_table_def split: event_type.splits)

lemma tick_simps [simp]:
  "timeouts (tick s) = timeouts s" "signals (tick s) = signals s" "trace (tick s) = trace s"
  "max_sock (tick s) = max_sock s" "total (tick s) = total s" "terminate (tick s) = terminate s"
  "ticks (tick s) = ticks s + 1" "world (tick s) = world s"
  by (simp_all add: tick_def)

lemmas call_defs [c_defs] =
  eloop_register_sock_def eloop_sock_table_add_sock_def eloop_unregister_sock_def
  eloop_sock_table_remove_sock_def eloop_cancel_timeout_def eloop_terminate_def
  eloop_register_signal_def eloop_deplete_timeout_def eloop_replenish_timeout_def

lemma register_timeout_cases:
  assumes "eloop_register_timeout E secs usecs h ed ud s = Some (n, s')"
  obtains "s' = tick s" | "s' = tick (tick s)"
  | now t where "clk E (ticks s + 1) = Some now" "t = carry (sec now + uint secs) (usec now + uint usecs)" "n = 0"
      "s' = (tick (tick s))\<lparr>timeouts := insert_timeout \<lparr>time = t, eloop_data = ed, user_data = ud, handler = h\<rparr> (timeouts s)\<rparr>"
  using assms by (auto simp: eloop_register_timeout_def Let_def split: if_splits option.splits)

lemma cancel_loop_eq:
  "cancel_loop P n ts = (n + int (length (filter P ts)), filter (\<lambda>t. \<not> P t) ts)"
  by (induction P n ts rule: cancel_loop.induct) (auto split: prod.splits)

lemma cancel_timeout_eq:
  "eloop_cancel_timeout h ed ud s =
     (int (length (filter (cancels h ed ud) (timeouts s))), s\<lparr>timeouts := filter (\<lambda>t. \<not> cancels h ed ud t) (timeouts s)\<rparr>)"
  by (simp add: eloop_cancel_timeout_def cancel_loop_eq)

text \<open>
  A call leaves the trace, adds signals at the end with none pending, and a table it changes has its
  flag set.
\<close>

definition call_frame :: "'w eloop \<Rightarrow> 'w eloop \<Rightarrow> bool" where
  "call_frame s s' \<longleftrightarrow> trace s' = trace s \<and>
     (\<exists>gs. signals s' = signals s @ gs \<and> (\<forall>g\<in>set gs. sig_signaled g = 0)) \<and>
     (\<forall>ty. eloop_get_sock_table ty s' = eloop_get_sock_table ty s \<or> changed (eloop_get_sock_table ty s'))"

lemma call_frame_refl [simp]: "call_frame s s"
  by (simp add: call_frame_def)

lemma call_frame_trans: "call_frame s t \<Longrightarrow> call_frame t u \<Longrightarrow> call_frame s u"
  unfolding call_frame_def by (auto, metis)

lemma call_frame_timeout [simp]:
  "call_frame s (s\<lparr>timeouts := ts\<rparr>)" "call_frame s (tick s)" "call_frame s ((tick s)\<lparr>timeouts := ts\<rparr>)"
  "call_frame s (tick (tick s))" "call_frame s ((tick (tick s))\<lparr>timeouts := ts\<rparr>)"
  by (simp_all add: call_frame_def)

lemma register_timeout_frame:
  "eloop_register_timeout E secs usecs h ed ud s = Some (n, s') \<Longrightarrow> call_frame s s'"
  by (erule register_timeout_cases) auto

lemma change_timeout_frame:
  assumes "change_timeout move E secs usecs h ed ud s = Some (n, s')"
  shows "call_frame s s'"
proof -
  have "call_frame (tick s\<lparr>timeouts := ts\<rparr>) s' \<Longrightarrow> call_frame s s'" for ts
    by (rule call_frame_trans [OF call_frame_timeout(3)])
  then show ?thesis using assms
    by (auto simp: change_timeout_def Let_def cancel_timeout_eq split: option.splits if_splits Option.bind_splits
        dest!: register_timeout_frame)
qed

lemma run_call_frame:
  assumes "run_call E c s = Some (a, s')"
  shows "call_frame s s'"
proof (cases c)
  case (RegisterTimeout)
  then show ?thesis using assms by (auto simp: run_call_def dest: register_timeout_frame)
next
  case (DepleteTimeout)
  then show ?thesis using assms by (auto simp: run_call_def eloop_deplete_timeout_def dest: change_timeout_frame)
next
  case (ReplenishTimeout)
  then show ?thesis using assms by (auto simp: run_call_def eloop_replenish_timeout_def dest: change_timeout_frame)
next
  case (CancelTimeoutOne)
  then show ?thesis using assms
    by (auto simp: run_call_def eloop_cancel_timeout_one_def split: option.splits)
qed (use assms in \<open>auto simp: run_call_def call_frame_def cancel_timeout_eq c_defs Let_def split: if_splits\<close>)

lemma run_prog_frame: "run_prog E p s = Some s' \<Longrightarrow> call_frame s s'"
proof (induction p arbitrary: s)
  case (Return w)
  then show ?case by (auto simp: call_frame_def)
next
  case (Call c k)
  then obtain a s1 where "run_call E c s = Some (a, s1)" "run_prog E (k a) s1 = Some s'"
    by (auto split: Option.bind_splits)
  then show ?case using call_frame_trans [OF run_call_frame Call.IH [OF rangeI]] by simp
qed

section \<open>Invariants of the loop\<close>

text \<open>
  A property of the state that the calls in the handlers keep, and that does not depend on the flags, the signals and the world, is
  kept by the handlers, by each round and by the whole loop.
\<close>

definition neutral :: "'w eloop \<Rightarrow> 'w eloop \<Rightarrow> bool" where
  "neutral s s' \<longleftrightarrow> timeouts s' = timeouts s \<and> total s' = total s \<and> max_sock s' = max_sock s \<and>
     (\<forall>ty. entries (eloop_get_sock_table ty s') = entries (eloop_get_sock_table ty s)) \<and>
     (\<forall>t now ts. RanTimeout t now ts \<in> set (trace s') \<longleftrightarrow> RanTimeout t now ts \<in> set (trace s))"

primrec prog_all :: "(call \<Rightarrow> bool) \<Rightarrow> 'w prog \<Rightarrow> bool" where
  "prog_all C (Return w) = True"
| "prog_all C (Call c k) = (C c \<and> (\<forall>a. prog_all C (k a)))"

definition handlers_all :: "(call \<Rightarrow> bool) \<Rightarrow> 'w env \<Rightarrow> bool" where
  "handlers_all C E \<longleftrightarrow> (\<forall>h ed ud w. prog_all C (timeout_handler E h ed ud w)) \<and>
     (\<forall>h fd ed ud w. prog_all C (sock_handler E h fd ed ud w)) \<and>
     (\<forall>h n ud w. prog_all C (signal_handler E h n ud w))"

lemma prog_all_True [simp]: "prog_all (\<lambda>_. True) p"
  by (induction p) auto

lemma handlers_all_True [simp]: "handlers_all (\<lambda>_. True) E"
  by (simp add: handlers_all_def)

locale loop_invariant =
  fixes E :: "'w env" and C :: "call \<Rightarrow> bool" and I :: "'w eloop \<Rightarrow> bool"
  assumes handlers: "handlers_all C E"
    and call: "I s \<Longrightarrow> C c \<Longrightarrow> run_call E c s = Some (a, s') \<Longrightarrow> I s'"
    and neutral: "I s \<Longrightarrow> neutral s s' \<Longrightarrow> I s'"
    and due: "I s \<Longrightarrow> timeouts s = t # ts \<Longrightarrow> \<not> os_reltime_before now (time t) \<Longrightarrow>
      I ((tick s)\<lparr>timeouts := ts, trace := trace s @ [RanTimeout t now ts]\<rparr>)"
begin

lemma prog: "I s \<Longrightarrow> prog_all C p \<Longrightarrow> run_prog E p s = Some s' \<Longrightarrow> I s'"
proof (induction p arbitrary: s)
  case (Return w)
  then show ?case by (auto intro: neutral [of s] simp: neutral_def)
next
  case (Call c k)
  then obtain a s1 where "run_call E c s = Some (a, s1)" "run_prog E (k a) s1 = Some s'"
    by (auto split: Option.bind_splits)
  moreover have "I s1" using call [OF Call.prems(1)] Call.prems(2) \<open>run_call E c s = Some (a, s1)\<close>
    unfolding prog_all.simps by blast
  ultimately show ?case using Call.IH [OF rangeI] Call.prems(2) unfolding prog_all.simps by blast
qed

lemma timeout_handler_keeps:
  "I s \<Longrightarrow> run_prog E (timeout_handler E h ed ud w) s = Some s' \<Longrightarrow> I s'"
  using handlers prog unfolding handlers_all_def by blast

lemma sock_handler_keeps:
  "I s \<Longrightarrow> run_prog E (sock_handler E h fd ed ud w) s = Some s' \<Longrightarrow> I s'"
  using handlers prog unfolding handlers_all_def by blast

lemma signal_handler_keeps:
  "I s \<Longrightarrow> run_prog E (signal_handler E h n ud w) s = Some s' \<Longrightarrow> I s'"
  using handlers prog unfolding handlers_all_def by blast

lemma signal_loop_keeps: "signal_loop E' i s = Some s' \<Longrightarrow> E' = E \<Longrightarrow> I s \<Longrightarrow> I s'"
proof (induction E' i s s' rule: signal_loop.raw_induct [rotated, consumes 1, case_names step])
  case (step loop E' i s s')
  have ghost: "I (s\<lparr>signals := gs, trace := trace s @ [RanSignal n]\<rparr>)" for gs n
    using step.prems(2) by (auto intro: neutral [of s] simp: neutral_def)
  show ?case
    using step.hyps step.prems signal_handler_keeps [OF ghost] step.IH
    by (auto simp: Let_def split: if_splits Option.bind_splits)
qed

lemma dispatch_loop_keeps: "dispatch_loop E' ty fds i s = Some s' \<Longrightarrow> E' = E \<Longrightarrow> I s \<Longrightarrow> I s'"
proof (induction E' ty fds i s s' rule: dispatch_loop.raw_induct [rotated, consumes 1, case_names step])
  case (step loop E' ty fds i s s')
  have ghost: "I (s\<lparr>trace := trace s @ [RanSock ty e]\<rparr>)" for ty e
    using step.prems(2) by (auto intro: neutral [of s] simp: neutral_def)
  show ?case
    using step.hyps step.prems sock_handler_keeps [OF ghost] step.IH
    by (auto simp: Let_def split: if_splits Option.bind_splits)
qed

lemma dispatch_keeps:
  assumes "I s" "eloop_sock_table_dispatch E ty fds s = Some s'"
  shows "I s'"
proof -
  have "I (put_sock_table ty ((eloop_get_sock_table ty s)\<lparr>changed := False\<rparr>) s)"
    using assms(1) by (auto intro: neutral [of s] simp: neutral_def)
  then show ?thesis using assms dispatch_loop_keeps
    by (auto simp: eloop_sock_table_dispatch_def split: if_splits)
qed

lemma pending_signals_keeps:
  assumes "I s" "eloop_process_pending_signals E s = Some s'"
  shows "I s'"
proof -
  have "I (s\<lparr>signaled := 0, pending_terminate := False\<rparr>)"
    using assms(1) by (auto intro: neutral [of s] simp: neutral_def)
  then show ?thesis using assms signal_loop_keeps
    by (auto simp: eloop_process_pending_signals_def split: if_splits)
qed

lemma due_timeout_keeps: "I s \<Longrightarrow> run_due_timeout E s = Some s' \<Longrightarrow> I s'"
  by (auto simp: run_due_timeout_def split: list.splits if_splits Option.bind_splits
      intro: timeout_handler_keeps [OF due] neutral [of s] simp: neutral_def)

lemma signals_keep: "I s \<Longrightarrow> I (fold eloop_handle_signal ns s)"
proof (induction ns arbitrary: s)
  case (Cons n ns)
  have "I (eloop_handle_signal n s)"
    using Cons.prems by (auto intro: neutral [of s] simp: neutral_def eloop_handle_signal_def Let_def)
  then show ?case using Cons.IH by simp
qed simp

lemma dispatching_keeps:
  assumes "I s" "round_dispatch E w fds s = Some (l, s')"
  shows "I s'"
proof -
  have "I (clear_changed s)"
    using assms(1) by (auto intro: neutral [of s] simp: neutral_def clear_changed_def eloop_get_sock_table_def
        split: event_type.splits)
  moreover obtain s1 s2 where s1: "eloop_process_pending_signals E (clear_changed s) = Some s1"
      and s2: "run_due_timeout E s1 = Some s2"
    using assms(2) by (auto simp: round_dispatch_def split: Option.bind_splits)
  ultimately have I2: "I s2" using pending_signals_keeps due_timeout_keeps by blast
  show ?thesis
  proof (cases "res w \<le> 0 \<or> any_changed s2")
    case True
    then show ?thesis using assms(2) s1 s2 I2 by (auto simp: round_dispatch_def split: if_splits)
  next
    case False
    then obtain s3 s4 where "eloop_sock_table_dispatch E EVENT_TYPE_READ (fds EVENT_TYPE_READ) s2 = Some s3"
      "eloop_sock_table_dispatch E EVENT_TYPE_WRITE (fds EVENT_TYPE_WRITE) s3 = Some s4"
      "eloop_sock_table_dispatch E EVENT_TYPE_EXCEPTION (fds EVENT_TYPE_EXCEPTION) s4 = Some s'"
      using assms(2) s1 s2 by (auto simp: round_dispatch_def split: Option.bind_splits)
    then show ?thesis using I2 dispatch_keeps by metis
  qed
qed

lemma select_keeps:
  assumes "I s" "round_select E w s = Some (l, s')"
  shows "I s'"
proof -
  have "I s1" if "select_wait E s = Some (wait, s1)" for wait s1
    using that assms(1) by (auto simp: select_wait_def split: list.splits Option.bind_splits
        intro: neutral [of s] simp: neutral_def)
  then show ?thesis using assms(2)
    by (auto simp: round_select_def Let_def split: if_splits Option.bind_splits intro: dispatching_keeps [OF signals_keep] signals_keep)
qed

lemma round_keeps:
  assumes "I s" "eloop_round E w s = Some (l, s')"
  shows "I s'"
  using signals_keep [OF assms(1), of "sigs_before w"] assms(2)
  by (auto simp: eloop_round_def Let_def split: if_splits Option.bind_splits
      intro: pending_signals_keeps select_keeps)

lemma rounds_keep: "I s \<Longrightarrow> run_rounds E ws s = Some (b, s') \<Longrightarrow> I s'"
proof (induction ws arbitrary: s)
  case Nil
  then show ?case
    by (subst (asm) run_rounds.simps) (auto split: if_splits intro: neutral [of s] simp: neutral_def)
next
  case (Cons w ws)
  have ended: "I (s\<lparr>terminate := x\<rparr>)" if "I s" for s :: "'w eloop" and x
    using that by (auto intro: neutral [of s] simp: neutral_def)
  show ?case
  proof (cases "loop_goes s")
    case True
    then obtain l s1 where l: "eloop_round E w s = Some (l, s1)"
      using Cons.prems(2) by (subst (asm) run_rounds.simps) (auto split: Option.bind_splits)
    have I1: "I s1" using round_keeps [OF Cons.prems(1) l] .
    show ?thesis
      using Cons.prems(2) True l I1 ended [OF I1] Cons.IH [OF I1]
      by (subst (asm) run_rounds.simps) (auto split: leave.splits)
  next
    case False
    then show ?thesis using Cons.prems ended by (subst (asm) run_rounds.simps) auto
  qed
qed

lemma run_keeps:
  assumes "I s" "eloop_run E ws s = Some (b, s')"
  shows "I s'"
proof -
  have "I (tick (tick (tick s)))" using assms(1) by (auto intro: neutral [of s] simp: neutral_def)
  then show ?thesis using assms(2) rounds_keep by (auto simp: eloop_run_def Let_def split: if_splits)
qed

end

section \<open>Order of the timeouts and bookkeeping of the sockets\<close>

definition in_order :: "eloop_timeout list \<Rightarrow> bool" where
  "in_order ts \<longleftrightarrow> sorted_wrt (\<lambda>a b. \<not> os_reltime_before (time b) (time a)) ts"

definition ran_due :: "ran \<Rightarrow> bool" where
  "ran_due r = (case r of RanTimeout t now ts \<Rightarrow>
      \<not> os_reltime_before now (time t) \<and> list_all (\<lambda>x. \<not> os_reltime_before (time x) (time t)) ts | _ \<Rightarrow> True)"

definition eloop_ok :: "'w eloop \<Rightarrow> bool" where
  "eloop_ok s \<longleftrightarrow> in_order (timeouts s) \<and> (\<forall>t\<in>set (timeouts s). time_ok (time t)) \<and>
     (\<forall>ty. \<forall>e\<in>set (entries (eloop_get_sock_table ty s)). 0 \<le> sock e \<and> sock e \<le> max_sock s) \<and>
     total s = length (entries (eloop_get_sock_table EVENT_TYPE_READ s)) +
       length (entries (eloop_get_sock_table EVENT_TYPE_WRITE s)) +
       length (entries (eloop_get_sock_table EVENT_TYPE_EXCEPTION s)) \<and>
     (\<forall>t now ts. RanTimeout t now ts \<in> set (trace s) \<longrightarrow> ran_due (RanTimeout t now ts))"

definition clock_ok :: "'w env \<Rightarrow> bool" where
  "clock_ok E \<longleftrightarrow> (\<forall>n t. clk E n = Some t \<longrightarrow> time_ok t)"

lemma set_insert_timeout [simp]: "set (insert_timeout t ts) = insert t (set ts)"
  by (induction ts) auto

lemma in_order_insert [simp]: "in_order ts \<Longrightarrow> in_order (insert_timeout t ts)"
proof (induction ts)
  case (Cons x ts)
  then show ?case
    using not_before_trans [of "time x" "time t"]
    by (auto simp: in_order_def dest: before_asym)
qed (simp add: in_order_def)

lemma in_order_filter [simp]: "in_order ts \<Longrightarrow> in_order (filter P ts)"
  by (simp add: in_order_def sorted_wrt_filter)

lemma in_order_remove: "in_order (xs @ y # ys) \<Longrightarrow> in_order (xs @ ys)"
  by (auto simp: in_order_def sorted_wrt_append)

lemma carry_ok: "0 \<le> u \<Longrightarrow> time_ok (carry s u) \<and> micros (carry s u) = s * 1000000 + u"
proof (induction s u rule: carry.induct)
  case (1 s u)
  then show ?case by (subst (1 2) carry.simps) (auto simp: time_ok_def micros_def algebra_simps)
qed

lemma eloop_ok_timeouts:
  assumes "eloop_ok s" "in_order ts" "\<forall>t\<in>set ts. time_ok (time t)"
    and "trace s' = trace s" "max_sock s' = max_sock s" "total s' = total s" "timeouts s' = ts"
      "\<And>ty. eloop_get_sock_table ty s' = eloop_get_sock_table ty s"
  shows "eloop_ok s'"
  using assms by (simp add: eloop_ok_def)

lemma eloop_ok_register_timeout:
  assumes "clock_ok E" "eloop_ok s" "eloop_register_timeout E secs usecs h ed ud s = Some (n, s')"
  shows "eloop_ok s'"
  using assms(3)
proof (cases rule: register_timeout_cases)
  case (3 now t)
  have "0 \<le> usec now + uint usecs" using assms(1) 3(1) by (auto simp: clock_ok_def time_ok_def)
  then have "time_ok t" using carry_ok 3(2) by blast
  then show ?thesis using assms(2) 3 by (intro eloop_ok_timeouts [OF assms(2)]) (auto simp: eloop_ok_def)
qed (use assms(2) in \<open>auto intro: eloop_ok_timeouts simp: eloop_ok_def\<close>)

lemma eloop_ok_cancel: "eloop_ok s \<Longrightarrow> eloop_ok (snd (eloop_cancel_timeout h ed ud s))"
  by (rule eloop_ok_timeouts [of s "filter (\<lambda>t. \<not> cancels h ed ud t) (timeouts s)"])
     (auto simp: cancel_timeout_eq eloop_ok_def)

lemma eloop_ok_tick [simp]: "eloop_ok (tick s) = eloop_ok s"
  by (simp add: eloop_ok_def)

lemma eloop_ok_change:
  assumes "clock_ok E" "eloop_ok s" "change_timeout move E secs usecs h ed ud s = Some (n, s')"
  shows "eloop_ok s'"
  using assms eloop_ok_cancel [of "tick s" h ed ud]
  by (auto simp: change_timeout_def Let_def split: option.splits if_splits Option.bind_splits
      intro: eloop_ok_register_timeout)

lemma eloop_ok_cancel_one:
  assumes "eloop_ok s" "eloop_cancel_timeout_one E h ed ud s = Some (a, s')"
  shows "eloop_ok s'"
proof (cases "List.extract (is_timeout h ed ud) (timeouts s)")
  case (Some r)
  then obtain pre t post where r: "List.extract (is_timeout h ed ud) (timeouts s) = Some (pre, t, post)" by (cases r) auto
  then have "timeouts s = pre @ t # post" by (simp add: extract_Some_iff)
  then show ?thesis using assms r
    by (auto simp: eloop_cancel_timeout_one_def split: option.splits
        intro!: eloop_ok_timeouts [of s "pre @ post"] in_order_remove [of pre t post] simp: eloop_ok_def)
qed (use assms in \<open>auto simp: eloop_cancel_timeout_one_def split: option.splits\<close>)

lemma eloop_ok_table:
  assumes "eloop_ok s" "\<forall>e\<in>set es. 0 \<le> sock e \<and> sock e \<le> max_sock s'" "max_sock s \<le> max_sock s'"
    and "total s' + length (entries (eloop_get_sock_table ty s)) = total s + length es"
    and "\<And>ty'. entries (eloop_get_sock_table ty' s') = (if ty' = ty then es else entries (eloop_get_sock_table ty' s))"
      "timeouts s' = timeouts s" "trace s' = trace s"
  shows "eloop_ok s'"
proof -
  have "0 \<le> sock e \<and> sock e \<le> max_sock s'" if "e \<in> set (entries (eloop_get_sock_table ty' s'))" for ty' e
  proof (cases "ty' = ty")
    case False
    then have "0 \<le> sock e \<and> sock e \<le> max_sock s" using that assms(1,5) by (auto simp: eloop_ok_def)
    then show ?thesis using assms(3) by simp
  qed (use that assms(2,5) in auto)
  then show ?thesis using assms(1,4-7) by (cases ty) (auto simp: eloop_ok_def)
qed

lemma eloop_ok_register_sock:
  assumes "eloop_ok s" "eloop_register_sock E fd ty h ed ud s = Some (n, s')"
  shows "eloop_ok s'"
proof (cases "room E (ticks s)")
  case True
  let ?es = "entries (eloop_get_sock_table ty s) @ [\<lparr>sock = fd, s_eloop_data = ed, s_user_data = ud, s_handler = h\<rparr>]"
  have fd: "fd \<ge> 0" and s': "s' = (put_sock_table ty \<lparr>entries = ?es, changed = True\<rparr> (tick s))
      \<lparr>max_sock := (if fd > max_sock s then fd else max_sock s), total := total s + 1\<rparr>"
    using assms(2) True by (auto simp: eloop_register_sock_def eloop_sock_table_add_sock_def Let_def split: if_splits)
  show ?thesis unfolding s'
    by (rule eloop_ok_table [OF assms(1), of ?es _ ty]) (use assms(1) fd in \<open>fastforce simp: eloop_ok_def\<close>)+
qed (use assms in \<open>auto simp: eloop_register_sock_def eloop_sock_table_add_sock_def split: if_splits\<close>)

lemma unregister_sock_cases:
  obtains "eloop_unregister_sock fd ty s = s"
  | es where "eloop_unregister_sock fd ty s =
      (put_sock_table ty \<lparr>entries = es, changed = True\<rparr> s)\<lparr>total := total s - 1\<rparr>"
      "length (entries (eloop_get_sock_table ty s)) = length es + 1"
      "set es \<subseteq> set (entries (eloop_get_sock_table ty s))"
proof -
  define es where "es = entries (eloop_get_sock_table ty s)"
  define i where "i = length (takeWhile (\<lambda>e. sock e \<noteq> fd) es)"
  define es' where "es' = take i es @ drop (i + 1) es"
  show thesis
  proof (cases "es = [] \<or> i = length es")
    case False
    then have "i < length es" unfolding i_def using length_takeWhile_le less_le by blast
    then have "length es = length es' + 1" "set es' \<subseteq> set es"
      by (auto simp: es'_def dest: in_set_takeD in_set_dropD)
    moreover have "eloop_unregister_sock fd ty s =
        (put_sock_table ty \<lparr>entries = es', changed = True\<rparr> s)\<lparr>total := total s - 1\<rparr>"
      using False by (simp add: eloop_unregister_sock_def eloop_sock_table_remove_sock_def Let_def es_def i_def es'_def)
    ultimately show thesis using that(2) by (simp add: es_def)
  qed (use that(1) in \<open>auto simp: eloop_unregister_sock_def eloop_sock_table_remove_sock_def Let_def es_def i_def\<close>)
qed

lemma eloop_ok_unregister_sock:
  assumes "eloop_ok s"
  shows "eloop_ok (eloop_unregister_sock fd ty s)"
proof (cases rule: unregister_sock_cases [of fd ty s])
  case (2 es)
  have "length (entries (eloop_get_sock_table ty s)) \<le> total s" using assms by (cases ty) (auto simp: eloop_ok_def)
  then show ?thesis using 2 assms by (intro eloop_ok_table [OF assms, of es _ ty]) (auto simp: eloop_ok_def)
qed (use assms in simp)

lemma eloop_ok_call:
  assumes "clock_ok E" "eloop_ok s" "run_call E c s = Some (a, s')"
  shows "eloop_ok s'"
proof (cases c)
  case (RegisterSignal n h ud)
  then show ?thesis using assms by (auto simp: run_call_def eloop_register_signal_def eloop_ok_def split: if_splits)
next
  case Terminate
  then show ?thesis using assms by (auto simp: run_call_def eloop_terminate_def eloop_ok_def)
next
  case (CancelTimeout h ed ud)
  then show ?thesis using assms eloop_ok_cancel [of s h ed ud] by (auto simp: run_call_def split: prod.splits)
qed (use assms in \<open>auto simp: run_call_def eloop_deplete_timeout_def eloop_replenish_timeout_def
       intro: eloop_ok_register_sock eloop_ok_unregister_sock eloop_ok_register_timeout eloop_ok_cancel_one eloop_ok_change\<close>)

interpretation ok: loop_invariant E "\<lambda>_. True" "\<lambda>s. clock_ok E \<longrightarrow> eloop_ok s" for E :: "'w env"
proof unfold_locales
  fix s s' :: "'w eloop"
  assume "clock_ok E \<longrightarrow> eloop_ok s" "neutral s s'"
  then show "clock_ok E \<longrightarrow> eloop_ok s'" by (auto simp: eloop_ok_def neutral_def)
next
  fix s :: "'w eloop" and t ts now
  assume "clock_ok E \<longrightarrow> eloop_ok s" "timeouts s = t # ts" "\<not> os_reltime_before now (time t)"
  then show "clock_ok E \<longrightarrow> eloop_ok (tick s\<lparr>timeouts := ts, trace := trace s @ [RanTimeout t now ts]\<rparr>)"
    by (auto simp: eloop_ok_def in_order_def ran_due_def list_all_iff)
qed (use eloop_ok_call in auto)

lemma eloop_init_ok: "eloop_ok (eloop_init w)"
  by (simp add: eloop_init_def eloop_ok_def in_order_def eloop_get_sock_table_def split: event_type.split)

section \<open>The loop has a defined course\<close>

text \<open>
  What the loop relies on: a clock that answers, with normalised times not close to the limits of a
  \<open>long\<close>, and handlers that register descriptors fit for a descriptor set.
\<close>

definition fit_call :: "call \<Rightarrow> bool" where
  "fit_call c = (case c of RegisterSock fd ty h ed ud \<Rightarrow> 0 \<le> fd \<and> fd < FD_SETSIZE | _ \<Rightarrow> True)"

definition clock_runs :: "'w env \<Rightarrow> bool" where
  "clock_runs E \<longleftrightarrow> (\<forall>n. \<exists>t. clk E n = Some t \<and> time_ok t \<and> 0 \<le> sec t \<and> sec t \<le> 2 ^ 62)"

definition env_fit :: "'w env \<Rightarrow> bool" where
  "env_fit E \<longleftrightarrow> clock_runs E \<and> handlers_all fit_call E"

definition socks_fit :: "'w eloop \<Rightarrow> bool" where
  "socks_fit s \<longleftrightarrow> (\<forall>ty. \<forall>e\<in>set (entries (eloop_get_sock_table ty s)). 0 \<le> sock e \<and> sock e < FD_SETSIZE)"

lemma clock_runsE:
  assumes "clock_runs E"
  obtains t where "clk E n = Some t" "time_ok t" "0 \<le> sec t" "sec t \<le> 2 ^ 62"
  using assms unfolding clock_runs_def by blast

lemma register_timeout_total:
  assumes "clock_runs E"
  shows "\<exists>r. eloop_register_timeout E secs usecs h ed ud s = Some r"
proof -
  obtain now where now: "clk E (ticks s + 1) = Some now" "time_ok now" "0 \<le> sec now" "sec now \<le> 2 ^ 62"
    using assms by (rule clock_runsE)
  let ?t = "carry (sec now + uint secs) (usec now + uint usecs)"
  have u: "0 \<le> uint usecs" "uint usecs < 2 ^ 32" "0 \<le> uint secs" "uint secs < 2 ^ 32"
    using uint_bounded [of usecs] uint_bounded [of secs] by simp_all
  then have "0 \<le> usec now + uint usecs" using now(2) by (simp add: time_ok_def)
  from carry_ok [OF this, of "sec now + uint secs"]
  have "sec ?t * 1000000 \<le> (sec now + uint secs) * 1000000 + (usec now + uint usecs)"
    by (simp add: time_ok_def micros_def)
  then have "sec ?t \<le> LONG_MAX" "sec now + uint secs \<le> LONG_MAX"
    using now u by (auto simp: LONG_MAX_def time_ok_def)
  then show ?thesis using now(1) by (auto simp: eloop_register_timeout_def Let_def)
qed

lemma run_call_total:
  assumes "clock_runs E" "fit_call c"
  shows "\<exists>r. run_call E c s = Some r"
proof -
  note rt = register_timeout_total [OF assms(1)]
  have ch: "\<exists>r. change_timeout move E secs usecs h ed ud s = Some r" for move secs usecs h ed ud
  proof -
    obtain now where "clk E (ticks s) = Some now" using assms(1) by (rule clock_runsE)
    moreover obtain r where "eloop_register_timeout E secs usecs h ed ud (snd (eloop_cancel_timeout h ed ud (tick s))) = Some r"
      using rt by blast
    ultimately show ?thesis by (auto simp: change_timeout_def Let_def split: option.splits prod.splits)
  qed
  obtain now where now: "clk E (ticks s) = Some now" using assms(1) by (rule clock_runsE)
  show ?thesis
  proof (cases c)
    case (RegisterTimeout secs usecs h ed ud)
    then show ?thesis using rt [of secs usecs h ed ud s] by (auto simp: run_call_def)
  next
    case (DepleteTimeout secs usecs h ed ud)
    then show ?thesis using ch by (auto simp: run_call_def eloop_deplete_timeout_def)
  next
    case (ReplenishTimeout secs usecs h ed ud)
    then show ?thesis using ch by (auto simp: run_call_def eloop_replenish_timeout_def)
  qed (use assms(2) now in \<open>auto simp: run_call_def fit_call_def eloop_register_sock_def
         eloop_cancel_timeout_one_def split: option.splits\<close>)
qed

lemma run_prog_total:
  assumes "clock_runs E" "prog_all fit_call p"
  shows "\<exists>s'. run_prog E p s = Some s'"
  using assms(2)
proof (induction p arbitrary: s)
  case (Call c k)
  then obtain a s1 where "run_call E c s = Some (a, s1)" using run_call_total [OF assms(1), of c s] by auto
  moreover have "prog_all fit_call (k a)" using Call.prems unfolding prog_all.simps by blast
  then obtain s' where "run_prog E (k a) s1 = Some s'" using Call.IH [OF rangeI] by blast
  ultimately show ?case by simp
qed simp

lemma handlers_total:
  assumes "env_fit E"
  shows "\<exists>s'. run_prog E (timeout_handler E h ed ud w) s = Some s'"
    "\<exists>s'. run_prog E (sock_handler E h fd ed ud w) s = Some s'"
    "\<exists>s'. run_prog E (signal_handler E h n ud w) s = Some s'"
  using assms by (auto simp: env_fit_def handlers_all_def intro!: run_prog_total)

text \<open>
  The walk over the signals ends although handlers may register more: a new entry has no signal
  pending, so the entries left that run a handler become fewer each time one is run.
\<close>

lemma signal_loop_total:
  assumes "env_fit E"
  shows "\<exists>s'. signal_loop E i s = Some s'"
proof (induction "(length (filter (\<lambda>g. sig_signaled g \<noteq> 0) (drop i (signals s))), length (signals s) - i)"
    arbitrary: i s rule: wf_induct_rule [OF wf_lex_prod [OF wf_less_than wf_less_than]])
  case (1 i s)
  note IH = "1.hyps" [unfolded in_lex_prod less_than_iff]
  show ?case
  proof (cases "i < length (signals s)")
    case True
    define x where "x = signals s ! i"
    have drop: "drop i (signals s) = x # drop (i + 1) (signals s)" unfolding x_def using True by (simp add: Cons_nth_drop_Suc)
    show ?thesis
    proof (cases "sig_signaled x = 0")
      case True
      then have "\<exists>s'. signal_loop E (i + 1) s = Some s'" using drop \<open>i < length (signals s)\<close> by (intro IH) auto
      then show ?thesis using True \<open>i < length (signals s)\<close> by (subst signal_loop.simps) (simp add: x_def)
    next
      case False
      define s0 where "s0 = s\<lparr>signals := (signals s)[i := x\<lparr>sig_signaled := 0\<rparr>], trace := trace s @ [RanSignal (sig x)]\<rparr>"
      obtain s1 where s1: "run_prog E (signal_handler E (sig_handler x) (sig x) (sig_user_data x) (world s)) s0 = Some s1"
        using handlers_total(3) [OF assms] by blast
      from run_prog_frame [OF this] obtain gs where gs: "signals s1 = signals s0 @ gs" "\<forall>g\<in>set gs. sig_signaled g = 0"
        by (auto simp: call_frame_def)
      have "drop (i + 1) (signals s1) = drop (i + 1) (signals s) @ gs" using gs(1) True by (simp add: s0_def)
      moreover have "filter (\<lambda>g. sig_signaled g \<noteq> 0) gs = []" using gs(2) by (simp add: filter_empty_conv)
      ultimately have "\<exists>s'. signal_loop E (i + 1) s1 = Some s'" using drop False by (intro IH) simp
      then show ?thesis using False True s1 unfolding s0_def
        by (subst signal_loop.simps) (auto simp: x_def [symmetric])
    qed
  next
    case False
    then show ?thesis by (subst signal_loop.simps) simp
  qed
qed

lemma dispatch_loop_total:
  assumes "env_fit E"
  shows "\<exists>s'. dispatch_loop E ty fds i s = Some s'"
proof (induction "length (entries (eloop_get_sock_table ty s)) - i" arbitrary: i s)
  case 0
  then show ?case by (subst dispatch_loop.simps) simp
next
  case (Suc k)
  define e where "e = entries (eloop_get_sock_table ty s) ! i"
  obtain s1 where s1: "run_prog E (sock_handler E (s_handler e) (sock e) (s_eloop_data e) (s_user_data e) (world s))
      (s\<lparr>trace := trace s @ [RanSock ty e]\<rparr>) = Some s1"
    using handlers_total(2) [OF assms] by blast
  have "eloop_get_sock_table ty s1 = eloop_get_sock_table ty s" if "\<not> changed (eloop_get_sock_table ty s1)"
    using run_prog_frame [OF s1] that by (auto simp: call_frame_def)
  then have "\<not> changed (eloop_get_sock_table ty s1) \<Longrightarrow> \<exists>s'. dispatch_loop E ty fds (i + 1) s1 = Some s'"
    using Suc.hyps(2) by (intro Suc.hyps(1)) simp
  moreover have "\<exists>s'. dispatch_loop E ty fds (i + 1) s = Some s'"
    using Suc.hyps(2) by (intro Suc.hyps(1)) simp
  ultimately show ?case using s1 by (subst dispatch_loop.simps) (auto simp: Let_def e_def)
qed

lemma socks_fit_simps [simp]:
  "socks_fit (tick s) = socks_fit s" "socks_fit (s\<lparr>timeouts := ts\<rparr>) = socks_fit s"
  by (simp_all add: socks_fit_def)

lemma socks_fit_call:
  assumes "socks_fit s" "fit_call c" "run_call E c s = Some (a, s')"
  shows "socks_fit s'"
proof -
  have rt: "socks_fit s'" if "eloop_register_timeout E secs usecs h ed ud s = Some (n, s')" "socks_fit s" for secs usecs h ed ud n s s'
    using that(1) by (cases rule: register_timeout_cases) (use that(2) in \<open>auto simp: socks_fit_def\<close>)
  have ch: "socks_fit s'" if "change_timeout move E secs usecs h ed ud s = Some (n, s')" for move secs usecs h ed ud n
    using that assms(1) by (auto simp: change_timeout_def Let_def cancel_timeout_eq split: option.splits if_splits Option.bind_splits dest!: rt)
  show ?thesis
  proof (cases c)
    case (RegisterSock fd ty h ed ud)
    then have "0 \<le> fd" "fd < FD_SETSIZE" using assms(2) by (auto simp: fit_call_def)
    then show ?thesis using assms(1,3) RegisterSock
      by (auto simp: run_call_def eloop_register_sock_def eloop_sock_table_add_sock_def socks_fit_def Let_def split: if_splits)
  next
    case (UnregisterSock fd ty)
    then have "s' = eloop_unregister_sock fd ty s" using assms(3) by (simp add: run_call_def)
    then show ?thesis using assms(1)
      by (cases rule: unregister_sock_cases [of fd ty s]) (auto simp: socks_fit_def)
  next
    case (CancelTimeout h ed ud)
    then show ?thesis using assms(1,3) by (auto simp: run_call_def cancel_timeout_eq socks_fit_def)
  next
    case (CancelTimeoutOne h ed ud)
    then show ?thesis using assms(1,3)
      by (auto simp: run_call_def eloop_cancel_timeout_one_def socks_fit_def split: option.splits)
  next
    case (RegisterSignal n h ud)
    then show ?thesis using assms(1,3) by (auto simp: run_call_def eloop_register_signal_def socks_fit_def split: if_splits)
  next
    case Terminate
    then show ?thesis using assms(1,3) by (auto simp: run_call_def eloop_terminate_def socks_fit_def)
  qed (use assms(1,3) rt ch in \<open>auto simp: run_call_def eloop_deplete_timeout_def eloop_replenish_timeout_def\<close>)
qed

interpretation fit: loop_invariant E "\<lambda>c. env_fit E \<longrightarrow> fit_call c" "\<lambda>s. env_fit E \<longrightarrow> socks_fit s" for E :: "'w env"
proof unfold_locales
  show "handlers_all (\<lambda>c. env_fit E \<longrightarrow> fit_call c) E"
    by (cases "env_fit E") (auto simp: env_fit_def)
next
  fix s s' :: "'w eloop"
  assume "env_fit E \<longrightarrow> socks_fit s" "neutral s s'"
  then show "env_fit E \<longrightarrow> socks_fit s'" by (auto simp: socks_fit_def neutral_def)
next
  fix s :: "'w eloop" and t ts now
  assume "env_fit E \<longrightarrow> socks_fit s"
  then show "env_fit E \<longrightarrow> socks_fit (tick s\<lparr>timeouts := ts, trace := trace s @ [RanTimeout t now ts]\<rparr>)"
    by (auto simp: socks_fit_def)
qed (use socks_fit_call in blast)

lemma due_timeout_total: "env_fit E \<Longrightarrow> \<exists>s'. run_due_timeout E s = Some s'"
proof (cases "timeouts s")
  case (Cons t ts)
  assume fit: "env_fit E"
  obtain now where "clk E (ticks s) = Some now" using fit unfolding env_fit_def by (auto elim: clock_runsE)
  then show ?thesis using Cons handlers_total(1) [OF fit] by (auto simp: run_due_timeout_def)
qed (simp add: run_due_timeout_def)

lemma dispatch_total: "env_fit E \<Longrightarrow> \<exists>s'. eloop_sock_table_dispatch E ty fds s = Some s'"
  using dispatch_loop_total by (auto simp: eloop_sock_table_dispatch_def)

lemma pending_signals_total: "env_fit E \<Longrightarrow> \<exists>s'. eloop_process_pending_signals E s = Some s'"
  using signal_loop_total by (auto simp: eloop_process_pending_signals_def)

lemma dispatching_total:
  assumes fit: "env_fit E"
  shows "\<exists>s'. round_dispatch E w fds s = Some (Next, s')"
proof -
  obtain s1 s2 where "eloop_process_pending_signals E (clear_changed s) = Some s1" "run_due_timeout E s1 = Some s2"
    using pending_signals_total [OF fit] due_timeout_total [OF fit] by blast
  moreover obtain s3 s4 s5 where "eloop_sock_table_dispatch E EVENT_TYPE_READ (fds EVENT_TYPE_READ) s2 = Some s3"
    "eloop_sock_table_dispatch E EVENT_TYPE_WRITE (fds EVENT_TYPE_WRITE) s3 = Some s4"
    "eloop_sock_table_dispatch E EVENT_TYPE_EXCEPTION (fds EVENT_TYPE_EXCEPTION) s4 = Some s5"
    using dispatch_total [OF fit] by meson
  ultimately show ?thesis by (simp add: round_dispatch_def)
qed

lemma set_fds_total:
  assumes "socks_fit s"
  shows "\<exists>f. eloop_sock_table_set_fds (readers s) = Some f" "\<exists>f. eloop_sock_table_set_fds (writers s) = Some f"
    "\<exists>f. eloop_sock_table_set_fds (exceptions s) = Some f"
  using assms [unfolded socks_fit_def, rule_format, of _ EVENT_TYPE_READ] assms [unfolded socks_fit_def, rule_format, of _ EVENT_TYPE_WRITE]
    assms [unfolded socks_fit_def, rule_format, of _ EVENT_TYPE_EXCEPTION]
  by (auto simp: eloop_sock_table_set_fds_def list_all_iff eloop_get_sock_table_def)

lemma select_wait_total:
  assumes "env_fit E"
  shows "\<exists>wait s'. select_wait E s = Some (wait, s') \<and> (s' = s \<or> s' = tick s)"
proof -
  obtain now where "clk E (ticks s) = Some now" using assms unfolding env_fit_def by (auto elim: clock_runsE)
  then show ?thesis by (auto simp: select_wait_def split: list.splits)
qed

lemma round_select_eq:
  assumes "env_fit E" "socks_fit s"
  shows "\<exists>fds s1. round_select E w s =
      (let s2 = fold eloop_handle_signal (sigs_during w) s1 in
       if res w < 0 \<and> fatal w then Some (Out, s2) else round_dispatch E w fds s2) \<and> (s1 = s \<or> s1 = tick s)"
proof -
  obtain wait s1 where s1: "select_wait E s = Some (wait, s1)" "s1 = s \<or> s1 = tick s"
    using select_wait_total [OF assms(1)] by blast
  then have "socks_fit s1" using assms(2) by auto
  then obtain r wr ex where "eloop_sock_table_set_fds (readers s1) = Some r"
    "eloop_sock_table_set_fds (writers s1) = Some wr" "eloop_sock_table_set_fds (exceptions s1) = Some ex"
    using set_fds_total by blast
  then show ?thesis using s1
    by (intro exI [of _ "\<lambda>ty fd. (case ty of EVENT_TYPE_READ \<Rightarrow> r fd | EVENT_TYPE_WRITE \<Rightarrow> wr fd
          | EVENT_TYPE_EXCEPTION \<Rightarrow> ex fd) \<and> ready w ty fd"] exI [of _ s1])
       (simp add: round_select_def Let_def)
qed

lemma round_total:
  assumes "env_fit E" "socks_fit s"
  shows "\<exists>l s'. eloop_round E w s = Some (l, s')"
proof -
  define s1 where "s1 = fold eloop_handle_signal (sigs_before w) s"
  have sel: "\<exists>l s'. round_select E w s = Some (l, s')" if fit_s: "socks_fit s" for s
  proof -
    obtain fds s1 where "round_select E w s = (let s2 = fold eloop_handle_signal (sigs_during w) s1 in
       if res w < 0 \<and> fatal w then Some (Out, s2) else round_dispatch E w fds s2)"
      using round_select_eq [OF assms(1) fit_s] by blast
    moreover obtain s3 where "round_dispatch E w fds (fold eloop_handle_signal (sigs_during w) s1) = Some (Next, s3)"
      using dispatching_total [OF assms(1)] by blast
    ultimately show ?thesis by (simp add: Let_def)
  qed
  have s1: "socks_fit s1" using fit.signals_keep [of E s] assms by (simp add: s1_def)
  show ?thesis
  proof (cases "pending_terminate s1")
    case True
    obtain s2 where s2: "eloop_process_pending_signals E s1 = Some s2" using pending_signals_total [OF assms(1)] by blast
    then have "socks_fit s2" using fit.pending_signals_keeps [of E s1] s1 assms(1) by blast
    then show ?thesis using True s2 sel [of s2] by (auto simp: eloop_round_def s1_def Let_def)
  next
    case False
    then show ?thesis using sel [OF s1] by (simp add: eloop_round_def s1_def Let_def)
  qed
qed

lemma rounds_total:
  assumes "env_fit E"
  shows "socks_fit s \<Longrightarrow> \<exists>b s'. run_rounds E ws s = Some (b, s')"
proof (induction ws arbitrary: s)
  case Nil
  then show ?case by (subst run_rounds.simps) auto
next
  case (Cons w ws)
  obtain l s1 where l: "eloop_round E w s = Some (l, s1)" using round_total [OF assms Cons.prems] by blast
  then have "socks_fit s1" using fit.round_keeps [of E s w] Cons.prems assms by blast
  then show ?case using l Cons.IH [of s1] by (subst run_rounds.simps) (auto split: leave.splits)
qed

lemma run_total:
  assumes "env_fit E" "socks_fit s"
  shows "\<exists>b s'. eloop_run E ws s = Some (b, s')"
  using rounds_total [OF assms(1), of "tick (tick (tick s))"] assms(2) by (auto simp: eloop_run_def Let_def)

lemma env_fit_clock: "env_fit E \<Longrightarrow> clock_ok E"
  unfolding env_fit_def clock_ok_def clock_runs_def by (metis option.inject)

lemma eloop_init_fit: "socks_fit (eloop_init w)"
  by (simp add: eloop_init_def socks_fit_def eloop_get_sock_table_def split: event_type.split)

section \<open>Facts that stay on record\<close>

interpretation on_record: loop_invariant E "\<lambda>_. True" "\<lambda>s. RanTimeout t now ts \<in> set (trace s)"
  for E :: "'w env" and t now ts
proof unfold_locales
  show "RanTimeout t now ts \<in> set (trace s')"
    if "RanTimeout t now ts \<in> set (trace s)" "run_call E c s = Some (a, s')" for s s' :: "'w eloop" and c a
    using that run_call_frame [OF that(2)] by (simp add: call_frame_def)
qed (auto simp: neutral_def)

lemma due_timeout_recorded:
  assumes "timeouts s = t # ts" "clk E (ticks s) = Some now" "\<not> os_reltime_before now (time t)"
    "run_due_timeout E s = Some s'"
  shows "RanTimeout t now ts \<in> set (trace s')"
proof -
  have "run_prog E (timeout_handler E (handler t) (eloop_data t) (user_data t) (world s))
      ((tick s)\<lparr>timeouts := ts, trace := trace s @ [RanTimeout t now ts]\<rparr>) = Some s'"
    using assms by (simp add: run_due_timeout_def)
  then show ?thesis by (rule on_record.prog [rotated 2]) simp_all
qed

lemma dispatching_records:
  assumes fit: "env_fit E" and "signaled s = 0" "timeouts s = t # ts" "clk E (ticks s) = Some now"
    "\<not> os_reltime_before now (time t)"
  shows "\<exists>s'. round_dispatch E w fds s = Some (Next, s') \<and> RanTimeout t now ts \<in> set (trace s')"
proof -
  obtain s' where s': "round_dispatch E w fds s = Some (Next, s')" using dispatching_total [OF fit] by blast
  have "eloop_process_pending_signals E (clear_changed s) = Some (clear_changed s)"
    using assms(2) by (simp add: eloop_process_pending_signals_def clear_changed_def)
  moreover obtain s1 where s1: "run_due_timeout E (clear_changed s) = Some s1" using due_timeout_total [OF fit] by blast
  moreover have rec: "RanTimeout t now ts \<in> set (trace s1)"
    by (rule due_timeout_recorded [OF _ _ assms(5) s1]) (use assms(3,4) in \<open>simp_all add: clear_changed_def\<close>)
  ultimately have "RanTimeout t now ts \<in> set (trace s')"
    using s' by (auto simp: round_dispatch_def split: if_splits Option.bind_splits)
      (meson on_record.dispatch_keeps)
  then show ?thesis using s' by blast
qed

section \<open>Properties\<close>

text \<open>
  C24. The event loop on any handlers. From the initial state, after any setup, with any handlers, any
  answers of the operating system and any number of rounds, the loop runs without an undefined step: the walks over the signals and over the
  socket tables end although handlers change them meanwhile. At the end, and so at every
  moment, the timeouts are in order of time, and every timeout that was run was due when it was run
  and no other pending timeout was earlier. The conditions are those of the code: the clock answers with normalised
  times, and descriptors fit a descriptor set.
\<close>

theorem eloop_run_correct:
  assumes "env_fit E" "prog_all fit_call p"
  shows "\<exists>s0 b s. run_prog E p (eloop_init w) = Some s0 \<and> eloop_run E ws s0 = Some (b, s) \<and>
    in_order (timeouts s) \<and>
    (\<forall>r\<in>set (trace s). case r of
       RanTimeout t now rest \<Rightarrow> \<not> os_reltime_before now (time t) \<and>
         list_all (\<lambda>x. \<not> os_reltime_before (time x) (time t)) rest
     | _ \<Rightarrow> True)"
proof -
  obtain s0 where s0: "run_prog E p (eloop_init w) = Some s0"
    using run_prog_total assms unfolding env_fit_def by blast
  have "socks_fit s0" using fit.prog [OF _ _ s0] assms by (simp add: eloop_init_fit)
  then obtain b s where run: "eloop_run E ws s0 = Some (b, s)" using run_total [OF assms(1)] by blast
  have "clock_ok E" using assms(1) by (rule env_fit_clock)
  then have "eloop_ok s0" using ok.prog [OF _ _ s0] by (simp add: eloop_init_ok)
  then have "eloop_ok s" using ok.run_keeps [OF _ run] \<open>clock_ok E\<close> by blast
  then have "in_order (timeouts s)" "\<And>t now ts. RanTimeout t now ts \<in> set (trace s) \<Longrightarrow> ran_due (RanTimeout t now ts)"
    by (auto simp: eloop_ok_def)
  then show ?thesis using s0 run
    by (intro exI [of _ s0] exI [of _ b] exI [of _ s]) (auto simp: ran_due_def split: ran.split)
qed

definition demo_env :: "unit env" where
  "demo_env = \<lparr>clk = (\<lambda>n. Some \<lparr>sec = min (int n) 100, usec = 0\<rparr>), room = (\<lambda>_. True),
     timeout_handler = (\<lambda>h ed ud w. Return w),
     sock_handler = (\<lambda>h fd ed ud w. if h = 1 then Call (UnregisterSock 5 EVENT_TYPE_WRITE)
        (\<lambda>_. Call (RegisterSock 5 EVENT_TYPE_WRITE 3 0 0) (\<lambda>_. Return w)) else Return w),
     signal_handler = (\<lambda>h n ud w. Return w)\<rparr>"

lemma demo_env_fit: "env_fit demo_env"
  by (auto simp: env_fit_def demo_env_def clock_runs_def time_ok_def handlers_all_def fit_call_def FD_SETSIZE_def min_def)

theorem eloop_run_correct_witness:
  "\<exists>s0 b s. run_prog demo_env (Call (RegisterTimeout 3 0 7 0 0) (\<lambda>_. Return ())) (eloop_init ()) = Some s0 \<and>
     eloop_run demo_env [] s0 = Some (b, s) \<and> in_order (timeouts s)"
  using eloop_run_correct [OF demo_env_fit, of "Call (RegisterTimeout 3 0 7 0 0) (\<lambda>_. Return ())" "()" "[]"]
  by (auto simp: fit_call_def)

text \<open>
  C25. A due timeout is run in the next round. When the clock has passed the time of the first
  timeout, and no signal interferes, one round of the loop runs that timeout, whatever sockets are ready and
  whatever \<open>select\<close> answers short of a hard error.
\<close>

theorem due_timeout_runs:
  assumes "env_fit E" "socks_fit s" "timeouts s = t # ts" "signaled s = 0" "\<not> pending_terminate s"
    "sigs_before w = []" "sigs_during w = []" "res w \<ge> 0 \<or> \<not> fatal w"
    and passed: "\<And>n x. n \<ge> ticks s \<Longrightarrow> clk E n = Some x \<Longrightarrow> \<not> os_reltime_before x (time t)"
  shows "\<exists>s' now. eloop_round E w s = Some (Next, s') \<and> RanTimeout t now ts \<in> set (trace s')"
proof -
  obtain fds s1 where sel: "round_select E w s = round_dispatch E w fds s1" and s1: "s1 = s \<or> s1 = tick s"
    using round_select_eq [OF assms(1,2), of w] assms(7,8) by (auto simp: Let_def)
  obtain now where now: "clk E (ticks s1) = Some now"
    using assms(1) unfolding env_fit_def by (auto elim: clock_runsE)
  have "\<not> os_reltime_before now (time t)" using s1 now by (intro passed [of "ticks s1"]) auto
  moreover have "signaled s1 = 0" "timeouts s1 = t # ts" using s1 assms(3,4) by (auto simp: tick_def)
  ultimately obtain s' where "round_dispatch E w fds s1 = Some (Next, s')" "RanTimeout t now ts \<in> set (trace s')"
    using dispatching_records [OF assms(1) _ _ now] by blast
  then show ?thesis using sel assms(5,6) by (auto simp: eloop_round_def)
qed

definition demo_state :: "unit eloop" where
  "demo_state = (eloop_init ())\<lparr>timeouts := [\<lparr>time = \<lparr>sec = 2, usec = 0\<rparr>, eloop_data = 0, user_data = 0, handler = 7\<rparr>], ticks := 4\<rparr>"

theorem due_timeout_runs_witness:
  "\<exists>s' now. eloop_round demo_env \<lparr>sigs_before = [], sigs_during = [], res = 0, fatal = False, ready = (\<lambda>_ _. False)\<rparr> demo_state
     = Some (Next, s') \<and>
     RanTimeout \<lparr>time = \<lparr>sec = 2, usec = 0\<rparr>, eloop_data = 0, user_data = 0, handler = 7\<rparr> now [] \<in> set (trace s')"
  by (rule due_timeout_runs [OF demo_env_fit])
     (auto simp: demo_state_def eloop_init_def socks_fit_def eloop_get_sock_table_def demo_env_def os_reltime_before_def
       split: event_type.splits)

lemma insert_timeout_place:
  assumes "in_order ts"
  shows "\<exists>pre post. ts = pre @ post \<and> insert_timeout t ts = pre @ t # post \<and>
    (\<forall>x\<in>set pre. \<not> os_reltime_before (time t) (time x)) \<and> (\<forall>x\<in>set post. os_reltime_before (time t) (time x))"
  using assms
proof (induction ts)
  case (Cons x ts)
  show ?case
  proof (cases "os_reltime_before (time t) (time x)")
    case True
    have "os_reltime_before (time t) (time y)" if "y \<in> set ts" for y
    proof -
      have "\<not> os_reltime_before (time y) (time x)" using Cons.prems that by (simp add: in_order_def)
      then show ?thesis using True by (auto simp: os_reltime_before_def)
    qed
    then show ?thesis using True by (intro exI [of _ "[]"] exI [of _ "x # ts"]) auto
  next
    case False
    obtain pre post where "ts = pre @ post" "insert_timeout t ts = pre @ t # post"
      "\<forall>x\<in>set pre. \<not> os_reltime_before (time t) (time x)" "\<forall>x\<in>set post. os_reltime_before (time t) (time x)"
      using Cons by (auto simp: in_order_def)
    then show ?thesis using False by (intro exI [of _ "x # pre"] exI [of _ post]) auto
  qed
qed simp

lemma register_timeout_eq:
  assumes "clock_runs E" "room E (ticks s)"
  shows "\<exists>now t. clk E (ticks s + 1) = Some now \<and> time_ok (time t) \<and> is_timeout h ed ud t \<and>
    micros (time t) = micros now + uint secs * 1000000 + uint usecs \<and>
    eloop_register_timeout E secs usecs h ed ud s =
      Some (0, (tick (tick s))\<lparr>timeouts := insert_timeout t (timeouts s)\<rparr>)"
proof -
  obtain now where now: "clk E (ticks s + 1) = Some now" "time_ok now" "0 \<le> sec now" "sec now \<le> 2 ^ 62"
    using assms(1) by (rule clock_runsE)
  define t where "t = carry (sec now + uint secs) (usec now + uint usecs)"
  have u: "0 \<le> uint usecs" "0 \<le> uint secs" by simp_all
  have c: "time_ok t" "micros t = (sec now + uint secs) * 1000000 + (usec now + uint usecs)"
    using carry_ok [of "usec now + uint usecs"] now(2) u unfolding t_def by (auto simp: time_ok_def)
  have "\<not> sec t < sec now"
  proof
    assume "sec t < sec now"
    then have "sec t * 1000000 + 1000000 \<le> sec now * 1000000" by simp
    moreover have "usec t < 1000000" "0 \<le> usec now" using c(1) now(2) by (simp_all add: time_ok_def)
    moreover define a b where "a = uint secs" and "b = uint usecs"
    moreover have "0 \<le> a" "0 \<le> b" unfolding a_def b_def by (rule u)+
    ultimately show False using c(2) unfolding micros_def a_def [symmetric] b_def [symmetric] by (simp add: distrib_right)
  qed
  moreover obtain r where "eloop_register_timeout E secs usecs h ed ud s = Some r"
    using register_timeout_total [OF assms(1)] by blast
  ultimately have "eloop_register_timeout E secs usecs h ed ud s = Some (0, (tick (tick s))\<lparr>timeouts :=
      insert_timeout \<lparr>time = t, eloop_data = ed, user_data = ud, handler = h\<rparr> (timeouts s)\<rparr>)"
    using now(1) assms(2) u unfolding t_def by (auto simp: eloop_register_timeout_def Let_def split: if_splits)
  then show ?thesis using now(1) c
    by (intro exI [of _ now] exI [of _ "\<lparr>time = t, eloop_data = ed, user_data = ud, handler = h\<rparr>"])
       (auto simp: is_timeout_def micros_def)
qed

text \<open>
  Where a new timeout goes. \<open>eloop_register_timeout\<close> adds exactly one entry, for the time read from
  the clock plus the given seconds and microseconds (also when these exceed a second), behind every
  pending timeout that is not later and before every one that is: timeouts for the same moment run in the
  order in which they were registered.
\<close>

theorem register_timeout_fifo:
  assumes "clock_runs E" "room E (ticks s)" "eloop_ok s"
  shows "\<exists>now t s' pre post. clk E (ticks s + 1) = Some now \<and>
    eloop_register_timeout E secs usecs h ed ud s = Some (0, s') \<and>
    timeouts s = pre @ post \<and> timeouts s' = pre @ t # post \<and> is_timeout h ed ud t \<and>
    micros (time t) = micros now + uint secs * 1000000 + uint usecs \<and>
    (\<forall>x\<in>set pre. micros (time x) \<le> micros (time t)) \<and> (\<forall>x\<in>set post. micros (time t) < micros (time x))"
proof -
  obtain now t where reg: "clk E (ticks s + 1) = Some now" "time_ok (time t)" "is_timeout h ed ud t"
      "micros (time t) = micros now + uint secs * 1000000 + uint usecs"
      "eloop_register_timeout E secs usecs h ed ud s = Some (0, (tick (tick s))\<lparr>timeouts := insert_timeout t (timeouts s)\<rparr>)"
    using register_timeout_eq [OF assms(1,2)] by blast
  have ord: "in_order (timeouts s)" "\<forall>x\<in>set (timeouts s). time_ok (time x)" using assms(3) by (auto simp: eloop_ok_def)
  obtain pre post where p: "timeouts s = pre @ post" "insert_timeout t (timeouts s) = pre @ t # post"
    "\<forall>x\<in>set pre. \<not> os_reltime_before (time t) (time x)" "\<forall>x\<in>set post. os_reltime_before (time t) (time x)"
    using insert_timeout_place [OF ord(1)] by blast
  have "\<forall>x\<in>set pre. micros (time x) \<le> micros (time t)" "\<forall>x\<in>set post. micros (time t) < micros (time x)"
    using p(1,3,4) ord(2) reg(2) before_micros by (auto simp: not_less [symmetric])
  then show ?thesis using reg p
    by (intro exI [of _ now] exI [of _ t] exI [of _ "(tick (tick s))\<lparr>timeouts := insert_timeout t (timeouts s)\<rparr>"]
        exI [of _ pre] exI [of _ post]) simp
qed

lemma demo_state_ok: "eloop_ok demo_state"
  by (simp add: demo_state_def eloop_init_def eloop_ok_def in_order_def time_ok_def eloop_get_sock_table_def split: event_type.splits)

theorem register_timeout_fifo_witness:
  "\<exists>now t s' pre post. clk demo_env 5 = Some now \<and>
    eloop_register_timeout demo_env 1 2500000 8 0 0 demo_state = Some (0, s') \<and>
    timeouts demo_state = pre @ post \<and> timeouts s' = pre @ t # post \<and> micros (time t) = micros now + 3500000"
proof -
  have "clock_runs demo_env" using demo_env_fit by (simp add: env_fit_def)
  moreover have "room demo_env n" "ticks demo_state + 1 = 5" for n by (simp_all add: demo_env_def demo_state_def)
  ultimately obtain now t s' pre post where "clk demo_env 5 = Some now"
    "eloop_register_timeout demo_env 1 2500000 8 0 0 demo_state = Some (0, s')"
    "timeouts demo_state = pre @ post" "timeouts s' = pre @ t # post"
    "micros (time t) = micros now + uint (1 :: u32) * 1000000 + uint (2500000 :: u32)"
    using register_timeout_fifo [of demo_env demo_state 1 2500000 8 0 0, OF _ _ demo_state_ok] by auto
  then show ?thesis
    by (intro exI [of _ now] exI [of _ t] exI [of _ s'] exI [of _ pre] exI [of _ post]) simp
qed

lemma filter_insert_timeout:
  "filter P (insert_timeout t ts) = (if P t then insert_timeout t (filter P ts) else filter P ts)" if "in_order ts"
  using that
proof (induction ts)
  case (Cons x ts)
  have "os_reltime_before (time t) (time y)" if "os_reltime_before (time t) (time x)" "y \<in> set ts" for y
    using Cons.prems that by (auto simp: in_order_def os_reltime_before_def)
  moreover have "insert_timeout t ys = t # ys" if "\<forall>y\<in>set ys. os_reltime_before (time t) (time y)" for ys
    using that by (cases ys) auto
  ultimately show ?case using Cons by (auto simp: in_order_def)
qed simp

lemma change_timeout_exact:
  assumes clock: "clock_runs E" and room: "\<And>n. room E n" and ok: "eloop_ok s"
    and ctx: "ed \<noteq> ELOOP_ALL_CTX" "ud \<noteq> ELOOP_ALL_CTX"
    and t: "List.find (is_timeout h ed ud) (timeouts s) = Some t" and now: "clk E (ticks s) = Some now"
  shows "\<exists>r s'. change_timeout move E secs usecs h ed ud s = Some (r, s') \<and>
    filter (\<lambda>x. \<not> is_timeout h ed ud x) (timeouts s') = filter (\<lambda>x. \<not> is_timeout h ed ud x) (timeouts s) \<and>
    (if move \<lparr>sec = uint secs, usec = uint usecs\<rparr> (os_reltime_sub (time t) now)
     then r = 1 \<and> (\<exists>now' x. clk E (ticks s + 2) = Some now' \<and> filter (is_timeout h ed ud) (timeouts s') = [x] \<and>
       micros (time x) = micros now' + uint secs * 1000000 + uint usecs)
     else r = 0 \<and> timeouts s' = timeouts s)"
proof -
  have c: "cancels h ed ud = is_timeout h ed ud" using ctx by (auto simp: fun_eq_iff cancels_def is_timeout_def)
  let ?rest = "filter (\<lambda>x. \<not> is_timeout h ed ud x) (timeouts s)"
  define s1 where "s1 = (tick s)\<lparr>timeouts := ?rest\<rparr>"
  have "room E (ticks s1)" by (rule room)
  from register_timeout_eq [OF clock this, of h ed ud secs usecs] obtain now' x where
    reg: "clk E (ticks s1 + 1) = Some now'" "is_timeout h ed ud x"
      "micros (time x) = micros now' + uint secs * 1000000 + uint usecs"
      "eloop_register_timeout E secs usecs h ed ud s1 = Some (0, (tick (tick s1))\<lparr>timeouts := insert_timeout x (timeouts s1)\<rparr>)"
    by blast
  have s1: "timeouts s1 = ?rest" "ticks s1 = ticks s + 1" by (simp_all add: s1_def)
  have ord: "in_order ?rest" using ok by (simp add: eloop_ok_def)
  have none: "filter (is_timeout h ed ud) ?rest = []" by (simp add: filter_empty_conv)
  have f: "filter (is_timeout h ed ud) (insert_timeout x ?rest) = [x]"
    "filter (\<lambda>x. \<not> is_timeout h ed ud x) (insert_timeout x ?rest) = ?rest"
    using reg(2) by (simp_all add: filter_insert_timeout [OF ord] none)
  have "snd (eloop_cancel_timeout h ed ud (tick s)) = s1" by (simp add: cancel_timeout_eq c s1_def)
  then show ?thesis using t now reg f unfolding s1(2)
    by (cases "move \<lparr>sec = uint secs, usec = uint usecs\<rparr> (os_reltime_sub (time t) now)")
       (auto simp: change_timeout_def Let_def s1(1))
qed

text \<open>
  Moving a timeout. On a registered timeout, \<open>eloop_deplete_timeout\<close> shortens it when the requested
  time is less than what remains, and \<open>eloop_replenish_timeout\<close> lengthens it when it is more: then they
  return \<open>1\<close> and there is exactly one such timeout, for the clock's time plus the requested time;
  otherwise they return \<open>0\<close> and change nothing. Other timeouts are left as they are, in their order. (The
  allocator has to grant the new entry: the result of the registration is not looked at.)
\<close>

theorem deplete_replenish_exact:
  assumes "clock_runs E" "\<And>n. room E n" "eloop_ok s" "ed \<noteq> ELOOP_ALL_CTX" "ud \<noteq> ELOOP_ALL_CTX"
    and t: "List.find (is_timeout h ed ud) (timeouts s) = Some t" and now: "clk E (ticks s) = Some now"
    and usecs: "uint usecs < 1000000"
  shows "\<exists>r s' r' s''.
    eloop_deplete_timeout E secs usecs h ed ud s = Some (r, s') \<and>
    filter (\<lambda>x. \<not> is_timeout h ed ud x) (timeouts s') = filter (\<lambda>x. \<not> is_timeout h ed ud x) (timeouts s) \<and>
    (if uint secs * 1000000 + uint usecs < micros (time t) - micros now
     then r = 1 \<and> (\<exists>now' x. clk E (ticks s + 2) = Some now' \<and> filter (is_timeout h ed ud) (timeouts s') = [x] \<and>
       micros (time x) = micros now' + uint secs * 1000000 + uint usecs)
     else r = 0 \<and> timeouts s' = timeouts s) \<and>
    eloop_replenish_timeout E secs usecs h ed ud s = Some (r', s'') \<and>
    filter (\<lambda>x. \<not> is_timeout h ed ud x) (timeouts s'') = filter (\<lambda>x. \<not> is_timeout h ed ud x) (timeouts s) \<and>
    (if uint secs * 1000000 + uint usecs > micros (time t) - micros now
     then r' = 1 \<and> (\<exists>now' x. clk E (ticks s + 2) = Some now' \<and> filter (is_timeout h ed ud) (timeouts s'') = [x] \<and>
       micros (time x) = micros now' + uint secs * 1000000 + uint usecs)
     else r' = 0 \<and> timeouts s'' = timeouts s)"
proof -
  let ?req = "\<lparr>sec = uint secs, usec = uint usecs\<rparr>"
  have "t \<in> set (timeouts s)" using t by (auto simp: find_Some_iff)
  then have "time_ok (time t)" using assms(3) by (simp add: eloop_ok_def)
  moreover have "time_ok now" using assms(1) now by (metis clock_runsE option.inject)
  ultimately have rem: "time_ok (os_reltime_sub (time t) now)" "micros (os_reltime_sub (time t) now) = micros (time t) - micros now"
    using reltime_sub_micros by auto
  have "time_ok ?req" "micros ?req = uint secs * 1000000 + uint usecs" using usecs by (simp_all add: time_ok_def micros_def)
  then have b: "os_reltime_before ?req (os_reltime_sub (time t) now) \<longleftrightarrow> uint secs * 1000000 + uint usecs < micros (time t) - micros now"
    "os_reltime_before (os_reltime_sub (time t) now) ?req \<longleftrightarrow> uint secs * 1000000 + uint usecs > micros (time t) - micros now"
    using rem by (simp_all add: before_micros)
  show ?thesis unfolding eloop_deplete_timeout_def eloop_replenish_timeout_def b [symmetric]
    using change_timeout_exact [OF assms(1-5) t now, of "\<lambda>requested remaining. os_reltime_before requested remaining" secs usecs]
      change_timeout_exact [OF assms(1-5) t now, of "\<lambda>requested remaining. os_reltime_before remaining requested" secs usecs]
    by blast
qed

theorem deplete_replenish_exact_witness:
  "\<exists>r s'. eloop_replenish_timeout demo_env 5 0 7 0 0 demo_state = Some (r, s') \<and> r = 1"
proof -
  have "clock_runs demo_env" using demo_env_fit by (simp add: env_fit_def)
  moreover have "room demo_env n" for n by (simp add: demo_env_def)
  moreover have "0 \<noteq> ELOOP_ALL_CTX" by (simp add: ELOOP_ALL_CTX_def)
  moreover have "List.find (is_timeout 7 0 0) (timeouts demo_state) = Some (hd (timeouts demo_state))"
    by (simp add: demo_state_def is_timeout_def)
  moreover have "clk demo_env (ticks demo_state) = Some \<lparr>sec = 4, usec = 0\<rparr>" by (simp add: demo_env_def demo_state_def)
  moreover have "micros (time (hd (timeouts demo_state))) - micros \<lparr>sec = 4, usec = 0\<rparr> < 5000000"
    by (simp add: demo_state_def micros_def)
  ultimately show ?thesis
    using deplete_replenish_exact [of demo_env demo_state 0 0 7 _ _ 0 5, OF _ _ demo_state_ok] by fastforce
qed

section \<open>Sockets changed by a handler\<close>


end
