(* ===== verification/Bitfield.thy ===== *)
theory Bitfield
  imports Prelude
begin

text \<open>
  Bit sets of a fixed size, \<open>src/utils/bitfield.c\<close>. A bit set is the number of its bits and its
  octets. The abstraction \<open>members\<close> is the set of numbers whose bit is set; every operation is
  shown to act on it as the set operation does.
\<close>

section \<open>The operations\<close>

record bitfield =
  bits :: bytes
  max_bits :: nat

text \<open>
  The number of octets is computed in \<open>size_t\<close>, so it wraps. The argument \<open>room\<close> is the answer of
  the allocator; the inner \<open>None\<close> is a null result.
\<close>

definition octets :: "nat \<Rightarrow> nat" where
  "octets n = (n + 7) mod (SIZE_MAX + 1) div 8"

definition bitfield_alloc :: "bool \<Rightarrow> nat \<Rightarrow> bitfield option" where
  "bitfield_alloc room n = (if room then Some \<lparr>bits = replicate (octets n) 0, max_bits = n\<rparr> else None)"

text \<open>An access outside the allocated octets has no defined result.\<close>

definition bitfield_set :: "bitfield \<Rightarrow> nat \<Rightarrow> bitfield option" where
  "bitfield_set bf b =
     (if b \<ge> max_bits bf then Some bf
      else if b div 8 < length (bits bf)
      then Some (bf\<lparr>bits := (bits bf)[b div 8 := bits bf ! (b div 8) OR push_bit (b mod 8) 1]\<rparr>)
      else None)"

definition bitfield_clear :: "bitfield \<Rightarrow> nat \<Rightarrow> bitfield option" where
  "bitfield_clear bf b =
     (if b \<ge> max_bits bf then Some bf
      else if b div 8 < length (bits bf)
      then Some (bf\<lparr>bits := (bits bf)[b div 8 := bits bf ! (b div 8) AND NOT (push_bit (b mod 8) 1)]\<rparr>)
      else None)"

definition bitfield_is_set :: "bitfield \<Rightarrow> nat \<Rightarrow> bool option" where
  "bitfield_is_set bf b =
     (if b \<ge> max_bits bf then Some False
      else if b div 8 < length (bits bf) then Some (bits bf ! (b div 8) AND push_bit (b mod 8) 1 \<noteq> 0)
      else None)"

fun first_zero_from :: "nat \<Rightarrow> nat \<Rightarrow> byte \<Rightarrow> int" where
  "first_zero_from 0 i val = -1"
| "first_zero_from (Suc k) i val = (if val AND 1 = 0 then int i else first_zero_from k (i + 1) (drop_bit 1 val))"

definition first_zero :: "byte \<Rightarrow> int" where
  "first_zero val = first_zero_from 8 0 val"

text \<open>The loop over the octets: the number of the first one that is not full, or the end.\<close>

fun first_open :: "bytes \<Rightarrow> nat \<Rightarrow> nat \<Rightarrow> nat option" where
  "first_open bs 0 i = Some i"
| "first_open bs (Suc k) i =
     (if i < length bs then if bs ! i \<noteq> 0xff then Some i else first_open bs k (i + 1) else None)"

text \<open>
  The position is a \<open>size_t\<close> compared with the size and then returned as an \<open>int\<close>; \<open>first_zero\<close>
  converts to \<open>size_t\<close> when it is added.
\<close>

definition bitfield_get_first_zero :: "bitfield \<Rightarrow> int option" where
  "bitfield_get_first_zero bf = do {
     i \<leftarrow> first_open (bits bf) (octets (max_bits bf)) 0;
     if i = octets (max_bits bf) then Some (-1)
     else let j = (int i * 8 + first_zero (bits bf ! i)) mod (int SIZE_MAX + 1)
          in Some (if j \<ge> int (max_bits bf) then -1 else signed_take_bit 31 j) }"

section \<open>Abstraction\<close>

definition bitfield_ok :: "bitfield \<Rightarrow> bool" where
  "bitfield_ok bf \<longleftrightarrow> length (bits bf) = (max_bits bf + 7) div 8 \<and> max_bits bf + 7 \<le> SIZE_MAX"

definition members :: "bitfield \<Rightarrow> nat set" where
  "members bf = {b. b < max_bits bf \<and> bit (bits bf ! (b div 8)) (b mod 8)}"

lemma octet_index: "bitfield_ok bf \<Longrightarrow> b < max_bits bf \<Longrightarrow> b div 8 < length (bits bf)"
  by (simp add: bitfield_ok_def)

lemma and_bit_iff: "(w AND push_bit n 1 \<noteq> 0) \<longleftrightarrow> bit w n" if "n < 8" for w :: byte
proof -
  have "w AND push_bit n 1 = (if bit w n then push_bit n 1 else 0)"
    by (rule bit_word_eqI) (auto simp: bit_simps)
  moreover have "bit (push_bit n (1::byte)) n" using that by (simp add: bit_simps)
  then have "push_bit n (1::byte) \<noteq> 0" by (metis bit_0_eq bot_apply bot_bool_def)
  ultimately show ?thesis by simp
qed

text \<open>What a set-like container promises: membership after insertion and removal.\<close>

locale bit_set =
  fixes inv :: "'s \<Rightarrow> bool" and size_of :: "'s \<Rightarrow> nat" and abs :: "'s \<Rightarrow> nat set"
    and ins :: "'s \<Rightarrow> nat \<Rightarrow> 's option" and del :: "'s \<Rightarrow> nat \<Rightarrow> 's option" and mem :: "'s \<Rightarrow> nat \<Rightarrow> bool option"
  assumes ins: "inv s \<Longrightarrow> \<exists>s'. ins s b = Some s' \<and> inv s' \<and> size_of s' = size_of s \<and>
      abs s' = (if b < size_of s then insert b (abs s) else abs s)"
    and del: "inv s \<Longrightarrow> \<exists>s'. del s b = Some s' \<and> inv s' \<and> size_of s' = size_of s \<and> abs s' = abs s - {b}"
    and mem: "inv s \<Longrightarrow> mem s b = Some (b \<in> abs s)"
    and within: "inv s \<Longrightarrow> abs s \<subseteq> {..<size_of s}"
begin

text \<open>A sequence of insertions and removals, \<open>True\<close> for an insertion.\<close>

primrec run :: "(bool \<times> nat) list \<Rightarrow> 's \<Rightarrow> 's option" where
  "run [] s = Some s"
| "run (op # ops) s = do { s \<leftarrow> (if fst op then ins s (snd op) else del s (snd op)); run ops s }"

lemma ops_total:
  assumes "inv s"
  shows "\<exists>s'. run ops s = Some s' \<and> inv s' \<and> size_of s' = size_of s \<and>
    (\<forall>b. mem s' b = Some (case List.find (\<lambda>op. snd op = b) (rev ops) of
       None \<Rightarrow> b \<in> abs s | Some op \<Rightarrow> fst op \<and> b < size_of s))"
  using assms
proof (induction ops arbitrary: s)
  case Nil
  then show ?case using mem by simp
next
  case (Cons op ops)
  obtain s1 where s1: "(if fst op then ins s (snd op) else del s (snd op)) = Some s1" "inv s1" "size_of s1 = size_of s"
    "abs s1 = (if fst op then (if snd op < size_of s then insert (snd op) (abs s) else abs s) else abs s - {snd op})"
    using ins [OF Cons.prems, of "snd op"] del [OF Cons.prems, of "snd op"] by (cases "fst op") auto
  obtain s' where s': "run ops s1 = Some s'" "inv s'" "size_of s' = size_of s1"
    "\<And>b. mem s' b = Some (case List.find (\<lambda>op. snd op = b) (rev ops) of
       None \<Rightarrow> b \<in> abs s1 | Some op \<Rightarrow> fst op \<and> b < size_of s1)"
    using Cons.IH [OF s1(2)] by blast
  have app: "List.find P (xs @ [op]) = (case List.find P xs of None \<Rightarrow> (if P op then Some op else None) | Some x \<Rightarrow> Some x)" for P xs
    by (induction xs) auto
  have "abs s \<subseteq> {..<size_of s}" using Cons.prems by (rule within)
  then have "b \<in> abs s1 \<longleftrightarrow> (if snd op = b then fst op \<and> b < size_of s else b \<in> abs s)" for b
    using s1(4) by auto
  then show ?case using s1(1,3) s' by (auto simp: app split: option.split)
qed

end

section \<open>The bit sets of the code\<close>

lemma octets_eq: "bitfield_ok bf \<Longrightarrow> octets (max_bits bf) = length (bits bf)"
  by (simp add: octets_def bitfield_ok_def)

lemma bitfield_set_members:
  assumes "bitfield_ok bf"
  shows "\<exists>bf'. bitfield_set bf b = Some bf' \<and> bitfield_ok bf' \<and> max_bits bf' = max_bits bf \<and>
    members bf' = (if b < max_bits bf then insert b (members bf) else members bf)"
proof (cases "b < max_bits bf")
  case True
  define bf' where "bf' = bf\<lparr>bits := (bits bf)[b div 8 := bits bf ! (b div 8) OR push_bit (b mod 8) 1]\<rparr>"
  have lt: "b div 8 < length (bits bf)" using octet_index [OF assms True] .
  have "c \<in> members bf' \<longleftrightarrow> c = b \<or> c \<in> members bf" for c
  proof (cases "c div 8 = b div 8")
    case True
    then have "(c = b) = (c mod 8 = b mod 8)" by (metis mult_div_mod_eq)
    then show ?thesis using True lt \<open>b < max_bits bf\<close>
      by (auto simp: members_def bf'_def bit_simps)
  next
    case False
    then show ?thesis by (auto simp: members_def bf'_def)
  qed
  then show ?thesis using True lt assms by (auto simp: bitfield_set_def bf'_def bitfield_ok_def)
qed (use assms in \<open>simp add: bitfield_set_def\<close>)

lemma bitfield_clear_members:
  assumes "bitfield_ok bf"
  shows "\<exists>bf'. bitfield_clear bf b = Some bf' \<and> bitfield_ok bf' \<and> max_bits bf' = max_bits bf \<and>
    members bf' = members bf - {b}"
proof (cases "b < max_bits bf")
  case True
  define bf' where "bf' = bf\<lparr>bits := (bits bf)[b div 8 := bits bf ! (b div 8) AND NOT (push_bit (b mod 8) 1)]\<rparr>"
  have lt: "b div 8 < length (bits bf)" using octet_index [OF assms True] .
  have "c \<in> members bf' \<longleftrightarrow> c \<noteq> b \<and> c \<in> members bf" for c
  proof (cases "c div 8 = b div 8")
    case True
    then have "(c = b) = (c mod 8 = b mod 8)" by (metis mult_div_mod_eq)
    then show ?thesis using True lt \<open>b < max_bits bf\<close>
      by (auto simp: members_def bf'_def bit_simps)
  next
    case False
    then show ?thesis by (auto simp: members_def bf'_def)
  qed
  then have "members bf' = members bf - {b}" by auto
  then show ?thesis using True lt assms by (auto simp: bitfield_clear_def bf'_def bitfield_ok_def)
next
  case False
  then have "members bf = members bf - {b}" by (auto simp: members_def)
  then show ?thesis using False assms by (simp add: bitfield_clear_def)
qed

interpretation bf: bit_set bitfield_ok max_bits members bitfield_set bitfield_clear bitfield_is_set
proof unfold_locales
  show "bitfield_is_set s b = Some (b \<in> members s)" if "bitfield_ok s" for s b
  proof (cases "b < max_bits s")
    case True
    then show ?thesis using octet_index [OF that True]
      and_bit_iff [of "b mod 8" "bits s ! (b div 8)"]
      by (simp add: bitfield_is_set_def members_def)
  qed (simp add: bitfield_is_set_def members_def)
  show "members s \<subseteq> {..<max_bits s}" for s by (auto simp: members_def)
qed (rule bitfield_set_members bitfield_clear_members; assumption)+

lemma bitfield_alloc_ok:
  "n + 7 \<le> SIZE_MAX \<Longrightarrow> bitfield_alloc True n = Some bf \<Longrightarrow> bitfield_ok bf \<and> members bf = {} \<and> max_bits bf = n"
  by (auto simp: bitfield_alloc_def bitfield_ok_def members_def octets_def)

lemma first_zero_from_least:
  "(\<exists>j<k. \<not> bit val j) \<Longrightarrow> first_zero_from k i val = int i + int (LEAST j. \<not> bit val j)"
proof (induction k arbitrary: i val)
  case (Suc k)
  show ?case
  proof (cases "bit val 0")
    case False
    then have "(LEAST j. \<not> bit val j) = 0" by (simp add: Least_equality)
    then show ?thesis using False by (simp add: and_one_eq mod2_eq_if bit_0)
  next
    case True
    have ex: "\<exists>j<k. \<not> bit (drop_bit 1 val) j" using Suc.prems True
      by (metis Suc_eq_plus1_left Suc_less_eq bit_drop_bit_eq comp_apply less_Suc_eq_0_disj)
    from True Suc.prems have "(LEAST j. \<not> bit val j) = Suc (LEAST j. \<not> bit val (Suc j))"
      by (auto intro!: Least_Suc)
    then show ?thesis using True Suc.IH [OF ex]
      by (simp add: and_one_eq mod2_eq_if bit_0 bit_drop_bit_eq comp_def)
  qed
qed simp

lemma first_open_correct:
  "i + k = length bs \<Longrightarrow> \<exists>n. first_open bs k i = Some n \<and> i \<le> n \<and> n \<le> length bs \<and>
     (\<forall>m. i \<le> m \<longrightarrow> m < n \<longrightarrow> bs ! m = 0xff) \<and> (n < length bs \<longrightarrow> bs ! n \<noteq> 0xff)"
proof (induction k arbitrary: i)
  case (Suc k)
  then show ?case using Suc.IH [of "i + 1"]
    by (auto simp: Suc_le_eq) (metis le_neq_implies_less)+
qed simp

lemma bit_255 [simp]: "bit (0xff :: int) n \<longleftrightarrow> n < 8"
proof -
  have "(0xff :: int) = mask 8" by (simp add: mask_eq_exp_minus_1)
  then show ?thesis by (simp only: bit_mask_iff) auto
qed

lemma open_octet: "w \<noteq> 0xff \<Longrightarrow> \<exists>j<8. \<not> bit w j" for w :: byte
proof (rule ccontr)
  assume "w \<noteq> 0xff" "\<not> (\<exists>j<8. \<not> bit w j)"
  moreover from this have "w = 0xff" by (intro bit_word_eqI) auto
  ultimately show False by simp
qed

lemma members_iff: "b < max_bits bf \<Longrightarrow> b \<in> members bf \<longleftrightarrow> bit (bits bf ! (b div 8)) (b mod 8)"
  by (simp add: members_def)

lemma first_open_bit:
  assumes full: "\<And>m. m < n \<Longrightarrow> bits bf ! m = 0xff" and "bits bf ! n \<noteq> 0xff"
  defines "j \<equiv> n * 8 + (LEAST j. \<not> bit (bits bf ! n) j)"
  shows "first_zero (bits bf ! n) = int (LEAST j. \<not> bit (bits bf ! n) j)" "j < n * 8 + 8"
    "\<And>b. b < j \<Longrightarrow> b < max_bits bf \<Longrightarrow> b \<in> members bf" "j \<notin> members bf"
proof -
  define l where "l = (LEAST j. \<not> bit (bits bf ! n) j)"
  obtain k where k: "k < 8" "\<not> bit (bits bf ! n) k" using open_octet assms(2) by blast
  then show "first_zero (bits bf ! n) = int (LEAST j. \<not> bit (bits bf ! n) j)"
    unfolding first_zero_def using first_zero_from_least [of 8 "bits bf ! n" 0] by auto
  have l8: "l < 8" unfolding l_def using k Least_le [of "\<lambda>j. \<not> bit (bits bf ! n) j" k] by simp
  then show "j < n * 8 + 8" by (simp add: j_def l_def)
  have nl: "\<not> bit (bits bf ! n) l" unfolding l_def using k(2) by (rule LeastI)
  have "j = n * 8 + l" by (simp add: j_def l_def)
  then have "j div 8 = n" "j mod 8 = l" using l8 by auto
  then show "j \<notin> members bf" using nl by (simp add: members_def)
  show "b \<in> members bf" if "b < j" "b < max_bits bf" for b
  proof (cases "b div 8 < n")
    case True
    then show ?thesis using full that by (simp add: members_iff)
  next
    case False
    moreover have "b div 8 \<le> n" using that l8 \<open>j = n * 8 + l\<close> by linarith
    ultimately have "b div 8 = n" by simp
    then have "b mod 8 < l" using that(1) \<open>j = n * 8 + l\<close> by (metis add_less_cancel_left div_mult_mod_eq)
    then show ?thesis using that \<open>b div 8 = n\<close> not_less_Least [of "b mod 8" "\<lambda>j. \<not> bit (bits bf ! n) j"]
      by (simp add: members_iff l_def)
  qed
qed

lemma first_zero_value:
  assumes ok: "bitfield_ok bf" and small: "max_bits bf \<le> 2 ^ 31"
  shows "bitfield_get_first_zero bf =
    Some (if {..<max_bits bf} \<subseteq> members bf then -1 else int (LEAST b. b \<notin> members bf))"
proof -
  obtain n where n: "first_open (bits bf) (octets (max_bits bf)) 0 = Some n" "n \<le> length (bits bf)"
    "\<And>m. m < n \<Longrightarrow> bits bf ! m = 0xff" "n < length (bits bf) \<Longrightarrow> bits bf ! n \<noteq> 0xff"
    using first_open_correct [of 0 "octets (max_bits bf)" "bits bf"] octets_eq [OF ok] by auto
  show ?thesis
  proof (cases "n = length (bits bf)")
    case True
    then have "{..<max_bits bf} \<subseteq> members bf"
      using octet_index [OF ok] n(3) by (auto simp: members_iff)
    then show ?thesis using n(1) True by (simp add: bitfield_get_first_zero_def octets_eq [OF ok])
  next
    case False
    then have lt: "n < length (bits bf)" using n(2) by simp
    define j where "j = n * 8 + (LEAST j. \<not> bit (bits bf ! n) j)"
    note o = first_open_bit [of n bf, OF n(3) n(4) [OF lt], simplified, folded j_def]
    have "n * 8 < max_bits bf + 7" using lt ok unfolding bitfield_ok_def by linarith
    then have jb: "j < 2 ^ 32" using o(2) small by (simp add: j_def)
    have val: "bitfield_get_first_zero bf = Some (if j \<ge> max_bits bf then -1 else signed_take_bit 31 (int j))"
      using n(1) False jb by (simp add: bitfield_get_first_zero_def octets_eq [OF ok] o(1) j_def Let_def SIZE_MAX_def)
    show ?thesis
    proof (cases "j \<ge> max_bits bf")
      case True
      then have "{..<max_bits bf} \<subseteq> members bf" using o(3) by auto
      then show ?thesis using val True by simp
    next
      case False
      have "(LEAST b. b \<notin> members bf) = j" 
      proof (rule Least_equality)
        show "j \<le> y" if "y \<notin> members bf" for y using that o(3) [of y] False by linarith
      qed (use o(4) in auto)
      moreover have "\<not> {..<max_bits bf} \<subseteq> members bf" using False o(4) by (auto simp: not_le)
      moreover have "signed_take_bit 31 (int j) = int j"
        using False small by (intro signed_take_bit_int_eq_self) auto
      ultimately show ?thesis using val False by simp
    qed
  qed
qed

section \<open>Properties\<close>

text \<open>
  A bit set of \<open>n\<close> bits that the allocator granted goes through any sequence of sets and clears
  without an access outside its octets, and afterwards \<open>bitfield_is_set\<close> answers for every number
  what the last operation on that number left: set if that was \<open>bitfield_set\<close> of a number below
  \<open>n\<close>, and not set otherwise. Operations on other numbers, also on numbers out of range, never
  disturb it.
\<close>

theorem bitfield_run_is_set:
  assumes "n + 7 \<le> SIZE_MAX" "bitfield_alloc True n = Some bf"
  shows "\<exists>bf'. bf.run ops bf = Some bf' \<and>
    (\<forall>b. bitfield_is_set bf' b = Some (case List.find (\<lambda>op. snd op = b) (rev ops) of
       None \<Rightarrow> False | Some op \<Rightarrow> fst op \<and> b < n))"
proof -
  have "bitfield_ok bf" "members bf = {}" "max_bits bf = n" using bitfield_alloc_ok [OF assms] by auto
  then show ?thesis using bf.ops_total [of bf ops] by (fastforce cong: option.case_cong)
qed

theorem bitfield_run_is_set_witness:
  "\<exists>bf'. bf.run [(True, 3), (True, 9), (True, 12), (False, 3)] \<lparr>bits = [0, 0], max_bits = 10\<rparr> = Some bf' \<and>
     bitfield_is_set bf' 9 = Some True \<and> bitfield_is_set bf' 3 = Some False \<and> bitfield_is_set bf' 12 = Some False"
proof -
  have a: "bitfield_alloc True 10 = Some \<lparr>bits = [0, 0], max_bits = 10\<rparr>"
    by (simp add: bitfield_alloc_def octets_def SIZE_MAX_def) (simp add: numeral_2_eq_2)
  obtain bf' where bf': "bf.run [(True, 3), (True, 9), (True, 12), (False, 3)] \<lparr>bits = [0, 0], max_bits = 10\<rparr> = Some bf'"
    "\<And>b. bitfield_is_set bf' b = Some (case List.find (\<lambda>op. snd op = b)
       (rev [(True, 3), (True, 9), (True, 12), (False, 3)]) of None \<Rightarrow> False | Some op \<Rightarrow> fst op \<and> b < 10)"
    using bitfield_run_is_set [OF _ a, of "[(True, 3), (True, 9), (True, 12), (False, 3)]"]
    by (auto simp: SIZE_MAX_def)
  show ?thesis by (intro exI [of _ bf'] conjI bf'(1)) (simp_all add: bf'(2))
qed

text \<open>
  \<open>bitfield_get_first_zero\<close> always returns, and what it returns is the least number whose bit
  is not set, or \<open>-1\<close> exactly when every number below the size is set. (The size has to fit
  the \<open>int\<close> the function returns.) The bits of the last octet beyond the size are never handed out.
\<close>

theorem bitfield_get_first_zero_least:
  assumes "bitfield_ok bf" "max_bits bf \<le> 2 ^ 31"
  shows "bitfield_get_first_zero bf =
    Some (if \<exists>b<max_bits bf. bitfield_is_set bf b = Some False
          then int (LEAST b. bitfield_is_set bf b = Some False) else -1)"
  using first_zero_value [OF assms] by (auto simp: bf.mem [OF assms(1)])

theorem bitfield_get_first_zero_least_witness:
  "bitfield_get_first_zero \<lparr>bits = [0xff, 0x03], max_bits = 10\<rparr> = Some (-1) \<and>
   bitfield_get_first_zero \<lparr>bits = [0xff, 0x01], max_bits = 10\<rparr> = Some 9"
proof -
  have ok: "bitfield_ok \<lparr>bits = [0xff, w], max_bits = 10\<rparr>" for w
    by (simp add: bitfield_ok_def SIZE_MAX_def)
  have f: "bitfield_is_set \<lparr>bits = [0xff, w], max_bits = 10\<rparr> b =
    Some (b < 8 \<or> b < 10 \<and> bit w (b - 8))" for w b
  proof -
    consider "b < 8" "b div 8 = 0" "b mod 8 = b" | "b \<ge> 8" "b < 10" "b div 8 = 1" "b mod 8 = b - 8" | "b \<ge> 10"
    proof -
      have "b div 8 = 1 \<and> b mod 8 = b - 8" if "b \<ge> 8" "b < 10" using that by presburger
      then show thesis using that by (cases "b < 8"; cases "b < 10") (simp_all add: not_less)
    qed
    then show ?thesis unfolding bf.mem [OF ok] by cases (simp_all add: members_def)
  qed
  have b3: "bit (3::int) n \<longleftrightarrow> n < 2" for n
  proof -
    have "(3 :: int) = mask 2" by (simp add: mask_eq_exp_minus_1)
    then show ?thesis by (simp only: bit_mask_iff) auto
  qed
  have "(LEAST b. bitfield_is_set \<lparr>bits = [0xff, 1], max_bits = 10\<rparr> b = Some False) = 9"
    unfolding f by (rule Least_equality) (auto simp: bit_1_iff)
  then show ?thesis
    using bitfield_get_first_zero_least [OF ok, of 3] bitfield_get_first_zero_least [OF ok, of 1]
    by (auto simp: f b3 bit_1_iff intro: exI [of _ 9] split: if_splits)
qed

end
