(* ===== verification/Base64.thy ===== *)
theory Base64
  imports Prelude
begin

text \<open>
  Base64 coding, \<open>src/utils/base64.c\<close>. The encoder and the decoder are modelled with the size of
  the buffer they allocate: a write outside it has no defined result, and neither has an overflow
  of the \<open>int\<close> that counts the length of a line. The argument \<open>room\<close> is the allocator's answer.
\<close>

section \<open>Encoding\<close>

definition base64_table :: string where
  "base64_table = ''ABCDEFGHIJKLMNOPQRSTUVWXYZabcdefghijklmnopqrstuvwxyz0123456789+/''"

definition base64_url_table :: string where
  "base64_url_table = ''ABCDEFGHIJKLMNOPQRSTUVWXYZabcdefghijklmnopqrstuvwxyz0123456789-_''"

definition BASE64_PAD :: u32 where "BASE64_PAD = 1"
definition BASE64_LF :: u32 where "BASE64_LF = 2"

definition INT_MAX :: nat where "INT_MAX = 2 ^ 31 - 1"

definition line_feed :: char where "line_feed = CHR 0x0A"

text \<open>Arithmetic in \<open>size_t\<close>.\<close>

definition size_t :: "nat \<Rightarrow> nat" where
  "size_t n = n mod (SIZE_MAX + 1)"

definition letter :: "string \<Rightarrow> byte \<Rightarrow> char" where
  "letter table v = table ! unat (v AND 0x3f)"

text \<open>The loop over blocks of three octets: the octets left, the line length and the output.\<close>

fun enc_loop :: "string \<Rightarrow> bool \<Rightarrow> bytes \<Rightarrow> nat \<Rightarrow> string \<Rightarrow> (bytes \<times> nat \<times> string) option" where
  "enc_loop table lf (a # b # c # r) line_len out =
     (let out = out @ [letter table (drop_bit 2 a),
                       letter table (push_bit 4 (a AND 0x03) OR drop_bit 4 b),
                       letter table (push_bit 2 (b AND 0x0f) OR drop_bit 6 c),
                       letter table c];
          line_len = line_len + 4
      in if line_len > INT_MAX then None
         else if lf \<and> line_len \<ge> 72 then enc_loop table lf r 0 (out @ [line_feed])
         else enc_loop table lf r line_len out)"
| "enc_loop table lf rest line_len out = Some (rest, line_len, out)"

text \<open>The last one or two octets.\<close>

definition enc_rest :: "string \<Rightarrow> bool \<Rightarrow> bytes \<Rightarrow> nat \<Rightarrow> string \<Rightarrow> (nat \<times> string) option" where
  "enc_rest table pad rest line_len out =
     (case rest of
        [] \<Rightarrow> Some (line_len, out)
      | a # more \<Rightarrow>
          let out = out @ [letter table (drop_bit 2 a)];
              out = (case more of
                       [] \<Rightarrow> out @ [letter table (push_bit 4 (a AND 0x03))] @ (if pad then ''='' else [])
                     | b # _ \<Rightarrow> out @ [letter table (push_bit 4 (a AND 0x03) OR drop_bit 4 b),
                                      letter table (push_bit 2 (b AND 0x0f))]);
              out = out @ (if pad then ''='' else [])
          in if line_len + 4 > INT_MAX then None else Some (line_len + 4, out))"

text \<open>The size of the output buffer: four letters for three octets, line feeds and the NUL.\<close>

definition encode_size :: "nat \<Rightarrow> bool \<Rightarrow> nat" where
  "encode_size len lf =
     (let olen = size_t (size_t (len * 4) div 3 + 4);
          olen = (if lf then size_t (olen + olen div 72) else olen)
      in size_t (olen + 1))"

text \<open>The result is the string before the terminating NUL; its length is \<open>*out_len\<close>.\<close>

definition base64_gen_encode :: "bool \<Rightarrow> bytes \<Rightarrow> string \<Rightarrow> u32 \<Rightarrow> string option option" where
  "base64_gen_encode room src table add_pad =
     (let len = length src; lf = (add_pad AND BASE64_LF \<noteq> 0); pad = (add_pad AND BASE64_PAD \<noteq> 0) in
      if len \<ge> SIZE_MAX div 4 then Some None
      else
        let olen = encode_size len lf
        in if olen < len then Some None
           else if \<not> room then Some None
           else do {
             (rest, line_len, out) \<leftarrow> enc_loop table lf src 0 [];
             (line_len, out) \<leftarrow> enc_rest table pad rest line_len out;
             let out = (if lf \<and> line_len \<noteq> 0 then out @ [line_feed] else out);
             if length out + 1 \<le> olen then Some (Some out) else None })"

section \<open>Decoding\<close>

definition dtable :: "string \<Rightarrow> char \<Rightarrow> byte" where
  "dtable table = (fold (\<lambda>i d. d(table ! i := of_nat i)) [0..<64] (\<lambda>_. 0x80))(CHR ''='' := 0)"

text \<open>
  The loop over the input, the padding characters appended to it; \<open>block\<close> holds the values
  collected so far and \<open>out\<close> the octets written, both as the code indexes them. The inner \<open>None\<close>
  is the null result on invalid padding.
\<close>

fun dec_loop :: "(char \<Rightarrow> byte) \<Rightarrow> nat \<Rightarrow> string \<Rightarrow> bytes \<Rightarrow> nat \<Rightarrow> bytes \<Rightarrow> bytes option option" where
  "dec_loop d olen [] block pad out = Some (Some out)"
| "dec_loop d olen (val # rest) block pad out =
     (let tmp = d val in
      if tmp = 0x80 then dec_loop d olen rest block pad out
      else
        let pad = (if val = CHR ''='' then pad + 1 else pad);
            block = block @ [tmp]
        in if length block = 4 then
             if length out + 3 > olen then None
             else
               let out = out @ [push_bit 2 (block ! 0) OR drop_bit 4 (block ! 1),
                                push_bit 4 (block ! 1) OR drop_bit 2 (block ! 2),
                                push_bit 6 (block ! 2) OR block ! 3]
               in if pad = 0 then dec_loop d olen rest [] pad out
                  else if pad = 1 then Some (Some (take (length out - 1) out))
                  else if pad = 2 then Some (Some (take (length out - 2) out))
                  else Some None
           else dec_loop d olen rest block pad out)"

definition base64_gen_decode :: "bool \<Rightarrow> string \<Rightarrow> string \<Rightarrow> bytes option option" where
  "base64_gen_decode room src table =
     (let d = dtable table;
          count = length (filter (\<lambda>c. d c \<noteq> 0x80) src)
      in if count = 0 then Some None
         else
           let extra_pad = (4 - count mod 4) mod 4;
               olen = (count + extra_pad) div 4 * 3
           in if \<not> room then Some None
              else dec_loop d olen (src @ replicate extra_pad (CHR ''='')) [] 0 [])"

section \<open>The exported functions\<close>

definition base64_encode :: "bool \<Rightarrow> bytes \<Rightarrow> string option option" where
  "base64_encode room src = base64_gen_encode room src base64_table (BASE64_PAD OR BASE64_LF)"

definition base64_encode_no_lf :: "bool \<Rightarrow> bytes \<Rightarrow> string option option" where
  "base64_encode_no_lf room src = base64_gen_encode room src base64_table BASE64_PAD"

definition base64_url_encode :: "bool \<Rightarrow> bytes \<Rightarrow> string option option" where
  "base64_url_encode room src = base64_gen_encode room src base64_url_table 0"

definition base64_decode :: "bool \<Rightarrow> string \<Rightarrow> bytes option option" where
  "base64_decode room src = base64_gen_decode room src base64_table"

definition base64_url_decode :: "bool \<Rightarrow> string \<Rightarrow> bytes option option" where
  "base64_url_decode room src = base64_gen_decode room src base64_url_table"

section \<open>Bit patterns of a block\<close>

lemma bit_bytes [simp]:
  "bit (63::int) n \<longleftrightarrow> n < 6" "bit (15::int) n \<longleftrightarrow> n < 4" "bit (3::int) n \<longleftrightarrow> n < 2"
proof -
  have "(63::int) = mask 6" "(15::int) = mask 4" "(3::int) = mask 2" by (simp_all add: mask_eq_exp_minus_1)
  then show "bit (63::int) n \<longleftrightarrow> n < 6" "bit (15::int) n \<longleftrightarrow> n < 4" "bit (3::int) n \<longleftrightarrow> n < 2"
    by (simp_all only: bit_mask_iff) auto
qed

lemma octet_eqI:
  fixes v w :: byte
  assumes "bit v 0 = bit w 0" "bit v 1 = bit w 1" "bit v 2 = bit w 2" "bit v 3 = bit w 3"
    "bit v 4 = bit w 4" "bit v 5 = bit w 5" "bit v 6 = bit w 6" "bit v 7 = bit w 7"
  shows "v = w"
proof (rule bit_word_eqI)
  fix n assume "n < LENGTH(8)"
  then have "n \<in> {0, 1, 2, 3, 4, 5, 6, 7}" by auto
  then show "bit v n = bit w n" using assms by auto
qed

lemma block_octet_1:
  "push_bit 2 (drop_bit 2 a AND 63) OR drop_bit 4 ((push_bit 4 (a AND 3) OR drop_bit 4 b) AND 63) = a" for a b :: byte
  by (rule octet_eqI) (simp_all add: bit_simps del: push_bit_numeral)

lemma block_octet_2:
  "push_bit 4 ((push_bit 4 (a AND 3) OR drop_bit 4 b) AND 63) OR
     drop_bit 2 ((push_bit 2 (b AND 15) OR drop_bit 6 c) AND 63) = b" for a b c :: byte
  by (rule octet_eqI) (simp_all add: bit_simps del: push_bit_numeral)

lemma block_octet_3:
  "push_bit 6 ((push_bit 2 (b AND 15) OR drop_bit 6 c) AND 63) OR (c AND 63) = c" for b c :: byte
  by (rule octet_eqI) (simp_all add: bit_simps del: push_bit_numeral)

lemmas block_octets = block_octet_1 block_octet_2 block_octet_3

section \<open>An alphabet and its codec\<close>

lemma fold_table:
  "distinct table \<Longrightarrow> n \<le> length table \<Longrightarrow>
     fold (\<lambda>i d. d(table ! i := f i)) [0..<n] g c =
       (if \<exists>i<n. c = table ! i then f (THE i. i < n \<and> c = table ! i) else g c)"
proof (induction n)
  case (Suc n)
  have "(THE i. i < Suc n \<and> c = table ! i) = n" if "c = table ! n"
    using Suc.prems that by (auto simp: nth_eq_iff_index_eq)
  moreover have "(THE i. i < Suc n \<and> c = table ! i) = (THE i. i < n \<and> c = table ! i)" if "c \<noteq> table ! n"
    using that by (metis less_Suc_eq)
  ultimately show ?case using Suc by (auto simp: less_Suc_eq)
qed simp

lemma block_induct [case_names short block]:
  assumes "\<And>r. length r < 3 \<Longrightarrow> P r" "\<And>a b c r. P r \<Longrightarrow> P (a # b # c # r)"
  shows "P xs"
proof (induction xs rule: length_induct)
  case (1 xs)
  show ?case
  proof (cases "length xs < 3")
    case False
    then obtain a b c r where "xs = a # b # c # r"
      by (cases xs; cases "tl xs"; cases "tl (tl xs)") auto
    then show ?thesis using 1 assms(2) by simp
  qed (rule assms(1))
qed

lemma enc_loop_short: "length r < 3 \<Longrightarrow> enc_loop table lf r ll out = Some (r, ll, out)"
  by (cases r; cases "tl r"; cases "tl (tl r)") auto

text \<open>The sizes of the two buffers.\<close>

lemma decode_room:
  fixes c m :: nat
  assumes "4 * m < c"
  shows "3 * m + 3 \<le> (c + (4 - c mod 4) mod 4) div 4 * 3"
proof -
  define q r where "q = c div 4" and "r = c mod 4"
  have c: "c = 4 * q + r" "r < 4" by (simp_all add: q_def r_def)
  have "(c + (4 - c mod 4) mod 4) div 4 = (if r = 0 then q else q + 1)"
  proof (cases "r = 0")
    case True
    then show ?thesis unfolding r_def [symmetric] using c by simp
  next
    case False
    then have "(4 - r) mod 4 = 4 - r" by simp
    then have "c + (4 - c mod 4) mod 4 = 4 * (q + 1)" unfolding r_def [symmetric] using c by simp
    then show ?thesis using False by simp
  qed
  moreover have "m + 1 \<le> (if r = 0 then q else q + 1)" using c assms by auto
  ultimately show ?thesis by simp
qed

lemma encode_size:
  assumes "len < SIZE_MAX div 4"
  shows "encode_size len lf = len * 4 div 3 + 4 + (if lf then (len * 4 div 3 + 4) div 72 else 0) + 1"
proof -
  have "size_t (len * 4) = len * 4" using assms by (simp add: size_t_def SIZE_MAX_def)
  moreover have "len * 4 div 3 + 4 < 2 ^ 63" using assms by (simp add: SIZE_MAX_def)
  ultimately show ?thesis by (simp add: encode_size_def Let_def size_t_def SIZE_MAX_def)
qed

lemma encode_room:
  fixes m r t k f :: nat
  assumes "r < 3" "t \<le> (if r = 0 then 0 else 4)" "72 * k \<le> 4 * m" "f \<le> (if lf then 1 else 0)"
    "lf \<or> k = 0" "3 * m + r < SIZE_MAX div 4"
  shows "4 * m + k + t + f + 1 \<le> encode_size (3 * m + r) lf"
proof -
  let ?x = "(3 * m + r) * 4 div 3 + 4"
  have x: "4 * m + (if r = 0 then 0 else 1) + 4 \<le> ?x" using assms(1) by auto
  then have "72 * k \<le> ?x" using assms(3) by linarith
  then have "k \<le> ?x div 72" by linarith
  then show ?thesis using x assms(2,4,5) unfolding encode_size [OF assms(6)] by (auto split: if_splits)
qed

text \<open>The decoder passes over characters outside its table.\<close>

lemma dec_loop_filter:
  "dec_loop d olen src block pad out = dec_loop d olen (filter (\<lambda>c. d c \<noteq> 0x80) src) block pad out"
  by (induction src arbitrary: block pad out) (simp_all add: Let_def)

locale base64_alphabet =
  fixes table :: string
  assumes length_table: "length table = 64" and distinct_table: "distinct table"
    and no_pad: "CHR ''='' \<notin> set table" and no_lf: "line_feed \<notin> set table"
begin

lemma dtable_letter:
  assumes "i < 64"
  shows "dtable table (table ! i) = of_nat i"
proof -
  have "(THE j. j < 64 \<and> table ! i = table ! j) = i"
    using assms distinct_table length_table by (auto simp: nth_eq_iff_index_eq)
  moreover have "table ! i \<noteq> CHR ''=''" using assms no_pad length_table by (metis nth_mem)
  ultimately show ?thesis using assms distinct_table length_table
    by (auto simp: dtable_def fold_table)
qed

lemma dtable_pad [simp]: "dtable table (CHR ''='') = 0"
  by (simp add: dtable_def)

lemma dtable_other: "c \<notin> set table \<Longrightarrow> c \<noteq> CHR ''='' \<Longrightarrow> dtable table c = 0x80"
  using length_table distinct_table by (auto simp: dtable_def fold_table in_set_conv_nth)

lemma dtable_lf [simp]: "dtable table line_feed = 0x80"
  using no_lf by (intro dtable_other) (auto simp: line_feed_def)

lemma dtable_known: "dtable table c \<noteq> 0x80 \<longleftrightarrow> c \<in> set table \<or> c = CHR ''=''"
proof -
  have "(of_nat i :: byte) \<noteq> 0x80" if "i < 64" for i
  proof
    assume "(of_nat i :: byte) = 0x80"
    then have "unat (of_nat i :: byte) = unat (0x80 :: byte)" by (rule arg_cong)
    then show False using that by (simp add: unat_of_nat)
  qed
  then have "c \<in> set table \<Longrightarrow> dtable table c \<noteq> 0x80"
    using dtable_letter length_table by (auto simp: in_set_conv_nth)
  moreover have "c = CHR ''='' \<Longrightarrow> dtable table c \<noteq> 0x80" by simp
  ultimately show ?thesis using dtable_other by blast
qed

lemma unat_sextet: "unat (v AND 0x3f :: byte) < 64"
proof -
  have "v AND 0x3f \<le> (0x3f :: byte)" by (rule word_and_le1)
  then show ?thesis by (simp add: word_le_nat_alt)
qed

lemma dtable_sextet [simp]: "dtable table (letter table v) = v AND 0x3f"
  unfolding letter_def by (simp add: dtable_letter [OF unat_sextet])

lemma sextet_known [simp]: "v AND 0x3f \<noteq> (0x80 :: byte)"
  using unat_sextet [of v] by auto

lemma letter_not_pad [simp]: "letter table v \<noteq> CHR ''=''"
  using no_pad length_table unat_sextet [of v] unfolding letter_def by (metis nth_mem)

text \<open>A full block and a line feed under the decoder.\<close>

lemma dec_block:
  "dec_loop (dtable table) olen (letter table v # letter table w # letter table x # letter table y # r) [] 0 out =
     (if length out + 3 > olen then None
      else dec_loop (dtable table) olen r [] 0
        (out @ [push_bit 2 (v AND 63) OR drop_bit 4 (w AND 63), push_bit 4 (w AND 63) OR drop_bit 2 (x AND 63),
                push_bit 6 (x AND 63) OR (y AND 63)]))"
  by (simp add: Let_def del: push_bit_and drop_bit_and)

lemma dec_pad_two:
  "dec_loop (dtable table) olen (letter table v # letter table w # CHR ''='' # CHR ''='' # r) [] 0 out =
     (if length out + 3 > olen then None
      else Some (Some (out @ [push_bit 2 (v AND 63) OR drop_bit 4 (w AND 63)])))"
  by (simp add: Let_def del: push_bit_and drop_bit_and)

lemma dec_pad_one:
  "dec_loop (dtable table) olen (letter table v # letter table w # letter table x # CHR ''='' # r) [] 0 out =
     (if length out + 3 > olen then None
      else Some (Some (out @ [push_bit 2 (v AND 63) OR drop_bit 4 (w AND 63),
                              push_bit 4 (w AND 63) OR drop_bit 2 (x AND 63)])))"
  by (simp add: Let_def del: push_bit_and drop_bit_and)

text \<open>
  What the loop of the encoder produces for the blocks \<open>pre\<close> it has consumed: \<open>4\<close> letters for each
  and a line feed for every \<open>72\<close> letters; and a decoder that reads it has \<open>pre\<close> again.
\<close>

lemma enc_loop_spec:
  assumes "lf \<Longrightarrow> ll < 72 \<and> 4 dvd ll" "\<not> lf \<Longrightarrow> ll + 4 * (length src div 3) \<le> INT_MAX"
  shows "\<exists>pre rest e k m ll'. enc_loop table lf src ll out = Some (rest, ll', out @ e) \<and> src = pre @ rest \<and>
    length rest < 3 \<and> length pre = 3 * m \<and> length e = 4 * m + k \<and> ll + 4 * m = 72 * k + ll' \<and>
    (if lf then ll' < 72 else k = 0) \<and>
    length (filter (\<lambda>c. dtable table c \<noteq> 0x80) e) = 4 * m \<and>
    (\<forall>olen tail o'. length o' + length pre \<le> olen \<longrightarrow>
       dec_loop (dtable table) olen (e @ tail) [] 0 o' = dec_loop (dtable table) olen tail [] 0 (o' @ pre))"
  using assms
proof (induction src arbitrary: ll out rule: block_induct)
  case (short r)
  then show ?case by (intro exI [of _ "[]"] exI [of _ r]) (auto simp: enc_loop_short)
next
  case (block a b c r)
  let ?g = "[letter table (drop_bit 2 a), letter table (push_bit 4 (a AND 0x03) OR drop_bit 4 b),
    letter table (push_bit 2 (b AND 0x0f) OR drop_bit 6 c), letter table c]"
  define full where "full \<longleftrightarrow> lf \<and> ll + 4 \<ge> 72"
  define g where "g = ?g @ (if full then [line_feed] else [])"
  define l where "l = (if full then 0 else ll + 4)"
  have blk: "length (a # b # c # r) div 3 = Suc (length r div 3)" by simp
  have "ll + 4 \<le> INT_MAX" using block.prems unfolding blk by (cases lf) (auto simp: INT_MAX_def)
  then have step: "enc_loop table lf (a # b # c # r) ll out = enc_loop table lf r l (out @ g)"
    by (auto simp: g_def l_def full_def Let_def)
  have "lf \<Longrightarrow> l < 72 \<and> 4 dvd l" "\<not> lf \<Longrightarrow> l + 4 * (length r div 3) \<le> INT_MAX"
    using block.prems unfolding blk by (auto simp: l_def full_def)
  from block.IH [OF this, of "out @ g"] obtain pre rest e k m ll' where
    IH: "enc_loop table lf r l (out @ g) = Some (rest, ll', (out @ g) @ e)" "r = pre @ rest"
    "length rest < 3" "length pre = 3 * m" "length e = 4 * m + k" "l + 4 * m = 72 * k + ll'"
    "if lf then ll' < 72 else k = 0" "length (filter (\<lambda>c. dtable table c \<noteq> 0x80) e) = 4 * m"
    and dec: "\<And>olen tail o'. length o' + length pre \<le> olen \<Longrightarrow>
       dec_loop (dtable table) olen (e @ tail) [] 0 o' = dec_loop (dtable table) olen tail [] 0 (o' @ pre)"
    by blast
  have l: "ll + 4 = 72 * (if full then 1 else 0) + l" "full \<Longrightarrow> lf"
    using block.prems(1) by (auto simp: l_def full_def elim!: dvdE)
  have dec': "dec_loop (dtable table) olen ((g @ e) @ tail) [] 0 o' =
     dec_loop (dtable table) olen tail [] 0 (o' @ a # b # c # pre)"
    if "length o' + length (a # b # c # pre) \<le> olen" for olen tail o'
  proof -
    have "dec_loop (dtable table) olen (?g @ r) [] 0 o' =
      (if length o' + 3 > olen then None else dec_loop (dtable table) olen r [] 0 (o' @ [a, b, c]))" for r
      by (simp only: append_Cons append_Nil dec_block block_octets)
    from this [of "(if full then [line_feed] else []) @ e @ tail"]
    have "dec_loop (dtable table) olen ((g @ e) @ tail) [] 0 o' =
      dec_loop (dtable table) olen (e @ tail) [] 0 (o' @ [a, b, c])"
      using that by (auto simp: g_def simp del: push_bit_and drop_bit_and)
    also have "\<dots> = dec_loop (dtable table) olen tail [] 0 (o' @ a # b # c # pre)"
      using dec [of "o' @ [a, b, c]"] that by simp
    finally show ?thesis .
  qed
  show ?case
    using IH l dec' unfolding step
    by (intro exI [of _ "a # b # c # pre"] exI [of _ rest] exI [of _ "g @ e"]
        exI [of _ "k + (if full then 1 else 0)"] exI [of _ "Suc m"] exI [of _ ll'])
       (auto simp: g_def split: if_splits)
qed

text \<open>The octets after the last full block.\<close>

lemma last_octet: "push_bit 2 (drop_bit 2 a AND 63) OR drop_bit 4 (push_bit 4 (a AND 3) AND 63) = a" for a :: byte
  using block_octet_1 [of a 0] by simp

lemma last_two_octets:
  "push_bit 4 ((push_bit 4 (a AND 3) OR drop_bit 4 b) AND 63) OR drop_bit 2 (push_bit 2 (b AND 15) AND 63) = b" for a b :: byte
  using block_octet_2 [of a b 0] by simp

lemma enc_rest_spec:
  assumes "length rest < 3" "ll + 4 \<le> INT_MAX"
  shows "\<exists>tl ll'. enc_rest table pad rest ll out = Some (ll', out @ tl) \<and>
    length tl \<le> (if rest = [] then 0 else 4) \<and> (rest \<noteq> [] \<longrightarrow> filter (\<lambda>c. dtable table c \<noteq> 0x80) tl \<noteq> []) \<and>
    (\<forall>m lfs olen o'. set lfs \<subseteq> {line_feed} \<longrightarrow> length o' + (if rest = [] then 0 else 3) \<le> olen \<longrightarrow>
       (let count = 4 * m + length (filter (\<lambda>c. dtable table c \<noteq> 0x80) tl)
        in dec_loop (dtable table) olen (tl @ lfs @ replicate ((4 - count mod 4) mod 4) (CHR ''='')) [] 0 o' =
             Some (Some (o' @ rest))))"
proof -
  have skip: "dec_loop (dtable table) olen (xs @ lfs @ r) blk p o' = dec_loop (dtable table) olen (xs @ r) blk p o'"
    if "set lfs \<subseteq> {line_feed}" for olen lfs r blk p o' xs
  proof -
    have "filter (\<lambda>c. dtable table c \<noteq> 0x80) lfs = []" using that by (auto simp: filter_empty_conv)
    then show ?thesis
      by (subst (1 2) dec_loop_filter) simp
  qed
  have skips: "dec_loop (dtable table) olen (x # y # lfs @ r) [] p o' = dec_loop (dtable table) olen (x # y # r) [] p o'"
      "dec_loop (dtable table) olen (x # y # z # lfs @ r) [] p o' = dec_loop (dtable table) olen (x # y # z # r) [] p o'"
    if "set lfs \<subseteq> {line_feed}" for olen x y z lfs r p o'
    using skip [OF that, where xs = "[x, y]"] skip [OF that, where xs = "[x, y, z]"] by (simp_all del: dec_loop.simps)
  have rep: "replicate 2 x = [x, x]" "replicate (Suc 0) x = [x]" for x :: char by (simp_all add: numeral_2_eq_2)
  have m: "Suc (Suc (4 * m)) mod 4 = 2" "Suc (Suc (Suc (4 * m))) mod 4 = 3" for m :: nat by presburger+
  consider "rest = []" | a where "rest = [a]" | a b where "rest = [a, b]"
    using assms(1) by (cases rest; cases "tl rest"; cases "tl (tl rest)") auto
  then show ?thesis
  proof cases
    case 1
    then show ?thesis using skip [where r = "[]" and xs = "[]"] by (auto simp: enc_rest_def)
  next
    case (2 a)
    then show ?thesis using assms(2)
      by (auto simp: enc_rest_def Let_def m skips rep dec_pad_two last_octet simp del: push_bit_and drop_bit_and dec_loop.simps)
  next
    case (3 a b)
    then show ?thesis using assms(2)
      by (auto simp: enc_rest_def Let_def m skips rep dec_pad_one block_octet_1 last_two_octets simp del: push_bit_and drop_bit_and dec_loop.simps)
  qed
qed

text \<open>Both together: the encoder returns, within its buffer, and the decoder inverts it.\<close>

lemma codec:
  fixes flags :: u32
  assumes len: "length src < SIZE_MAX div 4"
    and line: "flags AND BASE64_LF = 0 \<Longrightarrow> 4 * (length src div 3 + 1) \<le> INT_MAX"
  shows "\<exists>out. base64_gen_encode True src table flags = Some (Some out) \<and>
    (src \<noteq> [] \<longrightarrow> base64_gen_decode True out table = Some (Some src))"
proof -
  define lf pad where "lf \<longleftrightarrow> flags AND BASE64_LF \<noteq> 0" and "pad \<longleftrightarrow> flags AND BASE64_PAD \<noteq> 0"
  let ?known = "filter (\<lambda>c. dtable table c \<noteq> 0x80)"
  have "lf \<Longrightarrow> 0 < (72::nat) \<and> 4 dvd (0::nat)" "\<not> lf \<Longrightarrow> 0 + 4 * (length src div 3) \<le> INT_MAX"
    using line by (auto simp: lf_def)
  from enc_loop_spec [where out = "[]", OF this] obtain pre rest e k m ll where loop: "enc_loop table lf src 0 [] = Some (rest, ll, e)" "src = pre @ rest"
    "length rest < 3" "length pre = 3 * m" "length e = 4 * m + k" "4 * m = 72 * k + ll"
    "if lf then ll < 72 else k = 0" "length (?known e) = 4 * m"
    and dec: "\<And>olen tail o'. length o' + length pre \<le> olen \<Longrightarrow>
       dec_loop (dtable table) olen (e @ tail) [] 0 o' = dec_loop (dtable table) olen tail [] 0 (o' @ pre)"
    unfolding append_Nil add_0 by blast
  have m: "m = length src div 3" using loop(2-4) by simp
  then have "ll + 4 \<le> INT_MAX" using loop(6,7) line by (auto simp: lf_def INT_MAX_def split: if_splits)
  from enc_rest_spec [OF loop(3) this, of pad e] obtain tl ll' where
    rest: "enc_rest table pad rest ll e = Some (ll', e @ tl)" "length tl \<le> (if rest = [] then 0 else 4)"
      "rest \<noteq> [] \<longrightarrow> ?known tl \<noteq> []"
    and tail: "\<And>lfs olen o'. set lfs \<subseteq> {line_feed} \<Longrightarrow> length o' + (if rest = [] then 0 else 3) \<le> olen \<Longrightarrow>
       dec_loop (dtable table) olen (tl @ lfs @ replicate ((4 - (4 * m + length (?known tl)) mod 4) mod 4) (CHR ''='')) [] 0 o' =
             Some (Some (o' @ rest))"
    by (auto simp: Let_def)
  define lfs where "lfs = (if lf \<and> ll' \<noteq> 0 then [line_feed] else [])"
  have lfs: "set lfs \<subseteq> {line_feed}" "length lfs \<le> (if lf then 1 else 0)" "?known lfs = []" by (auto simp: lfs_def)
  have len_src: "length src = 3 * m + length rest" using loop(2,4) by simp
  have fits: "length (e @ tl @ lfs) + 1 \<le> encode_size (length src) lf"
    using encode_room [of "length rest" "length tl" k m "length lfs" lf] loop(3,5,6,7) rest(2) lfs(2) len
    unfolding len_src by (auto split: if_splits)
  have "\<not> encode_size (length src) lf < length src" unfolding encode_size [OF len] by auto
  then have enc: "base64_gen_encode True src table flags = Some (Some (e @ tl @ lfs))"
    using len fits loop(1) rest(1)
    by (auto simp: base64_gen_encode_def Let_def lfs_def lf_def [symmetric] pad_def [symmetric] split: if_splits)
  have "base64_gen_decode True (e @ tl @ lfs) table = Some (Some src)" if "src \<noteq> []"
  proof -
    define count where "count = 4 * m + length (?known tl)"
    have count: "length (?known (e @ tl @ lfs)) = count" using loop(8) lfs(3) by (simp add: count_def)
    have pos: "rest \<noteq> [] \<Longrightarrow> 4 * m < count" using rest(3) by (simp add: count_def)
    then have nz: "count \<noteq> 0" using that len_src loop(2) by (cases "rest = []") (auto simp: count_def)
    have room: "length pre + (if rest = [] then 0 else 3) \<le> (count + (4 - count mod 4) mod 4) div 4 * 3"
      using decode_room [OF pos] loop(4) by (auto simp: count_def)
    have "dec_loop (dtable table) ((count + (4 - count mod 4) mod 4) div 4 * 3)
      (e @ tl @ lfs @ replicate ((4 - count mod 4) mod 4) (CHR ''='')) [] 0 [] = Some (Some src)"
      using dec [of "[]"] tail [OF lfs(1), of pre, folded count_def] room loop(2) by simp
    then show ?thesis unfolding base64_gen_decode_def Let_def count using nz by simp
  qed
  then show ?thesis using enc by blast
qed

text \<open>The decoder on arbitrary input.\<close>

lemma decode_known:
  "base64_gen_decode room src table = base64_gen_decode room (filter (\<lambda>c. c \<in> set table \<or> c = CHR ''='') src) table"
proof -
  have k: "(\<lambda>c. c \<in> set table \<or> c = CHR ''='') = (\<lambda>c. dtable table c \<noteq> 0x80)"
    using dtable_known by auto
  have "dec_loop (dtable table) n (filter (\<lambda>c. dtable table c \<noteq> 0x80) src @ p) b q o' =
    dec_loop (dtable table) n (src @ p) b q o'" for n p b q o'
    by (subst (1 2) dec_loop_filter) simp
  then show ?thesis unfolding k by (simp add: base64_gen_decode_def Let_def)
qed

end

lemma dec_loop_total:
  assumes "length block < 4"
    "length out + 3 * ((length block + length (filter (\<lambda>c. d c \<noteq> 0x80) src)) div 4) \<le> olen"
  shows "\<exists>r. dec_loop d olen src block pad out = Some r \<and> (\<forall>o'. r = Some o' \<longrightarrow> length o' \<le> olen)"
  using assms
proof (induction src arbitrary: block pad out)
  case (Cons c src)
  show ?case
  proof (cases "d c = 0x80 \<or> length block \<noteq> 3")
    case True
    then show ?thesis using Cons.prems Cons.IH [of block out pad] Cons.IH [of "block @ [d c]" out]
      by (auto simp: Let_def)
  next
    case False
    define q where "q = length (filter (\<lambda>c. d c \<noteq> 0x80) src) div 4"
    have "(length block + length (filter (\<lambda>c. d c \<noteq> 0x80) (c # src))) div 4 = q + 1"
      using False by (simp add: q_def)
    then have "length out + 3 + 3 * q \<le> olen" using Cons.prems(2) by simp
    then show ?thesis using False Cons.IH [of "[]"] by (auto simp: Let_def q_def)
  qed
qed simp

interpretation std: base64_alphabet base64_table
  by unfold_locales (code_simp, code_simp, code_simp, code_simp)

interpretation url: base64_alphabet base64_url_table
  by unfold_locales (code_simp, code_simp, code_simp, code_simp)

lemma decode_total:
  "\<exists>r. base64_gen_decode room src table = Some r \<and>
     (\<forall>out. r = Some out \<longrightarrow> length out \<le> (length (filter (\<lambda>c. dtable table c \<noteq> 0x80) src) + 3) div 4 * 3)"
proof -
  define n where "n = length (filter (\<lambda>c. dtable table c \<noteq> 0x80) src)"
  define ex where "ex = (4 - n mod 4) mod 4"
  let ?s = "src @ replicate ex (CHR ''='')"
  have "dtable table (CHR ''='') = 0" by (simp add: dtable_def)
  then have "length (filter (\<lambda>c. dtable table c \<noteq> 0x80) ?s) = n + ex" by (simp add: n_def)
  then have "\<exists>r. dec_loop (dtable table) ((n + ex) div 4 * 3) ?s [] 0 [] = Some r \<and>
      (\<forall>o'. r = Some o' \<longrightarrow> length o' \<le> (n + ex) div 4 * 3)"
    by (intro dec_loop_total) simp_all
  moreover have "(n + ex) div 4 \<le> (n + 3) div 4" unfolding ex_def by (intro div_le_mono) simp
  ultimately have "\<exists>r. dec_loop (dtable table) ((n + ex) div 4 * 3) ?s [] 0 [] = Some r \<and>
      (\<forall>o'. r = Some o' \<longrightarrow> length o' \<le> (n + 3) div 4 * 3)"
    by (meson le_trans mult_le_mono1)
  then show ?thesis unfolding base64_gen_decode_def n_def [symmetric] Let_def ex_def [symmetric] by auto
qed

section \<open>Properties\<close>

text \<open>
  C30. Decoding inverts encoding, for each of the three encoders with its decoder (standard with
  line feeds, standard on one line, URL-safe without padding), on every nonempty octet string whose
  encoding the code can produce: the encoder returns a string, having written nothing outside the
  buffer it sized beforehand, and the decoder returns exactly the octets encoded. The bound on
  the length is that of the \<open>size_t\<close> computation and, where the line length is never reset, that
  of the \<open>int\<close> that counts it.
\<close>

theorem base64_roundtrip:
  assumes "src \<noteq> []" "length src < SIZE_MAX div 4"
  shows "(\<exists>out. base64_encode True src = Some (Some out) \<and> base64_decode True out = Some (Some src)) \<and>
    (4 * (length src div 3 + 1) \<le> INT_MAX \<longrightarrow>
      (\<exists>out. base64_encode_no_lf True src = Some (Some out) \<and> base64_decode True out = Some (Some src)) \<and>
      (\<exists>out. base64_url_encode True src = Some (Some out) \<and> base64_url_decode True out = Some (Some src)))"
proof -
  have "BASE64_PAD OR BASE64_LF = 3" "(3::u32) AND 2 \<noteq> 0" by (simp_all add: BASE64_PAD_def BASE64_LF_def)
  then have "\<exists>out. base64_encode True src = Some (Some out) \<and> base64_decode True out = Some (Some src)"
    using std.codec [OF assms(2), of "BASE64_PAD OR BASE64_LF"] assms(1)
    by (auto simp: base64_encode_def base64_decode_def BASE64_LF_def)
  then show ?thesis using assms(1) std.codec [OF assms(2)] url.codec [OF assms(2)]
    by (auto simp: base64_encode_no_lf_def base64_decode_def base64_url_encode_def base64_url_decode_def)
qed

theorem base64_roundtrip_witness:
  "\<exists>out. base64_url_encode True [0xfb, 0xff, 0x00, 0x41] = Some (Some out) \<and>
     base64_url_decode True out = Some (Some [0xfb, 0xff, 0x00, 0x41])"
  using base64_roundtrip [of "[0xfb, 0xff, 0x00, 0x41]"] by (simp add: SIZE_MAX_def INT_MAX_def)

text \<open>
  Decoding an arbitrary string always returns, without a write outside the buffer sized
  from the number of its alphabet characters: either null or at most three octets for every four
  such characters begun. Characters outside the alphabet are passed over wherever they stand.
\<close>

theorem base64_decode_safe:
  "\<exists>r. base64_decode room src = Some r \<and>
     r \<in> {None} \<union> Some ` {out. length out \<le> (length (filter (\<lambda>c. dtable base64_table c \<noteq> 0x80) src) + 3) div 4 * 3} \<and>
     base64_decode room (filter (\<lambda>c. c \<in> set base64_table \<or> c = CHR ''='') src) = Some r"
proof -
  obtain r where "base64_decode room src = Some r"
    "\<And>out. r = Some out \<Longrightarrow> length out \<le> (length (filter (\<lambda>c. dtable base64_table c \<noteq> 0x80) src) + 3) div 4 * 3"
    using decode_total [of room src base64_table] unfolding base64_decode_def by blast
  moreover from this have "base64_decode room (filter (\<lambda>c. c \<in> set base64_table \<or> c = CHR ''='') src) = Some r"
    using std.decode_known [of room src] unfolding base64_decode_def by simp
  ultimately show ?thesis by (cases r) auto
qed

end
