(* ===== verification/Eap_Server.thy ===== *)
theory Eap_Server
  imports Eapol_Auth
begin

text \<open>
  The EAP server of \<open>src/eap_server/eap_server.c\<close>: the full authenticator of RFC 4137 with the
  pass-through machine, as it is built with the re-authentication protocol (\<open>CONFIG_ERP\<close>).

  The state is the record \<open>eap_sm\<close> after \<open>struct eap_sm\<close> of \<open>eap_i.h\<close>; the interface to the
  authenticator is its field \<open>eif\<close>, with the record of \<open>Eapol_Auth\<close>. Every \<open>SM_STATE\<close> function is a
  definition \<open>sm_EAP_<state>_Enter\<close> and \<open>SM_STEP\<close> is \<open>sm_EAP_Step\<close>. The EAP methods are code behind
  the function table \<open>struct eap_method\<close>, the record \<open>eap_method\<close> here: functions on the private data
  of the method and on the record \<open>eap_share\<close>, which holds the fields of \<open>struct eap_sm\<close> that the
  methods under \<open>src/eap_server\<close> write. The rest of the world (allocator, random numbers, user data
  base, further data of the methods) is a state \<open>'w\<close> that is passed through. Memory management and
  logging are left out; a freed pointer is \<open>None\<close>.

  \<open>None\<close> as the result of an operation means that it has no defined result: a null pointer is
  dereferenced, or a loop does not end.
\<close>

section \<open>Data\<close>

datatype eap_state = EAP_DISABLED | EAP_INITIALIZE | EAP_IDLE | EAP_RECEIVED | EAP_INTEGRITY_CHECK
  | EAP_METHOD_RESPONSE | EAP_METHOD_REQUEST | EAP_PROPOSE_METHOD | EAP_SELECT_ACTION | EAP_SEND_REQUEST
  | EAP_DISCARD | EAP_NAK | EAP_RETRANSMIT | EAP_SUCCESS | EAP_FAILURE | EAP_TIMEOUT_FAILURE
  | EAP_PICK_UP_METHOD | EAP_INITIALIZE_PASSTHROUGH | EAP_IDLE2 | EAP_RETRANSMIT2 | EAP_RECEIVED2
  | EAP_DISCARD2 | EAP_SEND_REQUEST2 | EAP_AAA_REQUEST | EAP_AAA_RESPONSE | EAP_AAA_IDLE
  | EAP_TIMEOUT_FAILURE2 | EAP_FAILURE2 | EAP_SUCCESS2 | EAP_INITIATE_REAUTH_START | EAP_INITIATE_RECEIVED

datatype method_state = METHOD_PROPOSED | METHOD_CONTINUE | METHOD_END

datatype eap_decision = DECISION_SUCCESS | DECISION_FAILURE | DECISION_CONTINUE | DECISION_PASSTHROUGH
  | DECISION_INITIATE_REAUTH_START

datatype pending_state = METHOD_PENDING_NONE | METHOD_PENDING_WAIT | METHOD_PENDING_CONT

definition EAP_MAX_METHODS :: nat where
  "EAP_MAX_METHODS = 8"

text \<open>The methods of a user are pairs of vendor and type; the pair of zeros ends them.\<close>

record eap_user =
  methods :: "(int \<times> u32) list"
  password :: "bytes option"
  password_hash :: bool
  salt :: "bytes option"
  phase2 :: bool
  force_version :: int
  user_remediation :: bool
  macacl :: bool
  ttls_auth :: int
  t_c_timestamp :: u32

record eap_server_erp_key =
  rRK :: bytes
  rIK :: bytes
  recv_seq :: u32
  cryptosuite :: byte
  keyname_nai :: bytes

record eap_config =
  backend_auth :: bool
  eap_server :: bool
  erp :: bool
  max_auth_rounds :: u32
  max_auth_rounds_short :: u32

text \<open>
  The fields the methods write. \<open>user_eap_method_index\<close> is never negative. \<open>saw_remediation\<close> is what
  \<open>eapol_sm_get_eap_user\<close> notes in the authenticator when a fetched user asks for remediation.
\<close>

record 'w eap_share =
  eap_identity :: "bytes option"
  user :: "eap_user option"
  user_eap_method_index :: nat
  update_user :: bool
  method_pending :: pending_state
  MaxRetrans :: int
  saw_remediation :: bool
  world :: 'w

record ('p, 'w) eap_method =
  m_vendor :: int
  m_method :: u32
  m_name :: string
  m_init :: "'w eap_share \<Rightarrow> 'p option \<times> 'w eap_share"
  m_initPickUp :: "('w eap_share \<Rightarrow> 'p option \<times> 'w eap_share) option"
  m_reset :: "'p \<Rightarrow> 'w eap_share \<Rightarrow> 'w eap_share"
  m_buildReq :: "'p \<Rightarrow> byte \<Rightarrow> 'w eap_share \<Rightarrow> bytes option \<times> 'p \<times> 'w eap_share"
  m_getTimeout :: "('p \<Rightarrow> 'w eap_share \<Rightarrow> int) option"
  m_check :: "('p \<Rightarrow> bytes \<Rightarrow> 'w eap_share \<Rightarrow> bool) option"
  m_process :: "'p \<Rightarrow> bytes \<Rightarrow> 'w eap_share \<Rightarrow> ('p \<times> 'w eap_share) option"
  m_isDone :: "'p \<Rightarrow> 'w eap_share \<Rightarrow> bool"
  m_getKey :: "('p \<Rightarrow> 'w eap_share \<Rightarrow> bytes option \<times> 'w eap_share) option"
  m_isSuccess :: "'p \<Rightarrow> 'w eap_share \<Rightarrow> bool"
  m_get_emsk :: "('p \<Rightarrow> 'w eap_share \<Rightarrow> bytes option \<times> 'w eap_share) option"
  m_getSessionId :: "('p \<Rightarrow> 'w eap_share \<Rightarrow> bytes option \<times> 'w eap_share) option"

text \<open>
  What surrounds the machine: configuration, registered methods, allocator, \<open>rand\<close>, the callbacks
  of \<open>struct eapol_callbacks\<close>, and the two keyed hash functions.
\<close>

record ('p, 'w) eap_env =
  cfg :: eap_config
  eap_methods :: "('p, 'w) eap_method list"
  os_malloc :: "'w \<Rightarrow> bool \<times> 'w"
  c_rand :: "'w \<Rightarrow> int \<times> 'w"
  get_eap_user :: "(bytes \<Rightarrow> bool \<Rightarrow> 'w \<Rightarrow> bool \<times> eap_user \<times> 'w) option"
  get_erp_send_reauth_start :: bool
  get_erp_domain :: "bytes option"
  hmac_sha256 :: "bytes \<Rightarrow> bytes \<Rightarrow> bytes option"
  hmac_sha256_kdf :: "bytes \<Rightarrow> string \<Rightarrow> bytes \<Rightarrow> nat \<Rightarrow> bytes option"

text \<open>\<open>erp_keys\<close> is the list of the access point (\<open>hapd->erp_keys\<close>), which the callbacks reach.\<close>

record ('p, 'w) eap_sm =
  EAP_state :: eap_state
  eif :: eap_eapol_interface
  currentMethod :: u32
  currentId :: int
  methodState :: method_state
  retransCount :: int
  lastReqData :: "bytes option"
  methodTimeout :: int
  rxResp :: bool
  rxInitiate :: bool
  respId :: int
  respMethod :: u32
  respVendor :: int
  respVendorMethod :: u32
  ignore :: bool
  decision :: eap_decision
  eap_m :: "('p, 'w) eap_method option"
  eap_changed :: bool
  eap_method_priv :: "'p option"
  lastId :: int
  num_rounds :: u32
  num_rounds_short :: u32
  start_reauth :: bool
  initiate_reauth_start_sent :: bool
  try_initiate_reauth :: bool
  erp_keys :: "eap_server_erp_key list"
  share :: "'w eap_share"

type_synonym ('p, 'w) eap_op = "('p, 'w) eap_env \<Rightarrow> bool \<Rightarrow> ('p, 'w) eap_sm \<Rightarrow> ('p, 'w) eap_sm"

abbreviation upd_eif :: "(eap_eapol_interface \<Rightarrow> eap_eapol_interface) \<Rightarrow> ('p, 'w) eap_sm \<Rightarrow> ('p, 'w) eap_sm" where
  "upd_eif f s \<equiv> s\<lparr>eif := f (eif s)\<rparr>"

abbreviation upd_share :: "('w eap_share \<Rightarrow> 'w eap_share) \<Rightarrow> ('p, 'w) eap_sm \<Rightarrow> ('p, 'w) eap_sm" where
  "upd_share f s \<equiv> s\<lparr>share := f (share s)\<rparr>"

text \<open>An allocation on the way.\<close>

definition alloc_share :: "('p, 'w) eap_env \<Rightarrow> 'w eap_share \<Rightarrow> bool \<times> 'w eap_share" where
  "alloc_share env sh = (let (ok, w) = os_malloc env (world sh) in (ok, sh\<lparr>world := w\<rparr>))"

definition alloc :: "('p, 'w) eap_env \<Rightarrow> ('p, 'w) eap_sm \<Rightarrow> bool \<times> ('p, 'w) eap_sm" where
  "alloc env s = (let (ok, sh) = alloc_share env (share s) in (ok, s\<lparr>share := sh\<rparr>))"

section \<open>Buffers, users and keys\<close>

text \<open>\<open>eap_copy_buf\<close>: the new destination, the result and the machine after the allocation.\<close>

definition eap_copy_buf ::
  "('p, 'w) eap_env \<Rightarrow> bytes option \<Rightarrow> bytes option \<Rightarrow> ('p, 'w) eap_sm \<Rightarrow> bytes option \<times> int \<times> ('p, 'w) eap_sm" where
  "eap_copy_buf env dst src s =
     (case src of
        None \<Rightarrow> (dst, -1, s)
      | Some b \<Rightarrow> let (ok, s) = alloc env s in if ok then (Some b, 0, s) else (None, -1, s))"

text \<open>\<open>eap_copy_data\<close> on a pointer with its length.\<close>

definition eap_copy_data ::
  "('p, 'w) eap_env \<Rightarrow> bytes option \<Rightarrow> bytes option \<Rightarrow> ('p, 'w) eap_sm \<Rightarrow> bytes option \<times> int \<times> ('p, 'w) eap_sm" where
  "eap_copy_data env dst src s =
     (case src of
        None \<Rightarrow> (dst, -1, s)
      | Some b \<Rightarrow> let (ok, s) = alloc env s in if ok then (Some b, 0, s) else (None, -1, s))"

definition eap_user_get ::
  "('p, 'w) eap_env \<Rightarrow> bytes \<Rightarrow> bool \<Rightarrow> 'w eap_share \<Rightarrow> int \<times> 'w eap_share" where
  "eap_user_get env ident ph2 sh =
     (case get_eap_user env of
        None \<Rightarrow> (-1, sh)
      | Some get \<Rightarrow>
          let (ok, sh) = alloc_share env (sh\<lparr>user := None\<rparr>)
          in if \<not> ok then (-1, sh)
             else
               let (found, u, w) = get ident ph2 (world sh);
                   sh = sh\<lparr>world := w, saw_remediation := (saw_remediation sh \<or> user_remediation u)\<rparr>
               in if \<not> found then (-1, sh)
                  else (0, sh\<lparr>user := Some u, user_eap_method_index := 0\<rparr>))"

text \<open>\<open>eap_server_get_eap_method\<close>: the first registered method of this vendor and type.\<close>

definition eap_server_get_eap_method :: "('p, 'w) eap_env \<Rightarrow> int \<Rightarrow> u32 \<Rightarrow> ('p, 'w) eap_method option" where
  "eap_server_get_eap_method env v t = List.find (\<lambda>x. m_vendor x = v \<and> m_method x = t) (eap_methods env)"

text \<open>The key found by its name, as the index into the list; new keys go to its front.\<close>

definition erp_get_key :: "bytes \<Rightarrow> ('p, 'w) eap_sm \<Rightarrow> nat option" where
  "erp_get_key nai s =
     (let i = length (takeWhile (\<lambda>k. keyname_nai k \<noteq> nai) (erp_keys s))
      in if i < length (erp_keys s) then Some i else None)"

definition erp_add_key :: "eap_server_erp_key \<Rightarrow> ('p, 'w) eap_sm \<Rightarrow> ('p, 'w) eap_sm" where
  "erp_add_key k s = s\<lparr>erp_keys := k # erp_keys s\<rparr>"

section \<open>Procedures\<close>

definition eap_sm_buildInitiateReauthStart ::
  "('p, 'w) eap_env \<Rightarrow> byte \<Rightarrow> ('p, 'w) eap_sm \<Rightarrow> bytes option \<times> ('p, 'w) eap_sm" where
  "eap_sm_buildInitiateReauthStart env ident s =
     (let plen = 1 + (case get_erp_domain env of None \<Rightarrow> 0 | Some d \<Rightarrow> 2 + length d);
          (ok, s) = alloc env s
      in case eap_msg_alloc ok EAP_VENDOR_IETF EAP_ERP_TYPE_REAUTH_START plen EAP_CODE_INITIATE ident of
           None \<Rightarrow> (None, s)
         | Some msg \<Rightarrow>
             (Some (msg @ [0] @
               (case get_erp_domain env of None \<Rightarrow> []
                | Some d \<Rightarrow> [EAP_ERP_TLV_DOMAIN_NAME, of_nat (length d)] @ d)), s))"

fun backoff :: "nat \<Rightarrow> int \<Rightarrow> int" where
  "backoff 0 rto = rto"
| "backoff (Suc n) rto = (if rto * 2 \<ge> 20 then 20 else backoff n (rto * 2))"

definition eap_sm_calculateTimeout :: "('p, 'w) eap_sm \<Rightarrow> int \<Rightarrow> int \<Rightarrow> int \<Rightarrow> int \<Rightarrow> int" where
  "eap_sm_calculateTimeout s retrans_count srtt rttvar method_timeout =
     (if try_initiate_reauth s then 1
      else if method_timeout \<noteq> 0 then method_timeout
      else backoff (nat retrans_count) 3)"

definition eap_sm_parseEapResp :: "bytes option \<Rightarrow> ('p, 'w) eap_sm \<Rightarrow> ('p, 'w) eap_sm" where
  "eap_sm_parseEapResp resp s =
     (let s = s\<lparr>rxResp := False, rxInitiate := False, respId := -1, respMethod := EAP_TYPE_NONE,
                respVendor := EAP_VENDOR_IETF, respVendorMethod := EAP_TYPE_NONE\<rparr>
      in case resp of
           None \<Rightarrow> s
         | Some b \<Rightarrow>
             if length b < 4 then s
             else
               let plen = get_be16 b 2
               in if plen > length b then s
                  else
                    let s = s\<lparr>respId := uint (b ! 1)\<rparr>;
                        s = (if b ! 0 = EAP_CODE_RESPONSE then s\<lparr>rxResp := True\<rparr>
                             else if b ! 0 = EAP_CODE_INITIATE then s\<lparr>rxInitiate := True\<rparr> else s)
                    in if plen > 4 then
                         let s = s\<lparr>respMethod := ucast (b ! 4)\<rparr>
                         in if respMethod s = EAP_TYPE_EXPANDED then
                              if plen < 4 + 8 then s
                              else s\<lparr>respVendor := int (get_be24 b 5), respVendorMethod := of_nat (get_be32 b 8)\<rparr>
                            else s
                       else s)"

definition eap_sm_getId :: "bytes option \<Rightarrow> int" where
  "eap_sm_getId data = (case data of None \<Rightarrow> -1 | Some b \<Rightarrow> if length b < 4 then -1 else uint (b ! 1))"

definition eap_sm_buildSuccess :: "('p, 'w) eap_env \<Rightarrow> byte \<Rightarrow> ('p, 'w) eap_sm \<Rightarrow> bytes option \<times> ('p, 'w) eap_sm" where
  "eap_sm_buildSuccess env ident s =
     (let (ok, s) = alloc env s in (if ok then Some [EAP_CODE_SUCCESS, ident, 0, 4] else None, s))"

definition eap_sm_buildFailure :: "('p, 'w) eap_env \<Rightarrow> byte \<Rightarrow> ('p, 'w) eap_sm \<Rightarrow> bytes option \<times> ('p, 'w) eap_sm" where
  "eap_sm_buildFailure env ident s =
     (let (ok, s) = alloc env s in (if ok then Some [EAP_CODE_FAILURE, ident, 0, 4] else None, s))"

definition eap_sm_nextId :: "('p, 'w) eap_env \<Rightarrow> int \<Rightarrow> ('p, 'w) eap_sm \<Rightarrow> int \<times> ('p, 'w) eap_sm" where
  "eap_sm_nextId env ident s =
     (if ident < 0 then
        let (r, w) = c_rand env (world (share s));
            s = upd_share (\<lambda>sh. sh\<lparr>world := w\<rparr>) s
        in if r mod 256 \<noteq> lastId s then (r mod 256, s) else ((r mod 256 + 1) mod 256, s)
      else ((ident + 1) mod 256, s))"

text \<open>An entry of the methods of a user; the array has \<open>EAP_MAX_METHODS\<close> entries.\<close>

definition method_at :: "(int \<times> u32) list \<Rightarrow> nat \<Rightarrow> int \<times> u32" where
  "method_at ms i = (if i < length ms then ms ! i else (EAP_VENDOR_IETF, EAP_TYPE_NONE))"

definition method_set :: "(int \<times> u32) list \<Rightarrow> nat \<Rightarrow> bool" where
  "method_set ms i \<longleftrightarrow> i < EAP_MAX_METHODS \<and>
     (fst (method_at ms i) \<noteq> EAP_VENDOR_IETF \<or> snd (method_at ms i) \<noteq> EAP_TYPE_NONE)"

definition in_nak_list :: "bytes \<Rightarrow> u32 \<Rightarrow> bool" where
  "in_nak_list nak t \<longleftrightarrow> t \<in> ucast ` set nak"

text \<open>
  The entry is taken out: \<open>os_memmove\<close> moves the ones behind it down, and the last one of the array
  becomes empty.
\<close>

definition drop_method :: "(int \<times> u32) list \<Rightarrow> nat \<Rightarrow> (int \<times> u32) list" where
  "drop_method ms i =
     take i ms @ drop (i + 1) (take EAP_MAX_METHODS ms) @ [(EAP_VENDOR_IETF, EAP_TYPE_NONE)] @ drop EAP_MAX_METHODS ms"

text \<open>The entries from \<open>i\<close> on that are in use.\<close>

definition used_from :: "(int \<times> u32) list \<Rightarrow> nat \<Rightarrow> nat" where
  "used_from ms i = length (filter (\<lambda>x. x \<noteq> (EAP_VENDOR_IETF, EAP_TYPE_NONE)) (drop i ms))"

lemma used_from_step:
  assumes "method_set ms i"
  shows "used_from ms (i + 1) < used_from ms i" "used_from (drop_method ms i) i < used_from ms i"
proof -
  let ?e = "(EAP_VENDOR_IETF, EAP_TYPE_NONE)"
  have i: "i < EAP_MAX_METHODS" "i < length ms" "ms ! i \<noteq> ?e"
    using assms by (auto simp: method_set_def method_at_def prod_eq_iff split: if_splits)
  then have d: "drop i ms = ms ! i # drop (Suc i) ms" by (simp add: Cons_nth_drop_Suc)
  then show "used_from ms (i + 1) < used_from ms i" using i by (simp add: used_from_def)
  have t: "drop (Suc i) ms = drop (Suc i) (take EAP_MAX_METHODS ms) @ drop EAP_MAX_METHODS ms"
    using i(1) append_take_drop_id [of EAP_MAX_METHODS ms] drop_append [of "Suc i" "take EAP_MAX_METHODS ms" "drop EAP_MAX_METHODS ms"]
    by (simp add: min_def)
  have "drop i (drop_method ms i) = drop (Suc i) (take EAP_MAX_METHODS ms) @ [?e] @ drop EAP_MAX_METHODS ms"
    using i by (simp add: drop_method_def)
  then show "used_from (drop_method ms i) i < used_from ms i" using i(3) by (simp add: used_from_def d, simp add: t)
qed

function nak_loop :: "bytes \<Rightarrow> (int \<times> u32) list \<Rightarrow> nat \<Rightarrow> (int \<times> u32) list" where
  "nak_loop nak ms i =
     (if \<not> method_set ms i then ms
      else if fst (method_at ms i) = EAP_VENDOR_IETF \<and> in_nak_list nak (snd (method_at ms i))
      then nak_loop nak ms (i + 1)
      else nak_loop nak (drop_method ms i) i)"
  by pat_completeness auto
termination by (relation "measure (\<lambda>(nak, ms, i). used_from ms i)") (auto dest: used_from_step)

declare nak_loop.simps [simp del]


definition eap_sm_process_nak :: "bytes \<Rightarrow> 'w eap_share \<Rightarrow> 'w eap_share" where
  "eap_sm_process_nak nak sh =
     (case user sh of
        None \<Rightarrow> sh
      | Some u \<Rightarrow> sh\<lparr>user := Some (u\<lparr>methods := nak_loop nak (methods u) (user_eap_method_index sh)\<rparr>)\<rparr>)"

section \<open>Policy\<close>

definition eap_sm_Policy_update :: "bytes option \<Rightarrow> ('p, 'w) eap_sm \<Rightarrow> ('p, 'w) eap_sm" where
  "eap_sm_Policy_update nak_list s =
     (case nak_list of
        None \<Rightarrow> s
      | Some nak \<Rightarrow>
          (case user (share s) of
             None \<Rightarrow> s
           | Some u \<Rightarrow>
               if phase2 u then s\<lparr>decision := DECISION_FAILURE\<rparr>
               else upd_share (eap_sm_process_nak nak) s))"

text \<open>The vendor and type of the next method.\<close>

definition eap_sm_Policy_getNextMethod :: "('p, 'w) eap_sm \<Rightarrow> (int \<times> u32) \<times> ('p, 'w) eap_sm" where
  "eap_sm_Policy_getNextMethod s =
     (let sh = share s; idx = user_eap_method_index sh
      in if eap_identity sh = None \<or> currentId s = -1 then
           ((EAP_VENDOR_IETF, EAP_TYPE_IDENTITY), s\<lparr>share := sh\<lparr>update_user := True\<rparr>\<rparr>)
         else case user sh of
           Some u \<Rightarrow>
             if method_set (methods u) idx then
               (method_at (methods u) idx, s\<lparr>share := sh\<lparr>user_eap_method_index := idx + 1\<rparr>\<rparr>)
             else ((EAP_VENDOR_IETF, EAP_TYPE_NONE), s)
         | None \<Rightarrow> ((EAP_VENDOR_IETF, EAP_TYPE_NONE), s))"

definition first_method_is_identity :: "eap_user \<Rightarrow> bool" where
  "first_method_is_identity u \<longleftrightarrow> method_at (methods u) 0 = (EAP_VENDOR_IETF, EAP_TYPE_IDENTITY)"

text \<open>
  The two halves of \<open>eap_sm_Policy_getDecision\<close>: what is decided from the method that ran, and the
  choice after the user is known.
\<close>

definition decide_next :: "('p, 'w) eap_env \<Rightarrow> ('p, 'w) eap_sm \<Rightarrow> eap_decision" where
  "decide_next env s =
     (let sh = share s
      in if (case user sh of None \<Rightarrow> False | Some u \<Rightarrow> method_set (methods u) (user_eap_method_index sh))
         then DECISION_CONTINUE
         else if eap_identity sh = None \<and> get_erp_send_reauth_start env \<and> \<not> initiate_reauth_start_sent s
         then DECISION_INITIATE_REAUTH_START
         else if eap_identity sh = None \<or> currentId s = -1 then DECISION_CONTINUE
         else DECISION_FAILURE)"

definition decide_user :: "('p, 'w) eap_env \<Rightarrow> ('p, 'w) eap_sm \<Rightarrow> eap_decision \<times> ('p, 'w) eap_sm" where
  "decide_user env s =
     (let sh = share s
      in case eap_identity sh of
           Some ident \<Rightarrow>
             if (user sh = None \<or> update_user sh) \<and> \<not> start_reauth s then
               let id_req = (case user sh of None \<Rightarrow> False
                             | Some u \<Rightarrow> currentMethod s = EAP_TYPE_IDENTITY \<and> first_method_is_identity u);
                   (r, sh) = eap_user_get env ident False sh;
                   s = s\<lparr>share := sh\<rparr>
               in if r \<noteq> 0 then (DECISION_FAILURE, s)
                  else if id_req \<and> (case user sh of None \<Rightarrow> False | Some u \<Rightarrow> first_method_is_identity u)
                  then (DECISION_FAILURE, s\<lparr>share := sh\<lparr>update_user := True\<rparr>\<rparr>)
                  else let s = s\<lparr>share := sh\<lparr>update_user := False\<rparr>, start_reauth := False\<rparr> in (decide_next env s, s)
             else let s = s\<lparr>start_reauth := False\<rparr> in (decide_next env s, s)
         | None \<Rightarrow> let s = s\<lparr>start_reauth := False\<rparr> in (decide_next env s, s))"

text \<open>A method without its private data has no defined result: it is handed a null pointer.\<close>

definition eap_sm_Policy_getDecision ::
  "('p, 'w) eap_env \<Rightarrow> ('p, 'w) eap_sm \<Rightarrow> (eap_decision \<times> ('p, 'w) eap_sm) option" where
  "eap_sm_Policy_getDecision env s =
     (let sh = share s; upd = (\<lambda>d. Some (d, s\<lparr>share := sh\<lparr>update_user := True\<rparr>\<rparr>))
      in if \<not> eap_server (cfg env) \<and> eap_identity sh \<noteq> None \<and> \<not> start_reauth s then Some (DECISION_PASSTHROUGH, s)
         else case eap_m s of
           None \<Rightarrow> Some (decide_user env s)
         | Some x \<Rightarrow>
             (case eap_method_priv s of
                None \<Rightarrow> None
              | Some p \<Rightarrow>
                  if currentMethod s \<noteq> EAP_TYPE_IDENTITY \<and> m_isSuccess x p sh then upd DECISION_SUCCESS
                  else if m_isDone x p sh \<and> \<not> m_isSuccess x p sh then upd DECISION_FAILURE
                  else Some (decide_user env s)))"

definition eap_sm_Policy_doPickUp :: "u32 \<Rightarrow> bool" where
  "eap_sm_Policy_doPickUp t \<longleftrightarrow> t = EAP_TYPE_IDENTITY"

section \<open>States\<close>

text \<open>\<open>SM_ENTRY\<close>: re-entering a state by a global rule is no change.\<close>

definition eap_entry :: "bool \<Rightarrow> eap_state \<Rightarrow> ('p, 'w) eap_sm \<Rightarrow> ('p, 'w) eap_sm" where
  "eap_entry global st s = s\<lparr>eap_changed := (eap_changed s \<or> \<not> global \<or> EAP_state s \<noteq> st), EAP_state := st\<rparr>"

text \<open>The method that is selected is reset and its private data dropped.\<close>

definition reset_method :: "('p, 'w) eap_sm \<Rightarrow> ('p, 'w) eap_sm" where
  "reset_method s =
     (case (eap_m s, eap_method_priv s) of
        (Some x, Some p) \<Rightarrow> s\<lparr>share := m_reset x p (share s), eap_method_priv := None\<rparr>
      | _ \<Rightarrow> s)"

definition sm_EAP_DISABLED_Enter :: "bool \<Rightarrow> ('p, 'w) eap_sm \<Rightarrow> ('p, 'w) eap_sm" where
  "sm_EAP_DISABLED_Enter global s = (eap_entry global EAP_DISABLED s)\<lparr>num_rounds := 0, num_rounds_short := 0\<rparr>"

definition sm_EAP_INITIALIZE_Enter :: "('p, 'w) eap_op" where
  "sm_EAP_INITIALIZE_Enter env global s =
     (let s = eap_entry global EAP_INITIALIZE s;
          s = (if eapRestart (eif s) \<and> \<not> eap_server (cfg env) then upd_share (\<lambda>sh. sh\<lparr>eap_identity := None\<rparr>) s else s);
          s = s\<lparr>try_initiate_reauth := False, currentId := -1\<rparr>;
          s = upd_eif (\<lambda>i. i\<lparr>eapSuccess := False, eapFail := False, eapTimeout := False, eapKeyData := None,
                eapSessionId := None, eapKeyAvailable := False, eapRestart := False\<rparr>) s;
          s = (reset_method s)\<lparr>eap_m := None\<rparr>;
          s = upd_share (\<lambda>sh. sh\<lparr>user_eap_method_index := 0\<rparr>) s;
          s = (if backend_auth (cfg env) then
                 let s = eap_sm_parseEapResp (eapRespData (eif s)) (s\<lparr>currentMethod := EAP_TYPE_NONE\<rparr>)
                 in if rxResp s then s\<lparr>currentId := respId s\<rparr> else s
               else s)
      in upd_share (\<lambda>sh. sh\<lparr>method_pending := METHOD_PENDING_NONE\<rparr>) (s\<lparr>num_rounds := 0, num_rounds_short := 0\<rparr>))"

definition sm_EAP_PICK_UP_METHOD_Enter :: "('p, 'w) eap_op" where
  "sm_EAP_PICK_UP_METHOD_Enter env global s =
     (let s = eap_entry global EAP_PICK_UP_METHOD s
      in if \<not> eap_sm_Policy_doPickUp (respMethod s) then s
         else
           let s = reset_method (s\<lparr>currentMethod := respMethod s\<rparr>);
               s = s\<lparr>eap_m := eap_server_get_eap_method env EAP_VENDOR_IETF (currentMethod s)\<rparr>
           in case Option.bind (eap_m s) m_initPickUp of
                Some pick \<Rightarrow>
                  let (p, sh) = pick (share s);
                      s = s\<lparr>share := sh, eap_method_priv := p\<rparr>
                  in if Option.is_none p then s\<lparr>eap_m := None, currentMethod := EAP_TYPE_NONE\<rparr> else s
              | None \<Rightarrow> s\<lparr>eap_m := None, currentMethod := EAP_TYPE_NONE\<rparr>)"

definition set_retrans :: "('p, 'w) eap_sm \<Rightarrow> ('p, 'w) eap_sm" where
  "set_retrans s =
     upd_eif (\<lambda>i. i\<lparr>retransWhile := eap_sm_calculateTimeout s (retransCount s) (eapSRTT i) (eapRTTVAR i) (methodTimeout s)\<rparr>) s"

definition sm_EAP_IDLE_Enter :: "bool \<Rightarrow> ('p, 'w) eap_sm \<Rightarrow> ('p, 'w) eap_sm" where
  "sm_EAP_IDLE_Enter global s = set_retrans (eap_entry global EAP_IDLE s)"

text \<open>The last request is offered again while retransmissions are left.\<close>

definition retransmit :: "('p, 'w) eap_env \<Rightarrow> ('p, 'w) eap_sm \<Rightarrow> ('p, 'w) eap_sm" where
  "retransmit env s =
     (let s = s\<lparr>retransCount := retransCount s + 1\<rparr>
      in if retransCount s \<le> MaxRetrans (share s) \<and> lastReqData s \<noteq> None then
           let (d, r, s) = eap_copy_buf env (eapReqData (eif s)) (lastReqData s) s;
               s = upd_eif (\<lambda>i. i\<lparr>eapReqData := d\<rparr>) s
           in if r = 0 then upd_eif (\<lambda>i. i\<lparr>eapReq := True\<rparr>) s else s
         else s)"

definition sm_EAP_RETRANSMIT_Enter :: "('p, 'w) eap_op" where
  "sm_EAP_RETRANSMIT_Enter env global s = retransmit env (eap_entry global EAP_RETRANSMIT s)"

definition sm_EAP_RECEIVED_Enter :: "bool \<Rightarrow> ('p, 'w) eap_sm \<Rightarrow> ('p, 'w) eap_sm" where
  "sm_EAP_RECEIVED_Enter global s =
     (let s = eap_entry global EAP_RECEIVED s;
          s = eap_sm_parseEapResp (eapRespData (eif s)) s;
          s = s\<lparr>num_rounds := num_rounds s + 1\<rparr>
      in if (case eapRespData (eif s) of None \<Rightarrow> True | Some b \<Rightarrow> length b < 20)
         then s\<lparr>num_rounds_short := num_rounds_short s + 1\<rparr>
         else s\<lparr>num_rounds_short := 0\<rparr>)"

definition sm_EAP_DISCARD_Enter :: "bool \<Rightarrow> ('p, 'w) eap_sm \<Rightarrow> ('p, 'w) eap_sm" where
  "sm_EAP_DISCARD_Enter global s =
     upd_eif (\<lambda>i. i\<lparr>eapResp := False, eapNoReq := True\<rparr>) (eap_entry global EAP_DISCARD s)"

text \<open>The request is kept for retransmission and handed to the lower layer.\<close>

definition send_request :: "('p, 'w) eap_env \<Rightarrow> ('p, 'w) eap_sm \<Rightarrow> ('p, 'w) eap_sm" where
  "send_request env s =
     (case eapReqData (eif s) of
        Some b \<Rightarrow>
          let (d, r, s) = eap_copy_buf env (lastReqData s) (Some b) s
          in upd_eif (\<lambda>i. i\<lparr>eapResp := False, eapReq := (r = 0)\<rparr>) (s\<lparr>lastReqData := d\<rparr>)
      | None \<Rightarrow> upd_eif (\<lambda>i. i\<lparr>eapResp := False, eapReq := False, eapNoReq := True\<rparr>) s)"

definition sm_EAP_SEND_REQUEST_Enter :: "('p, 'w) eap_op" where
  "sm_EAP_SEND_REQUEST_Enter env global s =
     (let s = (eap_entry global EAP_SEND_REQUEST s)\<lparr>retransCount := 0\<rparr>;
          s = (case eapReqData (eif s) of
                 Some b \<Rightarrow> if length b \<ge> 20 then s\<lparr>num_rounds_short := 0\<rparr> else s
               | None \<Rightarrow> s)
      in send_request env s)"

definition sm_EAP_INTEGRITY_CHECK_Enter ::
  "bool \<Rightarrow> ('p, 'w) eap_sm \<Rightarrow> ('p, 'w) eap_sm option" where
  "sm_EAP_INTEGRITY_CHECK_Enter global s =
     (let s = eap_entry global EAP_INTEGRITY_CHECK s
      in if \<not> eap_hdr_len_valid (eapRespData (eif s)) 1 then Some (s\<lparr>ignore := True\<rparr>)
         else case eap_m s of
           None \<Rightarrow> None
         | Some x \<Rightarrow>
             (case m_check x of
                None \<Rightarrow> Some s
              | Some check \<Rightarrow>
                  (case eap_method_priv s of
                     None \<Rightarrow> None
                   | Some p \<Rightarrow> Some (s\<lparr>ignore := check p (the (eapRespData (eif s))) (share s)\<rparr>))))"

definition sm_EAP_METHOD_REQUEST_Enter ::
  "('p, 'w) eap_env \<Rightarrow> bool \<Rightarrow> ('p, 'w) eap_sm \<Rightarrow> ('p, 'w) eap_sm option" where
  "sm_EAP_METHOD_REQUEST_Enter env global s =
     (let s = eap_entry global EAP_METHOD_REQUEST s
      in case eap_m s of
           None \<Rightarrow> Some s
         | Some x \<Rightarrow>
             let (cid, s) = eap_sm_nextId env (currentId s) s;
                 s = s\<lparr>currentId := cid, lastId := cid\<rparr>
             in case eap_method_priv s of
                  None \<Rightarrow> None
                | Some p \<Rightarrow>
                    let (d, p, sh) = m_buildReq x p (word_of_int cid) (share s);
                        s = upd_eif (\<lambda>i. i\<lparr>eapReqData := d\<rparr>) (s\<lparr>eap_method_priv := Some p, share := sh\<rparr>)
                    in Some (s\<lparr>methodTimeout := (case m_getTimeout x of None \<Rightarrow> 0 | Some t \<Rightarrow> t p (share s))\<rparr>))"


text \<open>Lower-case hexadecimal, two digits a byte, as \<open>wpa_snprintf_hex\<close> writes it.\<close>

definition hex_digit :: "nat \<Rightarrow> byte" where
  "hex_digit n = (if n < 10 then of_nat (48 + n) else of_nat (87 + n))"

definition hex_string :: "bytes \<Rightarrow> bytes" where
  "hex_string b = concat (map (\<lambda>x. [hex_digit (unat x div 16), hex_digit (unat x mod 16)]) b)"

definition EAP_EMSK_NAME_LEN :: nat where "EAP_EMSK_NAME_LEN = 8"
definition ERP_MAX_KEY_LEN :: nat where "ERP_MAX_KEY_LEN = 64"

text \<open>
  The key record derived from the extended master session key; \<open>None\<close> when a derivation fails. The
  name of the key ends at its first NUL byte.
\<close>

definition derive_erp_key ::
  "('p, 'w) eap_env \<Rightarrow> bytes \<Rightarrow> bytes \<Rightarrow> bytes \<Rightarrow> eap_server_erp_key option" where
  "derive_erp_key env realm session emsk =
     (case hmac_sha256_kdf env session ''EMSK'' (put_be16 EAP_EMSK_NAME_LEN) EAP_EMSK_NAME_LEN of
        None \<Rightarrow> None
      | Some nm \<Rightarrow>
          (case hmac_sha256_kdf env emsk ''EAP Re-authentication Root Key@ietf.org'' (put_be16 (length emsk)) (length emsk) of
             None \<Rightarrow> None
           | Some rrk \<Rightarrow>
               (case hmac_sha256_kdf env rrk ''Re-authentication Integrity Key@ietf.org''
                       ([EAP_ERP_CS_HMAC_SHA256_128] @ put_be16 (length emsk)) (length emsk) of
                  None \<Rightarrow> None
                | Some rik \<Rightarrow>
                    Some \<lparr>rRK = rrk, rIK = rik, recv_seq = -1, cryptosuite = 0,
                      keyname_nai = hex_string nm @ [64] @ realm\<rparr>)))"

definition eap_server_erp_init ::
  "('p, 'w) eap_env \<Rightarrow> ('p \<Rightarrow> 'w eap_share \<Rightarrow> bytes option \<times> 'w eap_share) \<Rightarrow> 'p \<Rightarrow> ('p, 'w) eap_sm \<Rightarrow> ('p, 'w) eap_sm" where
  "eap_server_erp_init env get_emsk p s =
     (case get_erp_domain env of
        None \<Rightarrow> s
      | Some realm \<Rightarrow>
          if 2 * EAP_EMSK_NAME_LEN + 1 + length realm > 253 then s
          else
            let (ok, s) = alloc env s
            in if \<not> ok then s
               else
                 let (emsk, sh) = get_emsk p (share s);
                     s = s\<lparr>share := sh\<rparr>
                 in case emsk of
                      None \<Rightarrow> s
                    | Some k \<Rightarrow>
                        if length k = 0 \<or> length k > ERP_MAX_KEY_LEN then s
                        else case derive_erp_key env realm (the (eapSessionId (eif s))) k of
                               None \<Rightarrow> s
                             | Some e \<Rightarrow> erp_add_key e s)"

text \<open>What a finished method leaves behind: key, session identifier, and the key for re-authentication.\<close>

definition method_finished ::
  "('p, 'w) eap_env \<Rightarrow> ('p, 'w) eap_method \<Rightarrow> 'p \<Rightarrow> ('p, 'w) eap_sm \<Rightarrow> ('p, 'w) eap_sm" where
  "method_finished env x p s =
     (let s = eap_sm_Policy_update None s;
          (k, sh) = (case m_getKey x of None \<Rightarrow> (None, share s) | Some get \<Rightarrow> get p (share s));
          s = upd_eif (\<lambda>i. i\<lparr>eapKeyData := k\<rparr>) (s\<lparr>share := sh\<rparr>);
          (sid, sh) = (case m_getSessionId x of None \<Rightarrow> (None, share s) | Some get \<Rightarrow> get p (share s));
          s = upd_eif (\<lambda>i. i\<lparr>eapSessionId := sid\<rparr>) (s\<lparr>share := sh\<rparr>);
          s = (case m_get_emsk x of
                 None \<Rightarrow> s
               | Some get \<Rightarrow>
                   if erp (cfg env) \<and> eapSessionId (eif s) \<noteq> None then eap_server_erp_init env get p s else s)
      in s\<lparr>methodState := METHOD_END\<rparr>)"

definition sm_EAP_METHOD_RESPONSE_Enter ::
  "('p, 'w) eap_env \<Rightarrow> bool \<Rightarrow> ('p, 'w) eap_sm \<Rightarrow> ('p, 'w) eap_sm option" where
  "sm_EAP_METHOD_RESPONSE_Enter env global s =
     (let s = eap_entry global EAP_METHOD_RESPONSE s
      in if \<not> eap_hdr_len_valid (eapRespData (eif s)) 1 then Some s
         else case (eap_m s, eap_method_priv s) of
           (Some x, Some p) \<Rightarrow>
             (case m_process x p (the (eapRespData (eif s))) (share s) of
                None \<Rightarrow> None
              | Some (p, sh) \<Rightarrow>
                  let s = s\<lparr>eap_method_priv := Some p, share := sh\<rparr>
                  in Some (if m_isDone x p (share s) then method_finished env x p s
                           else s\<lparr>methodState := METHOD_CONTINUE\<rparr>))
         | _ \<Rightarrow> None)"

text \<open>
  The loop behind \<open>try_another_method\<close>: methods are taken until one can be initialized or none is
  left. Nothing bounds it when the initialization of the same method keeps failing.
\<close>

partial_function (option) propose_loop ::
  "('p, 'w) eap_env \<Rightarrow> ('p, 'w) eap_sm \<Rightarrow> ('p, 'w) eap_sm option" where
  "propose_loop env s =
     (let ((v, t), s) = eap_sm_Policy_getNextMethod s;
          s = s\<lparr>currentMethod := (if v = EAP_VENDOR_IETF then t else EAP_TYPE_EXPANDED)\<rparr>;
          s = (reset_method s)\<lparr>eap_m := eap_server_get_eap_method env v t\<rparr>
      in case eap_m s of
           None \<Rightarrow> Some s
         | Some x \<Rightarrow>
             let (p, sh) = m_init x (share s);
                 s = s\<lparr>share := sh, eap_method_priv := p\<rparr>
             in case p of
                  None \<Rightarrow> propose_loop env (s\<lparr>eap_m := None, currentMethod := EAP_TYPE_NONE\<rparr>)
                | Some _ \<Rightarrow> Some s)"

declare propose_loop.simps [code]

definition sm_EAP_PROPOSE_METHOD_Enter ::
  "('p, 'w) eap_env \<Rightarrow> bool \<Rightarrow> ('p, 'w) eap_sm \<Rightarrow> ('p, 'w) eap_sm option" where
  "sm_EAP_PROPOSE_METHOD_Enter env global s =
     (case propose_loop env ((eap_entry global EAP_PROPOSE_METHOD s)\<lparr>try_initiate_reauth := False\<rparr>) of
        None \<Rightarrow> None
      | Some s \<Rightarrow>
          Some (if Option.is_none (eap_m s) then s\<lparr>decision := DECISION_FAILURE\<rparr>
                else if currentMethod s = EAP_TYPE_IDENTITY \<or> currentMethod s = EAP_TYPE_NOTIFICATION
                then s\<lparr>methodState := METHOD_CONTINUE\<rparr>
                else s\<lparr>methodState := METHOD_PROPOSED\<rparr>))"

text \<open>The list of wanted methods in a legacy Nak.\<close>

definition nak_list_of :: "bytes \<Rightarrow> bytes option" where
  "nak_list_of b =
     (if length b > 4 then
        let len = min (get_be16 b 2) (length b) - 4
        in if ucast (b ! 4) = EAP_TYPE_NAK then Some (take (len - 1) (drop 5 b)) else None
      else None)"

definition sm_EAP_NAK_Enter :: "bool \<Rightarrow> ('p, 'w) eap_sm \<Rightarrow> ('p, 'w) eap_sm option" where
  "sm_EAP_NAK_Enter global s =
     (let s = eap_entry global EAP_NAK s
      in if \<not> Option.is_none (eap_method_priv s) \<and> Option.is_none (eap_m s) then None
         else
           let s = (reset_method s)\<lparr>eap_m := None\<rparr>
           in if \<not> eap_hdr_len_valid (eapRespData (eif s)) 1 then Some s
              else Some (eap_sm_Policy_update (nak_list_of (the (eapRespData (eif s)))) s))"

definition sm_EAP_SELECT_ACTION_Enter ::
  "('p, 'w) eap_env \<Rightarrow> bool \<Rightarrow> ('p, 'w) eap_sm \<Rightarrow> ('p, 'w) eap_sm option" where
  "sm_EAP_SELECT_ACTION_Enter env global s =
     (case eap_sm_Policy_getDecision env (eap_entry global EAP_SELECT_ACTION s) of
        None \<Rightarrow> None
      | Some (d, s) \<Rightarrow> Some (s\<lparr>decision := d\<rparr>))"

definition sm_EAP_TIMEOUT_FAILURE_Enter :: "bool \<Rightarrow> ('p, 'w) eap_sm \<Rightarrow> ('p, 'w) eap_sm" where
  "sm_EAP_TIMEOUT_FAILURE_Enter global s =
     upd_eif (\<lambda>i. i\<lparr>eapTimeout := True\<rparr>) (eap_entry global EAP_TIMEOUT_FAILURE s)"

definition sm_EAP_FAILURE_Enter :: "('p, 'w) eap_op" where
  "sm_EAP_FAILURE_Enter env global s =
     (let s = eap_entry global EAP_FAILURE s;
          (d, s) = eap_sm_buildFailure env (word_of_int (currentId s)) s
      in upd_eif (\<lambda>i. i\<lparr>eapReqData := d, eapFail := True\<rparr>) (s\<lparr>lastReqData := None\<rparr>))"

definition sm_EAP_SUCCESS_Enter :: "('p, 'w) eap_op" where
  "sm_EAP_SUCCESS_Enter env global s =
     (let s = eap_entry global EAP_SUCCESS s;
          (d, s) = eap_sm_buildSuccess env (word_of_int (currentId s)) s
      in upd_eif (\<lambda>i. i\<lparr>eapReqData := d, eapKeyAvailable := (eapKeyAvailable i \<or> eapKeyData i \<noteq> None),
           eapSuccess := True\<rparr>) (s\<lparr>lastReqData := None\<rparr>))"

definition sm_EAP_INITIATE_REAUTH_START_Enter :: "('p, 'w) eap_op" where
  "sm_EAP_INITIATE_REAUTH_START_Enter env global s =
     (let s = (eap_entry global EAP_INITIATE_REAUTH_START s)\<lparr>initiate_reauth_start_sent := True, try_initiate_reauth := True\<rparr>;
          (cid, s) = eap_sm_nextId env (currentId s) s;
          s = s\<lparr>currentId := cid, lastId := cid\<rparr>;
          (d, s) = eap_sm_buildInitiateReauthStart env (word_of_int cid) s
      in upd_eif (\<lambda>i. i\<lparr>eapReqData := d\<rparr>) (s\<lparr>lastReqData := None\<rparr>))"


section \<open>Re-authentication\<close>

text \<open>The message of an EAP-Finish/Re-auth; \<open>None\<close> when no message is made.\<close>

definition build_finish_reauth ::
  "('p, 'w) eap_env \<Rightarrow> bool \<Rightarrow> eap_server_erp_key option \<Rightarrow> byte \<Rightarrow> byte \<Rightarrow> nat \<Rightarrow> bytes \<Rightarrow> nat \<Rightarrow> bytes option" where
  "build_finish_reauth env room k ident flags seq nai hash_len =
     (let plen = 1 + 2 + 2 + length nai + (if hash_len \<noteq> 0 then 1 + hash_len else 0)
      in case eap_msg_alloc room EAP_VENDOR_IETF EAP_ERP_TYPE_REAUTH plen EAP_CODE_FINISH ident of
           None \<Rightarrow> None
         | Some msg \<Rightarrow>
             let msg = msg @ [flags] @ put_be16 seq @ [EAP_ERP_TLV_KEYNAME_NAI, of_nat (length nai)] @ nai
             in case k of
                  None \<Rightarrow> Some msg
                | Some e \<Rightarrow>
                    let msg = msg @ [cryptosuite e]
                    in case hmac_sha256 env (rIK e) msg of
                         None \<Rightarrow> None
                       | Some h \<Rightarrow> Some (msg @ take hash_len h))"

definition erp_send_finish_reauth ::
  "('p, 'w) eap_env \<Rightarrow> eap_server_erp_key option \<Rightarrow> byte \<Rightarrow> byte \<Rightarrow> nat \<Rightarrow> bytes \<Rightarrow> ('p, 'w) eap_sm \<Rightarrow> ('p, 'w) eap_sm" where
  "erp_send_finish_reauth env k ident flags seq nai s =
     (let hash_len = (case k of
            None \<Rightarrow> Some 0
          | Some e \<Rightarrow> if cryptosuite e = EAP_ERP_CS_HMAC_SHA256_256 then Some 32
                      else if cryptosuite e = EAP_ERP_CS_HMAC_SHA256_128 then Some 16 else None)
      in case hash_len of
           None \<Rightarrow> s
         | Some hlen \<Rightarrow>
             let (ok, s) = alloc env s
             in case build_finish_reauth env ok k ident flags seq nai hlen of
                  None \<Rightarrow> s
                | Some msg \<Rightarrow>
                    let s = s\<lparr>lastId := currentId s, currentId := uint ident, lastReqData := None\<rparr>;
                        s = upd_eif (\<lambda>i. i\<lparr>eapReqData := Some msg\<rparr>) s
                    in case k of
                         None \<Rightarrow> upd_eif (\<lambda>i. i\<lparr>eapFail := True\<rparr>) s
                       | Some e \<Rightarrow>
                           if flags AND 0x80 \<noteq> 0 then upd_eif (\<lambda>i. i\<lparr>eapFail := True\<rparr>) s
                           else
                             let (ok, s) = alloc env s
                             in if \<not> ok then upd_eif (\<lambda>i. i\<lparr>eapKeyData := None\<rparr>) s
                                else case hmac_sha256_kdf env (rRK e) ''Re-authentication Master Session Key@ietf.org''
                                            (put_be16 seq @ put_be16 (length (rRK e))) (length (rRK e)) of
                                       None \<Rightarrow> upd_eif (\<lambda>i. i\<lparr>eapKeyData := None\<rparr>) s
                                     | Some msk \<Rightarrow>
                                         upd_eif (\<lambda>i. i\<lparr>eapKeyData := Some msk, eapKeyAvailable := True, eapSuccess := True\<rparr>) s)"

text \<open>
  The check of the authentication tag at the end of the message, whose last byte is before \<open>e\<close>. Of
  the \<open>max_len\<close> bytes before \<open>e\<close> at least 17, and 33 where a tag of 32 bytes is looked at, belong to
  the message. The result is the length of the tag and the cryptosuite from now on, or \<open>None\<close> for a
  message that is ignored.
\<close>

definition erp_tag_matches :: "('p, 'w) eap_env \<Rightarrow> eap_server_erp_key \<Rightarrow> bytes \<Rightarrow> nat \<Rightarrow> nat \<Rightarrow> bool option" where
  "erp_tag_matches env k b e n =
     (case hmac_sha256 env (rIK k) (take (e - n) b) of
        None \<Rightarrow> None
      | Some h \<Rightarrow> Some (take n (drop (e - n) b) = take n h))"

definition erp_check_tag ::
  "('p, 'w) eap_env \<Rightarrow> eap_server_erp_key \<Rightarrow> bytes \<Rightarrow> nat \<Rightarrow> nat \<Rightarrow> (nat \<times> byte) option" where
  "erp_check_tag env k b e max_len =
     (let known = (\<lambda>n. if b ! (e - (n + 1)) \<noteq> cryptosuite k then None
                       else if erp_tag_matches env k b e n = Some True then Some (n, cryptosuite k) else None);
          try_128 = (if b ! (e - 17) = EAP_ERP_CS_HMAC_SHA256_128 \<and> erp_tag_matches env k b e 16 = Some True
                     then Some (16, EAP_ERP_CS_HMAC_SHA256_128) else None)
      in if cryptosuite k = EAP_ERP_CS_HMAC_SHA256_256 then known 32
         else if cryptosuite k = EAP_ERP_CS_HMAC_SHA256_128 then known 16
         else if max_len \<ge> 1 + 32 \<and> b ! (e - 33) = EAP_ERP_CS_HMAC_SHA256_256 then
           (case erp_tag_matches env k b e 32 of
              None \<Rightarrow> None
            | Some True \<Rightarrow> Some (32, EAP_ERP_CS_HMAC_SHA256_256)
            | Some False \<Rightarrow> try_128)
         else try_128)"

text \<open>
  The message is accepted: it names a key, is newer than what the key has seen, carries a valid tag
  and well-formed attributes. The outcome distinguishes the exits of the state function: ignored,
  forwarded with an identity, no such key, ignored after the tag has settled the cryptosuite of the
  key, and accepted; in the last two with the index of the key and its new value.
\<close>

datatype erp_outcome = ErpIgnored | ErpForward bytes | ErpNoKey nat bytes
  | ErpBadAttributes nat eap_server_erp_key | ErpAccepted nat eap_server_erp_key nat bytes

definition erp_authenticate ::
  "('p, 'w) eap_env \<Rightarrow> ('p, 'w) eap_sm \<Rightarrow> bytes \<Rightarrow> nat \<Rightarrow> nat \<Rightarrow> nat \<Rightarrow> bytes \<Rightarrow> nat \<Rightarrow> erp_outcome option" where
  "erp_authenticate env s b tlvs e start nai seq =
     (case erp_get_key nai s of
        None \<Rightarrow> Some (ErpNoKey seq nai)
      | Some i \<Rightarrow>
          let k = erp_keys s ! i; max_len = e - start
          in if recv_seq k \<noteq> -1 \<and> recv_seq k \<ge> of_nat seq then Some ErpIgnored
             else if max_len < 1 + (if cryptosuite k = EAP_ERP_CS_HMAC_SHA256_256 then 32 else 16) then Some ErpIgnored
             else case erp_check_tag env k b e max_len of
                    None \<Rightarrow> Some ErpIgnored
                  | Some (hash_len, cs) \<Rightarrow>
                      (case erp_parse_tlvs b tlvs (e - (1 + hash_len)) False of
                         None \<Rightarrow> None
                       | Some (r, _) \<Rightarrow>
                           if r < 0 then Some (ErpBadAttributes i (k\<lparr>cryptosuite := cs\<rparr>))
                           else Some (ErpAccepted i (k\<lparr>cryptosuite := cs, recv_seq := of_nat seq\<rparr>) seq nai)))"

definition erp_receive :: "('p, 'w) eap_env \<Rightarrow> ('p, 'w) eap_sm \<Rightarrow> erp_outcome option" where
  "erp_receive env s =
     (case eap_hdr_validate EAP_VENDOR_IETF EAP_ERP_TYPE_REAUTH (eapRespData (eif s)) of
        None \<Rightarrow> Some ErpIgnored
      | Some (pos, len) \<Rightarrow>
          let b = the (eapRespData (eif s))
          in if len < 4 then Some ErpIgnored
             else
               let e = pos + len; seq = get_be16 b (pos + 1); tlvs = pos + 3
               in case erp_parse_tlvs b tlvs e True of
                    None \<Rightarrow> None
                  | Some (r, parse) \<Rightarrow>
                      if r < 0 then Some ErpIgnored
                      else case keyname parse of
                             None \<Rightarrow> Some ErpIgnored
                           | Some (i, n) \<Rightarrow>
                               let name = take n (drop i b)
                               in if n > 253 then Some ErpIgnored
                                  else if \<not> eap_server (cfg env) then Some (ErpForward name)
                                  else erp_authenticate env s b tlvs e (i + n) (takeWhile (\<lambda>c. c \<noteq> 0) name) seq)"

definition sm_EAP_INITIATE_RECEIVED_Enter ::
  "('p, 'w) eap_env \<Rightarrow> bool \<Rightarrow> ('p, 'w) eap_sm \<Rightarrow> ('p, 'w) eap_sm option" where
  "sm_EAP_INITIATE_RECEIVED_Enter env global s =
     (let s = (eap_entry global EAP_INITIATE_RECEIVED s)\<lparr>rxInitiate := False\<rparr>
      in case erp_receive env s of
           None \<Rightarrow> None
         | Some ErpIgnored \<Rightarrow> Some (s\<lparr>ignore := True\<rparr>)
         | Some (ErpForward name) \<Rightarrow>
             let (ok, s) = alloc env s
             in Some (if ok then upd_share (\<lambda>sh. sh\<lparr>eap_identity := Some name\<rparr>) s
                      else (upd_share (\<lambda>sh. sh\<lparr>eap_identity := None\<rparr>) s)\<lparr>ignore := True\<rparr>)
         | Some (ErpNoKey seq nai) \<Rightarrow>
             Some (erp_send_finish_reauth env None (the (eapRespData (eif s)) ! 1) 0x80 seq nai s)
         | Some (ErpBadAttributes i k) \<Rightarrow> Some (s\<lparr>ignore := True, erp_keys := (erp_keys s)[i := k]\<rparr>)
         | Some (ErpAccepted i k seq nai) \<Rightarrow>
             Some (erp_send_finish_reauth env (Some k) (the (eapRespData (eif s)) ! 1) 0 seq nai
                     (s\<lparr>erp_keys := (erp_keys s)[i := k]\<rparr>)))"

section \<open>Pass-through\<close>

definition sm_EAP_INITIALIZE_PASSTHROUGH_Enter :: "bool \<Rightarrow> ('p, 'w) eap_sm \<Rightarrow> ('p, 'w) eap_sm" where
  "sm_EAP_INITIALIZE_PASSTHROUGH_Enter global s =
     upd_eif (\<lambda>i. i\<lparr>aaaEapRespData := None\<rparr>) ((eap_entry global EAP_INITIALIZE_PASSTHROUGH s)\<lparr>try_initiate_reauth := False\<rparr>)"

definition sm_EAP_IDLE2_Enter :: "bool \<Rightarrow> ('p, 'w) eap_sm \<Rightarrow> ('p, 'w) eap_sm" where
  "sm_EAP_IDLE2_Enter global s = set_retrans (eap_entry global EAP_IDLE2 s)"

definition sm_EAP_RETRANSMIT2_Enter :: "('p, 'w) eap_op" where
  "sm_EAP_RETRANSMIT2_Enter env global s = retransmit env (eap_entry global EAP_RETRANSMIT2 s)"

definition sm_EAP_RECEIVED2_Enter :: "bool \<Rightarrow> ('p, 'w) eap_sm \<Rightarrow> ('p, 'w) eap_sm" where
  "sm_EAP_RECEIVED2_Enter global s =
     (let s = eap_entry global EAP_RECEIVED2 s in eap_sm_parseEapResp (eapRespData (eif s)) s)"

definition sm_EAP_DISCARD2_Enter :: "bool \<Rightarrow> ('p, 'w) eap_sm \<Rightarrow> ('p, 'w) eap_sm" where
  "sm_EAP_DISCARD2_Enter global s =
     upd_eif (\<lambda>i. i\<lparr>eapResp := False, eapNoReq := True\<rparr>) (eap_entry global EAP_DISCARD2 s)"

definition sm_EAP_SEND_REQUEST2_Enter :: "('p, 'w) eap_op" where
  "sm_EAP_SEND_REQUEST2_Enter env global s = send_request env ((eap_entry global EAP_SEND_REQUEST2 s)\<lparr>retransCount := 0\<rparr>)"

definition sm_EAP_AAA_REQUEST_Enter :: "('p, 'w) eap_op" where
  "sm_EAP_AAA_REQUEST_Enter env global s =
     (let s = eap_entry global EAP_AAA_REQUEST s
      in case eapRespData (eif s) of
           None \<Rightarrow> s
         | Some b \<Rightarrow>
             let (d, r, s) = eap_copy_buf env (aaaEapRespData (eif s)) (Some b) s
             in upd_eif (\<lambda>i. i\<lparr>aaaEapRespData := d\<rparr>) s)"

text \<open>The request of the AAA server becomes the request to the peer.\<close>

definition take_aaa_req :: "('p, 'w) eap_env \<Rightarrow> ('p, 'w) eap_sm \<Rightarrow> ('p, 'w) eap_sm" where
  "take_aaa_req env s =
     (let (d, r, s) = eap_copy_buf env (eapReqData (eif s)) (aaaEapReqData (eif s)) s
      in upd_eif (\<lambda>i. i\<lparr>eapReqData := d\<rparr>) s)"

definition sm_EAP_AAA_RESPONSE_Enter :: "('p, 'w) eap_op" where
  "sm_EAP_AAA_RESPONSE_Enter env global s =
     (let s = take_aaa_req env (eap_entry global EAP_AAA_RESPONSE s)
      in s\<lparr>currentId := eap_sm_getId (eapReqData (eif s)), methodTimeout := aaaMethodTimeout (eif s)\<rparr>)"

definition sm_EAP_AAA_IDLE_Enter :: "bool \<Rightarrow> ('p, 'w) eap_sm \<Rightarrow> ('p, 'w) eap_sm" where
  "sm_EAP_AAA_IDLE_Enter global s =
     upd_eif (\<lambda>i. i\<lparr>aaaFail := False, aaaSuccess := False, aaaEapReq := False, aaaEapNoReq := False,
       aaaEapResp := True\<rparr>) (eap_entry global EAP_AAA_IDLE s)"

definition sm_EAP_TIMEOUT_FAILURE2_Enter :: "bool \<Rightarrow> ('p, 'w) eap_sm \<Rightarrow> ('p, 'w) eap_sm" where
  "sm_EAP_TIMEOUT_FAILURE2_Enter global s =
     upd_eif (\<lambda>i. i\<lparr>eapTimeout := True\<rparr>) (eap_entry global EAP_TIMEOUT_FAILURE2 s)"

definition sm_EAP_FAILURE2_Enter :: "('p, 'w) eap_op" where
  "sm_EAP_FAILURE2_Enter env global s =
     upd_eif (\<lambda>i. i\<lparr>eapFail := True\<rparr>) (take_aaa_req env (eap_entry global EAP_FAILURE2 s))"

definition sm_EAP_SUCCESS2_Enter :: "('p, 'w) eap_op" where
  "sm_EAP_SUCCESS2_Enter env global s =
     (let s = take_aaa_req env (eap_entry global EAP_SUCCESS2 s);
          s = upd_eif (\<lambda>i. i\<lparr>eapKeyAvailable := aaaEapKeyAvailable i\<rparr>) s;
          s = (if aaaEapKeyAvailable (eif s) then
                 let (d, r, s) = eap_copy_data env (eapKeyData (eif s)) (aaaEapKeyData (eif s)) s
                 in upd_eif (\<lambda>i. i\<lparr>eapKeyData := d\<rparr>) s
               else upd_eif (\<lambda>i. i\<lparr>eapKeyData := None\<rparr>) s)
      in upd_eif (\<lambda>i. i\<lparr>eapSuccess := True\<rparr>) (s\<lparr>start_reauth := True\<rparr>))"


section \<open>The machine\<close>

text \<open>A Nak, legacy or expanded.\<close>

definition resp_is_nak :: "('p, 'w) eap_sm \<Rightarrow> bool" where
  "resp_is_nak s \<longleftrightarrow> respMethod s = EAP_TYPE_NAK \<or>
     (respMethod s = EAP_TYPE_EXPANDED \<and> respVendor s = EAP_VENDOR_IETF \<and> respVendorMethod s = EAP_TYPE_NAK)"

definition resp_is_current :: "('p, 'w) eap_sm \<Rightarrow> bool" where
  "resp_is_current s \<longleftrightarrow> respMethod s = currentMethod s \<or>
     (respMethod s = EAP_TYPE_EXPANDED \<and> respVendor s = EAP_VENDOR_IETF \<and> respVendorMethod s = currentMethod s)"

text \<open>The request state, which goes on to the failure state when the method made no request.\<close>

definition leave_METHOD_REQUEST :: "('p, 'w) eap_env \<Rightarrow> ('p, 'w) eap_sm \<Rightarrow> ('p, 'w) eap_sm" where
  "leave_METHOD_REQUEST env s =
     (if Option.is_none (eap_m s) then sm_EAP_FAILURE_Enter env False s
      else
        let s = sm_EAP_SEND_REQUEST_Enter env False s
        in if eapNoReq (eif s) \<and> \<not> eapReq (eif s) then sm_EAP_FAILURE_Enter env False s else s)"

text \<open>The switch over the states.\<close>

definition sm_EAP_switch :: "('p, 'w) eap_env \<Rightarrow> ('p, 'w) eap_sm \<Rightarrow> ('p, 'w) eap_sm option" where
  "sm_EAP_switch env s =
     (case EAP_state s of
        EAP_INITIALIZE \<Rightarrow>
          if backend_auth (cfg env) \<and> rxResp s then
            if resp_is_nak s then sm_EAP_NAK_Enter False s
            else Some (sm_EAP_PICK_UP_METHOD_Enter env False s)
          else sm_EAP_SELECT_ACTION_Enter env False s
      | EAP_PICK_UP_METHOD \<Rightarrow>
          if currentMethod s = EAP_TYPE_NONE then sm_EAP_SELECT_ACTION_Enter env False s
          else sm_EAP_METHOD_RESPONSE_Enter env False s
      | EAP_DISABLED \<Rightarrow> if portEnabled (eif s) then Some (sm_EAP_INITIALIZE_Enter env False s) else Some s
      | EAP_IDLE \<Rightarrow>
          if retransWhile (eif s) = 0 then
            if try_initiate_reauth s then sm_EAP_SELECT_ACTION_Enter env False (s\<lparr>try_initiate_reauth := False\<rparr>)
            else Some (sm_EAP_RETRANSMIT_Enter env False s)
          else if eapResp (eif s) then Some (sm_EAP_RECEIVED_Enter False s)
          else Some s
      | EAP_RETRANSMIT \<Rightarrow>
          Some (if retransCount s > MaxRetrans (share s) then sm_EAP_TIMEOUT_FAILURE_Enter False s
                else sm_EAP_IDLE_Enter False s)
      | EAP_RECEIVED \<Rightarrow>
          if rxResp s \<and> respId s = currentId s \<and> resp_is_nak s \<and> methodState s = METHOD_PROPOSED
          then sm_EAP_NAK_Enter False s
          else if rxResp s \<and> respId s = currentId s \<and> resp_is_current s
          then sm_EAP_INTEGRITY_CHECK_Enter False s
          else if rxInitiate s then sm_EAP_INITIATE_RECEIVED_Enter env False s
          else Some (sm_EAP_DISCARD_Enter False s)
      | EAP_DISCARD \<Rightarrow> Some (sm_EAP_IDLE_Enter False s)
      | EAP_SEND_REQUEST \<Rightarrow> Some (sm_EAP_IDLE_Enter False s)
      | EAP_INTEGRITY_CHECK \<Rightarrow>
          if ignore s then Some (sm_EAP_DISCARD_Enter False s) else sm_EAP_METHOD_RESPONSE_Enter env False s
      | EAP_METHOD_REQUEST \<Rightarrow> Some (leave_METHOD_REQUEST env s)
      | EAP_METHOD_RESPONSE \<Rightarrow>
          if methodState s = METHOD_END then sm_EAP_SELECT_ACTION_Enter env False s
          else (case method_pending (share s) of
                  METHOD_PENDING_WAIT \<Rightarrow> Some s
                | METHOD_PENDING_CONT \<Rightarrow>
                    sm_EAP_METHOD_RESPONSE_Enter env False
                      (upd_share (\<lambda>sh. sh\<lparr>method_pending := METHOD_PENDING_NONE\<rparr>) s)
                | METHOD_PENDING_NONE \<Rightarrow> sm_EAP_METHOD_REQUEST_Enter env False s)
      | EAP_PROPOSE_METHOD \<Rightarrow>
          (case method_pending (share s) of
             METHOD_PENDING_WAIT \<Rightarrow>
               Some (upd_share (\<lambda>sh. sh\<lparr>user_eap_method_index := user_eap_method_index sh - 1\<rparr>) s)
           | METHOD_PENDING_CONT \<Rightarrow>
               sm_EAP_PROPOSE_METHOD_Enter env False
                 (upd_share (\<lambda>sh. sh\<lparr>method_pending := METHOD_PENDING_NONE\<rparr>) s)
           | METHOD_PENDING_NONE \<Rightarrow> sm_EAP_METHOD_REQUEST_Enter env False s)
      | EAP_NAK \<Rightarrow> sm_EAP_SELECT_ACTION_Enter env False s
      | EAP_SELECT_ACTION \<Rightarrow>
          (case decision s of
             DECISION_FAILURE \<Rightarrow> Some (sm_EAP_FAILURE_Enter env False s)
           | DECISION_SUCCESS \<Rightarrow> Some (sm_EAP_SUCCESS_Enter env False s)
           | DECISION_PASSTHROUGH \<Rightarrow> Some (sm_EAP_INITIALIZE_PASSTHROUGH_Enter False s)
           | DECISION_INITIATE_REAUTH_START \<Rightarrow> Some (sm_EAP_INITIATE_REAUTH_START_Enter env False s)
           | DECISION_CONTINUE \<Rightarrow>
               if eap_server (cfg env) \<and> erp (cfg env) \<and> rxInitiate s
               then sm_EAP_INITIATE_RECEIVED_Enter env False s
               else sm_EAP_PROPOSE_METHOD_Enter env False s)
      | EAP_INITIATE_REAUTH_START \<Rightarrow> Some (sm_EAP_SEND_REQUEST_Enter env False s)
      | EAP_INITIATE_RECEIVED \<Rightarrow> if eap_server (cfg env) then Some s else sm_EAP_SELECT_ACTION_Enter env False s
      | EAP_TIMEOUT_FAILURE \<Rightarrow> Some s
      | EAP_FAILURE \<Rightarrow> Some s
      | EAP_SUCCESS \<Rightarrow> Some s
      | EAP_INITIALIZE_PASSTHROUGH \<Rightarrow>
          Some (if currentId s = -1 then sm_EAP_AAA_IDLE_Enter False s else sm_EAP_AAA_REQUEST_Enter env False s)
      | EAP_IDLE2 \<Rightarrow>
          Some (if eapResp (eif s) then sm_EAP_RECEIVED2_Enter False s
                else if retransWhile (eif s) = 0 then sm_EAP_RETRANSMIT2_Enter env False s
                else s)
      | EAP_RETRANSMIT2 \<Rightarrow>
          Some (if retransCount s > MaxRetrans (share s) then sm_EAP_TIMEOUT_FAILURE2_Enter False s
                else sm_EAP_IDLE2_Enter False s)
      | EAP_RECEIVED2 \<Rightarrow>
          Some (if rxResp s \<and> respId s = currentId s then sm_EAP_AAA_REQUEST_Enter env False s
                else sm_EAP_DISCARD2_Enter False s)
      | EAP_DISCARD2 \<Rightarrow> Some (sm_EAP_IDLE2_Enter False s)
      | EAP_SEND_REQUEST2 \<Rightarrow> Some (sm_EAP_IDLE2_Enter False s)
      | EAP_AAA_REQUEST \<Rightarrow> Some (sm_EAP_AAA_IDLE_Enter False s)
      | EAP_AAA_RESPONSE \<Rightarrow> Some (sm_EAP_SEND_REQUEST2_Enter env False s)
      | EAP_AAA_IDLE \<Rightarrow>
          Some (if aaaFail (eif s) then sm_EAP_FAILURE2_Enter env False s
                else if aaaSuccess (eif s) then sm_EAP_SUCCESS2_Enter env False s
                else if aaaEapReq (eif s) then sm_EAP_AAA_RESPONSE_Enter env False s
                else if aaaTimeout (eif s) then sm_EAP_TIMEOUT_FAILURE2_Enter False s
                else s)
      | EAP_TIMEOUT_FAILURE2 \<Rightarrow> Some s
      | EAP_FAILURE2 \<Rightarrow> Some s
      | EAP_SUCCESS2 \<Rightarrow> Some s)"

text \<open>The global rules come before the switch; exceeding the rounds leads to failure once.\<close>

definition sm_EAP_Step :: "('p, 'w) eap_env \<Rightarrow> ('p, 'w) eap_sm \<Rightarrow> ('p, 'w) eap_sm option" where
  "sm_EAP_Step env s =
     (if eapRestart (eif s) \<and> portEnabled (eif s) then Some (sm_EAP_INITIALIZE_Enter env True s)
      else if \<not> portEnabled (eif s) then Some (sm_EAP_DISABLED_Enter True s)
      else if num_rounds s > max_auth_rounds (cfg env) then
        Some (if num_rounds s = max_auth_rounds (cfg env) + 1
              then sm_EAP_FAILURE_Enter env True (s\<lparr>num_rounds := num_rounds s + 1\<rparr>) else s)
      else if num_rounds_short s > max_auth_rounds_short (cfg env) then
        Some (if num_rounds_short s = max_auth_rounds_short (cfg env) + 1
              then sm_EAP_FAILURE_Enter env True (s\<lparr>num_rounds_short := num_rounds_short s + 1\<rparr>) else s)
      else sm_EAP_switch env s)"

text \<open>The machine is stepped until a step changes nothing; the result says whether one did.\<close>

partial_function (option) eap_step_loop ::
  "('p, 'w) eap_env \<Rightarrow> bool \<Rightarrow> ('p, 'w) eap_sm \<Rightarrow> (('p, 'w) eap_sm \<times> bool) option" where
  "eap_step_loop env res s =
     (case sm_EAP_Step env (s\<lparr>eap_changed := False\<rparr>) of
        None \<Rightarrow> None
      | Some s \<Rightarrow> if eap_changed s then eap_step_loop env True s else Some (s, res))"

declare eap_step_loop.simps [code]

definition eap_sm_run :: "('p, 'w) eap_env \<Rightarrow> ('p, 'w) eap_sm \<Rightarrow> (('p, 'w) eap_sm \<times> bool) option" where
  "eap_sm_run env s = eap_step_loop env False s"

section \<open>Creation and calls from outside\<close>

definition zero_if :: eap_eapol_interface where
  "zero_if = \<lparr>eapResp = False, eapRespData = None, portEnabled = False, retransWhile = 0, eapRestart = False,
     eapSRTT = 0, eapRTTVAR = 0, eapReq = False, eapNoReq = False, eapSuccess = False, eapFail = False,
     eapTimeout = False, eapReqData = None, eapKeyData = None, eapSessionId = None, eapKeyAvailable = False,
     aaaEapReq = False, aaaEapNoReq = False, aaaSuccess = False, aaaFail = False, aaaEapReqData = None,
     aaaEapKeyData = None, aaaEapKeyAvailable = False, aaaMethodTimeout = 0, aaaEapResp = False,
     aaaEapRespData = None, aaaTimeout = False\<rparr>"

text \<open>\<open>eap_server_sm_init\<close>, with the keys of the access point it will reach; \<open>None\<close> is the null result.\<close>

definition eap_server_sm_init ::
  "('p, 'w) eap_env \<Rightarrow> 'w \<Rightarrow> eap_server_erp_key list \<Rightarrow> ('p, 'w) eap_sm option" where
  "eap_server_sm_init env w keys =
     (let (ok, w) = os_malloc env w
      in if \<not> ok then None
         else Some \<lparr>EAP_state = EAP_DISABLED, eif = zero_if, currentMethod = EAP_TYPE_NONE, currentId = 0,
           methodState = METHOD_PROPOSED, retransCount = 0, lastReqData = None, methodTimeout = 0, rxResp = False,
           rxInitiate = False, respId = 0, respMethod = EAP_TYPE_NONE, respVendor = 0, respVendorMethod = 0,
           ignore = False, decision = DECISION_SUCCESS, eap_m = None, eap_changed = False, eap_method_priv = None,
           lastId = 0, num_rounds = 0, num_rounds_short = 0, start_reauth = False,
           initiate_reauth_start_sent = False, try_initiate_reauth = False, erp_keys = keys,
           share = \<lparr>eap_identity = None, user = None, user_eap_method_index = 0, update_user = False,
             method_pending = METHOD_PENDING_NONE, MaxRetrans = 5, saw_remediation = False, world = w\<rparr>\<rparr>)"

definition eap_sm_notify_cached :: "('p, 'w) eap_sm \<Rightarrow> ('p, 'w) eap_sm" where
  "eap_sm_notify_cached s = s\<lparr>EAP_state := EAP_SUCCESS\<rparr>"

definition eap_sm_pending_cb :: "('p, 'w) eap_sm \<Rightarrow> ('p, 'w) eap_sm" where
  "eap_sm_pending_cb s =
     (if method_pending (share s) = METHOD_PENDING_WAIT
      then upd_share (\<lambda>sh. sh\<lparr>method_pending := METHOD_PENDING_CONT\<rparr>) s else s)"

definition eap_sm_method_pending :: "('p, 'w) eap_sm \<Rightarrow> bool" where
  "eap_sm_method_pending s \<longleftrightarrow> method_pending (share s) = METHOD_PENDING_WAIT"

definition eap_server_clear_identity :: "('p, 'w) eap_sm \<Rightarrow> ('p, 'w) eap_sm" where
  "eap_server_clear_identity s = upd_share (\<lambda>sh. sh\<lparr>eap_identity := None\<rparr>) s"

text \<open>The identity taken from a re-authentication message that is forwarded.\<close>

definition eap_erp_update_identity ::
  "('p, 'w) eap_env \<Rightarrow> bytes \<Rightarrow> ('p, 'w) eap_sm \<Rightarrow> ('p, 'w) eap_sm option" where
  "eap_erp_update_identity env msg s =
     (if length msg < 4 + 1 then Some s
      else if msg ! 0 \<noteq> EAP_CODE_INITIATE \<or> ucast (msg ! 4) \<noteq> EAP_ERP_TYPE_REAUTH then Some s
      else if 5 + 3 > length msg then Some s
      else case erp_parse_tlvs msg 8 (length msg) True of
             None \<Rightarrow> None
           | Some (r, parse) \<Rightarrow>
               if r < 0 then Some s
               else case keyname parse of
                      None \<Rightarrow> Some s
                    | Some (i, n) \<Rightarrow>
                        let (ok, s) = alloc env s
                        in Some (upd_share (\<lambda>sh. sh\<lparr>eap_identity := (if ok then Some (take n (drop i msg)) else None)\<rparr>) s))"


end
