(* ===== verification/Eap_Server_Props.thy ===== *)
theory Eap_Server_Props
  imports Eap_Server
begin

text \<open>
  Correctness of the EAP server of \<open>Eap_Server\<close>: its runs end and dereference no null pointer, what
  makes it report success, the retransmission timer, the handling of a Nak, and the replay
  protection of re-authentication.
\<close>

section \<open>Retransmission\<close>

lemma backoff_closed: "3 \<le> r \<Longrightarrow> r \<le> 20 \<Longrightarrow> backoff n r = min 20 (r * 2 ^ n)"
proof (induction n arbitrary: r)
  case (Suc n)
  show ?case
  proof (cases "r * 2 \<ge> 20")
    case True
    have "r * 2 * 1 \<le> r * 2 * 2 ^ n" by (rule mult_left_mono) (use Suc.prems in simp_all)
    then have "20 \<le> r * 2 ^ Suc n" using True unfolding power_Suc mult.assoc by linarith
    then have "min 20 (r * 2 ^ Suc n) = 20" by linarith
    then show ?thesis using True by (simp del: power_Suc)
  next
    case False
    then show ?thesis using Suc by (simp add: mult.assoc)
  qed
qed simp

text \<open>
  The time until a request is sent again, with no hint from the method and no re-authentication
  start pending: three seconds doubled with every retransmission, at most twenty; so it is never
  zero, and it never gets shorter.
\<close>

theorem retransmission_timeout:
  assumes "\<not> try_initiate_reauth s" and "0 \<le> n"
  shows "eap_sm_calculateTimeout s n srtt rttvar 0 = min 20 (3 * 2 ^ nat n) \<and>
    eap_sm_calculateTimeout s n srtt rttvar 0 \<in> {3..20} \<and>
    eap_sm_calculateTimeout s n srtt rttvar 0 \<le> eap_sm_calculateTimeout s (n + 1) srtt rttvar 0"
proof -
  have e: "eap_sm_calculateTimeout s k srtt rttvar 0 = min 20 (3 * 2 ^ nat k)" for k
    using assms(1) backoff_closed [of 3 "nat k"] by (simp add: eap_sm_calculateTimeout_def)
  have "nat (n + 1) = Suc (nat n)" using assms(2) by simp
  moreover have "1 \<le> (2 :: int) ^ nat n" by simp
  ultimately show ?thesis by (auto simp: e min_def)
qed

lemma timeout_nonzero [simp]: "eap_sm_calculateTimeout s n a b t \<noteq> 0"
  using backoff_closed [of 3 "nat n"] by (auto simp: eap_sm_calculateTimeout_def min_def)

section \<open>Nak\<close>

abbreviation no_method :: "int \<times> u32" where
  "no_method \<equiv> (EAP_VENDOR_IETF, EAP_TYPE_NONE)"

text \<open>A configured method that the peer asks for in its Nak.\<close>

definition wanted :: "bytes \<Rightarrow> int \<times> u32 \<Rightarrow> bool" where
  "wanted nak x \<longleftrightarrow> fst x = EAP_VENDOR_IETF \<and> in_nak_list nak (snd x)"

definition configured :: "(int \<times> u32) list \<Rightarrow> (int \<times> u32) list" where
  "configured ms = takeWhile (\<lambda>x. x \<noteq> no_method) ms"

lemma method_set_iff:
  "length ms = EAP_MAX_METHODS \<Longrightarrow> method_set ms i \<longleftrightarrow> i < length ms \<and> ms ! i \<noteq> no_method"
  by (auto simp: method_set_def method_at_def prod_eq_iff)

lemma length_drop_method [simp]: "length ms = EAP_MAX_METHODS \<Longrightarrow> i < length ms \<Longrightarrow> length (drop_method ms i) = EAP_MAX_METHODS"
  by (simp add: drop_method_def)

lemma snoc_while:
  "\<not> P e \<Longrightarrow> takeWhile P (xs @ [e]) = takeWhile P xs" "\<not> P e \<Longrightarrow> dropWhile P (xs @ [e]) = dropWhile P xs @ [e]"
  by (induction xs) auto

lemma nak_loop_spec:
  assumes "length ms = EAP_MAX_METHODS" and "i \<le> length ms"
  shows "nak_loop nak ms i = take i ms @ filter (wanted nak) (configured (drop i ms)) @
    dropWhile (\<lambda>x. x \<noteq> no_method) (drop i ms) @
    replicate (length (filter (\<lambda>x. \<not> wanted nak x) (configured (drop i ms)))) no_method"
  using assms
proof (induction nak ms i rule: nak_loop.induct)
  case (1 nak ms i)
  show ?case
  proof (cases "i < length ms \<and> ms ! i \<noteq> no_method")
    case False
    then have "configured (drop i ms) = []" "dropWhile (\<lambda>x. x \<noteq> no_method) (drop i ms) = drop i ms"
      by (cases "drop i ms"; auto simp: configured_def dest: nth_via_drop)+
    then show ?thesis using False 1(3,4) by (subst nak_loop.simps) (auto simp: method_set_iff)
  next
    case True
    then have d: "drop i ms = ms ! i # drop (Suc i) ms" by (simp add: Cons_nth_drop_Suc)
    have at: "method_at ms i = ms ! i" using True by (simp add: method_at_def)
    have m: "method_set ms i" using True 1(3) by (simp add: method_set_iff)
    show ?thesis
    proof (cases "wanted nak (ms ! i)")
      case w: True
      have "nak_loop nak ms i = nak_loop nak ms (i + 1)"
        using w m by (subst nak_loop.simps) (simp add: at wanted_def)
      moreover note "1.IH"(1) [OF _ _ 1(3)]
      ultimately show ?thesis using m w at True by (simp add: wanted_def [symmetric] d configured_def take_Suc_conv_app_nth)
    next
      case w: False
      have "nak_loop nak ms i = nak_loop nak (drop_method ms i) i"
        using w m by (subst nak_loop.simps) (auto simp: at wanted_def)
      moreover have "drop i (drop_method ms i) = drop (Suc i) ms @ [no_method]" "take i (drop_method ms i) = take i ms"
        using True 1(3) by (simp_all add: drop_method_def)
      moreover note "1.IH"(2) [OF _ _ length_drop_method [OF 1(3)]]
      ultimately show ?thesis using m w at True 1(3)
        by (simp add: wanted_def [symmetric] d configured_def snoc_while)
    qed
  qed
qed

text \<open>
  After a legacy Nak the configured methods from the current one on are exactly those of them, in
  their order, that the peer named; methods of other vendors are dropped, and the entries that were
  passed already stay as they are.
\<close>

theorem process_nak_filters:
  assumes "user sh = Some u" and "length (methods u) = EAP_MAX_METHODS" and "user_eap_method_index sh \<le> EAP_MAX_METHODS"
  shows "\<exists>u'. eap_sm_process_nak nak sh = sh\<lparr>user := Some u'\<rparr> \<and> length (methods u') = EAP_MAX_METHODS \<and>
    take (user_eap_method_index sh) (methods u') = take (user_eap_method_index sh) (methods u) \<and>
    configured (drop (user_eap_method_index sh) (methods u')) =
      filter (wanted nak) (configured (drop (user_eap_method_index sh) (methods u)))"
proof -
  let ?i = "user_eap_method_index sh" and ?u = "u\<lparr>methods := nak_loop nak (methods u) (user_eap_method_index sh)\<rparr>"
  let ?d = "drop ?i (methods u)"
  have l: "nak_loop nak (methods u) ?i = take ?i (methods u) @ filter (wanted nak) (configured ?d) @
      dropWhile (\<lambda>x. x \<noteq> no_method) ?d @ replicate (length (filter (\<lambda>x. \<not> wanted nak x) (configured ?d))) no_method"
    using nak_loop_spec assms(2,3) by simp
  have n: "length (filter (wanted nak) (configured ?d)) + length (filter (\<lambda>x. \<not> wanted nak x) (configured ?d)) +
      length (dropWhile (\<lambda>x. x \<noteq> no_method) ?d) = length ?d"
    using sum_length_filter_compl [of "wanted nak" "configured ?d"] takeWhile_dropWhile_id [of "\<lambda>x. x \<noteq> no_method" ?d]
    unfolding configured_def by (metis length_append)
  have c: "configured (xs @ ys) = xs" if "no_method \<notin> set xs" "ys = [] \<or> hd ys = no_method" for xs ys
    using that by (induction xs; cases ys) (auto simp: configured_def)
  have "no_method \<notin> set (configured ?d)" by (auto simp: configured_def dest: set_takeWhileD)
  moreover have "dropWhile (\<lambda>x. x \<noteq> no_method) xs @ replicate k no_method = [] \<or>
      hd (dropWhile (\<lambda>x. x \<noteq> no_method) xs @ replicate k no_method) = no_method" for xs k
    by (induction xs; cases k) auto
  ultimately have "configured (drop ?i (methods ?u)) = filter (wanted nak) (configured ?d)"
    using assms(2,3) by (simp add: l, intro c) auto
  then show ?thesis using assms n by (intro exI [of _ ?u]) (simp add: eap_sm_process_nak_def l)
qed

section \<open>What the procedures leave alone\<close>

lemma alloc_eq:
  "alloc env s = (fst (os_malloc env (world (share s))),
     s\<lparr>share := (share s)\<lparr>world := snd (os_malloc env (world (share s)))\<rparr>\<rparr>)"
  by (simp add: alloc_def alloc_share_def split_beta)

lemma entry_fields [simp]:
  "EAP_state (eap_entry g st s) = st" "eif (eap_entry g st s) = eif s" "share (eap_entry g st s) = share s"
  "eap_m (eap_entry g st s) = eap_m s" "eap_method_priv (eap_entry g st s) = eap_method_priv s"
  "num_rounds (eap_entry g st s) = num_rounds s" "num_rounds_short (eap_entry g st s) = num_rounds_short s"
  "try_initiate_reauth (eap_entry g st s) = try_initiate_reauth s" "currentMethod (eap_entry g st s) = currentMethod s"
  "currentId (eap_entry g st s) = currentId s" "rxResp (eap_entry g st s) = rxResp s"
  "rxInitiate (eap_entry g st s) = rxInitiate s" "ignore (eap_entry g st s) = ignore s"
  "methodState (eap_entry g st s) = methodState s" "decision (eap_entry g st s) = decision s"
  "respMethod (eap_entry g st s) = respMethod s" "erp_keys (eap_entry g st s) = erp_keys s"
  "retransCount (eap_entry g st s) = retransCount s" "methodTimeout (eap_entry g st s) = methodTimeout s"
  "lastReqData (eap_entry g st s) = lastReqData s" "start_reauth (eap_entry g st s) = start_reauth s"
  "lastId (eap_entry g st s) = lastId s" "initiate_reauth_start_sent (eap_entry g st s) = initiate_reauth_start_sent s"
  "eap_changed (eap_entry g st s) \<longleftrightarrow> eap_changed s \<or> \<not> g \<or> EAP_state s \<noteq> st"
  by (simp_all add: eap_entry_def)

text \<open>The fields that the policy and the choice of a method leave alone.\<close>

definition core :: "('p, 'w) eap_sm \<Rightarrow> eap_state \<times> bool \<times> eap_eapol_interface \<times> u32 \<times> u32 \<times> bool \<times> bool \<times> bool \<times> bool \<times> int" where
  "core s = (EAP_state s, eap_changed s, eif s, num_rounds s, num_rounds_short s, try_initiate_reauth s, rxResp s,
     rxInitiate s, ignore s, currentId s)"

lemma core_updates [simp]:
  "core (s\<lparr>share := sh\<rparr>) = core s" "core (s\<lparr>eap_method_priv := p\<rparr>) = core s" "core (s\<lparr>eap_m := x\<rparr>) = core s"
  "core (s\<lparr>currentMethod := c\<rparr>) = core s" "core (s\<lparr>start_reauth := b\<rparr>) = core s" "core (s\<lparr>decision := d\<rparr>) = core s"
  "core (s\<lparr>methodState := ms\<rparr>) = core s" "core (s\<lparr>erp_keys := ks\<rparr>) = core s" "core (s\<lparr>methodTimeout := n\<rparr>) = core s"
  by (simp_all add: core_def)

lemma core_reset [simp]: "core (reset_method s) = core s"
  by (auto simp: reset_method_def split: option.split)

lemma reset_fields [simp]:
  "eap_m (reset_method s) = eap_m s" "currentMethod (reset_method s) = currentMethod s"
  "respMethod (reset_method s) = respMethod s" "erp_keys (reset_method s) = erp_keys s"
  by (auto simp: reset_method_def split: option.split)

lemma core_next_method [simp]: "core (snd (eap_sm_Policy_getNextMethod s)) = core s"
  by (auto simp: eap_sm_Policy_getNextMethod_def Let_def split: option.split)

lemma core_propose_loop: "propose_loop env s = Some s' \<Longrightarrow> core s' = core s \<and> erp_keys s' = erp_keys s"
proof (induction env s s' rule: propose_loop.raw_induct [rotated, consumes 1, case_names step])
  case (step loop env s s')
  obtain v t s1 where n: "eap_sm_Policy_getNextMethod s = ((v, t), s1)" by (metis surj_pair)
  have c1: "core s1 = core s" using core_next_method [of s] by (simp add: n)
  have k1: "erp_keys s1 = erp_keys s"
    using n by (auto simp: eap_sm_Policy_getNextMethod_def Let_def split: option.splits if_splits)
  show ?case
    using step.hyps step.IH c1 k1 by (fastforce simp: n split_beta Let_def split: option.splits)
qed

lemma core_decide_user [simp]: "core (snd (decide_user env s)) = core s"
  by (auto simp: decide_user_def Let_def split_beta split: option.split)

lemma core_getDecision: "eap_sm_Policy_getDecision env s = Some (d, s') \<Longrightarrow> core s' = core s"
  using core_decide_user [of env s]
  by (cases "decide_user env s") (auto simp: eap_sm_Policy_getDecision_def Let_def split: if_splits option.splits)

lemma core_Policy_update [simp]: "core (eap_sm_Policy_update n s) = core s"
  by (auto simp: eap_sm_Policy_update_def split: option.split)

lemma core_erp_init [simp]: "core (eap_server_erp_init env get p s) = core s"
  by (auto simp: eap_server_erp_init_def alloc_eq erp_add_key_def Let_def split_beta split: option.split)

lemma core_PROPOSE:
  assumes "sm_EAP_PROPOSE_METHOD_Enter env g s = Some s'"
  shows "core s' = core ((eap_entry g EAP_PROPOSE_METHOD s)\<lparr>try_initiate_reauth := False\<rparr>)"
  using assms core_propose_loop by (fastforce simp: sm_EAP_PROPOSE_METHOD_Enter_def split: option.splits)

lemma core_SELECT_ACTION:
  assumes "sm_EAP_SELECT_ACTION_Enter env g s = Some s'"
  shows "core s' = core (eap_entry g EAP_SELECT_ACTION s)"
  using assms core_getDecision by (fastforce simp: sm_EAP_SELECT_ACTION_Enter_def split: option.splits)

lemma core_NAK:
  assumes "sm_EAP_NAK_Enter g s = Some s'"
  shows "core s' = core (eap_entry g EAP_NAK s)"
  using assms by (auto simp: sm_EAP_NAK_Enter_def Let_def split: if_splits)

text \<open>The interface without the fields a finished method or a re-authentication sets.\<close>

definition rest_if :: "eap_eapol_interface \<Rightarrow> eap_eapol_interface" where
  "rest_if i = i\<lparr>eapKeyData := None, eapSessionId := None, eapReqData := None, eapFail := False,
     eapKeyAvailable := False, eapSuccess := False\<rparr>"

lemma rest_if_fields:
  assumes "rest_if i = rest_if j"
  shows "eapResp i = eapResp j" "eapRespData i = eapRespData j" "portEnabled i = portEnabled j"
    "retransWhile i = retransWhile j" "eapRestart i = eapRestart j" "aaaSuccess i = aaaSuccess j" "aaaFail i = aaaFail j"
    "aaaEapReq i = aaaEapReq j" "aaaTimeout i = aaaTimeout j"
  using assms unfolding rest_if_def by (cases i; cases j; simp)+

lemma rest_if_updates [simp]:
  "rest_if (i\<lparr>eapKeyData := k\<rparr>) = rest_if i" "rest_if (i\<lparr>eapSessionId := k\<rparr>) = rest_if i"
  "rest_if (i\<lparr>eapReqData := k\<rparr>) = rest_if i" "rest_if (i\<lparr>eapFail := b\<rparr>) = rest_if i"
  "rest_if (i\<lparr>eapKeyAvailable := b\<rparr>) = rest_if i" "rest_if (i\<lparr>eapSuccess := b\<rparr>) = rest_if i"
  by (simp_all add: rest_if_def)

text \<open>The same fields of two machines, up to that part of the interface.\<close>

definition similar :: "('p, 'w) eap_sm \<Rightarrow> ('p, 'w) eap_sm \<Rightarrow> bool" where
  "similar s t \<longleftrightarrow> core (upd_eif rest_if s) = core (upd_eif rest_if t)"

lemma core_similar: "core s = core t \<Longrightarrow> similar s t"
  by (simp add: similar_def core_def)

lemma similar_METHOD_RESPONSE:
  assumes "sm_EAP_METHOD_RESPONSE_Enter env g s = Some s'"
  shows "similar s' (eap_entry g EAP_METHOD_RESPONSE s) \<and> eapSuccess (eif s') = eapSuccess (eif s)"
proof -
  have "eif (eap_server_erp_init env get p r) = eif r" for get p r
    using core_erp_init [of env get p r] by (simp add: core_def)
  then have fin: "similar (method_finished env x p t) t \<and> eapSuccess (eif (method_finished env x p t)) = eapSuccess (eif t)" for x p t
    using core_erp_init [of env]
    by (simp add: method_finished_def eap_sm_Policy_update_def Let_def split_beta similar_def core_def split: option.split)
  show ?thesis
    using assms fin
    by (auto simp: sm_EAP_METHOD_RESPONSE_Enter_def Let_def similar_def core_def split: if_splits option.splits)
qed

lemma similar_INITIATE_RECEIVED:
  assumes "sm_EAP_INITIATE_RECEIVED_Enter env g s = Some s'"
  shows "EAP_state s' = EAP_INITIATE_RECEIVED \<and> (eap_changed s' \<longleftrightarrow> eap_changed (eap_entry g EAP_INITIATE_RECEIVED s)) \<and>
    num_rounds s' = num_rounds s \<and> num_rounds_short s' = num_rounds_short s \<and> \<not> rxInitiate s' \<and>
    rest_if (eif s') = rest_if (eif s)"
  using assms
  by (auto simp: sm_EAP_INITIATE_RECEIVED_Enter_def erp_send_finish_reauth_def Let_def alloc_eq split_beta
      split: option.splits erp_outcome.splits if_splits)

section \<open>Every run ends\<close>

text \<open>How far the machine is from a state that waits for the lower layer.\<close>

definition st_rank :: "('p, 'w) eap_env \<Rightarrow> ('p, 'w) eap_sm \<Rightarrow> nat" where
  "st_rank env s =
     (let i = eif s; again = (if method_pending (share s) = METHOD_PENDING_CONT then 1 else 0)
      in case EAP_state s of
        EAP_DISABLED \<Rightarrow> 10 | EAP_INITIALIZE \<Rightarrow> 9 | EAP_PICK_UP_METHOD \<Rightarrow> 8
      | EAP_IDLE \<Rightarrow> if retransWhile i = 0 then 14 else if eapResp i then 10 else 0
      | EAP_RETRANSMIT \<Rightarrow> if eapResp i then 11 else 1
      | EAP_RECEIVED \<Rightarrow> 9
      | EAP_DISCARD \<Rightarrow> if eapResp i then 11 else 1
      | EAP_SEND_REQUEST \<Rightarrow> if eapResp i then 11 else 1
      | EAP_INTEGRITY_CHECK \<Rightarrow> 8 | EAP_METHOD_REQUEST \<Rightarrow> 2 | EAP_METHOD_RESPONSE \<Rightarrow> 6 + again
      | EAP_PROPOSE_METHOD \<Rightarrow> 3 + again | EAP_NAK \<Rightarrow> 6 | EAP_SELECT_ACTION \<Rightarrow> 5
      | EAP_INITIATE_REAUTH_START \<Rightarrow> 2
      | EAP_INITIATE_RECEIVED \<Rightarrow> if eap_server (cfg env) then 0 else 6
      | EAP_INITIALIZE_PASSTHROUGH \<Rightarrow> 3
      | EAP_IDLE2 \<Rightarrow> if eapResp i then 4 else if retransWhile i = 0 then 2 else 0
      | EAP_RETRANSMIT2 \<Rightarrow> if eapResp i then 5 else 1
      | EAP_DISCARD2 \<Rightarrow> if eapResp i then 5 else 1
      | EAP_SEND_REQUEST2 \<Rightarrow> if eapResp i then 5 else 1
      | EAP_RECEIVED2 \<Rightarrow> 3 | EAP_AAA_REQUEST \<Rightarrow> 2 | EAP_AAA_RESPONSE \<Rightarrow> 2
      | EAP_AAA_IDLE \<Rightarrow> if aaaFail i \<or> aaaSuccess i then 1 else if aaaEapReq i then 3 else if aaaTimeout i then 1 else 0
      | EAP_SUCCESS \<Rightarrow> 0 | EAP_FAILURE \<Rightarrow> 0 | EAP_TIMEOUT_FAILURE \<Rightarrow> 0
      | EAP_TIMEOUT_FAILURE2 \<Rightarrow> 0 | EAP_FAILURE2 \<Rightarrow> 0 | EAP_SUCCESS2 \<Rightarrow> 0)"

definition rank :: "('p, 'w) eap_env \<Rightarrow> ('p, 'w) eap_sm \<Rightarrow> nat" where
  "rank env s =
     (if eapRestart (eif s) \<and> portEnabled (eif s) then 20
      else if \<not> portEnabled (eif s) then (if EAP_state s = EAP_DISABLED then 0 else 1)
      else if num_rounds s > max_auth_rounds (cfg env) \<or> num_rounds_short s > max_auth_rounds_short (cfg env)
      then (if EAP_state s = EAP_FAILURE then 0
            else if num_rounds s > max_auth_rounds (cfg env)
            then (if num_rounds s = max_auth_rounds (cfg env) + 1 then 1 else 0)
            else (if num_rounds_short s = max_auth_rounds_short (cfg env) + 1 then 1 else 0))
      else st_rank env s)"

text \<open>
  What the server relies on of its methods. \<open>accepts\<close> is what a method promises to be able to
  process once its check has passed a frame. The fields that steer the choice of the next method
  are not changed by initializing or resetting one, the Identity method can always be initialized,
  no method has the type 0, and none of them resumes a pending request by itself.
\<close>

definition same_choice :: "'w eap_share \<Rightarrow> 'w eap_share \<Rightarrow> bool" where
  "same_choice sh sh' \<longleftrightarrow> eap_identity sh' = eap_identity sh \<and> user sh' = user sh \<and>
     user_eap_method_index sh' = user_eap_method_index sh \<and>
     (method_pending sh' = METHOD_PENDING_CONT \<longrightarrow> method_pending sh = METHOD_PENDING_CONT)"

definition no_resume :: "'w eap_share \<Rightarrow> 'w eap_share \<Rightarrow> bool" where
  "no_resume sh sh' \<longleftrightarrow> (method_pending sh' = METHOD_PENDING_CONT \<longrightarrow> method_pending sh = METHOD_PENDING_CONT)"

lemma no_resume_refl [simp]: "no_resume sh sh"
  by (simp add: no_resume_def)

lemma no_resume_trans: "no_resume a b \<Longrightarrow> no_resume b c \<Longrightarrow> no_resume a c"
  by (simp add: no_resume_def)

text \<open>The selected method is a registered one, and it has its private data.\<close>

definition method_inv :: "('p, 'w) eap_env \<Rightarrow> ('p, 'w) eap_sm \<Rightarrow> bool" where
  "method_inv env s \<longleftrightarrow> (eap_m s = None \<longleftrightarrow> eap_method_priv s = None) \<and>
     (\<forall>x. eap_m s = Some x \<longrightarrow> x \<in> set (eap_methods env))"

text \<open>The frame is one that the selected method can process, if its header is valid.\<close>

definition frame_ok :: "(('p, 'w) eap_method \<Rightarrow> bytes \<Rightarrow> bool) \<Rightarrow> ('p, 'w) eap_sm \<Rightarrow> bool" where
  "frame_ok accepts s \<longleftrightarrow> (\<forall>x. eap_m s = Some x \<longrightarrow> eap_hdr_len_valid (eapRespData (eif s)) 1 \<longrightarrow>
     accepts x (the (eapRespData (eif s))))"

text \<open>In these states a request of the selected method is outstanding.\<close>

definition waiting_states :: "eap_state set" where
  "waiting_states = {EAP_IDLE, EAP_RETRANSMIT, EAP_RECEIVED, EAP_DISCARD, EAP_SEND_REQUEST, EAP_INTEGRITY_CHECK,
     EAP_METHOD_RESPONSE}"

definition eap_inv :: "('p, 'w) eap_env \<Rightarrow> (('p, 'w) eap_method \<Rightarrow> bytes \<Rightarrow> bool) \<Rightarrow> ('p, 'w) eap_sm \<Rightarrow> bool" where
  "eap_inv env accepts s \<longleftrightarrow> method_inv env s \<and>
     (EAP_state s \<in> waiting_states \<longrightarrow> eap_m s \<noteq> None) \<and>
     (EAP_state s = EAP_INTEGRITY_CHECK \<and> \<not> ignore s \<longrightarrow> frame_ok accepts s) \<and>
     (EAP_state s = EAP_METHOD_RESPONSE \<and> method_pending (share s) = METHOD_PENDING_CONT \<longrightarrow> frame_ok accepts s) \<and>
     (EAP_state s = EAP_INITIALIZE \<and> backend_auth (cfg env) \<longrightarrow> currentMethod s = EAP_TYPE_NONE) \<and>
     (EAP_state s = EAP_PICK_UP_METHOD \<and> currentMethod s \<noteq> EAP_TYPE_NONE \<longrightarrow> (\<exists>x. eap_m s = Some x \<and> m_initPickUp x \<noteq> None)) \<and>
     EAP_state s \<noteq> EAP_INITIATE_REAUTH_START \<and>
     (EAP_state s = EAP_SELECT_ACTION \<longrightarrow> decision s \<noteq> DECISION_INITIATE_REAUTH_START)"

text \<open>No global rule applies.\<close>

definition calm :: "('p, 'w) eap_env \<Rightarrow> ('p, 'w) eap_sm \<Rightarrow> bool" where
  "calm env s \<longleftrightarrow> \<not> eapRestart (eif s) \<and> portEnabled (eif s) \<and> \<not> num_rounds s > max_auth_rounds (cfg env) \<and>
     \<not> num_rounds_short s > max_auth_rounds_short (cfg env)"

lemma rank_calm: "calm env s \<Longrightarrow> rank env s = st_rank env s"
  by (simp add: calm_def rank_def)

lemma step_calm: "calm env s \<Longrightarrow> sm_EAP_Step env s = sm_EAP_switch env s"
  by (simp add: calm_def sm_EAP_Step_def)

locale eap_method_contract =
  fixes env :: "('p, 'w) eap_env" and accepts :: "('p, 'w) eap_method \<Rightarrow> bytes \<Rightarrow> bool"
  assumes init_keeps: "x \<in> set (eap_methods env) \<Longrightarrow> same_choice sh (snd (m_init x sh))"
    and reset_keeps: "x \<in> set (eap_methods env) \<Longrightarrow> same_choice sh (m_reset x p sh)"
    and identity_inits: "eap_server_get_eap_method env EAP_VENDOR_IETF EAP_TYPE_IDENTITY = Some x \<Longrightarrow> fst (m_init x sh) \<noteq> None"
    and no_type_none: "eap_server_get_eap_method env EAP_VENDOR_IETF EAP_TYPE_NONE = None"
    and check_present: "x \<in> set (eap_methods env) \<Longrightarrow> m_check x \<noteq> None"
    and check_accepts: "x \<in> set (eap_methods env) \<Longrightarrow> m_check x = Some check \<Longrightarrow> \<not> check p b sh \<Longrightarrow>
      eap_hdr_len_valid (Some b) 1 \<Longrightarrow> accepts x b"
    and pick_up_accepts: "x \<in> set (eap_methods env) \<Longrightarrow> m_initPickUp x \<noteq> None \<Longrightarrow> eap_hdr_len_valid (Some b) 1 \<Longrightarrow> accepts x b"
    and process_accepted: "x \<in> set (eap_methods env) \<Longrightarrow> accepts x b \<Longrightarrow> m_process x p b sh \<noteq> None"
    and process_pending: "x \<in> set (eap_methods env) \<Longrightarrow> m_process x p b sh = Some (p', sh') \<Longrightarrow> no_resume sh sh'"
    and key_pending: "x \<in> set (eap_methods env) \<Longrightarrow> m_getKey x = Some get \<Longrightarrow> no_resume sh (snd (get p sh))"
    and session_pending: "x \<in> set (eap_methods env) \<Longrightarrow> m_getSessionId x = Some get \<Longrightarrow> no_resume sh (snd (get p sh))"
    and emsk_pending: "x \<in> set (eap_methods env) \<Longrightarrow> m_get_emsk x = Some get \<Longrightarrow> no_resume sh (snd (get p sh))"
begin

lemma found_registered: "eap_server_get_eap_method env v t = Some x \<Longrightarrow> x \<in> set (eap_methods env)"
  by (auto simp: eap_server_get_eap_method_def find_Some_iff)

end

context eap_method_contract
begin

lemma reset_selected:
  assumes "method_inv env s"
  shows "eap_method_priv (reset_method s) = None" "same_choice (share s) (share (reset_method s))"
  using assms reset_keeps by (auto simp: method_inv_def reset_method_def same_choice_def split: option.split)

lemma propose_total:
  assumes "method_inv env s"
  shows "\<exists>s'. propose_loop env s = Some s' \<and> method_inv env s' \<and> no_resume (share s) (share s')"
  using assms
proof (induction "EAP_MAX_METHODS - user_eap_method_index (share s)" arbitrary: s rule: less_induct)
  case less
  obtain v t s1 where n: "eap_sm_Policy_getNextMethod s = ((v, t), s1)" by (metis surj_pair)
  define s2 where "s2 = reset_method (s1\<lparr>currentMethod := (if v = EAP_VENDOR_IETF then t else EAP_TYPE_EXPANDED)\<rparr>)"
  have s1: "method_inv env s1" "method_pending (share s1) = method_pending (share s)"
    using n less.prems by (auto simp: eap_sm_Policy_getNextMethod_def Let_def method_inv_def split: option.splits if_splits)
  then have "method_inv env (s1\<lparr>currentMethod := c\<rparr>)" for c by (simp add: method_inv_def)
  from reset_selected [OF this] have s2: "eap_method_priv s2 = None" "same_choice (share s1) (share s2)"
    by (simp_all add: s2_def)
  have next_cases: "v = EAP_VENDOR_IETF \<and> t = EAP_TYPE_IDENTITY \<or> v = EAP_VENDOR_IETF \<and> t = EAP_TYPE_NONE \<or>
      user_eap_method_index (share s) < EAP_MAX_METHODS \<and> user_eap_method_index (share s1) = user_eap_method_index (share s) + 1"
    using n by (auto simp: eap_sm_Policy_getNextMethod_def Let_def method_set_def split: option.splits if_splits)
  have loop: "propose_loop env s = (case eap_server_get_eap_method env v t of
       None \<Rightarrow> Some (s2\<lparr>eap_m := None\<rparr>)
     | Some x \<Rightarrow> (case m_init x (share s2) of (p, sh) \<Rightarrow>
         (case p of None \<Rightarrow> propose_loop env (s2\<lparr>share := sh, eap_method_priv := None, eap_m := None, currentMethod := EAP_TYPE_NONE\<rparr>)
          | Some _ \<Rightarrow> Some (s2\<lparr>eap_m := Some x, share := sh, eap_method_priv := p\<rparr>))))"
    by (subst propose_loop.simps) (simp add: n s2_def Let_def split_beta split: option.split)
  show ?case
  proof (cases "eap_server_get_eap_method env v t")
    case None
    then show ?thesis using s1 s2 by (auto simp: loop method_inv_def no_resume_def same_choice_def)
  next
    case (Some x)
    obtain p sh where i: "m_init x (share s2) = (p, sh)" by force
    have x: "x \<in> set (eap_methods env)" using Some by (rule found_registered)
    have sh: "same_choice (share s2) sh" using init_keeps [OF x, of "share s2"] i by simp
    show ?thesis
    proof (cases p)
      case (Some q)
      then show ?thesis using \<open>eap_server_get_eap_method env v t = Some x\<close> i x s1 s2 sh
        by (auto simp: loop method_inv_def no_resume_def same_choice_def)
    next
      case None
      let ?s = "s2\<lparr>share := sh, eap_method_priv := None, eap_m := None, currentMethod := EAP_TYPE_NONE\<rparr>"
      have "user_eap_method_index (share s) < EAP_MAX_METHODS" "user_eap_method_index sh = user_eap_method_index (share s) + 1"
        using next_cases identity_inits [of x "share s2"] no_type_none Some i None s2(2) sh by (auto simp: same_choice_def)
      then have "EAP_MAX_METHODS - user_eap_method_index (share ?s) < EAP_MAX_METHODS - user_eap_method_index (share s)" by simp
      moreover have "method_inv env ?s" by (simp add: method_inv_def)
      ultimately obtain s' where s': "propose_loop env ?s = Some s'" "method_inv env s'" "no_resume sh (share s')"
        using less.hyps by fastforce
      have "no_resume (share s) sh" using s1 s2(2) sh by (auto simp: no_resume_def same_choice_def)
      then show ?thesis using s' Some i None by (auto simp: loop intro: no_resume_trans)
    qed
  qed
qed

lemma PROPOSE_total:
  assumes "method_inv env s"
  shows "\<exists>s'. sm_EAP_PROPOSE_METHOD_Enter env g s = Some s' \<and> method_inv env s' \<and> no_resume (share s) (share s')"
proof -
  let ?s = "(eap_entry g EAP_PROPOSE_METHOD s)\<lparr>try_initiate_reauth := False\<rparr>"
  have "method_inv env ?s" using assms by (simp add: method_inv_def)
  from propose_total [OF this] obtain s' where "propose_loop env ?s = Some s'" "method_inv env s'" "no_resume (share s) (share s')"
    by auto
  then show ?thesis by (auto simp: sm_EAP_PROPOSE_METHOD_Enter_def method_inv_def)
qed

lemma METHOD_RESPONSE_total:
  assumes "method_inv env s" and "eap_m s = Some x" and "eap_hdr_len_valid (eapRespData (eif s)) 1 \<Longrightarrow> accepts x (the (eapRespData (eif s)))"
  shows "\<exists>s'. sm_EAP_METHOD_RESPONSE_Enter env g s = Some s' \<and> method_inv env s' \<and> eap_m s' = Some x \<and>
    no_resume (share s) (share s')"
proof -
  obtain p where p: "eap_method_priv s = Some p" and x: "x \<in> set (eap_methods env)"
    using assms(1,2) by (auto simp: method_inv_def)
  have erp: "eap_m (eap_server_erp_init env get q t) = eap_m t \<and>
      eap_method_priv (eap_server_erp_init env get q t) = eap_method_priv t \<and>
      no_resume (share t) (share (eap_server_erp_init env get q t))" if "m_get_emsk x = Some get" for get q t
  proof -
    have "no_resume (share t) (snd (get q ((share t)\<lparr>world := w\<rparr>)))" for w
      using emsk_pending [OF x that, of "(share t)\<lparr>world := w\<rparr>" q] by (simp add: no_resume_def)
    then show ?thesis
      by (auto simp: eap_server_erp_init_def alloc_eq erp_add_key_def Let_def split_beta no_resume_def split: option.split)
  qed
  have fin: "eap_m (method_finished env x q t) = eap_m t \<and> eap_method_priv (method_finished env x q t) = eap_method_priv t \<and>
      no_resume (share t) (share (method_finished env x q t))" for q t
  proof -
    have k: "no_resume (share t) (snd (case m_getKey x of None \<Rightarrow> (None, share t) | Some get \<Rightarrow> get q (share t)))"
      using key_pending [OF x] by (auto split: option.split)
    have sid: "no_resume sh (snd (case m_getSessionId x of None \<Rightarrow> (None, sh) | Some get \<Rightarrow> get q sh))" for sh
      using session_pending [OF x] by (auto split: option.split)
    define k1 where "k1 = (case m_getKey x of None \<Rightarrow> (None, share t) | Some get \<Rightarrow> get q (share t))"
    define k2 where "k2 = (case m_getSessionId x of None \<Rightarrow> (None, snd k1) | Some get \<Rightarrow> get q (snd k1))"
    define t2 where "t2 = t\<lparr>share := snd k2, eif := (eif t)\<lparr>eapKeyData := fst k1, eapSessionId := fst k2\<rparr>\<rparr>"
    have mf: "method_finished env x q t = (case m_get_emsk x of None \<Rightarrow> t2
        | Some get \<Rightarrow> if erp (cfg env) \<and> eapSessionId (eif t2) \<noteq> None then eap_server_erp_init env get q t2 else t2)\<lparr>methodState := METHOD_END\<rparr>"
      by (cases "m_get_emsk x"; cases "m_getKey x"; cases "m_getSessionId x")
        (auto simp: method_finished_def eap_sm_Policy_update_def Let_def split_beta t2_def k1_def k2_def)
    have t2: "eap_m t2 = eap_m t" "eap_method_priv t2 = eap_method_priv t" "no_resume (share t) (share t2)"
      using no_resume_trans [OF k sid] unfolding t2_def k2_def k1_def by simp_all
    then show ?thesis
      unfolding mf using erp [of _ q t2] by (cases "m_get_emsk x") (auto intro: no_resume_trans)
  qed
  show ?thesis
  proof (cases "eap_hdr_len_valid (eapRespData (eif s)) 1")
    case False
    then show ?thesis using assms(1,2) by (simp add: sm_EAP_METHOD_RESPONSE_Enter_def method_inv_def)
  next
    case True
    then obtain q sh where pr: "m_process x p (the (eapRespData (eif s))) (share s) = Some (q, sh)"
      using process_accepted [OF x assms(3)] by fastforce
    show ?thesis
      using True assms(1,2) p pr process_pending [OF x pr] fin [of q "(eap_entry g EAP_METHOD_RESPONSE s)\<lparr>eap_method_priv := Some q, share := sh\<rparr>"]
      by (auto simp: sm_EAP_METHOD_RESPONSE_Enter_def method_inv_def Let_def intro: no_resume_trans)
  qed
qed

end


lemma decide_next_start: "\<not> get_erp_send_reauth_start env \<Longrightarrow> decide_next env s \<noteq> DECISION_INITIATE_REAUTH_START"
  by (simp add: decide_next_def Let_def)

lemma decide_user_facts:
  "eap_m (snd (decide_user env s)) = eap_m s" "eap_method_priv (snd (decide_user env s)) = eap_method_priv s"
  "\<not> get_erp_send_reauth_start env \<Longrightarrow> fst (decide_user env s) \<noteq> DECISION_INITIATE_REAUTH_START"
  by (auto simp: decide_user_def decide_next_start Let_def split_beta split: option.split)

lemma SELECT_ACTION_total:
  assumes "method_inv env s" and "\<not> get_erp_send_reauth_start env"
  shows "\<exists>s'. sm_EAP_SELECT_ACTION_Enter env g s = Some s' \<and> method_inv env s' \<and> decision s' \<noteq> DECISION_INITIATE_REAUTH_START"
proof -
  let ?s = "eap_entry g EAP_SELECT_ACTION s"
  have i: "method_inv env ?s" using assms by (simp add: method_inv_def)
  have "\<exists>d s'. eap_sm_Policy_getDecision env ?s = Some (d, s') \<and> eap_m s' = eap_m ?s \<and>
      eap_method_priv s' = eap_method_priv ?s \<and> d \<noteq> DECISION_INITIATE_REAUTH_START"
  proof (cases "eap_m ?s")
    case None
    then show ?thesis
      using decide_user_facts [of env ?s] assms(2)
      by (cases "decide_user env ?s") (auto simp: eap_sm_Policy_getDecision_def Let_def)
  next
    case (Some x)
    then obtain p where "eap_method_priv ?s = Some p" using i by (auto simp: method_inv_def)
    then show ?thesis
      using Some decide_user_facts [of env ?s] assms(2)
      by (cases "decide_user env ?s") (auto simp: eap_sm_Policy_getDecision_def Let_def)
  qed
  then show ?thesis using i by (auto simp: sm_EAP_SELECT_ACTION_Enter_def method_inv_def)
qed

lemma update_fields [simp]:
  "eap_m (eap_sm_Policy_update n s) = eap_m s" "eap_method_priv (eap_sm_Policy_update n s) = eap_method_priv s"
  by (auto simp: eap_sm_Policy_update_def split: option.split)

lemma NAK_total:
  assumes "method_inv env s"
  shows "\<exists>s'. sm_EAP_NAK_Enter g s = Some s' \<and> eap_m s' = None \<and> eap_method_priv s' = None"
proof -
  have "eap_method_priv (reset_method (eap_entry g EAP_NAK s)) = None"
    using assms by (auto simp: method_inv_def reset_method_def split: option.split)
  then show ?thesis
    using assms by (auto simp: sm_EAP_NAK_Enter_def method_inv_def Let_def Option.is_none_def)
qed

lemma INITIATE_RECEIVED_total:
  assumes "method_inv env s"
  shows "\<exists>s'. sm_EAP_INITIATE_RECEIVED_Enter env g s = Some s' \<and> method_inv env s'"
proof -
  let ?s = "(eap_entry g EAP_INITIATE_RECEIVED s)\<lparr>rxInitiate := False\<rparr>"
  have "erp_receive env ?s \<noteq> None"
  proof (cases "eap_hdr_validate EAP_VENDOR_IETF EAP_ERP_TYPE_REAUTH (eapRespData (eif s))")
    case None
    then show ?thesis by (simp add: erp_receive_def)
  next
    case (Some pl)
    obtain pos len where pl: "pl = (pos, len)" by force
    let ?b = "the (eapRespData (eif s))"
    have e: "pos + len \<le> length ?b"
      using Some pl by (auto simp: eap_hdr_validate_def eap_hdr_len_valid_def Let_def split: option.splits if_splits)
    have first: "erp_parse_tlvs ?b (pos + 3) (pos + len) True \<noteq> None" and
      second: "erp_parse_tlvs ?b (pos + 3) (pos + len - Suc n) False \<noteq> None" for n
      using erp_parse_tlvs_ok [of _ ?b] e by (metis option.distinct(1), metis diff_le_self le_trans option.distinct(1))
    show ?thesis
      using Some pl
      by (auto simp: erp_receive_def erp_authenticate_def Let_def first second split: option.split)
  qed
  then show ?thesis
    using assms
    by (auto simp: sm_EAP_INITIATE_RECEIVED_Enter_def method_inv_def erp_send_finish_reauth_def alloc_eq Let_def split_beta
        split: option.splits erp_outcome.splits)
qed


lemmas plain_enter = sm_EAP_IDLE_Enter_def set_retrans_def sm_EAP_RETRANSMIT_Enter_def retransmit_def eap_copy_buf_def
  eap_copy_data_def sm_EAP_DISCARD_Enter_def sm_EAP_SEND_REQUEST_Enter_def send_request_def
  sm_EAP_TIMEOUT_FAILURE_Enter_def sm_EAP_FAILURE_Enter_def eap_sm_buildFailure_def sm_EAP_SUCCESS_Enter_def
  eap_sm_buildSuccess_def sm_EAP_INITIALIZE_PASSTHROUGH_Enter_def sm_EAP_IDLE2_Enter_def sm_EAP_RETRANSMIT2_Enter_def
  sm_EAP_DISCARD2_Enter_def sm_EAP_SEND_REQUEST2_Enter_def sm_EAP_AAA_REQUEST_Enter_def take_aaa_req_def
  sm_EAP_AAA_RESPONSE_Enter_def sm_EAP_AAA_IDLE_Enter_def sm_EAP_TIMEOUT_FAILURE2_Enter_def sm_EAP_FAILURE2_Enter_def
  sm_EAP_SUCCESS2_Enter_def alloc_eq Let_def split_beta

lemma parse_fields [simp]:
  "EAP_state (eap_sm_parseEapResp r s) = EAP_state s" "eif (eap_sm_parseEapResp r s) = eif s"
  "share (eap_sm_parseEapResp r s) = share s" "eap_m (eap_sm_parseEapResp r s) = eap_m s"
  "eap_method_priv (eap_sm_parseEapResp r s) = eap_method_priv s" "eap_changed (eap_sm_parseEapResp r s) = eap_changed s"
  "num_rounds (eap_sm_parseEapResp r s) = num_rounds s" "num_rounds_short (eap_sm_parseEapResp r s) = num_rounds_short s"
  "currentMethod (eap_sm_parseEapResp r s) = currentMethod s" "erp_keys (eap_sm_parseEapResp r s) = erp_keys s"
  by (auto simp: eap_sm_parseEapResp_def Let_def split: option.split)

text \<open>What every plain state function leaves alone, and how far its state is from waiting.\<close>

definition keeps :: "('p, 'w) eap_sm \<Rightarrow> ('p, 'w) eap_sm \<Rightarrow> bool" where
  "keeps s s' \<longleftrightarrow> eap_m s' = eap_m s \<and> eap_method_priv s' = eap_method_priv s \<and> num_rounds s' = num_rounds s \<and>
     num_rounds_short s' \<in> {0, num_rounds_short s} \<and> eapRestart (eif s') = eapRestart (eif s) \<and>
     portEnabled (eif s') = portEnabled (eif s)"

lemma keeps_plain:
  "keeps s (sm_EAP_IDLE_Enter g s)" "keeps s (sm_EAP_RETRANSMIT_Enter env g s)" "keeps s (sm_EAP_DISCARD_Enter g s)"
  "keeps s (sm_EAP_SEND_REQUEST_Enter env g s)" "keeps s (sm_EAP_TIMEOUT_FAILURE_Enter g s)"
  "keeps s (sm_EAP_FAILURE_Enter env g s)" "keeps s (sm_EAP_SUCCESS_Enter env g s)"
  "keeps s (sm_EAP_INITIALIZE_PASSTHROUGH_Enter g s)" "keeps s (sm_EAP_IDLE2_Enter g s)"
  "keeps s (sm_EAP_RETRANSMIT2_Enter env g s)" "keeps s (sm_EAP_RECEIVED2_Enter g s)" "keeps s (sm_EAP_DISCARD2_Enter g s)"
  "keeps s (sm_EAP_SEND_REQUEST2_Enter env g s)" "keeps s (sm_EAP_AAA_REQUEST_Enter env g s)"
  "keeps s (sm_EAP_AAA_RESPONSE_Enter env g s)" "keeps s (sm_EAP_AAA_IDLE_Enter g s)"
  "keeps s (sm_EAP_TIMEOUT_FAILURE2_Enter g s)" "keeps s (sm_EAP_FAILURE2_Enter env g s)" "keeps s (sm_EAP_SUCCESS2_Enter env g s)"
  by (simp_all add: keeps_def plain_enter sm_EAP_RECEIVED2_Enter_def split: option.split)

lemma plain_state [simp]:
  "EAP_state (sm_EAP_IDLE_Enter g s) = EAP_IDLE" "EAP_state (sm_EAP_RETRANSMIT_Enter env g s) = EAP_RETRANSMIT"
  "EAP_state (sm_EAP_DISCARD_Enter g s) = EAP_DISCARD" "EAP_state (sm_EAP_SEND_REQUEST_Enter env g s) = EAP_SEND_REQUEST"
  "EAP_state (sm_EAP_TIMEOUT_FAILURE_Enter g s) = EAP_TIMEOUT_FAILURE" "EAP_state (sm_EAP_FAILURE_Enter env g s) = EAP_FAILURE"
  "EAP_state (sm_EAP_SUCCESS_Enter env g s) = EAP_SUCCESS"
  "EAP_state (sm_EAP_INITIALIZE_PASSTHROUGH_Enter g s) = EAP_INITIALIZE_PASSTHROUGH"
  "EAP_state (sm_EAP_IDLE2_Enter g s) = EAP_IDLE2" "EAP_state (sm_EAP_RETRANSMIT2_Enter env g s) = EAP_RETRANSMIT2"
  "EAP_state (sm_EAP_RECEIVED2_Enter g s) = EAP_RECEIVED2" "EAP_state (sm_EAP_DISCARD2_Enter g s) = EAP_DISCARD2"
  "EAP_state (sm_EAP_SEND_REQUEST2_Enter env g s) = EAP_SEND_REQUEST2" "EAP_state (sm_EAP_AAA_REQUEST_Enter env g s) = EAP_AAA_REQUEST"
  "EAP_state (sm_EAP_AAA_RESPONSE_Enter env g s) = EAP_AAA_RESPONSE" "EAP_state (sm_EAP_AAA_IDLE_Enter g s) = EAP_AAA_IDLE"
  "EAP_state (sm_EAP_TIMEOUT_FAILURE2_Enter g s) = EAP_TIMEOUT_FAILURE2" "EAP_state (sm_EAP_FAILURE2_Enter env g s) = EAP_FAILURE2"
  "EAP_state (sm_EAP_SUCCESS2_Enter env g s) = EAP_SUCCESS2"
  by (simp_all add: plain_enter sm_EAP_RECEIVED2_Enter_def split: option.split)

lemma plain_interface [simp]:
  "eapResp (eif (sm_EAP_IDLE_Enter g s)) = eapResp (eif s)" "retransWhile (eif (sm_EAP_IDLE_Enter g s)) \<noteq> 0"
  "eapResp (eif (sm_EAP_RETRANSMIT_Enter env g s)) = eapResp (eif s)" "\<not> eapResp (eif (sm_EAP_DISCARD_Enter g s))"
  "\<not> eapResp (eif (sm_EAP_SEND_REQUEST_Enter env g s))"
  "eapResp (eif (sm_EAP_IDLE2_Enter g s)) = eapResp (eif s)" "retransWhile (eif (sm_EAP_IDLE2_Enter g s)) \<noteq> 0"
  "eapResp (eif (sm_EAP_RETRANSMIT2_Enter env g s)) = eapResp (eif s)" "\<not> eapResp (eif (sm_EAP_DISCARD2_Enter g s))"
  "\<not> eapResp (eif (sm_EAP_SEND_REQUEST2_Enter env g s))"
  "\<not> aaaFail (eif (sm_EAP_AAA_IDLE_Enter g s))" "\<not> aaaSuccess (eif (sm_EAP_AAA_IDLE_Enter g s))"
  "\<not> aaaEapReq (eif (sm_EAP_AAA_IDLE_Enter g s))"
  by (simp_all add: plain_enter split: option.split)

lemma plain_rank:
  "st_rank env (sm_EAP_IDLE_Enter g s) = (if eapResp (eif s) then 10 else 0)"
  "st_rank env (sm_EAP_RETRANSMIT_Enter e g s) = (if eapResp (eif s) then 11 else 1)"
  "st_rank env (sm_EAP_DISCARD_Enter g s) = 1" "st_rank env (sm_EAP_SEND_REQUEST_Enter e g s) = 1"
  "st_rank env (sm_EAP_TIMEOUT_FAILURE_Enter g s) = 0" "st_rank env (sm_EAP_FAILURE_Enter e g s) = 0"
  "st_rank env (sm_EAP_SUCCESS_Enter e g s) = 0" "st_rank env (sm_EAP_INITIALIZE_PASSTHROUGH_Enter g s) = 3"
  "st_rank env (sm_EAP_IDLE2_Enter g s) = (if eapResp (eif s) then 4 else 0)"
  "st_rank env (sm_EAP_RETRANSMIT2_Enter e g s) = (if eapResp (eif s) then 5 else 1)"
  "st_rank env (sm_EAP_RECEIVED2_Enter g s) = 3" "st_rank env (sm_EAP_DISCARD2_Enter g s) = 1"
  "st_rank env (sm_EAP_SEND_REQUEST2_Enter e g s) = 1" "st_rank env (sm_EAP_AAA_REQUEST_Enter e g s) = 2"
  "st_rank env (sm_EAP_AAA_RESPONSE_Enter e g s) = 2" "st_rank env (sm_EAP_AAA_IDLE_Enter g s) \<le> 1"
  "st_rank env (sm_EAP_TIMEOUT_FAILURE2_Enter g s) = 0" "st_rank env (sm_EAP_FAILURE2_Enter e g s) = 0"
  "st_rank env (sm_EAP_SUCCESS2_Enter e g s) = 0"
  by (simp_all add: st_rank_def Let_def)

text \<open>A good step keeps the invariant and, if it moves, comes closer to waiting.\<close>

definition good_step :: "('p, 'w) eap_env \<Rightarrow> (('p, 'w) eap_method \<Rightarrow> bytes \<Rightarrow> bool) \<Rightarrow> ('p, 'w) eap_sm \<Rightarrow> ('p, 'w) eap_sm \<Rightarrow> bool" where
  "good_step env accepts s s' \<longleftrightarrow> eap_inv env accepts s' \<and> (eap_changed s' \<longrightarrow> rank env s' < rank env s)"

lemma good_same: "eap_inv env accepts s \<Longrightarrow> \<not> eap_changed s \<Longrightarrow> good_step env accepts s s"
  by (simp add: good_step_def)

lemma good_plain:
  assumes "keeps s s'" and "calm env s" and "eap_inv env accepts s"
    and "EAP_state s' \<in> waiting_states \<longrightarrow> eap_m s \<noteq> None"
    and "EAP_state s' \<notin> {EAP_INITIALIZE, EAP_INTEGRITY_CHECK, EAP_METHOD_RESPONSE, EAP_PICK_UP_METHOD, EAP_INITIATE_REAUTH_START, EAP_SELECT_ACTION}"
    and "st_rank env s' < st_rank env s"
  shows "good_step env accepts s s'"
proof -
  have "calm env s'" using assms(1,2) by (auto simp: keeps_def calm_def)
  then have "rank env s' < rank env s" using assms(2,6) by (simp add: rank_calm)
  then show ?thesis using assms by (auto simp: good_step_def eap_inv_def method_inv_def keeps_def)
qed

lemma keeps_trans: "keeps a b \<Longrightarrow> keeps b c \<Longrightarrow> keeps a c"
  by (auto simp: keeps_def)

lemma plain_steps:
  assumes c: "calm env s" and i: "eap_inv env accepts s" and nc: "\<not> eap_changed s"
    and sw: "sm_EAP_switch env s = Some s'"
    and st: "EAP_state s \<in> {EAP_RETRANSMIT, EAP_DISCARD, EAP_SEND_REQUEST, EAP_METHOD_REQUEST, EAP_TIMEOUT_FAILURE,
      EAP_FAILURE, EAP_SUCCESS, EAP_INITIALIZE_PASSTHROUGH, EAP_IDLE2, EAP_RETRANSMIT2, EAP_RECEIVED2, EAP_DISCARD2,
      EAP_SEND_REQUEST2, EAP_AAA_REQUEST, EAP_AAA_RESPONSE, EAP_AAA_IDLE, EAP_TIMEOUT_FAILURE2, EAP_FAILURE2, EAP_SUCCESS2}"
  shows "good_step env accepts s s'"
proof -
  have m: "eap_m s \<noteq> None" if "EAP_state s \<in> waiting_states" using i that by (simp add: eap_inv_def)
  note good = good_plain [OF _ c i]
  have plain: "good_step env accepts s s'" if "s' \<noteq> s"
  proof (cases "EAP_state s")
    case EAP_METHOD_REQUEST
    have "keeps s (sm_EAP_FAILURE_Enter env False (sm_EAP_SEND_REQUEST_Enter env False s))"
      using keeps_trans keeps_plain(4,6) by blast
    then show ?thesis
      using sw EAP_METHOD_REQUEST
      by (auto simp: sm_EAP_switch_def leave_METHOD_REQUEST_def Let_def waiting_states_def plain_rank st_rank_def [of env s]
          Option.is_none_def keeps_plain intro!: good split: if_splits)
  next
    case EAP_AAA_REQUEST
    then show ?thesis using sw plain_rank(16) [of env False s]
      by (auto simp: sm_EAP_switch_def waiting_states_def st_rank_def [of env s] keeps_plain intro!: good)
  next
    case EAP_INITIALIZE_PASSTHROUGH
    then show ?thesis using sw plain_rank(16) [of env False s]
      by (auto simp: sm_EAP_switch_def waiting_states_def st_rank_def [of env s] plain_rank keeps_plain intro!: good split: if_splits)
  qed (use sw st m that in \<open>auto simp: sm_EAP_switch_def waiting_states_def plain_rank st_rank_def [of env s] Let_def keeps_plain
      intro!: good split: if_splits\<close>)
  show ?thesis using plain good_same [OF i nc] by blast
qed

lemma similar_calm: "similar s t \<Longrightarrow> calm env s \<longleftrightarrow> calm env t"
  using rest_if_fields [of "eif s" "eif t"] by (auto simp: similar_def core_def calm_def)

lemma good_hard:
  "calm env s \<Longrightarrow> eap_inv env accepts s' \<Longrightarrow> calm env s' \<Longrightarrow> st_rank env s' < st_rank env s \<Longrightarrow> good_step env accepts s s'"
  by (simp add: good_step_def rank_calm)

lemma method_inv_no_method: "eap_m s = None \<Longrightarrow> eap_method_priv s = None \<Longrightarrow> method_inv env s"
  by (simp add: method_inv_def)

lemma calm_entry [simp]: "calm env (eap_entry g st s) = calm env s" "calm env ((eap_entry g st s)\<lparr>try_initiate_reauth := b\<rparr>) = calm env s"
  by (simp_all add: calm_def)

text \<open>The state functions that choose or run a method, as steps: they succeed, and their state is near enough to waiting.\<close>

definition reaches :: "('p, 'w) eap_env \<Rightarrow> (('p, 'w) eap_method \<Rightarrow> bytes \<Rightarrow> bool) \<Rightarrow> nat \<Rightarrow> ('p, 'w) eap_sm option \<Rightarrow> bool" where
  "reaches env accepts n r \<longleftrightarrow> (\<exists>s'. r = Some s' \<and> eap_inv env accepts s' \<and> calm env s' \<and> st_rank env s' \<le> n)"

lemma reaches_good: "calm env s \<Longrightarrow> reaches env accepts n r \<Longrightarrow> n < st_rank env s \<Longrightarrow> \<exists>s'. r = Some s' \<and> good_step env accepts s s'"
  by (auto simp: reaches_def intro!: good_hard)

lemma st_ranks:
  "EAP_state s = EAP_SELECT_ACTION \<Longrightarrow> st_rank env s = 5" "EAP_state s = EAP_NAK \<Longrightarrow> st_rank env s = 6"
  "EAP_state s = EAP_INTEGRITY_CHECK \<Longrightarrow> st_rank env s = 8" "EAP_state s = EAP_METHOD_REQUEST \<Longrightarrow> st_rank env s = 2"
  "EAP_state s = EAP_RECEIVED \<Longrightarrow> st_rank env s = 9" "EAP_state s = EAP_PICK_UP_METHOD \<Longrightarrow> st_rank env s = 8"
  "EAP_state s = EAP_INITIALIZE \<Longrightarrow> st_rank env s = 9" "EAP_state s = EAP_DISABLED \<Longrightarrow> st_rank env s = 10"
  "EAP_state s = EAP_METHOD_RESPONSE \<Longrightarrow> st_rank env s = (if method_pending (share s) = METHOD_PENDING_CONT then 7 else 6)"
  "EAP_state s = EAP_PROPOSE_METHOD \<Longrightarrow> st_rank env s = (if method_pending (share s) = METHOD_PENDING_CONT then 4 else 3)"
  "EAP_state s = EAP_INITIATE_RECEIVED \<Longrightarrow> st_rank env s = (if eap_server (cfg env) then 0 else 6)"
  by (simp_all add: st_rank_def Let_def)

lemma reaches_intro:
  assumes "method_inv env s'" and "calm env s'" and "st_rank env s' \<le> n"
    and "EAP_state s' \<notin> waiting_states" and "EAP_state s' \<notin> {EAP_INITIALIZE, EAP_PICK_UP_METHOD, EAP_INITIATE_REAUTH_START, EAP_SELECT_ACTION}"
  shows "reaches env accepts n (Some s')"
  using assms by (auto simp: reaches_def eap_inv_def waiting_states_def)

lemma reaches_SELECT:
  assumes "calm env s" and "method_inv env s" and "\<not> get_erp_send_reauth_start env"
  shows "reaches env accepts 5 (sm_EAP_SELECT_ACTION_Enter env g s)"
proof -
  from SELECT_ACTION_total [OF assms(2,3)] obtain s' where s': "sm_EAP_SELECT_ACTION_Enter env g s = Some s'"
    "method_inv env s'" "decision s' \<noteq> DECISION_INITIATE_REAUTH_START" by blast
  have c: "core s' = core (eap_entry g EAP_SELECT_ACTION s)" using s'(1) by (rule core_SELECT_ACTION)
  then have "EAP_state s' = EAP_SELECT_ACTION" by (simp add: core_def)
  then show ?thesis
    using s' similar_calm [OF core_similar [OF c]] assms(1)
    by (auto simp: reaches_def eap_inv_def waiting_states_def st_ranks)
qed

lemma reaches_NAK:
  assumes "calm env s" and "method_inv env s"
  shows "reaches env accepts 6 (sm_EAP_NAK_Enter g s)"
proof -
  from NAK_total [OF assms(2)] obtain s' where s': "sm_EAP_NAK_Enter g s = Some s'" "eap_m s' = None" "eap_method_priv s' = None"
    by blast
  have c: "core s' = core (eap_entry g EAP_NAK s)" using s'(1) by (rule core_NAK)
  then have "EAP_state s' = EAP_NAK" by (simp add: core_def)
  then show ?thesis
    using s' similar_calm [OF core_similar [OF c]] assms(1)
    by (auto simp: method_inv_def waiting_states_def st_ranks intro!: reaches_intro)
qed

lemma reaches_INITIATE_RECEIVED:
  assumes "calm env s" and "method_inv env s"
  shows "reaches env accepts (if eap_server (cfg env) then 0 else 6) (sm_EAP_INITIATE_RECEIVED_Enter env g s)"
proof -
  from INITIATE_RECEIVED_total [OF assms(2)] obtain s' where s': "sm_EAP_INITIATE_RECEIVED_Enter env g s = Some s'" "method_inv env s'"
    by blast
  note c = similar_INITIATE_RECEIVED [OF s'(1)]
  then have "calm env s'" using assms(1) rest_if_fields [of "eif s'" "eif s"] by (auto simp: calm_def)
  then show ?thesis
    using s' c by (auto simp: waiting_states_def st_ranks intro!: reaches_intro)
qed

lemma reaches_METHOD_REQUEST:
  assumes "calm env s" and "method_inv env s"
  shows "reaches env accepts 2 (sm_EAP_METHOD_REQUEST_Enter env g s)"
proof (cases "eap_m s")
  case None
  then show ?thesis using assms
    by (auto simp: sm_EAP_METHOD_REQUEST_Enter_def method_inv_def waiting_states_def st_ranks intro!: reaches_intro)
next
  case (Some x)
  then obtain p where p: "eap_method_priv s = Some p" using assms(2) by (auto simp: method_inv_def)
  define t where "t = eap_entry g EAP_METHOD_REQUEST s"
  obtain cid u where u: "eap_sm_nextId env (currentId t) t = (cid, u)" by force
  then have uf: "eap_m u = eap_m s" "eap_method_priv u = eap_method_priv s" "eif u = eif s" "num_rounds u = num_rounds s"
    "num_rounds_short u = num_rounds_short s" "EAP_state u = EAP_METHOD_REQUEST"
    by (auto simp: eap_sm_nextId_def t_def split_beta Let_def split: if_splits)
  obtain d q sh where b: "m_buildReq x p (word_of_int cid) (share u) = (d, q, sh)" using prod_cases3 by blast
  have r: "\<exists>n. sm_EAP_METHOD_REQUEST_Enter env g s =
      Some (u\<lparr>currentId := cid, lastId := cid, eap_method_priv := Some q, share := sh, eif := (eif s)\<lparr>eapReqData := d\<rparr>, methodTimeout := n\<rparr>)"
    using Some p u b uf by (auto simp: sm_EAP_METHOD_REQUEST_Enter_def t_def Let_def)
  then show ?thesis using assms uf Some
    by (auto simp: method_inv_def waiting_states_def st_ranks calm_def intro!: reaches_intro)
qed

lemma reaches_INTEGRITY_CHECK:
  assumes "calm env s" and "eap_m s = Some x" and "eap_method_priv s = Some p" and "x \<in> set (eap_methods env)"
    and "\<And>check b sh. m_check x = Some check \<Longrightarrow> \<not> check p b sh \<Longrightarrow> eap_hdr_len_valid (Some b) 1 \<Longrightarrow> accepts x b"
    and "m_check x \<noteq> None"
  shows "reaches env accepts 8 (sm_EAP_INTEGRITY_CHECK_Enter g s)"
proof -
  obtain check where c: "m_check x = Some check" using assms(6) by blast
  define b where "b = (eap_hdr_len_valid (eapRespData (eif s)) 1 \<longrightarrow> check p (the (eapRespData (eif s))) (share s))"
  have e: "sm_EAP_INTEGRITY_CHECK_Enter g s = Some ((eap_entry g EAP_INTEGRITY_CHECK s)\<lparr>ignore := b\<rparr>)"
    using assms(2,3) c by (simp add: sm_EAP_INTEGRITY_CHECK_Enter_def b_def Let_def)
  have f: "frame_ok accepts s" if "\<not> b"
    using that assms(2) assms(5) [OF c] by (cases "eapRespData (eif s)") (auto simp: b_def frame_ok_def eap_hdr_len_valid_def)
  let ?s = "(eap_entry g EAP_INTEGRITY_CHECK s)\<lparr>ignore := b\<rparr>"
  have "method_inv env ?s" "calm env ?s" "frame_ok accepts ?s = frame_ok accepts s"
    using assms(1-4) by (simp_all add: method_inv_def calm_def frame_ok_def)
  then show ?thesis
    using e f assms(2) by (auto simp: reaches_def eap_inv_def st_ranks)
qed

context eap_method_contract
begin

lemma reaches_PROPOSE:
  assumes "calm env s" and "method_inv env s"
  shows "reaches env accepts (if method_pending (share s) = METHOD_PENDING_CONT then 4 else 3) (sm_EAP_PROPOSE_METHOD_Enter env g s)"
proof -
  from PROPOSE_total [OF assms(2), of g] obtain s' where s': "sm_EAP_PROPOSE_METHOD_Enter env g s = Some s'" "method_inv env s'"
    "no_resume (share s) (share s')" by blast
  have c: "core s' = core ((eap_entry g EAP_PROPOSE_METHOD s)\<lparr>try_initiate_reauth := False\<rparr>)" using s'(1) by (rule core_PROPOSE)
  then have "EAP_state s' = EAP_PROPOSE_METHOD" by (simp add: core_def)
  then show ?thesis
    using s' similar_calm [OF core_similar [OF c]] assms(1)
    by (auto simp: waiting_states_def st_ranks no_resume_def intro!: reaches_intro)
qed

lemma reaches_METHOD_RESPONSE:
  assumes "calm env s" and "method_inv env s" and "eap_m s \<noteq> None" and "frame_ok accepts s"
  shows "reaches env accepts (if method_pending (share s) = METHOD_PENDING_CONT then 7 else 6) (sm_EAP_METHOD_RESPONSE_Enter env g s)"
proof -
  obtain x where x: "eap_m s = Some x" using assms(3) by blast
  have "eap_hdr_len_valid (eapRespData (eif s)) 1 \<Longrightarrow> accepts x (the (eapRespData (eif s)))"
    using assms(4) x by (simp add: frame_ok_def)
  from METHOD_RESPONSE_total [OF assms(2) x this, of g] obtain s' where s': "sm_EAP_METHOD_RESPONSE_Enter env g s = Some s'"
    "method_inv env s'" "eap_m s' = Some x" "no_resume (share s) (share s')" by blast
  note c = conjunct1 [OF similar_METHOD_RESPONSE [OF s'(1)]]
  then have st: "EAP_state s' = EAP_METHOD_RESPONSE" by (simp add: similar_def core_def)
  have "rest_if (eif s') = rest_if (eif s)" using c by (simp add: similar_def core_def)
  from rest_if_fields(2) [OF this] have "frame_ok accepts s'" using assms(4) x s'(3) by (simp add: frame_ok_def)
  then show ?thesis
    using s' st similar_calm [OF c] assms(1)
    by (auto simp: reaches_def eap_inv_def st_ranks no_resume_def)
qed

end


lemma RECEIVED_facts:
  "EAP_state (sm_EAP_RECEIVED_Enter g s) = EAP_RECEIVED" "eap_m (sm_EAP_RECEIVED_Enter g s) = eap_m s"
  "eap_method_priv (sm_EAP_RECEIVED_Enter g s) = eap_method_priv s" "eif (sm_EAP_RECEIVED_Enter g s) = eif s"
  by (simp_all add: sm_EAP_RECEIVED_Enter_def Let_def)

lemma INITIALIZE_facts:
  "EAP_state (sm_EAP_INITIALIZE_Enter env g s) = EAP_INITIALIZE" "eap_m (sm_EAP_INITIALIZE_Enter env g s) = None"
  "num_rounds (sm_EAP_INITIALIZE_Enter env g s) = 0" "num_rounds_short (sm_EAP_INITIALIZE_Enter env g s) = 0"
  "\<not> eapRestart (eif (sm_EAP_INITIALIZE_Enter env g s))"
  "portEnabled (eif (sm_EAP_INITIALIZE_Enter env g s)) = portEnabled (eif s)"
proof -
  have r: "EAP_state (reset_method t) = EAP_state t" "eif (reset_method t) = eif t" for t :: "('a, 'b) eap_sm"
    using core_reset [of t] by (simp_all add: core_def)
  show "EAP_state (sm_EAP_INITIALIZE_Enter env g s) = EAP_INITIALIZE" "eap_m (sm_EAP_INITIALIZE_Enter env g s) = None"
    "num_rounds (sm_EAP_INITIALIZE_Enter env g s) = 0" "num_rounds_short (sm_EAP_INITIALIZE_Enter env g s) = 0"
    "\<not> eapRestart (eif (sm_EAP_INITIALIZE_Enter env g s))"
    "portEnabled (eif (sm_EAP_INITIALIZE_Enter env g s)) = portEnabled (eif s)"
    by (simp_all add: sm_EAP_INITIALIZE_Enter_def Let_def r)
qed

lemma INITIALIZE_method: "backend_auth (cfg env) \<Longrightarrow> currentMethod (sm_EAP_INITIALIZE_Enter env g s) = EAP_TYPE_NONE"
  by (simp add: sm_EAP_INITIALIZE_Enter_def Let_def)

lemma INITIALIZE_priv:
  assumes "method_inv env s"
  shows "eap_method_priv (sm_EAP_INITIALIZE_Enter env g s) = None"
  using assms by (simp add: sm_EAP_INITIALIZE_Enter_def Let_def reset_method_def method_inv_def split: option.split)

lemma INITIALIZE_inv:
  assumes "method_inv env s"
  shows "eap_inv env accepts (sm_EAP_INITIALIZE_Enter env g s)"
    and "portEnabled (eif s) \<Longrightarrow> rank env (sm_EAP_INITIALIZE_Enter env g s) = 9"
  using INITIALIZE_facts [of env g s] INITIALIZE_priv [OF assms] INITIALIZE_method [of env g s]
  by (simp_all add: eap_inv_def method_inv_def waiting_states_def rank_def st_ranks)

lemma global_steps:
  assumes "\<not> calm env s" and i: "eap_inv env accepts s" and "\<not> eap_changed s"
  shows "\<exists>s'. sm_EAP_Step env s = Some s' \<and> good_step env accepts s s'"
proof -
  have m: "method_inv env s" using i by (simp add: eap_inv_def)
  have failure: "eap_inv env accepts (sm_EAP_FAILURE_Enter env True t) \<and> rank env (sm_EAP_FAILURE_Enter env True t) = 0 \<and>
      (eap_changed (sm_EAP_FAILURE_Enter env True t) \<longrightarrow> EAP_state t \<noteq> EAP_FAILURE)"
    if "method_inv env t" "\<not> eap_changed t" "portEnabled (eif t)" "\<not> eapRestart (eif t)" for t :: "('a, 'b) eap_sm"
    using that keeps_plain(6) [of t env True] plain_rank(6) [of env env True t]
    by (simp add: eap_inv_def method_inv_def waiting_states_def rank_def keeps_def)
      (simp add: plain_enter)
  consider (restart) "eapRestart (eif s)" "portEnabled (eif s)" | (off) "\<not> portEnabled (eif s)"
    | (rounds) "portEnabled (eif s)" "\<not> eapRestart (eif s)" "num_rounds s > max_auth_rounds (cfg env)"
    | (short) "portEnabled (eif s)" "\<not> eapRestart (eif s)" "\<not> num_rounds s > max_auth_rounds (cfg env)"
        "num_rounds_short s > max_auth_rounds_short (cfg env)"
    using assms(1) by (auto simp: calm_def)
  then show ?thesis
  proof cases
    case restart
    then show ?thesis
      using INITIALIZE_inv(1) [OF m, of accepts True] INITIALIZE_inv(2) [OF m, of True] by (simp add: sm_EAP_Step_def good_step_def rank_def [of env s])
  next
    case off
    then show ?thesis using m
      by (simp add: sm_EAP_Step_def good_step_def sm_EAP_DISABLED_Enter_def eap_inv_def method_inv_def waiting_states_def
          rank_def assms(3))
  next
    case rounds
    then show ?thesis
      using failure [of "s\<lparr>num_rounds := num_rounds s + 1\<rparr>"] m assms(3) good_same [OF i]
      by (auto simp: sm_EAP_Step_def good_step_def rank_def [of env s] method_inv_def)
  next
    case short
    then show ?thesis
      using failure [of "s\<lparr>num_rounds_short := num_rounds_short s + 1\<rparr>"] m assms(3) good_same [OF i]
      by (auto simp: sm_EAP_Step_def good_step_def rank_def [of env s] method_inv_def)
  qed
qed


context eap_method_contract
begin

lemma PICK_UP_reaches:
  assumes c: "calm env s" and m: "method_inv env s" and cm: "currentMethod s = EAP_TYPE_NONE"
  shows "reaches env accepts 8 (Some (sm_EAP_PICK_UP_METHOD_Enter env g s))"
proof -
  let ?s = "sm_EAP_PICK_UP_METHOD_Enter env g s"
  define t where "t = reset_method ((eap_entry g EAP_PICK_UP_METHOD s)\<lparr>currentMethod := respMethod s\<rparr>)"
  have "method_inv env ((eap_entry g EAP_PICK_UP_METHOD s)\<lparr>currentMethod := respMethod s\<rparr>)" using m by (simp add: method_inv_def)
  from reset_selected(1) [OF this] have tp: "eap_method_priv t = None" by (simp add: t_def)
  have tc: "EAP_state t = EAP_PICK_UP_METHOD" "calm env t"
    using core_reset [of "(eap_entry g EAP_PICK_UP_METHOD s)\<lparr>currentMethod := respMethod s\<rparr>"] c by (simp_all add: core_def t_def calm_def)
  have "EAP_state ?s = EAP_PICK_UP_METHOD \<and> calm env ?s \<and> method_inv env ?s \<and>
      (currentMethod ?s \<noteq> EAP_TYPE_NONE \<longrightarrow> (\<exists>x. eap_m ?s = Some x \<and> m_initPickUp x \<noteq> None))"
  proof (cases "eap_sm_Policy_doPickUp (respMethod s)")
    case False
    then show ?thesis using c m cm by (simp add: sm_EAP_PICK_UP_METHOD_Enter_def method_inv_def)
  next
    case True
    define x where "x = eap_server_get_eap_method env EAP_VENDOR_IETF (currentMethod t)"
    have u: "?s = (case Option.bind x m_initPickUp of
        Some pick \<Rightarrow> (let (p, sh) = pick (share t); s = t\<lparr>eap_m := x, share := sh, eap_method_priv := p\<rparr>
          in if Option.is_none p then s\<lparr>eap_m := None, currentMethod := EAP_TYPE_NONE\<rparr> else s)
      | None \<Rightarrow> t\<lparr>eap_m := None, currentMethod := EAP_TYPE_NONE\<rparr>)"
      using True by (simp add: sm_EAP_PICK_UP_METHOD_Enter_def t_def x_def Let_def split: option.split)
    show ?thesis
      unfolding u using tp tc found_registered [of EAP_VENDOR_IETF "currentMethod t"]
      by (auto simp: x_def [symmetric] split_beta Let_def calm_def method_inv_def Option.is_none_def bind_eq_Some_conv split: option.split)
  qed
  then show ?thesis by (auto simp: reaches_def eap_inv_def waiting_states_def st_ranks)
qed

lemma calm_steps:
  assumes c: "calm env s" and i: "eap_inv env accepts s" and nc: "\<not> eap_changed s" and ns: "\<not> get_erp_send_reauth_start env"
  shows "\<exists>s'. sm_EAP_switch env s = Some s' \<and> good_step env accepts s s'"
proof -
  have m: "method_inv env s" using i by (simp add: eap_inv_def)
  have w: "\<exists>x p. eap_m s = Some x \<and> eap_method_priv s = Some p \<and> x \<in> set (eap_methods env)" if "EAP_state s \<in> waiting_states"
    using i that by (auto simp: eap_inv_def method_inv_def)
  note good = reaches_good [OF c]
  show ?thesis
  proof (cases "EAP_state s")
    case EAP_NAK
    then show ?thesis using good [OF reaches_SELECT [OF c m ns]] by (simp add: sm_EAP_switch_def st_ranks)
  next
    case EAP_INITIATE_RECEIVED
    then show ?thesis
      using good [OF reaches_SELECT [OF c m ns]] good_same [OF i nc] by (simp add: sm_EAP_switch_def st_ranks)
  next
    case EAP_RECEIVED
    then obtain x p where x: "eap_m s = Some x" "eap_method_priv s = Some p" "x \<in> set (eap_methods env)"
      using w by (auto simp: waiting_states_def)
    have ic: "reaches env accepts 8 (sm_EAP_INTEGRITY_CHECK_Enter False s)"
      by (rule reaches_INTEGRITY_CHECK [OF c x]) (use check_accepts [OF x(3)] check_present [OF x(3)] in blast)+
    have "keeps s (sm_EAP_DISCARD_Enter False s)" by (rule keeps_plain)
    then have "good_step env accepts s (sm_EAP_DISCARD_Enter False s)"
      using EAP_RECEIVED x by (intro good_plain [OF _ c i]) (simp_all add: plain_rank st_ranks)
    then show ?thesis
      using EAP_RECEIVED good [OF reaches_NAK [OF c m]] good [OF reaches_INITIATE_RECEIVED [OF c m]]
        good [OF ic]
      by (simp add: sm_EAP_switch_def st_ranks)
  next
    case EAP_INTEGRITY_CHECK
    then obtain x p where x: "eap_m s = Some x" "eap_method_priv s = Some p" "x \<in> set (eap_methods env)"
      using w by (auto simp: waiting_states_def)
    have "keeps s (sm_EAP_DISCARD_Enter False s)" by (rule keeps_plain)
    then have d: "good_step env accepts s (sm_EAP_DISCARD_Enter False s)"
      using EAP_INTEGRITY_CHECK x by (intro good_plain [OF _ c i]) (simp_all add: plain_rank st_ranks)
    have "\<exists>s'. sm_EAP_METHOD_RESPONSE_Enter env False s = Some s' \<and> good_step env accepts s s'" if "\<not> ignore s"
      using good [OF reaches_METHOD_RESPONSE [OF c m]] that i x EAP_INTEGRITY_CHECK by (simp add: eap_inv_def st_ranks)
    then show ?thesis using d EAP_INTEGRITY_CHECK by (simp add: sm_EAP_switch_def)
  next
    case EAP_METHOD_RESPONSE
    let ?s = "upd_share (\<lambda>sh. sh\<lparr>method_pending := METHOD_PENDING_NONE\<rparr>) s"
    have q: "calm env ?s" "method_inv env ?s" "frame_ok accepts ?s = frame_ok accepts s" "eap_m ?s = eap_m s"
      using c m by (simp_all add: calm_def method_inv_def frame_ok_def)
    have "\<exists>s'. sm_EAP_METHOD_RESPONSE_Enter env False ?s = Some s' \<and> good_step env accepts s s'"
      if "method_pending (share s) = METHOD_PENDING_CONT"
      using good [OF reaches_METHOD_RESPONSE [OF q(1,2)]] that i q(3,4) w EAP_METHOD_RESPONSE
      by (simp add: eap_inv_def st_ranks waiting_states_def)
    then show ?thesis
      using EAP_METHOD_RESPONSE good [OF reaches_SELECT [OF c m ns]] good [OF reaches_METHOD_REQUEST [OF c m]] good_same [OF i nc]
      by (simp add: sm_EAP_switch_def st_ranks split: pending_state.split)
  next
    case EAP_PROPOSE_METHOD
    let ?s = "upd_share (\<lambda>sh. sh\<lparr>method_pending := METHOD_PENDING_NONE\<rparr>) s"
    let ?t = "upd_share (\<lambda>sh. sh\<lparr>user_eap_method_index := user_eap_method_index sh - 1\<rparr>) s"
    have q: "calm env ?s" "method_inv env ?s" using c m by (simp_all add: calm_def method_inv_def)
    have "good_step env accepts s ?t"
      using i nc EAP_PROPOSE_METHOD by (simp add: good_step_def eap_inv_def method_inv_def waiting_states_def)
    then show ?thesis
      using EAP_PROPOSE_METHOD good [OF reaches_PROPOSE [OF q]] good [OF reaches_METHOD_REQUEST [OF c m]]
      by (simp add: sm_EAP_switch_def st_ranks split: pending_state.split)
  next
    case EAP_SELECT_ACTION
    have "\<exists>s'. r = Some s' \<and> good_step env accepts s s'" if "r = Some t" "keeps s t" "st_rank env t < 5" "EAP_state t \<notin> waiting_states"
      "EAP_state t \<notin> {EAP_INITIALIZE, EAP_PICK_UP_METHOD, EAP_INITIATE_REAUTH_START, EAP_SELECT_ACTION}" for r t
      using that good_plain [OF that(2) c i] EAP_SELECT_ACTION by (auto simp: st_ranks waiting_states_def)
    note p = this [OF refl]
    show ?thesis
      using EAP_SELECT_ACTION p [of "sm_EAP_FAILURE_Enter env False s"] p [of "sm_EAP_SUCCESS_Enter env False s"]
        p [of "sm_EAP_INITIALIZE_PASSTHROUGH_Enter False s"] good [OF reaches_INITIATE_RECEIVED [OF c m]]
        good [OF reaches_PROPOSE [OF c m]] i
      by (auto simp: sm_EAP_switch_def st_ranks keeps_plain plain_rank waiting_states_def eap_inv_def split: eap_decision.split)
  next
    case EAP_DISABLED
    then show ?thesis
      using c INITIALIZE_inv(1) [OF m, of accepts False] INITIALIZE_inv(2) [OF m, of False]
      by (simp add: sm_EAP_switch_def good_step_def rank_calm st_ranks) (simp add: calm_def)
  next
    case EAP_IDLE
    let ?s = "s\<lparr>try_initiate_reauth := False\<rparr>"
    have q: "calm env ?s" "method_inv env ?s" using c m by (simp_all add: calm_def method_inv_def)
    have r: "good_step env accepts s (sm_EAP_RETRANSMIT_Enter env False s)" if "retransWhile (eif s) = 0"
      using EAP_IDLE that w by (intro good_plain [OF keeps_plain(2) c i]) (auto simp: plain_rank st_rank_def [of env s] waiting_states_def Let_def)
    have v: "good_step env accepts s (sm_EAP_RECEIVED_Enter False s)" if "eapResp (eif s)"
    proof -
      have "rank env (sm_EAP_RECEIVED_Enter False s) \<le> 9"
        using RECEIVED_facts [of False s] c by (auto simp: rank_def calm_def st_ranks)
      moreover have "rank env s \<ge> 10" using c that EAP_IDLE by (simp add: rank_calm) (simp add: st_rank_def Let_def)
      moreover have "eap_inv env accepts (sm_EAP_RECEIVED_Enter False s)"
        using RECEIVED_facts [of False s] m w EAP_IDLE by (auto simp: eap_inv_def method_inv_def waiting_states_def)
      ultimately show ?thesis by (simp add: good_step_def)
    qed
    show ?thesis
      using EAP_IDLE good [OF reaches_SELECT [OF q ns]] r v good_same [OF i nc]
      by (auto simp: sm_EAP_switch_def st_rank_def [of env s] Let_def)
  next
    case EAP_INITIALIZE
    show ?thesis
      using EAP_INITIALIZE good [OF reaches_SELECT [OF c m ns]] good [OF reaches_NAK [OF c m]] good [OF PICK_UP_reaches [OF c m]] i
      by (simp add: sm_EAP_switch_def st_ranks eap_inv_def)
  next
    case EAP_PICK_UP_METHOD
    have "\<exists>s'. sm_EAP_METHOD_RESPONSE_Enter env False s = Some s' \<and> good_step env accepts s s'" if cm: "currentMethod s \<noteq> EAP_TYPE_NONE"
    proof -
      obtain x where x: "eap_m s = Some x" "m_initPickUp x \<noteq> None"
        using cm i EAP_PICK_UP_METHOD by (auto simp: eap_inv_def)
      have "x \<in> set (eap_methods env)" using x m by (simp add: method_inv_def)
      then have "frame_ok accepts s"
        using x pick_up_accepts by (cases "eapRespData (eif s)") (auto simp: frame_ok_def eap_hdr_len_valid_def)
      then show ?thesis using good [OF reaches_METHOD_RESPONSE [OF c m]] x EAP_PICK_UP_METHOD by (simp add: st_ranks)
    qed
    then show ?thesis
      using EAP_PICK_UP_METHOD good [OF reaches_SELECT [OF c m ns]] by (simp add: sm_EAP_switch_def st_ranks)
  next
    case EAP_INITIATE_REAUTH_START
    then show ?thesis using i by (simp add: eap_inv_def)
  qed (use plain_steps [OF c i nc] in \<open>auto simp: sm_EAP_switch_def\<close>)
qed

end


text \<open>A machine that waits: the step that led here made no transition.\<close>

definition at_rest :: "('p, 'w) eap_env \<Rightarrow> ('p, 'w) eap_sm \<Rightarrow> bool" where
  "at_rest env s' \<longleftrightarrow> (\<exists>s. \<not> eap_changed s \<and> sm_EAP_Step env s = Some s' \<and> \<not> eap_changed s')"

lemma changed_irrelevant [simp]:
  "eap_inv env accepts (s\<lparr>eap_changed := b\<rparr>) = eap_inv env accepts s" "rank env (s\<lparr>eap_changed := b\<rparr>) = rank env s"
  by (simp_all add: eap_inv_def method_inv_def frame_ok_def rank_def st_rank_def)

context eap_method_contract
begin

lemma step_total:
  assumes "eap_inv env accepts s" and "\<not> eap_changed s" and "\<not> get_erp_send_reauth_start env"
  shows "\<exists>s'. sm_EAP_Step env s = Some s' \<and> good_step env accepts s s'"
  using assms global_steps [of env s accepts] calm_steps [of s] by (cases "calm env s") (auto simp: step_calm)

lemma eap_run_total:
  assumes "eap_inv env accepts s" and "\<not> get_erp_send_reauth_start env"
  shows "\<exists>s' r. eap_step_loop env res s = Some (s', r) \<and> eap_inv env accepts s' \<and> at_rest env s'"
  using assms(1)
proof (induction "rank env s" arbitrary: s res rule: less_induct)
  case less
  let ?s = "s\<lparr>eap_changed := False\<rparr>"
  obtain s' where s': "sm_EAP_Step env ?s = Some s'" "good_step env accepts ?s s'"
    using step_total [of ?s] less.prems assms(2) by auto
  show ?case
  proof (cases "eap_changed s'")
    case True
    then have "rank env s' < rank env s" "eap_inv env accepts s'" using s'(2) by (simp_all add: good_step_def)
    from less.hyps [OF this, of True] show ?thesis using s'(1) True by (subst eap_step_loop.simps) simp
  next
    case False
    then have "at_rest env s'" using s'(1) by (auto simp: at_rest_def intro!: exI [of _ ?s])
    then show ?thesis using False s' by (subst eap_step_loop.simps) (simp add: good_step_def)
  qed
qed

end



end
