(* ===== verification/Eap_Success.thy ===== *)
theory Eap_Success
  imports Eap_Server_Props
begin

text \<open>
  What makes the EAP server of \<open>Eap_Server\<close> report success to the authenticator, and what a
  re-authentication message that it accepts proves.
\<close>

section \<open>Runs and invariants\<close>

locale eap_run_invariant =
  fixes env :: "('p, 'w) eap_env" and I :: "('p, 'w) eap_sm \<Rightarrow> bool"
  assumes step_keeps: "I s \<Longrightarrow> sm_EAP_Step env s = Some s' \<Longrightarrow> I s'"
    and flag_keeps: "I s \<Longrightarrow> I (s\<lparr>eap_changed := False\<rparr>)"
begin

lemma loop_keeps: "eap_step_loop env' res s = Some y \<Longrightarrow> env' = env \<Longrightarrow> I s \<Longrightarrow> I (fst y)"
proof (induction env' res s y rule: eap_step_loop.raw_induct [rotated, consumes 1, case_names step])
  case (step loop env' res s y)
  then obtain s' where s': "sm_EAP_Step env (s\<lparr>eap_changed := False\<rparr>) = Some s'" by (auto split: option.splits)
  then have "I s'" using step.prems step_keeps flag_keeps by blast
  then show ?case using step.hyps step.prems step.IH s' by (auto split: if_splits)
qed

lemma run_keeps: "eap_sm_run env s = Some (s', r) \<Longrightarrow> I s \<Longrightarrow> I s'"
  using loop_keeps [of env False s "(s', r)"] by (simp add: eap_sm_run_def)

end

section \<open>Steps that concern success\<close>

lemma plain_success [simp]:
  "eapSuccess (eif (sm_EAP_IDLE_Enter g s)) = eapSuccess (eif s)" "eapSuccess (eif (sm_EAP_RETRANSMIT_Enter env g s)) = eapSuccess (eif s)"
  "eapSuccess (eif (sm_EAP_DISCARD_Enter g s)) = eapSuccess (eif s)" "eapSuccess (eif (sm_EAP_SEND_REQUEST_Enter env g s)) = eapSuccess (eif s)"
  "eapSuccess (eif (sm_EAP_TIMEOUT_FAILURE_Enter g s)) = eapSuccess (eif s)" "eapSuccess (eif (sm_EAP_FAILURE_Enter env g s)) = eapSuccess (eif s)"
  "eapSuccess (eif (sm_EAP_INITIALIZE_PASSTHROUGH_Enter g s)) = eapSuccess (eif s)" "eapSuccess (eif (sm_EAP_IDLE2_Enter g s)) = eapSuccess (eif s)"
  "eapSuccess (eif (sm_EAP_RETRANSMIT2_Enter env g s)) = eapSuccess (eif s)" "eapSuccess (eif (sm_EAP_RECEIVED2_Enter g s)) = eapSuccess (eif s)"
  "eapSuccess (eif (sm_EAP_DISCARD2_Enter g s)) = eapSuccess (eif s)" "eapSuccess (eif (sm_EAP_SEND_REQUEST2_Enter env g s)) = eapSuccess (eif s)"
  "eapSuccess (eif (sm_EAP_AAA_REQUEST_Enter env g s)) = eapSuccess (eif s)" "eapSuccess (eif (sm_EAP_AAA_RESPONSE_Enter env g s)) = eapSuccess (eif s)"
  "eapSuccess (eif (sm_EAP_AAA_IDLE_Enter g s)) = eapSuccess (eif s)" "eapSuccess (eif (sm_EAP_TIMEOUT_FAILURE2_Enter g s)) = eapSuccess (eif s)"
  "eapSuccess (eif (sm_EAP_FAILURE2_Enter env g s)) = eapSuccess (eif s)" "eapSuccess (eif (sm_EAP_RECEIVED_Enter g s)) = eapSuccess (eif s)"
  "eapSuccess (eif (sm_EAP_DISABLED_Enter g s)) = eapSuccess (eif s)"
  by (simp_all add: plain_enter sm_EAP_RECEIVED2_Enter_def sm_EAP_RECEIVED_Enter_def sm_EAP_DISABLED_Enter_def split: option.split)

text \<open>The response of the peer is read only.\<close>

lemma plain_resp [simp]:
  "eapRespData (eif (sm_EAP_IDLE_Enter g s)) = eapRespData (eif s)" "eapRespData (eif (sm_EAP_RETRANSMIT_Enter env g s)) = eapRespData (eif s)"
  "eapRespData (eif (sm_EAP_DISCARD_Enter g s)) = eapRespData (eif s)" "eapRespData (eif (sm_EAP_SEND_REQUEST_Enter env g s)) = eapRespData (eif s)"
  "eapRespData (eif (sm_EAP_TIMEOUT_FAILURE_Enter g s)) = eapRespData (eif s)" "eapRespData (eif (sm_EAP_FAILURE_Enter env g s)) = eapRespData (eif s)"
  "eapRespData (eif (sm_EAP_INITIALIZE_PASSTHROUGH_Enter g s)) = eapRespData (eif s)" "eapRespData (eif (sm_EAP_IDLE2_Enter g s)) = eapRespData (eif s)"
  "eapRespData (eif (sm_EAP_RETRANSMIT2_Enter env g s)) = eapRespData (eif s)" "eapRespData (eif (sm_EAP_RECEIVED2_Enter g s)) = eapRespData (eif s)"
  "eapRespData (eif (sm_EAP_DISCARD2_Enter g s)) = eapRespData (eif s)" "eapRespData (eif (sm_EAP_SEND_REQUEST2_Enter env g s)) = eapRespData (eif s)"
  "eapRespData (eif (sm_EAP_AAA_REQUEST_Enter env g s)) = eapRespData (eif s)" "eapRespData (eif (sm_EAP_AAA_RESPONSE_Enter env g s)) = eapRespData (eif s)"
  "eapRespData (eif (sm_EAP_AAA_IDLE_Enter g s)) = eapRespData (eif s)" "eapRespData (eif (sm_EAP_TIMEOUT_FAILURE2_Enter g s)) = eapRespData (eif s)"
  "eapRespData (eif (sm_EAP_FAILURE2_Enter env g s)) = eapRespData (eif s)" "eapRespData (eif (sm_EAP_SUCCESS_Enter env g s)) = eapRespData (eif s)"
  "eapRespData (eif (sm_EAP_SUCCESS2_Enter env g s)) = eapRespData (eif s)" "eapRespData (eif (sm_EAP_RECEIVED_Enter g s)) = eapRespData (eif s)"
  "eapRespData (eif (sm_EAP_DISABLED_Enter g s)) = eapRespData (eif s)"
  by (simp_all add: plain_enter sm_EAP_RECEIVED2_Enter_def sm_EAP_RECEIVED_Enter_def sm_EAP_DISABLED_Enter_def split: option.split)

lemma next_id_fields [simp]:
  "eif (snd (eap_sm_nextId env i s)) = eif s" "EAP_state (snd (eap_sm_nextId env i s)) = EAP_state s"
  by (simp_all add: eap_sm_nextId_def Let_def split_beta)

lemma build_start_fields [simp]:
  "eif (snd (eap_sm_buildInitiateReauthStart env i s)) = eif s" "EAP_state (snd (eap_sm_buildInitiateReauthStart env i s)) = EAP_state s"
  by (simp_all add: eap_sm_buildInitiateReauthStart_def Let_def split_beta alloc_eq split: option.split)

lemma other_interface [simp]:
  "\<not> eapSuccess (eif (sm_EAP_INITIALIZE_Enter env g s))" "eapRespData (eif (sm_EAP_INITIALIZE_Enter env g s)) = eapRespData (eif s)"
  "eif (sm_EAP_PICK_UP_METHOD_Enter env g s) = eif s" "EAP_state (sm_EAP_PICK_UP_METHOD_Enter env g s) = EAP_PICK_UP_METHOD"
  "EAP_state (sm_EAP_INITIALIZE_Enter env g s) = EAP_INITIALIZE" "EAP_state (sm_EAP_RECEIVED_Enter g s) = EAP_RECEIVED"
  "EAP_state (sm_EAP_DISABLED_Enter g s) = EAP_DISABLED" "EAP_state (sm_EAP_INITIATE_REAUTH_START_Enter env g s) = EAP_INITIATE_REAUTH_START"
  "eapSuccess (eif (sm_EAP_INITIATE_REAUTH_START_Enter env g s)) = eapSuccess (eif s)"
  "eapRespData (eif (sm_EAP_INITIATE_REAUTH_START_Enter env g s)) = eapRespData (eif s)"
proof -
  have r: "EAP_state (reset_method t) = EAP_state t" "eif (reset_method t) = eif t" for t :: "('a, 'b) eap_sm"
    using core_reset [of t] by (simp_all add: core_def)
  show "\<not> eapSuccess (eif (sm_EAP_INITIALIZE_Enter env g s))" "eapRespData (eif (sm_EAP_INITIALIZE_Enter env g s)) = eapRespData (eif s)"
    "eif (sm_EAP_PICK_UP_METHOD_Enter env g s) = eif s" "EAP_state (sm_EAP_PICK_UP_METHOD_Enter env g s) = EAP_PICK_UP_METHOD"
    "EAP_state (sm_EAP_INITIALIZE_Enter env g s) = EAP_INITIALIZE"
    by (auto simp: sm_EAP_INITIALIZE_Enter_def sm_EAP_PICK_UP_METHOD_Enter_def Let_def r split_beta split: option.split)
qed (simp_all add: sm_EAP_RECEIVED_Enter_def sm_EAP_DISABLED_Enter_def sm_EAP_INITIATE_REAUTH_START_Enter_def Let_def split_beta)

text \<open>The same for the state functions that may fail.\<close>

lemma hard_enter:
  "sm_EAP_SELECT_ACTION_Enter env g s = Some s' \<Longrightarrow> EAP_state s' = EAP_SELECT_ACTION \<and> eif s' = eif s"
  "sm_EAP_PROPOSE_METHOD_Enter env g s = Some s' \<Longrightarrow> EAP_state s' = EAP_PROPOSE_METHOD \<and> eif s' = eif s"
  "sm_EAP_NAK_Enter g s = Some s' \<Longrightarrow> EAP_state s' = EAP_NAK \<and> eif s' = eif s"
  "sm_EAP_INTEGRITY_CHECK_Enter g s = Some s' \<Longrightarrow> EAP_state s' = EAP_INTEGRITY_CHECK \<and> eif s' = eif s"
  "sm_EAP_METHOD_REQUEST_Enter env g s = Some s' \<Longrightarrow> EAP_state s' = EAP_METHOD_REQUEST \<and>
     eapSuccess (eif s') = eapSuccess (eif s) \<and> eapRespData (eif s') = eapRespData (eif s)"
  "sm_EAP_METHOD_RESPONSE_Enter env g s = Some s' \<Longrightarrow> EAP_state s' = EAP_METHOD_RESPONSE \<and>
     eapSuccess (eif s') = eapSuccess (eif s) \<and> eapRespData (eif s') = eapRespData (eif s)"
  "sm_EAP_INITIATE_RECEIVED_Enter env g s = Some s' \<Longrightarrow> EAP_state s' = EAP_INITIATE_RECEIVED \<and> eapRespData (eif s') = eapRespData (eif s)"
proof -
  show "EAP_state s' = EAP_METHOD_REQUEST \<and> eapSuccess (eif s') = eapSuccess (eif s) \<and> eapRespData (eif s') = eapRespData (eif s)"
    if "sm_EAP_METHOD_REQUEST_Enter env g s = Some s'"
    using that by (auto simp: sm_EAP_METHOD_REQUEST_Enter_def eap_sm_nextId_def Let_def split_beta split: option.splits if_splits)
  show "EAP_state s' = EAP_METHOD_RESPONSE \<and> eapSuccess (eif s') = eapSuccess (eif s) \<and> eapRespData (eif s') = eapRespData (eif s)"
    if "sm_EAP_METHOD_RESPONSE_Enter env g s = Some s'"
    using similar_METHOD_RESPONSE [OF that] rest_if_fields(2) [of "eif s'" "eif s"] by (auto simp: similar_def core_def)
  show "EAP_state s' = EAP_INITIATE_RECEIVED \<and> eapRespData (eif s') = eapRespData (eif s)"
    if "sm_EAP_INITIATE_RECEIVED_Enter env g s = Some s'"
    using similar_INITIATE_RECEIVED [OF that] rest_if_fields(2) by blast
qed (use core_SELECT_ACTION core_PROPOSE core_NAK in \<open>fastforce simp: core_def\<close>, use core_PROPOSE in \<open>fastforce simp: core_def\<close>,
    use core_NAK in \<open>fastforce simp: core_def\<close>, auto simp: sm_EAP_INTEGRITY_CHECK_Enter_def Let_def split: option.splits if_splits)

lemma switch_resp: "sm_EAP_switch env s = Some s' \<Longrightarrow> eapRespData (eif s') = eapRespData (eif s)"
  by (cases "EAP_state s")
    (auto simp: sm_EAP_switch_def leave_METHOD_REQUEST_def Let_def dest!: hard_enter
      split: if_splits pending_state.splits eap_decision.splits)

lemma step_resp: "sm_EAP_Step env s = Some s' \<Longrightarrow> eapRespData (eif s') = eapRespData (eif s)"
  by (auto simp: sm_EAP_Step_def dest: switch_resp split: if_splits)

text \<open>The three ways in which a step raises the flag.\<close>

lemma step_success:
  assumes "sm_EAP_Step env s = Some s'" and "\<not> eapSuccess (eif s)" and "eapSuccess (eif s')"
  shows "EAP_state s = EAP_SELECT_ACTION \<and> decision s = DECISION_SUCCESS \<and> s' = sm_EAP_SUCCESS_Enter env False s \<or>
    EAP_state s = EAP_AAA_IDLE \<and> aaaSuccess (eif s) \<and> \<not> aaaFail (eif s) \<and> s' = sm_EAP_SUCCESS2_Enter env False s \<or>
    sm_EAP_INITIATE_RECEIVED_Enter env False s = Some s'"
proof -
  have "sm_EAP_switch env s = Some s'" using assms by (auto simp: sm_EAP_Step_def split: if_splits)
  then show ?thesis
    using assms(2,3)
    by (cases "EAP_state s")
      (auto simp: sm_EAP_switch_def leave_METHOD_REQUEST_def Let_def dest: hard_enter
        split: if_splits pending_state.splits eap_decision.splits)
qed

lemma plain_aaa [simp]: "EAP_state (sm_EAP_AAA_IDLE_Enter g s) = EAP_AAA_IDLE" "\<not> aaaSuccess (eif (sm_EAP_AAA_IDLE_Enter g s))"
  by simp_all

lemma step_aaa:
  assumes "sm_EAP_Step env s = Some s'" and "EAP_state s' = EAP_AAA_IDLE" and "aaaSuccess (eif s')"
  shows "EAP_state s = EAP_AAA_IDLE \<and> aaaSuccess (eif s)"
proof (cases "calm env s")
  case True
  then have "sm_EAP_switch env s = Some s'" using assms(1) by (simp add: step_calm)
  then show ?thesis
    using assms(2,3)
    by (cases "EAP_state s")
      (auto simp: sm_EAP_switch_def leave_METHOD_REQUEST_def Let_def dest: hard_enter
        split: if_splits pending_state.splits eap_decision.splits)
next
  case False
  then show ?thesis using assms by (auto simp: sm_EAP_Step_def calm_def split: if_splits)
qed

text \<open>A step into the choice of the next action went through its state function.\<close>

lemma step_select:
  assumes "sm_EAP_Step env s = Some s'" and "EAP_state s' = EAP_SELECT_ACTION"
  shows "EAP_state s = EAP_SELECT_ACTION \<and> decision s' = decision s \<and> eap_m s' = eap_m s \<and> eap_method_priv s' = eap_method_priv s \<and>
      currentMethod s' = currentMethod s \<or>
    (\<exists>b. sm_EAP_SELECT_ACTION_Enter env False (s\<lparr>try_initiate_reauth := b\<rparr>) = Some s')"
proof (cases "calm env s")
  case True
  then have "sm_EAP_switch env s = Some s'" using assms(1) by (simp add: step_calm)
  moreover have "\<exists>b. sm_EAP_SELECT_ACTION_Enter env False (s\<lparr>try_initiate_reauth := b\<rparr>) = Some s'"
    if "sm_EAP_SELECT_ACTION_Enter env False s = Some s'" using that by (intro exI [of _ "try_initiate_reauth s"]) simp
  ultimately show ?thesis
    using assms(2)
    by (cases "EAP_state s")
      (auto simp: sm_EAP_switch_def leave_METHOD_REQUEST_def Let_def dest: hard_enter
        split: if_splits pending_state.splits eap_decision.splits)
next
  case False
  then show ?thesis using assms by (auto simp: sm_EAP_Step_def calm_def split: if_splits)
qed


section \<open>Accepted re-authentication messages\<close>

text \<open>
  What an accepted message amounts to. Which message it is depends on the response only, not on the
  rest of the machine.
\<close>

lemma erp_receive_accepted:
  assumes "erp_receive env s = Some (ErpAccepted i k seq nai)"
  obtains b tlvs e start where "eapRespData (eif s) = Some b" and "e \<le> length b" and "seq < 65536"
    and "\<And>t. eapRespData (eif t) = Some b \<Longrightarrow> erp_receive env t = erp_authenticate env t b tlvs e start nai seq"
proof -
  obtain pos len where v: "eap_hdr_validate EAP_VENDOR_IETF EAP_ERP_TYPE_REAUTH (eapRespData (eif s)) = Some (pos, len)"
    using assms by (auto simp: erp_receive_def split: option.splits)
  then obtain b where b: "eapRespData (eif s) = Some b" "pos + len \<le> length b"
    by (auto simp: eap_hdr_validate_def eap_hdr_len_valid_def Let_def split: option.splits if_splits)
  let ?sq = "get_be16 b (pos + 1)"
  have sq: "?sq < 65536"
    using unsigned_less [of "b ! (pos + 1)", where ?'a = nat] unsigned_less [of "b ! (pos + 1 + 1)", where ?'a = nat]
    by (simp add: get_be16_def)
  obtain r parse where p: "erp_parse_tlvs b (pos + 3) (pos + len) True = Some (r, parse)" "\<not> r < 0"
    and len: "\<not> len < 4"
    using assms v b by (auto simp: erp_receive_def Let_def split: option.splits if_splits)
  obtain ki kn where kn: "keyname parse = Some (ki, kn)" "\<not> kn > 253" and es: "eap_server (cfg env)"
    using assms v b p len by (auto simp: erp_receive_def Let_def split: option.splits if_splits)
  let ?nai = "takeWhile (\<lambda>c. c \<noteq> 0) (take kn (drop ki b))"
  have eq: "erp_receive env t = erp_authenticate env t b (pos + 3) (pos + len) (ki + kn) ?nai ?sq" if "eapRespData (eif t) = Some b" for t
    using that v b(1) p len kn es by (simp add: erp_receive_def)
  have "nai = ?nai \<and> seq = ?sq"
    using assms eq [OF b(1)] by (auto simp: erp_authenticate_def Let_def split: option.splits if_splits)
  with sq have n: "seq < 65536" "nai = ?nai" "seq = ?sq" by simp_all
  show ?thesis by (rule that [OF b n(1)]) (use eq n in simp)
qed

lemma get_key_found:
  assumes "erp_get_key nai s = Some i"
  shows "i < length (erp_keys s)" "keyname_nai (erp_keys s ! i) = nai"
proof -
  show i: "i < length (erp_keys s)" using assms by (auto simp: erp_get_key_def Let_def split: if_splits)
  then show "keyname_nai (erp_keys s ! i) = nai"
    using assms nth_length_takeWhile [of "\<lambda>k. keyname_nai k \<noteq> nai" "erp_keys s"]
    by (auto simp: erp_get_key_def Let_def split: if_splits)
qed

lemma check_tag_valid:
  assumes "erp_check_tag env k b e m = Some (n, cs)"
  shows "n \<in> {16, 32} \<and> erp_tag_matches env k b e n = Some True \<and> cs \<in> {EAP_ERP_CS_HMAC_SHA256_128, EAP_ERP_CS_HMAC_SHA256_256}"
  using assms by (auto simp: erp_check_tag_def Let_def split: if_splits option.splits bool.splits)

lemma authenticate_accepted:
  assumes "erp_authenticate env s b tlvs e start nai0 seq0 = Some (ErpAccepted i k seq nai)"
  shows "erp_get_key nai s = Some i \<and> (recv_seq (erp_keys s ! i) = -1 \<or> recv_seq (erp_keys s ! i) < of_nat seq) \<and>
    (\<exists>n h cs. n \<in> {16, 32} \<and> hmac_sha256 env (rIK (erp_keys s ! i)) (take (e - n) b) = Some h \<and>
      take n (drop (e - n) b) = take n h \<and> k = (erp_keys s ! i)\<lparr>cryptosuite := cs, recv_seq := of_nat seq\<rparr>)"
proof -
  have sq: "seq0 = seq" "nai0 = nai" and i: "erp_get_key nai s = Some i"
    using assms by (auto simp: erp_authenticate_def Let_def split: option.splits if_splits)
  let ?k = "erp_keys s ! i"
  obtain n cs where t: "erp_check_tag env ?k b e (e - start) = Some (n, cs)" "k = ?k\<lparr>cryptosuite := cs, recv_seq := of_nat seq\<rparr>"
    "recv_seq ?k = -1 \<or> \<not> recv_seq ?k \<ge> of_nat seq"
    using assms i sq by (auto simp: erp_authenticate_def Let_def split: option.splits if_splits)
  from check_tag_valid [OF t(1)] obtain h where "n \<in> {16, 32}" "hmac_sha256 env (rIK ?k) (take (e - n) b) = Some h"
    "take n (drop (e - n) b) = take n h" by (auto simp: erp_tag_matches_def split: option.splits)
  then show ?thesis using i t(2,3) by (auto simp: not_le)
qed

lemma receive_depends:
  "eapRespData (eif t) = eapRespData (eif s) \<Longrightarrow> erp_keys t = erp_keys s \<Longrightarrow> erp_receive env t = erp_receive env s"
proof -
  assume a: "eapRespData (eif t) = eapRespData (eif s)" "erp_keys t = erp_keys s"
  have "erp_authenticate env t = erp_authenticate env s"
    by (intro ext) (unfold erp_authenticate_def erp_get_key_def a(2), rule refl)
  then show ?thesis unfolding erp_receive_def a(1) by (simp only:)
qed

lemma finish_keeps_keys: "erp_keys (erp_send_finish_reauth env k ident fl seq nai s) = erp_keys s"
  by (simp add: erp_send_finish_reauth_def Let_def alloc_eq split: option.split)

lemma accepted_content:
  assumes "erp_receive env s = Some (ErpAccepted i k seq nai)"
  shows "i < length (erp_keys s) \<and> keyname_nai (erp_keys s ! i) = nai \<and> recv_seq k = of_nat seq \<and>
    (recv_seq (erp_keys s ! i) = -1 \<or> recv_seq (erp_keys s ! i) < recv_seq k) \<and>
    (\<exists>b e n h. eapRespData (eif s) = Some b \<and> e \<le> length b \<and> n \<in> {16, 32} \<and>
      hmac_sha256 env (rIK (erp_keys s ! i)) (take (e - n) b) = Some h \<and> take n (drop (e - n) b) = take n h)"
proof -
  obtain b tlvs e start where b: "eapRespData (eif s) = Some b" "e \<le> length b"
    and eq: "\<And>t. eapRespData (eif t) = Some b \<Longrightarrow> erp_receive env t = erp_authenticate env t b tlvs e start nai seq"
    using erp_receive_accepted [OF assms] by metis
  from eq [OF b(1)] assms authenticate_accepted [of env s b tlvs e start nai seq i k seq nai]
  have a: "erp_get_key nai s = Some i" "recv_seq (erp_keys s ! i) = -1 \<or> recv_seq (erp_keys s ! i) < of_nat seq"
    "\<exists>n h cs. n \<in> {16, 32} \<and> hmac_sha256 env (rIK (erp_keys s ! i)) (take (e - n) b) = Some h \<and>
      take n (drop (e - n) b) = take n h \<and> k = (erp_keys s ! i)\<lparr>cryptosuite := cs, recv_seq := of_nat seq\<rparr>" by auto
  then show ?thesis using get_key_found [OF a(1)] b by auto
qed

section \<open>Success for cause\<close>

text \<open>The states of the machine in the course of a call.\<close>

inductive passes :: "('p, 'w) eap_env \<Rightarrow> ('p, 'w) eap_sm \<Rightarrow> ('p, 'w) eap_sm \<Rightarrow> bool" for env s where
  passes_start: "passes env s s"
| passes_reset: "passes env s t \<Longrightarrow> passes env s (t\<lparr>eap_changed := False\<rparr>)"
| passes_step: "passes env s t \<Longrightarrow> sm_EAP_Step env t = Some t' \<Longrightarrow> passes env s t'"

text \<open>
  The evidence for success, each in a state of this machine: the selected method, which is not the
  Identity method, says that it succeeded; or the AAA server said so; or the response of the peer is
  a re-authentication message that names a key of the server, ends with a tag under the integrity key
  of that key, and has a number larger than the recorded one.
\<close>

definition method_succeeded :: "('p, 'w) eap_sm \<Rightarrow> bool" where
  "method_succeeded t \<longleftrightarrow> (\<exists>x p. eap_m t = Some x \<and> eap_method_priv t = Some p \<and> m_isSuccess x p (share t) \<and>
     currentMethod t \<noteq> EAP_TYPE_IDENTITY)"

definition erp_authentic :: "('p, 'w) eap_env \<Rightarrow> ('p, 'w) eap_sm \<Rightarrow> bool" where
  "erp_authentic env t \<longleftrightarrow> eap_server (cfg env) \<and>
     (\<exists>i seq b e n h. i < length (erp_keys t) \<and> (recv_seq (erp_keys t ! i) = -1 \<or> recv_seq (erp_keys t ! i) < of_nat seq) \<and>
        eapRespData (eif t) = Some b \<and> e \<le> length b \<and> n \<in> {16, 32} \<and>
        hmac_sha256 env (rIK (erp_keys t ! i)) (take (e - n) b) = Some h \<and> take n (drop (e - n) b) = take n h)"

definition aaa_succeeded :: "('p, 'w) eap_sm \<Rightarrow> bool" where
  "aaa_succeeded s \<longleftrightarrow> EAP_state s = EAP_AAA_IDLE \<and> aaaSuccess (eif s)"

lemma decide_user_no_success: "fst (decide_user env s) \<noteq> DECISION_SUCCESS"
  by (auto simp: decide_user_def decide_next_def Let_def split_beta split: option.split)

lemma select_success:
  assumes "sm_EAP_SELECT_ACTION_Enter env g s = Some s'" and "decision s' = DECISION_SUCCESS"
  shows "method_succeeded s"
proof -
  let ?t = "eap_entry g EAP_SELECT_ACTION s"
  obtain u where u: "eap_sm_Policy_getDecision env ?t = Some (DECISION_SUCCESS, u)"
    using assms by (auto simp: sm_EAP_SELECT_ACTION_Enter_def split: option.splits)
  then have "method_succeeded ?t"
    using decide_user_no_success [of env ?t]
    by (auto simp: eap_sm_Policy_getDecision_def Let_def method_succeeded_def split: option.splits if_splits)
  then show ?thesis by (simp add: method_succeeded_def)
qed

lemma initiate_success:
  assumes "sm_EAP_INITIATE_RECEIVED_Enter env g s = Some s'" and "\<not> eapSuccess (eif s)" and "eapSuccess (eif s')"
  shows "erp_authentic env s"
proof -
  let ?t = "(eap_entry g EAP_INITIATE_RECEIVED s)\<lparr>rxInitiate := False\<rparr>"
  have nokey: "eapSuccess (eif (erp_send_finish_reauth env None a b c d u)) = eapSuccess (eif u)" for a b c d u
    by (simp add: erp_send_finish_reauth_def Let_def alloc_eq split: option.split)
  have same: "erp_receive env ?t = erp_receive env s" by (rule receive_depends) simp_all
  have "\<exists>i k seq nai. erp_receive env s = Some (ErpAccepted i k seq nai)"
  proof (cases "erp_receive env s")
    case (Some out)
    then show ?thesis
      using assms by (cases out) (auto simp: sm_EAP_INITIATE_RECEIVED_Enter_def same Let_def alloc_eq nokey split: if_splits)
  qed (use assms in \<open>simp add: sm_EAP_INITIATE_RECEIVED_Enter_def same\<close>)
  then obtain i k seq nai where a: "erp_receive env s = Some (ErpAccepted i k seq nai)" by blast
  then have "eap_server (cfg env)" by (auto simp: erp_receive_def Let_def split: option.splits if_splits)
  then show ?thesis using accepted_content [OF a] unfolding erp_authentic_def by (metis (no_types, lifting))
qed

text \<open>The invariant of a run that starts in \<open>s0\<close>.\<close>

definition cause :: "('p, 'w) eap_env \<Rightarrow> ('p, 'w) eap_sm \<Rightarrow> bool" where
  "cause env s0 \<longleftrightarrow> aaa_succeeded s0 \<or> (\<exists>t. passes env s0 t \<and> (method_succeeded t \<or> erp_authentic env t))"

definition success_inv :: "('p, 'w) eap_env \<Rightarrow> ('p, 'w) eap_sm \<Rightarrow> ('p, 'w) eap_sm \<Rightarrow> bool" where
  "success_inv env s0 s \<longleftrightarrow> passes env s0 s \<and> (aaa_succeeded s \<longrightarrow> aaa_succeeded s0) \<and>
     (EAP_state s = EAP_SELECT_ACTION \<and> decision s = DECISION_SUCCESS \<longrightarrow> cause env s0) \<and> (eapSuccess (eif s) \<longrightarrow> cause env s0)"

lemma success_flag_step:
  assumes "success_inv env s0 s" and "sm_EAP_Step env s = Some s'" and "eapSuccess (eif s')"
  shows "cause env s0"
proof (cases "eapSuccess (eif s)")
  case False
  from step_success [OF assms(2) False assms(3)] show ?thesis
  proof (elim disjE)
    assume "sm_EAP_INITIATE_RECEIVED_Enter env False s = Some s'"
    from initiate_success [OF this False assms(3)] show ?thesis using assms(1) by (auto simp: cause_def success_inv_def)
  qed (use assms(1) in \<open>auto simp: success_inv_def cause_def aaa_succeeded_def\<close>)
qed (use assms(1) in \<open>simp add: success_inv_def\<close>)

interpretation suc: eap_run_invariant env "success_inv env s0" for env s0
proof unfold_locales
  show "success_inv env s0 s'" if I: "success_inv env s0 s" and st: "sm_EAP_Step env s = Some s'" for s s' :: "('a, 'b) eap_sm"
  proof -
    have "cause env s0" if "EAP_state s' = EAP_SELECT_ACTION" "decision s' = DECISION_SUCCESS"
      using step_select [OF st that(1)] that(2) I
      by (auto simp: success_inv_def cause_def method_succeeded_def dest!: select_success)
    moreover have "aaa_succeeded s' \<Longrightarrow> aaa_succeeded s0"
      using step_aaa [OF st] I by (auto simp: success_inv_def aaa_succeeded_def)
    moreover have "passes env s0 s'" using passes_step st I by (auto simp: success_inv_def)
    ultimately show ?thesis using success_flag_step [OF I st] by (auto simp: success_inv_def)
  qed
qed (auto simp: success_inv_def aaa_succeeded_def intro: passes_reset)


end
