(* ===== verification/Eap_Reauth.thy ===== *)
theory Eap_Reauth
  imports Eap_Success
begin

text \<open>
  The re-authentication protocol of the EAP server: what an accepted message proves, the protection
  against replay, and the null pointer that a peer can make the server dereference when
  re-authentication is announced.
\<close>

section \<open>Announced re-authentication\<close>

lemma loop_move:
  "sm_EAP_Step env (s\<lparr>eap_changed := False\<rparr>) = Some s' \<Longrightarrow> eap_changed s' \<Longrightarrow> eap_step_loop env res s = eap_step_loop env True s'"
  by (subst eap_step_loop.simps) simp

lemma loop_rest:
  "sm_EAP_Step env (s\<lparr>eap_changed := False\<rparr>) = Some s' \<Longrightarrow> \<not> eap_changed s' \<Longrightarrow> eap_step_loop env res s = Some (s', res)"
  by (subst eap_step_loop.simps) simp

lemma loop_undefined: "sm_EAP_Step env (s\<lparr>eap_changed := False\<rparr>) = None \<Longrightarrow> eap_step_loop env res s = None"
  by (subst eap_step_loop.simps) simp

text \<open>A request for re-authentication is outstanding, and no method is selected.\<close>

definition announced :: "('p, 'w) eap_sm \<Rightarrow> bool" where
  "announced s \<longleftrightarrow> EAP_state s = EAP_IDLE \<and> eap_m s = None \<and> currentMethod s = EAP_TYPE_NONE \<and> 0 \<le> currentId s \<and> currentId s < 256 \<and>
     retransWhile (eif s) \<noteq> 0 \<and> portEnabled (eif s) \<and> \<not> eapRestart (eif s) \<and> num_rounds s = 0 \<and> num_rounds_short s = 0"

lemma announced_crash:
  assumes "announced s" and "0 < max_auth_rounds (cfg env)" and "0 < max_auth_rounds_short (cfg env)"
  shows "eap_sm_run env (upd_eif (\<lambda>i. i\<lparr>eapResp := True, eapRespData := Some [2, word_of_int (currentId s), 0, 5, 0]\<rparr>) s) = None"
proof -
  let ?b = "[2, word_of_int (currentId s), 0, 5, 0] :: bytes"
  let ?s = "upd_eif (\<lambda>i. i\<lparr>eapResp := True, eapRespData := Some ?b\<rparr>) s"
  let ?r = "sm_EAP_RECEIVED_Enter False (?s\<lparr>eap_changed := False\<rparr>)"
  have one: "\<not> (1 :: u32) > n" if "0 < n" for n using that by (simp add: word_less_nat_alt not_less) 
  have len: "get_be16 ?b 2 = 5" by (simp add: get_be16_def)
  have idb: "uint (word_of_int (currentId s) :: byte) = currentId s" using assms(1) by (simp add: announced_def uint_word_of_int)
  have s1: "sm_EAP_Step env (?s\<lparr>eap_changed := False\<rparr>) = Some ?r"
    using assms(1) by (simp add: sm_EAP_Step_def sm_EAP_switch_def announced_def)
  have r: "eap_changed ?r" "EAP_state ?r = EAP_RECEIVED" "eap_m ?r = None" "currentMethod ?r = EAP_TYPE_NONE" "rxResp ?r"
    "respId ?r = currentId ?r" "respMethod ?r = EAP_TYPE_NONE" "portEnabled (eif ?r)" "\<not> eapRestart (eif ?r)" "num_rounds ?r = 1"
    "num_rounds_short ?r = 1" "eapRespData (eif ?r) = Some ?b"
    using assms(1) len idb
    by (simp_all add: announced_def sm_EAP_RECEIVED_Enter_def eap_sm_parseEapResp_def eap_consts Let_def)
  have "sm_EAP_Step env (?r\<lparr>eap_changed := False\<rparr>) = None"
    using r assms(2,3) one len
    by (simp add: sm_EAP_Step_def sm_EAP_switch_def resp_is_nak_def resp_is_current_def sm_EAP_INTEGRITY_CHECK_Enter_def
        eap_hdr_len_valid_def eap_consts Let_def)
  then show ?thesis unfolding eap_sm_run_def using loop_move [OF s1 r(1)] loop_undefined by metis
qed


lemma next_id_shape: "\<exists>c w. eap_sm_nextId env i s = (c, upd_share (\<lambda>sh. sh\<lparr>world := w\<rparr>) s) \<and> 0 \<le> c \<and> c < 256"
proof (cases "i < 0")
  case True
  then show ?thesis by (auto simp: eap_sm_nextId_def split_beta Let_def)
next
  case False
  then show ?thesis by (intro exI [of _ "(i + 1) mod 256"] exI [of _ "world (share s)"]) (simp add: eap_sm_nextId_def)
qed

lemma build_start_shape: "\<exists>d w. eap_sm_buildInitiateReauthStart env i s = (d, upd_share (\<lambda>sh. sh\<lparr>world := w\<rparr>) s)"
  by (auto simp: eap_sm_buildInitiateReauthStart_def split_beta Let_def alloc_eq split: option.split)

lemma reauth_start_fields:
  assumes s'_def: "s' = sm_EAP_INITIATE_REAUTH_START_Enter env False s"
  shows "EAP_state s' = EAP_INITIATE_REAUTH_START" "eap_changed s'" "eap_m s' = eap_m s" "currentMethod s' = currentMethod s"
    "portEnabled (eif s') = portEnabled (eif s)" "eapRestart (eif s') = eapRestart (eif s)" "num_rounds s' = num_rounds s"
    "num_rounds_short s' = num_rounds_short s" "eapResp (eif s') = eapResp (eif s)" "try_initiate_reauth s'"
    "0 \<le> currentId s'" "currentId s' < 256"
proof -
  define u where "u = (eap_entry False EAP_INITIATE_REAUTH_START s)\<lparr>initiate_reauth_start_sent := True, try_initiate_reauth := True\<rparr>"
  obtain c w1 where n: "eap_sm_nextId env (currentId u) u = (c, upd_share (\<lambda>sh. sh\<lparr>world := w1\<rparr>) u)" "0 \<le> c" "c < 256"
    using next_id_shape by metis
  let ?u = "(upd_share (\<lambda>sh. sh\<lparr>world := w1\<rparr>) u)\<lparr>currentId := c, lastId := c\<rparr>"
  obtain d w2 where b: "eap_sm_buildInitiateReauthStart env (word_of_int c) ?u = (d, upd_share (\<lambda>sh. sh\<lparr>world := w2\<rparr>) ?u)"
    using build_start_shape by metis
  have "s' = upd_eif (\<lambda>i. i\<lparr>eapReqData := d\<rparr>) ((upd_share (\<lambda>sh. sh\<lparr>world := w2\<rparr>) ?u)\<lparr>lastReqData := None\<rparr>)"
    unfolding s'_def sm_EAP_INITIATE_REAUTH_START_Enter_def u_def [symmetric] n(1) Let_def prod.case b by simp
  then show "EAP_state s' = EAP_INITIATE_REAUTH_START" "eap_changed s'" "eap_m s' = eap_m s" "currentMethod s' = currentMethod s"
    "portEnabled (eif s') = portEnabled (eif s)" "eapRestart (eif s') = eapRestart (eif s)" "num_rounds s' = num_rounds s"
    "num_rounds_short s' = num_rounds_short s" "eapResp (eif s') = eapResp (eif s)" "try_initiate_reauth s'"
    "0 \<le> currentId s'" "currentId s' < 256"
    using n(2,3) by (simp_all add: u_def)
qed

lemma created_announces:
  assumes "get_erp_send_reauth_start env" and "\<not> backend_auth (cfg env)" and "eap_server_sm_init env w ks = Some s0"
  shows "\<exists>s r. eap_sm_run env (upd_eif (\<lambda>i. i\<lparr>portEnabled := True\<rparr>) s0) = Some (s, r) \<and> announced s"
proof -
  let ?z = "\<lambda>s. s\<lparr>eap_changed := False\<rparr>"
  let ?s0 = "upd_eif (\<lambda>i. i\<lparr>portEnabled := True\<rparr>) s0"
  define s1 where "s1 = sm_EAP_INITIALIZE_Enter env False (?z ?s0)"
  define s2 where "s2 = (eap_entry False EAP_SELECT_ACTION (?z s1))\<lparr>start_reauth := False, decision := DECISION_INITIATE_REAUTH_START\<rparr>"
  define s3 where "s3 = sm_EAP_INITIATE_REAUTH_START_Enter env False (?z s2)"
  define s4 where "s4 = sm_EAP_SEND_REQUEST_Enter env False (?z s3)"
  define s5 where "s5 = sm_EAP_IDLE_Enter False (?z s4)"
  have c0: "EAP_state s0 = EAP_DISABLED" "eif s0 = zero_if" "eap_m s0 = None" "eap_method_priv s0 = None" "num_rounds s0 = 0"
    "num_rounds_short s0 = 0" "currentMethod s0 = EAP_TYPE_NONE" "eap_identity (share s0) = None" "user (share s0) = None"
    "\<not> initiate_reauth_start_sent s0"
    using assms(3) by (auto simp: eap_server_sm_init_def split_beta Let_def split: if_splits)
  have s1: "EAP_state s1 = EAP_INITIALIZE" "eap_changed s1" "eap_m s1 = None" "currentMethod s1 = EAP_TYPE_NONE" "portEnabled (eif s1)"
    "\<not> eapRestart (eif s1)" "num_rounds s1 = 0" "num_rounds_short s1 = 0" "eap_identity (share s1) = None" "user (share s1) = None"
    "\<not> eapResp (eif s1)" "\<not> initiate_reauth_start_sent s1"
    using c0 assms(2) by (simp_all add: s1_def sm_EAP_INITIALIZE_Enter_def reset_method_def zero_if_def Let_def)
  have t0: "sm_EAP_Step env (?z ?s0) = Some s1" using c0 by (simp add: sm_EAP_Step_def sm_EAP_switch_def s1_def zero_if_def)
  have t1: "sm_EAP_Step env (?z s1) = Some s2"
    using s1 assms(1,2)
    by (simp add: sm_EAP_Step_def sm_EAP_switch_def s2_def sm_EAP_SELECT_ACTION_Enter_def eap_sm_Policy_getDecision_def
        decide_user_def decide_next_def eap_entry_def Let_def)
  have s2: "EAP_state s2 = EAP_SELECT_ACTION" "eap_changed s2" "eap_m s2 = None" "currentMethod s2 = EAP_TYPE_NONE" "portEnabled (eif s2)"
    "\<not> eapRestart (eif s2)" "num_rounds s2 = 0" "num_rounds_short s2 = 0" "\<not> eapResp (eif s2)" "decision s2 = DECISION_INITIATE_REAUTH_START"
    using s1 by (simp_all add: s2_def)
  have t2: "sm_EAP_Step env (?z s2) = Some s3" using s2 by (simp add: sm_EAP_Step_def sm_EAP_switch_def s3_def)
  have s3: "EAP_state s3 = EAP_INITIATE_REAUTH_START" "eap_changed s3" "eap_m s3 = None" "currentMethod s3 = EAP_TYPE_NONE" "portEnabled (eif s3)"
    "\<not> eapRestart (eif s3)" "num_rounds s3 = 0" "num_rounds_short s3 = 0" "\<not> eapResp (eif s3)" "try_initiate_reauth s3"
    "0 \<le> currentId s3" "currentId s3 < 256"
    using reauth_start_fields [OF s3_def] s2 by simp_all
  have t3: "sm_EAP_Step env (?z s3) = Some s4" using s3 by (simp add: sm_EAP_Step_def sm_EAP_switch_def s4_def)
  have s4: "EAP_state s4 = EAP_SEND_REQUEST" "eap_changed s4" "eap_m s4 = None" "currentMethod s4 = EAP_TYPE_NONE" "portEnabled (eif s4)"
    "\<not> eapRestart (eif s4)" "num_rounds s4 = 0" "num_rounds_short s4 = 0" "\<not> eapResp (eif s4)" "try_initiate_reauth s4"
    "0 \<le> currentId s4" "currentId s4 < 256"
    using s3 by (simp_all add: s4_def sm_EAP_SEND_REQUEST_Enter_def send_request_def eap_copy_buf_def alloc_eq Let_def split: option.split)
  have t4: "sm_EAP_Step env (?z s4) = Some s5" using s4 by (simp add: sm_EAP_Step_def sm_EAP_switch_def s5_def)
  have s5: "announced s5" "eap_changed s5" "\<not> eapResp (eif s5)"
    using s4 by (simp_all add: s5_def announced_def sm_EAP_IDLE_Enter_def set_retrans_def)
  have t5: "sm_EAP_Step env (?z s5) = Some (?z s5)"
    using s5 by (simp add: sm_EAP_Step_def sm_EAP_switch_def announced_def)
  have "eap_sm_run env ?s0 = Some (?z s5, True)"
    unfolding eap_sm_run_def loop_move [OF t0 s1(2)] loop_move [OF t1 s2(2)] loop_move [OF t2 s3(2)] loop_move [OF t3 s4(2)]
      loop_move [OF t4 s5(2)] by (rule loop_rest [OF t5]) simp
  moreover have "announced (?z s5)" using s5(1) by (simp add: announced_def)
  ultimately show ?thesis by blast
qed

text \<open>
  C35. With re-authentication announced (\<open>erp_send_reauth_start\<close>), an unauthenticated peer can make the
  server dereference a null pointer: a new machine sends EAP-Initiate/Re-auth-Start and waits with
  no method selected, and when the peer answers with an EAP-Response of type 0 and the expected
  identifier, the integrity check calls through that missing method.
\<close>

theorem reauth_start_null_dereference:
  assumes "get_erp_send_reauth_start env" and "\<not> backend_auth (cfg env)" and "eap_server_sm_init env w ks = Some s0"
    and "0 < max_auth_rounds (cfg env)" and "0 < max_auth_rounds_short (cfg env)"
  shows "\<exists>s r. eap_sm_run env (upd_eif (\<lambda>i. i\<lparr>portEnabled := True\<rparr>) s0) = Some (s, r) \<and>
    eap_sm_run env (upd_eif (\<lambda>i. i\<lparr>eapResp := True, eapRespData := Some [2, word_of_int (currentId s), 0, 5, 0]\<rparr>) s) = None"
  using created_announces [OF assms(1-3)] announced_crash [OF _ assms(4,5)] by blast

section \<open>Accepted messages\<close>

lemma get_key_update:
  assumes "keyname_nai k = keyname_nai (erp_keys s ! i)" and "erp_keys t = (erp_keys s)[i := k]" and "i < length (erp_keys s)"
  shows "erp_get_key nai t = erp_get_key nai s"
proof -
  have "map keyname_nai (erp_keys t) = map keyname_nai (erp_keys s)"
    using assms by (metis list_update_id map_update nth_map)
  moreover have "length (takeWhile (\<lambda>k. keyname_nai k \<noteq> nai) ks) = length (takeWhile (\<lambda>n. n \<noteq> nai) (map keyname_nai ks))" for ks
    by (induction ks) auto
  ultimately have "length (takeWhile (\<lambda>k. keyname_nai k \<noteq> nai) (erp_keys t)) = length (takeWhile (\<lambda>k. keyname_nai k \<noteq> nai) (erp_keys s))"
    by metis
  then show ?thesis using assms(2) by (simp only: erp_get_key_def length_list_update)
qed

text \<open>
  C17. An accepted re-authentication message is authentic and fresh: it names a key of the server, it
  ends with the first 16 or 32 bytes of the keyed hash, under the integrity key of that key, of
  everything before them, and its sequence number is larger than every one accepted for the key
  before; the key remembers the number.
\<close>

theorem erp_accepted_authentic:
  assumes "erp_receive env s = Some (ErpAccepted i k seq nai)"
  shows "i < length (erp_keys s) \<and> keyname_nai (erp_keys s ! i) = nai \<and> recv_seq k = of_nat seq \<and>
    (recv_seq (erp_keys s ! i) = -1 \<or> recv_seq (erp_keys s ! i) < recv_seq k) \<and>
    (\<exists>b e n h. eapRespData (eif s) = Some b \<and> e \<le> length b \<and> n \<in> {16, 32} \<and>
      hmac_sha256 env (rIK (erp_keys s ! i)) (take (e - n) b) = Some h \<and> take n (drop (e - n) b) = take n h)"
  using accepted_content [OF assms] .

text \<open>
  C18. No replay: once the state function has processed a re-authentication message that it accepted,
  the same message is ignored by every machine that sees the keys as this call left them. The state
  function then only notes that it ignored the message; it answers nothing and reports nothing.
\<close>

theorem erp_replay_ignored:
  assumes "erp_receive env s = Some (ErpAccepted i k seq nai)" and "sm_EAP_INITIATE_RECEIVED_Enter env g s = Some s'"
    and "erp_keys t = erp_keys s'" and "eapRespData (eif t) = eapRespData (eif s)"
  shows "sm_EAP_INITIATE_RECEIVED_Enter env h t =
    Some ((eap_entry h EAP_INITIATE_RECEIVED t)\<lparr>rxInitiate := False, ignore := True\<rparr>)"
proof -
  let ?s = "(eap_entry g EAP_INITIATE_RECEIVED s)\<lparr>rxInitiate := False\<rparr>"
  let ?t = "(eap_entry h EAP_INITIATE_RECEIVED t)\<lparr>rxInitiate := False\<rparr>"
  have "erp_receive env ?s = Some (ErpAccepted i k seq nai)" using assms(1) receive_depends [of s ?s env] by simp
  then have keys: "erp_keys t = (erp_keys s)[i := k]"
    using assms(2,3) by (auto simp: sm_EAP_INITIATE_RECEIVED_Enter_def finish_keeps_keys)
  obtain b tlvs e start where b: "eapRespData (eif s) = Some b" "seq < 65536"
    and eq: "\<And>t. eapRespData (eif t) = Some b \<Longrightarrow> erp_receive env t = erp_authenticate env t b tlvs e start nai seq"
    using erp_receive_accepted [OF assms(1)] by metis
  have a: "erp_get_key nai s = Some i" "keyname_nai k = keyname_nai (erp_keys s ! i)" "recv_seq k = of_nat seq"
    using authenticate_accepted [of env s b tlvs e start nai seq i k seq nai] assms(1) eq [OF b(1)] by auto
  have i: "i < length (erp_keys s)" using get_key_found [OF a(1)] by simp
  have "erp_get_key nai ?t = Some i" using get_key_update [OF a(2) _ i, of ?t nai] keys a(1) by simp
  moreover have "erp_keys ?t ! i = k" using keys i by simp
  moreover have "(of_nat seq :: u32) \<noteq> -1"
  proof
    assume "(of_nat seq :: u32) = -1"
    then have "unat (of_nat seq :: u32) = unat (-1 :: u32)" by simp
    moreover have "unat (-1 :: u32) = 4294967295" by (simp add: unsigned_minus_1_eq_mask mask_eq_exp_minus_1)
    ultimately show False using b(2) by (simp add: unsigned_of_nat take_bit_eq_mod)
  qed
  ultimately have "erp_receive env ?t = Some ErpIgnored"
    using eq [of ?t] assms(4) b(1) a(3) by (simp add: erp_authenticate_def)
  then show ?thesis by (simp add: sm_EAP_INITIATE_RECEIVED_Enter_def)
qed

end
