(* ===== verification/Eap_Methods.thy ===== *)
theory Eap_Methods
  imports Eap_Reauth
begin

text \<open>
  Three methods behind the function table of the EAP server, and their registration:
  \<open>src/eap_server/eap_server_identity.c\<close>, \<open>eap_server_md5.c\<close>, \<open>eap_server_gtc.c\<close> and
  \<open>eap_server_methods.c\<close>, with \<open>chap_md5\<close> of \<open>src/eap_common/chap.c\<close>. They are built without EAP-FAST.
  MD5, the random number generator and the allocator are parameters.

  The private data behind the \<open>void\<close> pointer of a method is a value of the type \<open>eap_priv\<close>. The
  server hands a method only data that the method made itself; a function that is given data of
  another kind leaves everything as it is.
\<close>

section \<open>Private data and the functions that are called\<close>

datatype auth_progress = CONTINUE | SUCCESS | FAILURE

record eap_identity_data =
  id_state :: auth_progress
  pick_up :: bool

record eap_md5_data =
  challenge :: bytes
  md5_state :: auth_progress

record eap_gtc_data =
  gtc_state :: auth_progress
  prefix :: bool

datatype eap_priv = IdentityData eap_identity_data | Md5Data eap_md5_data | GtcData eap_gtc_data

text \<open>
  The allocator, the source of random bytes (\<open>None\<close> when it fails), the hash of a concatenation
  (\<open>None\<close> when it fails), and the text of the identity request, empty if none is configured.
\<close>

record 'w eap_lib =
  lib_malloc :: "'w \<Rightarrow> bool \<times> 'w"
  random_get_bytes :: "nat \<Rightarrow> 'w \<Rightarrow> bytes option \<times> 'w"
  md5_vector :: "bytes list \<Rightarrow> bytes option"
  eap_req_id_text :: bytes

definition malloc_share :: "'w eap_lib \<Rightarrow> 'w eap_share \<Rightarrow> bool \<times> 'w eap_share" where
  "malloc_share lib sh = (let (ok, w) = lib_malloc lib (world sh) in (ok, sh\<lparr>world := w\<rparr>))"

section \<open>Identity\<close>

definition eap_identity_init :: "'w eap_lib \<Rightarrow> 'w eap_share \<Rightarrow> eap_priv option \<times> 'w eap_share" where
  "eap_identity_init lib sh =
     (let (ok, sh) = malloc_share lib sh
      in (if ok then Some (IdentityData \<lparr>id_state = CONTINUE, pick_up = False\<rparr>) else None, sh))"

definition eap_identity_initPickUp :: "'w eap_lib \<Rightarrow> 'w eap_share \<Rightarrow> eap_priv option \<times> 'w eap_share" where
  "eap_identity_initPickUp lib sh =
     (case eap_identity_init lib sh of
        (Some (IdentityData d), sh) \<Rightarrow> (Some (IdentityData (d\<lparr>pick_up := True\<rparr>)), sh)
      | (p, sh) \<Rightarrow> (p, sh))"

definition eap_identity_reset :: "eap_priv \<Rightarrow> 'w eap_share \<Rightarrow> 'w eap_share" where
  "eap_identity_reset p sh = sh"

definition eap_identity_buildReq ::
  "'w eap_lib \<Rightarrow> eap_priv \<Rightarrow> byte \<Rightarrow> 'w eap_share \<Rightarrow> bytes option \<times> eap_priv \<times> 'w eap_share" where
  "eap_identity_buildReq lib p ident sh =
     (case p of
        IdentityData d \<Rightarrow>
          let (ok, sh) = malloc_share lib sh
          in (case eap_msg_alloc ok EAP_VENDOR_IETF EAP_TYPE_IDENTITY (length (eap_req_id_text lib)) EAP_CODE_REQUEST ident of
                None \<Rightarrow> (None, IdentityData (d\<lparr>id_state := FAILURE\<rparr>), sh)
              | Some req \<Rightarrow> (Some (req @ eap_req_id_text lib), p, sh))
      | _ \<Rightarrow> (None, p, sh))"

definition eap_identity_check :: "eap_priv \<Rightarrow> bytes \<Rightarrow> 'w eap_share \<Rightarrow> bool" where
  "eap_identity_check p resp sh \<longleftrightarrow> eap_hdr_validate EAP_VENDOR_IETF EAP_TYPE_IDENTITY (Some resp) = None"

text \<open>The identity of the peer is stored; the first allocation is for the log message.\<close>

definition identity_store :: "'w eap_lib \<Rightarrow> eap_identity_data \<Rightarrow> bytes \<Rightarrow> 'w eap_share \<Rightarrow> eap_priv \<times> 'w eap_share" where
  "identity_store lib d resp sh =
     (case eap_hdr_validate EAP_VENDOR_IETF EAP_TYPE_IDENTITY (Some resp) of
        None \<Rightarrow> (IdentityData d, sh)
      | Some (pos, len) \<Rightarrow>
          let (_, sh) = malloc_share lib sh;
              sh = (if eap_identity sh \<noteq> None then sh\<lparr>update_user := True\<rparr> else sh);
              (ok, sh) = malloc_share lib sh
          in if \<not> ok then (IdentityData (d\<lparr>id_state := FAILURE\<rparr>), sh\<lparr>eap_identity := None\<rparr>)
             else (IdentityData (d\<lparr>id_state := SUCCESS\<rparr>), sh\<lparr>eap_identity := Some (take len (drop pos resp))\<rparr>))"

definition eap_identity_process ::
  "'w eap_lib \<Rightarrow> eap_priv \<Rightarrow> bytes \<Rightarrow> 'w eap_share \<Rightarrow> (eap_priv \<times> 'w eap_share) option" where
  "eap_identity_process lib p resp sh =
     (case p of
        IdentityData d \<Rightarrow>
          if pick_up d \<and> eap_identity_check p resp sh then Some (IdentityData (d\<lparr>id_state := FAILURE\<rparr>), sh)
          else Some (identity_store lib (d\<lparr>pick_up := False\<rparr>) resp sh)
      | _ \<Rightarrow> Some (p, sh))"

definition eap_identity_isDone :: "eap_priv \<Rightarrow> 'w eap_share \<Rightarrow> bool" where
  "eap_identity_isDone p sh = (case p of IdentityData d \<Rightarrow> id_state d \<noteq> CONTINUE | _ \<Rightarrow> False)"

definition eap_identity_isSuccess :: "eap_priv \<Rightarrow> 'w eap_share \<Rightarrow> bool" where
  "eap_identity_isSuccess p sh = (case p of IdentityData d \<Rightarrow> id_state d = SUCCESS | _ \<Rightarrow> False)"

definition eap_server_identity :: "'w eap_lib \<Rightarrow> (eap_priv, 'w) eap_method" where
  "eap_server_identity lib =
     \<lparr>m_vendor = EAP_VENDOR_IETF, m_method = EAP_TYPE_IDENTITY, m_name = ''Identity'',
      m_init = eap_identity_init lib, m_initPickUp = Some (eap_identity_initPickUp lib), m_reset = eap_identity_reset,
      m_buildReq = eap_identity_buildReq lib, m_getTimeout = None, m_check = Some eap_identity_check,
      m_process = eap_identity_process lib, m_isDone = eap_identity_isDone, m_getKey = None,
      m_isSuccess = eap_identity_isSuccess, m_get_emsk = None, m_getSessionId = None\<rparr>"

section \<open>MD5-Challenge\<close>

definition CHALLENGE_LEN :: nat where "CHALLENGE_LEN = 16"
definition CHAP_MD5_LEN :: nat where "CHAP_MD5_LEN = 16"

definition chap_md5 :: "'w eap_lib \<Rightarrow> byte \<Rightarrow> bytes \<Rightarrow> bytes \<Rightarrow> bytes option" where
  "chap_md5 lib ident secret chal = md5_vector lib [[ident], secret, chal]"

definition eap_md5_init :: "'w eap_lib \<Rightarrow> 'w eap_share \<Rightarrow> eap_priv option \<times> 'w eap_share" where
  "eap_md5_init lib sh =
     (let (ok, sh) = malloc_share lib sh
      in (if ok then Some (Md5Data \<lparr>challenge = replicate CHALLENGE_LEN 0, md5_state = CONTINUE\<rparr>) else None, sh))"

definition eap_md5_reset :: "eap_priv \<Rightarrow> 'w eap_share \<Rightarrow> 'w eap_share" where
  "eap_md5_reset p sh = sh"

definition eap_md5_buildReq ::
  "'w eap_lib \<Rightarrow> eap_priv \<Rightarrow> byte \<Rightarrow> 'w eap_share \<Rightarrow> bytes option \<times> eap_priv \<times> 'w eap_share" where
  "eap_md5_buildReq lib p ident sh =
     (case p of
        Md5Data d \<Rightarrow>
          let (r, w) = random_get_bytes lib CHALLENGE_LEN (world sh); sh = sh\<lparr>world := w\<rparr>
          in (case r of
                None \<Rightarrow> (None, Md5Data (d\<lparr>md5_state := FAILURE\<rparr>), sh)
              | Some c \<Rightarrow>
                  let d = d\<lparr>challenge := c\<rparr>; (ok, sh) = malloc_share lib sh
                  in (case eap_msg_alloc ok EAP_VENDOR_IETF EAP_TYPE_MD5 (1 + CHALLENGE_LEN) EAP_CODE_REQUEST ident of
                        None \<Rightarrow> (None, Md5Data (d\<lparr>md5_state := FAILURE\<rparr>), sh)
                      | Some req \<Rightarrow>
                          (Some (req @ [of_nat CHALLENGE_LEN] @ challenge d), Md5Data (d\<lparr>md5_state := CONTINUE\<rparr>), sh)))
      | _ \<Rightarrow> (None, p, sh))"

definition eap_md5_check :: "eap_priv \<Rightarrow> bytes \<Rightarrow> 'w eap_share \<Rightarrow> bool" where
  "eap_md5_check p resp sh =
     (case eap_hdr_validate EAP_VENDOR_IETF EAP_TYPE_MD5 (Some resp) of
        None \<Rightarrow> True
      | Some (pos, len) \<Rightarrow> len < 1 \<or> unat (resp ! pos) \<noteq> CHAP_MD5_LEN \<or> 1 + CHAP_MD5_LEN > len)"

text \<open>The length of the response is read before the length of the payload is looked at.\<close>

definition eap_md5_process ::
  "'w eap_lib \<Rightarrow> eap_priv \<Rightarrow> bytes \<Rightarrow> 'w eap_share \<Rightarrow> (eap_priv \<times> 'w eap_share) option" where
  "eap_md5_process lib p resp sh =
     (case p of
        Md5Data d \<Rightarrow>
          (case (user sh, Option.bind (user sh) password) of
             (Some u, Some pw) \<Rightarrow>
               if password_hash u then Some (Md5Data (d\<lparr>md5_state := FAILURE\<rparr>), sh)
               else
                 (case eap_hdr_validate EAP_VENDOR_IETF EAP_TYPE_MD5 (Some resp) of
                    None \<Rightarrow> Some (p, sh)
                  | Some (pos, plen) \<Rightarrow>
                      if pos \<ge> length resp then None
                      else if unat (resp ! pos) \<noteq> CHAP_MD5_LEN \<or> plen < 1 + CHAP_MD5_LEN then Some (p, sh)
                      else
                        (case chap_md5 lib (eap_get_id resp) pw (challenge d) of
                           None \<Rightarrow> Some (Md5Data (d\<lparr>md5_state := FAILURE\<rparr>), sh)
                         | Some hash \<Rightarrow>
                             if os_memcmp_const hash (drop (pos + 1) resp) CHAP_MD5_LEN = 0
                             then Some (Md5Data (d\<lparr>md5_state := SUCCESS\<rparr>), sh)
                             else Some (Md5Data (d\<lparr>md5_state := FAILURE\<rparr>), sh)))
           | _ \<Rightarrow> Some (Md5Data (d\<lparr>md5_state := FAILURE\<rparr>), sh))
      | _ \<Rightarrow> Some (p, sh))"

definition eap_md5_isDone :: "eap_priv \<Rightarrow> 'w eap_share \<Rightarrow> bool" where
  "eap_md5_isDone p sh = (case p of Md5Data d \<Rightarrow> md5_state d \<noteq> CONTINUE | _ \<Rightarrow> False)"

definition eap_md5_isSuccess :: "eap_priv \<Rightarrow> 'w eap_share \<Rightarrow> bool" where
  "eap_md5_isSuccess p sh = (case p of Md5Data d \<Rightarrow> md5_state d = SUCCESS | _ \<Rightarrow> False)"

definition eap_server_md5 :: "'w eap_lib \<Rightarrow> (eap_priv, 'w) eap_method" where
  "eap_server_md5 lib =
     \<lparr>m_vendor = EAP_VENDOR_IETF, m_method = EAP_TYPE_MD5, m_name = ''MD5'',
      m_init = eap_md5_init lib, m_initPickUp = None, m_reset = eap_md5_reset,
      m_buildReq = eap_md5_buildReq lib, m_getTimeout = None, m_check = Some eap_md5_check,
      m_process = eap_md5_process lib, m_isDone = eap_md5_isDone, m_getKey = None,
      m_isSuccess = eap_md5_isSuccess, m_get_emsk = None, m_getSessionId = None\<rparr>"

section \<open>Generic Token Card\<close>

definition EAP_TYPE_GTC :: u32 where "EAP_TYPE_GTC = 6"

definition eap_gtc_init :: "'w eap_lib \<Rightarrow> 'w eap_share \<Rightarrow> eap_priv option \<times> 'w eap_share" where
  "eap_gtc_init lib sh =
     (let (ok, sh) = malloc_share lib sh
      in (if ok then Some (GtcData \<lparr>gtc_state = CONTINUE, prefix = False\<rparr>) else None, sh))"

definition eap_gtc_reset :: "eap_priv \<Rightarrow> 'w eap_share \<Rightarrow> 'w eap_share" where
  "eap_gtc_reset p sh = sh"

definition eap_gtc_buildReq ::
  "'w eap_lib \<Rightarrow> eap_priv \<Rightarrow> byte \<Rightarrow> 'w eap_share \<Rightarrow> bytes option \<times> eap_priv \<times> 'w eap_share" where
  "eap_gtc_buildReq lib p ident sh =
     (case p of
        GtcData d \<Rightarrow>
          let msg = map (\<lambda>c. of_nat (of_char c)) (if prefix d then ''CHALLENGE=Password'' else ''Password'');
              (ok, sh) = malloc_share lib sh
          in (case eap_msg_alloc ok EAP_VENDOR_IETF EAP_TYPE_GTC (length msg) EAP_CODE_REQUEST ident of
                None \<Rightarrow> (None, GtcData (d\<lparr>gtc_state := FAILURE\<rparr>), sh)
              | Some req \<Rightarrow> (Some (req @ msg), GtcData (d\<lparr>gtc_state := CONTINUE\<rparr>), sh))
      | _ \<Rightarrow> (None, p, sh))"

definition eap_gtc_check :: "eap_priv \<Rightarrow> bytes \<Rightarrow> 'w eap_share \<Rightarrow> bool" where
  "eap_gtc_check p resp sh =
     (case eap_hdr_validate EAP_VENDOR_IETF EAP_TYPE_GTC (Some resp) of
        None \<Rightarrow> True
      | Some (pos, len) \<Rightarrow> len < 1)"

definition eap_gtc_process ::
  "eap_priv \<Rightarrow> bytes \<Rightarrow> 'w eap_share \<Rightarrow> (eap_priv \<times> 'w eap_share) option" where
  "eap_gtc_process p resp sh =
     (case p of
        GtcData d \<Rightarrow>
          (case eap_hdr_validate EAP_VENDOR_IETF EAP_TYPE_GTC (Some resp) of
             None \<Rightarrow> Some (p, sh)
           | Some (pos, rlen) \<Rightarrow>
               if rlen < 1 then Some (p, sh)
               else
                 (case (user sh, Option.bind (user sh) password) of
                    (Some u, Some pw) \<Rightarrow>
                      if password_hash u then Some (GtcData (d\<lparr>gtc_state := FAILURE\<rparr>), sh)
                      else if rlen \<noteq> length pw \<or> os_memcmp_const (drop pos resp) pw rlen \<noteq> 0
                      then Some (GtcData (d\<lparr>gtc_state := FAILURE\<rparr>), sh)
                      else Some (GtcData (d\<lparr>gtc_state := SUCCESS\<rparr>), sh)
                  | _ \<Rightarrow> Some (GtcData (d\<lparr>gtc_state := FAILURE\<rparr>), sh)))
      | _ \<Rightarrow> Some (p, sh))"

definition eap_gtc_isDone :: "eap_priv \<Rightarrow> 'w eap_share \<Rightarrow> bool" where
  "eap_gtc_isDone p sh = (case p of GtcData d \<Rightarrow> gtc_state d \<noteq> CONTINUE | _ \<Rightarrow> False)"

definition eap_gtc_isSuccess :: "eap_priv \<Rightarrow> 'w eap_share \<Rightarrow> bool" where
  "eap_gtc_isSuccess p sh = (case p of GtcData d \<Rightarrow> gtc_state d = SUCCESS | _ \<Rightarrow> False)"

definition eap_server_gtc :: "'w eap_lib \<Rightarrow> (eap_priv, 'w) eap_method" where
  "eap_server_gtc lib =
     \<lparr>m_vendor = EAP_VENDOR_IETF, m_method = EAP_TYPE_GTC, m_name = ''GTC'',
      m_init = eap_gtc_init lib, m_initPickUp = None, m_reset = eap_gtc_reset,
      m_buildReq = eap_gtc_buildReq lib, m_getTimeout = None, m_check = Some eap_gtc_check,
      m_process = eap_gtc_process, m_isDone = eap_gtc_isDone, m_getKey = None,
      m_isSuccess = eap_gtc_isSuccess, m_get_emsk = None, m_getSessionId = None\<rparr>"

section \<open>Registration\<close>

definition EAP_SERVER_METHOD_INTERFACE_VERSION :: int where "EAP_SERVER_METHOD_INTERFACE_VERSION = 1"

text \<open>
  The list of registered methods grows at its end; a method of a vendor and type or with a name
  that is there already is refused. A null pointer is \<open>None\<close>.
\<close>

fun eap_server_method_register ::
  "(int \<times> ('p, 'w) eap_method) option \<Rightarrow> ('p, 'w) eap_method list \<Rightarrow> int \<times> ('p, 'w) eap_method list" where
  "eap_server_method_register None ms = (-1, ms)"
| "eap_server_method_register (Some (version, x)) ms =
     (if version \<noteq> EAP_SERVER_METHOD_INTERFACE_VERSION then (-1, ms)
      else if \<exists>y \<in> set ms. (m_vendor y = m_vendor x \<and> m_method y = m_method x) \<or> m_name y = m_name x then (-2, ms)
      else (0, ms @ [x]))"

text \<open>A method registers itself in a structure it allocates.\<close>

definition register_new ::
  "(bool \<times> ('p, 'w) eap_method) \<Rightarrow> int \<times> ('p, 'w) eap_method list \<Rightarrow> int \<times> ('p, 'w) eap_method list" where
  "register_new rx st =
     (if fst st \<noteq> 0 then st
      else if \<not> fst rx then (-1, snd st)
      else eap_server_method_register (Some (EAP_SERVER_METHOD_INTERFACE_VERSION, snd rx)) (snd st))"

text \<open>The registration of the three methods at the start, each with the success of its allocation.\<close>

definition eap_server_register_methods ::
  "'w eap_lib \<Rightarrow> bool \<Rightarrow> bool \<Rightarrow> bool \<Rightarrow> int \<times> (eap_priv, 'w) eap_method list" where
  "eap_server_register_methods lib a b c =
     register_new (c, eap_server_gtc lib) (register_new (b, eap_server_md5 lib)
       (register_new (a, eap_server_identity lib) (0, [])))"

definition eap_server_get_type :: "('p, 'w) eap_method list \<Rightarrow> string \<Rightarrow> int \<times> u32" where
  "eap_server_get_type ms nm =
     (case List.find (\<lambda>x. m_name x = nm) ms of
        None \<Rightarrow> (EAP_VENDOR_IETF, EAP_TYPE_NONE)
      | Some x \<Rightarrow> (m_vendor x, m_method x))"

definition eap_server_get_name :: "('p, 'w) eap_method list \<Rightarrow> int \<Rightarrow> u32 \<Rightarrow> string" where
  "eap_server_get_name ms v t =
     (if v = EAP_VENDOR_IETF \<and> t = EAP_TYPE_EXPANDED then ''expanded''
      else case List.find (\<lambda>x. m_vendor x = v \<and> m_method x = t) ms of
             None \<Rightarrow> ''unknown''
           | Some x \<Rightarrow> m_name x)"

primrec eap_server_unregister_methods :: "('p, 'w) eap_method list \<Rightarrow> ('p, 'w) eap_method list" where
  "eap_server_unregister_methods [] = []"
| "eap_server_unregister_methods (x # ms) = eap_server_unregister_methods ms"

definition built_in :: "'w eap_lib \<Rightarrow> (eap_priv, 'w) eap_method list" where
  "built_in lib = [eap_server_identity lib, eap_server_md5 lib, eap_server_gtc lib]"

lemma registered: "eap_server_register_methods lib True True True = (0, built_in lib)"
  by (simp add: eap_server_register_methods_def register_new_def built_in_def eap_server_identity_def eap_server_md5_def
      eap_server_gtc_def eap_consts EAP_TYPE_GTC_def)

section \<open>The contract of the methods\<close>

text \<open>
  A frame that a method can process: for MD5 the payload has to be there, since its first byte is
  read without looking at its length.
\<close>

definition takes_frame :: "(eap_priv, 'w) eap_method \<Rightarrow> bytes \<Rightarrow> bool" where
  "takes_frame x b \<longleftrightarrow> m_method x = EAP_TYPE_MD5 \<longrightarrow>
     (\<forall>pos len. eap_hdr_validate EAP_VENDOR_IETF EAP_TYPE_MD5 (Some b) = Some (pos, len) \<longrightarrow> pos < length b)"

text \<open>An environment with these methods, whose allocator is the one they use and never fails.\<close>

definition built_in_env :: "'w eap_lib \<Rightarrow> (eap_priv, 'w) eap_env \<Rightarrow> bool" where
  "built_in_env lib env \<longleftrightarrow> eap_methods env = built_in lib \<and> (\<forall>w. fst (lib_malloc lib w))"

lemma hdr_validate_bounds:
  "eap_hdr_validate v t (Some b) = Some (pos, len) \<Longrightarrow> pos + len \<le> length b"
  by (auto simp: eap_hdr_validate_def eap_hdr_len_valid_def Let_def split: if_splits)

lemmas method_defs = eap_server_identity_def eap_server_md5_def eap_server_gtc_def

lemma built_in_distinct [simp]: "EAP_TYPE_IDENTITY \<noteq> EAP_TYPE_MD5" "EAP_TYPE_GTC \<noteq> EAP_TYPE_MD5" "EAP_TYPE_IDENTITY \<noteq> EAP_TYPE_GTC"
  "EAP_TYPE_MD5 \<noteq> EAP_TYPE_IDENTITY" "EAP_TYPE_MD5 \<noteq> EAP_TYPE_GTC" "EAP_TYPE_GTC \<noteq> EAP_TYPE_IDENTITY"
  "EAP_TYPE_NONE \<noteq> EAP_TYPE_IDENTITY" "EAP_TYPE_NONE \<noteq> EAP_TYPE_MD5" "EAP_TYPE_NONE \<noteq> EAP_TYPE_GTC"
  "EAP_TYPE_IDENTITY \<noteq> EAP_TYPE_NONE" "EAP_TYPE_MD5 \<noteq> EAP_TYPE_NONE" "EAP_TYPE_GTC \<noteq> EAP_TYPE_NONE"
  by (simp_all add: eap_consts EAP_TYPE_GTC_def)

lemma malloc_same [simp]: "snd (malloc_share lib sh) = sh\<lparr>world := snd (lib_malloc lib (world sh))\<rparr>"
  "fst (malloc_share lib sh) = fst (lib_malloc lib (world sh))"
  by (simp_all add: malloc_share_def split_beta)

lemma built_in_init:
  "x \<in> set (built_in lib) \<Longrightarrow> snd (m_init x sh) = sh\<lparr>world := snd (lib_malloc lib (world sh))\<rparr>"
  by (auto simp: built_in_def method_defs eap_identity_init_def eap_md5_init_def eap_gtc_init_def split_beta)

lemma built_in_process:
  assumes "x \<in> set (built_in lib)" and "m_process x p b sh = Some (p', sh')"
  shows "user sh' = user sh \<and> method_pending sh' = method_pending sh"
  using assms
  by (auto simp: built_in_def method_defs eap_identity_process_def identity_store_def eap_md5_process_def eap_gtc_process_def
      malloc_share_def Let_def split_beta split: eap_priv.splits option.splits if_splits)

lemma built_in_contract:
  assumes "built_in_env lib env"
  shows "eap_method_contract env takes_frame"
proof
  have m: "eap_methods env = built_in lib" and a: "\<And>w. fst (lib_malloc lib w)" using assms by (auto simp: built_in_env_def)
  show "same_choice sh (snd (m_init x sh))" if "x \<in> set (eap_methods env)" for x sh
    using that built_in_init [of x lib sh] by (simp add: m same_choice_def)
  show "same_choice sh (m_reset x p sh)" if "x \<in> set (eap_methods env)" for x sh p
    using that by (auto simp: m built_in_def method_defs eap_identity_reset_def eap_md5_reset_def eap_gtc_reset_def same_choice_def)
  show "fst (m_init x sh) \<noteq> None" if "eap_server_get_eap_method env EAP_VENDOR_IETF EAP_TYPE_IDENTITY = Some x" for x sh
    using that a by (auto simp: eap_server_get_eap_method_def m built_in_def method_defs eap_identity_init_def split_beta)
  show "eap_server_get_eap_method env EAP_VENDOR_IETF EAP_TYPE_NONE = None"
    by (simp add: eap_server_get_eap_method_def m built_in_def method_defs)
  show "m_check x \<noteq> None" if "x \<in> set (eap_methods env)" for x using that by (auto simp: m built_in_def method_defs)
  show "takes_frame x b" if "x \<in> set (eap_methods env)" "m_check x = Some check" "\<not> check p b sh" for x check p b sh
    using that hdr_validate_bounds
    by (fastforce simp: m built_in_def method_defs takes_frame_def eap_md5_check_def)
  show "takes_frame x b" if "x \<in> set (eap_methods env)" "m_initPickUp x \<noteq> None" for x b
    using that by (auto simp: m built_in_def method_defs takes_frame_def)
  show "m_process x p b sh \<noteq> None" if "x \<in> set (eap_methods env)" "takes_frame x b" for x p b sh
    using that
    by (auto simp: m built_in_def method_defs takes_frame_def eap_identity_process_def eap_md5_process_def eap_gtc_process_def
        not_le [symmetric] split: eap_priv.splits option.splits if_splits)
  show "no_resume sh sh'" if "x \<in> set (eap_methods env)" "m_process x p b sh = Some (p', sh')" for x p b sh p' sh'
    using built_in_process [of x lib p b sh p' sh'] that by (simp add: m no_resume_def)
qed (use assms in \<open>auto simp: built_in_env_def built_in_def method_defs\<close>)

text \<open>The environment of a server that has these methods and enough memory.\<close>

definition server_env :: "'w eap_lib \<Rightarrow> (eap_priv, 'w) eap_env \<Rightarrow> (eap_priv, 'w) eap_env" where
  "server_env lib env = env\<lparr>eap_methods := built_in (lib\<lparr>lib_malloc := Pair True\<rparr>), os_malloc := Pair True\<rparr>"

lemma server_env_built_in: "built_in_env (lib\<lparr>lib_malloc := Pair True\<rparr>) (server_env lib env)"
  by (simp add: built_in_env_def server_env_def)

interpretation meth: eap_method_contract "server_env lib env" takes_frame for lib env
  by (rule built_in_contract) (rule server_env_built_in)

end
