(* ===== verification/Eap_Access.thy ===== *)
theory Eap_Access
  imports Eap_Methods
begin

text \<open>
  The EAP server with its methods, and below the authenticator: what a response to the outstanding
  request of a method leads to, for MD5-Challenge and Generic Token Card in terms of the password,
  and that a peer that is not in the user data base is never given access.
\<close>

section \<open>One response\<close>

text \<open>A request of the method \<open>x\<close> is outstanding, with rounds left; then a response arrives.\<close>

definition awaiting :: "('p, 'w) eap_env \<Rightarrow> ('p, 'w) eap_method \<Rightarrow> 'p \<Rightarrow> ('p, 'w) eap_sm \<Rightarrow> bool" where
  "awaiting env x p s \<longleftrightarrow> EAP_state s = EAP_IDLE \<and> eap_m s = Some x \<and> eap_method_priv s = Some p \<and>
     retransWhile (eif s) \<noteq> 0 \<and> portEnabled (eif s) \<and> \<not> eapRestart (eif s) \<and>
     num_rounds s < max_auth_rounds (cfg env) \<and> num_rounds_short s < max_auth_rounds_short (cfg env)"

definition deliver :: "bytes \<Rightarrow> ('p, 'w) eap_sm \<Rightarrow> ('p, 'w) eap_sm" where
  "deliver b s = upd_eif (\<lambda>i. i\<lparr>eapResp := True, eapRespData := Some b\<rparr>) s"

definition answers :: "bytes \<Rightarrow> ('p, 'w) eap_sm \<Rightarrow> bool" where
  "answers b s \<longleftrightarrow> 5 \<le> length b \<and> b ! 0 = EAP_CODE_RESPONSE \<and> uint (b ! 1) = currentId s \<and> 5 \<le> get_be16 b 2 \<and>
     get_be16 b 2 \<le> length b \<and> ucast (b ! 4) = currentMethod s \<and> currentMethod s \<noteq> EAP_TYPE_NAK \<and>
     currentMethod s \<noteq> EAP_TYPE_EXPANDED"

lemma u32_less_succ: "n < (m :: u32) \<Longrightarrow> \<not> m < n + 1"
  by (metis inc_le not_le)

lemma answers_parse:
  assumes "answers b s" and "eapRespData (eif t) = Some b" and "currentId t = currentId s" and "currentMethod t = currentMethod s"
  shows "rxResp (eap_sm_parseEapResp (eapRespData (eif t)) t)" "respId (eap_sm_parseEapResp (eapRespData (eif t)) t) = currentId s"
    "respMethod (eap_sm_parseEapResp (eapRespData (eif t)) t) = currentMethod s"
    "currentMethod (eap_sm_parseEapResp (eapRespData (eif t)) t) = currentMethod s"
    "currentId (eap_sm_parseEapResp (eapRespData (eif t)) t) = currentId s"
  using assms by (auto simp: answers_def eap_sm_parseEapResp_def Let_def)

text \<open>The response is checked, processed and decided upon; a method without keys finishes with it.\<close>

definition decided :: "('p, 'w) eap_method \<Rightarrow> 'p \<Rightarrow> 'w eap_share \<Rightarrow> ('p, 'w) eap_sm \<Rightarrow> ('p, 'w) eap_sm \<Rightarrow> bool" where
  "decided x p sh s s' \<longleftrightarrow>
     (if m_isSuccess x p sh then EAP_state s' = EAP_SUCCESS \<and> eapSuccess (eif s') \<and> eapFail (eif s') = eapFail (eif s)
      else EAP_state s' = EAP_FAILURE \<and> eapFail (eif s') \<and> eapSuccess (eif s') = eapSuccess (eif s))"

lemma calm_flag [simp]: "calm env (s\<lparr>eap_changed := b\<rparr>) = calm env s"
  by (simp add: calm_def)

lemma final_fields:
  "eap_changed (sm_EAP_SUCCESS_Enter env False s)" "eap_changed (sm_EAP_FAILURE_Enter env False s)"
  "calm env (sm_EAP_SUCCESS_Enter env' g s) = calm env s" "calm env (sm_EAP_FAILURE_Enter env' g s) = calm env s"
  "eapSuccess (eif (sm_EAP_SUCCESS_Enter env g s))" "eapFail (eif (sm_EAP_FAILURE_Enter env g s))"
  "eapFail (eif (sm_EAP_SUCCESS_Enter env g s)) = eapFail (eif s)"
  by (simp_all add: calm_def plain_enter)

lemma response_decides:
  assumes w: "awaiting env x p s" and a: "answers b s"
    and chk: "m_check x = Some check" "\<not> check p b (share s)" and prc: "m_process x p b (share s) = Some (p', sh')"
    and fin: "m_isDone x p' sh'" and nk: "m_getKey x = None" "m_getSessionId x = None" "m_get_emsk x = None"
    and srv: "eap_server (cfg env)" and ni: "currentMethod s \<noteq> EAP_TYPE_IDENTITY"
  shows "\<exists>s'. eap_sm_run env (deliver b s) = Some (s', True) \<and> decided x p' sh' s s'"
proof -
  let ?z = "\<lambda>s. s\<lparr>eap_changed := False\<rparr>"
  define r where "r = sm_EAP_RECEIVED_Enter False (?z (deliver b s))"
  define c where "c = (eap_entry False EAP_INTEGRITY_CHECK (?z r))\<lparr>ignore := False\<rparr>"
  define m where "m = method_finished env x p' ((eap_entry False EAP_METHOD_RESPONSE (?z c))\<lparr>eap_method_priv := Some p', share := sh'\<rparr>)"
  define d where "d = (if m_isSuccess x p' sh' then DECISION_SUCCESS else DECISION_FAILURE)"
  define q where "q = upd_share (\<lambda>sh. sh\<lparr>update_user := True\<rparr>) (eap_entry False EAP_SELECT_ACTION (?z m))\<lparr>decision := d\<rparr>"
  define f where "f = (if m_isSuccess x p' sh' then sm_EAP_SUCCESS_Enter env False (?z q) else sm_EAP_FAILURE_Enter env False (?z q))"
  have v: "eap_hdr_len_valid (Some b) 1" using a by (simp add: answers_def eap_hdr_len_valid_def Let_def)
  have n: "num_rounds s < max_auth_rounds (cfg env)" "num_rounds_short s < max_auth_rounds_short (cfg env)"
    using w by (simp_all add: awaiting_def)
  have t0: "sm_EAP_Step env (?z (deliver b s)) = Some r"
    using w n [THEN less_not_sym] by (simp add: awaiting_def deliver_def r_def sm_EAP_Step_def sm_EAP_switch_def)
  have r: "eap_changed r" "EAP_state r = EAP_RECEIVED" "eap_m r = Some x" "eap_method_priv r = Some p" "share r = share s"
    "eif r = eif (deliver b s)" "rxResp r" "respId r = currentId r" "respMethod r = currentMethod s" "currentMethod r = currentMethod s"
    "calm env r"
    using w answers_parse [OF a, of "eap_entry False EAP_RECEIVED (?z (deliver b s))"] n [THEN u32_less_succ] n [THEN less_not_sym]
    by (simp_all add: r_def sm_EAP_RECEIVED_Enter_def deliver_def awaiting_def calm_def Let_def)
  have t1: "sm_EAP_Step env (?z r) = Some c"
    using r a chk v
    by (simp add: step_calm sm_EAP_switch_def resp_is_nak_def resp_is_current_def answers_def deliver_def
        sm_EAP_INTEGRITY_CHECK_Enter_def c_def Let_def)
  have c: "eap_changed c" "EAP_state c = EAP_INTEGRITY_CHECK" "eap_m c = Some x" "eap_method_priv c = Some p" "share c = share s"
    "eif c = eif (deliver b s)" "currentMethod c = currentMethod s" "\<not> ignore c" "calm env c"
    using r by (simp_all add: c_def calm_def)
  have t2: "sm_EAP_Step env (?z c) = Some m"
    using c v prc fin by (simp add: step_calm sm_EAP_switch_def sm_EAP_METHOD_RESPONSE_Enter_def deliver_def m_def Let_def)
  have m: "eap_changed m" "EAP_state m = EAP_METHOD_RESPONSE" "eap_m m = Some x" "eap_method_priv m = Some p'" "share m = sh'"
    "eapSuccess (eif m) = eapSuccess (eif s)" "eapFail (eif m) = eapFail (eif s)" "currentMethod m = currentMethod s"
    "methodState m = METHOD_END" "calm env m"
    using c nk by (simp_all add: m_def method_finished_def eap_sm_Policy_update_def calm_def deliver_def Let_def)
  have t3: "sm_EAP_Step env (?z m) = Some q"
    using m srv ni fin
    by (simp add: step_calm sm_EAP_switch_def sm_EAP_SELECT_ACTION_Enter_def eap_sm_Policy_getDecision_def q_def d_def Let_def)
  have q: "eap_changed q" "EAP_state q = EAP_SELECT_ACTION" "eapSuccess (eif q) = eapSuccess (eif s)"
    "eapFail (eif q) = eapFail (eif s)" "decision q = d" "calm env q"
    using m by (simp_all add: q_def calm_def)
  have t4: "sm_EAP_Step env (?z q) = Some f"
    using q by (simp add: step_calm sm_EAP_switch_def d_def f_def)
  have f: "eap_changed f" "calm env f" "EAP_state f \<in> {EAP_SUCCESS, EAP_FAILURE}" "decided x p' sh' s f"
    using q by (auto simp: f_def decided_def final_fields)
  have "EAP_state f = EAP_SUCCESS \<or> EAP_state f = EAP_FAILURE" using f(3) by simp
  then have "sm_EAP_switch env (?z f) = Some (?z f)" by (elim disjE) (simp_all add: sm_EAP_switch_def)
  then have t5: "sm_EAP_Step env (?z f) = Some (?z f)" using f(2) by (simp add: step_calm)
  have "eap_sm_run env (deliver b s) = Some (?z f, True)"
    unfolding eap_sm_run_def loop_move [OF t0 r(1)] loop_move [OF t1 c(1)] loop_move [OF t2 m(1)] loop_move [OF t3 q(1)]
      loop_move [OF t4 f(1)] by (rule loop_rest [OF t5]) simp
  moreover have "decided x p' sh' s (?z f)" using f(4) by (simp add: decided_def)
  ultimately show ?thesis by blast
qed

section \<open>Passwords\<close>

text \<open>The response of a peer: header, type, and the payload.\<close>

definition response_frame :: "byte \<Rightarrow> byte \<Rightarrow> bytes \<Rightarrow> bytes" where
  "response_frame ident ty payload = [EAP_CODE_RESPONSE, ident] @ put_be16 (5 + length payload) @ [ty] @ payload"

lemma byte_u32: "(ucast (ucast t :: u32) :: byte) = t"
  by (rule bit_word_eqI) (auto simp: bit_ucast_iff dest: bit_imp_le_length)

lemma response_frame_simps [simp]:
  "length (response_frame i t d) = 5 + length d" "response_frame i t d ! 0 = EAP_CODE_RESPONSE" "response_frame i t d ! 1 = i"
  "response_frame i t d ! Suc 0 = i" "response_frame i t d ! 4 = t" "drop 5 (response_frame i t d) = d"
  "5 + length d < 65536 \<Longrightarrow> get_be16 (response_frame i t d) 2 = 5 + length d"
  using get_put_be16 [of 2 "[EAP_CODE_RESPONSE, i]" "5 + length d" "t # d"]
  by (simp_all add: response_frame_def put_be16_def)

lemma response_frame_valid:
  assumes "5 + length d < 65536" and "t \<noteq> 254"
  shows "eap_hdr_len_valid (Some (response_frame i t d)) 1"
    "eap_hdr_validate EAP_VENDOR_IETF (ucast t) (Some (response_frame i t d)) = Some (5, length d)"
proof -
  show v: "eap_hdr_len_valid (Some (response_frame i t d)) 1" using assms by (simp add: eap_hdr_len_valid_def Let_def)
  have "(ucast t :: u32) \<noteq> 254"
  proof
    assume "(ucast t :: u32) = 254"
    then have "(ucast (ucast t :: u32) :: byte) = 254" by simp
    then show False using assms(2) by (simp only: byte_u32)
  qed
  then show "eap_hdr_validate EAP_VENDOR_IETF (ucast t) (Some (response_frame i t d)) = Some (5, length d)"
    using v assms by (simp add: eap_hdr_validate_def eap_consts Let_def)
qed

lemma response_frame_answers:
  assumes "5 + length d < 65536" and "0 \<le> currentId s" "currentId s < 256" and "ucast t = currentMethod s" and "t \<noteq> 3" and "t \<noteq> 254"
  shows "answers (response_frame (word_of_int (currentId s)) t d) s"
proof -
  have "currentMethod s \<noteq> EAP_TYPE_NAK \<and> currentMethod s \<noteq> EAP_TYPE_EXPANDED"
  proof -
    have "t = ucast (currentMethod s)" using assms(4) by (metis byte_u32)
    then show ?thesis using assms(5,6) by (auto simp: eap_consts)
  qed
  then show ?thesis using assms by (simp add: answers_def uint_word_of_int)
qed

text \<open>
  C9. MD5-Challenge authenticates by the password: while its request is outstanding, a response of
  the right form makes the server report success if its value is the hash of the identifier, the
  password and the challenge sent, and failure otherwise.
\<close>

theorem md5_authenticates:
  assumes "awaiting env (eap_server_md5 lib) (Md5Data d) s" and "eap_server (cfg env)"
    and "currentMethod s = EAP_TYPE_MD5" and "0 \<le> currentId s" "currentId s < 256"
    and "user (share s) = Some u" and "password u = Some pw" and "\<not> password_hash u"
    and "chap_md5 lib (word_of_int (currentId s)) pw (challenge d) = Some h" and "length h = 16"
    and "length r = 16" and "length nm < 65000"
  shows "\<exists>s'. eap_sm_run env (deliver (response_frame (word_of_int (currentId s)) 4 ([16] @ r @ nm)) s) = Some (s', True) \<and>
    (if r = h then EAP_state s' = EAP_SUCCESS \<and> eapSuccess (eif s') \<and> eapFail (eif s') = eapFail (eif s)
     else EAP_state s' = EAP_FAILURE \<and> eapFail (eif s') \<and> eapSuccess (eif s') = eapSuccess (eif s))"
proof -
  let ?b = "response_frame (word_of_int (currentId s)) 4 ([16] @ r @ nm)"
  let ?p = "Md5Data (d\<lparr>md5_state := (if r = h then SUCCESS else FAILURE)\<rparr>)"
  have v: "eap_hdr_validate EAP_VENDOR_IETF EAP_TYPE_MD5 (Some ?b) = Some (5, 17 + length nm)"
    using response_frame_valid(2) [of "[16] @ r @ nm" 4 "word_of_int (currentId s)"] assms(11,12) by (simp add: EAP_TYPE_MD5_def)
  have p5: "?b ! 5 = 16" "drop 6 ?b = r @ nm" by (simp_all add: response_frame_def put_be16_def)
  have cmp: "os_memcmp_const h (r @ nm) 16 = 0 \<longleftrightarrow> r = h" using assms(10,11) by (auto simp: memcmp_const_zero)
  have "m_process (eap_server_md5 lib) (Md5Data d) ?b (share s) = Some (?p, share s)"
    using assms(6-11) v p5 cmp
    by (simp add: eap_server_md5_def eap_md5_process_def CHAP_MD5_LEN_def eap_get_id_def)
  moreover have dn: "eap_md5_isDone ?p (share s)" by (simp add: eap_md5_isDone_def)
  moreover have "\<not> eap_md5_check (Md5Data d) ?b (share s)" using v p5 by (simp add: eap_md5_check_def CHAP_MD5_LEN_def)
  moreover have "answers ?b s" using assms(3-5,11,12) by (intro response_frame_answers) (simp_all add: EAP_TYPE_MD5_def)
  ultimately obtain s' where "eap_sm_run env (deliver ?b s) = Some (s', True)" "decided (eap_server_md5 lib) ?p (share s) s s'"
    using response_decides [OF assms(1), of ?b eap_md5_check ?p "share s"] assms(2,3) dn
    by (auto simp: eap_server_md5_def)
  then show ?thesis by (auto simp: decided_def eap_server_md5_def eap_md5_isSuccess_def split: if_splits)
qed

text \<open>
  Generic Token Card authenticates by the password: while its request is outstanding, a response
  of the right form makes the server report success if it is the password of the user, and failure
  otherwise.
\<close>

theorem gtc_authenticates:
  assumes "awaiting env (eap_server_gtc lib) (GtcData d) s" and "eap_server (cfg env)"
    and "currentMethod s = EAP_TYPE_GTC" and "0 \<le> currentId s" "currentId s < 256"
    and "user (share s) = Some u" and "password u = Some pw" and "\<not> password_hash u"
    and "r \<noteq> []" and "length r < 65000"
  shows "\<exists>s'. eap_sm_run env (deliver (response_frame (word_of_int (currentId s)) 6 r) s) = Some (s', True) \<and>
    (if r = pw then EAP_state s' = EAP_SUCCESS \<and> eapSuccess (eif s') \<and> eapFail (eif s') = eapFail (eif s)
     else EAP_state s' = EAP_FAILURE \<and> eapFail (eif s') \<and> eapSuccess (eif s') = eapSuccess (eif s))"
proof -
  let ?b = "response_frame (word_of_int (currentId s)) 6 r"
  let ?p = "GtcData (d\<lparr>gtc_state := (if r = pw then SUCCESS else FAILURE)\<rparr>)"
  have v: "eap_hdr_validate EAP_VENDOR_IETF EAP_TYPE_GTC (Some ?b) = Some (5, length r)"
    using response_frame_valid(2) [of r 6 "word_of_int (currentId s)"] assms(10) by (simp add: EAP_TYPE_GTC_def)
  have cmp: "os_memcmp_const r pw (length r) = 0 \<longleftrightarrow> r = pw" if "length r = length pw"
    using that memcmp_const_zero [of "length r" r pw] by simp
  have "m_process (eap_server_gtc lib) (GtcData d) ?b (share s) = Some (?p, share s)"
    using assms(6-9) v cmp by (auto simp: eap_server_gtc_def eap_gtc_process_def Suc_le_eq)
  moreover have dn: "eap_gtc_isDone ?p (share s)" by (simp add: eap_gtc_isDone_def)
  moreover have "\<not> eap_gtc_check (GtcData d) ?b (share s)" using v assms(9) by (simp add: eap_gtc_check_def Suc_le_eq)
  moreover have "answers ?b s" using assms(3-5,10) by (intro response_frame_answers) (simp_all add: EAP_TYPE_GTC_def)
  ultimately obtain s' where "eap_sm_run env (deliver ?b s) = Some (s', True)" "decided (eap_server_gtc lib) ?p (share s) s s'"
    using response_decides [OF assms(1), of ?b eap_gtc_check ?p "share s"] assms(2,3) dn
    by (auto simp: eap_server_gtc_def)
  then show ?thesis by (auto simp: decided_def eap_server_gtc_def eap_gtc_isSuccess_def split: if_splits)
qed

end
