(* ===== verification/Eap_Compose.thy ===== *)
theory Eap_Compose
  imports Eap_Access
begin

text \<open>
  The authenticator of \<open>Eapol_Auth\<close> with the EAP server of \<open>Eap_Server\<close> behind it: a peer that the
  user data base does not know is never given access, whatever frames it sends, and the server
  always returns.
\<close>

section \<open>The EAP server and an unknown peer\<close>

text \<open>No identity is found in the user data base.\<close>

definition unknown_peer :: "('p, 'w) eap_env \<Rightarrow> bool" where
  "unknown_peer env \<longleftrightarrow> eap_server (cfg env) \<and>
     (\<forall>get ident ph2 w. get_eap_user env = Some get \<longrightarrow> \<not> fst (get ident ph2 w))"

text \<open>The part of the machine that matters: the user, the keys, the method and the decision.\<close>

definition stake :: "('p, 'w) eap_sm \<Rightarrow>
  eap_user option \<times> pending_state \<times> eap_server_erp_key list \<times> ('p, 'w) eap_method option \<times> u32 \<times> eap_decision" where
  "stake s = (user (share s), method_pending (share s), erp_keys s, eap_m s, currentMethod s, decision s)"

text \<open>Nothing but the Identity method runs, and nothing was decided in favour of the peer.\<close>

definition stranger :: "('p, 'w) eap_env \<Rightarrow> ('p, 'w) eap_sm \<Rightarrow> bool" where
  "stranger env s \<longleftrightarrow> user (share s) = None \<and> method_pending (share s) = METHOD_PENDING_NONE \<and> erp_keys s = [] \<and>
     (\<forall>x. eap_m s = Some x \<longrightarrow> x \<in> set (eap_methods env) \<and> currentMethod s = EAP_TYPE_IDENTITY) \<and>
     decision s \<noteq> DECISION_PASSTHROUGH \<and> (EAP_state s = EAP_SELECT_ACTION \<longrightarrow> decision s \<noteq> DECISION_SUCCESS)"

definition passes_through :: "eap_state \<Rightarrow> bool" where
  "passes_through st \<longleftrightarrow> st \<in> {EAP_INITIALIZE_PASSTHROUGH, EAP_IDLE2, EAP_RETRANSMIT2, EAP_RECEIVED2, EAP_DISCARD2,
     EAP_SEND_REQUEST2, EAP_AAA_REQUEST, EAP_AAA_RESPONSE, EAP_AAA_IDLE, EAP_TIMEOUT_FAILURE2, EAP_FAILURE2, EAP_SUCCESS2}"

lemma passes_simps [simp]:
  "\<not> passes_through EAP_DISABLED" "\<not> passes_through EAP_INITIALIZE" "\<not> passes_through EAP_PICK_UP_METHOD"
  "\<not> passes_through EAP_IDLE" "\<not> passes_through EAP_RETRANSMIT" "\<not> passes_through EAP_RECEIVED"
  "\<not> passes_through EAP_DISCARD" "\<not> passes_through EAP_SEND_REQUEST" "\<not> passes_through EAP_INTEGRITY_CHECK"
  "\<not> passes_through EAP_METHOD_REQUEST" "\<not> passes_through EAP_METHOD_RESPONSE"
  "\<not> passes_through EAP_PROPOSE_METHOD" "\<not> passes_through EAP_NAK" "\<not> passes_through EAP_SELECT_ACTION"
  "\<not> passes_through EAP_TIMEOUT_FAILURE" "\<not> passes_through EAP_FAILURE" "\<not> passes_through EAP_SUCCESS"
  "\<not> passes_through EAP_INITIATE_REAUTH_START" "\<not> passes_through EAP_INITIATE_RECEIVED"
  "passes_through EAP_INITIALIZE_PASSTHROUGH" "passes_through EAP_IDLE2" "passes_through EAP_RETRANSMIT2"
  "passes_through EAP_RECEIVED2" "passes_through EAP_DISCARD2" "passes_through EAP_SEND_REQUEST2" "passes_through EAP_AAA_REQUEST"
  "passes_through EAP_AAA_RESPONSE" "passes_through EAP_AAA_IDLE" "passes_through EAP_TIMEOUT_FAILURE2"
  "passes_through EAP_FAILURE2" "passes_through EAP_SUCCESS2"
  by (simp_all add: passes_through_def)

lemma stake_plain [simp]:
  "stake (sm_EAP_IDLE_Enter g s) = stake s" "stake (sm_EAP_RETRANSMIT_Enter env g s) = stake s"
  "stake (sm_EAP_DISCARD_Enter g s) = stake s" "stake (sm_EAP_SEND_REQUEST_Enter env g s) = stake s"
  "stake (sm_EAP_TIMEOUT_FAILURE_Enter g s) = stake s" "stake (sm_EAP_FAILURE_Enter env g s) = stake s"
  "stake (sm_EAP_SUCCESS_Enter env g s) = stake s" "stake (sm_EAP_DISABLED_Enter g s) = stake s"
  "stake (sm_EAP_RECEIVED_Enter g s) = stake s" "stake (eap_entry g st s) = stake s" "stake (s\<lparr>eap_changed := b\<rparr>) = stake s"
  "stake (s\<lparr>num_rounds := n\<rparr>) = stake s" "stake (s\<lparr>num_rounds_short := n\<rparr>) = stake s" "stake (s\<lparr>try_initiate_reauth := b\<rparr>) = stake s"
  by (simp_all add: stake_def plain_enter sm_EAP_RECEIVED_Enter_def sm_EAP_DISABLED_Enter_def eap_sm_parseEapResp_def Let_def
      split: option.split)

lemma stake_stranger:
  "stake s' = stake s \<Longrightarrow> stranger env s \<Longrightarrow> EAP_state s' \<noteq> EAP_SELECT_ACTION \<or> EAP_state s = EAP_SELECT_ACTION \<Longrightarrow> stranger env s'"
  by (auto simp: stake_def stranger_def)

definition same_user :: "'w eap_share \<Rightarrow> 'w eap_share \<Rightarrow> bool" where
  "same_user sh sh' \<longleftrightarrow> user sh' = user sh \<and> method_pending sh' = method_pending sh"

lemma built_in_keeps:
  assumes "x \<in> set (built_in lib)"
  shows "same_user sh (snd (m_init x sh))" "m_reset x p sh = sh" "same_user sh (snd (snd (m_buildReq x p i sh)))"
    "m_process x p b sh = Some (p', sh') \<Longrightarrow> same_user sh sh'"
    "m_initPickUp x = Some pick \<Longrightarrow> same_user sh (snd (pick sh))"
    "m_getKey x = None" "m_getSessionId x = None" "m_get_emsk x = None"
proof -
  show "same_user sh (snd (m_init x sh))" using built_in_init [OF assms] by (simp add: same_user_def)
  show "same_user sh sh'" if "m_process x p b sh = Some (p', sh')" using built_in_process [OF assms that] by (simp add: same_user_def)
  show "same_user sh (snd (snd (m_buildReq x p i sh)))"
    using assms
    by (auto simp: built_in_def method_defs same_user_def eap_identity_buildReq_def eap_md5_buildReq_def eap_gtc_buildReq_def
        malloc_share_def Let_def split_beta split: eap_priv.splits option.splits)
  show "same_user sh (snd (pick sh))" if "m_initPickUp x = Some pick"
    using assms that
    by (auto simp: built_in_def method_defs same_user_def eap_identity_initPickUp_def eap_identity_init_def malloc_share_def
        Let_def split_beta)
  show "m_reset x p sh = sh"
    using assms by (auto simp: built_in_def method_defs eap_identity_reset_def eap_md5_reset_def eap_gtc_reset_def)
qed (use assms in \<open>auto simp: built_in_def method_defs\<close>)

lemma stranger_entry [simp]:
  "st \<noteq> EAP_SELECT_ACTION \<Longrightarrow> stranger env s \<Longrightarrow> stranger env (eap_entry g st s)"
  by (auto simp: stranger_def)

lemma reset_built_in:
  assumes "\<And>x. eap_m s = Some x \<Longrightarrow> x \<in> set (built_in lib)"
  shows "reset_method s = s\<lparr>eap_method_priv := (if eap_m s = None then eap_method_priv s else None)\<rparr>"
proof (cases "eap_m s")
  case (Some x)
  then show ?thesis using built_in_keeps(2) [OF assms [OF Some]] by (simp add: reset_method_def split: option.split)
qed (simp add: reset_method_def)

lemma parse_decision [simp]: "decision (eap_sm_parseEapResp d s) = decision s"
  by (simp add: eap_sm_parseEapResp_def Let_def split: option.split)

lemma stranger_INITIALIZE:
  assumes "eap_methods env = built_in lib" and "stranger env s"
  shows "stranger env (sm_EAP_INITIALIZE_Enter env g s)"
proof -
  have r: "reset_method t = t\<lparr>eap_method_priv := (if eap_m t = None then eap_method_priv t else None)\<rparr>" if "eap_m t = eap_m s" for t
    using assms that by (intro reset_built_in [of t lib]) (auto simp: stranger_def)
  have "user (share (sm_EAP_INITIALIZE_Enter env g s)) = user (share s)"
    "method_pending (share (sm_EAP_INITIALIZE_Enter env g s)) = METHOD_PENDING_NONE"
    "erp_keys (sm_EAP_INITIALIZE_Enter env g s) = erp_keys s" "decision (sm_EAP_INITIALIZE_Enter env g s) = decision s"
    by (simp_all add: sm_EAP_INITIALIZE_Enter_def Let_def r)
  then show ?thesis using assms INITIALIZE_facts(1,2) [of env g s] by (simp add: stranger_def)
qed

lemma stranger_NAK:
  assumes "eap_methods env = built_in lib" and "stranger env s" and "sm_EAP_NAK_Enter g s = Some s'"
  shows "stranger env s'"
proof -
  let ?t = "eap_entry g EAP_NAK s"
  have "reset_method ?t = ?t\<lparr>eap_method_priv := (if eap_m s = None then eap_method_priv s else None)\<rparr>"
    using assms(1,2) by (subst reset_built_in [of _ lib]) (auto simp: stranger_def)
  then show ?thesis
    using assms(2,3) by (auto simp: sm_EAP_NAK_Enter_def Let_def stranger_def eap_sm_Policy_update_def split: if_splits option.splits)
qed

lemma stranger_INTEGRITY:
  assumes "stranger env s" and "sm_EAP_INTEGRITY_CHECK_Enter g s = Some s'"
  shows "stranger env s'"
  using assms by (auto simp: stranger_def sm_EAP_INTEGRITY_CHECK_Enter_def Let_def split: option.splits if_splits)

lemma stranger_METHOD_REQUEST:
  assumes "eap_methods env = built_in lib" and "stranger env s" and "sm_EAP_METHOD_REQUEST_Enter env g s = Some s'"
  shows "stranger env s'"
proof (cases "eap_m s")
  case None
  then show ?thesis using assms(2,3) by (auto simp: sm_EAP_METHOD_REQUEST_Enter_def)
next
  case (Some x)
  then have x: "x \<in> set (built_in lib)" using assms(1,2) by (simp add: stranger_def)
  from Some show ?thesis
    using assms(2,3) built_in_keeps(3) [OF x]
    by (auto simp: sm_EAP_METHOD_REQUEST_Enter_def stranger_def same_user_def eap_sm_nextId_def Let_def split_beta
        split: option.splits if_splits)
qed

lemma stranger_METHOD_RESPONSE:
  assumes "eap_methods env = built_in lib" and "stranger env s" and "sm_EAP_METHOD_RESPONSE_Enter env g s = Some s'"
  shows "stranger env s'"
proof (cases "eap_m s")
  case None
  then show ?thesis using assms(2,3) by (auto simp: sm_EAP_METHOD_RESPONSE_Enter_def Let_def split: if_splits)
next
  case (Some x)
  then have x: "x \<in> set (built_in lib)" using assms(1,2) by (simp add: stranger_def)
  show ?thesis
  proof (cases "eap_hdr_len_valid (eapRespData (eif s)) 1")
    case False
    then show ?thesis using assms(2,3) by (auto simp: sm_EAP_METHOD_RESPONSE_Enter_def Let_def)
  next
    case True
    let ?t = "\<lambda>q sh. (eap_entry g EAP_METHOD_RESPONSE s)\<lparr>eap_method_priv := Some q, share := sh\<rparr>"
    obtain p q sh where p: "eap_method_priv s = Some p" "m_process x p (the (eapRespData (eif s))) (share s) = Some (q, sh)"
      "s' = (if m_isDone x q sh then method_finished env x q (?t q sh) else (?t q sh)\<lparr>methodState := METHOD_CONTINUE\<rparr>)"
      using Some True assms(3) by (auto simp: sm_EAP_METHOD_RESPONSE_Enter_def Let_def split: option.splits)
    have "stranger env (?t q sh)" using assms(2) built_in_keeps(4) [OF x p(2)] by (simp add: stranger_def same_user_def)
    then show ?thesis
      using p(3) built_in_keeps(6-8) [OF x] by (simp add: method_finished_def eap_sm_Policy_update_def stranger_def Let_def)
  qed
qed

lemma stranger_next_method:
  assumes "stranger env s" and "eap_sm_Policy_getNextMethod s = ((v, t), s')"
  shows "v = EAP_VENDOR_IETF" "t = EAP_TYPE_IDENTITY \<or> t = EAP_TYPE_NONE" "stake s' = stake s"
  using assms by (auto simp: eap_sm_Policy_getNextMethod_def stranger_def stake_def Let_def split: if_splits)

lemma stranger_propose:
  "propose_loop env s = Some s' \<Longrightarrow> eap_methods env = built_in lib \<Longrightarrow> stranger env s \<Longrightarrow> EAP_state s \<noteq> EAP_SELECT_ACTION \<Longrightarrow>
    stranger env s'"
proof (induction env s s' rule: propose_loop.raw_induct [rotated, consumes 1, case_names step])
  case (step loop env s s')
  obtain v t s1 where n: "eap_sm_Policy_getNextMethod s = ((v, t), s1)" by (metis prod.exhaust)
  note nx = stranger_next_method [OF step.prems(2) n]
  have core1: "EAP_state s1 = EAP_state s" using core_next_method [of s] n by (simp add: core_def)
  define s2 where "s2 = (reset_method (s1\<lparr>currentMethod := (if v = EAP_VENDOR_IETF then t else EAP_TYPE_EXPANDED)\<rparr>))
    \<lparr>eap_m := eap_server_get_eap_method env v t\<rparr>"
  have e1: "eap_m s1 = eap_m s" using nx(3) by (simp add: stake_def)
  have r: "reset_method (s1\<lparr>currentMethod := c\<rparr>) =
      s1\<lparr>currentMethod := c, eap_method_priv := (if eap_m s1 = None then eap_method_priv s1 else None)\<rparr>" for c
    using step.prems(1,2) e1 by (subst reset_built_in [of _ lib]) (auto simp: stranger_def)
  have m2: "eap_m s2 = eap_server_get_eap_method env EAP_VENDOR_IETF t" "currentMethod s2 = t" "EAP_state s2 = EAP_state s"
    "share s2 = share s1" "erp_keys s2 = erp_keys s" "decision s2 = decision s"
    using nx core1 by (simp_all add: s2_def r stake_def)
  have none: "eap_server_get_eap_method env EAP_VENDOR_IETF EAP_TYPE_NONE = None"
    using step.prems(1) by (simp add: eap_server_get_eap_method_def built_in_def method_defs)
  have reg: "x \<in> set (eap_methods env) \<and> t = EAP_TYPE_IDENTITY" if "eap_m s2 = Some x" for x
  proof -
    have "t = EAP_TYPE_IDENTITY" using that m2(1) none nx(2) by auto
    then show ?thesis using that m2(1) by (auto simp: eap_server_get_eap_method_def find_Some_iff)
  qed
  have st2: "stranger env s2"
    using step.prems(2,3) m2 reg nx(3) by (auto simp: stranger_def stake_def)
  have body: "(case eap_m s2 of None \<Rightarrow> Some s2
      | Some x \<Rightarrow> let (p, sh) = m_init x (share s2); s = s2\<lparr>share := sh, eap_method_priv := p\<rparr>
          in case p of None \<Rightarrow> loop env (s\<lparr>eap_m := None, currentMethod := EAP_TYPE_NONE\<rparr>) | Some _ \<Rightarrow> Some s) = Some s'"
    using step.hyps by (simp only: n prod.case Let_def s2_def)
  show ?case
  proof (cases "eap_m s2")
    case None
    then show ?thesis using body st2 by simp
  next
    case (Some x)
    obtain p sh where i: "m_init x (share s2) = (p, sh)" by force
    have "x \<in> set (built_in lib)" using reg [OF Some] step.prems(1) by simp
    from built_in_keeps(1) [OF this, of "share s2"] have u: "same_user (share s2) sh" by (simp add: i)
    show ?thesis
    proof (cases p)
      case None
      then have "loop env (s2\<lparr>share := sh, eap_method_priv := None, eap_m := None, currentMethod := EAP_TYPE_NONE\<rparr>) = Some s'"
        using body Some i by simp
      then show ?thesis
        by (rule step.IH) (use step.prems st2 u m2 in \<open>auto simp: stranger_def same_user_def\<close>)
    next
      case (Some q)
      then have "s' = s2\<lparr>share := sh, eap_method_priv := Some q\<rparr>" using body \<open>eap_m s2 = Some x\<close> i by simp
      then show ?thesis using st2 u by (auto simp: stranger_def same_user_def)
    qed
  qed
qed

lemma stranger_PROPOSE:
  assumes "eap_methods env = built_in lib" and "stranger env s" and "sm_EAP_PROPOSE_METHOD_Enter env g s = Some s'"
  shows "stranger env s'"
proof -
  obtain t where t: "propose_loop env ((eap_entry g EAP_PROPOSE_METHOD s)\<lparr>try_initiate_reauth := False\<rparr>) = Some t"
    "s' = (if Option.is_none (eap_m t) then t\<lparr>decision := DECISION_FAILURE\<rparr>
      else if currentMethod t = EAP_TYPE_IDENTITY \<or> currentMethod t = EAP_TYPE_NOTIFICATION
      then t\<lparr>methodState := METHOD_CONTINUE\<rparr> else t\<lparr>methodState := METHOD_PROPOSED\<rparr>)"
    using assms(3) by (auto simp: sm_EAP_PROPOSE_METHOD_Enter_def split: option.splits)
  from t(1) have "stranger env t" by (rule stranger_propose) (use assms in \<open>auto simp: stranger_def\<close>)
  then show ?thesis using t(2) by (auto simp: stranger_def)
qed

lemma stranger_user_get:
  assumes "unknown_peer env" and "eap_user_get env ident ph2 sh = (r, sh')" and "user sh = None"
  shows "user sh' = None" "method_pending sh' = method_pending sh" "r \<noteq> 0"
proof -
  have f: "\<not> fst (get ident ph2 w)" if "get_eap_user env = Some get" for get w using assms(1) that by (auto simp: unknown_peer_def)
  show "user sh' = None" "method_pending sh' = method_pending sh" "r \<noteq> 0"
    using assms(2,3) f by (auto simp: eap_user_get_def alloc_share_def Let_def split_beta split: option.splits if_splits)
qed

lemma stranger_SELECT:
  assumes "eap_methods env = built_in lib" and "unknown_peer env" and "stranger env s" and "sm_EAP_SELECT_ACTION_Enter env g s = Some s'"
  shows "stranger env s'"
proof -
  let ?t = "eap_entry g EAP_SELECT_ACTION s"
  obtain d u where u: "eap_sm_Policy_getDecision env ?t = Some (d, u)" "s' = u\<lparr>decision := d\<rparr>"
    using assms(4) by (auto simp: sm_EAP_SELECT_ACTION_Enter_def split: option.splits)
  have us: "user (share ?t) = None" using assms(3) by (simp add: stranger_def)
  have du: "stake (snd (decide_user env ?t)) = stake ?t \<and> fst (decide_user env ?t) \<notin> {DECISION_SUCCESS, DECISION_PASSTHROUGH}"
    using stranger_user_get [OF assms(2) _ us] us
    by (auto simp: decide_user_def decide_next_def stake_def Let_def split_beta split: option.split)
      (metis prod.collapse)+
  have "d \<notin> {DECISION_SUCCESS, DECISION_PASSTHROUGH} \<and>
      (user (share u), method_pending (share u), erp_keys u, eap_m u, currentMethod u) =
      (user (share ?t), method_pending (share ?t), erp_keys ?t, eap_m ?t, currentMethod ?t)"
    using u(1) assms(2,3) du
    by (auto simp: eap_sm_Policy_getDecision_def unknown_peer_def stranger_def stake_def Let_def split: option.splits if_splits)
  then show ?thesis using u(2) assms(3) by (auto simp: stranger_def)
qed

text \<open>Without keys no re-authentication message is accepted.\<close>

lemma erp_no_keys:
  assumes "erp_keys s = []" and "erp_receive env s = Some out"
  shows "out = ErpIgnored \<or> (\<exists>name. out = ErpForward name) \<or> (\<exists>seq nai. out = ErpNoKey seq nai)"
  using assms
  by (auto simp: erp_receive_def erp_authenticate_def erp_get_key_def Let_def split: option.splits if_splits)

lemma finish_reauth_failed:
  "stake (erp_send_finish_reauth env None i f q nai s) = stake s"
  "eapSuccess (eif (erp_send_finish_reauth env None i f q nai s)) = eapSuccess (eif s)"
  by (simp_all add: stake_def erp_send_finish_reauth_def Let_def alloc_eq split: option.split)

lemma stake_share:
  "user sh = user (share s) \<Longrightarrow> method_pending sh = method_pending (share s) \<Longrightarrow> stake (s\<lparr>share := sh\<rparr>) = stake s"
  "stake (s\<lparr>ignore := b\<rparr>) = stake s"
  "stake (s\<lparr>rxInitiate := b\<rparr>) = stake s" "stake (s\<lparr>eif := i\<rparr>) = stake s" "stake (s\<lparr>lastReqData := d\<rparr>) = stake s"
  "stake (s\<lparr>currentId := n\<rparr>) = stake s" "stake (s\<lparr>lastId := n\<rparr>) = stake s"
  "stake (s\<lparr>initiate_reauth_start_sent := b\<rparr>) = stake s"
  by (simp_all add: stake_def)

lemma stranger_INITIATE_RECEIVED:
  assumes "stranger env s" and "sm_EAP_INITIATE_RECEIVED_Enter env g s = Some s'"
  shows "stranger env s'" "eapSuccess (eif s') = eapSuccess (eif s)"
proof -
  let ?t = "(eap_entry g EAP_INITIATE_RECEIVED s)\<lparr>rxInitiate := False\<rparr>"
  obtain out where o: "erp_receive env ?t = Some out" 
    using assms(2) by (cases "erp_receive env ?t") (simp_all add: sm_EAP_INITIATE_RECEIVED_Enter_def)
  have k: "erp_keys ?t = []" using assms(1) by (simp add: stranger_def)
  have "stake s' = stake s \<and> eapSuccess (eif s') = eapSuccess (eif s)"
    using erp_no_keys [OF k o] assms(2) o
    by (elim disjE exE) (auto simp: sm_EAP_INITIATE_RECEIVED_Enter_def alloc_eq Let_def finish_reauth_failed stake_share split: if_splits)
  then show "stranger env s'" "eapSuccess (eif s') = eapSuccess (eif s)"
    using stake_stranger [of s' s env] assms hard_enter(7) [OF assms(2)] by auto
qed

lemma stranger_PICK_UP:
  assumes "eap_methods env = built_in lib" and "stranger env s"
  shows "stranger env (sm_EAP_PICK_UP_METHOD_Enter env g s)"
proof (cases "eap_sm_Policy_doPickUp (respMethod s)")
  case False
  then show ?thesis using assms(2) by (simp add: sm_EAP_PICK_UP_METHOD_Enter_def)
next
  case True
  let ?t = "(eap_entry g EAP_PICK_UP_METHOD s)\<lparr>currentMethod := respMethod s\<rparr>"
  have r: "reset_method ?t = ?t\<lparr>eap_method_priv := (if eap_m s = None then eap_method_priv s else None)\<rparr>"
    using assms by (subst reset_built_in [of _ lib]) (auto simp: stranger_def)
  have rm: "respMethod s = EAP_TYPE_IDENTITY" using True by (simp add: eap_sm_Policy_doPickUp_def)
  define x where "x = eap_server_get_eap_method env EAP_VENDOR_IETF EAP_TYPE_IDENTITY"
  show ?thesis
  proof (cases "Option.bind x m_initPickUp")
    case None
    then show ?thesis
      using True r rm assms(2) by (simp add: sm_EAP_PICK_UP_METHOD_Enter_def x_def [symmetric] Let_def) (auto simp: stranger_def)
  next
    case (Some pick)
    then obtain y where y: "x = Some y" "m_initPickUp y = Some pick" by (auto simp: bind_eq_Some_conv)
    then have b: "y \<in> set (built_in lib)" using assms(1) by (auto simp: x_def eap_server_get_eap_method_def find_Some_iff)
    obtain p sh where p: "pick (share s) = (p, sh)" by force
    have "same_user (share s) sh" using built_in_keeps(5) [OF b y(2), of "share s"] by (simp add: p)
    then show ?thesis
      using True r assms Some y b p rm
      by (simp add: sm_EAP_PICK_UP_METHOD_Enter_def x_def [symmetric] Let_def) (auto simp: stranger_def same_user_def)
  qed
qed

lemma stranger_REAUTH_START:
  assumes "stranger env s"
  shows "stranger env (sm_EAP_INITIATE_REAUTH_START_Enter env g s)"
proof (rule stake_stranger [OF _ assms])
  have n: "stake (snd (eap_sm_nextId env i t)) = stake t" for i t
    by (simp add: eap_sm_nextId_def Let_def split_beta stake_share)
  have b: "stake (snd (eap_sm_buildInitiateReauthStart env i t)) = stake t" for i t
    by (simp add: eap_sm_buildInitiateReauthStart_def Let_def split_beta alloc_eq stake_share split: option.split)
  show "stake (sm_EAP_INITIATE_REAUTH_START_Enter env g s) = stake s"
    by (simp add: sm_EAP_INITIATE_REAUTH_START_Enter_def Let_def split_beta stake_share n b)
qed simp

lemma stranger_stake_steps:
  assumes "stranger env s"
  shows "stranger env (sm_EAP_IDLE_Enter g s)" "stranger env (sm_EAP_RETRANSMIT_Enter e g s)" "stranger env (sm_EAP_DISCARD_Enter g s)"
    "stranger env (sm_EAP_SEND_REQUEST_Enter e g s)" "stranger env (sm_EAP_TIMEOUT_FAILURE_Enter g s)"
    "stranger env (sm_EAP_FAILURE_Enter e g s)" "stranger env (sm_EAP_SUCCESS_Enter e g s)" "stranger env (sm_EAP_DISABLED_Enter g s)"
    "stranger env (sm_EAP_RECEIVED_Enter g s)" "stranger env (s\<lparr>num_rounds := n\<rparr>)" "stranger env (s\<lparr>num_rounds_short := n\<rparr>)"
    "stranger env (s\<lparr>try_initiate_reauth := b\<rparr>)"
  using assms by (auto intro!: stake_stranger [OF _ assms] simp: sm_EAP_DISABLED_Enter_def)

lemmas stranger_enter = stranger_stake_steps stranger_INITIALIZE stranger_PICK_UP stranger_REAUTH_START
  stranger_NAK stranger_INTEGRITY stranger_METHOD_REQUEST stranger_METHOD_RESPONSE stranger_PROPOSE stranger_SELECT
  stranger_INITIATE_RECEIVED(1)

text \<open>No step leads into the pass-through machine, and none reports success.\<close>

definition outsider :: "('p, 'w) eap_env \<Rightarrow> ('p, 'w) eap_sm \<Rightarrow> bool" where
  "outsider env s \<longleftrightarrow> stranger env s \<and> \<not> passes_through (EAP_state s)"

lemma stranger_switch:
  assumes m: "eap_methods env = built_in lib" and u: "unknown_peer env" and o: "outsider env s" and sw: "sm_EAP_switch env s = Some s'"
  shows "stranger env s'"
proof -
  have s: "stranger env s" using o by (simp add: outsider_def)
  have np: "method_pending (share s) = METHOD_PENDING_NONE" using s by (simp add: stranger_def)
  note e = stranger_stake_steps [OF s] stranger_INITIALIZE [OF m s] stranger_PICK_UP [OF m s] stranger_REAUTH_START [OF s]
  note h = stranger_NAK [OF m s] stranger_INTEGRITY [OF s] stranger_METHOD_REQUEST [OF m s] stranger_METHOD_RESPONSE [OF m s]
    stranger_PROPOSE [OF m s] stranger_SELECT [OF m u s] stranger_SELECT [OF m u e(12)] stranger_INITIATE_RECEIVED(1) [OF s]
  have npt: "\<not> passes_through (EAP_state s)" using o by (simp add: outsider_def)
  have nd: "decision s \<noteq> DECISION_PASSTHROUGH" using s by (simp add: stranger_def)
  note f = stranger_stake_steps(6) [OF e(4)]
  show ?thesis
    using sw npt s
    by (cases "EAP_state s")
      (auto simp: sm_EAP_switch_def leave_METHOD_REQUEST_def np nd f Let_def intro: e dest: h
        split: if_splits eap_decision.splits)
qed

lemma outsider_step:
  assumes m: "eap_methods env = built_in lib" and u: "unknown_peer env" and o: "outsider env s" and st: "sm_EAP_Step env s = Some s'"
  shows "outsider env s'" and "\<not> eapSuccess (eif s) \<Longrightarrow> \<not> eapSuccess (eif s')"
proof -
  have s: "stranger env s" using o by (simp add: outsider_def)
  have st': "stranger env s'"
  proof (cases "calm env s")
    case True
    then show ?thesis using st stranger_switch [OF m u o] by (simp add: step_calm)
  next
    case False
    then show ?thesis
      using st s stranger_INITIALIZE [OF m s] stranger_stake_steps [OF s] stranger_stake_steps(6) [OF stranger_stake_steps(10) [OF s]]
        stranger_stake_steps(6) [OF stranger_stake_steps(11) [OF s]]
      by (auto simp: sm_EAP_Step_def calm_def split: if_splits)
  qed
  have np: "\<not> passes_through (EAP_state s)" and nd: "decision s \<noteq> DECISION_PASSTHROUGH"
    and pn: "method_pending (share s) = METHOD_PENDING_NONE" using o by (simp_all add: outsider_def stranger_def)
  have "\<not> passes_through (EAP_state s')"
  proof (cases "calm env s")
    case True
    then have "sm_EAP_switch env s = Some s'" using st by (simp add: step_calm)
    then show ?thesis
      using np by (cases "EAP_state s")
        (auto simp: sm_EAP_switch_def leave_METHOD_REQUEST_def nd pn Let_def dest: hard_enter
          split: if_splits eap_decision.splits)
  next
    case False
    then show ?thesis using st o by (auto simp: sm_EAP_Step_def calm_def outsider_def split: if_splits)
  qed
  then show "outsider env s'" using st' by (simp add: outsider_def)
  show "\<not> eapSuccess (eif s')" if "\<not> eapSuccess (eif s)"
  proof
    assume "eapSuccess (eif s')"
    from step_success [OF st that this] show False
      using o stranger_INITIATE_RECEIVED(2) [OF s] that \<open>eapSuccess (eif s')\<close>
      by (auto simp: outsider_def stranger_def)
  qed
qed

interpretation outside: eap_run_invariant env
  "\<lambda>s. eap_methods env = built_in lib \<and> unknown_peer env \<longrightarrow> outsider env s \<and> \<not> eapSuccess (eif s)" for env lib
proof unfold_locales
  show "eap_methods env = built_in lib \<and> unknown_peer env \<longrightarrow> outsider env s' \<and> \<not> eapSuccess (eif s')"
    if "eap_methods env = built_in lib \<and> unknown_peer env \<longrightarrow> outsider env s \<and> \<not> eapSuccess (eif s)" "sm_EAP_Step env s = Some s'" for s s'
    using that outsider_step [of env lib s s'] by blast
qed (auto simp: outsider_def stranger_def)

end
