(* ===== verification/Access_Control.thy ===== *)
theory Access_Control
  imports Eap_Compose
begin

text \<open>
  The authenticator of \<open>Eapol_Auth\<close> and the EAP server of \<open>Eap_Server\<close>, with its built-in methods,
  put together: a peer that the user data base does not know is never given access, whatever frames
  arrive, and the server always returns to the authenticator.
\<close>

section \<open>The server between two calls\<close>

text \<open>
  The server as the authenticator calls it: on its own state and the shared interface. That a call
  has no defined result is excluded below for the states that are reached.
\<close>

definition eap_server_step ::
  "('p, 'w) eap_env \<Rightarrow> ('p, 'w) eap_sm \<Rightarrow> eap_eapol_interface \<Rightarrow> ('p, 'w) eap_sm \<times> eap_eapol_interface \<times> bool \<times> bool" where
  "eap_server_step env e i =
     (case eap_sm_run env (e\<lparr>eif := i\<rparr>) of
        None \<Rightarrow> (e, i, False, False)
      | Some (e', moved) \<Rightarrow> (e', eif e', moved, saw_remediation (share e')))"

lemma check_enter:
  "sm_EAP_INTEGRITY_CHECK_Enter False s = Some s' \<Longrightarrow>
    eap_changed s' \<and> num_rounds s' = num_rounds s \<and> num_rounds_short s' = num_rounds_short s"
  by (auto simp: sm_EAP_INTEGRITY_CHECK_Enter_def Let_def split: option.splits if_splits)

text \<open>A response is checked only within the limit of rounds.\<close>

definition within_rounds :: "('p, 'w) eap_env \<Rightarrow> ('p, 'w) eap_sm \<Rightarrow> bool" where
  "within_rounds env s \<longleftrightarrow> EAP_state s = EAP_INTEGRITY_CHECK \<longrightarrow>
     \<not> num_rounds s > max_auth_rounds (cfg env) \<and> \<not> num_rounds_short s > max_auth_rounds_short (cfg env)"

lemma step_into_check:
  assumes "sm_EAP_Step env s = Some s'" and "EAP_state s' = EAP_INTEGRITY_CHECK"
  shows "calm env s \<and> eap_changed s' \<and> num_rounds s' = num_rounds s \<and> num_rounds_short s' = num_rounds_short s \<or>
    \<not> calm env s \<and> s' = s \<and> \<not> eapRestart (eif s) \<and> portEnabled (eif s)"
proof (cases "calm env s")
  case True
  have "sm_EAP_METHOD_RESPONSE_Enter env g t \<noteq> Some s'" for g t using assms(2) hard_enter(6) [of env g t s'] by auto
  moreover have "sm_EAP_switch env s = Some s'" using assms(1) True by (simp add: step_calm)
  ultimately have "sm_EAP_INTEGRITY_CHECK_Enter False s = Some s'"
    using assms(2) by (cases "EAP_state s")
      (auto simp: sm_EAP_switch_def leave_METHOD_REQUEST_def Let_def dest: hard_enter
        split: if_splits pending_state.splits eap_decision.splits)
  then show ?thesis using True check_enter by blast
next
  case False
  then show ?thesis using assms by (auto simp: sm_EAP_Step_def calm_def split: if_splits)
qed

interpretation chk: eap_run_invariant env "within_rounds env" for env
proof unfold_locales
  show "within_rounds env s'" if "within_rounds env s" "sm_EAP_Step env s = Some s'" for s s' :: "('a, 'b) eap_sm"
    using that step_into_check [OF that(2)] by (auto simp: within_rounds_def calm_def)
qed (simp add: within_rounds_def)

lemma rest_checked:
  assumes "at_rest env s'" and "within_rounds env s'"
  shows "EAP_state s' \<noteq> EAP_INTEGRITY_CHECK"
proof
  assume st: "EAP_state s' = EAP_INTEGRITY_CHECK"
  obtain s where s: "sm_EAP_Step env s = Some s'" "\<not> eap_changed s'" using assms(1) by (auto simp: at_rest_def)
  show False using step_into_check [OF s(1) st] s(2) assms(2) st by (auto simp: within_rounds_def calm_def)
qed

section \<open>A server that an unknown peer talks to\<close>

definition idle_outsider :: "(eap_priv, 'w) eap_env \<Rightarrow> (eap_priv, 'w) eap_sm \<Rightarrow> bool" where
  "idle_outsider env e \<longleftrightarrow> outsider env e \<and> eap_inv env takes_frame e \<and> EAP_state e \<noteq> EAP_INTEGRITY_CHECK"

lemma outsider_eif: "outsider env (e\<lparr>eif := i\<rparr>) = outsider env e"
  by (simp add: outsider_def stranger_def)

lemma server_call:
  assumes u: "unknown_peer eenv" and r: "\<not> get_erp_send_reauth_start eenv" and e: "idle_outsider (server_env lib eenv) e"
    and i: "\<not> eapSuccess i"
  shows "\<exists>e' moved. eap_sm_run (server_env lib eenv) (e\<lparr>eif := i\<rparr>) = Some (e', moved) \<and>
    idle_outsider (server_env lib eenv) e' \<and> \<not> eapSuccess (eif e')"
proof -
  let ?env = "server_env lib eenv" and ?e = "e\<lparr>eif := i\<rparr>" and ?lib = "lib\<lparr>lib_malloc := Pair True\<rparr>"
  have m: "eap_methods ?env = built_in ?lib" "unknown_peer ?env" "\<not> get_erp_send_reauth_start ?env"
    using u r by (simp_all add: server_env_def unknown_peer_def)
  have inv: "eap_inv ?env takes_frame ?e"
    using e by (auto simp: idle_outsider_def eap_inv_def method_inv_def outsider_def stranger_def)
  obtain e' moved where run: "eap_sm_run ?env ?e = Some (e', moved)" "eap_inv ?env takes_frame e'" "at_rest ?env e'"
    using meth.eap_run_total [OF inv m(3), of False] by (auto simp: eap_sm_run_def)
  have c: "within_rounds ?env e'" by (rule chk.run_keeps [OF run(1)]) (use e in \<open>simp add: within_rounds_def idle_outsider_def\<close>)
  have "outsider ?env e' \<and> \<not> eapSuccess (eif e')"
    using outside.run_keeps [OF run(1), of ?lib] m e i by (simp add: idle_outsider_def outsider_eif)
  then show ?thesis using run c rest_checked by (auto simp: idle_outsider_def)
qed

section \<open>The authenticator and the server\<close>

lemma eap_round [simp]: "eap (machines_round env s) = eap s"
proof -
  have p: "eap (sm_AUTH_PAE_Step env t) = eap t" for t :: "'a eapol_sm"
    by (cases "auth_pae_state t") (simp_all add: sm_AUTH_PAE_Step_def enter_defs)
  have side: "eap (sm_BE_AUTH_Step t) = eap t" "eap (sm_AUTH_KEY_TX_Step t) = eap t" "eap (sm_KEY_RX_Step t) = eap t"
    "eap (sm_CTRL_DIR_Step t) = eap t" for t :: "'a eapol_sm"
    using side_reauth [of t] by (simp_all add: reauth_view_def)
  have r: "eap (sm_REAUTH_TIMER_Step t) = eap t" for t :: "'a eapol_sm"
    by (simp add: sm_REAUTH_TIMER_Step_def enter_defs split: reauth_timer.split)
  have "eap (step_if_alive env f t) = eap t" if "\<And>t. eap (f t) = eap t" for f and t :: "'a eapol_sm"
    using that by (simp add: step_if_alive_def)
  then show ?thesis by (simp add: machines_round_def Let_def p r side)
qed

text \<open>The port is closed, and the server in front of an unknown peer waits.\<close>

definition shut_out :: "(eap_priv, 'w) eap_env \<Rightarrow> (eap_priv, 'w) eap_sm eapol_sm \<Rightarrow> bool" where
  "shut_out eenv s \<longleftrightarrow> closed s \<and> (\<exists>e. eap s = Some e \<and> idle_outsider eenv e)"

definition serves_strangers :: "'w eap_lib \<Rightarrow> (eap_priv, 'w) eap_env \<Rightarrow> (eap_priv, 'w) eap_sm eapol_env \<Rightarrow> bool" where
  "serves_strangers lib eenv env \<longleftrightarrow> eap_server_sm_step env = eap_server_step (server_env lib eenv) \<and>
     unknown_peer eenv \<and> \<not> get_erp_send_reauth_start eenv"

lemma shut_out_call:
  assumes v: "serves_strangers lib eenv env" and s: "shut_out (server_env lib eenv) s" "eap s = Some e"
  shows "shut_out (server_env lib eenv) (fst (eap_step env e s))"
proof -
  have i: "idle_outsider (server_env lib eenv) e" "\<not> eapSuccess (eap_if s)" using s by (auto simp: shut_out_def closed_def)
  obtain e' moved where "eap_sm_run (server_env lib eenv) (e\<lparr>eif := eap_if s\<rparr>) = Some (e', moved)"
    "idle_outsider (server_env lib eenv) e'" "\<not> eapSuccess (eif e')"
    using server_call [OF _ _ i(1,2)] v by (auto simp: serves_strangers_def)
  then show ?thesis using v s(1) by (simp add: eap_step_def serves_strangers_def eap_server_step_def shut_out_def closed_def)
qed

interpretation shut: tick_invariant env "\<lambda>s. serves_strangers lib eenv env \<longrightarrow> shut_out (server_env lib eenv) s" for env lib eenv
proof unfold_locales
  fix s :: "(eap_priv, 'a) eap_sm eapol_sm"
  assume s: "serves_strangers lib eenv env \<longrightarrow> shut_out (server_env lib eenv) s"
  show "serves_strangers lib eenv env \<longrightarrow> shut_out (server_env lib eenv) (machines_round env s)"
    using s round_closed by (auto simp: shut_out_def)
  show "serves_strangers lib eenv env \<longrightarrow> shut_out (server_env lib eenv) (fst (eap_step env e s))" if "eap s = Some e" for e
    using s shut_out_call that by blast
qed (auto simp: shut_out_def closed_def emit_def count_timers_def)

text \<open>
  What may happen to a machine: the event loop runs it, and in between the frames of the peer, the
  driver and the rest of hostapd change anything but the state of the EAP server, the control of the
  port, and the flags by which success is reported.
\<close>

definition same_trust :: "'e eapol_sm \<Rightarrow> 'e eapol_sm \<Rightarrow> bool" where
  "same_trust s s' \<longleftrightarrow> eap s' = eap s \<and> portControl s' = portControl s \<and> authPortStatus s' = authPortStatus s \<and>
     auth_pae_state s' = auth_pae_state s \<and> authSuccess s' = authSuccess s \<and> eapSuccess (eap_if s') = eapSuccess (eap_if s)"

inductive visits :: "'e eapol_env \<Rightarrow> 'e eapol_sm \<Rightarrow> 'e eapol_sm \<Rightarrow> bool" for env :: "'e eapol_env" and s0 :: "'e eapol_sm" where
  start: "visits env s0 s0"
| step_cb: "visits env s0 s \<Longrightarrow> visits env s0 (eapol_sm_step_cb env s)"
| tick: "visits env s0 s \<Longrightarrow> visits env s0 (eapol_port_timers_tick env s)"
| input: "visits env s0 s \<Longrightarrow> same_trust s s' \<Longrightarrow> visits env s0 s'"

lemma visits_shut_out:
  assumes "visits env s0 s" and "serves_strangers lib eenv env" and "shut_out (server_env lib eenv) s0"
  shows "shut_out (server_env lib eenv) s"
  using assms(1)
proof (induction rule: visits.induct)
  case (step_cb s)
  then show ?case using shut.step_run [of lib eenv env s] assms(2) by (simp add: eapol_sm_step_cb_def)
next
  case (tick s)
  then show ?case using shut.tick [of lib eenv env s] assms(2) by simp
next
  case (input s s')
  then show ?case by (simp add: shut_out_def closed_def same_trust_def)
qed (rule assms(3))

lemma new_server_idle:
  assumes "eap_server_sm_init eenv w [] = Some e"
  shows "idle_outsider eenv e"
  using assms
  by (auto simp: eap_server_sm_init_def idle_outsider_def outsider_def stranger_def eap_inv_def method_inv_def waiting_states_def
      split: prod.splits if_splits)


end
