(* ===== verification/Eap_Witness.thy ===== *)
theory Eap_Witness
  imports Access_Control
begin

text \<open>
  Concrete instances of the theorems about the EAP server: a server with the built-in methods, a
  hash function that can be followed by hand, and single machines and messages.
\<close>

definition sample_lib :: "unit eap_lib" where
  "sample_lib = \<lparr>lib_malloc = Pair True, random_get_bytes = (\<lambda>n w. (Some (replicate n 7), w)),
     md5_vector = (\<lambda>xs. Some (take 16 (concat xs @ replicate 16 0))), eap_req_id_text = []\<rparr>"

definition sample_eap_env :: "(eap_priv, unit) eap_env" where
  "sample_eap_env =
     \<lparr>cfg = \<lparr>backend_auth = False, eap_server = True, erp = True, max_auth_rounds = 100, max_auth_rounds_short = 50\<rparr>,
      eap_methods = [], os_malloc = Pair True, c_rand = Pair 5, get_eap_user = None, get_erp_send_reauth_start = False,
      get_erp_domain = None, hmac_sha256 = (\<lambda>k m. Some (replicate 32 9)), hmac_sha256_kdf = (\<lambda>k l s n. Some (replicate n 1))\<rparr>"

definition sample_eap_sm :: "(eap_priv, unit) eap_sm" where
  "sample_eap_sm = the (eap_server_sm_init sample_eap_env () [])"

lemma sample_init: "eap_server_sm_init sample_eap_env () [] = Some sample_eap_sm"
  by (simp add: sample_eap_sm_def eap_server_sm_init_def sample_eap_env_def)

lemma sample_eap_fields:
  "EAP_state sample_eap_sm = EAP_DISABLED" "eap_m sample_eap_sm = None" "eap_method_priv sample_eap_sm = None"
  "num_rounds sample_eap_sm = 0" "num_rounds_short sample_eap_sm = 0" "eif sample_eap_sm = zero_if"
  "\<not> try_initiate_reauth sample_eap_sm" "erp_keys sample_eap_sm = []"
  by (simp_all add: sample_eap_sm_def eap_server_sm_init_def sample_eap_env_def)


text \<open>The AAA server has reported success.\<close>

definition aaa_sm :: "(eap_priv, unit) eap_sm" where
  "aaa_sm = sample_eap_sm\<lparr>EAP_state := EAP_AAA_IDLE, eif := zero_if\<lparr>portEnabled := True, aaaSuccess := True\<rparr>\<rparr>"

definition aaa_done :: "(eap_priv, unit) eap_sm" where
  "aaa_done = (sm_EAP_SUCCESS2_Enter sample_eap_env False (aaa_sm\<lparr>eap_changed := False\<rparr>))\<lparr>eap_changed := False\<rparr>"

lemma aaa_run: "eap_sm_run sample_eap_env aaa_sm = Some (aaa_done, True)"
proof -
  have f: "portEnabled (eif aaa_sm)" "\<not> eapRestart (eif aaa_sm)" "num_rounds aaa_sm = 0" "num_rounds_short aaa_sm = 0"
    "EAP_state aaa_sm = EAP_AAA_IDLE" "aaaSuccess (eif aaa_sm)" "\<not> aaaFail (eif aaa_sm)"
    using sample_eap_fields by (simp_all add: aaa_sm_def zero_if_def)
  let ?t = "sm_EAP_SUCCESS2_Enter sample_eap_env False (aaa_sm\<lparr>eap_changed := False\<rparr>)"
  have s: "sm_EAP_Step sample_eap_env (aaa_sm\<lparr>eap_changed := False\<rparr>) = Some ?t"
    using f by (simp add: sm_EAP_Step_def sm_EAP_switch_def)
  have c: "eap_changed ?t" by (simp add: plain_enter split: option.split)
  have t: "eap_changed ?t" "EAP_state ?t = EAP_SUCCESS2" "portEnabled (eif ?t)" "\<not> eapRestart (eif ?t)" "num_rounds ?t = 0" "num_rounds_short ?t = 0"
    using f keeps_plain(19) [of "aaa_sm\<lparr>eap_changed := False\<rparr>" sample_eap_env False] c by (auto simp: keeps_def)
  show ?thesis
    unfolding eap_sm_run_def aaa_done_def loop_move [OF s t(1)]
    by (rule loop_rest) (use t in \<open>simp_all add: sm_EAP_Step_def sm_EAP_switch_def\<close>)
qed


theorem reauth_start_null_dereference_witness:
  "\<exists>s r. eap_sm_run (sample_eap_env\<lparr>get_erp_send_reauth_start := True\<rparr>) (upd_eif (\<lambda>i. i\<lparr>portEnabled := True\<rparr>) sample_eap_sm) = Some (s, r) \<and>
    eap_sm_run (sample_eap_env\<lparr>get_erp_send_reauth_start := True\<rparr>)
      (upd_eif (\<lambda>i. i\<lparr>eapResp := True, eapRespData := Some [2, word_of_int (currentId s), 0, 5, 0]\<rparr>) s) = None"
  using sample_init
  by (intro reauth_start_null_dereference [where w = "()" and ks = "[]"])
    (simp_all add: sample_eap_env_def eap_server_sm_init_def)

theorem retransmission_timeout_witness:
  "eap_sm_calculateTimeout sample_eap_sm 2 0 0 0 = 12 \<and> eap_sm_calculateTimeout sample_eap_sm 2 0 0 0 \<in> {3..20} \<and>
    eap_sm_calculateTimeout sample_eap_sm 2 0 0 0 \<le> eap_sm_calculateTimeout sample_eap_sm (2 + 1) 0 0 0"
  using retransmission_timeout [OF sample_eap_fields(7), of 2 0 0] by simp

text \<open>A user with three methods, the last one of another vendor; the peer asks for type 6 only.\<close>

definition nak_user :: eap_user where
  "nak_user = \<lparr>methods = [(0, 4), (0, 6), (311, 9)] @ replicate 5 (0, 0), password = Some [1, 2], password_hash = False, salt = None,
     phase2 = False, force_version = -1, user_remediation = False, macacl = False, ttls_auth = 0, t_c_timestamp = 0\<rparr>"

definition nak_share :: "unit eap_share" where
  "nak_share = \<lparr>eap_identity = Some [], user = Some nak_user, user_eap_method_index = 0, update_user = False,
     method_pending = METHOD_PENDING_NONE, MaxRetrans = 5, saw_remediation = False, world = ()\<rparr>"

theorem process_nak_filters_witness:
  "\<exists>u'. eap_sm_process_nak [6] nak_share = nak_share\<lparr>user := Some u'\<rparr> \<and> length (methods u') = EAP_MAX_METHODS \<and>
    configured (methods u') = [(0, 6)]"
proof -
  have "\<exists>u'. eap_sm_process_nak [6] nak_share = nak_share\<lparr>user := Some u'\<rparr> \<and> length (methods u') = EAP_MAX_METHODS \<and>
      take 0 (methods u') = take 0 (methods nak_user) \<and>
      configured (drop 0 (methods u')) = filter (wanted [6]) (configured (drop 0 (methods nak_user)))"
    using process_nak_filters [of nak_share nak_user "[6]"] by (simp add: nak_share_def nak_user_def EAP_MAX_METHODS_def)
  then show ?thesis
    by (simp add: nak_user_def configured_def wanted_def in_nak_list_def eap_consts)
qed

text \<open>A re-authentication message that is accepted, and the key it is accepted for.\<close>

definition sample_key :: eap_server_erp_key where
  "sample_key = \<lparr>rRK = [1], rIK = [2], recv_seq = -1, cryptosuite = 2, keyname_nai = [97]\<rparr>"

definition reauth_message :: bytes where
  "reauth_message = [5, 0, 0, 28, 2, 0, 0, 3, 1, 1, 97, 2] @ replicate 16 9"

definition erp_sm :: "(eap_priv, unit) eap_sm" where
  "erp_sm = sample_eap_sm\<lparr>erp_keys := [sample_key], eif := zero_if\<lparr>eapRespData := Some reauth_message\<rparr>\<rparr>"

lemma sample_parse:
  "erp_parse_tlvs reauth_message 8 28 True = Some (0, \<lparr>keyname = Some (10, 1), domain = None\<rparr>)"
  "erp_parse_tlvs reauth_message 8 11 False = Some (0, \<lparr>keyname = Some (10, 1), domain = None\<rparr>)"
  by (simp_all add: erp_parse_tlvs_def no_tlvs_def erp_parse_loop.simps rd_byte_def known_tlv_def reauth_message_def erp_tlv_consts)

lemma sample_accepted:
  "erp_receive sample_eap_env erp_sm = Some (ErpAccepted 0 (sample_key\<lparr>recv_seq := 3\<rparr>) 3 [97])"
proof -
  have v: "eap_hdr_validate EAP_VENDOR_IETF EAP_ERP_TYPE_REAUTH (Some reauth_message) = Some (5, 23)"
    by (simp add: eap_hdr_validate_def eap_hdr_len_valid_def reauth_message_def get_be16_def eap_consts Let_def)
  have t: "erp_check_tag sample_eap_env sample_key reauth_message 28 17 = Some (16, 2)"
    by (simp add: erp_check_tag_def erp_tag_matches_def sample_eap_env_def sample_key_def reauth_message_def eap_consts Let_def)
  have e: "eapRespData (eif erp_sm) = Some reauth_message" "erp_keys erp_sm = [sample_key]" "eap_server (cfg sample_eap_env)"
    "get_be16 reauth_message 6 = 3" "take 1 (drop 10 reauth_message) = [97]" "keyname_nai sample_key = [97]" "recv_seq sample_key = -1"
    "cryptosuite sample_key = 2"
    by (simp_all add: erp_sm_def sample_eap_env_def reauth_message_def get_be16_def sample_key_def)
  show ?thesis
    using v t e sample_parse by (simp add: erp_receive_def erp_authenticate_def erp_get_key_def sample_key_def eap_consts Let_def)
qed

theorem erp_accepted_authentic_witness:
  "\<exists>b e n h. eapRespData (eif erp_sm) = Some b \<and> e \<le> length b \<and> n \<in> {16, 32} \<and>
    hmac_sha256 sample_eap_env (rIK (erp_keys erp_sm ! 0)) (take (e - n) b) = Some h \<and> take n (drop (e - n) b) = take n h"
  using erp_accepted_authentic [OF sample_accepted] by blast

theorem erp_replay_ignored_witness:
  "\<exists>s'. sm_EAP_INITIATE_RECEIVED_Enter sample_eap_env False erp_sm = Some s' \<and>
    sm_EAP_INITIATE_RECEIVED_Enter sample_eap_env False (erp_sm\<lparr>erp_keys := erp_keys s'\<rparr>) =
      Some ((eap_entry False EAP_INITIATE_RECEIVED (erp_sm\<lparr>erp_keys := erp_keys s'\<rparr>))\<lparr>rxInitiate := False, ignore := True\<rparr>)"
proof -
  have "erp_receive sample_eap_env ((eap_entry False EAP_INITIATE_RECEIVED erp_sm)\<lparr>rxInitiate := False\<rparr>) =
      Some (ErpAccepted 0 (sample_key\<lparr>recv_seq := 3\<rparr>) 3 [97])"
    using sample_accepted receive_depends [of "(eap_entry False EAP_INITIATE_RECEIVED erp_sm)\<lparr>rxInitiate := False\<rparr>" erp_sm] by simp
  then obtain s' where s': "sm_EAP_INITIATE_RECEIVED_Enter sample_eap_env False erp_sm = Some s'"
    by (simp add: sm_EAP_INITIATE_RECEIVED_Enter_def)
  show ?thesis using erp_replay_ignored [OF sample_accepted s', of "erp_sm\<lparr>erp_keys := erp_keys s'\<rparr>"] s' by simp
qed

text \<open>Machines that wait for the answer of a method.\<close>

definition waiting_sm :: "(eap_priv, unit) eap_method \<Rightarrow> eap_priv \<Rightarrow> (eap_priv, unit) eap_sm" where
  "waiting_sm x p = sample_eap_sm\<lparr>EAP_state := EAP_IDLE, eif := zero_if\<lparr>portEnabled := True, retransWhile := 3\<rparr>, eap_m := Some x,
     currentMethod := m_method x, currentId := 7, eap_method_priv := Some p, share := nak_share\<rparr>"

lemma waiting_sm_fields:
  "awaiting sample_eap_env x p (waiting_sm x p)" "currentMethod (waiting_sm x p) = m_method x" "currentId (waiting_sm x p) = 7"
  "user (share (waiting_sm x p)) = Some nak_user"
  by (simp_all add: awaiting_def waiting_sm_def zero_if_def sample_eap_fields sample_eap_env_def nak_share_def)

theorem md5_authenticates_witness:
  "\<exists>s'. eap_sm_run sample_eap_env (deliver (response_frame 7 4 ([16] @ ([7, 1, 2] @ replicate 13 7) @ []))
      (waiting_sm (eap_server_md5 sample_lib) (Md5Data \<lparr>challenge = replicate 16 7, md5_state = CONTINUE\<rparr>))) = Some (s', True) \<and>
    EAP_state s' = EAP_SUCCESS \<and> eapSuccess (eif s')"
  using md5_authenticates [OF waiting_sm_fields(1) [of "eap_server_md5 sample_lib" "Md5Data \<lparr>challenge = replicate 16 7, md5_state = CONTINUE\<rparr>"],
      of nak_user "[1, 2]" "[7, 1, 2] @ replicate 13 7" "[7, 1, 2] @ replicate 13 7" "[]"]
  by (simp add: waiting_sm_fields eap_server_md5_def nak_user_def sample_eap_env_def chap_md5_def sample_lib_def) auto

theorem gtc_authenticates_witness:
  "\<exists>s'. eap_sm_run sample_eap_env (deliver (response_frame 7 6 [1, 2])
      (waiting_sm (eap_server_gtc sample_lib) (GtcData \<lparr>gtc_state = CONTINUE, prefix = False\<rparr>))) = Some (s', True) \<and>
    EAP_state s' = EAP_SUCCESS \<and> eapSuccess (eif s')"
  using gtc_authenticates [OF waiting_sm_fields(1) [of "eap_server_gtc sample_lib" "GtcData \<lparr>gtc_state = CONTINUE, prefix = False\<rparr>"],
      of nak_user "[1, 2]" "[1, 2]"]
  by (simp add: waiting_sm_fields eap_server_gtc_def nak_user_def sample_eap_env_def) auto

text \<open>An authenticator with a new EAP server; a frame arrives, and the machine is run.\<close>

definition stranger_env :: "(eap_priv, unit) eap_sm eapol_env" where
  "stranger_env = \<lparr>config_wep = False, cb_finished = (\<lambda>_. False), cb_sta_entry_alive = (\<lambda>_. True),
     eap_server_sm_step = eap_server_step (server_env sample_lib sample_eap_env)\<rparr>"

definition stranger_server :: "(eap_priv, unit) eap_sm" where
  "stranger_server = the (eap_server_sm_init (server_env sample_lib sample_eap_env) () [])"

definition stranger_sm :: "(eap_priv, unit) eap_sm eapol_sm" where
  "stranger_sm = new_sm False sample_auth [2, 0, 0, 0, 0, 1] 0 stranger_server sample_if"

definition with_frame :: "bytes \<Rightarrow> 'e eapol_sm \<Rightarrow> 'e eapol_sm" where
  "with_frame b s = s\<lparr>eap_if := (eap_if s)\<lparr>eapResp := True, eapRespData := Some b\<rparr>\<rparr>"


end
