(* ===== verification/Wpa_Common.thy ===== *)
theory Wpa_Common
  imports Wpa_Defs Eap_Common
begin

text \<open>
  Keys and key data of the four-way handshake, shared by authenticator and supplicant:
  the functions of \<open>src/common/wpa_common.c\<close> that derive the pairwise transient key, compute the MIC
  of an EAPOL-Key frame and parse its key data, and helpers of \<open>src/utils/common.c\<close>,
  \<open>src/common/ieee802_11_common.c\<close> and \<open>src/ap/wpa_auth_ie.c\<close>. The hash, cipher and key expansion
  functions are parameters, the record \<open>wpa_crypto\<close>; each returns \<open>None\<close> when it fails.
\<close>

section \<open>Counters and comparison\<close>

text \<open>\<open>inc_byte_array\<close> on the reversed array, the least significant byte first.\<close>

fun inc_bytes :: "bytes \<Rightarrow> bytes" where
  "inc_bytes [] = []"
| "inc_bytes (b # bs) = (if b + 1 \<noteq> 0 then (b + 1) # bs else (b + 1) # inc_bytes bs)"

definition inc_byte_array :: "bytes \<Rightarrow> bytes" where
  "inc_byte_array counter = rev (inc_bytes (rev counter))"

text \<open>The order of \<open>memcmp\<close> on arrays of equal length: the first difference decides.\<close>

fun memcmp_less :: "bytes \<Rightarrow> bytes \<Rightarrow> bool" where
  "memcmp_less (a # as) (b # bs) \<longleftrightarrow> a < b \<or> (a = b \<and> memcmp_less as bs)"
| "memcmp_less _ _ \<longleftrightarrow> False"

text \<open>The value of an array as a number, most significant byte first.\<close>

definition be_value :: "bytes \<Rightarrow> nat" where
  "be_value bs = foldl (\<lambda>n b. n * 256 + unat b) 0 bs"

section \<open>Keys\<close>

record wpa_crypto =
  hmac_md5 :: "bytes \<Rightarrow> bytes \<Rightarrow> bytes option"
  hmac_sha1 :: "bytes \<Rightarrow> bytes \<Rightarrow> bytes option"
  hmac_sha256 :: "bytes \<Rightarrow> bytes \<Rightarrow> bytes option"
  hmac_sha384 :: "bytes \<Rightarrow> bytes \<Rightarrow> bytes option"
  hmac_sha512 :: "bytes \<Rightarrow> bytes \<Rightarrow> bytes option"
  omac1_aes_128 :: "bytes \<Rightarrow> bytes \<Rightarrow> bytes option"
  sha1_prf :: "bytes \<Rightarrow> string \<Rightarrow> bytes \<Rightarrow> nat \<Rightarrow> bytes option"
  sha256_prf :: "bytes \<Rightarrow> string \<Rightarrow> bytes \<Rightarrow> nat \<Rightarrow> bytes option"
  sha384_prf :: "bytes \<Rightarrow> string \<Rightarrow> bytes \<Rightarrow> nat \<Rightarrow> bytes option"
  sha512_prf :: "bytes \<Rightarrow> string \<Rightarrow> bytes \<Rightarrow> nat \<Rightarrow> bytes option"
  aes_wrap :: "bytes \<Rightarrow> bytes \<Rightarrow> bytes option"
  aes_unwrap :: "bytes \<Rightarrow> bytes \<Rightarrow> bytes option"
  rc4_skip :: "bytes \<Rightarrow> nat \<Rightarrow> bytes \<Rightarrow> bytes"

abbreviation (input) WPA_KEY_INFO_TYPE_AKM_DEFINED :: nat where "WPA_KEY_INFO_TYPE_AKM_DEFINED \<equiv> 0"
abbreviation (input) WPA_KEY_INFO_TYPE_HMAC_MD5_RC4 :: nat where "WPA_KEY_INFO_TYPE_HMAC_MD5_RC4 \<equiv> 1"
abbreviation (input) WPA_KEY_INFO_TYPE_HMAC_SHA1_AES :: nat where "WPA_KEY_INFO_TYPE_HMAC_SHA1_AES \<equiv> 2"
abbreviation (input) WPA_KEY_INFO_TYPE_AES_128_CMAC :: nat where "WPA_KEY_INFO_TYPE_AES_128_CMAC \<equiv> 3"

text \<open>
  The MIC of a frame whose MIC field is zero: the bytes written, or \<open>None\<close> for a negative result.
\<close>

definition wpa_eapol_key_mic :: "wpa_crypto \<Rightarrow> bytes \<Rightarrow> u32 \<Rightarrow> nat \<Rightarrow> bytes \<Rightarrow> bytes option" where
  "wpa_eapol_key_mic c key akmp ver buf =
     (if key = [] then None
      else if ver = WPA_KEY_INFO_TYPE_HMAC_MD5_RC4 then hmac_md5 c key buf
      else if ver = WPA_KEY_INFO_TYPE_HMAC_SHA1_AES then map_option (take 16) (hmac_sha1 c key buf)
      else if ver = WPA_KEY_INFO_TYPE_AES_128_CMAC then omac1_aes_128 c key buf
      else if ver = WPA_KEY_INFO_TYPE_AKM_DEFINED then
        (if akmp = WPA_KEY_MGMT_DPP then
           (if length key = 16 then map_option (take (length key)) (hmac_sha256 c key buf)
            else if length key = 24 then map_option (take (length key)) (hmac_sha384 c key buf)
            else if length key = 32 then map_option (take (length key)) (hmac_sha512 c key buf)
            else None)
         else if akmp = WPA_KEY_MGMT_IEEE8021X_SHA384 then map_option (take 24) (hmac_sha384 c key buf)
         else None)
      else None)"

text \<open>The pairwise transient key; a part and its length field are one list.\<close>

record wpa_ptk =
  kck :: bytes
  kek :: bytes
  tk :: bytes
  kdk :: bytes

definition zero_ptk :: wpa_ptk where
  "zero_ptk = \<lparr>kck = [], kek = [], tk = [], kdk = []\<rparr>"

definition ptk_data :: "mac \<Rightarrow> mac \<Rightarrow> bytes \<Rightarrow> bytes \<Rightarrow> bytes \<Rightarrow> bytes" where
  "ptk_data addr1 addr2 nonce1 nonce2 z =
     (if memcmp_less addr1 addr2 then addr1 @ addr2 else addr2 @ addr1) @
     (if memcmp_less nonce1 nonce2 then nonce1 @ nonce2 else nonce2 @ nonce1) @ z"

definition ptk_prf :: "wpa_crypto \<Rightarrow> u32 \<Rightarrow> nat \<Rightarrow> (bytes \<Rightarrow> string \<Rightarrow> bytes \<Rightarrow> nat \<Rightarrow> bytes option) option" where
  "ptk_prf c akmp pmk_len =
     (if wpa_key_mgmt_sha384 akmp then Some (sha384_prf c)
      else if wpa_key_mgmt_sha256 akmp then Some (sha256_prf c)
      else if akmp = WPA_KEY_MGMT_DPP then
        (if pmk_len = 32 then Some (sha256_prf c)
         else if pmk_len = 48 then Some (sha384_prf c)
         else if pmk_len = 64 then Some (sha512_prf c)
         else None)
      else Some (sha1_prf c))"

definition wpa_pmk_to_ptk ::
  "wpa_crypto \<Rightarrow> bytes \<Rightarrow> string \<Rightarrow> mac \<Rightarrow> mac \<Rightarrow> bytes \<Rightarrow> bytes \<Rightarrow> u32 \<Rightarrow> u32 \<Rightarrow> bytes \<Rightarrow> nat \<Rightarrow> wpa_ptk option" where
  "wpa_pmk_to_ptk c pmk label addr1 addr2 nonce1 nonce2 akmp cipher z kdk_len =
     (let kck_len = wpa_kck_len akmp (length pmk);
          kek_len = wpa_kek_len akmp (length pmk);
          tk_len = wpa_cipher_key_len cipher
      in if pmk = [] \<or> length z > 66 \<or> kdk_len > 32 \<or> tk_len = 0 then None
         else do {
           prf \<leftarrow> ptk_prf c akmp (length pmk);
           tmp \<leftarrow> prf pmk label (ptk_data addr1 addr2 nonce1 nonce2 z) (kck_len + kek_len + tk_len + kdk_len);
           Some \<lparr>kck = take kck_len tmp, kek = take kek_len (drop kck_len tmp),
                 tk = take tk_len (drop (kck_len + kek_len) tmp),
                 kdk = take kdk_len (drop (kck_len + kek_len + tk_len) tmp)\<rparr>
         })"

definition pmk_name :: bytes where
  "pmk_name = [0x50, 0x4d, 0x4b, 0x20, 0x4e, 0x61, 0x6d, 0x65]"

text \<open>The identifier of a key. Its hash is not checked for failure: \<open>None\<close> is then unset memory.\<close>

definition rsn_pmkid :: "wpa_crypto \<Rightarrow> bytes \<Rightarrow> mac \<Rightarrow> mac \<Rightarrow> u32 \<Rightarrow> bytes option" where
  "rsn_pmkid c pmk aa spa akmp =
     map_option (take 16)
       ((if wpa_key_mgmt_sha384 akmp then hmac_sha384 c else if wpa_key_mgmt_sha256 akmp then hmac_sha256 c
         else hmac_sha1 c) pmk (pmk_name @ aa @ spa))"

text \<open>Whether two information elements are the same: 0 or \<open>-1\<close>.\<close>

definition wpa_compare_rsn_ie :: "bytes option \<Rightarrow> bytes option \<Rightarrow> int" where
  "wpa_compare_rsn_ie ie1 ie2 =
     (case (ie1, ie2) of (Some a, Some b) \<Rightarrow> if a = b then 0 else - 1 | _ \<Rightarrow> - 1)"

section \<open>Information elements\<close>

fun get_ie :: "bytes \<Rightarrow> byte \<Rightarrow> bytes option" where
  "get_ie (eid # datalen # rest) wanted =
     (if length rest < unat datalen then None
      else if eid = wanted then Some (eid # datalen # take (unat datalen) rest)
      else get_ie (drop (unat datalen) rest) wanted)"
| "get_ie _ _ = None"

text \<open>A capability bit of the element RSNXE, which is given with its two header bytes.\<close>

definition ieee802_11_rsnx_capab :: "bytes option \<Rightarrow> nat \<Rightarrow> bool" where
  "ieee802_11_rsnx_capab rsnxe capab =
     (case rsnxe of
        None \<Rightarrow> False
      | Some e \<Rightarrow>
          let body = drop 2 e; n = unat (e ! 1)
          in if n = 0 then False
             else let flen = unat (body ! 0 AND 0x0f) + 1
                  in flen \<le> n \<and> bit (foldr (\<lambda>b w. push_bit 8 w OR ucast b) (take (min 4 flen) body) (0 :: u32)) capab)"

abbreviation (input) RSN_KEY_DATA_GROUPKEY :: nat where "RSN_KEY_DATA_GROUPKEY \<equiv> 0x000fac01"
abbreviation (input) RSN_KEY_DATA_MAC_ADDR :: nat where "RSN_KEY_DATA_MAC_ADDR \<equiv> 0x000fac03"
abbreviation (input) RSN_KEY_DATA_PMKID :: nat where "RSN_KEY_DATA_PMKID \<equiv> 0x000fac04"
abbreviation (input) RSN_KEY_DATA_IGTK :: nat where "RSN_KEY_DATA_IGTK \<equiv> 0x000fac09"
abbreviation (input) RSN_KEY_DATA_KEYID :: nat where "RSN_KEY_DATA_KEYID \<equiv> 0x000fac0a"
abbreviation (input) RSN_KEY_DATA_OCI :: nat where "RSN_KEY_DATA_OCI \<equiv> 0x000fac0d"
abbreviation (input) RSN_KEY_DATA_BIGTK :: nat where "RSN_KEY_DATA_BIGTK \<equiv> 0x000fac0e"
abbreviation (input) RSN_KEY_DATA_MLO_GTK :: nat where "RSN_KEY_DATA_MLO_GTK \<equiv> 0x000fac10"
abbreviation (input) RSN_KEY_DATA_MLO_IGTK :: nat where "RSN_KEY_DATA_MLO_IGTK \<equiv> 0x000fac11"
abbreviation (input) RSN_KEY_DATA_MLO_BIGTK :: nat where "RSN_KEY_DATA_MLO_BIGTK \<equiv> 0x000fac12"
abbreviation (input) RSN_KEY_DATA_MLO_LINK :: nat where "RSN_KEY_DATA_MLO_LINK \<equiv> 0x000fac13"
abbreviation (input) WFA_KEY_DATA_IP_ADDR_REQ :: nat where "WFA_KEY_DATA_IP_ADDR_REQ \<equiv> 0x506f9a04"
abbreviation (input) WFA_KEY_DATA_IP_ADDR_ALLOC :: nat where "WFA_KEY_DATA_IP_ADDR_ALLOC \<equiv> 0x506f9a05"
abbreviation (input) WFA_KEY_DATA_TRANSITION_DISABLE :: nat where "WFA_KEY_DATA_TRANSITION_DISABLE \<equiv> 0x506f9a20"
abbreviation (input) WFA_KEY_DATA_DPP :: nat where "WFA_KEY_DATA_DPP \<equiv> 0x506f9a21"
abbreviation (input) WPA_OUI_TYPE :: nat where "WPA_OUI_TYPE \<equiv> 0x0050f201"
abbreviation (input) OSEN_IE_VENDOR_TYPE :: nat where "OSEN_IE_VENDOR_TYPE \<equiv> 0x506f9a12"

definition wpa_add_kde :: "nat \<Rightarrow> bytes \<Rightarrow> bytes \<Rightarrow> bytes" where
  "wpa_add_kde kde data data2 = [0xdd, of_nat (4 + length data + length data2)] @ put_be32 kde @ data @ data2"

section \<open>Key data\<close>

text \<open>
  The fields of \<open>struct wpa_eapol_ie_parse\<close>. A pointer with a length is the list of bytes it covers,
  a pointer into an element without one the rest of that element. The arrays indexed by a link are
  maps, defined at the links whose bit is set.
\<close>

record wpa_eapol_ie_parse =
  kde_wpa_ie :: "bytes option"
  kde_rsn_ie :: "bytes option"
  kde_pmkid :: "bytes option"
  kde_key_id :: "bytes option"
  kde_gtk :: "bytes option"
  kde_mac_addr :: "bytes option"
  kde_igtk :: "bytes option"
  kde_bigtk :: "bytes option"
  kde_mdie :: "bytes option"
  kde_ftie :: "bytes option"
  kde_ip_addr_req :: "bytes option"
  kde_ip_addr_alloc :: "bytes option"
  kde_transition_disable :: "bytes option"
  kde_dpp_kde :: "bytes option"
  kde_oci :: "bytes option"
  kde_osen :: "bytes option"
  kde_rsnxe :: "bytes option"
  kde_reassoc_deadline :: "bytes option"
  kde_key_lifetime :: "bytes option"
  kde_lnkid :: "bytes option"
  kde_ext_capab :: "bytes option"
  kde_supp_rates :: "bytes option"
  kde_ext_supp_rates :: "bytes option"
  kde_ht_capabilities :: "bytes option"
  kde_vht_capabilities :: "bytes option"
  kde_he_capabilities :: "bytes option"
  kde_he_6ghz_capabilities :: "bytes option"
  kde_eht_capabilities :: "bytes option"
  kde_supp_channels :: "bytes option"
  kde_supp_oper_classes :: "bytes option"
  kde_ssid :: "bytes option"
  kde_qosinfo :: byte
  kde_aid :: u16
  kde_wmm :: "bytes option"
  kde_mlo_gtk :: "nat \<Rightarrow> bytes option"
  kde_mlo_igtk :: "nat \<Rightarrow> bytes option"
  kde_mlo_bigtk :: "nat \<Rightarrow> bytes option"
  kde_mlo_link :: "nat \<Rightarrow> bytes option"

definition no_kdes :: wpa_eapol_ie_parse where
  "no_kdes = \<lparr>kde_wpa_ie = None, kde_rsn_ie = None, kde_pmkid = None, kde_key_id = None, kde_gtk = None,
     kde_mac_addr = None, kde_igtk = None, kde_bigtk = None, kde_mdie = None, kde_ftie = None, kde_ip_addr_req = None,
     kde_ip_addr_alloc = None, kde_transition_disable = None, kde_dpp_kde = None, kde_oci = None, kde_osen = None,
     kde_rsnxe = None, kde_reassoc_deadline = None, kde_key_lifetime = None, kde_lnkid = None, kde_ext_capab = None,
     kde_supp_rates = None, kde_ext_supp_rates = None, kde_ht_capabilities = None, kde_vht_capabilities = None,
     kde_he_capabilities = None, kde_he_6ghz_capabilities = None, kde_eht_capabilities = None, kde_supp_channels = None,
     kde_supp_oper_classes = None, kde_ssid = None, kde_qosinfo = 0, kde_aid = 0, kde_wmm = None,
     kde_mlo_gtk = (\<lambda>_. None), kde_mlo_igtk = (\<lambda>_. None), kde_mlo_bigtk = (\<lambda>_. None), kde_mlo_link = (\<lambda>_. None)\<rparr>"

text \<open>
  An element is given by its identifier and its body. A vendor specific element is first taken as a
  key data encapsulation: 0 is returned if it is one, 1 for the end mark, 2 if it is unknown.
\<close>

definition wpa_parse_generic :: "bytes \<Rightarrow> wpa_eapol_ie_parse \<Rightarrow> int \<times> wpa_eapol_ie_parse" where
  "wpa_parse_generic body ie =
     (let len = length body; el = [0xdd, of_nat len] @ body; selector = get_be32 body 0; p = drop 4 body; left = len - 4;
          hi = (\<lambda>i. unat (drop_bit 4 (p ! i AND 0xf0))); lo = (\<lambda>i. unat (p ! i AND 0x0f))
      in if len = 0 then (1, ie)
         else if len < 4 then (2, ie)
         else if left \<ge> 2 \<and> selector = WPA_OUI_TYPE \<and> p ! 0 = 1 \<and> p ! 1 = 0 then (0, ie\<lparr>kde_wpa_ie := Some el\<rparr>)
         else if selector = OSEN_IE_VENDOR_TYPE then (0, ie\<lparr>kde_osen := Some el\<rparr>)
         else if left \<ge> 16 \<and> selector = RSN_KEY_DATA_PMKID then (0, ie\<lparr>kde_pmkid := Some p\<rparr>)
         else if left \<ge> 2 \<and> selector = RSN_KEY_DATA_KEYID then (0, ie\<lparr>kde_key_id := Some p\<rparr>)
         else if left > 2 \<and> selector = RSN_KEY_DATA_GROUPKEY then (0, ie\<lparr>kde_gtk := Some p\<rparr>)
         else if left \<ge> ETH_ALEN \<and> selector = RSN_KEY_DATA_MAC_ADDR then (0, ie\<lparr>kde_mac_addr := Some p\<rparr>)
         else if left > 2 \<and> selector = RSN_KEY_DATA_IGTK then (0, ie\<lparr>kde_igtk := Some p\<rparr>)
         else if left > 2 \<and> selector = RSN_KEY_DATA_BIGTK then (0, ie\<lparr>kde_bigtk := Some p\<rparr>)
         else if left \<ge> 1 \<and> selector = WFA_KEY_DATA_IP_ADDR_REQ then (0, ie\<lparr>kde_ip_addr_req := Some p\<rparr>)
         else if left \<ge> 12 \<and> selector = WFA_KEY_DATA_IP_ADDR_ALLOC then (0, ie\<lparr>kde_ip_addr_alloc := Some p\<rparr>)
         else if left > 2 \<and> selector = RSN_KEY_DATA_OCI then (0, ie\<lparr>kde_oci := Some p\<rparr>)
         else if left \<ge> 1 \<and> selector = WFA_KEY_DATA_TRANSITION_DISABLE then (0, ie\<lparr>kde_transition_disable := Some p\<rparr>)
         else if left \<ge> 2 \<and> selector = WFA_KEY_DATA_DPP then (0, ie\<lparr>kde_dpp_kde := Some p\<rparr>)
         else if left \<ge> 7 \<and> selector = RSN_KEY_DATA_MLO_GTK then
           (if hi 0 \<ge> 15 then (2, ie) else (0, ie\<lparr>kde_mlo_gtk := (kde_mlo_gtk ie)(hi 0 \<mapsto> p)\<rparr>))
         else if left \<ge> 9 \<and> selector = RSN_KEY_DATA_MLO_IGTK then
           (if hi 8 \<ge> 15 then (2, ie) else (0, ie\<lparr>kde_mlo_igtk := (kde_mlo_igtk ie)(hi 8 \<mapsto> p)\<rparr>))
         else if left \<ge> 9 \<and> selector = RSN_KEY_DATA_MLO_BIGTK then
           (if hi 8 \<ge> 15 then (2, ie) else (0, ie\<lparr>kde_mlo_bigtk := (kde_mlo_bigtk ie)(hi 8 \<mapsto> p)\<rparr>))
         else if left \<ge> 7 \<and> selector = RSN_KEY_DATA_MLO_LINK then
           (if lo 0 \<ge> 15 then (2, ie) else (0, ie\<lparr>kde_mlo_link := (kde_mlo_link ie)(lo 0 \<mapsto> p)\<rparr>))
         else (2, ie))"

definition wpa_parse_vendor_specific :: "bytes \<Rightarrow> wpa_eapol_ie_parse \<Rightarrow> wpa_eapol_ie_parse" where
  "wpa_parse_vendor_specific body ie =
     (if length body < 4 then ie
      else if get_be24 body 0 = 0x0050f2 \<and> body ! 3 = 2 \<and> length body > 4 \<and> body ! 4 \<in> {0, 1}
        then ie\<lparr>kde_wmm := Some body\<rparr>
      else ie)"

text \<open>
  One element. The result says whether the end mark was found.
\<close>

definition wpa_parse_kde_ie :: "byte \<Rightarrow> bytes \<Rightarrow> wpa_eapol_ie_parse \<Rightarrow> bool \<times> wpa_eapol_ie_parse" where
  "wpa_parse_kde_ie eid body ie =
     (let len = length body; el = [eid, of_nat len] @ body
      in if eid = 48 then (False, ie\<lparr>kde_rsn_ie := Some el\<rparr>)
         else if eid = 244 then (False, ie\<lparr>kde_rsnxe := Some el\<rparr>)
         else if eid = 54 then (False, ie\<lparr>kde_mdie := Some el\<rparr>)
         else if eid = 55 then (False, ie\<lparr>kde_ftie := Some el\<rparr>)
         else if eid = 56 \<and> len \<ge> 5 then
           (False, if body ! 0 = 1 then ie\<lparr>kde_reassoc_deadline := Some el\<rparr>
                   else if body ! 0 = 2 then ie\<lparr>kde_key_lifetime := Some el\<rparr>
                   else ie)
         else if eid = 101 then (False, if len \<ge> 18 then ie\<lparr>kde_lnkid := Some el\<rparr> else ie)
         else if eid = 127 then (False, ie\<lparr>kde_ext_capab := Some el\<rparr>)
         else if eid = 1 then (False, ie\<lparr>kde_supp_rates := Some el\<rparr>)
         else if eid = 50 then (False, ie\<lparr>kde_ext_supp_rates := Some el\<rparr>)
         else if eid = 45 \<and> len \<ge> 26 then (False, ie\<lparr>kde_ht_capabilities := Some body\<rparr>)
         else if eid = 197 then
           (False, if len \<ge> 2 then ie\<lparr>kde_aid := (ucast (body ! 0) OR push_bit 8 (ucast (body ! 1))) AND 0x3fff\<rparr> else ie)
         else if eid = 191 \<and> len \<ge> 12 then (False, ie\<lparr>kde_vht_capabilities := Some body\<rparr>)
         else if eid = 255 \<and> len \<ge> 18 \<and> body ! 0 = 35 then (False, ie\<lparr>kde_he_capabilities := Some (drop 1 body)\<rparr>)
         else if eid = 255 \<and> len \<ge> 3 \<and> body ! 0 = 59 then (False, ie\<lparr>kde_he_6ghz_capabilities := Some (drop 1 body)\<rparr>)
         else if eid = 255 \<and> len \<ge> 12 \<and> body ! 0 = 108 then (False, ie\<lparr>kde_eht_capabilities := Some (drop 1 body)\<rparr>)
         else if eid = 46 \<and> len \<ge> 1 then (False, ie\<lparr>kde_qosinfo := body ! 0\<rparr>)
         else if eid = 36 then (False, ie\<lparr>kde_supp_channels := Some body\<rparr>)
         else if eid = 59 then
           (False, if 2 \<le> len \<and> len \<le> 253 then ie\<lparr>kde_supp_oper_classes := Some body\<rparr> else ie)
         else if eid = 0 then (False, ie\<lparr>kde_ssid := Some body\<rparr>)
         else if eid = 0xdd then
           (let (ret, ie) = wpa_parse_generic body ie
            in if ret = 1 then (True, ie) else if ret = 2 then (False, wpa_parse_vendor_specific body ie) else (False, ie))
         else (False, ie))"

text \<open>
  The loop over the elements; fewer than two bytes end it. The first test of the code for padding,
  an element identifier in the last byte, cannot hold inside the loop.
\<close>

function wpa_parse_kde_loop :: "bytes \<Rightarrow> wpa_eapol_ie_parse \<Rightarrow> int \<times> wpa_eapol_ie_parse" where
  "wpa_parse_kde_loop pos ie =
     (if length pos \<le> 1 then (0, ie)
      else if pos ! 0 = 0xdd \<and> pos ! 1 = 0 then (0, ie)
      else let dlen = 2 + unat (pos ! 1)
           in if dlen > length pos then (- 1, ie)
              else let (stop, ie) = wpa_parse_kde_ie (pos ! 0) (drop 2 (take dlen pos)) ie
                   in if stop then (0, ie) else wpa_parse_kde_loop (drop dlen pos) ie)"
  by pat_completeness auto
termination
  by (relation "measure (length \<circ> fst)") auto

declare wpa_parse_kde_loop.simps [simp del]

definition wpa_parse_kde_ies :: "bytes \<Rightarrow> int \<times> wpa_eapol_ie_parse" where
  "wpa_parse_kde_ies buf = wpa_parse_kde_loop buf no_kdes"

section \<open>Counters are numbers\<close>

lemma length_inc_bytes [simp]: "length (inc_bytes bs) = length bs"
  by (induction bs rule: inc_bytes.induct) auto

lemma length_inc_byte_array [simp]: "length (inc_byte_array bs) = length bs"
  by (simp add: inc_byte_array_def)

lemma be_value_Nil [simp]: "be_value [] = 0"
  by (simp add: be_value_def)

lemma be_value_snoc [simp]: "be_value (bs @ [b]) = be_value bs * 256 + unat b"
  by (simp add: be_value_def)

lemma foldl_be_value: "foldl (\<lambda>n b. n * 256 + unat b) m bs = m * 256 ^ length bs + be_value bs"
  unfolding be_value_def
proof (induction bs arbitrary: m)
  case (Cons b bs)
  show ?case using Cons [of "m * 256 + unat b"] Cons [of "unat b"] by (simp add: algebra_simps)
qed simp

lemma be_value_Cons: "be_value (b # bs) = unat b * 256 ^ length bs + be_value bs"
  using foldl_be_value [of "unat b" bs] by (simp add: be_value_def)

lemma byte_unat: "unat (b :: byte) < 256"
  using unsigned_less [of b] by simp

lemma be_value_bound: "be_value bs < 256 ^ length bs"
proof (induction bs)
  case (Cons b bs)
  have "(unat b + 1) * 256 ^ length bs \<le> 256 * 256 ^ length bs"
    using byte_unat [of b] by (intro mult_right_mono) auto
  moreover have "be_value (b # bs) < (unat b + 1) * 256 ^ length bs"
    using Cons by (simp add: be_value_Cons)
  ultimately have "be_value (b # bs) < 256 * 256 ^ length bs" by (rule less_le_trans [rotated])
  then show ?case by simp
qed simp

text \<open>The order of \<open>memcmp\<close> is the order of the numbers.\<close>

lemma memcmp_less_be_value:
  "length as = length bs \<Longrightarrow> memcmp_less as bs \<longleftrightarrow> be_value as < be_value bs"
proof (induction as bs rule: memcmp_less.induct)
  case (1 a as b bs)
  have "a = b \<longleftrightarrow> unat a = unat b" "a < b \<longleftrightarrow> unat a < unat b" by (auto simp: word_less_nat_alt intro: unsigned_word_eqI)
  moreover have "unat a * 256 ^ length bs + be_value as < unat b * 256 ^ length bs + be_value bs" if "unat a < unat b"
  proof -
    have "(unat a + 1) * 256 ^ length bs \<le> unat b * 256 ^ length bs" using that by (intro mult_right_mono) auto
    then show ?thesis using be_value_bound [of as] 1 by simp
  qed
  moreover have "unat b * 256 ^ length bs + be_value bs < unat a * 256 ^ length bs + be_value as" if "unat b < unat a"
  proof -
    have "(unat b + 1) * 256 ^ length bs \<le> unat a * 256 ^ length bs" using that by (intro mult_right_mono) auto
    then show ?thesis using be_value_bound [of bs] 1 by simp
  qed
  ultimately show ?case using 1 by (cases "unat a" "unat b" rule: linorder_cases) (auto simp: be_value_Cons)
qed auto

lemma be_value_inc_bytes:
  "be_value (rev (inc_bytes bs)) = (be_value (rev bs) + 1) mod 256 ^ length bs"
proof (induction bs rule: inc_bytes.induct)
  case (2 b bs)
  have u: "unat (b + 1) = (unat b + 1) mod 256" by (simp add: unat_word_ariths)
  show ?case
  proof (cases "b + 1 = 0")
    case True
    then have "unat b = 255" using u byte_unat [of b] by (auto simp: mod_if split: if_splits)
    then show ?thesis using True 2 by (simp add: mult_mod_right algebra_simps)
  next
    case False
    then have "unat (b + 1) \<noteq> 0" by (simp add: unat_eq_0)
    then have n: "unat b + 1 < 256" using u byte_unat [of b] by (cases "unat b = 255") auto
    have "be_value (rev bs) * 256 + (unat b + 1) < 256 * 256 ^ length bs"
      using be_value_bound [of "rev bs"] n by simp
    then show ?thesis using False u n by simp
  qed
qed simp

text \<open>A counter is a number modulo the size of its array.\<close>

lemma be_value_inc_byte_array:
  "be_value (inc_byte_array c) = (be_value c + 1) mod 256 ^ length c"
  using be_value_inc_bytes [of "rev c"] by (simp add: inc_byte_array_def)

lemma be_value_inject: "length as = length bs \<Longrightarrow> be_value as = be_value bs \<longleftrightarrow> as = bs"
proof (induction as bs rule: list_induct2)
  case (Cons a as b bs)
  have "unat a = (be_value (a # as)) div 256 ^ length as" for a :: byte and as
    using be_value_bound [of as] by (simp add: be_value_Cons)
  moreover have "be_value as = (be_value (a # as)) mod 256 ^ length as" for a :: byte and as
    using be_value_bound [of as] by (simp add: be_value_Cons)
  ultimately show ?case using Cons by (metis list.inject unsigned_word_eqI)
qed simp

section \<open>Both ends derive the same key\<close>

lemma memcmp_less_total:
  "length a = length b \<Longrightarrow> memcmp_less a b \<or> memcmp_less b a \<or> a = b"
  by (auto simp: memcmp_less_be_value simp flip: be_value_inject)

lemma memcmp_less_asym: "memcmp_less a b \<Longrightarrow> \<not> memcmp_less b a"
  by (induction a b rule: memcmp_less.induct) auto

lemma ptk_data_swap:
  assumes "length a1 = length a2" and "length n1 = length n2"
  shows "ptk_data a1 a2 n1 n2 z = ptk_data a2 a1 n2 n1 z"
  using memcmp_less_total [OF assms(1)] memcmp_less_total [OF assms(2)]
  by (auto simp: ptk_data_def dest: memcmp_less_asym)

text \<open>
  C36. The pairwise transient key does not depend on the end that computes it: the authenticator
  gives its own address and nonce first, the supplicant its own, and both get the same key, or both
  none.
\<close>

theorem ptk_same_at_both_ends:
  assumes "length aa = ETH_ALEN" and "length spa = ETH_ALEN" and "length anonce = 32" and "length snonce = 32"
  shows "wpa_pmk_to_ptk c pmk label aa spa anonce snonce akmp cipher z kdk_len =
         wpa_pmk_to_ptk c pmk label spa aa snonce anonce akmp cipher z kdk_len"
  unfolding wpa_pmk_to_ptk_def using ptk_data_swap [of aa spa anonce snonce z] assms by (simp only:)

section \<open>Key data is read as it was written\<close>

lemma kde_loop_end [simp]: "length pos \<le> 1 \<Longrightarrow> wpa_parse_kde_loop pos ie = (0, ie)"
  by (simp add: wpa_parse_kde_loop.simps)

lemma kde_loop_padding [simp]: "wpa_parse_kde_loop (0xdd # replicate n 0) ie = (0, ie)"
  by (cases n) (simp_all add: wpa_parse_kde_loop.simps)

lemma kde_loop_element:
  assumes "length body < 256" and "eid = 0xdd \<longrightarrow> body \<noteq> []"
  shows "wpa_parse_kde_loop (eid # of_nat (length body) # body @ rest) ie =
           (let (stop, ie) = wpa_parse_kde_ie eid body ie in if stop then (0, ie) else wpa_parse_kde_loop rest ie)"
proof -
  have "unat (of_nat (length body) :: byte) = length body"
    using assms(1) by (simp add: unat_of_nat)
  moreover have "eid \<noteq> 0xdd \<or> (of_nat (length body) :: byte) \<noteq> 0"
    using assms calculation by (metis length_0_conv unat_0)
  ultimately show ?thesis
    by (subst wpa_parse_kde_loop.simps) (auto simp: Let_def split: prod.splits)
qed

lemma get_be32_put [simp]: "n < 4294967296 \<Longrightarrow> get_be32 (put_be32 n @ ys) 0 = n"
  using get_put_be32 [of 0 "[]" n ys] by simp

text \<open>A data encapsulation, behind which the parser goes on.\<close>

lemma kde_loop_add_kde:
  assumes "length d + length d2 < 252" and "kde < 4294967296"
  shows "wpa_parse_kde_loop (wpa_add_kde kde d d2 @ rest) ie =
           (let (ret, ie') = wpa_parse_generic (put_be32 kde @ d @ d2) ie
            in wpa_parse_kde_loop rest (if ret = 2 then wpa_parse_vendor_specific (put_be32 kde @ d @ d2) ie' else ie'))"
proof -
  let ?b = "put_be32 kde @ d @ d2"
  have "fst (wpa_parse_generic ?b ie) \<noteq> 1" by (simp add: wpa_parse_generic_def Let_def)
  moreover have "length ?b < 256" "?b \<noteq> []" using assms by (auto simp: put_be32_def)
  moreover have "wpa_add_kde kde d d2 @ rest = 0xdd # of_nat (length ?b) # ?b @ rest"
    by (simp add: wpa_add_kde_def add.assoc)
  ultimately show ?thesis
    using kde_loop_element [of ?b "0xdd" rest ie]
    by (simp only:) (auto simp: wpa_parse_kde_ie_def Let_def split: prod.splits)
qed

lemma generic_groupkey:
  assumes "gtk \<noteq> []"
  shows "wpa_parse_generic (put_be32 RSN_KEY_DATA_GROUPKEY @ k # 0 # gtk) ie = (0, ie\<lparr>kde_gtk := Some ([k, 0] @ gtk)\<rparr>)"
  using assms by (cases gtk) (simp_all add: wpa_parse_generic_def Let_def)


end
