(* ===== verification/Wpa_State.thy ===== *)
theory Wpa_State
  imports Wpa_Common
begin

text \<open>
  The data of the WPA/RSN authenticator (\<open>src/ap/wpa_auth_i.h\<close>, \<open>wpa_auth.h\<close>): one structure for
  each station, \<open>struct wpa_state_machine\<close>, one for each group of stations that share a group key,
  \<open>struct wpa_group\<close>, and the authenticator that holds them. Stations and groups are named by
  numbers, their addresses; the two linked lists are lists of these numbers, the list of groups with
  the group of the authenticator itself in front.

  Calls through the callback table and to the event loop are appended to \<open>trace\<close>. What a call
  returns, what the random number generator and the key stores give, is a function of the trace up
  to that call, so that two calls can have two answers; these functions are the record \<open>wpa_env\<close>.
  All entries of the callback table are set, as \<open>wpa_auth_glue.c\<close> sets them. The allocation of a
  copy of elements may fail and is part of the trace; the buffers for a received or a sent frame, for
  the key data of message 3 and for a new station or group are taken to be there. Multiple BSSIDs behind one transmitted BSSID (\<open>tx_bss_auth\<close>) and multi-link operation are not
  part of the model.
\<close>

section \<open>Stations\<close>

datatype wpa_ptk_st = WPA_PTK_INITIALIZE | WPA_PTK_DISCONNECT | WPA_PTK_DISCONNECTED | WPA_PTK_AUTHENTICATION
  | WPA_PTK_AUTHENTICATION2 | WPA_PTK_INITPMK | WPA_PTK_INITPSK | WPA_PTK_PTKSTART | WPA_PTK_PTKCALCNEGOTIATING
  | WPA_PTK_PTKCALCNEGOTIATING2 | WPA_PTK_PTKINITNEGOTIATING | WPA_PTK_PTKINITDONE

datatype wpa_ptk_group_st = WPA_PTK_GROUP_IDLE | WPA_PTK_GROUP_REKEYNEGOTIATING | WPA_PTK_GROUP_REKEYESTABLISHED
  | WPA_PTK_GROUP_KEYERROR

datatype wpa_version = WPA_VERSION_NO_WPA | WPA_VERSION_WPA | WPA_VERSION_WPA2

record wpa_key_replay_counter =
  counter :: bytes
  valid :: bool

text \<open>What the authenticator reads of an entry of the PMKSA cache.\<close>

record pmksa_ref =
  ref_pmk :: bytes
  ref_pmkid :: bytes

text \<open>The master key is the list of its \<open>pmk_len\<close> bytes, the received frame that of its length.\<close>

record wpa_sm =
  sm_addr :: mac
  sm_group :: nat
  wpa_ptk_state :: wpa_ptk_st
  wpa_ptk_group_state :: wpa_ptk_group_st
  Init :: bool
  DeauthenticationRequest :: bool
  AuthenticationRequest :: bool
  ReAuthenticationRequest :: bool
  Disconnect :: bool
  disconnect_reason :: u16
  TimeoutCtr :: u32
  GTimeoutCtr :: u32
  TimeoutEvt :: bool
  EAPOLKeyReceived :: bool
  EAPOLKeyPairwise :: bool
  EAPOLKeyRequest :: bool
  MICVerified :: bool
  GUpdateStationKeys :: bool
  ANonce :: bytes
  SNonce :: bytes
  alt_SNonce :: bytes
  alt_replay_counter :: bytes
  PMK :: bytes
  PTK :: wpa_ptk
  keyidx_active :: byte
  use_ext_key_id :: bool
  PTK_valid :: bool
  pairwise_set :: bool
  tk_already_set :: bool
  keycount :: int
  Pair :: bool
  key_replay :: "wpa_key_replay_counter list"
  prev_key_replay :: "wpa_key_replay_counter list"
  PInitAKeys :: bool
  PTKRequest :: bool
  has_GTK :: bool
  PtkGroupInit :: bool
  last_rx_eapol_key :: "bytes option"
  changed :: bool
  in_step_loop :: bool
  pending_deinit :: bool
  started :: bool
  mgmt_frame_prot :: bool
  mfpr :: bool
  rx_eapol_key_secure :: bool
  update_snonce :: bool
  alt_snonce_valid :: bool
  waiting_radius_psk :: bool
  is_wnmsleep :: bool
  ptkstart_without_success :: u32
  req_replay_counter :: bytes
  req_replay_counter_used :: bool
  sm_wpa_ie :: "bytes option"
  sm_rsnxe :: "bytes option"
  sm_wpa :: wpa_version
  pairwise :: u32
  wpa_key_mgmt :: u32
  sm_pmksa :: "pmksa_ref option"
  sm_RemoteMICFailures :: u32
  pending_1_of_4_timeout :: bool
  dpp_z :: "bytes option"
  ssid_protection :: bool

definition no_counter :: wpa_key_replay_counter where
  "no_counter = \<lparr>counter = replicate 8 0, valid = False\<rparr>"

abbreviation (input) RSNA_MAX_EAPOL_RETRIES :: nat where "RSNA_MAX_EAPOL_RETRIES \<equiv> 4"

text \<open>The structure after \<open>os_zalloc\<close>.\<close>

definition zero_sm :: wpa_sm where
  "zero_sm = \<lparr>sm_addr = replicate 6 0, sm_group = 0, wpa_ptk_state = WPA_PTK_INITIALIZE,
     wpa_ptk_group_state = WPA_PTK_GROUP_IDLE, Init = False, DeauthenticationRequest = False,
     AuthenticationRequest = False, ReAuthenticationRequest = False, Disconnect = False, disconnect_reason = 0,
     TimeoutCtr = 0, GTimeoutCtr = 0, TimeoutEvt = False, EAPOLKeyReceived = False, EAPOLKeyPairwise = False,
     EAPOLKeyRequest = False, MICVerified = False, GUpdateStationKeys = False, ANonce = replicate 32 0,
     SNonce = replicate 32 0, alt_SNonce = replicate 32 0, alt_replay_counter = replicate 8 0, PMK = [], PTK = zero_ptk,
     keyidx_active = 0, use_ext_key_id = False, PTK_valid = False, pairwise_set = False, tk_already_set = False,
     keycount = 0, Pair = False, key_replay = replicate RSNA_MAX_EAPOL_RETRIES no_counter,
     prev_key_replay = replicate RSNA_MAX_EAPOL_RETRIES no_counter, PInitAKeys = False, PTKRequest = False,
     has_GTK = False, PtkGroupInit = False, last_rx_eapol_key = None, changed = False, in_step_loop = False,
     pending_deinit = False, started = False, mgmt_frame_prot = False, mfpr = False, rx_eapol_key_secure = False,
     update_snonce = False, alt_snonce_valid = False, waiting_radius_psk = False, is_wnmsleep = False,
     ptkstart_without_success = 0, req_replay_counter = replicate 8 0, req_replay_counter_used = False,
     sm_wpa_ie = None, sm_rsnxe = None, sm_wpa = WPA_VERSION_NO_WPA, pairwise = 0, wpa_key_mgmt = 0, sm_pmksa = None,
     sm_RemoteMICFailures = 0, pending_1_of_4_timeout = False, dpp_z = None, ssid_protection = False\<rparr>"

section \<open>Groups\<close>

datatype wpa_group_st = WPA_GROUP_GTK_INIT | WPA_GROUP_SETKEYS | WPA_GROUP_SETKEYSDONE | WPA_GROUP_FATAL_FAILURE

text \<open>
  The arrays \<open>GTK\<close>, \<open>IGTK\<close> and \<open>BIGTK\<close> have two keys of 32 bytes each, at the indices
  \<open>GN - 1\<close>, \<open>GN_igtk - 4\<close> and \<open>GN_bigtk - 6\<close>.
\<close>

record wpa_group =
  vlan_id :: int
  GInit :: bool
  GKeyDoneStations :: int
  GTKReKey :: bool
  GTK_len :: nat
  GN :: nat
  GM :: nat
  GTKAuthenticator :: bool
  Counter :: bytes
  wpa_group_state :: wpa_group_st
  GMK :: bytes
  GTK :: "bytes list"
  GNonce :: bytes
  g_changed :: bool
  first_sta_seen :: bool
  reject_4way_hs_for_entropy :: bool
  IGTK :: "bytes list"
  BIGTK :: "bytes list"
  GN_igtk :: nat
  GM_igtk :: nat
  GN_bigtk :: nat
  GM_bigtk :: nat
  bigtk_set :: bool
  bigtk_configured :: bool
  references :: u32
  num_setup_iface :: u32

definition zero_group :: wpa_group where
  "zero_group = \<lparr>vlan_id = 0, GInit = False, GKeyDoneStations = 0, GTKReKey = False, GTK_len = 0, GN = 0, GM = 0,
     GTKAuthenticator = False, Counter = replicate 32 0, wpa_group_state = WPA_GROUP_GTK_INIT, GMK = replicate 32 0,
     GTK = replicate 2 (replicate 32 0), GNonce = replicate 32 0, g_changed = False, first_sta_seen = False,
     reject_4way_hs_for_entropy = False, IGTK = replicate 2 (replicate 32 0), BIGTK = replicate 2 (replicate 32 0),
     GN_igtk = 0, GM_igtk = 0, GN_bigtk = 0, GM_bigtk = 0, bigtk_set = False, bigtk_configured = False, references = 0,
     num_setup_iface = 0\<rparr>"

section \<open>The authenticator and what surrounds it\<close>

datatype mfp_options = NO_MGMT_FRAME_PROTECTION | MGMT_FRAME_PROTECTION_OPTIONAL | MGMT_FRAME_PROTECTION_REQUIRED

record wpa_auth_config =
  conf_wpa :: u32
  extended_key_id :: nat
  conf_key_mgmt :: u32
  wpa_pairwise :: u32
  wpa_group_cipher :: u32
  wpa_group_rekey :: nat
  wpa_strict_rekey :: bool
  wpa_gmk_rekey :: nat
  wpa_ptk_rekey :: nat
  wpa_deny_ptk0_rekey :: bool
  wpa_group_update_count :: u32
  wpa_pairwise_update_count :: u32
  wpa_disable_eapol_key_retries :: bool
  rsn_pairwise :: u32
  rsn_preauth :: bool
  eapol_version :: byte
  wmm_enabled :: bool
  okc :: bool
  tx_status :: bool
  ieee80211w :: mfp_options
  beacon_prot :: bool
  group_mgmt_cipher :: u32
  ssid :: bytes
  disable_gtk :: bool
  sae_pwe :: nat
  sae_pk :: bool
  secure_ltf :: bool
  secure_rtt :: bool
  prot_range_neg :: bool
  transition_disable :: byte
  dpp_pfs :: int
  force_kdk_derivation :: bool
  radius_psk :: bool
  no_disconnect_on_group_keyerror :: bool
  conf_ssid_protection :: bool

datatype wpa_eapol_variable = WPA_EAPOL_portEnabled | WPA_EAPOL_portValid | WPA_EAPOL_authorized
  | WPA_EAPOL_portControl_Auto | WPA_EAPOL_keyRun | WPA_EAPOL_keyAvailable | WPA_EAPOL_keyDone
  | WPA_EAPOL_inc_EapolFramesTx

datatype wpa_key_flag = KEY_FLAG_PAIRWISE | KEY_FLAG_PAIRWISE_RX | KEY_FLAG_PAIRWISE_RX_TX | KEY_FLAG_PAIRWISE_RX_TX_MODIFY
  | KEY_FLAG_GROUP_TX_DEFAULT

datatype wpa_timer = WpaSendEapolTimeout nat | WpaSmCallStep nat | WpaRekeyPtk nat | WpaRekeyGtk | WpaRekeyGmk

datatype wpa_out =
    SetEapol mac wpa_eapol_variable bool
  | GetEapol mac wpa_eapol_variable
  | SetKey int wpa_alg mac nat bytes wpa_key_flag \<comment> \<open>VLAN, algorithm, address, index, key\<close>
  | SendEapol mac bytes bool \<comment> \<open>frame, whether it is to be encrypted\<close>
  | StaDisconnect mac u16
  | MicFailureReport mac
  | PskFailureReport mac
  | RequestRadiusPsk mac u32 bytes bytes
  | UpdateVlan mac int
  | StorePtksa mac u32 wpa_ptk
  | ClearPtksa mac u32
  | GetRandom nat
  | AddRandomness bytes
  | PoolReady
  | GetTime
  | GetSeqnum nat
  | Malloc nat
  | WpaTimeout nat wpa_timer \<comment> \<open>milliseconds\<close>
  | CancelWpaTimeout wpa_timer

record wpa_authenticator =
  conf :: wpa_auth_config
  auth_addr :: mac
  auth_wpa_ie :: bytes
  group_list :: "nat list"
  groups :: "nat \<Rightarrow> wpa_group"
  next_group :: nat
  sta_list :: "nat list"
  stas :: "nat \<Rightarrow> wpa_sm"
  dot11RSNAAuthenticationSuiteSelected :: nat
  dot11RSNAPairwiseCipherSelected :: nat
  dot11RSNAGroupCipherSelected :: nat
  dot11RSNAPMKIDUsed :: bytes
  dot11RSNA4WayHandshakeFailures :: u32
  auth_RemoteMICFailures :: u32
  non_tx_beacon_prot :: bool
  trace :: "wpa_out list"

text \<open>
  The environment: the crypto functions; the value of random bytes (\<open>None\<close> if there are none),
  whether the pool of entropy is ready and the time stamp; for a station its EAPOL variables, its
  pre-shared keys with their VLANs in the order the callback enumerates them, and its master session
  key; the sequence number of a group key; the result of the calls that return one (negative on
  failure); the number of stations, whether a station is in the table of stations, whether an
  assigned VLAN takes effect at once; and the entry that the PMKSA cache has for a station and an
  identifier, or that it takes over from another authenticator (opportunistic key caching); and
  whether an allocation succeeds. \<open>cut_off\<close> belongs to the observer: whether a loop that has used up
  its fuel is cut off at that place, so that everything before it is seen, or counts as no result.
\<close>

record wpa_env =
  crypto :: wpa_crypto
  random_bytes :: "wpa_out list \<Rightarrow> nat \<Rightarrow> bytes option"
  random_pool_ready :: "wpa_out list \<Rightarrow> bool"
  ntp_timestamp :: "wpa_out list \<Rightarrow> bytes"
  cb_get_eapol :: "wpa_out list \<Rightarrow> mac \<Rightarrow> wpa_eapol_variable \<Rightarrow> bool"
  cb_get_psk :: "wpa_out list \<Rightarrow> mac \<Rightarrow> (bytes \<times> int) list"
  cb_get_msk :: "wpa_out list \<Rightarrow> mac \<Rightarrow> bytes option"
  cb_get_seqnum :: "wpa_out list \<Rightarrow> nat \<Rightarrow> bytes option"
  cb_result :: "wpa_out list \<Rightarrow> int"
  cb_get_sta_count :: "wpa_out list \<Rightarrow> nat"
  ap_get_sta :: "wpa_out list \<Rightarrow> mac \<Rightarrow> bool"
  ap_sta_bind_vlan :: "wpa_out list \<Rightarrow> mac \<Rightarrow> bool"
  pmksa_get :: "wpa_out list \<Rightarrow> mac \<Rightarrow> bytes \<Rightarrow> pmksa_ref option"
  pmksa_get_okc :: "wpa_out list \<Rightarrow> mac \<Rightarrow> bytes \<Rightarrow> pmksa_ref option"
  malloc_ok :: "wpa_out list \<Rightarrow> nat \<Rightarrow> bool"
  cut_off :: bool

section \<open>Elementary changes\<close>

definition emit :: "wpa_out \<Rightarrow> wpa_authenticator \<Rightarrow> wpa_authenticator" where
  "emit x A = A\<lparr>trace := trace A @ [x]\<rparr>"

text \<open>An assignment through the pointer to a station or to a group.\<close>

definition set_sm :: "nat \<Rightarrow> (wpa_sm \<Rightarrow> wpa_sm) \<Rightarrow> wpa_authenticator \<Rightarrow> wpa_authenticator" where
  "set_sm i f A = A\<lparr>stas := (stas A)(i := f (stas A i))\<rparr>"

definition set_group :: "nat \<Rightarrow> (wpa_group \<Rightarrow> wpa_group) \<Rightarrow> wpa_authenticator \<Rightarrow> wpa_authenticator" where
  "set_group g f A = A\<lparr>groups := (groups A)(g := f (groups A g))\<rparr>"

lemma emit_fields [simp]:
  "conf (emit x A) = conf A" "auth_addr (emit x A) = auth_addr A" "auth_wpa_ie (emit x A) = auth_wpa_ie A"
  "group_list (emit x A) = group_list A" "groups (emit x A) = groups A" "next_group (emit x A) = next_group A"
  "sta_list (emit x A) = sta_list A" "stas (emit x A) = stas A" "trace (emit x A) = trace A @ [x]"
  "dot11RSNA4WayHandshakeFailures (emit x A) = dot11RSNA4WayHandshakeFailures A"
  by (simp_all add: emit_def)

lemma set_sm_fields [simp]:
  "conf (set_sm i f A) = conf A" "auth_addr (set_sm i f A) = auth_addr A" "auth_wpa_ie (set_sm i f A) = auth_wpa_ie A"
  "group_list (set_sm i f A) = group_list A" "groups (set_sm i f A) = groups A" "next_group (set_sm i f A) = next_group A"
  "sta_list (set_sm i f A) = sta_list A" "trace (set_sm i f A) = trace A"
  "stas (set_sm i f A) = (stas A)(i := f (stas A i))"
  "dot11RSNA4WayHandshakeFailures (set_sm i f A) = dot11RSNA4WayHandshakeFailures A"
  by (simp_all add: set_sm_def)

lemma set_group_fields [simp]:
  "conf (set_group g f A) = conf A" "auth_addr (set_group g f A) = auth_addr A" "auth_wpa_ie (set_group g f A) = auth_wpa_ie A"
  "group_list (set_group g f A) = group_list A" "stas (set_group g f A) = stas A" "next_group (set_group g f A) = next_group A"
  "sta_list (set_group g f A) = sta_list A" "trace (set_group g f A) = trace A"
  "groups (set_group g f A) = (groups A)(g := f (groups A g))"
  "dot11RSNA4WayHandshakeFailures (set_group g f A) = dot11RSNA4WayHandshakeFailures A"
  by (simp_all add: set_group_def)

text \<open>The group of the authenticator, and the group of a station.\<close>

abbreviation auth_group :: "wpa_authenticator \<Rightarrow> nat" where
  "auth_group A \<equiv> hd (group_list A)"

section \<open>Calls\<close>

definition wpa_auth_set_eapol :: "nat \<Rightarrow> wpa_eapol_variable \<Rightarrow> bool \<Rightarrow> wpa_authenticator \<Rightarrow> wpa_authenticator" where
  "wpa_auth_set_eapol i var v A = emit (SetEapol (sm_addr (stas A i)) var v) A"

definition wpa_auth_get_eapol :: "wpa_env \<Rightarrow> nat \<Rightarrow> wpa_eapol_variable \<Rightarrow> wpa_authenticator \<Rightarrow> bool \<times> wpa_authenticator" where
  "wpa_auth_get_eapol env i var A =
     (let A = emit (GetEapol (sm_addr (stas A i)) var) A in (cb_get_eapol env (trace A) (sm_addr (stas A i)) var, A))"

definition wpa_auth_set_key ::
  "wpa_env \<Rightarrow> int \<Rightarrow> wpa_alg \<Rightarrow> mac \<Rightarrow> nat \<Rightarrow> bytes \<Rightarrow> wpa_key_flag \<Rightarrow> wpa_authenticator \<Rightarrow> int \<times> wpa_authenticator" where
  "wpa_auth_set_key env vlan alg addr idx key flag A =
     (let A = emit (SetKey vlan alg addr idx key flag) A in (cb_result env (trace A), A))"

definition random_get_bytes :: "wpa_env \<Rightarrow> nat \<Rightarrow> wpa_authenticator \<Rightarrow> bytes option \<times> wpa_authenticator" where
  "random_get_bytes env n A =
     (let A = emit (GetRandom n) A in (map_option (\<lambda>b. take n (b @ replicate n 0)) (random_bytes env (trace A) n), A))"

definition wpa_auth_get_seqnum :: "wpa_env \<Rightarrow> nat \<Rightarrow> wpa_authenticator \<Rightarrow> bytes option \<times> wpa_authenticator" where
  "wpa_auth_get_seqnum env idx A =
     (let A = emit (GetSeqnum idx) A in (map_option (\<lambda>b. take 8 (b @ replicate 8 0)) (cb_get_seqnum env (trace A) idx), A))"

definition get_ntp_timestamp :: "wpa_env \<Rightarrow> wpa_authenticator \<Rightarrow> bytes \<times> wpa_authenticator" where
  "get_ntp_timestamp env A =
     (let A = emit GetTime A in (take 8 (ntp_timestamp env (trace A) @ replicate 8 0), A))"

text \<open>Whether \<open>os_malloc\<close> returns memory.\<close>

definition os_malloc :: "wpa_env \<Rightarrow> nat \<Rightarrow> wpa_authenticator \<Rightarrow> bool \<times> wpa_authenticator" where
  "os_malloc env n A = (let A = emit (Malloc n) A in (malloc_ok env (trace A) n, A))"

end
