(* ===== verification/Wpa_Frames.thy ===== *)
theory Wpa_Frames
  imports Wpa_State
begin

text \<open>
  EAPOL-Key frames of \<open>src/ap/wpa_auth.c\<close>: how they are built and sent, how the MIC of a received
  one is verified, and the counters that protect them from replay.
\<close>

section \<open>Layout\<close>

text \<open>
  A frame has a header of 4 bytes, the fixed part of 77 bytes (\<open>struct wpa_eapol_key\<close>), the MIC,
  the length of the key data and the key data. The flags of its key information are bit positions
  here; a set of flags is a 16-bit word.
\<close>

abbreviation (input) WPA_KEY_INFO_KEY_TYPE :: nat where "WPA_KEY_INFO_KEY_TYPE \<equiv> 3"
abbreviation (input) WPA_KEY_INFO_INSTALL :: nat where "WPA_KEY_INFO_INSTALL \<equiv> 6"
abbreviation (input) WPA_KEY_INFO_ACK :: nat where "WPA_KEY_INFO_ACK \<equiv> 7"
abbreviation (input) WPA_KEY_INFO_MIC :: nat where "WPA_KEY_INFO_MIC \<equiv> 8"
abbreviation (input) WPA_KEY_INFO_SECURE :: nat where "WPA_KEY_INFO_SECURE \<equiv> 9"
abbreviation (input) WPA_KEY_INFO_ERROR :: nat where "WPA_KEY_INFO_ERROR \<equiv> 10"
abbreviation (input) WPA_KEY_INFO_REQUEST :: nat where "WPA_KEY_INFO_REQUEST \<equiv> 11"
abbreviation (input) WPA_KEY_INFO_ENCR_KEY_DATA :: nat where "WPA_KEY_INFO_ENCR_KEY_DATA \<equiv> 12"
abbreviation (input) WPA_KEY_INFO_SMK_MESSAGE :: nat where "WPA_KEY_INFO_SMK_MESSAGE \<equiv> 13"

definition flags :: "nat list \<Rightarrow> u16" where
  "flags bs = foldr (\<lambda>b w. set_bit b w) bs 0"

definition flag_of :: "bool \<Rightarrow> nat \<Rightarrow> nat list" where
  "flag_of b f = (if b then [f] else [])"

definition key_info :: "bytes \<Rightarrow> u16" where
  "key_info data = of_nat (get_be16 data 5)"

definition key_ver :: "bytes \<Rightarrow> nat" where
  "key_ver data = unat (key_info data AND 7)"

definition key_replay_counter :: "bytes \<Rightarrow> bytes" where
  "key_replay_counter data = take 8 (drop 9 data)"

definition key_nonce :: "bytes \<Rightarrow> bytes" where
  "key_nonce data = take 32 (drop 17 data)"

section \<open>Replay counters\<close>

fun wpa_replay_counter_valid :: "wpa_key_replay_counter list \<Rightarrow> bytes \<Rightarrow> bool" where
  "wpa_replay_counter_valid [] rc = False"
| "wpa_replay_counter_valid (c # cs) rc =
     (if \<not> valid c then False else if rc = counter c then True else wpa_replay_counter_valid cs rc)"

definition wpa_replay_counter_mark_invalid :: "wpa_key_replay_counter list \<Rightarrow> bytes option \<Rightarrow> wpa_key_replay_counter list" where
  "wpa_replay_counter_mark_invalid cs rc =
     map (\<lambda>c. if valid c \<and> (rc = None \<or> rc = Some (counter c)) then c\<lparr>valid := False\<rparr> else c) cs"

text \<open>The loop of \<open>__wpa_send_eapol\<close> that shifts the pending counters, and the next counter.\<close>

definition next_replay_counter :: "wpa_key_replay_counter list \<Rightarrow> wpa_key_replay_counter list" where
  "next_replay_counter cs =
     \<lparr>counter = inc_byte_array (counter (hd cs)), valid = True\<rparr> # take (RSNA_MAX_EAPOL_RETRIES - 1) cs"

section \<open>Verifying a MIC\<close>

text \<open>Whether \<open>wpa_verify_key_mic\<close> returns 0. The frame is left as it was.\<close>

definition wpa_verify_key_mic :: "wpa_crypto \<Rightarrow> u32 \<Rightarrow> nat \<Rightarrow> wpa_ptk \<Rightarrow> bytes \<Rightarrow> bool" where
  "wpa_verify_key_mic c akmp pmk_len ptk data =
     (let mic_len = wpa_mic_len akmp pmk_len;
          mic = take mic_len (drop 81 data);
          zeroed = take 81 data @ replicate mic_len 0 @ drop (81 + mic_len) data
      in if length data < 81 then False
         else case wpa_eapol_key_mic c (kck ptk) akmp (key_ver data) zeroed of
                None \<Rightarrow> False
              | Some m \<Rightarrow> os_memcmp_const mic (m @ replicate mic_len 0) mic_len = 0)"

section \<open>Sending\<close>

definition eapol_version_used :: "wpa_sm \<Rightarrow> nat" where
  "eapol_version_used s =
     (if wpa_use_akm_defined (wpa_key_mgmt s) then WPA_KEY_INFO_TYPE_AKM_DEFINED
      else if wpa_use_cmac (wpa_key_mgmt s) then WPA_KEY_INFO_TYPE_AES_128_CMAC
      else if pairwise s \<noteq> WPA_CIPHER_TKIP then WPA_KEY_INFO_TYPE_HMAC_SHA1_AES
      else WPA_KEY_INFO_TYPE_HMAC_MD5_RC4)"

text \<open>Whether the key data of a frame is protected with the AES key wrap.\<close>

definition uses_key_wrap :: "wpa_sm \<Rightarrow> bool" where
  "uses_key_wrap s \<longleftrightarrow>
     eapol_version_used s = WPA_KEY_INFO_TYPE_HMAC_SHA1_AES \<or> wpa_use_aes_key_wrap (wpa_key_mgmt s) \<or>
     eapol_version_used s = WPA_KEY_INFO_TYPE_AES_128_CMAC"

definition wrap_padding :: "nat \<Rightarrow> bytes" where
  "wrap_padding n = (if n mod 8 = 0 then [] else 0xdd # replicate (8 - n mod 8 - 1) 0)"

text \<open>
  The key data field with the number stored as its length, the initialization vector, and the
  counter of the group after it; \<open>None\<close> when the frame is given up.
\<close>

definition eapol_key_data ::
  "wpa_crypto \<Rightarrow> wpa_sm \<Rightarrow> bytes \<Rightarrow> bytes option \<Rightarrow> bool \<Rightarrow> (bytes \<times> nat \<times> bytes \<times> bytes) option" where
  "eapol_key_data c s ctr kde encr =
     (let iv = drop 16 ctr; wrap = uses_key_wrap s
      in case kde of
           None \<Rightarrow> Some (if wrap \<and> encr then replicate 8 0 else [], 0, replicate 16 0, ctr)
         | Some d \<Rightarrow>
             if \<not> encr then Some (d, length d, replicate 16 0, ctr)
             else if wrap then
               (case aes_wrap c (kek (PTK s)) (d @ wrap_padding (length d)) of
                  None \<Rightarrow> None
                | Some w \<Rightarrow> Some (w, length d + length (wrap_padding (length d)) + 8, replicate 16 0, ctr))
             else if length (kek (PTK s)) = 16 then
               Some (rc4_skip c (iv @ kek (PTK s)) 256 d, length d, iv, inc_byte_array ctr)
             else None)"

definition eapol_frame ::
  "wpa_auth_config \<Rightarrow> wpa_sm \<Rightarrow> u16 \<Rightarrow> bytes \<Rightarrow> bytes \<Rightarrow> bytes \<Rightarrow> bytes \<Rightarrow> nat \<Rightarrow> bytes \<Rightarrow> bytes \<Rightarrow> bytes" where
  "eapol_frame cf s info rc nonce iv rsc kd_len key_data mic =
     (let is_pairwise = bit info WPA_KEY_INFO_KEY_TYPE;
          key_length = (if sm_wpa s = WPA_VERSION_WPA2 \<and> \<not> is_pairwise then 0
                        else wpa_cipher_key_len (if is_pairwise then pairwise s else wpa_group_cipher cf));
          body = [if sm_wpa s = WPA_VERSION_WPA2 then 2 else 254] @ put_be16 (unat info) @ put_be16 key_length @ rc @ nonce @
                 iv @ rsc @ replicate 8 0 @ mic @ put_be16 kd_len @ key_data
      in [eapol_version cf, 3] @ put_be16 (length body) @ body)"

text \<open>
  \<open>__wpa_send_eapol\<close> with \<open>force_version = 0\<close>: the frame is built around the next replay counter,
  protected and handed to the driver. It is dropped, with the counter taken, if its key data cannot
  be encrypted or a MIC is asked for and cannot be computed.
\<close>

definition send_eapol ::
  "wpa_env \<Rightarrow> nat \<Rightarrow> u16 \<Rightarrow> bytes option \<Rightarrow> bytes option \<Rightarrow> bytes option \<Rightarrow> nat \<Rightarrow> bool \<Rightarrow> wpa_authenticator \<Rightarrow> wpa_authenticator" where
  "send_eapol env i info key_rsc nonce kde keyidx encr A =
     (let s = stas A i; cf = conf A; c = crypto env; g = sm_group s;
          mic_len = wpa_mic_len (wpa_key_mgmt s) (length (PMK s));
          version = eapol_version_used s;
          full = info OR of_nat version OR flags (flag_of (encr \<and> sm_wpa s = WPA_VERSION_WPA2) WPA_KEY_INFO_ENCR_KEY_DATA) OR
                 (if sm_wpa s \<noteq> WPA_VERSION_WPA2 then push_bit 4 (of_nat keyidx) else 0);
          A = set_sm i (\<lambda>s. s\<lparr>key_replay := next_replay_counter (key_replay s)\<rparr>) A;
          rc = counter (hd (key_replay (stas A i)));
          n = (case nonce of None \<Rightarrow> replicate 32 0 | Some n \<Rightarrow> n);
          rsc = (case key_rsc of None \<Rightarrow> replicate 8 0 | Some r \<Rightarrow> r);
          trailer = (if mic_len = 0 \<and> encr then replicate 16 0 else [])
      in case eapol_key_data c s (Counter (groups A g)) kde encr of
           None \<Rightarrow> A
         | Some (kd, kd_len, iv, ctr) \<Rightarrow>
             let A = set_group g (\<lambda>g. g\<lparr>Counter := ctr\<rparr>) A;
                 frame = eapol_frame cf s full rc n iv rsc kd_len (kd @ trailer);
                 wants_mic = bit full WPA_KEY_INFO_MIC;
                 mic = (if wants_mic then
                          (if \<not> PTK_valid s \<or> mic_len = 0 then None
                           else wpa_eapol_key_mic c (kck (PTK s)) (wpa_key_mgmt s) version (frame (replicate mic_len 0)))
                        else Some (replicate mic_len 0))
             in case mic of
                  None \<Rightarrow> A
                | Some m \<Rightarrow>
                    emit (SendEapol (sm_addr s) (frame (take mic_len (m @ replicate mic_len 0))) (pairwise_set s))
                      (wpa_auth_set_eapol i WPA_EAPOL_inc_EapolFramesTx True A))"

definition wpa_send_eapol ::
  "wpa_env \<Rightarrow> nat \<Rightarrow> u16 \<Rightarrow> bytes option \<Rightarrow> bytes option \<Rightarrow> bytes option \<Rightarrow> nat \<Rightarrow> bool \<Rightarrow> wpa_authenticator \<Rightarrow> wpa_authenticator" where
  "wpa_send_eapol env i info key_rsc nonce kde keyidx encr A =
     (let s = stas A i; cf = conf A;
          is_pairwise = bit info WPA_KEY_INFO_KEY_TYPE;
          ctr = (if is_pairwise then TimeoutCtr s else GTimeoutCtr s);
          A = send_eapol env i info key_rsc nonce kde keyidx encr A;
          timeout_ms =
            (if wpa_disable_eapol_key_retries cf \<and> (\<not> is_pairwise \<or> bit info WPA_KEY_INFO_MIC) then 4000
             else if ctr = 1 \<and> tx_status cf then
               (if is_pairwise then 100 else if cb_get_sta_count env (trace A) > 100 then 1000 else 500)
             else 1000);
          A = (if is_pairwise \<and> ctr = 1 \<and> \<not> bit info WPA_KEY_INFO_MIC
               then set_sm i (\<lambda>s. s\<lparr>pending_1_of_4_timeout := True\<rparr>) A else A)
      in emit (WpaTimeout timeout_ms (WpaSendEapolTimeout i)) A)"

section \<open>What the counters satisfy\<close>

lemma length_key_replay_next [simp]:
  "length cs = RSNA_MAX_EAPOL_RETRIES \<Longrightarrow> length (next_replay_counter cs) = RSNA_MAX_EAPOL_RETRIES"
  by (simp add: next_replay_counter_def)

lemma length_mark_invalid [simp]: "length (wpa_replay_counter_mark_invalid cs rc) = length cs"
  by (simp add: wpa_replay_counter_mark_invalid_def)

lemma replay_counter_valid_set:
  "wpa_replay_counter_valid cs rc \<Longrightarrow> \<exists>c \<in> set cs. valid c \<and> counter c = rc"
  by (induction cs) (auto split: if_splits)

text \<open>A counter that was marked is not accepted any more; after a mark of all, none is.\<close>

lemma marked_not_valid [simp]:
  "\<not> wpa_replay_counter_valid (wpa_replay_counter_mark_invalid cs (Some rc)) rc"
  by (auto simp: wpa_replay_counter_mark_invalid_def dest!: replay_counter_valid_set split: if_splits)

lemma none_valid_after_mark_all [simp]:
  "\<not> wpa_replay_counter_valid (wpa_replay_counter_mark_invalid cs None) rc"
  by (auto simp: wpa_replay_counter_mark_invalid_def dest!: replay_counter_valid_set split: if_splits)

section \<open>What a frame carries\<close>

lemma key_info_frame [simp]: "key_info (eapol_frame cf s info rc nonce iv rsc kd_len key_data mic) = info"
proof -
  have "unat info < 65536" by (rule order_less_le_trans, rule unsigned_less) simp
  then have "get_be16 (eapol_frame cf s info rc nonce iv rsc kd_len key_data mic) 5 = unat info"
    by (simp add: eapol_frame_def Let_def get_be16_def put_be16_def del: of_nat_unat)
  then show ?thesis by (simp add: key_info_def)
qed

lemma replay_counter_frame: "length rc = 8 \<Longrightarrow> key_replay_counter (eapol_frame cf s info rc nonce iv rsc kd_len key_data mic) = rc"
  by (simp add: key_replay_counter_def eapol_frame_def Let_def put_be16_def)

end
