(* ===== verification/Wpa_Group.thy ===== *)
theory Wpa_Group
  imports Wpa_Frames
begin

text \<open>
  Groups of stations with their keys (\<open>src/ap/wpa_auth.c\<close>): the derivation of group keys, the group
  state machine, and the groups of VLANs with their reference counts. The group machine runs the
  machines of the stations when it starts a rekeying, and these run the group machine; the step of
  the stations is therefore an argument here and is supplied in \<open>Wpa_Auth\<close>.
\<close>

section \<open>Group keys\<close>

definition store_key :: "bytes \<Rightarrow> nat \<Rightarrow> bytes list \<Rightarrow> bytes list" where
  "store_key key idx ks = ks[idx := key @ drop (length key) (ks ! idx)]"

definition the_gtk :: "wpa_group \<Rightarrow> bytes" where
  "the_gtk g = take (GTK_len g) (GTK g ! (GN g - 1))"

text \<open>\<open>wpa_gmk_to_gtk\<close>: the result code and the key, which is not written if its derivation fails.\<close>

definition wpa_gmk_to_gtk ::
  "wpa_env \<Rightarrow> bytes \<Rightarrow> string \<Rightarrow> bytes \<Rightarrow> nat \<Rightarrow> wpa_authenticator \<Rightarrow> int \<times> bytes option \<times> wpa_authenticator" where
  "wpa_gmk_to_gtk env gmk label gnonce gtk_len A =
     (let (t, A) = get_ntp_timestamp env A;
          (r, A) = random_get_bytes env gtk_len A;
          rnd = (case r of None \<Rightarrow> [] | Some b \<Rightarrow> b);
          data = auth_addr A @ gnonce @ t @ take 32 (rnd @ replicate 32 0);
          gtk = sha384_prf (crypto env) gmk label data gtk_len
      in (if r = None \<or> gtk = None then - 1 else 0, gtk, A))"

text \<open>One derived key: the nonce is the counter, which moves on.\<close>

definition derive_group_key ::
  "wpa_env \<Rightarrow> nat \<Rightarrow> string \<Rightarrow> nat \<Rightarrow> (bytes \<Rightarrow> wpa_group \<Rightarrow> wpa_group) \<Rightarrow> wpa_authenticator \<Rightarrow> int \<times> wpa_authenticator" where
  "derive_group_key env g label len store A =
     (let A = set_group g (\<lambda>g. g\<lparr>GNonce := Counter g, Counter := inc_byte_array (Counter g)\<rparr>) A;
          (ret, key, A) = wpa_gmk_to_gtk env (GMK (groups A g)) label (GNonce (groups A g)) len A
      in (ret, case key of None \<Rightarrow> A | Some k \<Rightarrow> set_group g (store k) A))"

definition wpa_gtk_update :: "wpa_env \<Rightarrow> nat \<Rightarrow> wpa_authenticator \<Rightarrow> int \<times> wpa_authenticator" where
  "wpa_gtk_update env g A =
     (let cf = conf A; len = wpa_cipher_key_len (group_mgmt_cipher cf);
          (ret, A) = derive_group_key env g ''Group key expansion'' (GTK_len (groups A g))
                       (\<lambda>k g. g\<lparr>GTK := store_key k (GN g - 1) (GTK g)\<rparr>) A;
          (ret, A) = (if ieee80211w cf \<noteq> NO_MGMT_FRAME_PROTECTION
                      then let (r, A) = derive_group_key env g ''IGTK key expansion'' len
                                          (\<lambda>k g. g\<lparr>IGTK := store_key k (GN_igtk g - 4) (IGTK g)\<rparr>) A
                           in (if r < 0 then - 1 else ret, A)
                      else (ret, A))
      in if \<not> non_tx_beacon_prot A \<and> ieee80211w cf = NO_MGMT_FRAME_PROTECTION then (ret, A)
         else if \<not> beacon_prot cf then (ret, A)
         else let (r, A) = derive_group_key env g ''BIGTK key expansion'' len
                             (\<lambda>k g. g\<lparr>BIGTK := store_key k (GN_bigtk g - 6) (BIGTK g)\<rparr>) A
              in if r < 0 then (- 1, A) else (ret, set_group g (\<lambda>g. g\<lparr>bigtk_set := True\<rparr>) A))"

definition broadcast_ether_addr :: mac where
  "broadcast_ether_addr = replicate 6 0xff"

definition wpa_group_config_group_keys :: "wpa_env \<Rightarrow> nat \<Rightarrow> wpa_authenticator \<Rightarrow> int \<times> wpa_authenticator" where
  "wpa_group_config_group_keys env g A =
     (let cf = conf A; gr = groups A g;
          alg = wpa_cipher_to_alg (group_mgmt_cipher cf); len = wpa_cipher_key_len (group_mgmt_cipher cf);
          (r, A) = wpa_auth_set_key env (vlan_id gr) (wpa_cipher_to_alg (wpa_group_cipher cf)) broadcast_ether_addr (GN gr)
                     (the_gtk gr) KEY_FLAG_GROUP_TX_DEFAULT A;
          ret = (if r < 0 then - 1 else 0)
      in if ieee80211w cf = NO_MGMT_FRAME_PROTECTION then (ret, A)
         else
           let (ret, A) = (if ret = 0
                           then let (r, A) = wpa_auth_set_key env (vlan_id gr) alg broadcast_ether_addr (GN_igtk gr)
                                               (take len (IGTK gr ! (GN_igtk gr - 4))) KEY_FLAG_GROUP_TX_DEFAULT A
                                in (if r < 0 then - 1 else 0, A)
                           else (ret, A))
           in if ret \<noteq> 0 \<or> \<not> beacon_prot cf then (ret, A)
              else let (r, A) = wpa_auth_set_key env (vlan_id gr) alg broadcast_ether_addr (GN_bigtk gr)
                                  (take len (BIGTK gr ! (GN_bigtk gr - 6))) KEY_FLAG_GROUP_TX_DEFAULT A
                   in if r < 0 then (- 1, A) else (ret, set_group g (\<lambda>g. g\<lparr>bigtk_configured := True\<rparr>) A))"

definition wpa_group_init_gmk_and_counter :: "wpa_env \<Rightarrow> nat \<Rightarrow> wpa_authenticator \<Rightarrow> int \<times> wpa_authenticator" where
  "wpa_group_init_gmk_and_counter env g A =
     (let (r, A) = random_get_bytes env 32 A
      in case r of
           None \<Rightarrow> (- 1, A)
         | Some gmk \<Rightarrow>
             let A = set_group g (\<lambda>g. g\<lparr>GMK := gmk\<rparr>) A;
                 (t, A) = get_ntp_timestamp env A;
                 buf = auth_addr A @ t @ map (\<lambda>k. of_nat (g div 256 ^ k)) [0..<8];
                 (r, A) = random_get_bytes env 32 A
             in case r of
                  None \<Rightarrow> (- 1, A)
                | Some rkey \<Rightarrow>
                    (case sha1_prf (crypto env) rkey ''Init Counter'' buf 32 of
                       None \<Rightarrow> (- 1, A)
                     | Some c \<Rightarrow> (0, set_group g (\<lambda>g. g\<lparr>Counter := c\<rparr>) A)))"

section \<open>The group state machine\<close>

definition wpa_gkeydone_sta :: "nat \<Rightarrow> wpa_authenticator \<Rightarrow> wpa_authenticator" where
  "wpa_gkeydone_sta i A =
     set_sm i (\<lambda>s. s\<lparr>GUpdateStationKeys := False\<rparr>)
       (set_group (auth_group A) (\<lambda>g. g\<lparr>GKeyDoneStations := GKeyDoneStations g - 1\<rparr>) A)"

type_synonym sm_step = "nat \<Rightarrow> wpa_authenticator \<Rightarrow> wpa_authenticator option"

primrec wpa_auth_for_each_sta :: "sm_step \<Rightarrow> nat list \<Rightarrow> wpa_authenticator \<Rightarrow> wpa_authenticator option" where
  "wpa_auth_for_each_sta cb [] A = Some A"
| "wpa_auth_for_each_sta cb (i # is) A = cb i A \<bind> wpa_auth_for_each_sta cb is"

definition wpa_group_gtk_init :: "wpa_env \<Rightarrow> nat \<Rightarrow> wpa_authenticator \<Rightarrow> wpa_authenticator" where
  "wpa_group_gtk_init env g A =
     snd (wpa_gtk_update env g
       (set_group g (\<lambda>g. g\<lparr>g_changed := False, wpa_group_state := WPA_GROUP_GTK_INIT, GTK := replicate 2 (replicate 32 0),
          GN := 1, GM := 2, GN_igtk := 4, GM_igtk := 5, GN_bigtk := 6, GM_bigtk := 7\<rparr>) A))"

text \<open>The argument \<open>ctx\<close> of the callback is a group, or none.\<close>

definition wpa_group_update_sta :: "sm_step \<Rightarrow> nat option \<Rightarrow> sm_step" where
  "wpa_group_update_sta step ctx i A =
     (let s = stas A i
      in if ctx \<noteq> None \<and> ctx \<noteq> Some (sm_group s) then Some A
         else if wpa_ptk_state s \<noteq> WPA_PTK_PTKINITDONE then Some (set_sm i (\<lambda>s. s\<lparr>GUpdateStationKeys := False\<rparr>) A)
         else if is_wnmsleep s then Some A
         else step i (set_sm i (\<lambda>s. s\<lparr>GUpdateStationKeys := True\<rparr>)
                (set_group (sm_group s) (\<lambda>g. g\<lparr>GKeyDoneStations := GKeyDoneStations g + 1\<rparr>) A)))"

definition wpa_group_update_gtk :: "wpa_env \<Rightarrow> nat \<Rightarrow> wpa_authenticator \<Rightarrow> wpa_authenticator" where
  "wpa_group_update_gtk env g A =
     snd (wpa_gtk_update env g
       (set_group g (\<lambda>g. g\<lparr>GM := GN g, GN := GM g, GM_igtk := GN_igtk g, GN_igtk := GM_igtk g, GM_bigtk := GN_bigtk g,
          GN_bigtk := GM_bigtk g\<rparr>) A))"

definition wpa_group_setkeys :: "wpa_env \<Rightarrow> sm_step \<Rightarrow> nat \<Rightarrow> wpa_authenticator \<Rightarrow> wpa_authenticator option" where
  "wpa_group_setkeys env step g A =
     (let A = set_group g (\<lambda>g. g\<lparr>g_changed := True, wpa_group_state := WPA_GROUP_SETKEYS, GTKReKey := False\<rparr>) A;
          A = wpa_group_update_gtk env g A;
          A = set_group g (\<lambda>g. g\<lparr>GKeyDoneStations := 0\<rparr>) A
      in wpa_auth_for_each_sta (wpa_group_update_sta step (Some g)) (sta_list A) A)"

definition wpa_group_disconnect_cb :: "nat \<Rightarrow> nat \<Rightarrow> wpa_authenticator \<Rightarrow> wpa_authenticator" where
  "wpa_group_disconnect_cb g i A = (if sm_group (stas A i) = g then set_sm i (\<lambda>s. s\<lparr>Disconnect := True\<rparr>) A else A)"

definition wpa_group_fatal_failure :: "nat \<Rightarrow> wpa_authenticator \<Rightarrow> wpa_authenticator" where
  "wpa_group_fatal_failure g A =
     fold (wpa_group_disconnect_cb g) (sta_list A)
       (set_group g (\<lambda>g. g\<lparr>g_changed := True, wpa_group_state := WPA_GROUP_FATAL_FAILURE\<rparr>) A)"

definition wpa_group_setkeysdone :: "wpa_env \<Rightarrow> nat \<Rightarrow> wpa_authenticator \<Rightarrow> wpa_authenticator" where
  "wpa_group_setkeysdone env g A =
     (let (r, A) = wpa_group_config_group_keys env g
                     (set_group g (\<lambda>g. g\<lparr>g_changed := True, wpa_group_state := WPA_GROUP_SETKEYSDONE\<rparr>) A)
      in if r < 0 then wpa_group_fatal_failure g A else A)"

definition wpa_group_sm_step :: "wpa_env \<Rightarrow> sm_step \<Rightarrow> nat \<Rightarrow> wpa_authenticator \<Rightarrow> wpa_authenticator option" where
  "wpa_group_sm_step env step g A =
     (let gr = groups A g
      in if GInit gr then Some (wpa_group_gtk_init env g A)
         else if wpa_group_state gr = WPA_GROUP_FATAL_FAILURE then Some A
         else if wpa_group_state gr = WPA_GROUP_GTK_INIT \<and> GTKAuthenticator gr then Some (wpa_group_setkeysdone env g A)
         else if wpa_group_state gr = WPA_GROUP_SETKEYSDONE \<and> GTKReKey gr then wpa_group_setkeys env step g A
         else if wpa_group_state gr = WPA_GROUP_SETKEYS then
           (if GKeyDoneStations gr = 0 then Some (wpa_group_setkeysdone env g A)
            else if GTKReKey gr then wpa_group_setkeys env step g A
            else Some A)
         else Some A)"

section \<open>Groups of VLANs\<close>

text \<open>No station belongs to a group that is being set up, so its machine runs none.\<close>

definition wpa_group_init :: "wpa_env \<Rightarrow> int \<Rightarrow> bool \<Rightarrow> wpa_authenticator \<Rightarrow> nat option \<times> wpa_authenticator" where
  "wpa_group_init env vlan delay_init A =
     (let g = next_group A;
          new = zero_group\<lparr>GTKAuthenticator := True, vlan_id := vlan, GTK_len := wpa_cipher_key_len (wpa_group_cipher (conf A))\<rparr>;
          A = A\<lparr>next_group := Suc g, groups := (groups A)(g := new)\<rparr>;
          (r, A) = wpa_group_init_gmk_and_counter env g A
      in if r < 0 then (None, A)
         else let A = set_group g (\<lambda>g. g\<lparr>GInit := True\<rparr>) A
              in if delay_init then (Some g, A)
                 else let A = wpa_group_gtk_init env g A;
                          A = set_group g (\<lambda>g. g\<lparr>GInit := False\<rparr>) A
                      in (Some g, wpa_group_setkeysdone env g A))"

definition find_group :: "int \<Rightarrow> wpa_authenticator \<Rightarrow> nat option" where
  "find_group vlan A = List.find (\<lambda>g. vlan_id (groups A g) = vlan) (group_list A)"

definition wpa_group_free :: "nat \<Rightarrow> wpa_authenticator \<Rightarrow> wpa_authenticator" where
  "wpa_group_free g A = A\<lparr>group_list := (case group_list A of [] \<Rightarrow> [] | m # gs \<Rightarrow> m # remove1 g gs)\<rparr>"

definition wpa_group_get :: "nat \<Rightarrow> wpa_authenticator \<Rightarrow> wpa_authenticator" where
  "wpa_group_get g A = (if auth_group A = g then A else set_group g (\<lambda>g. g\<lparr>references := references g + 1\<rparr>) A)"

definition wpa_group_put :: "nat \<Rightarrow> wpa_authenticator \<Rightarrow> wpa_authenticator" where
  "wpa_group_put g A =
     (if auth_group A = g then A
      else let A = set_group g (\<lambda>g. g\<lparr>references := references g - 1\<rparr>) A
           in if references (groups A g) \<noteq> 0 then A else wpa_group_free g A)"

definition wpa_auth_add_group :: "wpa_env \<Rightarrow> int \<Rightarrow> wpa_authenticator \<Rightarrow> nat option \<times> wpa_authenticator" where
  "wpa_auth_add_group env vlan A =
     (let (r, A) = wpa_group_init env vlan False A
      in case r of
           None \<Rightarrow> (None, A)
         | Some g \<Rightarrow> (Some g, A\<lparr>group_list := (case group_list A of [] \<Rightarrow> [] | m # gs \<Rightarrow> m # g # gs)\<rparr>))"

definition find_or_add_group :: "wpa_env \<Rightarrow> int \<Rightarrow> wpa_authenticator \<Rightarrow> nat option \<times> wpa_authenticator" where
  "find_or_add_group env vlan A =
     (case find_group vlan A of Some g \<Rightarrow> (Some g, A) | None \<Rightarrow> wpa_auth_add_group env vlan A)"

definition wpa_auth_ensure_group :: "wpa_env \<Rightarrow> int \<Rightarrow> wpa_authenticator \<Rightarrow> int \<times> wpa_authenticator" where
  "wpa_auth_ensure_group env vlan A =
     (let (r, A) = find_or_add_group env vlan A
      in case r of
           None \<Rightarrow> (- 1, A)
         | Some g \<Rightarrow>
             let A = set_group g (\<lambda>g. g\<lparr>num_setup_iface := num_setup_iface g + 1\<rparr>) (wpa_group_get g A)
             in (if wpa_group_state (groups A g) = WPA_GROUP_FATAL_FAILURE then - 1 else 0, A))"

definition wpa_auth_release_group :: "int \<Rightarrow> wpa_authenticator \<Rightarrow> int \<times> wpa_authenticator" where
  "wpa_auth_release_group vlan A =
     (case find_group vlan A of
        None \<Rightarrow> (- 1, A)
      | Some g \<Rightarrow>
          if num_setup_iface (groups A g) = 0 then (- 1, A)
          else let A = set_group g (\<lambda>g. g\<lparr>num_setup_iface := num_setup_iface g - 1\<rparr>) A;
                   ret = (if references (groups A g) > 1 then - 2
                          else if wpa_group_state (groups A g) = WPA_GROUP_FATAL_FAILURE then - 1 else 0)
               in (ret, wpa_group_put g A))"

definition wpa_auth_sta_set_vlan :: "wpa_env \<Rightarrow> nat \<Rightarrow> int \<Rightarrow> wpa_authenticator \<Rightarrow> int \<times> wpa_authenticator" where
  "wpa_auth_sta_set_vlan env i vlan A =
     (let (r, A) = find_or_add_group env vlan A
      in case r of
           None \<Rightarrow> (- 1, A)
         | Some g \<Rightarrow>
             let old = sm_group (stas A i)
             in if old = g then (0, A)
                else if wpa_group_state (groups A g) = WPA_GROUP_FATAL_FAILURE then (- 1, A)
                else (0, set_sm i (\<lambda>s. s\<lparr>sm_group := g\<rparr>) (wpa_group_put old (wpa_group_get g A))))"

text \<open>Keys for the group of the authenticator once beacons are configured.\<close>

definition wpa_init_keys :: "wpa_env \<Rightarrow> sm_step \<Rightarrow> wpa_authenticator \<Rightarrow> (int \<times> wpa_authenticator) option" where
  "wpa_init_keys env step A =
     do { A \<leftarrow> wpa_group_sm_step env step (auth_group A) A;
          A \<leftarrow> wpa_group_sm_step env step (auth_group A) (set_group (auth_group A) (\<lambda>g. g\<lparr>GInit := False\<rparr>) A);
          Some (if wpa_group_state (groups A (auth_group A)) = WPA_GROUP_FATAL_FAILURE then - 1 else 0, A) }"

end
