(* ===== verification/Wpa_Ptk.thy ===== *)
theory Wpa_Ptk
  imports Wpa_Group
begin

text \<open>
  The two state machines of a station in \<open>src/ap/wpa_auth.c\<close>: the pairwise machine, which runs the
  four-way handshake, and the group machine of the station, which hands out a new group key. Every
  \<open>SM_STATE\<close> is a definition \<open>sm_WPA_PTK_<state>_Enter\<close> or \<open>sm_WPA_PTK_GROUP_<state>_Enter\<close>, every
  \<open>SM_STEP\<close> a definition ending in \<open>_Step\<close>. They run only inside \<open>wpa_sm_step\<close>. A result \<open>None\<close> is
  an access outside a buffer, through a null pointer, to unset or freed memory.
\<close>

section \<open>Disconnecting a station\<close>

definition wpa_remove_ptk :: "wpa_env \<Rightarrow> nat \<Rightarrow> wpa_authenticator \<Rightarrow> wpa_authenticator" where
  "wpa_remove_ptk env i A =
     (let a = sm_addr (stas A i);
          A = set_sm i (\<lambda>s. s\<lparr>PTK_valid := False, PTK := zero_ptk\<rparr>) A;
          A = emit (ClearPtksa a (pairwise (stas A i))) A;
          A = snd (wpa_auth_set_key env 0 WPA_ALG_NONE a 0 [] KEY_FLAG_PAIRWISE A);
          A = (if use_ext_key_id (stas A i) then snd (wpa_auth_set_key env 0 WPA_ALG_NONE a 1 [] KEY_FLAG_PAIRWISE A) else A)
      in emit (CancelWpaTimeout (WpaRekeyPtk i)) (set_sm i (\<lambda>s. s\<lparr>pairwise_set := False\<rparr>) A))"

datatype wpa_event = WPA_AUTH | WPA_ASSOC | WPA_DISASSOC | WPA_DEAUTH | WPA_REAUTH | WPA_REAUTH_EAPOL | WPA_ASSOC_FT
  | WPA_ASSOC_FILS | WPA_DRV_STA_REMOVED

text \<open>The end of \<open>wpa_auth_sm_event\<close> before it runs the machines: keys go, as the event demands.\<close>

definition event_remove_keys :: "wpa_env \<Rightarrow> wpa_event \<Rightarrow> nat \<Rightarrow> wpa_authenticator \<Rightarrow> wpa_authenticator" where
  "event_remove_keys env ev i A =
     (if mgmt_frame_prot (stas A i) \<and> ev = WPA_AUTH then A
      else let A = set_sm i (\<lambda>s. s\<lparr>PTK_valid := False, PTK := zero_ptk\<rparr>) A
           in if ev \<noteq> WPA_REAUTH_EAPOL then wpa_remove_ptk env i A else A)"

text \<open>
  \<open>wpa_sta_disconnect\<close>. The callback, \<open>ap_sta_disconnect\<close>, comes back with the event \<open>WPA_DEAUTH\<close>
  if it finds the station; the machines are running, so the event only leaves a note for them.
\<close>

definition wpa_sta_disconnect :: "wpa_env \<Rightarrow> nat \<Rightarrow> u16 \<Rightarrow> wpa_authenticator \<Rightarrow> wpa_authenticator" where
  "wpa_sta_disconnect env i reason A =
     (let a = sm_addr (stas A i); A = emit (StaDisconnect a reason) A
      in if ap_get_sta env (trace A) a
         then set_sm i (\<lambda>s. s\<lparr>changed := True\<rparr>)
                (event_remove_keys env WPA_DEAUTH i (set_sm i (\<lambda>s. s\<lparr>DeauthenticationRequest := True, PMK := []\<rparr>) A))
         else A)"

section \<open>The pairwise machine up to message 1\<close>

text \<open>The macro \<open>SM_ENTRY_MA\<close>; no state is entered by a global rule.\<close>

definition enter_ptk :: "wpa_ptk_st \<Rightarrow> nat \<Rightarrow> wpa_authenticator \<Rightarrow> wpa_authenticator" where
  "enter_ptk st i = set_sm i (\<lambda>s. s\<lparr>changed := True, wpa_ptk_state := st\<rparr>)"

text \<open>Whether the key management leaves the authorization of the port to this machine.\<close>

definition authorizes_itself :: "wpa_sm \<Rightarrow> bool" where
  "authorizes_itself s \<longleftrightarrow> wpa_key_mgmt_wpa_psk (wpa_key_mgmt s) \<or> wpa_key_mgmt s = WPA_KEY_MGMT_DPP \<or> wpa_key_mgmt s = WPA_KEY_MGMT_OWE"

definition sm_WPA_PTK_INITIALIZE_Enter :: "wpa_env \<Rightarrow> nat \<Rightarrow> wpa_authenticator \<Rightarrow> wpa_authenticator" where
  "sm_WPA_PTK_INITIALIZE_Enter env i A =
     (let A = enter_ptk WPA_PTK_INITIALIZE i A;
          A = set_sm i (\<lambda>s. s\<lparr>changed := (if Init s then False else changed s), keycount := 0\<rparr>) A;
          A = (if GUpdateStationKeys (stas A i) then wpa_gkeydone_sta i A else A);
          A = set_sm i (\<lambda>s. s\<lparr>PInitAKeys := (if sm_wpa s = WPA_VERSION_WPA then False else PInitAKeys s), Pair := True\<rparr>) A;
          A = wpa_auth_set_eapol i WPA_EAPOL_portEnabled False A;
          A = wpa_remove_ptk env i A;
          A = wpa_auth_set_eapol i WPA_EAPOL_portValid False A;
          A = set_sm i (\<lambda>s. s\<lparr>TimeoutCtr := 0\<rparr>) A
      in if authorizes_itself (stas A i) then wpa_auth_set_eapol i WPA_EAPOL_authorized False A else A)"

definition sm_WPA_PTK_DISCONNECT_Enter :: "wpa_env \<Rightarrow> nat \<Rightarrow> wpa_authenticator \<Rightarrow> wpa_authenticator" where
  "sm_WPA_PTK_DISCONNECT_Enter env i A =
     (let reason = disconnect_reason (stas A i);
          A = set_sm i (\<lambda>s. s\<lparr>Disconnect := False, disconnect_reason := 0\<rparr>) (enter_ptk WPA_PTK_DISCONNECT i A)
      in wpa_sta_disconnect env i (if reason = 0 then 2 else reason) A)"

definition sm_WPA_PTK_DISCONNECTED_Enter :: "nat \<Rightarrow> wpa_authenticator \<Rightarrow> wpa_authenticator" where
  "sm_WPA_PTK_DISCONNECTED_Enter i A =
     set_sm i (\<lambda>s. s\<lparr>DeauthenticationRequest := False\<rparr>) (enter_ptk WPA_PTK_DISCONNECTED i A)"

definition sm_WPA_PTK_AUTHENTICATION_Enter :: "nat \<Rightarrow> wpa_authenticator \<Rightarrow> wpa_authenticator" where
  "sm_WPA_PTK_AUTHENTICATION_Enter i A =
     (let A = set_sm i (\<lambda>s. s\<lparr>PTK := zero_ptk, PTK_valid := False\<rparr>) (enter_ptk WPA_PTK_AUTHENTICATION i A);
          A = wpa_auth_set_eapol i WPA_EAPOL_portControl_Auto True A;
          A = wpa_auth_set_eapol i WPA_EAPOL_portEnabled True A
      in set_sm i (\<lambda>s. s\<lparr>AuthenticationRequest := False\<rparr>) A)"

definition wpa_group_ensure_init :: "wpa_env \<Rightarrow> nat \<Rightarrow> wpa_authenticator \<Rightarrow> wpa_authenticator" where
  "wpa_group_ensure_init env g A =
     (if first_sta_seen (groups A g) then A
      else let A = (if \<not> random_pool_ready env (trace A)
                    then set_group g (\<lambda>g. g\<lparr>reject_4way_hs_for_entropy := True\<rparr>) A
                    else set_group g (\<lambda>g. g\<lparr>first_sta_seen := True, reject_4way_hs_for_entropy := False\<rparr>) A);
               (r, A) = wpa_group_init_gmk_and_counter env g A;
               (r, A) = (if r < 0 then (r, A) else wpa_gtk_update env g A);
               (r, A) = (if r < 0 then (r, A) else wpa_group_config_group_keys env g A)
           in if r < 0 then set_group g (\<lambda>g. g\<lparr>first_sta_seen := False, reject_4way_hs_for_entropy := True\<rparr>) A else A)"

text \<open>A new nonce: the common part of \<open>AUTHENTICATION2\<close> and \<open>wpa_auth_sm_ptk_update\<close>.\<close>

definition new_anonce :: "wpa_env \<Rightarrow> nat \<Rightarrow> wpa_authenticator \<Rightarrow> int \<times> wpa_authenticator" where
  "new_anonce env i A =
     (let (r, A) = random_get_bytes env 32 A
      in case r of
           None \<Rightarrow> (- 1, set_sm i (\<lambda>s. s\<lparr>Disconnect := True\<rparr>) A)
         | Some n \<Rightarrow> (0, set_sm i (\<lambda>s. s\<lparr>ANonce := n, TimeoutCtr := 0\<rparr>) A))"

definition sm_WPA_PTK_AUTHENTICATION2_Enter :: "wpa_env \<Rightarrow> nat \<Rightarrow> wpa_authenticator \<Rightarrow> wpa_authenticator" where
  "sm_WPA_PTK_AUTHENTICATION2_Enter env i A =
     (let A = enter_ptk WPA_PTK_AUTHENTICATION2 i A;
          A = wpa_group_ensure_init env (sm_group (stas A i)) A;
          A = set_sm i (\<lambda>s. s\<lparr>ReAuthenticationRequest := False\<rparr>) A
      in snd (new_anonce env i A))"

definition wpa_auth_sm_ptk_update :: "wpa_env \<Rightarrow> nat \<Rightarrow> wpa_authenticator \<Rightarrow> int \<times> wpa_authenticator" where
  "wpa_auth_sm_ptk_update env i A = new_anonce env i A"

definition sm_WPA_PTK_INITPMK_Enter :: "wpa_env \<Rightarrow> nat \<Rightarrow> wpa_authenticator \<Rightarrow> wpa_authenticator" where
  "sm_WPA_PTK_INITPMK_Enter env i A =
     (let A = enter_ptk WPA_PTK_INITPMK i A; s = stas A i;
          with_pmk = (\<lambda>p. wpa_auth_set_eapol i WPA_EAPOL_keyRun False
                            (set_sm i (\<lambda>s. s\<lparr>PMK := p, req_replay_counter_used := False\<rparr>) A))
      in case sm_pmksa s of
           Some e \<Rightarrow> with_pmk (ref_pmk e)
         | None \<Rightarrow>
             if wpa_key_mgmt s = WPA_KEY_MGMT_DPP
             then set_sm i (\<lambda>s. s\<lparr>Disconnect := True, disconnect_reason := 49\<rparr>) A
             else case cb_get_msk env (trace A) (sm_addr s) of
                    None \<Rightarrow> set_sm i (\<lambda>s. s\<lparr>Disconnect := True\<rparr>) A
                  | Some key \<Rightarrow>
                      let msk = take 64 key; pmk_len = (if wpa_key_mgmt_sha384 (wpa_key_mgmt s) then 48 else 32)
                      in if length msk < pmk_len then set_sm i (\<lambda>s. s\<lparr>Disconnect := True\<rparr>) A
                         else with_pmk (take pmk_len msk))"

definition sm_WPA_PTK_INITPSK_Enter :: "wpa_env \<Rightarrow> nat \<Rightarrow> wpa_authenticator \<Rightarrow> wpa_authenticator" where
  "sm_WPA_PTK_INITPSK_Enter env i A =
     (let A = enter_ptk WPA_PTK_INITPSK i A
      in case cb_get_psk env (trace A) (sm_addr (stas A i)) of
           [] \<Rightarrow> set_sm i (\<lambda>s. s\<lparr>req_replay_counter_used := False\<rparr>) A
         | (psk, _) # _ \<Rightarrow> set_sm i (\<lambda>s. s\<lparr>PMK := psk, req_replay_counter_used := False\<rparr>) A)"

text \<open>The PMKID that message 1 carries, if it carries one; \<open>None\<close> if it would be unset memory.\<close>

definition message1_pmkid :: "wpa_env \<Rightarrow> wpa_authenticator \<Rightarrow> wpa_sm \<Rightarrow> bytes option option" where
  "message1_pmkid env A s =
     (if sm_wpa s = WPA_VERSION_WPA2 \<and>
         (wpa_key_mgmt_wpa_ieee8021x (wpa_key_mgmt s) \<or> (wpa_key_mgmt s = WPA_KEY_MGMT_OWE \<and> sm_pmksa s \<noteq> None) \<or>
          wpa_key_mgmt_sae (wpa_key_mgmt s)) \<and> wpa_key_mgmt s \<noteq> WPA_KEY_MGMT_OSEN
      then case sm_pmksa s of
             Some e \<Rightarrow> Some (Some (ref_pmkid e))
           | None \<Rightarrow> if wpa_key_mgmt_suite_b (wpa_key_mgmt s) then Some None
                     else map_option Some (rsn_pmkid (crypto env) (PMK s) (auth_addr A) (sm_addr s) (wpa_key_mgmt s))
      else Some None)"

definition sm_WPA_PTK_PTKSTART_Enter :: "wpa_env \<Rightarrow> nat \<Rightarrow> wpa_authenticator \<Rightarrow> wpa_authenticator option" where
  "sm_WPA_PTK_PTKSTART_Enter env i A =
     (let A = enter_ptk WPA_PTK_PTKSTART i A;
          A = set_sm i (\<lambda>s. s\<lparr>PTKRequest := False, TimeoutEvt := False, alt_snonce_valid := False,
                ptkstart_without_success := ptkstart_without_success s + 1, TimeoutCtr := TimeoutCtr s + 1\<rparr>) A;
          s = stas A i
      in if TimeoutCtr s > wpa_pairwise_update_count (conf A) then Some A
         else do {
           pmkid \<leftarrow> message1_pmkid env A s;
           let kde = map_option (\<lambda>p. wpa_add_kde RSN_KEY_DATA_PMKID p []) pmkid;
           let info = flags ([WPA_KEY_INFO_ACK, WPA_KEY_INFO_KEY_TYPE] @
                             flag_of (pairwise_set s \<and> sm_wpa s \<noteq> WPA_VERSION_WPA) WPA_KEY_INFO_SECURE);
           Some (wpa_send_eapol env i info None (Some (ANonce s)) kde 0 False A)
         })"

section \<open>Message 2\<close>

abbreviation (input) WLAN_RSNX_CAPAB_SECURE_LTF :: nat where "WLAN_RSNX_CAPAB_SECURE_LTF \<equiv> 8"

definition wpa_derive_ptk :: "wpa_env \<Rightarrow> wpa_authenticator \<Rightarrow> wpa_sm \<Rightarrow> bytes \<Rightarrow> bytes \<Rightarrow> bool \<Rightarrow> wpa_ptk option" where
  "wpa_derive_ptk env A s snonce pmk no_kdk =
     (let cf = conf A;
          kdk_len = (if force_kdk_derivation cf \<or>
                        (\<not> no_kdk \<and> secure_ltf cf \<and> ieee802_11_rsnx_capab (sm_rsnxe s) WLAN_RSNX_CAPAB_SECURE_LTF)
                     then 32 else 0);
          z = (case dpp_z s of Some z \<Rightarrow> if wpa_key_mgmt s = WPA_KEY_MGMT_DPP then z else [] | None \<Rightarrow> [])
      in wpa_pmk_to_ptk (crypto env) pmk ''Pairwise key expansion'' (auth_addr A) (sm_addr s) (ANonce s) snonce
           (wpa_key_mgmt s) (pairwise s) z kdk_len)"

text \<open>
  The keys a station may use: the pre-shared keys of the callback in its order, or the master key of
  the session; the second component is the VLAN of a pre-shared key.
\<close>

definition uses_psk :: "wpa_sm \<Rightarrow> bool" where
  "uses_psk s \<longleftrightarrow> wpa_key_mgmt_wpa_psk (wpa_key_mgmt s) \<and> \<not> wpa_key_mgmt_sae (wpa_key_mgmt s)"

definition ptk_candidates :: "wpa_env \<Rightarrow> wpa_authenticator \<Rightarrow> wpa_sm \<Rightarrow> (bytes \<times> int) list" where
  "ptk_candidates env A s =
     (if uses_psk s then cb_get_psk env (trace A) (sm_addr s)
      else [(if PMK s = [] then (case sm_pmksa s of Some e \<Rightarrow> ref_pmk e | None \<Rightarrow> PMK s) else PMK s, 0)])"

text \<open>One round of the loop with a key: the derivation fails, the MIC matches, or it does not.\<close>

datatype ptk_trial = TrialBreak | TrialOk wpa_ptk | TrialNext

definition try_pmk_kdk :: "wpa_env \<Rightarrow> wpa_authenticator \<Rightarrow> wpa_sm \<Rightarrow> bytes \<Rightarrow> bytes \<Rightarrow> bool \<Rightarrow> ptk_trial" where
  "try_pmk_kdk env A s data pmk no_kdk =
     (case wpa_derive_ptk env A s (SNonce s) pmk no_kdk of
        None \<Rightarrow> TrialBreak
      | Some ptk \<Rightarrow>
          if wpa_mic_len (wpa_key_mgmt s) (length (PMK s)) \<noteq> 0 \<and>
             wpa_verify_key_mic (crypto env) (wpa_key_mgmt s) (length pmk) ptk data
          then TrialOk ptk else TrialNext)"

definition try_pmk :: "wpa_env \<Rightarrow> wpa_authenticator \<Rightarrow> wpa_sm \<Rightarrow> bytes \<Rightarrow> bytes \<Rightarrow> ptk_trial" where
  "try_pmk env A s data pmk =
     (case try_pmk_kdk env A s data pmk False of
        TrialNext \<Rightarrow>
          if \<not> force_kdk_derivation (conf A) \<and> secure_ltf (conf A) \<and> ieee802_11_rsnx_capab (sm_rsnxe s) WLAN_RSNX_CAPAB_SECURE_LTF
          then try_pmk_kdk env A s data pmk True else TrialNext
      | r \<Rightarrow> r)"

text \<open>The key, its VLAN and the transient key that make the MIC of the frame match.\<close>

fun find_pmk :: "wpa_env \<Rightarrow> wpa_authenticator \<Rightarrow> wpa_sm \<Rightarrow> bytes \<Rightarrow> (bytes \<times> int) list \<Rightarrow> (bytes \<times> int \<times> wpa_ptk) option" where
  "find_pmk env A s data [] = None"
| "find_pmk env A s data ((pmk, vlan) # rest) =
     (case try_pmk env A s data pmk of
        TrialBreak \<Rightarrow> None
      | TrialOk ptk \<Rightarrow> Some (pmk, vlan, ptk)
      | TrialNext \<Rightarrow> find_pmk env A s data rest)"

text \<open>
  The key data of the received frame, unwrapped if it is encrypted. \<open>Inl\<close> is a frame that is given
  up. If the unwrapping fails, the buffer is freed before the jump to the end of the function, which
  frees it again: \<open>None\<close>.
\<close>

definition message2_key_data :: "wpa_env \<Rightarrow> wpa_sm \<Rightarrow> nat \<Rightarrow> wpa_ptk \<Rightarrow> bytes \<Rightarrow> (unit + bytes) option" where
  "message2_key_data env s mic_len ptk data =
     (if length data < 83 + mic_len then None
      else
        let info = key_info data; ver = key_ver data; n = get_be16 data (81 + mic_len); kd = take n (drop (83 + mic_len) data)
        in if n > length data - 83 - mic_len then Some (Inl ())
           else if mic_len \<noteq> 0 \<and> bit info WPA_KEY_INFO_ENCR_KEY_DATA then
             (if ver \<noteq> WPA_KEY_INFO_TYPE_HMAC_SHA1_AES \<and> ver \<noteq> WPA_KEY_INFO_TYPE_AES_128_CMAC \<and>
                 \<not> wpa_use_aes_key_wrap (wpa_key_mgmt s) then Some (Inl ())
              else if n < 8 \<or> n mod 8 \<noteq> 0 then Some (Inl ())
              else case aes_unwrap (crypto env) (kek ptk) kd of None \<Rightarrow> None | Some p \<Rightarrow> Some (Inr p))
           else Some (Inr kd))"

text \<open>Why the elements of message 2 are refused: the association was made with others.\<close>

definition message2_mismatch :: "wpa_authenticator \<Rightarrow> wpa_sm \<Rightarrow> wpa_eapol_ie_parse \<Rightarrow> bool" where
  "message2_mismatch A s kde \<longleftrightarrow>
     wpa_compare_rsn_ie (sm_wpa_ie s)
       (case kde_rsn_ie kde of Some e \<Rightarrow> Some e
        | None \<Rightarrow> (case kde_osen kde of Some e \<Rightarrow> Some e | None \<Rightarrow> kde_wpa_ie kde)) \<noteq> 0 \<or>
     kde_rsnxe kde \<noteq> sm_rsnxe s \<or>
     (case kde_dpp_kde kde of
        Some d \<Rightarrow> wpa_key_mgmt s = WPA_KEY_MGMT_DPP \<and> dpp_pfs (conf A) \<noteq> 2 \<and> bit (d ! 1) 0 \<and> dpp_z s = None
      | None \<Rightarrow> False)"

text \<open>The callback \<open>update_vlan\<close>; it may move the station to the group of the VLAN at once.\<close>

definition wpa_auth_update_vlan :: "wpa_env \<Rightarrow> nat \<Rightarrow> int \<Rightarrow> wpa_authenticator \<Rightarrow> int \<times> wpa_authenticator" where
  "wpa_auth_update_vlan env i vlan A =
     (let a = sm_addr (stas A i); A = emit (UpdateVlan a vlan) A; r = cb_result env (trace A)
      in (r, if ap_sta_bind_vlan env (trace A) a then snd (wpa_auth_sta_set_vlan env i vlan A) else A))"

text \<open>
  The part of the state after a key has matched the MIC; \<open>own\<close> says that this is the stored master
  key and not a copy elsewhere.
\<close>

definition accept_message2 ::
  "wpa_env \<Rightarrow> nat \<Rightarrow> nat \<Rightarrow> bytes \<Rightarrow> bool \<Rightarrow> bytes \<Rightarrow> int \<Rightarrow> wpa_ptk \<Rightarrow> wpa_authenticator \<Rightarrow> wpa_authenticator option" where
  "accept_message2 env i mic_len data own pmk vlan ptk A =
     do {
       r \<leftarrow> message2_key_data env (stas A i) mic_len ptk data;
       case r of
         Inl _ \<Rightarrow> Some A
       | Inr kd \<Rightarrow>
           let (ret, kde) = wpa_parse_kde_ies kd; s = stas A i
           in if ret < 0 then Some A
              else if message2_mismatch A s kde then Some (wpa_sta_disconnect env i 2 A)
              else let has_vlan = vlan \<noteq> 0 \<and> wpa_key_mgmt_wpa_psk (wpa_key_mgmt s);
                       (r, A) = (if has_vlan then wpa_auth_update_vlan env i vlan A else (0, A))
                   in if r < 0 then Some (wpa_sta_disconnect env i 2 A)
                      else let A = set_sm i (\<lambda>s. s\<lparr>pending_1_of_4_timeout := False\<rparr>) A;
                               A = emit (CancelWpaTimeout (WpaSendEapolTimeout i)) A
                           in Some (set_sm i (\<lambda>s. s\<lparr>
                                PMK := (if wpa_key_mgmt_wpa_psk (wpa_key_mgmt s) \<and> \<not> own then take 32 pmk else PMK s),
                                MICVerified := True, PTK := ptk, PTK_valid := True\<rparr>) A)
     }"

definition sm_WPA_PTK_PTKCALCNEGOTIATING_Enter :: "wpa_env \<Rightarrow> nat \<Rightarrow> wpa_authenticator \<Rightarrow> wpa_authenticator option" where
  "sm_WPA_PTK_PTKCALCNEGOTIATING_Enter env i A =
     (let A = set_sm i (\<lambda>s. s\<lparr>EAPOLKeyReceived := False, update_snonce := False\<rparr>) (enter_ptk WPA_PTK_PTKCALCNEGOTIATING i A);
          s = stas A i; mic_len = wpa_mic_len (wpa_key_mgmt s) (length (PMK s));
          cands = ptk_candidates env A s; psk_found = (uses_psk s \<and> cands \<noteq> []);
          own = (\<not> uses_psk s \<and> (PMK s \<noteq> [] \<or> sm_pmksa s = None))
      in case last_rx_eapol_key s of
           None \<Rightarrow> None
         | Some data \<Rightarrow>
             (case find_pmk env A s data cands of
                Some (pmk, vlan, ptk) \<Rightarrow>
                  accept_message2 env i mic_len data own pmk vlan ptk (set_sm i (\<lambda>s. s\<lparr>PMK := pmk\<rparr>) A)
              | None \<Rightarrow>
                  if wpa_key_mgmt_wpa_psk_no_sae (wpa_key_mgmt s) \<and> radius_psk (conf A) \<and> \<not> waiting_radius_psk s
                  then Some (set_sm i (\<lambda>s. s\<lparr>waiting_radius_psk := True\<rparr>)
                         (emit (RequestRadiusPsk (sm_addr s) (wpa_key_mgmt s) (ANonce s) data) A))
                  else Some (if psk_found then emit (PskFailureReport (sm_addr s)) A else A)))"

definition sm_WPA_PTK_PTKCALCNEGOTIATING2_Enter :: "nat \<Rightarrow> wpa_authenticator \<Rightarrow> wpa_authenticator" where
  "sm_WPA_PTK_PTKCALCNEGOTIATING2_Enter i A = set_sm i (\<lambda>s. s\<lparr>TimeoutCtr := 0\<rparr>) (enter_ptk WPA_PTK_PTKCALCNEGOTIATING2 i A)"

section \<open>Messages 3 and 4\<close>

text \<open>
  The management group keys as they are appended to the key data, and the room reserved for them.
\<close>

definition ieee80211w_kde_len :: "wpa_auth_config \<Rightarrow> wpa_sm \<Rightarrow> nat" where
  "ieee80211w_kde_len cf s =
     (let len = 14 + wpa_cipher_key_len (group_mgmt_cipher cf)
      in if \<not> mgmt_frame_prot s then 0 else if beacon_prot cf then len + len else len)"

text \<open>The packet number of a group key: zero unless the group is set up and the driver knows it.\<close>

definition group_key_pn :: "wpa_env \<Rightarrow> nat \<Rightarrow> nat \<Rightarrow> wpa_authenticator \<Rightarrow> bytes \<times> wpa_authenticator" where
  "group_key_pn env g idx A =
     (if wpa_group_state (groups A g) \<noteq> WPA_GROUP_SETKEYSDONE then (replicate 6 0, A)
      else let (r, A) = wpa_auth_get_seqnum env idx A
           in (case r of None \<Rightarrow> replicate 6 0 | Some b \<Rightarrow> take 6 b, A))"

definition ieee80211w_kde_add :: "wpa_env \<Rightarrow> nat \<Rightarrow> wpa_authenticator \<Rightarrow> bytes \<times> wpa_authenticator" where
  "ieee80211w_kde_add env i A =
     (let s = stas A i; g = sm_group s; gsm = groups A g; cf = conf A; len = wpa_cipher_key_len (group_mgmt_cipher cf)
      in if \<not> mgmt_frame_prot s then ([], A)
         else
           let (pn, A) = group_key_pn env g (GN_igtk gsm) A;
               (igtk, A) = (if disable_gtk cf \<or> wpa_key_mgmt s = WPA_KEY_MGMT_OSEN then random_get_bytes env len A
                            else (Some (take len (IGTK gsm ! (GN_igtk gsm - 4))), A))
           in case igtk of
                None \<Rightarrow> ([], A)
              | Some k \<Rightarrow>
                  let kde = wpa_add_kde RSN_KEY_DATA_IGTK ([of_nat (GN_igtk gsm), 0] @ pn @ k) []
                  in if \<not> beacon_prot cf then (kde, A)
                     else
                       let (pn, A) = group_key_pn env g (GN_bigtk gsm) A;
                           (bigtk, A) = (if wpa_key_mgmt s = WPA_KEY_MGMT_OSEN then random_get_bytes env len A
                                         else (Some (take len (BIGTK gsm ! (GN_bigtk gsm - 6))), A))
                       in case bigtk of
                            None \<Rightarrow> (kde, A)
                          | Some k \<Rightarrow>
                              (kde @ wpa_add_kde RSN_KEY_DATA_BIGTK ([of_nat (GN_bigtk gsm), 0] @ pn @ k) [], A))"

text \<open>
  The elements of the access point for a station that uses WPA alone: the element behind the RSN
  element and the two that may follow it. A read behind the end is \<open>None\<close>.
\<close>

definition skip_ie :: "bytes \<Rightarrow> bytes option" where
  "skip_ie ie = (if length ie < 2 \<or> length ie < unat (ie ! 1) + 2 then None else Some (drop (unat (ie ! 1) + 2) ie))"

definition skip_ie_if :: "byte \<Rightarrow> bytes \<Rightarrow> bytes option" where
  "skip_ie_if eid ie = (if ie = [] then None else if ie ! 0 = eid then skip_ie ie else Some ie)"

definition message3_wpa_ie :: "wpa_authenticator \<Rightarrow> wpa_sm \<Rightarrow> bytes option" where
  "message3_wpa_ie A s =
     (let ie = auth_wpa_ie A
      in if sm_wpa s = WPA_VERSION_WPA \<and> bit (conf_wpa (conf A)) 1
         then if length ie < 2 then None
              else if length ie > unat (ie ! 1) + 2 \<and> ie ! 0 = 48
              then do {
                ie \<leftarrow> skip_ie ie;
                ie \<leftarrow> skip_ie_if 244 ie;
                ie \<leftarrow> skip_ie_if 54 ie;
                if length ie < 2 \<or> length ie < unat (ie ! 1) + 2 then None else Some (take (unat (ie ! 1) + 2) ie)
              }
              else Some ie
         else Some ie)"

text \<open>The key data of message 3 from its parts, and the size of the buffer it is written to.\<close>

definition message3_kde_len :: "wpa_authenticator \<Rightarrow> wpa_sm \<Rightarrow> bytes \<Rightarrow> bytes option \<Rightarrow> nat" where
  "message3_kde_len A s wpa_ie gtk =
     length wpa_ie + ieee80211w_kde_len (conf A) s + (if use_ext_key_id s then 8 else 0) +
     (case gtk of None \<Rightarrow> 0 | Some k \<Rightarrow> 8 + length k) + (if transition_disable (conf A) \<noteq> 0 then 7 else 0) +
     (if wpa_key_mgmt s = WPA_KEY_MGMT_DPP then 8 else 0) + (if ssid_protection s then 2 + length (ssid (conf A)) else 0)"

definition dpp_kde_flags :: "wpa_auth_config \<Rightarrow> byte" where
  "dpp_kde_flags cf = (if dpp_pfs cf = 0 then 1 else if dpp_pfs cf = 1 then 3 else 0)"

definition message3_kde :: "wpa_authenticator \<Rightarrow> wpa_sm \<Rightarrow> bytes \<Rightarrow> bytes option \<Rightarrow> nat \<Rightarrow> bytes \<Rightarrow> bytes" where
  "message3_kde A s wpa_ie gtk gtkidx mgmt =
     wpa_ie @
     (if use_ext_key_id s then wpa_add_kde RSN_KEY_DATA_KEYID [keyidx_active s AND 1, 0] [] else []) @
     (case gtk of None \<Rightarrow> [] | Some k \<Rightarrow> wpa_add_kde RSN_KEY_DATA_GROUPKEY [of_nat gtkidx AND 3, 0] k) @
     mgmt @
     (if transition_disable (conf A) \<noteq> 0
      then wpa_add_kde WFA_KEY_DATA_TRANSITION_DISABLE [transition_disable (conf A)] [] else []) @
     (if wpa_key_mgmt s = WPA_KEY_MGMT_DPP then wpa_add_kde WFA_KEY_DATA_DPP [2, dpp_kde_flags (conf A)] [] else []) @
     (if ssid_protection s then [0, of_nat (length (ssid (conf A)))] @ ssid (conf A) else [])"

text \<open>Building and sending message 3. Writing beyond the buffer is \<open>None\<close>.\<close>

definition send_message3 ::
  "wpa_env \<Rightarrow> nat \<Rightarrow> bytes \<Rightarrow> bool \<Rightarrow> bytes option \<Rightarrow> nat \<Rightarrow> bytes option \<Rightarrow> bool \<Rightarrow> wpa_authenticator \<Rightarrow> wpa_authenticator option" where
  "send_message3 env i wpa_ie secure gtk gtkidx rsc encr A =
     (let s = stas A i;
          size = message3_kde_len A s wpa_ie gtk;
          (mgmt, A) = ieee80211w_kde_add env i A;
          kde = message3_kde A s wpa_ie gtk gtkidx mgmt;
          info = flags (flag_of secure WPA_KEY_INFO_SECURE @
                        flag_of (wpa_mic_len (wpa_key_mgmt s) (length (PMK s)) \<noteq> 0) WPA_KEY_INFO_MIC @
                        [WPA_KEY_INFO_ACK, WPA_KEY_INFO_INSTALL, WPA_KEY_INFO_KEY_TYPE])
      in if length kde > size then None
         else Some (wpa_send_eapol env i info rsc (Some (ANonce s)) (Some kde) 0 encr A))"

definition sm_WPA_PTK_PTKINITNEGOTIATING_Enter :: "wpa_env \<Rightarrow> nat \<Rightarrow> wpa_authenticator \<Rightarrow> wpa_authenticator option" where
  "sm_WPA_PTK_PTKINITNEGOTIATING_Enter env i A =
     (let A = enter_ptk WPA_PTK_PTKINITNEGOTIATING i A;
          A = set_sm i (\<lambda>s. s\<lparr>TimeoutEvt := False, TimeoutCtr := TimeoutCtr s + 1\<rparr>) A;
          s = stas A i; cf = conf A; g = sm_group s
      in if wpa_disable_eapol_key_retries cf \<and> TimeoutCtr s > 1 then Some A
         else if TimeoutCtr s > wpa_pairwise_update_count cf then Some A
         else do {
           let (r, A) = wpa_auth_get_seqnum env (GN (groups A g)) A;
           let rsc = (case r of None \<Rightarrow> replicate 8 0 | Some b \<Rightarrow> b);
           wpa_ie \<leftarrow> message3_wpa_ie A s;
           if sm_wpa s = WPA_VERSION_WPA2
           then let (r, A) = (if use_ext_key_id s \<and> TimeoutCtr s = 1
                              then wpa_auth_set_key env 0 (wpa_cipher_to_alg (pairwise s)) (sm_addr s) (unat (keyidx_active s))
                                     (tk (PTK s)) KEY_FLAG_PAIRWISE_RX A
                              else (0, A))
                in if r \<noteq> 0 then Some (wpa_sta_disconnect env i 2 A)
                   else let gsm = groups A g;
                            (gtk, A) = (if disable_gtk cf \<or> wpa_key_mgmt s = WPA_KEY_MGMT_OSEN
                                        then random_get_bytes env (GTK_len gsm) A else (Some (the_gtk gsm), A))
                        in case gtk of
                             None \<Rightarrow> Some A
                           | Some k \<Rightarrow> send_message3 env i wpa_ie True (Some k) (GN gsm) (Some rsc) True A
           else send_message3 env i wpa_ie (rx_eapol_key_secure s) None 0 None False A
         })"

definition wpa_auth_set_ptk_rekey_timer :: "nat \<Rightarrow> wpa_authenticator \<Rightarrow> wpa_authenticator" where
  "wpa_auth_set_ptk_rekey_timer i A =
     (if wpa_ptk_rekey (conf A) = 0 then A
      else emit (WpaTimeout (wpa_ptk_rekey (conf A) * 1000) (WpaRekeyPtk i)) (emit (CancelWpaTimeout (WpaRekeyPtk i)) A))"

text \<open>Installing the pairwise key: the result of the driver.\<close>

definition install_ptk :: "wpa_env \<Rightarrow> nat \<Rightarrow> wpa_authenticator \<Rightarrow> int \<times> wpa_authenticator" where
  "install_ptk env i A =
     (let s = stas A i
      in if use_ext_key_id s
         then wpa_auth_set_key env 0 WPA_ALG_NONE (sm_addr s) (unat (keyidx_active s)) [] KEY_FLAG_PAIRWISE_RX_TX_MODIFY A
         else wpa_auth_set_key env 0 (wpa_cipher_to_alg (pairwise s)) (sm_addr s) 0 (tk (PTK s)) KEY_FLAG_PAIRWISE_RX_TX A)"

definition sm_WPA_PTK_PTKINITDONE_Enter :: "wpa_env \<Rightarrow> nat \<Rightarrow> wpa_authenticator \<Rightarrow> wpa_authenticator" where
  "sm_WPA_PTK_PTKINITDONE_Enter env i A =
     (let A = set_sm i (\<lambda>s. s\<lparr>EAPOLKeyReceived := False\<rparr>) (enter_ptk WPA_PTK_PTKINITDONE i A);
          finish = (\<lambda>A.
            let A = wpa_auth_set_eapol i WPA_EAPOL_portValid True A;
                A = wpa_auth_set_eapol i WPA_EAPOL_keyAvailable False A;
                A = wpa_auth_set_eapol i WPA_EAPOL_keyDone True A
            in set_sm i (\<lambda>s. s\<lparr>PInitAKeys := (if sm_wpa s = WPA_VERSION_WPA then True else PInitAKeys s),
                 has_GTK := (if sm_wpa s = WPA_VERSION_WPA then has_GTK s else True), ptkstart_without_success := 0\<rparr>) A)
      in if \<not> Pair (stas A i) then finish A
         else let (r, A) = install_ptk env i A
              in if r \<noteq> 0 then wpa_sta_disconnect env i 2 A
                 else let A = set_sm i (\<lambda>s. s\<lparr>pairwise_set := True\<rparr>) A;
                          A = wpa_auth_set_ptk_rekey_timer i A;
                          A = emit (StorePtksa (sm_addr (stas A i)) (pairwise (stas A i)) (PTK (stas A i))) A
                      in finish (if authorizes_itself (stas A i) then wpa_auth_set_eapol i WPA_EAPOL_authorized True A else A))"

section \<open>One step of the pairwise machine\<close>

definition handshake_failure :: "wpa_authenticator \<Rightarrow> wpa_authenticator" where
  "handshake_failure A = A\<lparr>dot11RSNA4WayHandshakeFailures := dot11RSNA4WayHandshakeFailures A + 1\<rparr>"

text \<open>A message of the pairwise handshake that has not been looked at.\<close>

definition pairwise_received :: "wpa_sm \<Rightarrow> bool" where
  "pairwise_received s \<longleftrightarrow> EAPOLKeyReceived s \<and> \<not> EAPOLKeyRequest s \<and> EAPOLKeyPairwise s"

definition retry_limit :: "wpa_env \<Rightarrow> nat \<Rightarrow> wpa_authenticator \<Rightarrow> wpa_authenticator" where
  "retry_limit env i A =
     sm_WPA_PTK_DISCONNECT_Enter env i (set_sm i (\<lambda>s. s\<lparr>disconnect_reason := 15\<rparr>) (handshake_failure A))"

definition step_PTKINITNEGOTIATING :: "wpa_env \<Rightarrow> nat \<Rightarrow> wpa_authenticator \<Rightarrow> wpa_authenticator option" where
  "step_PTKINITNEGOTIATING env i A =
     (let s = stas A i; cf = conf A
      in if update_snonce s then sm_WPA_PTK_PTKCALCNEGOTIATING_Enter env i A
         else if pairwise_received s \<and> MICVerified s then Some (sm_WPA_PTK_PTKINITDONE_Enter env i A)
         else if TimeoutCtr s > wpa_pairwise_update_count cf \<or> (wpa_disable_eapol_key_retries cf \<and> TimeoutCtr s > 1)
           then Some (retry_limit env i A)
         else if TimeoutEvt s then sm_WPA_PTK_PTKINITNEGOTIATING_Enter env i A
         else Some A)"

definition step_AUTHENTICATION2 :: "wpa_env \<Rightarrow> nat \<Rightarrow> wpa_authenticator \<Rightarrow> wpa_authenticator" where
  "step_AUTHENTICATION2 env i A =
     (let akm = wpa_key_mgmt (stas A i);
          (run, A) = (if wpa_key_mgmt_wpa_ieee8021x akm then wpa_auth_get_eapol env i WPA_EAPOL_keyRun A else (False, A))
      in if run then sm_WPA_PTK_INITPMK_Enter env i A
         else if wpa_key_mgmt_wpa_psk akm \<or> akm = WPA_KEY_MGMT_OWE then sm_WPA_PTK_INITPSK_Enter env i A
         else if akm = WPA_KEY_MGMT_DPP then sm_WPA_PTK_INITPMK_Enter env i A
         else A)"

definition sm_WPA_PTK_switch :: "wpa_env \<Rightarrow> nat \<Rightarrow> wpa_authenticator \<Rightarrow> wpa_authenticator option" where
  "sm_WPA_PTK_switch env i A =
     (let s = stas A i; cf = conf A
      in case wpa_ptk_state s of
           WPA_PTK_INITIALIZE \<Rightarrow> Some A
         | WPA_PTK_DISCONNECT \<Rightarrow> Some (sm_WPA_PTK_DISCONNECTED_Enter i A)
         | WPA_PTK_DISCONNECTED \<Rightarrow> Some (sm_WPA_PTK_INITIALIZE_Enter env i A)
         | WPA_PTK_AUTHENTICATION \<Rightarrow> Some (sm_WPA_PTK_AUTHENTICATION2_Enter env i A)
         | WPA_PTK_AUTHENTICATION2 \<Rightarrow> Some (step_AUTHENTICATION2 env i A)
         | WPA_PTK_INITPMK \<Rightarrow>
             (let (avail, A) = wpa_auth_get_eapol env i WPA_EAPOL_keyAvailable A
              in if avail then sm_WPA_PTK_PTKSTART_Enter env i A
                 else if wpa_key_mgmt s = WPA_KEY_MGMT_DPP \<and> sm_pmksa s \<noteq> None then sm_WPA_PTK_PTKSTART_Enter env i A
                 else Some (sm_WPA_PTK_DISCONNECT_Enter env i (handshake_failure A)))
         | WPA_PTK_INITPSK \<Rightarrow>
             if cb_get_psk env (trace A) (sm_addr s) \<noteq> [] then sm_WPA_PTK_PTKSTART_Enter env i A
             else if wpa_key_mgmt_wpa_psk_no_sae (wpa_key_mgmt s) \<and> radius_psk cf then sm_WPA_PTK_PTKSTART_Enter env i A
             else Some (sm_WPA_PTK_DISCONNECT_Enter env i (handshake_failure A))
         | WPA_PTK_PTKSTART \<Rightarrow>
             if pairwise_received s then sm_WPA_PTK_PTKCALCNEGOTIATING_Enter env i A
             else if TimeoutCtr s > wpa_pairwise_update_count cf then Some (retry_limit env i A)
             else if TimeoutEvt s then sm_WPA_PTK_PTKSTART_Enter env i A
             else Some A
         | WPA_PTK_PTKCALCNEGOTIATING \<Rightarrow>
             if MICVerified s then Some (sm_WPA_PTK_PTKCALCNEGOTIATING2_Enter i A)
             else if pairwise_received s then sm_WPA_PTK_PTKCALCNEGOTIATING_Enter env i A
             else if TimeoutEvt s then sm_WPA_PTK_PTKSTART_Enter env i A
             else Some A
         | WPA_PTK_PTKCALCNEGOTIATING2 \<Rightarrow> sm_WPA_PTK_PTKINITNEGOTIATING_Enter env i A
         | WPA_PTK_PTKINITNEGOTIATING \<Rightarrow> step_PTKINITNEGOTIATING env i A
         | WPA_PTK_PTKINITDONE \<Rightarrow> Some A)"

definition sm_WPA_PTK_Step :: "wpa_env \<Rightarrow> nat \<Rightarrow> wpa_authenticator \<Rightarrow> wpa_authenticator option" where
  "sm_WPA_PTK_Step env i A =
     (let s = stas A i
      in if Init s then Some (sm_WPA_PTK_INITIALIZE_Enter env i A)
         else if Disconnect s then Some (sm_WPA_PTK_DISCONNECT_Enter env i A)
         else if DeauthenticationRequest s then Some (sm_WPA_PTK_DISCONNECTED_Enter i A)
         else if AuthenticationRequest s then Some (sm_WPA_PTK_AUTHENTICATION_Enter i A)
         else if ReAuthenticationRequest s then Some (sm_WPA_PTK_AUTHENTICATION2_Enter env i A)
         else if PTKRequest s then
           (let (r, A) = wpa_auth_sm_ptk_update env i A
            in if r < 0 then Some (sm_WPA_PTK_DISCONNECTED_Enter i A) else sm_WPA_PTK_PTKSTART_Enter env i A)
         else sm_WPA_PTK_switch env i A)"

section \<open>The group machine of a station\<close>

definition enter_ptk_group :: "wpa_ptk_group_st \<Rightarrow> nat \<Rightarrow> wpa_authenticator \<Rightarrow> wpa_authenticator" where
  "enter_ptk_group st i = set_sm i (\<lambda>s. s\<lparr>changed := True, wpa_ptk_group_state := st\<rparr>)"

definition sm_WPA_PTK_GROUP_IDLE_Enter :: "nat \<Rightarrow> wpa_authenticator \<Rightarrow> wpa_authenticator" where
  "sm_WPA_PTK_GROUP_IDLE_Enter i A =
     set_sm i (\<lambda>s. s\<lparr>changed := (if Init s then False else changed s), GTimeoutCtr := 0\<rparr>) (enter_ptk_group WPA_PTK_GROUP_IDLE i A)"

definition sm_WPA_PTK_GROUP_REKEYNEGOTIATING_Enter :: "wpa_env \<Rightarrow> nat \<Rightarrow> wpa_authenticator \<Rightarrow> wpa_authenticator" where
  "sm_WPA_PTK_GROUP_REKEYNEGOTIATING_Enter env i A =
     (let A = enter_ptk_group WPA_PTK_GROUP_REKEYNEGOTIATING i A;
          A = set_sm i (\<lambda>s. s\<lparr>GTimeoutCtr := GTimeoutCtr s + 1\<rparr>) A;
          cf = conf A; g = sm_group (stas A i); ctr = GTimeoutCtr (stas A i)
      in if wpa_disable_eapol_key_retries cf \<and> ctr > 1 then A
         else if ctr > wpa_group_update_count cf then A
         else
           let A = set_sm i (\<lambda>s. s\<lparr>PInitAKeys := (if sm_wpa s = WPA_VERSION_WPA then False else PInitAKeys s), TimeoutEvt := False\<rparr>) A;
               s = stas A i; gsm = groups A g;
               (r, A) = (if wpa_group_state gsm = WPA_GROUP_SETKEYSDONE then wpa_auth_get_seqnum env (GN gsm) A else (None, A));
               rsc = (case r of None \<Rightarrow> replicate 8 0 | Some b \<Rightarrow> b);
               (gtk, A) = (if disable_gtk cf \<or> wpa_key_mgmt s = WPA_KEY_MGMT_OSEN then random_get_bytes env (GTK_len gsm) A
                           else (Some (the_gtk gsm), A))
           in case gtk of
                None \<Rightarrow> A
              | Some k \<Rightarrow>
                  let (kde, A) = (if sm_wpa s = WPA_VERSION_WPA2
                                  then let (mgmt, A) = ieee80211w_kde_add env i A
                                       in (wpa_add_kde RSN_KEY_DATA_GROUPKEY [of_nat (GN gsm) AND 3, 0] k @ mgmt, A)
                                  else (k, A));
                      info = flags (flag_of (wpa_mic_len (wpa_key_mgmt s) (length (PMK s)) \<noteq> 0) WPA_KEY_INFO_MIC @
                                    [WPA_KEY_INFO_SECURE, WPA_KEY_INFO_ACK] @ flag_of (\<not> Pair s) WPA_KEY_INFO_INSTALL)
                  in wpa_send_eapol env i info (Some rsc) None (Some kde) (GN gsm) True A)"

definition sm_WPA_PTK_GROUP_REKEYESTABLISHED_Enter :: "nat \<Rightarrow> wpa_authenticator \<Rightarrow> wpa_authenticator" where
  "sm_WPA_PTK_GROUP_REKEYESTABLISHED_Enter i A =
     (let A = set_sm i (\<lambda>s. s\<lparr>EAPOLKeyReceived := False\<rparr>) (enter_ptk_group WPA_PTK_GROUP_REKEYESTABLISHED i A);
          A = (if GUpdateStationKeys (stas A i) then wpa_gkeydone_sta i A else A)
      in set_sm i (\<lambda>s. s\<lparr>GTimeoutCtr := 0, has_GTK := True\<rparr>) A)"

definition sm_WPA_PTK_GROUP_KEYERROR_Enter :: "nat \<Rightarrow> wpa_authenticator \<Rightarrow> wpa_authenticator" where
  "sm_WPA_PTK_GROUP_KEYERROR_Enter i A =
     (let A = enter_ptk_group WPA_PTK_GROUP_KEYERROR i A;
          A = (if GUpdateStationKeys (stas A i) then wpa_gkeydone_sta i A else A)
      in if no_disconnect_on_group_keyerror (conf A) \<and> sm_wpa (stas A i) = WPA_VERSION_WPA2 then A
         else set_sm i (\<lambda>s. s\<lparr>Disconnect := True, disconnect_reason := 16\<rparr>) A)"

definition sm_WPA_PTK_GROUP_Step :: "wpa_env \<Rightarrow> nat \<Rightarrow> wpa_authenticator \<Rightarrow> wpa_authenticator" where
  "sm_WPA_PTK_GROUP_Step env i A =
     (let s = stas A i; cf = conf A
      in if Init s \<or> PtkGroupInit s
         then set_sm i (\<lambda>s. s\<lparr>PtkGroupInit := False\<rparr>) (sm_WPA_PTK_GROUP_IDLE_Enter i A)
         else case wpa_ptk_group_state s of
                WPA_PTK_GROUP_IDLE \<Rightarrow>
                  if GUpdateStationKeys s \<or> (sm_wpa s = WPA_VERSION_WPA \<and> PInitAKeys s)
                  then sm_WPA_PTK_GROUP_REKEYNEGOTIATING_Enter env i A else A
              | WPA_PTK_GROUP_REKEYNEGOTIATING \<Rightarrow>
                  if EAPOLKeyReceived s \<and> \<not> EAPOLKeyRequest s \<and> \<not> EAPOLKeyPairwise s \<and> MICVerified s
                  then sm_WPA_PTK_GROUP_REKEYESTABLISHED_Enter i A
                  else if GTimeoutCtr s > wpa_group_update_count cf \<or> (wpa_disable_eapol_key_retries cf \<and> GTimeoutCtr s > 1)
                  then sm_WPA_PTK_GROUP_KEYERROR_Enter i A
                  else if TimeoutEvt s then sm_WPA_PTK_GROUP_REKEYNEGOTIATING_Enter env i A
                  else A
              | WPA_PTK_GROUP_KEYERROR \<Rightarrow> sm_WPA_PTK_GROUP_IDLE_Enter i A
              | WPA_PTK_GROUP_REKEYESTABLISHED \<Rightarrow> sm_WPA_PTK_GROUP_IDLE_Enter i A)"

end
