(* ===== verification/Wpa_Auth.thy ===== *)
theory Wpa_Auth
  imports Wpa_Ptk
begin

text \<open>
  The operations of the WPA/RSN authenticator (\<open>src/ap/wpa_auth.c\<close>): \<open>wpa_sm_step\<close>, which runs the
  machines of a station and of its group until they rest, the rekeying of groups and stations, the
  timeouts, and the events from outside. The machines are run with an amount of fuel that bounds the
  rounds and the depth of nested runs. A run that needs more is \<open>None\<close>; or, if \<open>cut_off\<close> is set in the
  environment, the loop that ran out of fuel is left at that place. Every output of a run that never
  ends is then in the trace for some amount of fuel.
\<close>

section \<open>Running the machines\<close>

text \<open>One round of the loop of \<open>wpa_sm_step\<close>; \<open>step\<close> runs the machines of other stations.\<close>

definition wpa_sm_round :: "wpa_env \<Rightarrow> sm_step \<Rightarrow> sm_step" where
  "wpa_sm_round env step i A =
     (if pending_deinit (stas A i) then Some A
      else do {
        let A = set_group (auth_group A) (\<lambda>g. g\<lparr>g_changed := False\<rparr>) (set_sm i (\<lambda>s. s\<lparr>changed := False\<rparr>) A);
        A \<leftarrow> sm_WPA_PTK_Step env i A;
        if pending_deinit (stas A i) then Some A
        else let A = sm_WPA_PTK_GROUP_Step env i A
             in if pending_deinit (stas A i) then Some A else wpa_group_sm_step env step (auth_group A) A
      })"

definition wpa_sm_again :: "nat \<Rightarrow> wpa_authenticator \<Rightarrow> bool" where
  "wpa_sm_again i A \<longleftrightarrow> \<not> pending_deinit (stas A i) \<and> (changed (stas A i) \<or> g_changed (groups A (auth_group A)))"

definition wpa_free_sta_sm :: "nat \<Rightarrow> wpa_authenticator \<Rightarrow> wpa_authenticator" where
  "wpa_free_sta_sm i A =
     (let A = (if GUpdateStationKeys (stas A i) then wpa_gkeydone_sta i A else A);
          A = wpa_group_put (sm_group (stas A i)) A
      in A\<lparr>sta_list := remove1 i (sta_list A)\<rparr>)"

text \<open>The guard against nested runs for the same station, and the end of a run.\<close>

definition wpa_sm_guard :: "sm_step \<Rightarrow> sm_step" where
  "wpa_sm_guard loop i A =
     (if in_step_loop (stas A i) then Some A
      else do {
        A \<leftarrow> loop i (set_sm i (\<lambda>s. s\<lparr>in_step_loop := True\<rparr>) A);
        let A = set_sm i (\<lambda>s. s\<lparr>in_step_loop := False\<rparr>) A;
        Some (if pending_deinit (stas A i) then wpa_free_sta_sm i A else A)
      })"

primrec wpa_sm_loop :: "nat \<Rightarrow> wpa_env \<Rightarrow> sm_step" where
  "wpa_sm_loop 0 env = (\<lambda>i A. if cut_off env then Some A else None)"
| "wpa_sm_loop (Suc n) env = (\<lambda>i A.
     do { A \<leftarrow> wpa_sm_round env (wpa_sm_guard (wpa_sm_loop n env)) i A;
          if wpa_sm_again i A then wpa_sm_loop n env i A else Some A })"

definition wpa_sm_step :: "nat \<Rightarrow> wpa_env \<Rightarrow> sm_step" where
  "wpa_sm_step n env = wpa_sm_guard (wpa_sm_loop n env)"

section \<open>Rekeying\<close>

primrec wpa_group_loop :: "nat \<Rightarrow> wpa_env \<Rightarrow> nat \<Rightarrow> wpa_authenticator \<Rightarrow> wpa_authenticator option" where
  "wpa_group_loop 0 env g A = (if cut_off env then Some A else None)"
| "wpa_group_loop (Suc n) env g A =
     do { A \<leftarrow> wpa_group_sm_step env (wpa_sm_step n env) g (set_group g (\<lambda>g. g\<lparr>g_changed := False\<rparr>) A);
          if g_changed (groups A g) then wpa_group_loop n env g A else Some A }"

primrec wpa_rekey_groups :: "nat \<Rightarrow> wpa_env \<Rightarrow> nat list \<Rightarrow> wpa_authenticator \<Rightarrow> wpa_authenticator option" where
  "wpa_rekey_groups n env [] A = Some A"
| "wpa_rekey_groups n env (g # gs) A =
     do { A \<leftarrow> wpa_group_loop n env g (set_group g (\<lambda>g. g\<lparr>GTKReKey := True\<rparr>) (wpa_group_get g A));
          wpa_rekey_groups n env gs (wpa_group_put g A) }"

definition wpa_rekey_all_groups :: "nat \<Rightarrow> wpa_env \<Rightarrow> wpa_authenticator \<Rightarrow> wpa_authenticator option" where
  "wpa_rekey_all_groups n env A = wpa_rekey_groups n env (group_list A) A"

definition wpa_rekey_gtk :: "nat \<Rightarrow> wpa_env \<Rightarrow> wpa_authenticator \<Rightarrow> wpa_authenticator option" where
  "wpa_rekey_gtk n env A =
     do { A \<leftarrow> wpa_rekey_all_groups n env A;
          Some (if wpa_group_rekey (conf A) = 0 then A else emit (WpaTimeout (wpa_group_rekey (conf A) * 1000) WpaRekeyGtk) A) }"

definition wpa_rekey_gmk :: "wpa_env \<Rightarrow> wpa_authenticator \<Rightarrow> wpa_authenticator" where
  "wpa_rekey_gmk env A =
     (let (r, A) = random_get_bytes env 32 A;
          A = (case r of None \<Rightarrow> A | Some b \<Rightarrow> set_group (auth_group A) (\<lambda>g. g\<lparr>GMK := b\<rparr>) A)
      in if wpa_gmk_rekey (conf A) = 0 then A else emit (WpaTimeout (wpa_gmk_rekey (conf A) * 1000) WpaRekeyGmk) A)"

definition wpa_request_new_ptk :: "nat \<Rightarrow> wpa_authenticator \<Rightarrow> wpa_authenticator" where
  "wpa_request_new_ptk i A =
     (if \<not> use_ext_key_id (stas A i) \<and> wpa_deny_ptk0_rekey (conf A)
      then set_sm i (\<lambda>s. s\<lparr>Disconnect := True, disconnect_reason := 7\<rparr>) A
      else set_sm i (\<lambda>s. s\<lparr>keyidx_active := (if use_ext_key_id s then keyidx_active s XOR 1 else keyidx_active s),
             PTKRequest := True, PTK_valid := False\<rparr>) A)"

definition wpa_rekey_ptk :: "nat \<Rightarrow> wpa_env \<Rightarrow> sm_step" where
  "wpa_rekey_ptk n env i A = wpa_sm_step n env i (wpa_request_new_ptk i A)"

section \<open>Events\<close>

text \<open>
  \<open>wpa_auth_sm_event\<close>. A station that was not started is initialized first; if its machine ends
  there, nothing more happens.
\<close>

definition event_reauth :: "nat \<Rightarrow> wpa_env \<Rightarrow> nat \<Rightarrow> wpa_authenticator \<Rightarrow> wpa_authenticator option" where
  "event_reauth n env i A =
     (let s = stas A i
      in if \<not> started s then
           do { A \<leftarrow> wpa_sm_step n env i (set_sm i (\<lambda>s. s\<lparr>started := True, Init := True\<rparr>) A);
                Some (set_sm i (\<lambda>s. s\<lparr>Init := False, AuthenticationRequest := True\<rparr>) A) }
         else if ptkstart_without_success s > 3 then Some (set_sm i (\<lambda>s. s\<lparr>Disconnect := True\<rparr>) A)
         else if \<not> use_ext_key_id s \<and> wpa_deny_ptk0_rekey (conf A)
           then Some (set_sm i (\<lambda>s. s\<lparr>Disconnect := True, disconnect_reason := 7\<rparr>) A)
         else let A = set_sm i (\<lambda>s. s\<lparr>keyidx_active := (if use_ext_key_id s then keyidx_active s XOR 1 else keyidx_active s)\<rparr>) A;
                  A = (if GUpdateStationKeys (stas A i)
                       then set_sm i (\<lambda>s. s\<lparr>PtkGroupInit := True\<rparr>) (wpa_gkeydone_sta i A) else A)
              in Some (set_sm i (\<lambda>s. s\<lparr>ReAuthenticationRequest := True\<rparr>) A))"

definition wpa_auth_sm_event :: "nat \<Rightarrow> wpa_env \<Rightarrow> wpa_event \<Rightarrow> sm_step" where
  "wpa_auth_sm_event n env ev i A =
     (if ev = WPA_DRV_STA_REMOVED then Some (set_sm i (\<lambda>s. s\<lparr>tk_already_set := False\<rparr>) A)
      else do {
        A \<leftarrow> (if ev = WPA_DEAUTH \<or> ev = WPA_DISASSOC then Some (set_sm i (\<lambda>s. s\<lparr>DeauthenticationRequest := True, PMK := []\<rparr>) A)
              else if ev = WPA_REAUTH \<or> ev = WPA_REAUTH_EAPOL then event_reauth n env i A
              else Some A);
        if i \<notin> set (sta_list A) then Some A
        else let A = event_remove_keys env ev i A
             in if in_step_loop (stas A i) then Some (set_sm i (\<lambda>s. s\<lparr>changed := True\<rparr>) A)
                else wpa_sm_step n env i A
      })"

text \<open>A new station \<open>i\<close>, whose structure is fresh memory; none if the group has failed.\<close>

definition wpa_auth_sta_init :: "nat \<Rightarrow> mac \<Rightarrow> wpa_authenticator \<Rightarrow> wpa_authenticator" where
  "wpa_auth_sta_init i addr A =
     (let g = auth_group A
      in if wpa_group_state (groups A g) = WPA_GROUP_FATAL_FAILURE then A
         else wpa_group_get g (A\<lparr>sta_list := i # sta_list A, stas := (stas A)(i := zero_sm\<lparr>sm_addr := addr, sm_group := g\<rparr>)\<rparr>))"

definition wpa_auth_sta_associated :: "nat \<Rightarrow> wpa_env \<Rightarrow> sm_step" where
  "wpa_auth_sta_associated n env i A =
     (if conf_wpa (conf A) = 0 then Some A
      else if started (stas A i) then
        wpa_sm_step n env i (set_sm i (\<lambda>s. s\<lparr>key_replay := replicate RSNA_MAX_EAPOL_RETRIES no_counter,
                                            ReAuthenticationRequest := True\<rparr>) A)
      else do {
        A \<leftarrow> wpa_sm_step n env i (set_sm i (\<lambda>s. s\<lparr>started := True, Init := True\<rparr>) A);
        if i \<notin> set (sta_list A) then Some A
        else wpa_sm_step n env i (set_sm i (\<lambda>s. s\<lparr>Init := False, AuthenticationRequest := True\<rparr>) A)
      })"

definition wpa_auth_sta_no_wpa :: "nat \<Rightarrow> wpa_authenticator \<Rightarrow> wpa_authenticator" where
  "wpa_auth_sta_no_wpa i A = set_sm i (\<lambda>s. s\<lparr>wpa_key_mgmt := 0\<rparr>) A"

text \<open>
  The rekeying after a station has left is asked for with \<open>eloop_deplete_timeout\<close> or a new timeout.
\<close>

definition wpa_auth_sta_deinit :: "nat \<Rightarrow> wpa_authenticator \<Rightarrow> wpa_authenticator" where
  "wpa_auth_sta_deinit i A =
     (let A = (if wpa_strict_rekey (conf A) \<and> has_GTK (stas A i) then emit (WpaTimeout 500 WpaRekeyGtk) A else A);
          A = emit (CancelWpaTimeout (WpaSendEapolTimeout i)) A;
          A = set_sm i (\<lambda>s. s\<lparr>pending_1_of_4_timeout := False\<rparr>) A;
          A = emit (CancelWpaTimeout (WpaSmCallStep i)) A;
          A = emit (CancelWpaTimeout (WpaRekeyPtk i)) A
      in if in_step_loop (stas A i) then set_sm i (\<lambda>s. s\<lparr>pending_deinit := True\<rparr>) A else wpa_free_sta_sm i A)"

definition wpa_send_eapol_timeout :: "nat \<Rightarrow> wpa_env \<Rightarrow> sm_step" where
  "wpa_send_eapol_timeout n env i A =
     (if waiting_radius_psk (stas A i) then Some A
      else wpa_sm_step n env i (set_sm i (\<lambda>s. s\<lparr>pending_1_of_4_timeout := False, TimeoutEvt := True\<rparr>) A))"

definition wpa_auth_sta_radius_psk_resp :: "bool \<Rightarrow> nat \<Rightarrow> wpa_authenticator \<Rightarrow> wpa_authenticator" where
  "wpa_auth_sta_radius_psk_resp success i A =
     (if \<not> waiting_radius_psk (stas A i) then A
      else let A = set_sm i (\<lambda>s. s\<lparr>waiting_radius_psk := False\<rparr>) A;
               A = (if success then set_sm i (\<lambda>s. s\<lparr>EAPOLKeyReceived := True\<rparr>) A else set_sm i (\<lambda>s. s\<lparr>Disconnect := True\<rparr>) A)
           in emit (WpaTimeout 0 (WpaSmCallStep i)) A)"

definition wpa_auth_eapol_key_tx_status :: "bool \<Rightarrow> nat \<Rightarrow> wpa_authenticator \<Rightarrow> wpa_authenticator" where
  "wpa_auth_eapol_key_tx_status ack i A =
     (if pending_1_of_4_timeout (stas A i) \<and> ack
      then emit (WpaTimeout 1000 (WpaSendEapolTimeout i)) (emit (CancelWpaTimeout (WpaSendEapolTimeout i)) A)
      else A)"

definition wpa_auth_sm_notify :: "nat \<Rightarrow> wpa_authenticator \<Rightarrow> wpa_authenticator" where
  "wpa_auth_sm_notify i A = emit (WpaTimeout 0 (WpaSmCallStep i)) A"

definition wpa_auth_rekey_gtk :: "wpa_authenticator \<Rightarrow> wpa_authenticator" where
  "wpa_auth_rekey_gtk A = emit (WpaTimeout 0 WpaRekeyGtk) (emit (CancelWpaTimeout WpaRekeyGtk) A)"

end
