(* ===== verification/Wpa_Receive.thy ===== *)
theory Wpa_Receive
  imports Wpa_Auth
begin

text \<open>
  The reception of EAPOL-Key frames (\<open>wpa_receive\<close> of \<open>src/ap/wpa_auth.c\<close>): which message of a
  handshake a frame is, whether its replay counter and its MIC are accepted, and what it changes
  before the machines run.
\<close>

section \<open>Which frames are taken\<close>

datatype eapol_key_msg = PAIRWISE_2 | PAIRWISE_4 | GROUP_2 | REQUEST

definition wpa_auth_gtk_rekey_in_process :: "wpa_authenticator \<Rightarrow> bool" where
  "wpa_auth_gtk_rekey_in_process A \<longleftrightarrow> (\<exists>g \<in> set (group_list A). GKeyDoneStations (groups A g) \<noteq> 0)"

definition wpa_auth_valid_key_desc_ver :: "wpa_sm \<Rightarrow> nat \<Rightarrow> bool" where
  "wpa_auth_valid_key_desc_ver s ver =
     (let akm = wpa_key_mgmt s
      in if ver > WPA_KEY_INFO_TYPE_AES_128_CMAC then False
         else if \<not> wpa_use_akm_defined akm \<and> wpa_use_cmac akm \<and> ver \<noteq> WPA_KEY_INFO_TYPE_AES_128_CMAC then False
         else if pairwise s \<noteq> WPA_CIPHER_TKIP \<and> \<not> wpa_use_akm_defined akm \<and> \<not> wpa_use_cmac akm \<and>
                 ver \<noteq> WPA_KEY_INFO_TYPE_HMAC_SHA1_AES then False
         else if wpa_use_akm_defined akm \<and> ver \<noteq> WPA_KEY_INFO_TYPE_AKM_DEFINED then False
         else True)"

definition wpa_auth_valid_request_counter :: "wpa_sm \<Rightarrow> bytes \<Rightarrow> bool" where
  "wpa_auth_valid_request_counter s rc \<longleftrightarrow> \<not> (req_replay_counter_used s \<and> \<not> memcmp_less (req_replay_counter s) rc)"

text \<open>
  The counter of a message. A second message 2 with another nonce, in reply to an earlier message 1,
  is let through after message 3 was sent; the nonce before it is kept, for a message 4 that still
  uses it.
\<close>

definition wpa_auth_valid_counter :: "bytes \<Rightarrow> eapol_key_msg \<Rightarrow> nat \<Rightarrow> wpa_authenticator \<Rightarrow> bool \<times> wpa_authenticator" where
  "wpa_auth_valid_counter data msg i A =
     (let s = stas A i; rc = key_replay_counter data
      in if msg = REQUEST then (wpa_auth_valid_request_counter s rc, A)
         else if wpa_replay_counter_valid (key_replay s) rc then (True, A)
         else if msg = PAIRWISE_2 \<and> wpa_replay_counter_valid (prev_key_replay s) rc \<and>
                 wpa_ptk_state s = WPA_PTK_PTKINITNEGOTIATING \<and> SNonce s \<noteq> key_nonce data
         then (True, set_sm i (\<lambda>s. s\<lparr>update_snonce := True, alt_SNonce := SNonce s, alt_snonce_valid := True,
                       alt_replay_counter := counter (hd (key_replay s))\<rparr>) A)
         else if msg = PAIRWISE_4 \<and> alt_snonce_valid s \<and> wpa_ptk_state s = WPA_PTK_PTKINITNEGOTIATING \<and>
                 rc = alt_replay_counter s
         then (True, A)
         else (False, A))"

text \<open>
  The key data of a frame with its length already checked: unwrapped if it is encrypted and can be;
  the flag tells whether it was. \<open>None\<close> is an unwrapping that fails.
\<close>

definition receive_key_data :: "wpa_crypto \<Rightarrow> wpa_sm \<Rightarrow> nat \<Rightarrow> bytes \<Rightarrow> (bytes \<times> bool) option" where
  "receive_key_data c s mic_len data =
     (let n = get_be16 data (81 + mic_len); kd = take n (drop (83 + mic_len) data); ver = key_ver data
      in if mic_len > 0 \<and> bit (key_info data) WPA_KEY_INFO_ENCR_KEY_DATA \<and> PTK_valid s \<and>
            (ver = WPA_KEY_INFO_TYPE_HMAC_SHA1_AES \<or> ver = WPA_KEY_INFO_TYPE_AES_128_CMAC \<or>
             wpa_use_aes_key_wrap (wpa_key_mgmt s)) \<and> n \<ge> 8 \<and> n mod 8 = 0
         then map_option (\<lambda>p. (p, True)) (aes_unwrap c (kek (PTK s)) kd)
         else Some (kd, False))"

definition classify_message :: "wpa_sm \<Rightarrow> nat \<Rightarrow> bytes \<Rightarrow> bytes \<Rightarrow> bool \<Rightarrow> eapol_key_msg" where
  "classify_message s mic_len data kd unwrapped =
     (let info = key_info data
      in if bit info WPA_KEY_INFO_REQUEST then REQUEST
         else if \<not> bit info WPA_KEY_INFO_KEY_TYPE then GROUP_2
         else if kd = [] \<or>
                 (sm_wpa s = WPA_VERSION_WPA2 \<and> (\<not> bit info WPA_KEY_INFO_ENCR_KEY_DATA \<or> unwrapped) \<and>
                  bit info WPA_KEY_INFO_SECURE \<and> get_ie kd 48 = None) \<or>
                 (mic_len = 0 \<and> bit info WPA_KEY_INFO_ENCR_KEY_DATA \<and> length kd = 16)
         then PAIRWISE_4 else PAIRWISE_2)"

text \<open>The tests of \<open>wpa_receive\<close> up to there; \<open>None\<close> is a frame that is dropped.\<close>

definition receive_message :: "wpa_env \<Rightarrow> wpa_authenticator \<Rightarrow> wpa_sm \<Rightarrow> bytes \<Rightarrow> eapol_key_msg option" where
  "receive_message env A s data =
     (let mic_len = wpa_mic_len (wpa_key_mgmt s) (length (PMK s)); type = data ! 4
      in if conf_wpa (conf A) = 0 then None
         else if length data < 83 + mic_len then None
         else if get_be16 data (81 + mic_len) > length data - (83 + mic_len) then None
         else if sm_wpa s = WPA_VERSION_WPA2 \<and> type \<noteq> 254 \<and> type \<noteq> 2 then None
         else if sm_wpa s \<noteq> WPA_VERSION_WPA2 \<and> type \<noteq> 254 then None
         else if bit (key_info data) WPA_KEY_INFO_SMK_MESSAGE then None
         else if \<not> wpa_auth_valid_key_desc_ver s (key_ver data) then None
         else map_option (\<lambda>(kd, unwrapped). classify_message s mic_len data kd unwrapped)
                (receive_key_data (crypto env) s mic_len data))"

text \<open>Whether a message is expected in the state of its machine.\<close>

fun message_expected :: "wpa_sm \<Rightarrow> eapol_key_msg \<Rightarrow> bool" where
  "message_expected s PAIRWISE_2 \<longleftrightarrow>
     wpa_ptk_state s = WPA_PTK_PTKSTART \<or> wpa_ptk_state s = WPA_PTK_PTKCALCNEGOTIATING \<or>
     (update_snonce s \<and> wpa_ptk_state s = WPA_PTK_PTKINITNEGOTIATING)"
| "message_expected s PAIRWISE_4 \<longleftrightarrow> wpa_ptk_state s = WPA_PTK_PTKINITNEGOTIATING \<and> PTK_valid s"
| "message_expected s GROUP_2 \<longleftrightarrow> wpa_ptk_group_state s = WPA_PTK_GROUP_REKEYNEGOTIATING \<and> PTK_valid s"
| "message_expected s REQUEST \<longleftrightarrow>
     wpa_ptk_state s \<notin> {WPA_PTK_PTKSTART, WPA_PTK_PTKCALCNEGOTIATING, WPA_PTK_PTKCALCNEGOTIATING2, WPA_PTK_PTKINITNEGOTIATING}"

section \<open>Verifying a frame\<close>

text \<open>
  \<open>wpa_try_alt_snonce\<close>: the loop over the keys of the station with the earlier nonce. It ends
  without a result when a derivation fails; the result is the key, its VLAN and the transient key.
\<close>

fun find_alt_pmk ::
  "wpa_env \<Rightarrow> wpa_authenticator \<Rightarrow> wpa_sm \<Rightarrow> bytes \<Rightarrow> (bytes \<times> int) list \<Rightarrow> (bytes \<times> int \<times> wpa_ptk) option" where
  "find_alt_pmk env A s data [] = None"
| "find_alt_pmk env A s data ((pmk, vlan) # rest) =
     (case wpa_derive_ptk env A s (alt_SNonce s) pmk False of
        None \<Rightarrow> None
      | Some ptk \<Rightarrow>
          if wpa_verify_key_mic (crypto env) (wpa_key_mgmt s) (length pmk) ptk data then Some (pmk, vlan, ptk)
          else find_alt_pmk env A s data rest)"

definition wpa_try_alt_snonce :: "wpa_env \<Rightarrow> bytes \<Rightarrow> nat \<Rightarrow> wpa_authenticator \<Rightarrow> bool \<times> wpa_authenticator" where
  "wpa_try_alt_snonce env data i A =
     (let s = stas A i;
          cands = (if uses_psk s then cb_get_psk env (trace A) (sm_addr s) else [(PMK s, 0)])
      in case find_alt_pmk env A s data cands of
           None \<Rightarrow> (False, A)
         | Some (pmk, vlan, ptk) \<Rightarrow>
             let A = set_sm i (\<lambda>s. s\<lparr>PMK := pmk, alt_snonce_valid := False\<rparr>) A;
                 (r, A) = (if vlan \<noteq> 0 \<and> wpa_key_mgmt_wpa_psk (wpa_key_mgmt s) then wpa_auth_update_vlan env i vlan A else (0, A))
             in if r < 0 then (False, A)
                else (True, set_sm i (\<lambda>s. s\<lparr>SNonce := alt_SNonce s, PTK := ptk, PTK_valid := True\<rparr>) A))"

text \<open>The MIC of a frame under the current key: whether the frame goes on.\<close>

definition receive_mic :: "wpa_env \<Rightarrow> bytes \<Rightarrow> eapol_key_msg \<Rightarrow> nat \<Rightarrow> wpa_authenticator \<Rightarrow> bool \<times> wpa_authenticator" where
  "receive_mic env data msg i A =
     (let A = set_sm i (\<lambda>s. s\<lparr>MICVerified := False\<rparr>) A; s = stas A i;
          verified = (\<lambda>A. (True, emit (CancelWpaTimeout (WpaSendEapolTimeout i))
                                   (set_sm i (\<lambda>s. s\<lparr>MICVerified := True, pending_1_of_4_timeout := False\<rparr>) A)))
      in if \<not> PTK_valid s \<or> update_snonce s then (True, A)
         else if wpa_mic_len (wpa_key_mgmt s) (length (PMK s)) = 0 \<or>
                 wpa_verify_key_mic (crypto env) (wpa_key_mgmt s) (length (PMK s)) (PTK s) data then verified A
         else if msg = PAIRWISE_4 \<and> alt_snonce_valid s
         then let (ok, A) = wpa_try_alt_snonce env data i A in if ok then verified A else (False, A)
         else (False, A))"

section \<open>Requests of the station\<close>

text \<open>
  The countermeasures that the report of a second MIC failure starts: \<open>wpa_gtk_rekey\<close>, and every
  station is freed.
\<close>

definition gtk_rekey_once :: "wpa_env \<Rightarrow> wpa_authenticator \<Rightarrow> wpa_authenticator" where
  "gtk_rekey_once env A = snd (wpa_group_config_group_keys env (auth_group A) (wpa_group_update_gtk env (auth_group A) A))"

definition wpa_gtk_rekey :: "wpa_env \<Rightarrow> wpa_authenticator \<Rightarrow> wpa_authenticator" where
  "wpa_gtk_rekey env A = gtk_rekey_once env (gtk_rekey_once env A)"

definition ieee80211_tkip_countermeasures_start :: "wpa_env \<Rightarrow> wpa_authenticator \<Rightarrow> wpa_authenticator" where
  "ieee80211_tkip_countermeasures_start env A = (let A = wpa_gtk_rekey env A in fold wpa_auth_sta_deinit (sta_list A) A)"

text \<open>The first component tells whether the station was removed.\<close>

definition wpa_receive_error_report :: "wpa_env \<Rightarrow> nat \<Rightarrow> bool \<Rightarrow> wpa_authenticator \<Rightarrow> bool \<times> wpa_authenticator" where
  "wpa_receive_error_report env i for_group A =
     (let s = stas A i
      in if (for_group \<and> wpa_group_cipher (conf A) \<noteq> WPA_CIPHER_TKIP) \<or> (\<not> for_group \<and> pairwise s \<noteq> WPA_CIPHER_TKIP)
         then (False, wpa_request_new_ptk i A)
         else let A = emit (MicFailureReport (sm_addr s)) A
              in if cb_result env (trace A) > 0 then (True, ieee80211_tkip_countermeasures_start env A)
                 else let A = set_sm i (\<lambda>s. s\<lparr>sm_RemoteMICFailures := sm_RemoteMICFailures s + 1\<rparr>) A;
                          A = A\<lparr>auth_RemoteMICFailures := auth_RemoteMICFailures A + 1\<rparr>
                      in (False, wpa_request_new_ptk i A))"

definition receive_request :: "nat \<Rightarrow> wpa_env \<Rightarrow> bytes \<Rightarrow> nat \<Rightarrow> wpa_authenticator \<Rightarrow> (bool \<times> wpa_authenticator) option" where
  "receive_request n env data i A =
     (let info = key_info data
      in if \<not> bit info WPA_KEY_INFO_SECURE \<or> \<not> MICVerified (stas A i) then Some (True, A)
         else let A = set_sm i (\<lambda>s. s\<lparr>req_replay_counter_used := True, req_replay_counter := key_replay_counter data\<rparr>) A
              in if bit info WPA_KEY_INFO_ERROR
                 then Some (wpa_receive_error_report env i (\<not> bit info WPA_KEY_INFO_KEY_TYPE) A)
                 else if bit info WPA_KEY_INFO_KEY_TYPE then Some (False, wpa_request_new_ptk i A)
                 else let A = emit (CancelWpaTimeout WpaRekeyGtk) A
                      in if wpa_auth_gtk_rekey_in_process A then Some (False, A)
                         else map_option (\<lambda>A. (False, A)) (wpa_rekey_gtk n env A))"

section \<open>The whole function\<close>

text \<open>Pending counters after a message: none is accepted again; those of message 1 are kept aside.\<close>

definition mark_counters :: "bytes \<Rightarrow> eapol_key_msg \<Rightarrow> wpa_sm \<Rightarrow> wpa_sm" where
  "mark_counters rc msg s =
     (let pending = wpa_replay_counter_mark_invalid (key_replay s) (Some rc)
      in s\<lparr>key_replay := wpa_replay_counter_mark_invalid pending None,
           prev_key_replay := (if msg = PAIRWISE_2 then pending else replicate RSNA_MAX_EAPOL_RETRIES no_counter)\<rparr>)"

definition store_message :: "bytes \<Rightarrow> wpa_sm \<Rightarrow> wpa_sm" where
  "store_message data s =
     s\<lparr>last_rx_eapol_key := Some data, rx_eapol_key_secure := bit (key_info data) WPA_KEY_INFO_SECURE,
       EAPOLKeyReceived := True, EAPOLKeyPairwise := bit (key_info data) WPA_KEY_INFO_KEY_TYPE,
       EAPOLKeyRequest := bit (key_info data) WPA_KEY_INFO_REQUEST, SNonce := key_nonce data\<rparr>"

text \<open>\<open>wpa_sta_disconnect\<close> outside the machines: its event runs them.\<close>

definition sta_disconnect_now :: "nat \<Rightarrow> wpa_env \<Rightarrow> nat \<Rightarrow> u16 \<Rightarrow> wpa_authenticator \<Rightarrow> wpa_authenticator option" where
  "sta_disconnect_now n env i reason A =
     (let a = sm_addr (stas A i); A = emit (StaDisconnect a reason) A
      in if ap_get_sta env (trace A) a then wpa_auth_sm_event n env WPA_DEAUTH i A else Some A)"

text \<open>What follows the verification of the MIC.\<close>

definition receive_verified :: "nat \<Rightarrow> wpa_env \<Rightarrow> bytes \<Rightarrow> eapol_key_msg \<Rightarrow> nat \<Rightarrow> wpa_authenticator \<Rightarrow> wpa_authenticator option" where
  "receive_verified n env data msg i A =
     do {
       (stop, A) \<leftarrow> (if msg = REQUEST then receive_request n env data i A
                     else Some (False, set_sm i (mark_counters (key_replay_counter data) msg) A));
       if stop then Some A else wpa_sm_step n env i (set_sm i (store_message data) A)
     }"

definition wpa_receive :: "nat \<Rightarrow> wpa_env \<Rightarrow> bytes \<Rightarrow> nat \<Rightarrow> wpa_authenticator \<Rightarrow> wpa_authenticator option" where
  "wpa_receive n env data i A =
     (case receive_message env A (stas A i) data of
        None \<Rightarrow> Some A
      | Some msg \<Rightarrow>
          let (ok, A) = wpa_auth_valid_counter data msg i A
          in if \<not> ok \<or> \<not> message_expected (stas A i) msg then Some A
             else let A = (if msg = PAIRWISE_2 then emit (AddRandomness (key_nonce data)) A else A)
                  in if msg = PAIRWISE_2 \<and> reject_4way_hs_for_entropy (groups A (sm_group (stas A i)))
                     then sta_disconnect_now n env i 2 (emit PoolReady A)
                     else if bit (key_info data) WPA_KEY_INFO_ACK then Some A
                     else if \<not> wpa_key_mgmt_fils (wpa_key_mgmt (stas A i)) \<and> \<not> bit (key_info data) WPA_KEY_INFO_MIC then Some A
                     else let (ok, A) = receive_mic env data msg i A
                          in if ok then receive_verified n env data msg i A else Some A)"

end
