(* ===== verification/Wpa_Stations.thy ===== *)
theory Wpa_Stations
  imports Wpa_Receive
begin

text \<open>
  The interface between the group machine and the machines of the stations. The group machine runs
  the machines of stations when it starts a rekeying; what it needs of them is that they keep an
  invariant of the authenticator, and what it does itself keeps every invariant that is closed under
  a few elementary changes. The operations on groups are clients of the locale; the machines of the
  stations provide it.
\<close>

section \<open>Calls that the operations on groups make\<close>

fun group_call :: "wpa_out \<Rightarrow> bool" where
  "group_call (SetKey vlan alg addr idx key flag) \<longleftrightarrow> flag = KEY_FLAG_GROUP_TX_DEFAULT"
| "group_call (GetRandom n) \<longleftrightarrow> True"
| "group_call GetTime \<longleftrightarrow> True"
| "group_call (GetSeqnum idx) \<longleftrightarrow> True"
| "group_call (WpaTimeout ms t) \<longleftrightarrow> True"
| "group_call (CancelWpaTimeout t) \<longleftrightarrow> True"
| "group_call _ \<longleftrightarrow> False"

section \<open>The interface\<close>

text \<open>An invariant that the operations on groups keep.\<close>

locale wpa_groups =
  fixes J :: "wpa_authenticator \<Rightarrow> bool"
  assumes J_emit: "J A \<Longrightarrow> group_call x \<Longrightarrow> J (emit x A)"
    and J_set_group: "J A \<Longrightarrow> J (set_group g f A)"
    and J_groups: "J A \<Longrightarrow> J (A\<lparr>next_group := n, groups := gs\<rparr>)"
    and J_group_list: "J A \<Longrightarrow> J (A\<lparr>group_list := l\<rparr>)"
    and J_updated: "J A \<Longrightarrow> J (set_sm i (\<lambda>s. s\<lparr>GUpdateStationKeys := False\<rparr>) A)"
    and J_update: "J A \<Longrightarrow> wpa_ptk_state (stas A i) = WPA_PTK_PTKINITDONE \<Longrightarrow>
                   J (set_sm i (\<lambda>s. s\<lparr>GUpdateStationKeys := True\<rparr>) A)"
    and J_disconnect: "J A \<Longrightarrow> J (set_sm i (\<lambda>s. s\<lparr>Disconnect := True\<rparr>) A)"
begin

lemma J_random: "J A \<Longrightarrow> J (snd (random_get_bytes env n A))"
  by (simp add: random_get_bytes_def Let_def J_emit)

lemma J_time: "J A \<Longrightarrow> J (snd (get_ntp_timestamp env A))"
  by (simp add: get_ntp_timestamp_def Let_def J_emit)

lemma J_seqnum: "J A \<Longrightarrow> J (snd (wpa_auth_get_seqnum env idx A))"
  by (simp add: wpa_auth_get_seqnum_def Let_def J_emit)

lemma J_set_group_key: "J A \<Longrightarrow> J (snd (wpa_auth_set_key env vlan alg addr idx key KEY_FLAG_GROUP_TX_DEFAULT A))"
  by (simp add: wpa_auth_set_key_def Let_def J_emit)

lemma J_gmk_to_gtk: "J A \<Longrightarrow> J (snd (snd (wpa_gmk_to_gtk env gmk label gnonce n A)))"
  using J_random [OF J_time] by (simp add: wpa_gmk_to_gtk_def Let_def split_beta)

lemma J_derive_group_key: "J A \<Longrightarrow> J (snd (derive_group_key env g label n store A))"
  by (auto simp: derive_group_key_def Let_def split_beta intro!: J_gmk_to_gtk J_set_group split: option.split)

lemma J_gtk_update: "J A \<Longrightarrow> J (snd (wpa_gtk_update env g A))"
  by (auto simp: wpa_gtk_update_def Let_def split_beta intro!: J_derive_group_key J_set_group)

lemma J_config_group_keys: "J A \<Longrightarrow> J (snd (wpa_group_config_group_keys env g A))"
  by (auto simp: wpa_group_config_group_keys_def Let_def split_beta intro!: J_set_group_key J_set_group)

lemma J_init_gmk_and_counter: "J A \<Longrightarrow> J (snd (wpa_group_init_gmk_and_counter env g A))"
  by (auto simp: wpa_group_init_gmk_and_counter_def Let_def split_beta
      intro!: J_random J_time J_set_group split: option.split)

lemma J_gkeydone: "J A \<Longrightarrow> J (wpa_gkeydone_sta i A)"
  by (simp add: wpa_gkeydone_sta_def J_updated J_set_group)

lemma J_group_get: "J A \<Longrightarrow> J (wpa_group_get g A)"
  by (simp add: wpa_group_get_def J_set_group)

lemma J_group_put: "J A \<Longrightarrow> J (wpa_group_put g A)"
  by (simp add: wpa_group_put_def wpa_group_free_def Let_def J_set_group J_group_list)

lemma J_for_each_sta:
  assumes "\<And>i A A'. J A \<Longrightarrow> cb i A = Some A' \<Longrightarrow> J A'"
  shows "J A \<Longrightarrow> wpa_auth_for_each_sta cb is A = Some A' \<Longrightarrow> J A'"
  using assms by (induction "is" arbitrary: A) (auto split: Option.bind_splits)

lemma J_gtk_init: "J A \<Longrightarrow> J (wpa_group_gtk_init env g A)"
  by (simp add: wpa_group_gtk_init_def J_gtk_update J_set_group)

lemma J_update_gtk: "J A \<Longrightarrow> J (wpa_group_update_gtk env g A)"
  by (simp add: wpa_group_update_gtk_def J_gtk_update J_set_group)

lemma J_fatal_failure: "J A \<Longrightarrow> J (wpa_group_fatal_failure g A)"
proof -
  have "J B \<Longrightarrow> J (fold (wpa_group_disconnect_cb g) is B)" for B "is"
    by (induction "is" arbitrary: B) (simp_all add: wpa_group_disconnect_cb_def J_disconnect)
  then show "J A \<Longrightarrow> ?thesis" by (simp add: wpa_group_fatal_failure_def J_set_group)
qed

lemma J_setkeysdone: "J A \<Longrightarrow> J (wpa_group_setkeysdone env g A)"
  by (simp add: wpa_group_setkeysdone_def Let_def split_beta J_config_group_keys J_set_group J_fatal_failure)

lemma J_ensure_init: "J A \<Longrightarrow> J (wpa_group_ensure_init env g A)"
  by (auto simp: wpa_group_ensure_init_def Let_def split_beta
      intro!: J_config_group_keys J_gtk_update J_init_gmk_and_counter J_set_group)

lemma J_group_init: "J A \<Longrightarrow> J (snd (wpa_group_init env vlan delay A))"
  by (auto simp: wpa_group_init_def Let_def split_beta
      intro!: J_setkeysdone J_gtk_init J_init_gmk_and_counter J_set_group J_groups)

lemma J_find_or_add_group: "J A \<Longrightarrow> J (snd (find_or_add_group env vlan A))"
  by (auto simp: find_or_add_group_def wpa_auth_add_group_def Let_def split_beta
      intro!: J_group_list J_group_init split: option.split)

end

text \<open>The machines of the stations keep it as well; then so does the group machine.\<close>

locale wpa_stations = wpa_groups J for J :: "wpa_authenticator \<Rightarrow> bool" +
  fixes step :: sm_step
  assumes J_step: "J A \<Longrightarrow> step i A = Some A' \<Longrightarrow> J A'"
begin

lemma J_update_sta: "J A \<Longrightarrow> wpa_group_update_sta step ctx i A = Some A' \<Longrightarrow> J A'"
  by (auto simp: wpa_group_update_sta_def Let_def J_updated split: if_splits
      elim!: J_step [rotated] intro!: J_update J_set_group)

lemma J_setkeys: "J A \<Longrightarrow> wpa_group_setkeys env step g A = Some A' \<Longrightarrow> J A'"
  unfolding wpa_group_setkeys_def Let_def
  by (erule J_for_each_sta [rotated -1]) (auto intro: J_update_sta intro!: J_set_group J_update_gtk)

theorem J_group_sm_step: "J A \<Longrightarrow> wpa_group_sm_step env step g A = Some A' \<Longrightarrow> J A'"
  by (auto simp: wpa_group_sm_step_def Let_def J_gtk_init J_setkeysdone J_setkeys split: if_splits)

end

section \<open>Parameters set by the rest of the access point\<close>

definition wpa_auth_set_dpp_z :: "bytes option \<Rightarrow> nat \<Rightarrow> wpa_authenticator \<Rightarrow> wpa_authenticator" where
  "wpa_auth_set_dpp_z z i A = set_sm i (\<lambda>s. s\<lparr>dpp_z := z\<rparr>) A"

definition wpa_auth_set_ssid_protection :: "bool \<Rightarrow> nat \<Rightarrow> wpa_authenticator \<Rightarrow> wpa_authenticator" where
  "wpa_auth_set_ssid_protection b i A = set_sm i (\<lambda>s. s\<lparr>ssid_protection := b\<rparr>) A"

definition wpa_auth_set_transition_disable :: "byte \<Rightarrow> wpa_authenticator \<Rightarrow> wpa_authenticator" where
  "wpa_auth_set_transition_disable b A = A\<lparr>conf := (conf A)\<lparr>transition_disable := b\<rparr>\<rparr>"

end
