(* ===== verification/Wpa_Elements.thy ===== *)
theory Wpa_Elements
  imports Wpa_State
begin

text \<open>
  The RSN and WPA elements: the writers of \<open>src/ap/wpa_auth_ie.c\<close>, which advertise the suites of the
  configuration, the parsers of \<open>src/common/wpa_common.c\<close>, and \<open>wpa_validate_wpa_ie\<close>, which decides
  on the association of a station and sets its parameters from the element in its request.

  A parser reads with a check of every access (\<open>None\<close> for a read outside the element), a writer with
  a check against the length of its buffer. A selector is the number with its four bytes.
\<close>

section \<open>Selectors\<close>

abbreviation (input) WPA_PROTO_WPA :: u32 where "WPA_PROTO_WPA \<equiv> 0x1"
abbreviation (input) WPA_PROTO_RSN :: u32 where "WPA_PROTO_RSN \<equiv> 0x2"
abbreviation (input) WPA_PROTO_OSEN :: u32 where "WPA_PROTO_OSEN \<equiv> 0x8"

abbreviation (input) WPA_AUTH_KEY_MGMT_NONE :: nat where "WPA_AUTH_KEY_MGMT_NONE \<equiv> 0x0050f200"
abbreviation (input) WPA_AUTH_KEY_MGMT_UNSPEC_802_1X :: nat where "WPA_AUTH_KEY_MGMT_UNSPEC_802_1X \<equiv> 0x0050f201"
abbreviation (input) WPA_AUTH_KEY_MGMT_PSK_OVER_802_1X :: nat where "WPA_AUTH_KEY_MGMT_PSK_OVER_802_1X \<equiv> 0x0050f202"
abbreviation (input) WPA_CIPHER_SUITE_NONE :: nat where "WPA_CIPHER_SUITE_NONE \<equiv> 0x0050f200"
abbreviation (input) WPA_CIPHER_SUITE_TKIP :: nat where "WPA_CIPHER_SUITE_TKIP \<equiv> 0x0050f202"
abbreviation (input) WPA_CIPHER_SUITE_CCMP :: nat where "WPA_CIPHER_SUITE_CCMP \<equiv> 0x0050f204"

abbreviation (input) RSN_AUTH_KEY_MGMT_UNSPEC_802_1X :: nat where "RSN_AUTH_KEY_MGMT_UNSPEC_802_1X \<equiv> 0x000fac01"
abbreviation (input) RSN_AUTH_KEY_MGMT_PSK_OVER_802_1X :: nat where "RSN_AUTH_KEY_MGMT_PSK_OVER_802_1X \<equiv> 0x000fac02"
abbreviation (input) RSN_AUTH_KEY_MGMT_802_1X_SHA256 :: nat where "RSN_AUTH_KEY_MGMT_802_1X_SHA256 \<equiv> 0x000fac05"
abbreviation (input) RSN_AUTH_KEY_MGMT_PSK_SHA256 :: nat where "RSN_AUTH_KEY_MGMT_PSK_SHA256 \<equiv> 0x000fac06"
abbreviation (input) RSN_AUTH_KEY_MGMT_802_1X_SUITE_B :: nat where "RSN_AUTH_KEY_MGMT_802_1X_SUITE_B \<equiv> 0x000fac0b"
abbreviation (input) RSN_AUTH_KEY_MGMT_802_1X_SUITE_B_192 :: nat where "RSN_AUTH_KEY_MGMT_802_1X_SUITE_B_192 \<equiv> 0x000fac0c"
abbreviation (input) RSN_AUTH_KEY_MGMT_FILS_SHA256 :: nat where "RSN_AUTH_KEY_MGMT_FILS_SHA256 \<equiv> 0x000fac0e"
abbreviation (input) RSN_AUTH_KEY_MGMT_FILS_SHA384 :: nat where "RSN_AUTH_KEY_MGMT_FILS_SHA384 \<equiv> 0x000fac0f"
abbreviation (input) RSN_AUTH_KEY_MGMT_FT_FILS_SHA256 :: nat where "RSN_AUTH_KEY_MGMT_FT_FILS_SHA256 \<equiv> 0x000fac10"
abbreviation (input) RSN_AUTH_KEY_MGMT_FT_FILS_SHA384 :: nat where "RSN_AUTH_KEY_MGMT_FT_FILS_SHA384 \<equiv> 0x000fac11"
abbreviation (input) RSN_AUTH_KEY_MGMT_802_1X_SHA384 :: nat where "RSN_AUTH_KEY_MGMT_802_1X_SHA384 \<equiv> 0x000fac17"
abbreviation (input) RSN_AUTH_KEY_MGMT_OSEN :: nat where "RSN_AUTH_KEY_MGMT_OSEN \<equiv> 0x506f9a01"
abbreviation (input) RSN_AUTH_KEY_MGMT_DPP :: nat where "RSN_AUTH_KEY_MGMT_DPP \<equiv> 0x506f9a02"

abbreviation (input) RSN_CIPHER_SUITE_NONE :: nat where "RSN_CIPHER_SUITE_NONE \<equiv> 0x000fac00"
abbreviation (input) RSN_CIPHER_SUITE_TKIP :: nat where "RSN_CIPHER_SUITE_TKIP \<equiv> 0x000fac02"
abbreviation (input) RSN_CIPHER_SUITE_CCMP :: nat where "RSN_CIPHER_SUITE_CCMP \<equiv> 0x000fac04"
abbreviation (input) RSN_CIPHER_SUITE_AES_128_CMAC :: nat where "RSN_CIPHER_SUITE_AES_128_CMAC \<equiv> 0x000fac06"
abbreviation (input) RSN_CIPHER_SUITE_NO_GROUP_ADDRESSED :: nat where "RSN_CIPHER_SUITE_NO_GROUP_ADDRESSED \<equiv> 0x000fac07"
abbreviation (input) RSN_CIPHER_SUITE_GCMP :: nat where "RSN_CIPHER_SUITE_GCMP \<equiv> 0x000fac08"
abbreviation (input) RSN_CIPHER_SUITE_GCMP_256 :: nat where "RSN_CIPHER_SUITE_GCMP_256 \<equiv> 0x000fac09"
abbreviation (input) RSN_CIPHER_SUITE_CCMP_256 :: nat where "RSN_CIPHER_SUITE_CCMP_256 \<equiv> 0x000fac0a"
abbreviation (input) RSN_CIPHER_SUITE_BIP_GMAC_128 :: nat where "RSN_CIPHER_SUITE_BIP_GMAC_128 \<equiv> 0x000fac0b"
abbreviation (input) RSN_CIPHER_SUITE_BIP_GMAC_256 :: nat where "RSN_CIPHER_SUITE_BIP_GMAC_256 \<equiv> 0x000fac0c"
abbreviation (input) RSN_CIPHER_SUITE_BIP_CMAC_256 :: nat where "RSN_CIPHER_SUITE_BIP_CMAC_256 \<equiv> 0x000fac0d"

text \<open>A chain of comparisons of a selector is a table, in the order of the comparisons.\<close>

definition suite_of :: "(nat \<times> u32) list \<Rightarrow> nat \<Rightarrow> u32" where
  "suite_of table s = (case map_of table s of Some w \<Rightarrow> w | None \<Rightarrow> 0)"

definition rsn_selector_to_bitfield :: "nat \<Rightarrow> u32" where
  "rsn_selector_to_bitfield = suite_of
     [(RSN_CIPHER_SUITE_NONE, WPA_CIPHER_NONE), (RSN_CIPHER_SUITE_TKIP, WPA_CIPHER_TKIP),
      (RSN_CIPHER_SUITE_CCMP, WPA_CIPHER_CCMP), (RSN_CIPHER_SUITE_AES_128_CMAC, WPA_CIPHER_AES_128_CMAC),
      (RSN_CIPHER_SUITE_GCMP, WPA_CIPHER_GCMP), (RSN_CIPHER_SUITE_CCMP_256, WPA_CIPHER_CCMP_256),
      (RSN_CIPHER_SUITE_GCMP_256, WPA_CIPHER_GCMP_256), (RSN_CIPHER_SUITE_BIP_GMAC_128, WPA_CIPHER_BIP_GMAC_128),
      (RSN_CIPHER_SUITE_BIP_GMAC_256, WPA_CIPHER_BIP_GMAC_256), (RSN_CIPHER_SUITE_BIP_CMAC_256, WPA_CIPHER_BIP_CMAC_256),
      (RSN_CIPHER_SUITE_NO_GROUP_ADDRESSED, WPA_CIPHER_GTK_NOT_USED)]"

definition rsn_key_mgmt_to_bitfield :: "nat \<Rightarrow> u32" where
  "rsn_key_mgmt_to_bitfield = suite_of
     [(RSN_AUTH_KEY_MGMT_UNSPEC_802_1X, WPA_KEY_MGMT_IEEE8021X), (RSN_AUTH_KEY_MGMT_PSK_OVER_802_1X, WPA_KEY_MGMT_PSK),
      (RSN_AUTH_KEY_MGMT_802_1X_SHA384, WPA_KEY_MGMT_IEEE8021X_SHA384),
      (RSN_AUTH_KEY_MGMT_802_1X_SHA256, WPA_KEY_MGMT_IEEE8021X_SHA256), (RSN_AUTH_KEY_MGMT_PSK_SHA256, WPA_KEY_MGMT_PSK_SHA256),
      (RSN_AUTH_KEY_MGMT_802_1X_SUITE_B, WPA_KEY_MGMT_IEEE8021X_SUITE_B),
      (RSN_AUTH_KEY_MGMT_802_1X_SUITE_B_192, WPA_KEY_MGMT_IEEE8021X_SUITE_B_192),
      (RSN_AUTH_KEY_MGMT_FILS_SHA256, WPA_KEY_MGMT_FILS_SHA256), (RSN_AUTH_KEY_MGMT_FILS_SHA384, WPA_KEY_MGMT_FILS_SHA384),
      (RSN_AUTH_KEY_MGMT_FT_FILS_SHA256, WPA_KEY_MGMT_FT_FILS_SHA256),
      (RSN_AUTH_KEY_MGMT_FT_FILS_SHA384, WPA_KEY_MGMT_FT_FILS_SHA384),
      (RSN_AUTH_KEY_MGMT_DPP, WPA_KEY_MGMT_DPP), (RSN_AUTH_KEY_MGMT_OSEN, WPA_KEY_MGMT_OSEN)]"

definition wpa_selector_to_bitfield :: "nat \<Rightarrow> u32" where
  "wpa_selector_to_bitfield = suite_of
     [(WPA_CIPHER_SUITE_NONE, WPA_CIPHER_NONE), (WPA_CIPHER_SUITE_TKIP, WPA_CIPHER_TKIP), (WPA_CIPHER_SUITE_CCMP, WPA_CIPHER_CCMP)]"

definition wpa_key_mgmt_to_bitfield :: "nat \<Rightarrow> u32" where
  "wpa_key_mgmt_to_bitfield = suite_of
     [(WPA_AUTH_KEY_MGMT_UNSPEC_802_1X, WPA_KEY_MGMT_IEEE8021X), (WPA_AUTH_KEY_MGMT_PSK_OVER_802_1X, WPA_KEY_MGMT_PSK),
      (WPA_AUTH_KEY_MGMT_NONE, WPA_KEY_MGMT_WPA_NONE)]"

text \<open>The first suite of a table that is in a set, and the selectors of all that are.\<close>

definition first_suite :: "(u32 \<times> 'a) list \<Rightarrow> u32 \<Rightarrow> 'a option" where
  "first_suite table w = map_option snd (List.find (\<lambda>(c, x). w AND c \<noteq> 0) table)"

definition put_suites :: "(u32 \<times> nat) list \<Rightarrow> u32 \<Rightarrow> nat list" where
  "put_suites table w = map snd (filter (\<lambda>(c, s). w AND c \<noteq> 0) table)"

definition wpa_cipher_to_suite :: "u32 \<Rightarrow> u32 \<Rightarrow> nat" where
  "wpa_cipher_to_suite proto cipher =
     (case first_suite
        [(WPA_CIPHER_CCMP_256, RSN_CIPHER_SUITE_CCMP_256), (WPA_CIPHER_GCMP_256, RSN_CIPHER_SUITE_GCMP_256),
         (WPA_CIPHER_CCMP, if proto = WPA_PROTO_RSN then RSN_CIPHER_SUITE_CCMP else WPA_CIPHER_SUITE_CCMP),
         (WPA_CIPHER_GCMP, RSN_CIPHER_SUITE_GCMP),
         (WPA_CIPHER_TKIP, if proto = WPA_PROTO_RSN then RSN_CIPHER_SUITE_TKIP else WPA_CIPHER_SUITE_TKIP),
         (WPA_CIPHER_NONE, if proto = WPA_PROTO_RSN then RSN_CIPHER_SUITE_NONE else WPA_CIPHER_SUITE_NONE),
         (WPA_CIPHER_GTK_NOT_USED, RSN_CIPHER_SUITE_NO_GROUP_ADDRESSED), (WPA_CIPHER_AES_128_CMAC, RSN_CIPHER_SUITE_AES_128_CMAC),
         (WPA_CIPHER_BIP_GMAC_128, RSN_CIPHER_SUITE_BIP_GMAC_128), (WPA_CIPHER_BIP_GMAC_256, RSN_CIPHER_SUITE_BIP_GMAC_256),
         (WPA_CIPHER_BIP_CMAC_256, RSN_CIPHER_SUITE_BIP_CMAC_256)] cipher
      of Some s \<Rightarrow> s | None \<Rightarrow> 0)"

definition rsn_cipher_put_suites :: "u32 \<Rightarrow> nat list" where
  "rsn_cipher_put_suites = put_suites
     [(WPA_CIPHER_CCMP_256, RSN_CIPHER_SUITE_CCMP_256), (WPA_CIPHER_GCMP_256, RSN_CIPHER_SUITE_GCMP_256),
      (WPA_CIPHER_CCMP, RSN_CIPHER_SUITE_CCMP), (WPA_CIPHER_GCMP, RSN_CIPHER_SUITE_GCMP),
      (WPA_CIPHER_TKIP, RSN_CIPHER_SUITE_TKIP), (WPA_CIPHER_NONE, RSN_CIPHER_SUITE_NONE)]"

definition wpa_cipher_put_suites :: "u32 \<Rightarrow> nat list" where
  "wpa_cipher_put_suites = put_suites
     [(WPA_CIPHER_CCMP, WPA_CIPHER_SUITE_CCMP), (WPA_CIPHER_TKIP, WPA_CIPHER_SUITE_TKIP), (WPA_CIPHER_NONE, WPA_CIPHER_SUITE_NONE)]"

text \<open>The cipher to use out of a set; \<open>None\<close> is the result -1.\<close>

definition wpa_pick_pairwise_cipher :: "u32 \<Rightarrow> bool \<Rightarrow> u32 option" where
  "wpa_pick_pairwise_cipher ciphers none_allowed = first_suite
     ([(WPA_CIPHER_CCMP_256, WPA_CIPHER_CCMP_256), (WPA_CIPHER_GCMP_256, WPA_CIPHER_GCMP_256),
       (WPA_CIPHER_CCMP, WPA_CIPHER_CCMP), (WPA_CIPHER_GCMP, WPA_CIPHER_GCMP), (WPA_CIPHER_TKIP, WPA_CIPHER_TKIP)] @
      (if none_allowed then [(WPA_CIPHER_NONE, WPA_CIPHER_NONE)] else [])) ciphers"

definition wpa_default_rsn_cipher :: "int \<Rightarrow> u32" where
  "wpa_default_rsn_cipher freq = (if freq > 56160 then WPA_CIPHER_GCMP else WPA_CIPHER_CCMP)"

section \<open>Writing elements\<close>

text \<open>Writing behind what is in a buffer of \<open>len\<close> bytes; \<open>None\<close> would write outside it.\<close>

definition put_bytes :: "nat \<Rightarrow> bytes \<Rightarrow> bytes \<Rightarrow> bytes option" where
  "put_bytes len bs buf = (if length buf + length bs \<le> len then Some (buf @ bs) else None)"

definition put_le16 :: "nat \<Rightarrow> bytes" where
  "put_le16 n = [of_nat n, of_nat (n div 256)]"

text \<open>A list of suites with its count in front; -1 if it is empty.\<close>

definition write_suites :: "nat \<Rightarrow> nat list \<Rightarrow> bytes \<Rightarrow> (int + bytes) option" where
  "write_suites len ss buf =
     (if ss = [] then Some (Inl (- 1))
      else map_option Inr (put_bytes len (put_le16 (length ss) @ concat (map put_be32 ss)) buf))"

definition wpa_akm_put_suites :: "u32 \<Rightarrow> nat list" where
  "wpa_akm_put_suites = put_suites
     [(WPA_KEY_MGMT_IEEE8021X, WPA_AUTH_KEY_MGMT_UNSPEC_802_1X), (WPA_KEY_MGMT_PSK, WPA_AUTH_KEY_MGMT_PSK_OVER_802_1X)]"

definition rsn_akm_put_suites :: "u32 \<Rightarrow> nat list" where
  "rsn_akm_put_suites = put_suites
     [(WPA_KEY_MGMT_IEEE8021X, RSN_AUTH_KEY_MGMT_UNSPEC_802_1X), (WPA_KEY_MGMT_PSK, RSN_AUTH_KEY_MGMT_PSK_OVER_802_1X),
      (WPA_KEY_MGMT_IEEE8021X_SHA384, RSN_AUTH_KEY_MGMT_802_1X_SHA384),
      (WPA_KEY_MGMT_IEEE8021X_SHA256, RSN_AUTH_KEY_MGMT_802_1X_SHA256), (WPA_KEY_MGMT_PSK_SHA256, RSN_AUTH_KEY_MGMT_PSK_SHA256),
      (WPA_KEY_MGMT_IEEE8021X_SUITE_B, RSN_AUTH_KEY_MGMT_802_1X_SUITE_B),
      (WPA_KEY_MGMT_IEEE8021X_SUITE_B_192, RSN_AUTH_KEY_MGMT_802_1X_SUITE_B_192),
      (WPA_KEY_MGMT_DPP, RSN_AUTH_KEY_MGMT_DPP)]"

text \<open>The last step of the writers: the length byte of the element.\<close>

definition set_element_len :: "bytes \<Rightarrow> bytes" where
  "set_element_len el = el[1 := of_nat (length el - 2)]"

definition wpa_write_wpa_ie :: "wpa_auth_config \<Rightarrow> nat \<Rightarrow> (int + bytes) option" where
  "wpa_write_wpa_ie cf len = do {
     el \<leftarrow> put_bytes len ([221, 0] @ put_be32 WPA_OUI_TYPE @ put_le16 1) [];
     let suite = wpa_cipher_to_suite WPA_PROTO_WPA (wpa_group_cipher cf);
     if suite = 0 then Some (Inl (- 1))
     else do {
       el \<leftarrow> put_bytes len (put_be32 suite) el;
       r \<leftarrow> write_suites len (wpa_cipher_put_suites (wpa_pairwise cf)) el;
       case r of Inl e \<Rightarrow> Some (Inl e) | Inr el \<Rightarrow> do {
         r \<leftarrow> write_suites len (wpa_akm_put_suites (conf_key_mgmt cf)) el;
         Some (map_sum id set_element_len r)
       }
     }
   }"

definition wpa_own_rsn_capab :: "wpa_auth_config \<Rightarrow> u16" where
  "wpa_own_rsn_capab cf =
     (if rsn_preauth cf then 0x1 else 0) OR (if wmm_enabled cf then 0xc else 0) OR
     (if ieee80211w cf \<noteq> NO_MGMT_FRAME_PROTECTION then 0x80 else 0) OR
     (if ieee80211w cf = MGMT_FRAME_PROTECTION_REQUIRED then 0x40 else 0) OR
     (if extended_key_id cf \<noteq> 0 then 0x2000 else 0)"

text \<open>The suite of the switch over \<open>group_mgmt_cipher\<close>.\<close>

definition mgmt_group_suite :: "u32 \<Rightarrow> nat option" where
  "mgmt_group_suite c = map_of
     [(WPA_CIPHER_AES_128_CMAC, RSN_CIPHER_SUITE_AES_128_CMAC), (WPA_CIPHER_BIP_GMAC_128, RSN_CIPHER_SUITE_BIP_GMAC_128),
      (WPA_CIPHER_BIP_GMAC_256, RSN_CIPHER_SUITE_BIP_GMAC_256), (WPA_CIPHER_BIP_CMAC_256, RSN_CIPHER_SUITE_BIP_CMAC_256)] c"

definition write_pmkid :: "nat \<Rightarrow> bytes option \<Rightarrow> bytes \<Rightarrow> (int + bytes) option" where
  "write_pmkid len pmkid el =
     (case pmkid of None \<Rightarrow> Some (Inr el)
      | Some p \<Rightarrow> if length el + 18 > len then Some (Inl (- 1)) else map_option Inr (put_bytes len (put_le16 1 @ p) el))"

definition write_mgmt_group :: "wpa_auth_config \<Rightarrow> nat \<Rightarrow> bool \<Rightarrow> bytes \<Rightarrow> (int + bytes) option" where
  "write_mgmt_group cf len has_pmkid el =
     (if ieee80211w cf \<noteq> NO_MGMT_FRAME_PROTECTION \<and> group_mgmt_cipher cf \<noteq> WPA_CIPHER_AES_128_CMAC then
        (if length el + 6 > len then Some (Inl (- 1))
         else do {
           el \<leftarrow> (if has_pmkid then Some el else put_bytes len (put_le16 0) el);
           case mgmt_group_suite (group_mgmt_cipher cf) of
             None \<Rightarrow> Some (Inl (- 1))
           | Some s \<Rightarrow> map_option Inr (put_bytes len (put_be32 s) el)
         })
      else Some (Inr el))"

definition wpa_write_rsn_ie :: "wpa_auth_config \<Rightarrow> nat \<Rightarrow> bytes option \<Rightarrow> (int + bytes) option" where
  "wpa_write_rsn_ie cf len pmkid = do {
     el \<leftarrow> put_bytes len ([48, 0] @ put_le16 1) [];
     let suite = wpa_cipher_to_suite WPA_PROTO_RSN (wpa_group_cipher cf);
     if suite = 0 then Some (Inl (- 1))
     else do {
       el \<leftarrow> put_bytes len (put_be32 suite) el;
       r \<leftarrow> write_suites len (rsn_cipher_put_suites (rsn_pairwise cf)) el;
       case r of Inl e \<Rightarrow> Some (Inl e) | Inr el \<Rightarrow> do {
         r \<leftarrow> write_suites len (rsn_akm_put_suites (conf_key_mgmt cf)) el;
         case r of Inl e \<Rightarrow> Some (Inl e) | Inr el \<Rightarrow> do {
           el \<leftarrow> put_bytes len (put_le16 (unat (wpa_own_rsn_capab cf))) el;
           r \<leftarrow> write_pmkid len pmkid el;
           case r of Inl e \<Rightarrow> Some (Inl e) | Inr el \<Rightarrow> do {
             r \<leftarrow> write_mgmt_group cf len (pmkid \<noteq> None) el;
             Some (map_sum id set_element_len r)
           }
         }
       }
     }
   }"

text \<open>
  The RSN extension element has as many bytes of capabilities as are needed. The loops of
  \<open>wpa_write_rsnxe\<close> shift the capabilities until nothing is left of them.
\<close>

lemma unat_drop_bit_less: "w \<noteq> 0 \<Longrightarrow> unat (drop_bit 8 w :: u32) < unat w"
  by (simp add: drop_bit_eq_div unat_div unat_gt_0)

function capab_len :: "u32 \<Rightarrow> nat" where
  "capab_len w = (if w = 0 then 0 else Suc (capab_len (drop_bit 8 w)))"
  by pat_completeness auto
termination by (relation "measure unat") (auto intro: unat_drop_bit_less)

function capab_bytes :: "u32 \<Rightarrow> bytes" where
  "capab_bytes w = (if w = 0 then [] else ucast w # capab_bytes (drop_bit 8 w))"
  by pat_completeness auto
termination by (relation "measure unat") (auto intro: unat_drop_bit_less)

declare capab_len.simps [simp del] capab_bytes.simps [simp del]

definition rsnx_capab :: "wpa_auth_config \<Rightarrow> u32" where
  "rsnx_capab cf =
     (let sae = wpa_key_mgmt_sae (conf_key_mgmt cf) \<and>
                (sae_pwe cf = 1 \<or> sae_pwe cf = 2 \<or> sae_pk cf \<or> wpa_key_mgmt_sae_ext_key (conf_key_mgmt cf))
      in (if sae then 0x20 else 0) OR (if secure_ltf cf then 0x100 else 0) OR (if secure_rtt cf then 0x200 else 0) OR
         (if prot_range_neg cf then 0x8000 else 0) OR (if conf_ssid_protection cf then 0x200000 else 0))"

definition wpa_write_rsnxe :: "wpa_auth_config \<Rightarrow> nat \<Rightarrow> (int + bytes) option" where
  "wpa_write_rsnxe cf len =
     (let capab = rsnx_capab cf; flen = capab_len capab
      in if capab = 0 then Some (Inr [])
         else if len < 2 + flen then Some (Inl (- 1))
         else map_option Inr (put_bytes len ([244, of_nat flen] @ capab_bytes (capab OR of_nat (flen - 1))) []))"

definition wpa_write_osen :: "wpa_auth_config \<Rightarrow> bytes" where
  "wpa_write_osen cf =
     (let capab = (if wmm_enabled cf then 0xc else 0) OR
                  (if ieee80211w cf \<noteq> NO_MGMT_FRAME_PROTECTION then 0x80 else 0) OR
                  (if ieee80211w cf = MGMT_FRAME_PROTECTION_REQUIRED then 0x40 else 0 :: u16);
          body = put_be24 0x506f9a @ [18] @ put_be32 RSN_CIPHER_SUITE_NO_GROUP_ADDRESSED @
                 put_le16 1 @ put_be32 RSN_CIPHER_SUITE_CCMP @ put_le16 1 @ put_be32 RSN_AUTH_KEY_MGMT_OSEN @
                 put_le16 (unat capab)
      in [221, of_nat (length body)] @ body)"

text \<open>The elements of the access point, written into a buffer of 128 bytes. A negative result leaves the old ones.\<close>

definition own_elements :: "wpa_auth_config \<Rightarrow> (int + bytes) option" where
  "own_elements cf = do {
     buf \<leftarrow> (if conf_wpa cf = WPA_PROTO_OSEN then put_bytes 128 (wpa_write_osen cf) [] else Some []);
     r \<leftarrow> (if conf_wpa cf AND WPA_PROTO_RSN = 0 then Some (Inr buf)
           else do {
             r \<leftarrow> wpa_write_rsn_ie cf (128 - length buf) None;
             case r of Inl e \<Rightarrow> Some (Inl e) | Inr el \<Rightarrow> do {
               let buf = buf @ el;
               r \<leftarrow> wpa_write_rsnxe cf (128 - length buf);
               Some (map_sum id ((@) buf) r)
             }
           });
     case r of Inl e \<Rightarrow> Some (Inl e) | Inr buf \<Rightarrow>
       if conf_wpa cf AND WPA_PROTO_WPA = 0 then Some (Inr buf)
       else do {
         r \<leftarrow> wpa_write_wpa_ie cf (128 - length buf);
         Some (map_sum id ((@) buf) r)
       }
   }"

text \<open>
  The old elements are freed before memory for the new ones is asked for, so without memory there
  are none left. (Their stored length keeps its old value then; here it is the length of the list.)
\<close>

definition wpa_auth_gen_wpa_ie :: "wpa_env \<Rightarrow> wpa_authenticator \<Rightarrow> (int \<times> wpa_authenticator) option" where
  "wpa_auth_gen_wpa_ie env A =
     map_option (\<lambda>r. case r of
         Inl e \<Rightarrow> (e, A)
       | Inr ie \<Rightarrow>
           let A = A\<lparr>auth_wpa_ie := []\<rparr>; (ok, A) = os_malloc env (length ie) A
           in if ok then (0, A\<lparr>auth_wpa_ie := ie\<rparr>) else (- 1, A))
       (own_elements (conf A))"

section \<open>Reading elements\<close>

text \<open>
  The result of a parser, \<open>struct wpa_ie_data\<close>; the PMKIDs are the list of the \<open>num_pmkid\<close> identifiers
  at \<open>pmkid\<close>.
\<close>

record wpa_ie_data =
  ie_proto :: u32
  ie_pairwise_cipher :: u32
  ie_has_pairwise :: bool
  ie_group_cipher :: u32
  ie_has_group :: bool
  ie_key_mgmt :: u32
  ie_capabilities :: u16
  ie_pmkid :: "bytes list"
  ie_mgmt_group_cipher :: u32

definition rd_le16 :: "bytes \<Rightarrow> nat \<Rightarrow> nat option" where
  "rd_le16 b i = (if i + 2 \<le> length b then Some (unat (b ! i) + unat (b ! (i + 1)) * 256) else None)"

definition rd_be32 :: "bytes \<Rightarrow> nat \<Rightarrow> nat option" where
  "rd_be32 b i = (if i + 4 \<le> length b then Some (get_be32 b i) else None)"

definition rd_bytes :: "bytes \<Rightarrow> nat \<Rightarrow> nat \<Rightarrow> bytes option" where
  "rd_bytes b i n = (if i + n \<le> length b then Some (take n (drop i b)) else None)"

text \<open>
  A part of a parser takes the data so far, the position \<open>pos\<close> and the number \<open>left\<close> of bytes that
  are left, and gives its result, negative for a malformed element, with the state after it.
\<close>

type_synonym ie_parse = "wpa_ie_data \<times> nat \<times> nat"

definition ie_then :: "(int \<times> ie_parse) option \<Rightarrow> (ie_parse \<Rightarrow> (int \<times> ie_parse) option) \<Rightarrow> (int \<times> ie_parse) option" where
  "ie_then m f = (case m of None \<Rightarrow> None | Some (r, st) \<Rightarrow> if r \<noteq> 0 then Some (r, st) else f st)"

primrec read_suites :: "(nat \<Rightarrow> u32) \<Rightarrow> bytes \<Rightarrow> nat \<Rightarrow> nat \<Rightarrow> u32 \<Rightarrow> u32 option" where
  "read_suites f ie 0 pos acc = Some acc"
| "read_suites f ie (Suc n) pos acc = do { s \<leftarrow> rd_be32 ie pos; read_suites f ie n (pos + 4) (acc OR f s) }"

definition ie_suite_list ::
  "(nat \<Rightarrow> u32) \<Rightarrow> (u32 \<Rightarrow> wpa_ie_data \<Rightarrow> wpa_ie_data) \<Rightarrow> int \<Rightarrow> int \<Rightarrow> bytes \<Rightarrow> ie_parse \<Rightarrow> (int \<times> ie_parse) option" where
  "ie_suite_list f upd botch short ie = (\<lambda>(data, pos, left).
     if left \<ge> 2 then do {
       count \<leftarrow> rd_le16 ie pos;
       if count = 0 \<or> count > (left - 2) div 4 then Some (botch, upd 0 data, pos + 2, left - 2)
       else do {
         w \<leftarrow> read_suites f ie count (pos + 2) 0;
         Some (0, upd w data, pos + 2 + 4 * count, left - 2 - 4 * count)
       }
     }
     else Some (if left = 1 then short else 0, data, pos, left))"

definition ie_capabilities_field :: "bytes \<Rightarrow> ie_parse \<Rightarrow> (int \<times> ie_parse) option" where
  "ie_capabilities_field ie = (\<lambda>(data, pos, left).
     if left \<ge> 2 then do { c \<leftarrow> rd_le16 ie pos; Some (0, data\<lparr>ie_capabilities := of_nat c\<rparr>, pos + 2, left - 2) }
     else Some (0, data, pos, left))"

definition rsn_ie_header :: "bytes \<Rightarrow> wpa_ie_data \<Rightarrow> (int \<times> ie_parse) option" where
  "rsn_ie_header ie data =
     (if length ie < 4 then Some (- 1, data, 0, 0)
      else do {
        osen \<leftarrow> (if length ie \<ge> 6
                 then do { n \<leftarrow> rd_byte ie 1; oui \<leftarrow> rd_be32 ie 2;
                           Some (unat n \<ge> 4 \<and> unat n = length ie - 2 \<and> oui = OSEN_IE_VENDOR_TYPE) }
                 else Some False);
        if osen
        then Some (0, data\<lparr>ie_group_cipher := WPA_CIPHER_GTK_NOT_USED, ie_has_group := True, ie_key_mgmt := WPA_KEY_MGMT_OSEN,
                           ie_proto := WPA_PROTO_OSEN\<rparr>, 6, length ie - 6)
        else do {
          eid \<leftarrow> rd_byte ie 0; n \<leftarrow> rd_byte ie 1; version \<leftarrow> rd_le16 ie 2;
          Some (if eid \<noteq> 48 \<or> unat n \<noteq> length ie - 2 \<or> version \<noteq> 1 then (- 2, data, 0, 0) else (0, data, 4, length ie - 4))
        }
      })"

definition rsn_ie_group :: "bytes \<Rightarrow> ie_parse \<Rightarrow> (int \<times> ie_parse) option" where
  "rsn_ie_group ie = (\<lambda>(data, pos, left).
     if left \<ge> 4 then do {
       s \<leftarrow> rd_be32 ie pos;
       let data = data\<lparr>ie_group_cipher := rsn_selector_to_bitfield s, ie_has_group := True\<rparr>;
       Some (if \<not> wpa_cipher_valid_group (ie_group_cipher data) then (- 1, data, pos, left) else (0, data, pos + 4, left - 4))
     }
     else Some (if left > 0 then - 3 else 0, data, pos, left))"

definition rsn_ie_pairwise :: "bytes \<Rightarrow> ie_parse \<Rightarrow> (int \<times> ie_parse) option" where
  "rsn_ie_pairwise ie = (\<lambda>(data, pos, left).
     ie_then (ie_suite_list rsn_selector_to_bitfield (\<lambda>w d. d\<lparr>ie_pairwise_cipher := w\<rparr>) (- 4) (- 5) ie (data, pos, left))
       (\<lambda>(data, pos', left').
          let data = data\<lparr>ie_has_pairwise := (left \<ge> 2 \<or> ie_has_pairwise data)\<rparr>
          in Some (if left \<ge> 2 \<and> ie_pairwise_cipher data AND WPA_CIPHER_AES_128_CMAC \<noteq> 0 then - 1 else 0, data, pos', left')))"

definition rsn_ie_pmkids :: "bytes \<Rightarrow> ie_parse \<Rightarrow> (int \<times> ie_parse) option" where
  "rsn_ie_pmkids ie = (\<lambda>(data, pos, left).
     if left \<ge> 2 then do {
       num \<leftarrow> rd_le16 ie pos;
       if num > (left - 2) div 16 then Some (- 9, data\<lparr>ie_pmkid := []\<rparr>, pos + 2, left - 2)
       else do {
         p \<leftarrow> rd_bytes ie (pos + 2) (16 * num);
         Some (0, data\<lparr>ie_pmkid := map (\<lambda>i. take 16 (drop (16 * i) p)) [0..<num]\<rparr>, pos + 2 + 16 * num, left - 2 - 16 * num)
       }
     }
     else Some (0, data, pos, left))"

definition rsn_ie_mgmt_group :: "bytes \<Rightarrow> ie_parse \<Rightarrow> (int \<times> ie_parse) option" where
  "rsn_ie_mgmt_group ie = (\<lambda>(data, pos, left).
     if left \<ge> 4 then do {
       s \<leftarrow> rd_be32 ie pos;
       let data = data\<lparr>ie_mgmt_group_cipher := rsn_selector_to_bitfield s\<rparr>;
       Some (if \<not> wpa_cipher_valid_mgmt_group (ie_mgmt_group_cipher data) then (- 10, data, pos, left) else (0, data, pos + 4, left - 4))
     }
     else Some (0, data, pos, left))"

definition rsn_ie_defaults :: wpa_ie_data where
  "rsn_ie_defaults = \<lparr>ie_proto = WPA_PROTO_RSN, ie_pairwise_cipher = WPA_CIPHER_CCMP, ie_has_pairwise = False,
     ie_group_cipher = WPA_CIPHER_CCMP, ie_has_group = False, ie_key_mgmt = WPA_KEY_MGMT_IEEE8021X, ie_capabilities = 0,
     ie_pmkid = [], ie_mgmt_group_cipher = WPA_CIPHER_AES_128_CMAC\<rparr>"

definition wpa_parse_wpa_ie_rsn :: "bytes \<Rightarrow> (int \<times> wpa_ie_data) option" where
  "wpa_parse_wpa_ie_rsn ie =
     map_option (\<lambda>(r, data, pos, left). (r, data))
       (ie_then (ie_then (ie_then (ie_then (ie_then (ie_then
          (rsn_ie_header ie rsn_ie_defaults)
          (rsn_ie_group ie))
          (rsn_ie_pairwise ie))
          (ie_suite_list rsn_key_mgmt_to_bitfield (\<lambda>w d. d\<lparr>ie_key_mgmt := w\<rparr>) (- 6) (- 7) ie))
          (ie_capabilities_field ie))
          (rsn_ie_pmkids ie))
          (rsn_ie_mgmt_group ie))"

definition wpa_ie_header :: "bytes \<Rightarrow> wpa_ie_data \<Rightarrow> (int \<times> ie_parse) option" where
  "wpa_ie_header ie data =
     (if length ie < 8 then Some (- 1, data, 0, 0)
      else do {
        eid \<leftarrow> rd_byte ie 0; n \<leftarrow> rd_byte ie 1; oui \<leftarrow> rd_be32 ie 2; version \<leftarrow> rd_le16 ie 6;
        Some (if eid \<noteq> 221 \<or> unat n \<noteq> length ie - 2 \<or> oui \<noteq> WPA_OUI_TYPE \<or> version \<noteq> 1 then (- 2, data, 0, 0)
              else (0, data, 8, length ie - 8))
      })"

definition wpa_ie_group :: "bytes \<Rightarrow> ie_parse \<Rightarrow> (int \<times> ie_parse) option" where
  "wpa_ie_group ie = (\<lambda>(data, pos, left).
     if left \<ge> 4 then do { s \<leftarrow> rd_be32 ie pos; Some (0, data\<lparr>ie_group_cipher := wpa_selector_to_bitfield s\<rparr>, pos + 4, left - 4) }
     else Some (if left > 0 then - 3 else 0, data, pos, left))"

definition wpa_ie_defaults :: wpa_ie_data where
  "wpa_ie_defaults = \<lparr>ie_proto = WPA_PROTO_WPA, ie_pairwise_cipher = WPA_CIPHER_TKIP, ie_has_pairwise = False,
     ie_group_cipher = WPA_CIPHER_TKIP, ie_has_group = False, ie_key_mgmt = WPA_KEY_MGMT_IEEE8021X, ie_capabilities = 0,
     ie_pmkid = [], ie_mgmt_group_cipher = 0\<rparr>"

definition wpa_parse_wpa_ie_wpa :: "bytes \<Rightarrow> (int \<times> wpa_ie_data) option" where
  "wpa_parse_wpa_ie_wpa ie =
     map_option (\<lambda>(r, data, pos, left). (r, data))
       (ie_then (ie_then (ie_then (ie_then
          (wpa_ie_header ie wpa_ie_defaults)
          (wpa_ie_group ie))
          (ie_suite_list wpa_selector_to_bitfield (\<lambda>w d. d\<lparr>ie_pairwise_cipher := w\<rparr>) (- 4) (- 5) ie))
          (ie_suite_list wpa_key_mgmt_to_bitfield (\<lambda>w d. d\<lparr>ie_key_mgmt := w\<rparr>) (- 6) (- 7) ie))
          (ie_capabilities_field ie))"

section \<open>Deciding on an association\<close>

datatype wpa_validate_result = WPA_IE_OK | WPA_INVALID_IE | WPA_INVALID_GROUP | WPA_INVALID_PAIRWISE | WPA_INVALID_AKMP
  | WPA_NOT_ENABLED | WPA_ALLOC_FAIL | WPA_MGMT_FRAME_PROTECTION_VIOLATION | WPA_INVALID_MGMT_GROUP_CIPHER | WPA_INVALID_MDIE
  | WPA_INVALID_PROTO | WPA_INVALID_PMKID | WPA_DENIED_OTHER_REASON

text \<open>
  What of the request is passed to \<open>wpa_validate_wpa_ie\<close>: the frequency, the RSN or WPA element and
  the RSN extension element (absent ones as \<open>None\<close>), and whether it has a mobility domain element and
  a Diffie-Hellman parameter element.
\<close>

record assoc_elements =
  el_freq :: int
  el_wpa_ie :: "bytes option"
  el_rsnxe :: "bytes option"
  el_mdie :: bool
  el_owe_dh :: bool

abbreviation (input) WPA_KEY_MGMT_FT :: u32 where "WPA_KEY_MGMT_FT \<equiv> 0x9300860"

definition wpa_key_mgmt_only_ft :: "u32 \<Rightarrow> bool" where
  "wpa_key_mgmt_only_ft akm \<longleftrightarrow> wpa_key_mgmt_ft akm \<and> akm AND NOT WPA_KEY_MGMT_FT = 0"

text \<open>The suite that is reported as selected.\<close>

definition rsn_akm_suite :: "u32 \<Rightarrow> nat" where
  "rsn_akm_suite akm =
     (case first_suite
        [(WPA_KEY_MGMT_IEEE8021X_SUITE_B_192, RSN_AUTH_KEY_MGMT_802_1X_SUITE_B_192),
         (WPA_KEY_MGMT_IEEE8021X_SUITE_B, RSN_AUTH_KEY_MGMT_802_1X_SUITE_B),
         (WPA_KEY_MGMT_IEEE8021X_SHA256, RSN_AUTH_KEY_MGMT_802_1X_SHA256), (WPA_KEY_MGMT_PSK_SHA256, RSN_AUTH_KEY_MGMT_PSK_SHA256),
         (WPA_KEY_MGMT_IEEE8021X, RSN_AUTH_KEY_MGMT_UNSPEC_802_1X), (WPA_KEY_MGMT_PSK, RSN_AUTH_KEY_MGMT_PSK_OVER_802_1X),
         (WPA_KEY_MGMT_DPP, RSN_AUTH_KEY_MGMT_DPP), (WPA_KEY_MGMT_IEEE8021X_SHA384, RSN_AUTH_KEY_MGMT_802_1X_SHA384)] akm
      of Some s \<Rightarrow> s | None \<Rightarrow> RSN_AUTH_KEY_MGMT_UNSPEC_802_1X)"

definition suite_or :: "nat \<Rightarrow> nat \<Rightarrow> nat" where
  "suite_or d s = (if s = 0 then d else s)"

text \<open>
  The element is parsed, with the default ciphers for what an RSN element leaves out, and the suites
  are reported, also those of an element that is malformed.
\<close>

definition read_rsn_request :: "assoc_elements \<Rightarrow> bytes \<Rightarrow> wpa_authenticator \<Rightarrow> (int \<times> wpa_ie_data \<times> wpa_authenticator) option" where
  "read_rsn_request e ie A = do {
     (res, data) \<leftarrow> wpa_parse_wpa_ie_rsn ie;
     let data = (if ie_has_pairwise data then data else data\<lparr>ie_pairwise_cipher := wpa_default_rsn_cipher (el_freq e)\<rparr>);
     let data = (if ie_has_group data then data else data\<lparr>ie_group_cipher := wpa_default_rsn_cipher (el_freq e)\<rparr>);
     let data = (if wpa_key_mgmt_ft (ie_key_mgmt data) \<and> \<not> el_mdie e \<and> \<not> wpa_key_mgmt_only_ft (ie_key_mgmt data)
                 then data\<lparr>ie_key_mgmt := ie_key_mgmt data AND NOT WPA_KEY_MGMT_FT\<rparr> else data);
     Some (res, data,
       A\<lparr>dot11RSNAAuthenticationSuiteSelected := rsn_akm_suite (ie_key_mgmt data),
         dot11RSNAPairwiseCipherSelected := suite_or RSN_CIPHER_SUITE_CCMP (wpa_cipher_to_suite WPA_PROTO_RSN (ie_pairwise_cipher data)),
         dot11RSNAGroupCipherSelected := suite_or RSN_CIPHER_SUITE_CCMP (wpa_cipher_to_suite WPA_PROTO_RSN (ie_group_cipher data))\<rparr>)
   }"

definition read_wpa_request :: "bytes \<Rightarrow> wpa_authenticator \<Rightarrow> (int \<times> wpa_ie_data \<times> wpa_authenticator) option" where
  "read_wpa_request ie A = do {
     (res, data) \<leftarrow> wpa_parse_wpa_ie_wpa ie;
     Some (res, data,
       A\<lparr>dot11RSNAAuthenticationSuiteSelected :=
           (if ie_key_mgmt data AND WPA_KEY_MGMT_IEEE8021X \<noteq> 0 then WPA_AUTH_KEY_MGMT_UNSPEC_802_1X
            else if ie_key_mgmt data AND WPA_KEY_MGMT_PSK \<noteq> 0 then WPA_AUTH_KEY_MGMT_PSK_OVER_802_1X
            else WPA_AUTH_KEY_MGMT_UNSPEC_802_1X),
         dot11RSNAPairwiseCipherSelected := suite_or RSN_CIPHER_SUITE_TKIP (wpa_cipher_to_suite WPA_PROTO_WPA (ie_pairwise_cipher data)),
         dot11RSNAGroupCipherSelected := suite_or WPA_CIPHER_SUITE_TKIP (wpa_cipher_to_suite WPA_PROTO_WPA (ie_group_cipher data))\<rparr>)
   }"

lemma selected_keeps:
  fixes A a b c
  defines "B \<equiv> A\<lparr>dot11RSNAAuthenticationSuiteSelected := a, dot11RSNAPairwiseCipherSelected := b, dot11RSNAGroupCipherSelected := c\<rparr>"
  shows "conf B = conf A" and "stas B = stas A" and "trace B = trace A"
  by (simp_all add: B_def)

lemma read_request_keeps:
  assumes "read_rsn_request e ie A = Some (res, data, B) \<or> read_wpa_request ie A = Some (res, data, B)"
  shows "conf B = conf A" and "stas B = stas A" and "trace B = trace A"
proof -
  have "\<exists>a b c. B = A\<lparr>dot11RSNAAuthenticationSuiteSelected := a, dot11RSNAPairwiseCipherSelected := b, dot11RSNAGroupCipherSelected := c\<rparr>"
  proof (cases "read_rsn_request e ie A = Some (res, data, B)")
    case True
    then obtain r d where m: "wpa_parse_wpa_ie_rsn ie = Some (r, d)" by (auto simp: read_rsn_request_def split: Option.bind_splits)
    show ?thesis using True unfolding read_rsn_request_def m bind.bind_lunit prod.case Let_def option.inject prod.inject by blast
  next
    case False
    then have f: "read_wpa_request ie A = Some (res, data, B)" using assms by blast
    then obtain r d where m: "wpa_parse_wpa_ie_wpa ie = Some (r, d)" by (auto simp: read_wpa_request_def split: Option.bind_splits)
    show ?thesis using f unfolding read_wpa_request_def m bind.bind_lunit prod.case Let_def option.inject prod.inject by blast
  qed
  then show "conf B = conf A" and "stas B = stas A" and "trace B = trace A" using selected_keeps by blast+
qed

text \<open>The key management suite to use out of those that both sides allow.\<close>

definition pick_key_mgmt :: "u32 \<Rightarrow> u32" where
  "pick_key_mgmt akm =
     (case first_suite
        [(WPA_KEY_MGMT_IEEE8021X_SUITE_B_192, WPA_KEY_MGMT_IEEE8021X_SUITE_B_192),
         (WPA_KEY_MGMT_IEEE8021X_SUITE_B, WPA_KEY_MGMT_IEEE8021X_SUITE_B), (WPA_KEY_MGMT_IEEE8021X_SHA384, WPA_KEY_MGMT_IEEE8021X_SHA384),
         (WPA_KEY_MGMT_IEEE8021X_SHA256, WPA_KEY_MGMT_IEEE8021X_SHA256), (WPA_KEY_MGMT_PSK_SHA256, WPA_KEY_MGMT_PSK_SHA256),
         (WPA_KEY_MGMT_IEEE8021X, WPA_KEY_MGMT_IEEE8021X), (WPA_KEY_MGMT_DPP, WPA_KEY_MGMT_DPP)] akm
      of Some a \<Rightarrow> a | None \<Rightarrow> WPA_KEY_MGMT_PSK)"

text \<open>
  The cached key for one of the identifiers of the request: the first that the cache of this
  authenticator has, or else the first that is taken over from another one. The second component is
  the identifier that is reported.
\<close>

fun find_pmksa :: "(bytes \<Rightarrow> pmksa_ref option) \<Rightarrow> bytes list \<Rightarrow> (bytes \<times> pmksa_ref) option" where
  "find_pmksa get [] = None"
| "find_pmksa get (p # ps) = (case get p of Some e \<Rightarrow> Some (p, e) | None \<Rightarrow> find_pmksa get ps)"

definition use_pmksa :: "wpa_env \<Rightarrow> nat \<Rightarrow> wpa_ie_data \<Rightarrow> wpa_authenticator \<Rightarrow> wpa_authenticator" where
  "use_pmksa env i data A =
     (let addr = sm_addr (stas A i);
          found = (case find_pmksa (pmksa_get env (trace A) addr) (ie_pmkid data) of
                     Some (p, e) \<Rightarrow> Some (ref_pmkid e, e)
                   | None \<Rightarrow> if okc (conf A) then find_pmksa (pmksa_get_okc env (trace A) addr) (ie_pmkid data) else None)
      in case found of
           None \<Rightarrow> set_sm i (\<lambda>s. s\<lparr>sm_pmksa := None\<rparr>) A
         | Some (p, e) \<Rightarrow> set_sm i (\<lambda>s. s\<lparr>sm_pmksa := Some e\<rparr>) (A\<lparr>dot11RSNAPMKIDUsed := p\<rparr>))"

text \<open>
  The last part: the extended key identifier and the copies of the elements. An old copy is
  overwritten if it is long enough; otherwise it is freed and memory is asked for.
\<close>

definition accept_key_id :: "wpa_ie_data \<Rightarrow> wpa_auth_config \<Rightarrow> wpa_sm \<Rightarrow> wpa_sm" where
  "accept_key_id data cf s =
     (let ext = extended_key_id cf \<noteq> 0 \<and> sm_wpa s = WPA_VERSION_WPA2 \<and> pairwise s \<noteq> WPA_CIPHER_TKIP \<and>
                ie_capabilities data AND 0x2000 \<noteq> 0
      in s\<lparr>use_ext_key_id := ext,
           keyidx_active := (if \<not> ext then keyidx_active s
             else if extended_key_id cf = 2 \<and> \<not> wpa_key_mgmt_ft (wpa_key_mgmt s) \<and> \<not> wpa_key_mgmt_fils (wpa_key_mgmt s) then 1 else 0)\<rparr>)"

definition copy_element :: "wpa_env \<Rightarrow> bytes option \<Rightarrow> bytes \<Rightarrow> wpa_authenticator \<Rightarrow> bytes option \<times> wpa_authenticator" where
  "copy_element env old new A =
     (if (case old of None \<Rightarrow> True | Some b \<Rightarrow> length b < length new)
      then let (ok, A) = os_malloc env (length new) A in (if ok then Some new else None, A)
      else (Some new, A))"

definition accept_elements ::
  "wpa_env \<Rightarrow> nat \<Rightarrow> assoc_elements \<Rightarrow> bytes \<Rightarrow> wpa_ie_data \<Rightarrow> wpa_authenticator \<Rightarrow> wpa_validate_result \<times> wpa_authenticator" where
  "accept_elements env i e ie data A =
     (let A = set_sm i (accept_key_id data (conf A)) A;
          (copy, A) = copy_element env (sm_wpa_ie (stas A i)) ie A;
          A = set_sm i (\<lambda>s. s\<lparr>sm_wpa_ie := copy\<rparr>) A
      in if copy = None then (WPA_ALLOC_FAIL, A)
         else case el_rsnxe e of
           Some (x # xs) \<Rightarrow>
             let (copy, A) = copy_element env (sm_rsnxe (stas A i)) (x # xs) A
             in (if copy = None then WPA_ALLOC_FAIL else WPA_IE_OK, set_sm i (\<lambda>s. s\<lparr>sm_rsnxe := copy\<rparr>) A)
         | _ \<Rightarrow> (WPA_IE_OK, set_sm i (\<lambda>s. s\<lparr>sm_rsnxe := None\<rparr>) A))"

text \<open>The decision on the content of a request that could be read; \<open>rsn\<close> tells its version.\<close>

definition validate_request ::
  "wpa_env \<Rightarrow> nat \<Rightarrow> assoc_elements \<Rightarrow> bool \<Rightarrow> bytes \<Rightarrow> wpa_ie_data \<Rightarrow> wpa_authenticator \<Rightarrow> wpa_validate_result \<times> wpa_authenticator" where
  "validate_request env i e rsn ie data A =
     (let cf = conf A; akm = ie_key_mgmt data AND conf_key_mgmt cf;
          ciphers = ie_pairwise_cipher data AND (if rsn then rsn_pairwise cf else wpa_pairwise cf);
          mfpc = ie_capabilities data AND 0x80 \<noteq> 0
      in if ie_group_cipher data \<noteq> wpa_group_cipher cf then (WPA_INVALID_GROUP, A)
         else if akm = 0 then (WPA_INVALID_AKMP, A)
         else let A = set_sm i (\<lambda>s. s\<lparr>wpa_key_mgmt := pick_key_mgmt akm\<rparr>) A
         in if ciphers = 0 then (WPA_INVALID_PAIRWISE, A)
         else if ieee80211w cf = MGMT_FRAME_PROTECTION_REQUIRED \<and> \<not> mfpc then (WPA_MGMT_FRAME_PROTECTION_VIOLATION, A)
         else if ieee80211w cf = MGMT_FRAME_PROTECTION_REQUIRED \<and> ie_mgmt_group_cipher data \<noteq> group_mgmt_cipher cf
           then (WPA_INVALID_MGMT_GROUP_CIPHER, A)
         else let A = set_sm i (\<lambda>s. s\<lparr>mgmt_frame_prot := (ieee80211w cf \<noteq> NO_MGMT_FRAME_PROTECTION \<and> mfpc),
                                     mfpr := (ie_capabilities data AND 0x40 \<noteq> 0)\<rparr>) A
         in if mgmt_frame_prot (stas A i) \<and> ciphers AND WPA_CIPHER_TKIP \<noteq> 0 then (WPA_MGMT_FRAME_PROTECTION_VIOLATION, A)
         else if wpa_key_mgmt (stas A i) = WPA_KEY_MGMT_DPP \<and> (dpp_pfs cf = 1 \<and> \<not> el_owe_dh e \<or> dpp_pfs cf = 2 \<and> el_owe_dh e)
           then (WPA_DENIED_OTHER_REASON, A)
         else case wpa_pick_pairwise_cipher ciphers False of
           None \<Rightarrow> (WPA_INVALID_PAIRWISE, set_sm i (\<lambda>s. s\<lparr>pairwise := - 1\<rparr>) A)
         | Some c \<Rightarrow>
             let A = set_sm i (\<lambda>s. s\<lparr>pairwise := c, sm_wpa := (if rsn then WPA_VERSION_WPA2 else WPA_VERSION_WPA)\<rparr>) A;
                 A = use_pmksa env i data A
             in if wpa_key_mgmt (stas A i) = WPA_KEY_MGMT_DPP \<and> sm_pmksa (stas A i) = None then (WPA_INVALID_PMKID, A)
                else accept_elements env i e ie data A)"

definition wpa_validate_wpa_ie ::
  "wpa_env \<Rightarrow> nat \<Rightarrow> assoc_elements \<Rightarrow> wpa_authenticator \<Rightarrow> (wpa_validate_result \<times> wpa_authenticator) option" where
  "wpa_validate_wpa_ie env i e A =
     (case el_wpa_ie e of
        None \<Rightarrow> Some (WPA_INVALID_IE, A)
      | Some [] \<Rightarrow> Some (WPA_INVALID_IE, A)
      | Some ie \<Rightarrow>
          let rsn = (ie ! 0 = 48)
          in if conf_wpa (conf A) AND (if rsn then WPA_PROTO_RSN else WPA_PROTO_WPA) = 0 then Some (WPA_INVALID_PROTO, A)
             else do {
               (res, data, A) \<leftarrow> (if rsn then read_rsn_request e ie A else read_wpa_request ie A);
               Some (if res \<noteq> 0 then (WPA_INVALID_IE, A) else validate_request env i e rsn ie data A)
             })"

text \<open>A request is refused at once, or its element is read and decided on.\<close>

lemma validate_cases:
  assumes "wpa_validate_wpa_ie env i e A = Some (r, A')"
  obtains (refused) "A' = A" and "r \<noteq> WPA_IE_OK"
  | (read) ie res data B where "el_wpa_ie e = Some ie"
      and "(if ie ! 0 = 48 then read_rsn_request e ie A else read_wpa_request ie A) = Some (res, data, B)"
      and "(r, A') = (if res \<noteq> 0 then (WPA_INVALID_IE, B) else validate_request env i e (ie ! 0 = 48) ie data B)"
proof (cases "el_wpa_ie e")
  case (Some ie)
  show ?thesis
  proof (cases "ie = [] \<or> conf_wpa (conf A) AND (if ie ! 0 = 48 then WPA_PROTO_RSN else WPA_PROTO_WPA) = 0")
    case True
    then have "A' = A \<and> r \<noteq> WPA_IE_OK" using assms Some by (cases ie) (auto simp: wpa_validate_wpa_ie_def Let_def split: if_splits)
    then show ?thesis by (intro refused) blast+
  next
    case False
    then obtain x xs where ie: "ie = x # xs" by (cases ie) auto
    have "\<exists>res data B. (if ie ! 0 = 48 then read_rsn_request e ie A else read_wpa_request ie A) = Some (res, data, B) \<and>
        (if res \<noteq> 0 then (WPA_INVALID_IE, B) else validate_request env i e (ie ! 0 = 48) ie data B) = (r, A')"
      using assms False unfolding wpa_validate_wpa_ie_def Let_def Some ie
      by (auto simp: bind_eq_Some_conv simp del: nth_Cons_0)
    then show ?thesis using read [OF Some] by metis
  qed
qed (use refused assms in \<open>simp add: wpa_validate_wpa_ie_def\<close>)

end
