(* ===== verification/Wpa_Runs.thy ===== *)
theory Wpa_Runs
  imports Wpa_Stations Wpa_Elements
begin

text \<open>
  Runs of the authenticator: what reaches it from outside, and the interface through which an
  invariant is carried through every operation. The interface distinguishes free stations, which may
  do whatever the code lets them do, from the others, of which the invariant says something; its laws
  are few elementary changes, and its lemmas follow the operations of the code.
\<close>

section \<open>Changes that give no access\<close>

text \<open>
  Calls that give access to the station with address \<open>a\<close>: an EAPOL variable that opens its port, a
  pairwise key for the driver or for the cache of transient keys, or a frame with a MIC, which is every
  frame but message 1.
\<close>

fun gives_access :: "mac \<Rightarrow> wpa_out \<Rightarrow> bool" where
  "gives_access a (SetEapol b var v) \<longleftrightarrow> b = a \<and> v \<and> (var = WPA_EAPOL_portValid \<or> var = WPA_EAPOL_authorized)"
| "gives_access a (SetKey vlan alg b idx key flag) \<longleftrightarrow>
     b = a \<and> flag \<noteq> KEY_FLAG_GROUP_TX_DEFAULT \<and> \<not> (flag = KEY_FLAG_PAIRWISE \<and> alg = WPA_ALG_NONE)"
| "gives_access a (SendEapol b frame encr) \<longleftrightarrow> b = a \<and> bit (key_info frame) WPA_KEY_INFO_MIC"
| "gives_access a (StorePtksa b cipher ptk) \<longleftrightarrow> b = a"
| "gives_access a _ \<longleftrightarrow> False"

text \<open>A change of a station that gives it nothing it did not have.\<close>

definition harmless :: "wpa_sm \<Rightarrow> wpa_sm \<Rightarrow> bool" where
  "harmless s t \<longleftrightarrow>
     (PTK_valid t \<longrightarrow> PTK_valid s) \<and> (MICVerified t \<longrightarrow> MICVerified s) \<and> (update_snonce t \<longrightarrow> update_snonce s) \<and>
     (GUpdateStationKeys t \<longrightarrow> GUpdateStationKeys s) \<and> (PInitAKeys t \<longrightarrow> PInitAKeys s) \<and>
     (wpa_ptk_group_state t = wpa_ptk_group_state s \<or> wpa_ptk_group_state t = WPA_PTK_GROUP_IDLE) \<and>
     (wpa_ptk_state t = wpa_ptk_state s \<or>
      wpa_ptk_state t \<notin> {WPA_PTK_PTKCALCNEGOTIATING2, WPA_PTK_PTKINITNEGOTIATING, WPA_PTK_PTKINITDONE}) \<and>
     (PMK t = PMK s \<or> PMK t = []) \<and> sm_pmksa t = sm_pmksa s"

text \<open>What no step of the machines changes, but sending a frame.\<close>

definition same_station :: "wpa_sm \<Rightarrow> wpa_sm \<Rightarrow> bool" where
  "same_station s t \<longleftrightarrow> sm_addr t = sm_addr s \<and> key_replay t = key_replay s \<and> prev_key_replay t = prev_key_replay s \<and>
     last_rx_eapol_key t = last_rx_eapol_key s"

lemmas change_defs = harmless_def same_station_def

section \<open>The interface of the machines\<close>

text \<open>The elementary changes, and what the machine of a station does with them.\<close>

locale wpa_changes = wpa_groups J for J :: "wpa_authenticator \<Rightarrow> bool" +
  fixes env :: wpa_env and free :: "nat \<Rightarrow> bool"
  assumes J_set_sm: "J A \<Longrightarrow> same_station (stas A i) (f (stas A i)) \<Longrightarrow> free i \<or> harmless (stas A i) (f (stas A i)) \<Longrightarrow> J (set_sm i f A)"
    and J_call: "J A \<Longrightarrow> (\<And>a. gives_access a x \<Longrightarrow> \<exists>i. free i \<and> a = sm_addr (stas A i)) \<Longrightarrow> J (emit x A)"
    and J_send: "J A \<Longrightarrow> free i \<or> \<not> bit info WPA_KEY_INFO_MIC \<and> keyidx = 0 \<Longrightarrow>
                 J (wpa_send_eapol env i info rsc nonce kde keyidx encr A)"
    and J_other: "J A \<Longrightarrow> stas B = stas A \<Longrightarrow> trace B = trace A \<Longrightarrow> J B"
begin

lemma J_quiet: "J A \<Longrightarrow> (\<And>a. \<not> gives_access a x) \<Longrightarrow> J (emit x A)"
  by (rule J_call) auto

lemma J_set_eapol:
  "J A \<Longrightarrow> free i \<or> \<not> v \<or> var \<notin> {WPA_EAPOL_portValid, WPA_EAPOL_authorized} \<Longrightarrow> J (wpa_auth_set_eapol i var v A)"
  unfolding wpa_auth_set_eapol_def by (erule J_call) auto

lemma J_set_key:
  "J A \<Longrightarrow> free i \<or> flag = KEY_FLAG_PAIRWISE \<and> alg = WPA_ALG_NONE \<Longrightarrow> a = sm_addr (stas A i) \<Longrightarrow>
   J (snd (wpa_auth_set_key env' vlan alg a idx key flag A))"
  unfolding wpa_auth_set_key_def Let_def snd_conv by (erule J_call) auto

lemma J_get_eapol: "J A \<Longrightarrow> J (snd (wpa_auth_get_eapol env' i var A))"
  by (simp add: wpa_auth_get_eapol_def Let_def J_quiet)

lemmas J_intros = J_quiet J_set_group J_set_sm J_set_eapol

subsection \<open>The machine of a station\<close>

lemma J_remove_ptk: "J A \<Longrightarrow> J (wpa_remove_ptk env' i A)"
  by (auto simp: wpa_remove_ptk_def wpa_auth_set_key_def Let_def change_defs intro!: J_quiet J_set_sm)

lemma J_event_remove_keys: "J A \<Longrightarrow> J (event_remove_keys env' ev i A)"
  by (auto simp: event_remove_keys_def Let_def change_defs intro!: J_set_sm J_remove_ptk)

lemma J_sta_disconnect: "J A \<Longrightarrow> J (wpa_sta_disconnect env' i reason A)"
  by (auto simp: wpa_sta_disconnect_def Let_def change_defs intro!: J_quiet J_set_sm J_event_remove_keys)

lemma J_enter_ptk:
  "J A \<Longrightarrow> free i \<or> st \<notin> {WPA_PTK_PTKCALCNEGOTIATING2, WPA_PTK_PTKINITNEGOTIATING, WPA_PTK_PTKINITDONE} \<Longrightarrow> J (enter_ptk st i A)"
  by (auto simp: enter_ptk_def change_defs intro!: J_set_sm)

lemma J_INITIALIZE: "J A \<Longrightarrow> J (sm_WPA_PTK_INITIALIZE_Enter env' i A)"
  by (auto simp: sm_WPA_PTK_INITIALIZE_Enter_def Let_def change_defs
      intro!: J_set_sm J_set_eapol J_remove_ptk J_enter_ptk J_gkeydone split: if_split_asm)

lemma J_DISCONNECT: "J A \<Longrightarrow> J (sm_WPA_PTK_DISCONNECT_Enter env' i A)"
  by (auto simp: sm_WPA_PTK_DISCONNECT_Enter_def Let_def change_defs intro!: J_set_sm J_sta_disconnect J_enter_ptk)

lemma J_DISCONNECTED: "J A \<Longrightarrow> J (sm_WPA_PTK_DISCONNECTED_Enter i A)"
  by (auto simp: sm_WPA_PTK_DISCONNECTED_Enter_def change_defs intro!: J_set_sm J_enter_ptk)

lemma J_AUTHENTICATION: "J A \<Longrightarrow> J (sm_WPA_PTK_AUTHENTICATION_Enter i A)"
  by (auto simp: sm_WPA_PTK_AUTHENTICATION_Enter_def Let_def change_defs intro!: J_set_sm J_set_eapol J_enter_ptk)

lemma J_new_anonce: "J A \<Longrightarrow> J (snd (new_anonce env' i A))"
  by (auto simp: new_anonce_def Let_def split_beta change_defs intro!: J_set_sm J_random split: option.split)

lemma J_AUTHENTICATION2: "J A \<Longrightarrow> J (sm_WPA_PTK_AUTHENTICATION2_Enter env' i A)"
  by (auto simp: sm_WPA_PTK_AUTHENTICATION2_Enter_def Let_def change_defs
      intro!: J_set_sm J_new_anonce J_ensure_init J_enter_ptk)

lemma J_PTKSTART: "J A \<Longrightarrow> sm_WPA_PTK_PTKSTART_Enter env i A = Some A' \<Longrightarrow> J A'"
  by (auto simp: sm_WPA_PTK_PTKSTART_Enter_def Let_def change_defs flags_def flag_of_def bit_simps
      intro!: J_set_sm J_send J_enter_ptk split: if_splits Option.bind_splits)

lemma J_failure: "J A \<Longrightarrow> J (handshake_failure A)"
  by (erule J_other) (simp_all add: handshake_failure_def)

lemma J_retry_limit: "J A \<Longrightarrow> J (retry_limit env' i A)"
  by (auto simp: retry_limit_def change_defs intro!: J_DISCONNECT J_set_sm J_failure)

text \<open>What only a free station does: its keys, and messages 3 and 4.\<close>

lemma J_INITPMK: "J A \<Longrightarrow> free i \<Longrightarrow> J (sm_WPA_PTK_INITPMK_Enter env' i A)"
  by (auto simp: sm_WPA_PTK_INITPMK_Enter_def Let_def change_defs intro!: J_set_sm J_set_eapol J_enter_ptk split: option.split)

lemma J_INITPSK: "J A \<Longrightarrow> free i \<Longrightarrow> J (sm_WPA_PTK_INITPSK_Enter env' i A)"
  by (auto simp: sm_WPA_PTK_INITPSK_Enter_def Let_def change_defs intro!: J_set_sm J_enter_ptk split: list.split)

lemma J_set_vlan: "J A \<Longrightarrow> J (snd (wpa_auth_sta_set_vlan env' i vlan A))"
  by (auto simp: wpa_auth_sta_set_vlan_def Let_def split_beta change_defs split: option.split
      intro!: J_set_sm J_group_put J_group_get J_find_or_add_group)

lemma J_update_vlan: "J A \<Longrightarrow> J (snd (wpa_auth_update_vlan env' i vlan A))"
  by (simp add: wpa_auth_update_vlan_def Let_def J_quiet J_set_vlan)

lemma J_accept_message2:
  assumes "J A" and "free i" and "accept_message2 env' i mic_len data own pmk vlan ptk A = Some A'"
  shows "J A'"
proof -
  define taken where "taken = (\<lambda>s :: wpa_sm. s\<lparr>PMK := (if wpa_key_mgmt_wpa_psk (wpa_key_mgmt s) \<and> \<not> own then take 32 pmk else PMK s),
      MICVerified := True, PTK := ptk, PTK_valid := True\<rparr>)"
  have J: "J B \<Longrightarrow> J (set_sm i taken (emit (CancelWpaTimeout (WpaSendEapolTimeout i))
      (set_sm i (\<lambda>s. s\<lparr>pending_1_of_4_timeout := False\<rparr>) B)))" for B
    using assms(2) by (auto simp: change_defs taken_def intro!: J_set_sm J_quiet)
  note v = J_update_vlan [OF assms(1), of env' i vlan]
  from assms(3) show ?thesis
    unfolding accept_message2_def Let_def taken_def [symmetric]
    using assms(1,2) v J J_sta_disconnect
    by (auto simp: split_beta split: Option.bind_splits sum.splits if_splits)
qed

lemma J_PTKCALCNEGOTIATING:
  assumes "J A" and "free i" and "sm_WPA_PTK_PTKCALCNEGOTIATING_Enter env' i A = Some A'"
  shows "J A'"
proof -
  define B where "B = set_sm i (\<lambda>s. s\<lparr>EAPOLKeyReceived := False, update_snonce := False\<rparr>) (enter_ptk WPA_PTK_PTKCALCNEGOTIATING i A)"
  have B: "J B" using assms(1,2) by (auto simp: B_def change_defs intro!: J_set_sm J_enter_ptk)
  have "J (set_sm i (\<lambda>s. s\<lparr>PMK := pmk\<rparr>) B)" for pmk using B assms(2) by (auto simp: change_defs intro!: J_set_sm)
  note C = J_accept_message2 [OF this assms(2)]
  have D: "J (set_sm i (\<lambda>s. s\<lparr>waiting_radius_psk := True\<rparr>) (emit (RequestRadiusPsk a akm n data) B))" for a akm n data
    using B by (auto simp: change_defs intro!: J_set_sm J_quiet)
  have E: "J (emit (PskFailureReport a) B)" for a using B by (rule J_quiet) simp
  from assms(3) C D E B show ?thesis
    unfolding sm_WPA_PTK_PTKCALCNEGOTIATING_Enter_def Let_def B_def [symmetric]
    by (auto split: option.splits if_splits)
qed

lemma J_PTKCALCNEGOTIATING2: "J A \<Longrightarrow> free i \<Longrightarrow> J (sm_WPA_PTK_PTKCALCNEGOTIATING2_Enter i A)"
  by (auto simp: sm_WPA_PTK_PTKCALCNEGOTIATING2_Enter_def change_defs intro!: J_set_sm J_enter_ptk)

lemma J_group_key_pn: "J A \<Longrightarrow> J (snd (group_key_pn env' g idx A))"
  by (simp add: group_key_pn_def Let_def split_beta J_seqnum)

lemma J_ieee80211w_kde_add: "J A \<Longrightarrow> J (snd (ieee80211w_kde_add env' i A))"
  by (auto simp: ieee80211w_kde_add_def Let_def split_beta intro!: J_group_key_pn J_random split: option.split)

lemma J_send_message3:
  "J A \<Longrightarrow> free i \<Longrightarrow> send_message3 env i wpa_ie secure gtk gtkidx rsc encr A = Some A' \<Longrightarrow> J A'"
  by (auto simp: send_message3_def Let_def split_beta intro!: J_send J_ieee80211w_kde_add split: if_splits)

lemma J_PTKINITNEGOTIATING:
  assumes "J A" and "free i" and "sm_WPA_PTK_PTKINITNEGOTIATING_Enter env i A = Some A'"
  shows "J A'"
proof -
  define B where "B = set_sm i (\<lambda>s. s\<lparr>TimeoutEvt := False, TimeoutCtr := TimeoutCtr s + 1\<rparr>) (enter_ptk WPA_PTK_PTKINITNEGOTIATING i A)"
  have B: "J B" using assms(1,2) by (auto simp: B_def change_defs intro!: J_set_sm J_enter_ptk)
  define C where "C = snd (wpa_auth_get_seqnum env (GN (groups B (sm_group (stas B i)))) B)"
  have C: "J C" unfolding C_def by (rule J_seqnum [OF B])
  have s: "stas C = stas B" by (simp add: C_def wpa_auth_get_seqnum_def Let_def)
  define D where "D = (if use_ext_key_id (stas B i) \<and> TimeoutCtr (stas B i) = 1
      then wpa_auth_set_key env 0 (wpa_cipher_to_alg (pairwise (stas B i))) (sm_addr (stas B i)) (unat (keyidx_active (stas B i)))
             (tk (PTK (stas B i))) KEY_FLAG_PAIRWISE_RX C
      else (0, C))"
  have D: "J (snd D)" unfolding D_def using C assms(2) by (auto simp: s intro!: J_set_key)
  define E where "E = (if disable_gtk (conf B) \<or> wpa_key_mgmt (stas B i) = WPA_KEY_MGMT_OSEN
      then random_get_bytes env (GTK_len (groups (snd D) (sm_group (stas B i)))) (snd D)
      else (Some (the_gtk (groups (snd D) (sm_group (stas B i)))), snd D))"
  have E: "J (snd E)" unfolding E_def using D by (simp add: J_random)
  show ?thesis
    using assms(3) B C J_sta_disconnect [OF D] E J_send_message3 [OF _ assms(2)]
    unfolding sm_WPA_PTK_PTKINITNEGOTIATING_Enter_def Let_def B_def [symmetric] split_beta C_def [symmetric] D_def [symmetric] E_def [symmetric]
    by (auto split: if_split_asm Option.bind_split_asm option.split_asm)
qed

lemma J_install_ptk: "J A \<Longrightarrow> free i \<Longrightarrow> J (snd (install_ptk env' i A))"
  by (auto simp: install_ptk_def Let_def intro!: J_set_key)

lemma J_PTKINITDONE:
  assumes "J A" and "free i"
  shows "J (sm_WPA_PTK_PTKINITDONE_Enter env' i A)"
proof -
  define finish where "finish = (\<lambda>A. set_sm i (\<lambda>s. s\<lparr>PInitAKeys := (if sm_wpa s = WPA_VERSION_WPA then True else PInitAKeys s),
      has_GTK := (if sm_wpa s = WPA_VERSION_WPA then has_GTK s else True), ptkstart_without_success := 0\<rparr>)
    (wpa_auth_set_eapol i WPA_EAPOL_keyDone True (wpa_auth_set_eapol i WPA_EAPOL_keyAvailable False
      (wpa_auth_set_eapol i WPA_EAPOL_portValid True A))))"
  have finish: "J B \<Longrightarrow> J (finish B)" for B
    using assms(2) by (auto simp: finish_def change_defs intro!: J_set_sm J_set_eapol)
  define B where "B = set_sm i (\<lambda>s. s\<lparr>EAPOLKeyReceived := False\<rparr>) (enter_ptk WPA_PTK_PTKINITDONE i A)"
  have B: "J B" using assms by (auto simp: B_def change_defs intro!: J_set_sm J_enter_ptk)
  have store: "J C \<Longrightarrow> J (emit (StorePtksa (sm_addr (stas C i)) c p) C)" for C c p
    using assms(2) by (auto elim!: J_call)
  have timer: "J C \<Longrightarrow> J (wpa_auth_set_ptk_rekey_timer i C)" for C
    by (simp add: wpa_auth_set_ptk_rekey_timer_def J_quiet)
  have pset: "J C \<Longrightarrow> J (set_sm i (\<lambda>s. s\<lparr>pairwise_set := True\<rparr>) C)" for C
    using assms(2) by (auto simp: change_defs intro!: J_set_sm)
  have auth: "J C \<Longrightarrow> J (wpa_auth_set_eapol i WPA_EAPOL_authorized True C)" for C using assms(2) by (simp add: J_set_eapol)
  note C = J_install_ptk [OF B assms(2), of env']
  note J_all = finish [OF B] J_sta_disconnect [OF C] finish [OF store [OF timer [OF pset [OF C]]]]
    finish [OF auth [OF store [OF timer [OF pset [OF C]]]]]
  show ?thesis
    unfolding sm_WPA_PTK_PTKINITDONE_Enter_def Let_def B_def [symmetric] finish_def [symmetric]
    using J_all by (simp add: split_beta)
qed

lemma J_step_PTKINITNEGOTIATING: "J A \<Longrightarrow> free i \<Longrightarrow> step_PTKINITNEGOTIATING env i A = Some A' \<Longrightarrow> J A'"
  by (auto simp: step_PTKINITNEGOTIATING_def Let_def split: if_splits
      intro: J_PTKCALCNEGOTIATING J_PTKINITDONE J_retry_limit J_PTKINITNEGOTIATING)

lemma J_step_AUTHENTICATION2: "J A \<Longrightarrow> free i \<Longrightarrow> J (step_AUTHENTICATION2 env' i A)"
  by (auto simp: step_AUTHENTICATION2_def Let_def split_beta intro!: J_get_eapol J_INITPMK J_INITPSK)

lemma J_free_switch:
  assumes "J A" and "free i" and "sm_WPA_PTK_switch env i A = Some A'"
  shows "J A'"
  using assms J_get_eapol [OF assms(1), of env i WPA_EAPOL_keyAvailable]
  by (auto simp: sm_WPA_PTK_switch_def Let_def split_beta split: wpa_ptk_st.splits if_splits
      intro: J_DISCONNECTED J_INITIALIZE J_AUTHENTICATION2 J_step_AUTHENTICATION2 J_PTKSTART J_DISCONNECT J_failure
        J_PTKCALCNEGOTIATING J_PTKCALCNEGOTIATING2 J_retry_limit J_PTKINITNEGOTIATING J_step_PTKINITNEGOTIATING)

subsection \<open>The group machine of a station\<close>

lemma J_GROUP_IDLE: "J A \<Longrightarrow> J (sm_WPA_PTK_GROUP_IDLE_Enter i A)"
  by (auto simp: sm_WPA_PTK_GROUP_IDLE_Enter_def enter_ptk_group_def change_defs intro!: J_set_sm)

lemma J_GROUP_REKEYNEGOTIATING:
  assumes "J A" and "free i"
  shows "J (sm_WPA_PTK_GROUP_REKEYNEGOTIATING_Enter env i A)"
proof -
  define B where "B = set_sm i (\<lambda>s. s\<lparr>GTimeoutCtr := GTimeoutCtr s + 1\<rparr>) (enter_ptk_group WPA_PTK_GROUP_REKEYNEGOTIATING i A)"
  have B: "J B" using assms by (auto simp: B_def enter_ptk_group_def change_defs intro!: J_set_sm)
  define C where "C = set_sm i (\<lambda>s. s\<lparr>PInitAKeys := (if sm_wpa s = WPA_VERSION_WPA then False else PInitAKeys s), TimeoutEvt := False\<rparr>) B"
  have C: "J C" using B assms(2) by (auto simp: C_def change_defs intro!: J_set_sm)
  define D where "D = (if wpa_group_state (groups C (sm_group (stas B i))) = WPA_GROUP_SETKEYSDONE
      then wpa_auth_get_seqnum env (GN (groups C (sm_group (stas B i)))) C else (None, C))"
  have D: "J (snd D)" using C by (simp add: D_def J_seqnum)
  show ?thesis
    unfolding sm_WPA_PTK_GROUP_REKEYNEGOTIATING_Enter_def Let_def B_def [symmetric] C_def [symmetric] D_def [symmetric]
    using B D assms(2) by (auto simp: split_beta intro!: J_send J_ieee80211w_kde_add J_random split: option.split)
qed

lemma J_GROUP_REKEYESTABLISHED: "J A \<Longrightarrow> free i \<Longrightarrow> J (sm_WPA_PTK_GROUP_REKEYESTABLISHED_Enter i A)"
  by (auto simp: sm_WPA_PTK_GROUP_REKEYESTABLISHED_Enter_def enter_ptk_group_def Let_def change_defs intro!: J_set_sm J_gkeydone)

lemma J_GROUP_KEYERROR: "J A \<Longrightarrow> free i \<Longrightarrow> J (sm_WPA_PTK_GROUP_KEYERROR_Enter i A)"
  by (auto simp: sm_WPA_PTK_GROUP_KEYERROR_Enter_def enter_ptk_group_def Let_def change_defs intro!: J_set_sm J_gkeydone)

lemma J_free_group_switch:
  assumes A: "J A" and True: "free i"
  shows "J (sm_WPA_PTK_GROUP_Step env i A)"
proof -
  have "J B \<Longrightarrow> J (set_sm i (\<lambda>s. s\<lparr>PtkGroupInit := False\<rparr>) B)" for B by (auto simp: change_defs intro!: J_set_sm)
  note ops = this [OF J_GROUP_IDLE [OF A]] J_GROUP_IDLE [OF A] J_GROUP_REKEYNEGOTIATING [OF A True]
    J_GROUP_REKEYESTABLISHED [OF A True] J_GROUP_KEYERROR [OF A True]
  show ?thesis
    unfolding sm_WPA_PTK_GROUP_Step_def Let_def by (cases "wpa_ptk_group_state (stas A i)") (simp_all add: ops A)
qed

end

text \<open>
  With what a station that is not free does in a step of its two machines, the machines can be run.
\<close>

locale wpa_machines = wpa_changes +
  assumes J_switch: "J A \<Longrightarrow> \<not> free i \<Longrightarrow> sm_WPA_PTK_switch env i A = Some A' \<Longrightarrow> J A'"
    and J_group_switch: "J A \<Longrightarrow> \<not> free i \<Longrightarrow> J (sm_WPA_PTK_GROUP_Step env i A)"
begin

lemma J_PTK_Step: "J A \<Longrightarrow> sm_WPA_PTK_Step env i A = Some A' \<Longrightarrow> J A'"
  by (auto simp: sm_WPA_PTK_Step_def wpa_auth_sm_ptk_update_def Let_def split_beta split: if_splits
      intro: J_INITIALIZE J_DISCONNECT J_DISCONNECTED J_AUTHENTICATION J_AUTHENTICATION2 J_new_anonce J_PTKSTART [OF J_new_anonce]
        J_free_switch J_switch)

lemma J_GROUP_Step: "J A \<Longrightarrow> J (sm_WPA_PTK_GROUP_Step env i A)"
  using J_free_group_switch J_group_switch by (cases "free i")

subsection \<open>Running the machines\<close>

lemma J_control:
  "J A \<Longrightarrow> J (set_sm i (\<lambda>s. s\<lparr>changed := b\<rparr>) A)"
  "J A \<Longrightarrow> J (set_sm i (\<lambda>s. s\<lparr>in_step_loop := b\<rparr>) A)"
  "J A \<Longrightarrow> J (set_sm i (\<lambda>s. s\<lparr>started := b, Init := c\<rparr>) A)"
  "J A \<Longrightarrow> J (set_sm i (\<lambda>s. s\<lparr>Init := b, AuthenticationRequest := c\<rparr>) A)"
  by (auto simp: change_defs intro!: J_set_sm)

lemma J_round:
  assumes step: "wpa_stations J step" and A: "J A" and r: "wpa_sm_round env step i A = Some A'"
  shows "J A'"
proof (cases "pending_deinit (stas A i)")
  case False
  define B where "B = set_group (auth_group A) (\<lambda>g. g\<lparr>g_changed := False\<rparr>) (set_sm i (\<lambda>s. s\<lparr>changed := False\<rparr>) A)"
  have B: "J B" using A by (simp add: B_def J_set_group J_control)
  from r False obtain C where C: "sm_WPA_PTK_Step env i B = Some C"
    and r: "(if pending_deinit (stas C i) then Some C
             else let A = sm_WPA_PTK_GROUP_Step env i C
                  in if pending_deinit (stas A i) then Some A else wpa_group_sm_step env step (auth_group A) A) = Some A'"
    by (auto simp: wpa_sm_round_def B_def [symmetric] split: Option.bind_splits)
  note C = J_PTK_Step [OF B C]
  note D = J_GROUP_Step [OF C, of i]
  from r C D wpa_stations.J_group_sm_step [OF step D] show ?thesis by (simp add: Let_def split: if_splits)
qed (use A r in \<open>simp add: wpa_sm_round_def\<close>)

lemma J_free_sta_sm: "J A \<Longrightarrow> J (wpa_free_sta_sm i A)"
  by (auto simp: wpa_free_sta_sm_def Let_def intro: J_other [OF J_group_put] J_other [OF J_group_put [OF J_gkeydone]])

lemma J_guard:
  assumes loop: "\<And>A A'. J A \<Longrightarrow> loop i A = Some A' \<Longrightarrow> J A'"
    and A: "J A" and r: "wpa_sm_guard loop i A = Some A'"
  shows "J A'"
proof (cases "in_step_loop (stas A i)")
  case False
  with r obtain B where B: "loop i (set_sm i (\<lambda>s. s\<lparr>in_step_loop := True\<rparr>) A) = Some B"
    and A': "A' = (let C = set_sm i (\<lambda>s. s\<lparr>in_step_loop := False\<rparr>) B
                   in if pending_deinit (stas C i) then wpa_free_sta_sm i C else C)"
    by (auto simp: wpa_sm_guard_def Let_def split: Option.bind_splits)
  have "J (set_sm i (\<lambda>s. s\<lparr>in_step_loop := False\<rparr>) B)"
    by (intro J_control loop [OF _ B] A)
  then show ?thesis using J_free_sta_sm by (simp add: A' Let_def)
qed (use A r in \<open>simp add: wpa_sm_guard_def\<close>)

text \<open>By induction on the fuel: inside the loop, other stations are run with less.\<close>

lemma J_loop: "J A \<Longrightarrow> wpa_sm_loop n env i A = Some A' \<Longrightarrow> J A'"
proof (induction n arbitrary: i A A')
  case (Suc n)
  have step: "wpa_stations J (wpa_sm_guard (wpa_sm_loop n env))"
    by unfold_locales (rule J_guard [OF Suc.IH])
  from Suc.prems obtain B where B: "wpa_sm_round env (wpa_sm_guard (wpa_sm_loop n env)) i A = Some B"
    and A': "(if wpa_sm_again i B then wpa_sm_loop n env i B else Some B) = Some A'"
    by (auto split: Option.bind_splits)
  from J_round [OF step Suc.prems(1) B] A' Suc.IH show ?case by (auto split: if_splits)
qed (simp split: if_splits)

lemma J_sm_step: "J A \<Longrightarrow> wpa_sm_step n env i A = Some A' \<Longrightarrow> J A'"
  unfolding wpa_sm_step_def by (rule J_guard [OF J_loop])

lemma J_stations: "wpa_stations J (wpa_sm_step n env)"
  by unfold_locales (rule J_sm_step)

subsection \<open>Rekeying, events and timeouts\<close>

lemma J_group_loop: "J A \<Longrightarrow> wpa_group_loop n env g A = Some A' \<Longrightarrow> J A'"
proof (induction n arbitrary: A)
  case (Suc n)
  from Suc.prems(2) obtain B
    where B: "wpa_group_sm_step env (wpa_sm_step n env) g (set_group g (\<lambda>g. g\<lparr>g_changed := False\<rparr>) A) = Some B"
      and A': "(if g_changed (groups B g) then wpa_group_loop n env g B else Some B) = Some A'"
    by (auto split: Option.bind_splits)
  from wpa_stations.J_group_sm_step [OF J_stations J_set_group [OF Suc.prems(1)] B] A' Suc.IH show ?case by (auto split: if_splits)
qed (simp split: if_splits)

lemma J_rekey_groups: "J A \<Longrightarrow> wpa_rekey_groups n env gs A = Some A' \<Longrightarrow> J A'"
proof (induction gs arbitrary: A)
  case (Cons g gs)
  from Cons.prems(2) obtain B
    where B: "wpa_group_loop n env g (set_group g (\<lambda>g. g\<lparr>GTKReKey := True\<rparr>) (wpa_group_get g A)) = Some B"
      and A': "wpa_rekey_groups n env gs (wpa_group_put g B) = Some A'"
    by (auto split: Option.bind_splits)
  have "J B" by (rule J_group_loop [OF _ B]) (simp add: Cons.prems(1) J_set_group J_group_get)
  then show ?case by (rule Cons.IH [OF J_group_put A'])
qed simp

lemma J_rekey_gtk: "J A \<Longrightarrow> wpa_rekey_gtk n env A = Some A' \<Longrightarrow> J A'"
  by (auto simp: wpa_rekey_gtk_def wpa_rekey_all_groups_def split: Option.bind_splits
      intro!: J_quiet intro: J_rekey_groups)

lemma J_rekey_gmk: "J A \<Longrightarrow> J (wpa_rekey_gmk env' A)"
  by (auto simp: wpa_rekey_gmk_def Let_def split_beta split: option.split intro!: J_quiet J_set_group J_random)

lemma J_request_new_ptk: "J A \<Longrightarrow> J (wpa_request_new_ptk i A)"
  by (auto simp: wpa_request_new_ptk_def change_defs intro!: J_set_sm)

lemma J_event_reauth:
  assumes "J A" and "event_reauth n env i A = Some A'"
  shows "J A'"
proof (cases "started (stas A i)")
  case True
  with assms show ?thesis
    by (auto simp: event_reauth_def Let_def change_defs split: if_splits intro!: J_set_sm J_gkeydone)
next
  case False
  with assms(2) obtain B where "wpa_sm_step n env i (set_sm i (\<lambda>s. s\<lparr>started := True, Init := True\<rparr>) A) = Some B"
    and A': "A' = set_sm i (\<lambda>s. s\<lparr>Init := False, AuthenticationRequest := True\<rparr>) B"
    by (auto simp: event_reauth_def Let_def split: Option.bind_splits)
  then have "J B" using assms(1) J_sm_step J_control(3) by blast
  then show ?thesis by (simp add: A' J_control)
qed

lemma J_event:
  assumes A: "J A" and r: "wpa_auth_sm_event n env ev i A = Some A'"
  shows "J A'"
proof (cases "ev = WPA_DRV_STA_REMOVED")
  case False
  define first where "first = (if ev = WPA_DEAUTH \<or> ev = WPA_DISASSOC
      then Some (set_sm i (\<lambda>s. s\<lparr>DeauthenticationRequest := True, PMK := []\<rparr>) A)
      else if ev = WPA_REAUTH \<or> ev = WPA_REAUTH_EAPOL then event_reauth n env i A else Some A)"
  from r False obtain B where B: "first = Some B"
    and A': "(if i \<notin> set (sta_list B) then Some B
              else let A = event_remove_keys env ev i B
                   in if in_step_loop (stas A i) then Some (set_sm i (\<lambda>s. s\<lparr>changed := True\<rparr>) A)
                      else wpa_sm_step n env i A) = Some A'"
    by (auto simp: wpa_auth_sm_event_def first_def [symmetric] split: Option.bind_splits)
  have "J B"
    using A B by (auto simp: first_def change_defs split: if_splits intro: J_set_sm J_event_reauth)
  note C = this J_event_remove_keys [OF this, of env ev i]
  show ?thesis
    using A' C J_control(1) [OF C(2), of i True] J_sm_step [OF C(2)] by (auto simp: Let_def split: if_splits)
qed (use A r in \<open>auto simp: wpa_auth_sm_event_def change_defs intro!: J_set_sm\<close>)

lemma J_disconnect_now: "J A \<Longrightarrow> sta_disconnect_now n env i reason A = Some A' \<Longrightarrow> J A'"
  by (auto simp: sta_disconnect_now_def Let_def split: if_splits intro!: J_quiet elim!: J_event [rotated])

lemma J_sta_deinit: "J A \<Longrightarrow> J (wpa_auth_sta_deinit i A)"
  by (auto simp: wpa_auth_sta_deinit_def Let_def change_defs intro!: J_quiet J_set_sm J_free_sta_sm)

lemma J_eapol_timeout: "J A \<Longrightarrow> wpa_send_eapol_timeout n env i A = Some A' \<Longrightarrow> J A'"
  by (auto simp: wpa_send_eapol_timeout_def change_defs split: if_splits elim!: J_sm_step [rotated] intro!: J_set_sm)

lemma J_radius_psk_resp: "J A \<Longrightarrow> J (wpa_auth_sta_radius_psk_resp b i A)"
  by (auto simp: wpa_auth_sta_radius_psk_resp_def Let_def change_defs intro!: J_quiet J_set_sm)

lemma J_ensure_group: "J A \<Longrightarrow> J (snd (wpa_auth_ensure_group env' vlan A))"
  by (auto simp: wpa_auth_ensure_group_def Let_def split_beta split: option.split
      intro!: J_set_group J_group_get J_find_or_add_group)

lemma J_release_group: "J A \<Longrightarrow> J (snd (wpa_auth_release_group vlan A))"
  by (auto simp: wpa_auth_release_group_def Let_def split: option.split intro!: J_set_group J_group_put)

subsection \<open>Receiving\<close>

text \<open>The tests of a received frame, up to the point where it is taken or dropped.\<close>

lemma J_valid_counter: "J A \<Longrightarrow> free i \<Longrightarrow> J (snd (wpa_auth_valid_counter data msg i A))"
  by (auto simp: wpa_auth_valid_counter_def Let_def change_defs intro!: J_set_sm)

lemma J_try_alt_snonce: "J A \<Longrightarrow> free i \<Longrightarrow> J (snd (wpa_try_alt_snonce env' data i A))"
  by (auto simp: wpa_try_alt_snonce_def Let_def split_beta change_defs split: option.split
      intro!: J_set_sm J_update_vlan)

lemma J_receive_mic:
  assumes "J A" and "free i"
  shows "J (snd (receive_mic env' data msg i A))"
proof -
  define B where "B = set_sm i (\<lambda>s. s\<lparr>MICVerified := False\<rparr>) A"
  have B: "J B" using assms by (auto simp: B_def change_defs intro!: J_set_sm)
  define verified where "verified = (\<lambda>A. (True, emit (CancelWpaTimeout (WpaSendEapolTimeout i))
      (set_sm i (\<lambda>s. s\<lparr>MICVerified := True, pending_1_of_4_timeout := False\<rparr>) A)))"
  have v: "J C \<Longrightarrow> J (snd (verified C))" for C using assms(2) by (auto simp: verified_def change_defs intro!: J_quiet J_set_sm)
  show ?thesis
    unfolding receive_mic_def Let_def B_def [symmetric] verified_def [symmetric]
    using B v J_try_alt_snonce [OF B assms(2)] by (simp add: split_beta)
qed

lemma J_countermeasures: "J A \<Longrightarrow> J (ieee80211_tkip_countermeasures_start env' A)"
proof -
  have "J B \<Longrightarrow> J (fold wpa_auth_sta_deinit is B)" for B "is"
    by (induction "is" arbitrary: B) (simp_all add: J_sta_deinit)
  then show "J A \<Longrightarrow> ?thesis"
    by (simp add: ieee80211_tkip_countermeasures_start_def wpa_gtk_rekey_def gtk_rekey_once_def Let_def J_config_group_keys J_update_gtk)
qed

lemma J_error_report: "J A \<Longrightarrow> J (snd (wpa_receive_error_report env' i b A))"
proof -
  have mic: "J B \<Longrightarrow> J (B\<lparr>auth_RemoteMICFailures := n\<rparr>)" for B n by (erule J_other) simp_all
  have sta: "J B \<Longrightarrow> J (set_sm i (\<lambda>s. s\<lparr>sm_RemoteMICFailures := sm_RemoteMICFailures s + 1\<rparr>) B)" for B
    by (auto simp: change_defs intro!: J_set_sm)
  have rep: "J B \<Longrightarrow> J (emit (MicFailureReport a) B)" for a B by (erule J_quiet) simp
  show "J A \<Longrightarrow> ?thesis"
    unfolding wpa_receive_error_report_def Let_def
    using mic sta rep J_request_new_ptk J_countermeasures by simp
qed

lemma J_receive_request:
  assumes "J A" and "receive_request n env data i A = Some (b, A')"
  shows "J A'"
proof -
  define B where "B = set_sm i (\<lambda>s. s\<lparr>req_replay_counter_used := True, req_replay_counter := key_replay_counter data\<rparr>) A"
  have B: "J B" using assms(1) by (auto simp: B_def change_defs intro!: J_set_sm)
  have C: "J (emit (CancelWpaTimeout WpaRekeyGtk) B)" using B by (rule J_quiet) simp
  have e: "wpa_receive_error_report env i for_group B = (b, A') \<Longrightarrow> J A'" for for_group
    using J_error_report [OF B, of env i for_group] by simp
  show ?thesis
    using assms B C e J_request_new_ptk [OF B] J_rekey_gtk [OF C]
    unfolding receive_request_def Let_def B_def [symmetric] by (auto split: if_splits)
qed

subsection \<open>Association\<close>

lemma J_use_pmksa: "J A \<Longrightarrow> free i \<Longrightarrow> J (use_pmksa env' i data A)"
proof -
  have used: "J A \<Longrightarrow> J (A\<lparr>dot11RSNAPMKIDUsed := p\<rparr>)" for A p by (erule J_other) simp_all
  have pmksa: "J A \<Longrightarrow> free i \<Longrightarrow> J (set_sm i (\<lambda>s. s\<lparr>sm_pmksa := e\<rparr>) A)" for A e by (auto simp: change_defs intro!: J_set_sm)
  show "J A \<Longrightarrow> free i \<Longrightarrow> ?thesis"
    unfolding use_pmksa_def Let_def using used pmksa by (auto split: option.split)
qed

lemma J_params:
  assumes "J A"
  shows "J (set_sm i (\<lambda>s. s\<lparr>wpa_key_mgmt := akm\<rparr>) A)"
    and "J (set_sm i (\<lambda>s. s\<lparr>mgmt_frame_prot := m, mfpr := r\<rparr>) A)"
    and "J (set_sm i (\<lambda>s. s\<lparr>pairwise := c\<rparr>) A)"
    and "J (set_sm i (\<lambda>s. s\<lparr>pairwise := c, sm_wpa := v\<rparr>) A)"
    and "J (set_sm i (accept_key_id data cf) A)"
    and "J (set_sm i (\<lambda>s. s\<lparr>sm_wpa_ie := w\<rparr>) A)"
    and "J (set_sm i (\<lambda>s. s\<lparr>sm_rsnxe := w\<rparr>) A)"
  using assms by (auto simp: change_defs accept_key_id_def Let_def intro!: J_set_sm)

lemma J_copy_element: "J A \<Longrightarrow> J (snd (copy_element env' old new A))"
  by (auto simp: copy_element_def os_malloc_def Let_def intro!: J_quiet split: option.split)

lemma J_accept_elements: "J A \<Longrightarrow> J (snd (accept_elements env' i e ie data A))"
  by (auto simp: accept_elements_def Let_def split_beta intro!: J_params J_copy_element split: option.split list.split)

lemma J_snd_if: "J (snd x) \<Longrightarrow> J (snd y) \<Longrightarrow> J (snd (if P then x else y))"
  by simp

lemma J_snd_option: "J (snd x) \<Longrightarrow> (\<And>c. J (snd (f c))) \<Longrightarrow> J (snd (case m of None \<Rightarrow> x | Some c \<Rightarrow> f c))"
  by (simp split: option.split)

text \<open>A request can give the station a cached key; that is the caller's to show.\<close>

lemma J_validate:
  assumes A: "J A" and pmksa: "\<And>B data. J B \<Longrightarrow> J (use_pmksa env i data B)" and v: "wpa_validate_wpa_ie env i e A = Some (r, A')"
  shows "J A'"
  using v
proof (cases rule: validate_cases)
  case (read ie res data B)
  have "stas B = stas A" "trace B = trace A" using read(2) read_request_keeps [of e ie A res data B] by (auto split: if_splits)
  then have B: "J B" by (rule J_other [OF A])
  have "J (snd (validate_request env i e (ie ! 0 = 48) ie data B))"
    unfolding validate_request_def Let_def
    by (intro J_snd_if J_snd_option; (unfold snd_conv)?; intro J_accept_elements J_params pmksa B)
  then show ?thesis using read(3) B by (metis snd_conv)
qed (simp add: A)

end

section \<open>The interface of the operations\<close>

text \<open>
  What reaches the authenticator from outside: association requests, frames, timeouts, and the calls of
  the rest of the access point.
\<close>

datatype wpa_input =
    StaInit nat mac
  | StaElements nat assoc_elements
  | StaDppZ nat "bytes option"
  | StaSsidProtection nat bool
  | StaAssociated nat
  | StaNoWpa nat
  | StaDeinit nat
  | StaVlan nat int
  | Receive nat bytes
  | SmEvent nat wpa_event
  | SmNotify nat
  | TxStatus nat bool
  | RadiusPskResp nat bool
  | Expired wpa_timer
  | EnsureGroup int
  | ReleaseGroup int
  | RekeyGtkNow
  | TransitionDisable byte
  | GenWpaIe

primrec wpa_timeout :: "nat \<Rightarrow> wpa_env \<Rightarrow> wpa_timer \<Rightarrow> wpa_authenticator \<Rightarrow> wpa_authenticator option" where
  "wpa_timeout n env (WpaSendEapolTimeout i) A = wpa_send_eapol_timeout n env i A"
| "wpa_timeout n env (WpaSmCallStep i) A = wpa_sm_step n env i A"
| "wpa_timeout n env (WpaRekeyPtk i) A = wpa_rekey_ptk n env i A"
| "wpa_timeout n env WpaRekeyGtk A = wpa_rekey_gtk n env A"
| "wpa_timeout n env WpaRekeyGmk A = Some (wpa_rekey_gmk env A)"

primrec wpa_exec :: "nat \<Rightarrow> wpa_env \<Rightarrow> wpa_input \<Rightarrow> wpa_authenticator \<Rightarrow> wpa_authenticator option" where
  "wpa_exec n env (StaInit i addr) A = Some (wpa_auth_sta_init i addr A)"
| "wpa_exec n env (StaElements i e) A = map_option snd (wpa_validate_wpa_ie env i e A)"
| "wpa_exec n env (StaDppZ i z) A = Some (wpa_auth_set_dpp_z z i A)"
| "wpa_exec n env (StaSsidProtection i b) A = Some (wpa_auth_set_ssid_protection b i A)"
| "wpa_exec n env (StaAssociated i) A = wpa_auth_sta_associated n env i A"
| "wpa_exec n env (StaNoWpa i) A = Some (wpa_auth_sta_no_wpa i A)"
| "wpa_exec n env (StaDeinit i) A = Some (wpa_auth_sta_deinit i A)"
| "wpa_exec n env (StaVlan i vlan) A = Some (snd (wpa_auth_sta_set_vlan env i vlan A))"
| "wpa_exec n env (Receive i data) A = wpa_receive n env data i A"
| "wpa_exec n env (SmEvent i ev) A = wpa_auth_sm_event n env ev i A"
| "wpa_exec n env (SmNotify i) A = Some (wpa_auth_sm_notify i A)"
| "wpa_exec n env (TxStatus i ack) A = Some (wpa_auth_eapol_key_tx_status ack i A)"
| "wpa_exec n env (RadiusPskResp i ok) A = Some (wpa_auth_sta_radius_psk_resp ok i A)"
| "wpa_exec n env (Expired t) A = wpa_timeout n env t A"
| "wpa_exec n env (EnsureGroup vlan) A = Some (snd (wpa_auth_ensure_group env vlan A))"
| "wpa_exec n env (ReleaseGroup vlan) A = Some (snd (wpa_auth_release_group vlan A))"
| "wpa_exec n env RekeyGtkNow A = Some (wpa_auth_rekey_gtk A)"
| "wpa_exec n env (TransitionDisable b) A = Some (wpa_auth_set_transition_disable b A)"
| "wpa_exec n env GenWpaIe A = map_option snd (wpa_auth_gen_wpa_ie env A)"

primrec wpa_run :: "nat \<Rightarrow> wpa_env \<Rightarrow> wpa_input list \<Rightarrow> wpa_authenticator \<Rightarrow> wpa_authenticator option" where
  "wpa_run n env [] A = Some A"
| "wpa_run n env (x # xs) A = wpa_exec n env x A \<bind> wpa_run n env xs"


text \<open>
  The inputs that are allowed, and what happens when a station comes, associates or sends a frame. A
  free station may be accepted and may be heard; of the others this is the invariant's matter.
\<close>

locale wpa_operations = wpa_machines +
  fixes allowed :: "wpa_input \<Rightarrow> bool"
  assumes J_sta_init: "J A \<Longrightarrow> allowed (StaInit i addr) \<Longrightarrow> J (wpa_auth_sta_init i addr A)"
    and J_reassociate: "J A \<Longrightarrow> allowed (StaAssociated i) \<Longrightarrow>
          J (set_sm i (\<lambda>s. s\<lparr>key_replay := replicate RSNA_MAX_EAPOL_RETRIES no_counter, ReAuthenticationRequest := True\<rparr>) A)"
    and J_take: "J A \<Longrightarrow> free i \<Longrightarrow> J (set_sm i (mark_counters rc msg) A)"
    and J_store: "J A \<Longrightarrow> free i \<Longrightarrow> J (set_sm i (store_message data) A)"
    and J_cached: "J A \<Longrightarrow> \<not> free i \<Longrightarrow> J (use_pmksa env i ie_data A)"
    and J_heard: "J A \<Longrightarrow> \<not> free i \<Longrightarrow> allowed (Receive i data) \<Longrightarrow> wpa_receive n env data i A = Some A' \<Longrightarrow> J A'"
begin

lemma J_receive_verified:
  assumes "J A" and "free i" and r: "receive_verified n env data msg i A = Some A'"
  shows "J A'"
proof -
  from r obtain stop B where B: "(if msg = REQUEST then receive_request n env data i A
        else Some (False, set_sm i (mark_counters (key_replay_counter data) msg) A)) = Some (stop, B)"
    and A': "(if stop then Some B else wpa_sm_step n env i (set_sm i (store_message data) B)) = Some A'"
    by (auto simp: receive_verified_def split: Option.bind_splits)
  have "J B" using B assms(1,2) J_receive_request J_take by (auto split: if_splits)
  then show ?thesis using A' J_sm_step [OF J_store [OF _ assms(2)]] by (auto split: if_splits)
qed

lemma J_receive:
  assumes A: "J A" and "allowed (Receive i data)" and r: "wpa_receive n env data i A = Some A'"
  shows "J A'"
proof (cases "free i \<and> receive_message env A (stas A i) data \<noteq> None")
  case True
  then obtain msg where free: "free i" and msg: "receive_message env A (stas A i) data = Some msg" by auto
  define B where "B = snd (wpa_auth_valid_counter data msg i A)"
  have B: "J B" unfolding B_def by (rule J_valid_counter [OF A free])
  define C where "C = (if msg = PAIRWISE_2 then emit (AddRandomness (key_nonce data)) B else B)"
  have C: "J C" using B by (simp add: C_def J_quiet)
  note D = J_receive_mic [OF C free, of env data msg]
  from r have "A' = B \<or> sta_disconnect_now n env i 2 (emit PoolReady C) = Some A' \<or> A' = C \<or>
      A' = snd (receive_mic env data msg i C) \<or> receive_verified n env data msg i (snd (receive_mic env data msg i C)) = Some A'"
    unfolding wpa_receive_def msg option.case Let_def split_beta B_def [symmetric] C_def [symmetric]
    by (auto split: if_split_asm)
  then show ?thesis
    using B C D J_disconnect_now [OF J_quiet [OF C, of PoolReady]] J_receive_verified [OF D free] by auto
next
  case False
  then show ?thesis using A assms(2) r J_heard [OF A] by (cases "free i") (auto simp: wpa_receive_def)
qed

lemma J_associated:
  assumes A: "J A" and "allowed (StaAssociated i)" and r: "wpa_auth_sta_associated n env i A = Some A'"
  shows "J A'"
proof (cases "conf_wpa (conf A) = 0 \<or> started (stas A i)")
  case True
  then show ?thesis using A r J_sm_step J_reassociate [OF A assms(2)] by (auto simp: wpa_auth_sta_associated_def split: if_splits)
next
  case False
  with r obtain B where B: "wpa_sm_step n env i (set_sm i (\<lambda>s. s\<lparr>started := True, Init := True\<rparr>) A) = Some B"
    and A': "(if i \<notin> set (sta_list B) then Some B
              else wpa_sm_step n env i (set_sm i (\<lambda>s. s\<lparr>Init := False, AuthenticationRequest := True\<rparr>) B)) = Some A'"
    by (auto simp: wpa_auth_sta_associated_def split: Option.bind_splits)
  have B: "J B" by (rule J_sm_step [OF _ B]) (simp add: A J_control)
  then show ?thesis using A' J_sm_step [OF J_control(4) [OF B]] by (auto split: if_splits)
qed

lemma J_timeout: "J A \<Longrightarrow> wpa_timeout n env t A = Some A' \<Longrightarrow> J A'"
  by (cases t) (auto simp: wpa_rekey_ptk_def J_rekey_gmk
      intro: J_eapol_timeout J_sm_step J_sm_step [OF J_request_new_ptk] J_rekey_gtk)

lemma J_gen_wpa_ie:
  assumes "J A" and "wpa_auth_gen_wpa_ie env A = Some (r, A')"
  shows "J A'"
proof -
  have e: "J B \<Longrightarrow> J (B\<lparr>auth_wpa_ie := ie\<rparr>)" for B ie by (erule J_other) simp_all
  have q: "J B \<Longrightarrow> J (emit (Malloc k) B)" for B k by (erule J_quiet) simp
  from assms(2) obtain z where z: "own_elements (conf A) = Some z" by (auto simp: wpa_auth_gen_wpa_ie_def)
  show ?thesis using assms e [OF q [OF e]] q [OF e]
    by (cases z) (auto simp: wpa_auth_gen_wpa_ie_def z os_malloc_def Let_def split: if_split_asm)
qed

lemma J_setters:
  assumes "J A"
  shows "J (wpa_auth_set_dpp_z z i A)" and "J (wpa_auth_set_ssid_protection b i A)" and "J (wpa_auth_sta_no_wpa i A)"
    and "J (wpa_auth_set_transition_disable c A)" and "J (wpa_auth_sm_notify i A)" and "J (wpa_auth_eapol_key_tx_status ack i A)"
    and "J (wpa_auth_rekey_gtk A)"
proof -
  show "J (wpa_auth_set_transition_disable c A)" by (rule J_other [OF assms]) (simp_all add: wpa_auth_set_transition_disable_def)
qed (use assms in \<open>auto simp: wpa_auth_set_dpp_z_def wpa_auth_set_ssid_protection_def wpa_auth_sta_no_wpa_def wpa_auth_sm_notify_def
      wpa_auth_eapol_key_tx_status_def wpa_auth_rekey_gtk_def change_defs intro!: J_quiet J_set_sm\<close>)

lemma J_exec:
  assumes "J A" and "allowed x" and "wpa_exec n env x A = Some A'"
  shows "J A'"
proof (cases x)
  case (StaElements i e)
  have "J B \<Longrightarrow> J (use_pmksa env i data B)" for B data using J_use_pmksa J_cached by (cases "free i")
  from J_validate [OF assms(1) this] show ?thesis using assms(3) StaElements by auto
next
  case GenWpaIe
  then show ?thesis using assms J_gen_wpa_ie by auto
qed (use assms J_setters [OF assms(1)] in \<open>auto intro: J_sta_init J_associated J_sta_deinit J_set_vlan J_receive J_event
      J_radius_psk_resp J_timeout J_ensure_group J_release_group\<close>)

lemma J_run: "J A \<Longrightarrow> \<forall>x \<in> set xs. allowed x \<Longrightarrow> wpa_run n env xs A = Some A' \<Longrightarrow> J A'"
  by (induction xs arbitrary: A) (auto split: Option.bind_splits intro: J_exec)

end

end
