(* ===== verification/Wpa_Access.thy ===== *)
theory Wpa_Access
  imports Wpa_Runs
begin

text \<open>
  Access without a key. A station is watched, whatever the others do: if no frame received from it
  carries a MIC under a transient key that is derived from one of the master keys of the access point,
  then in no run of the authenticator is its port opened, a pairwise key installed for it, or a frame
  sent to it that carries a group key.
\<close>

section \<open>Who has a key\<close>

text \<open>
  The master keys \<open>K\<close> are those the key stores and the PMKSA caches can give. A frame of a stranger verifies under no
  transient key that comes from one of them.
\<close>

definition master_keys :: "wpa_env \<Rightarrow> bytes set \<Rightarrow> bool" where
  "master_keys env K \<longleftrightarrow>
     (\<forall>tr a p. p \<in> set (cb_get_psk env tr a) \<longrightarrow> fst p \<in> K) \<and>
     (\<forall>tr a k n. cb_get_msk env tr a = Some k \<longrightarrow> n \<in> {32, 48} \<longrightarrow> take n (take 64 k) \<in> K) \<and>
     (\<forall>tr a p e. pmksa_get env tr a p = Some e \<or> pmksa_get_okc env tr a p = Some e \<longrightarrow> ref_pmk e \<in> K)"

definition stranger_frame :: "wpa_env \<Rightarrow> bytes set \<Rightarrow> bytes \<Rightarrow> bool" where
  "stranger_frame env K data \<longleftrightarrow>
     (\<forall>pmk \<in> K. \<forall>aa spa anonce snonce akm cipher z kdk ptk.
        wpa_pmk_to_ptk (crypto env) pmk ''Pairwise key expansion'' aa spa anonce snonce akm cipher z kdk = Some ptk \<longrightarrow>
        \<not> wpa_verify_key_mic (crypto env) akm (length pmk) ptk data)"

text \<open>A station that has not shown that it knows a key.\<close>

definition keyless :: "wpa_env \<Rightarrow> bytes set \<Rightarrow> wpa_sm \<Rightarrow> bool" where
  "keyless env K s \<longleftrightarrow>
     \<not> PTK_valid s \<and> \<not> MICVerified s \<and> \<not> update_snonce s \<and> \<not> GUpdateStationKeys s \<and> \<not> PInitAKeys s \<and>
     wpa_ptk_group_state s = WPA_PTK_GROUP_IDLE \<and>
     wpa_ptk_state s \<notin> {WPA_PTK_PTKCALCNEGOTIATING2, WPA_PTK_PTKINITNEGOTIATING, WPA_PTK_PTKINITDONE} \<and>
     (\<forall>d. last_rx_eapol_key s = Some d \<longrightarrow> stranger_frame env K d) \<and>
     PMK s \<in> insert [] K \<and> (\<forall>e. sm_pmksa s = Some e \<longrightarrow> ref_pmk e \<in> K)"

definition no_access :: "wpa_env \<Rightarrow> bytes set \<Rightarrow> nat \<Rightarrow> mac \<Rightarrow> wpa_authenticator \<Rightarrow> bool" where
  "no_access env K v a A \<longleftrightarrow>
     master_keys env K \<longrightarrow>
       (\<forall>i. sm_addr (stas A i) = a \<longleftrightarrow> i = v) \<and> keyless env K (stas A v) \<and> (\<forall>x \<in> set (trace A). \<not> gives_access a x)"

text \<open>Inputs: the frames of the watched station verify under no key, and its address is its own.\<close>

fun stranger_input :: "wpa_env \<Rightarrow> bytes set \<Rightarrow> nat \<Rightarrow> mac \<Rightarrow> wpa_input \<Rightarrow> bool" where
  "stranger_input env K v a (Receive i data) \<longleftrightarrow> (i = v \<longrightarrow> stranger_frame env K data)"
| "stranger_input env K v a (StaInit i addr) \<longleftrightarrow> (addr = a \<longleftrightarrow> i = v)"
| "stranger_input env K v a _ \<longleftrightarrow> True"

section \<open>The invariant under elementary changes\<close>

lemma keyless_harmless:
  "keyless env K s \<Longrightarrow> same_station s t \<Longrightarrow> harmless s t \<Longrightarrow> keyless env K t"
  by (auto simp: keyless_def change_defs)

lemma no_access_emit: "no_access env K v a A \<Longrightarrow> \<not> gives_access a x \<Longrightarrow> no_access env K v a (emit x A)"
  by (auto simp: no_access_def)

lemma no_access_call:
  "no_access env K v a A \<Longrightarrow> (gives_access a x \<Longrightarrow> \<exists>i. i \<noteq> v \<and> a = sm_addr (stas A i)) \<Longrightarrow> no_access env K v a (emit x A)"
  by (auto simp: no_access_def)

lemma no_access_set_sm:
  "no_access env K v a A \<Longrightarrow> sm_addr (f (stas A i)) = sm_addr (stas A i) \<Longrightarrow>
   (i = v \<Longrightarrow> master_keys env K \<Longrightarrow> keyless env K (stas A v) \<Longrightarrow> keyless env K (f (stas A v))) \<Longrightarrow>
   no_access env K v a (set_sm i f A)"
  by (auto simp: no_access_def)

lemma no_access_same:
  "no_access env K v a A \<Longrightarrow> stas B = stas A \<Longrightarrow> trace B = trace A \<Longrightarrow> no_access env K v a B"
  by (simp add: no_access_def)

lemma no_access_set_group: "no_access env K v a A \<Longrightarrow> no_access env K v a (set_group g f A)"
  by (erule no_access_same) simp_all

lemma group_call_no_access: "group_call x \<Longrightarrow> \<not> gives_access a x"
  by (cases x) auto

text \<open>Message 1 is the only frame that is sent to the watched station.\<close>

lemma no_access_send_eapol:
  assumes "no_access env K v a A" and "i \<noteq> v \<or> \<not> bit info WPA_KEY_INFO_MIC \<and> keyidx = 0"
  shows "no_access env K v a (send_eapol env' i info rsc nonce kde keyidx encr A)"
proof (cases "master_keys env K")
  case True
  define full where "full = info OR of_nat (eapol_version_used (stas A i)) OR
      flags (flag_of (encr \<and> sm_wpa (stas A i) = WPA_VERSION_WPA2) WPA_KEY_INFO_ENCR_KEY_DATA) OR
      (if sm_wpa (stas A i) \<noteq> WPA_VERSION_WPA2 then push_bit 4 (of_nat keyidx) else 0)"
  have "\<not> bit (of_nat (eapol_version_used s) :: u16) 8" for s by (simp add: eapol_version_used_def bit_of_nat_iff_bit)
  moreover have "\<not> bit (flags (flag_of b 12)) 8" for b by (simp add: flags_def flag_of_def bit_simps)
  ultimately have full: "\<not> bit full 8" if "i = v" using assms(2) that by (auto simp: full_def bit_simps)
  have B: "no_access env K v a (set_sm i (\<lambda>s. s\<lparr>key_replay := next_replay_counter (key_replay s)\<rparr>) A)"
    by (rule no_access_set_sm [OF assms(1)]) (simp_all add: keyless_def)
  have C: "no_access env K v a X \<Longrightarrow> no_access env K v a (wpa_auth_set_eapol i WPA_EAPOL_inc_EapolFramesTx True X)" for X
    by (simp add: wpa_auth_set_eapol_def no_access_emit)
  have D: "no_access env K v a X \<Longrightarrow> no_access env K v a (emit (SendEapol (sm_addr (stas A i)) (eapol_frame cf s full rc n iv rsc' l kd mic) e) X)"
    for X cf s rc n iv rsc' l kd mic e
    using full assms(1) True by (cases "i = v") (auto intro!: no_access_emit simp: no_access_def)
  show ?thesis
    unfolding send_eapol_def Let_def full_def [symmetric]
    by (cases "eapol_key_data (crypto env') (stas A i) (Counter (groups (set_sm i (\<lambda>s. s\<lparr>key_replay := next_replay_counter (key_replay s)\<rparr>) A)
        (sm_group (stas A i)))) kde encr") (auto simp: split_beta intro!: B C D no_access_set_group split: option.split)
qed (simp add: no_access_def)

lemma no_access_wpa_send_eapol:
  assumes "no_access env K v a A" and "i \<noteq> v \<or> \<not> bit info WPA_KEY_INFO_MIC \<and> keyidx = 0"
  shows "no_access env K v a (wpa_send_eapol env' i info rsc nonce kde keyidx encr A)"
  using no_access_send_eapol [OF assms]
  by (auto simp: wpa_send_eapol_def Let_def keyless_def intro!: no_access_emit no_access_set_sm)

interpretation watched: wpa_changes "no_access env K v a" env "\<lambda>i. i \<noteq> v" for env K v a
proof
  fix A B i g x f n gs l info keyidx rsc nonce kde encr
  assume A: "no_access env K v a A"
  show "group_call x \<Longrightarrow> no_access env K v a (emit x A)"
    by (rule no_access_call [OF A]) (simp add: group_call_no_access)
  show "no_access env K v a (set_group g f A)" by (rule no_access_set_group [OF A])
  show "no_access env K v a (A\<lparr>next_group := n, groups := gs\<rparr>)" "no_access env K v a (A\<lparr>group_list := l\<rparr>)"
    by (rule no_access_same [OF A]; simp)+
  show "no_access env K v a (set_sm i (\<lambda>s. s\<lparr>GUpdateStationKeys := False\<rparr>) A)"
    "no_access env K v a (set_sm i (\<lambda>s. s\<lparr>Disconnect := True\<rparr>) A)"
    by (rule no_access_set_sm [OF A]; simp add: keyless_def)+
  show "wpa_ptk_state (stas A i) = WPA_PTK_PTKINITDONE \<Longrightarrow> no_access env K v a (set_sm i (\<lambda>s. s\<lparr>GUpdateStationKeys := True\<rparr>) A)"
    by (rule no_access_set_sm [OF A]) (auto simp: keyless_def)
  show "stas B = stas A \<Longrightarrow> trace B = trace A \<Longrightarrow> no_access env K v a B" by (rule no_access_same [OF A])
  show "i \<noteq> v \<or> \<not> bit info WPA_KEY_INFO_MIC \<and> keyidx = 0 \<Longrightarrow>
        no_access env K v a (wpa_send_eapol env i info rsc nonce kde keyidx encr A)"
    by (rule no_access_wpa_send_eapol [OF A])
next
  fix A i f
  show "no_access env K v a A \<Longrightarrow> same_station (stas A i) (f (stas A i)) \<Longrightarrow> i \<noteq> v \<or> harmless (stas A i) (f (stas A i)) \<Longrightarrow>
        no_access env K v a (set_sm i f A)"
    by (erule no_access_set_sm) (auto simp: same_station_def intro: keyless_harmless)
next
  fix A x
  show "no_access env K v a A \<Longrightarrow> (\<And>b. gives_access b x \<Longrightarrow> \<exists>i. i \<noteq> v \<and> b = sm_addr (stas A i)) \<Longrightarrow> no_access env K v a (emit x A)"
    by (erule no_access_call) blast
qed

section \<open>The machines of the watched station\<close>

lemma no_access_INITPMK: "no_access env K v a A \<Longrightarrow> no_access env K v a (sm_WPA_PTK_INITPMK_Enter env v A)"
  by (auto simp: sm_WPA_PTK_INITPMK_Enter_def Let_def keyless_def master_keys_def
      intro!: no_access_set_sm watched.J_set_eapol watched.J_enter_ptk split: option.split)

lemma psk_is_master_key: "master_keys env K \<Longrightarrow> (k, vlan) \<in> set (cb_get_psk env tr a) \<Longrightarrow> k \<in> K"
  by (auto simp: master_keys_def)

lemma first_psk_is_master_key: "master_keys env K \<Longrightarrow> cb_get_psk env tr a = (k, vlan) # ps \<Longrightarrow> k \<in> K"
  using psk_is_master_key [of env K k vlan tr a] by simp

lemma no_access_INITPSK: "no_access env K v a A \<Longrightarrow> no_access env K v a (sm_WPA_PTK_INITPSK_Enter env v A)"
  by (auto simp: sm_WPA_PTK_INITPSK_Enter_def Let_def keyless_def
      intro!: no_access_set_sm watched.J_enter_ptk dest: first_psk_is_master_key split: list.split)

text \<open>No key fits the frame that the machine looks at.\<close>

lemma wpa_pmk_to_ptk_empty: "wpa_pmk_to_ptk c [] label aa spa anonce snonce akm cipher z kdk_len = None"
  by (simp add: wpa_pmk_to_ptk_def)

lemma stranger_not_verified:
  assumes "stranger_frame env K data" and "pmk \<in> insert [] K" and "wpa_derive_ptk env A s snonce pmk no_kdk = Some ptk"
  shows "\<not> wpa_verify_key_mic (crypto env) (wpa_key_mgmt s) (length pmk) ptk data"
  using assms by (auto simp: stranger_frame_def wpa_derive_ptk_def Let_def wpa_pmk_to_ptk_empty)

lemma stranger_trial:
  assumes "stranger_frame env K data" and "pmk \<in> insert [] K"
  shows "try_pmk env A s data pmk \<noteq> TrialOk ptk"
  using stranger_not_verified [OF assms]
  by (auto simp: try_pmk_def try_pmk_kdk_def split: option.split ptk_trial.split if_splits)

lemma stranger_no_pmk:
  "stranger_frame env K data \<Longrightarrow> fst ` set cands \<subseteq> insert [] K \<Longrightarrow> find_pmk env A s data cands = None"
proof (induction env A s data cands rule: find_pmk.induct)
  case (2 env A s data pmk vlan rest)
  then have "try_pmk env A s data pmk \<noteq> TrialOk ptk" for ptk by (intro stranger_trial [of env K]) auto
  with 2 show ?case by (auto split: ptk_trial.split)
qed simp

lemma keyless_candidates:
  "master_keys env K \<Longrightarrow> keyless env K s \<Longrightarrow> fst ` set (ptk_candidates env A s) \<subseteq> insert [] K"
  by (auto simp: ptk_candidates_def keyless_def dest: psk_is_master_key split: option.split)

lemma no_access_PTKCALCNEGOTIATING:
  assumes "no_access env K v a A" and "sm_WPA_PTK_PTKCALCNEGOTIATING_Enter env v A = Some A'"
  shows "no_access env K v a A'"
proof (cases "master_keys env K")
  case True
  define B where "B = set_sm v (\<lambda>s. s\<lparr>EAPOLKeyReceived := False, update_snonce := False\<rparr>) (enter_ptk WPA_PTK_PTKCALCNEGOTIATING v A)"
  have B: "no_access env K v a B"
    using assms(1) by (auto simp: B_def keyless_def intro!: no_access_set_sm watched.J_enter_ptk)
  then have s: "keyless env K (stas B v)" using True by (simp add: no_access_def)
  have "find_pmk env B (stas B v) data (ptk_candidates env B (stas B v)) = None" if "last_rx_eapol_key (stas B v) = Some data" for data
    using that s by (intro stranger_no_pmk [OF _ keyless_candidates [OF True s]]) (simp add: keyless_def)
  with assms(2) B show ?thesis
    unfolding sm_WPA_PTK_PTKCALCNEGOTIATING_Enter_def Let_def B_def [symmetric]
    by (auto simp: keyless_def intro!: no_access_emit no_access_set_sm split: option.splits if_splits)
qed (simp add: no_access_def)

section \<open>One step of its machines\<close>

lemma no_access_step_AUTHENTICATION2: "no_access env K v a A \<Longrightarrow> no_access env K v a (step_AUTHENTICATION2 env v A)"
  by (auto simp: step_AUTHENTICATION2_def Let_def split_beta intro!: no_access_INITPMK no_access_INITPSK watched.J_get_eapol)

lemma no_access_switch:
  assumes "no_access env K v a A" and "sm_WPA_PTK_switch env v A = Some A'"
  shows "no_access env K v a A'"
proof (cases "master_keys env K")
  case True
  then have "keyless env K (stas A v)" using assms(1) by (simp add: no_access_def)
  with assms watched.J_get_eapol [OF assms(1), of env v WPA_EAPOL_keyAvailable] show ?thesis
    by (auto simp: sm_WPA_PTK_switch_def Let_def split_beta keyless_def
        intro: watched.J_DISCONNECTED watched.J_INITIALIZE watched.J_AUTHENTICATION2 no_access_step_AUTHENTICATION2 watched.J_PTKSTART
          watched.J_DISCONNECT watched.J_failure watched.J_retry_limit no_access_PTKCALCNEGOTIATING
        split: wpa_ptk_st.splits if_splits)
qed (simp add: no_access_def)

lemma no_access_GROUP_Step:
  assumes "no_access env K v a A"
  shows "no_access env K v a (sm_WPA_PTK_GROUP_Step env v A)"
proof (cases "master_keys env K")
  case True
  then have "keyless env K (stas A v)" using assms by (simp add: no_access_def)
  with assms show ?thesis
    by (auto simp: sm_WPA_PTK_GROUP_Step_def Let_def keyless_def intro!: no_access_set_sm watched.J_GROUP_IDLE)
qed (simp add: no_access_def)

interpretation watched: wpa_machines "no_access env K v a" env "\<lambda>i. i \<noteq> v" for env K v a
  by unfold_locales (auto intro: no_access_switch no_access_GROUP_Step)

section \<open>Receiving the frame of a stranger\<close>

text \<open>Without a transient key no MIC is verified, and no message but 1 is pending.\<close>

lemma keyless_valid_counter: "keyless env K (stas A i) \<Longrightarrow> snd (wpa_auth_valid_counter data msg i A) = A"
  by (auto simp: wpa_auth_valid_counter_def Let_def keyless_def)

lemma keyless_receive_mic:
  "keyless env K (stas A i) \<Longrightarrow> receive_mic env data msg i A = (True, set_sm i (\<lambda>s. s\<lparr>MICVerified := False\<rparr>) A)"
  by (auto simp: receive_mic_def Let_def keyless_def)

lemma no_access_receive_verified:
  assumes "no_access env K v a A" and "master_keys env K" and "stranger_frame env K data"
    and "\<not> MICVerified (stas A v)" and r: "receive_verified n env data msg v A = Some A'"
  shows "no_access env K v a A'"
proof (cases "msg = REQUEST")
  case False
  have "no_access env K v a (set_sm v (store_message data) (set_sm v (mark_counters (key_replay_counter data) msg) A))"
    using assms(1,3) by (auto simp: keyless_def store_message_def mark_counters_def Let_def intro!: no_access_set_sm)
  then show ?thesis using r False watched.J_sm_step by (simp add: receive_verified_def)
qed (use assms in \<open>simp add: receive_verified_def receive_request_def Let_def\<close>)

lemma no_access_receive:
  assumes A: "no_access env K v a A" and data: "stranger_frame env K data" and r: "wpa_receive n env data v A = Some A'"
  shows "no_access env K v a A'"
proof (cases "master_keys env K \<and> receive_message env A (stas A v) data \<noteq> None")
  case True
  then obtain msg where K: "master_keys env K" and msg: "receive_message env A (stas A v) data = Some msg" by auto
  define B where "B = (if msg = PAIRWISE_2 then emit (AddRandomness (key_nonce data)) A else A)"
  have B: "no_access env K v a B" using A by (simp add: B_def no_access_emit)
  then have k: "keyless env K (stas A v)" "keyless env K (stas B v)" using K A by (simp_all add: no_access_def)
  define C where "C = set_sm v (\<lambda>s. s\<lparr>MICVerified := False\<rparr>) B"
  have C: "no_access env K v a C" "\<not> MICVerified (stas C v)"
    using B by (auto simp: C_def keyless_def intro!: no_access_set_sm)
  have vc: "wpa_auth_valid_counter data msg v A = (fst (wpa_auth_valid_counter data msg v A), A)"
    using keyless_valid_counter [OF k(1), of data msg] by (metis prod.collapse)
  from r have "A' = A \<or> A' = B \<or> sta_disconnect_now n env v 2 (emit PoolReady B) = Some A' \<or>
               receive_verified n env data msg v C = Some A'"
    unfolding wpa_receive_def msg option.case Let_def
    by (subst (asm) vc, unfold prod.case, fold B_def)
      (auto simp: keyless_receive_mic [OF k(2)] C_def [symmetric] split: if_splits)
  then show ?thesis
    using A B watched.J_disconnect_now [OF no_access_emit [OF B, of PoolReady]] no_access_receive_verified [OF C(1) K data C(2)] by auto
qed (use A r in \<open>auto simp: wpa_receive_def no_access_def\<close>)

section \<open>Its association\<close>

text \<open>A new station is one without a key.\<close>

lemma keyless_zero: "keyless env K (zero_sm\<lparr>sm_addr := addr, sm_group := g\<rparr>)"
  by (simp add: keyless_def zero_sm_def)

lemma no_access_sta_init:
  "no_access env K v a A \<Longrightarrow> (addr = a \<longleftrightarrow> i = v) \<Longrightarrow> no_access env K v a (wpa_auth_sta_init i addr A)"
  using watched.J_group_get [of env K v a "A\<lparr>sta_list := i # sta_list A, stas := (stas A)(i := zero_sm\<lparr>sm_addr := addr, sm_group := g\<rparr>)\<rparr>" for g]
  by (auto simp: wpa_auth_sta_init_def Let_def no_access_def keyless_zero)

lemma find_pmksa_Some: "find_pmksa get ps = Some (p, e) \<Longrightarrow> get p = Some e"
  by (induction ps) (auto split: option.splits)

lemma no_access_use_pmksa:
  assumes "no_access env K v a A"
  shows "no_access env K v a (use_pmksa env v data A)"
proof (cases "master_keys env K")
  case True
  define found where "found = (case find_pmksa (pmksa_get env (trace A) (sm_addr (stas A v))) (ie_pmkid data) of
      Some (p, e) \<Rightarrow> Some (ref_pmkid e, e)
    | None \<Rightarrow> if okc (conf A) then find_pmksa (pmksa_get_okc env (trace A) (sm_addr (stas A v))) (ie_pmkid data) else None)"
  have "ref_pmk e \<in> K" if "found = Some (p, e)" for p e
    using True that by (auto simp: found_def master_keys_def dest!: find_pmksa_Some split: option.splits if_splits)
  moreover have "no_access env K v a (A\<lparr>dot11RSNAPMKIDUsed := p\<rparr>)" for p by (rule no_access_same [OF assms]) simp_all
  ultimately show ?thesis
    unfolding use_pmksa_def Let_def found_def [symmetric]
    using assms by (auto simp: keyless_def intro!: no_access_set_sm split: option.split)
qed (simp add: no_access_def)

section \<open>Runs\<close>

interpretation watched: wpa_operations "no_access env K v a" env "\<lambda>i. i \<noteq> v" "stranger_input env K v a" for env K v a
proof
  fix A A' i addr n data ie_data rc msg
  assume A: "no_access env K v a A"
  show "stranger_input env K v a (StaInit i addr) \<Longrightarrow> no_access env K v a (wpa_auth_sta_init i addr A)"
    using no_access_sta_init [OF A] by simp
  show "no_access env K v a (set_sm i (\<lambda>s. s\<lparr>key_replay := replicate RSNA_MAX_EAPOL_RETRIES no_counter, ReAuthenticationRequest := True\<rparr>) A)"
    by (rule no_access_set_sm [OF A]) (simp_all add: keyless_def)
  show "i \<noteq> v \<Longrightarrow> no_access env K v a (set_sm i (mark_counters rc msg) A)"
    by (rule no_access_set_sm [OF A]) (simp_all add: mark_counters_def Let_def)
  show "i \<noteq> v \<Longrightarrow> no_access env K v a (set_sm i (store_message data) A)"
    by (rule no_access_set_sm [OF A]) (simp_all add: store_message_def)
  show "\<not> i \<noteq> v \<Longrightarrow> no_access env K v a (use_pmksa env i ie_data A)" using no_access_use_pmksa [OF A] by simp
  show "\<not> i \<noteq> v \<Longrightarrow> stranger_input env K v a (Receive i data) \<Longrightarrow> wpa_receive n env data i A = Some A' \<Longrightarrow> no_access env K v a A'"
    using no_access_receive [OF A] by simp
qed

text \<open>
  C1. No access without a key. Watch a station that has not shown that it knows a key, as every new
  station, the only one with its address; the other stations may be in any state, may know keys, and do
  what they like. Let the authenticator run on any inputs in which the frames received from the watched
  station carry no MIC under a transient key derived from one of the master keys that the key stores
  can give. Then its port is not opened, no pairwise key is installed for it, and it is sent no frame
  but message 1 of the four-way handshake, so that it gets no group key. The fuel is arbitrary, and
  with \<open>cut_off\<close> the runs that use it up are covered, too; a run without a result is then one in which
  the code reads or frees memory that it must not.
\<close>

theorem no_key_no_access:
  assumes "master_keys env K" and "keyless env K (stas A v)" and "\<forall>i. sm_addr (stas A i) = a \<longleftrightarrow> i = v"
    and "\<forall>out \<in> set (trace A). \<not> gives_access a out"
    and "\<forall>x \<in> set xs. stranger_input env K v a x" and "wpa_run n env xs A = Some A'"
  shows "\<forall>out \<in> set (trace A'). \<not> gives_access a out"
proof -
  have "no_access env K v a A" using assms(2-4) by (auto simp: no_access_def)
  from watched.J_run [OF this assms(5,6)] assms(1) show ?thesis by (simp add: no_access_def)
qed

end
