(* ===== verification/Wpa_Handshake.thy ===== *)
theory Wpa_Handshake
  imports Wpa_Receive
begin

text \<open>
  The four-way handshake from the side of the authenticator: a correct message 2 is answered with
  message 3, a correct message 4 completes the handshake, and messages that stay away end it. The
  fuel of a run is the number of its rounds, which the theorems give.
\<close>

section \<open>Machines at rest\<close>

text \<open>No request is pending at a station, and its group machine and that of the authenticator rest.\<close>

definition no_request :: "wpa_sm \<Rightarrow> bool" where
  "no_request s \<longleftrightarrow> \<not> Init s \<and> \<not> Disconnect s \<and> \<not> DeauthenticationRequest s \<and> \<not> AuthenticationRequest s \<and>
     \<not> ReAuthenticationRequest s \<and> \<not> PTKRequest s \<and> \<not> in_step_loop s \<and> \<not> pending_deinit s"

definition group_idle :: "wpa_sm \<Rightarrow> bool" where
  "group_idle s \<longleftrightarrow> wpa_ptk_group_state s = WPA_PTK_GROUP_IDLE \<and> \<not> PtkGroupInit s \<and> \<not> GUpdateStationKeys s \<and>
     (sm_wpa s = WPA_VERSION_WPA \<longrightarrow> \<not> PInitAKeys s)"

definition group_rests :: "wpa_group \<Rightarrow> bool" where
  "group_rests g \<longleftrightarrow> wpa_group_state g = WPA_GROUP_SETKEYSDONE \<and> \<not> GInit g \<and> \<not> GTKReKey g"

lemma group_step_rests: "group_rests (groups A g) \<Longrightarrow> wpa_group_sm_step env step g A = Some A"
  by (simp add: group_rests_def wpa_group_sm_step_def Let_def)

lemma sta_group_step_rests:
  "group_idle (stas A i) \<Longrightarrow> \<not> Init (stas A i) \<Longrightarrow> sm_WPA_PTK_GROUP_Step env i A = A"
  by (auto simp: group_idle_def sm_WPA_PTK_GROUP_Step_def Let_def)

lemma group_rests_changed [simp]: "group_rests (g\<lparr>g_changed := b\<rparr>) \<longleftrightarrow> group_rests g"
  by (simp add: group_rests_def)

text \<open>One round of a station that reacts with \<open>B\<close>, and what is left to do after it.\<close>

definition round_start :: "nat \<Rightarrow> wpa_authenticator \<Rightarrow> wpa_authenticator" where
  "round_start i A = set_group (auth_group A) (\<lambda>g. g\<lparr>g_changed := False\<rparr>) (set_sm i (\<lambda>s. s\<lparr>changed := False\<rparr>) A)"

lemma round_start_fields [simp]:
  "stas (round_start i A) = (stas A)(i := (stas A i)\<lparr>changed := False\<rparr>)"
  "conf (round_start i A) = conf A" "trace (round_start i A) = trace A" "group_list (round_start i A) = group_list A"
  "auth_addr (round_start i A) = auth_addr A" "sta_list (round_start i A) = sta_list A" "auth_wpa_ie (round_start i A) = auth_wpa_ie A"
  "groups (round_start i A) = (groups A)(auth_group A := (groups A (auth_group A))\<lparr>g_changed := False\<rparr>)"
  by (simp_all add: round_start_def)

lemma loop_round:
  assumes "\<not> pending_deinit (stas A i)" and "sm_WPA_PTK_Step env i (round_start i A) = Some B"
    and "no_request (stas B i) \<or> \<not> Init (stas B i) \<and> \<not> pending_deinit (stas B i)" and "group_idle (stas B i)"
    and "group_rests (groups B (auth_group B))"
  shows "wpa_sm_loop (Suc n) env i A =
    (if changed (stas B i) \<or> g_changed (groups B (auth_group B)) then wpa_sm_loop n env i B else Some B)"
  using assms
  by (auto simp: wpa_sm_round_def round_start_def [symmetric] sta_group_step_rests group_step_rests wpa_sm_again_def
      no_request_def)

text \<open>A machine that has nothing to do: the last round.\<close>

lemma loop_rests:
  assumes "no_request (stas A i) \<or> \<not> pending_deinit (stas A i)"
    and "sm_WPA_PTK_Step env i (round_start i A) = Some (round_start i A)"
    and "\<not> Init (stas A i)" and "group_idle (stas A i)" and "group_rests (groups A (auth_group A))"
  shows "wpa_sm_loop (Suc n) env i A = Some (round_start i A)"
  using assms by (subst loop_round [of A i env "round_start i A"]) (auto simp: no_request_def group_idle_def)

section \<open>Message 4\<close>

lemma PTKINITDONE_completes:
  assumes "Pair (stas A i)" and "cb_result env (trace A @ [k]) = 0"
    and "k = (let s = stas A i in if use_ext_key_id s
               then SetKey 0 WPA_ALG_NONE (sm_addr s) (unat (keyidx_active s)) [] KEY_FLAG_PAIRWISE_RX_TX_MODIFY
               else SetKey 0 (wpa_cipher_to_alg (pairwise s)) (sm_addr s) 0 (tk (PTK s)) KEY_FLAG_PAIRWISE_RX_TX)"
  defines "A' \<equiv> sm_WPA_PTK_PTKINITDONE_Enter env i A" and "s \<equiv> stas A i"
  shows "stas A' = (stas A)(i := s\<lparr>changed := True, wpa_ptk_state := WPA_PTK_PTKINITDONE, EAPOLKeyReceived := False,
           pairwise_set := True, PInitAKeys := (if sm_wpa s = WPA_VERSION_WPA then True else PInitAKeys s),
           has_GTK := (if sm_wpa s = WPA_VERSION_WPA then has_GTK s else True), ptkstart_without_success := 0\<rparr>)"
    and "groups A' = groups A" and "group_list A' = group_list A" and "sta_list A' = sta_list A"
    and "\<exists>ts. trace A' = trace A @ [k] @ ts @ [StorePtksa (sm_addr s) (pairwise s) (PTK s)] @
           (if authorizes_itself s then [SetEapol (sm_addr s) WPA_EAPOL_authorized True] else []) @
           [SetEapol (sm_addr s) WPA_EAPOL_portValid True, SetEapol (sm_addr s) WPA_EAPOL_keyAvailable False,
            SetEapol (sm_addr s) WPA_EAPOL_keyDone True]"
proof -
  note defs = A'_def s_def sm_WPA_PTK_PTKINITDONE_Enter_def install_ptk_def wpa_auth_set_key_def enter_ptk_def
    wpa_auth_set_ptk_rekey_timer_def wpa_auth_set_eapol_def
  have [simp]: "cb_result env (trace A @ [k]) = 0" by (rule assms(2))
  note k = assms(3) [unfolded Let_def]
  show "stas A' = (stas A)(i := s\<lparr>changed := True, wpa_ptk_state := WPA_PTK_PTKINITDONE, EAPOLKeyReceived := False,
           pairwise_set := True, PInitAKeys := (if sm_wpa s = WPA_VERSION_WPA then True else PInitAKeys s),
           has_GTK := (if sm_wpa s = WPA_VERSION_WPA then has_GTK s else True), ptkstart_without_success := 0\<rparr>)"
    using assms(1,2) by (cases "use_ext_key_id (stas A i)") (simp_all add: defs k Let_def)
  show "groups A' = groups A" "group_list A' = group_list A" "sta_list A' = sta_list A"
    using assms(1,2) by (cases "use_ext_key_id (stas A i)"; simp add: defs k Let_def)+
  show "\<exists>ts. trace A' = trace A @ [k] @ ts @ [StorePtksa (sm_addr s) (pairwise s) (PTK s)] @
           (if authorizes_itself s then [SetEapol (sm_addr s) WPA_EAPOL_authorized True] else []) @
           [SetEapol (sm_addr s) WPA_EAPOL_portValid True, SetEapol (sm_addr s) WPA_EAPOL_keyAvailable False,
            SetEapol (sm_addr s) WPA_EAPOL_keyDone True]"
    using assms(1,2) by (cases "use_ext_key_id (stas A i)") (simp_all add: defs k Let_def authorizes_itself_def)
qed

text \<open>A message 4 that is accepted: what the authenticator holds when its machines start to run.\<close>

definition message4_taken :: "bytes \<Rightarrow> nat \<Rightarrow> wpa_authenticator \<Rightarrow> wpa_authenticator" where
  "message4_taken data i A =
     set_sm i (store_message data) (set_sm i (mark_counters (key_replay_counter data) PAIRWISE_4)
       (emit (CancelWpaTimeout (WpaSendEapolTimeout i)) (set_sm i (\<lambda>s. s\<lparr>MICVerified := True, pending_1_of_4_timeout := False\<rparr>) A)))"

lemma receive_message4:
  assumes "receive_message env A s data = Some PAIRWISE_4" and "wpa_replay_counter_valid (key_replay s) (key_replay_counter data)"
    and "wpa_ptk_state s = WPA_PTK_PTKINITNEGOTIATING" and "PTK_valid s" and "\<not> update_snonce s"
    and "\<not> bit (key_info data) WPA_KEY_INFO_ACK" and "bit (key_info data) WPA_KEY_INFO_MIC"
    and "wpa_verify_key_mic (crypto env) (wpa_key_mgmt s) (length (PMK s)) (PTK s) data" and "s = stas A i"
  shows "wpa_receive n env data i A = wpa_sm_step n env i (message4_taken data i A)"
  using assms
  by (simp add: wpa_receive_def wpa_auth_valid_counter_def receive_mic_def receive_verified_def message4_taken_def Let_def
      set_sm_def comp_def)

lemma pairwise_message_bits:
  "receive_message env A s data = Some msg \<Longrightarrow> msg = PAIRWISE_2 \<or> msg = PAIRWISE_4 \<Longrightarrow>
   bit (key_info data) WPA_KEY_INFO_KEY_TYPE \<and> \<not> bit (key_info data) WPA_KEY_INFO_REQUEST"
  by (auto simp: receive_message_def classify_message_def Let_def split: if_splits)

lemma message4_taken_fields [simp]:
  "stas (message4_taken data i A) = (stas A)(i := store_message data (mark_counters (key_replay_counter data) PAIRWISE_4
     ((stas A i)\<lparr>MICVerified := True, pending_1_of_4_timeout := False\<rparr>)))"
  "groups (message4_taken data i A) = groups A" "group_list (message4_taken data i A) = group_list A"
  "trace (message4_taken data i A) = trace A @ [CancelWpaTimeout (WpaSendEapolTimeout i)]"
  by (simp_all add: message4_taken_def)

lemma message4_step:
  assumes "receive_message env B s data = Some PAIRWISE_4" and "no_request s" and "s = stas A i"
    and "wpa_ptk_state s = WPA_PTK_PTKINITNEGOTIATING" and "\<not> update_snonce s"
  defines "D \<equiv> round_start i (set_sm i (\<lambda>s. s\<lparr>in_step_loop := True\<rparr>) (message4_taken data i A))"
  shows "sm_WPA_PTK_Step env i D = Some (sm_WPA_PTK_PTKINITDONE_Enter env i D)"
  using assms(2-5) pairwise_message_bits [OF assms(1)] unfolding D_def
  by (simp add: sm_WPA_PTK_Step_def sm_WPA_PTK_switch_def step_PTKINITNEGOTIATING_def pairwise_received_def Let_def
      no_request_def store_message_def mark_counters_def)

lemma done_rests:
  "no_request ((stas A i)\<lparr>in_step_loop := False\<rparr>) \<Longrightarrow> wpa_ptk_state (stas A i) = WPA_PTK_PTKINITDONE \<Longrightarrow> sm_WPA_PTK_Step env i A = Some A"
  by (simp add: sm_WPA_PTK_Step_def sm_WPA_PTK_switch_def no_request_def Let_def)

text \<open>A verified message 4 completes the handshake.\<close>

lemma message4_completes_handshake:
  assumes "receive_message env A s data = Some PAIRWISE_4" and "wpa_replay_counter_valid (key_replay s) (key_replay_counter data)"
    and "wpa_ptk_state s = WPA_PTK_PTKINITNEGOTIATING" and "PTK_valid s" and "\<not> update_snonce s"
    and "\<not> bit (key_info data) WPA_KEY_INFO_ACK" and "bit (key_info data) WPA_KEY_INFO_MIC"
    and "wpa_verify_key_mic (crypto env) (wpa_key_mgmt s) (length (PMK s)) (PTK s) data"
    and "s = stas A i" and "no_request s" and "group_idle s" and "group_rests (groups A (auth_group A))"
    and "Pair s" and "\<not> use_ext_key_id s" and "sm_wpa s = WPA_VERSION_WPA2" and "\<forall>tr. cb_result env tr = 0"
  shows "\<exists>A'. wpa_receive (Suc (Suc n)) env data i A = Some A' \<and>
           wpa_ptk_state (stas A' i) = WPA_PTK_PTKINITDONE \<and> PTK (stas A' i) = PTK s \<and> pairwise_set (stas A' i) \<and>
           SetKey 0 (wpa_cipher_to_alg (pairwise s)) (sm_addr s) 0 (tk (PTK s)) KEY_FLAG_PAIRWISE_RX_TX \<in> set (trace A') \<and>
           SetEapol (sm_addr s) WPA_EAPOL_portValid True \<in> set (trace A') \<and>
           (authorizes_itself s \<longrightarrow> SetEapol (sm_addr s) WPA_EAPOL_authorized True \<in> set (trace A'))"
proof -
  define B where "B = set_sm i (\<lambda>s. s\<lparr>in_step_loop := True\<rparr>) (message4_taken data i A)"
  define D where "D = round_start i B"
  define E where "E = sm_WPA_PTK_PTKINITDONE_Enter env i D"
  have s: "stas D i = (store_message data (mark_counters (key_replay_counter data) PAIRWISE_4
             (s\<lparr>MICVerified := True, pending_1_of_4_timeout := False\<rparr>)))\<lparr>in_step_loop := True, changed := False\<rparr>"
    by (simp add: D_def B_def assms(9))
  have [simp]: "groups D (auth_group A) = (groups A (auth_group A))\<lparr>g_changed := False\<rparr>" "group_list D = group_list A"
    by (simp_all add: D_def B_def)
  have same: "Pair (stas D i) = Pair s" "use_ext_key_id (stas D i) = use_ext_key_id s" "sm_addr (stas D i) = sm_addr s"
    "pairwise (stas D i) = pairwise s" "PTK (stas D i) = PTK s" "sm_wpa (stas D i) = sm_wpa s"
    "authorizes_itself (stas D i) = authorizes_itself s"
    by (simp_all add: s store_message_def mark_counters_def Let_def authorizes_itself_def)
  note E = PTKINITDONE_completes [of D i env, OF _ _ refl, folded E_def, simplified Let_def same assms(13-16) if_False]
  have r: "no_request ((stas E i)\<lparr>in_step_loop := False\<rparr>)" "group_idle (stas E i)" "\<not> Init (stas E i)" "\<not> pending_deinit (stas E i)"
    "changed (stas E i)" "wpa_ptk_state (stas E i) = WPA_PTK_PTKINITDONE" "PTK (stas E i) = PTK s" "pairwise_set (stas E i)"
    using assms(10,11,15) E(1) by (simp_all add: s store_message_def mark_counters_def Let_def no_request_def group_idle_def)
  have g: "group_rests (groups E (auth_group E))" using E(2,3) assms(12) by simp
  have "wpa_sm_loop (Suc (Suc n)) env i B = wpa_sm_loop (Suc n) env i E"
    using message4_step [OF assms(1,10,9,3,5), folded B_def, folded D_def, folded E_def] r g assms(10)
    by (subst loop_round [of B i env E]) (auto simp: B_def assms(9) [symmetric] no_request_def store_message_def mark_counters_def Let_def D_def)
  also have "\<dots> = Some (round_start i E)"
    using r g by (intro loop_rests) (auto intro!: done_rests simp: no_request_def)
  finally have loop: "wpa_sm_loop (Suc (Suc n)) env i B = Some (round_start i E)" .
  have "wpa_receive (Suc (Suc n)) env data i A = Some (set_sm i (\<lambda>s. s\<lparr>in_step_loop := False\<rparr>) (round_start i E))"
    unfolding receive_message4 [OF assms(1-9)] wpa_sm_step_def wpa_sm_guard_def Let_def
    using loop assms(9,10) r by (simp add: B_def [symmetric] no_request_def store_message_def mark_counters_def Let_def)
  then show ?thesis using r E(5) by auto
qed

text \<open>
  C7. A correct message 4 completes the handshake. While message 3 is answered, with no other request
  pending and the driver accepting the key, a message 4 with a pending replay counter and a valid MIC
  makes the machine reach its final state within two rounds: the temporal key of the transient key is
  installed for the station, and its port is opened.
\<close>

theorem message4_completes:
  assumes "receive_message env A s data = Some PAIRWISE_4" and "wpa_replay_counter_valid (key_replay s) (key_replay_counter data)"
    and "wpa_ptk_state s = WPA_PTK_PTKINITNEGOTIATING" and "PTK_valid s" and "\<not> update_snonce s"
    and "\<not> bit (key_info data) WPA_KEY_INFO_ACK" and "bit (key_info data) WPA_KEY_INFO_MIC"
    and "wpa_verify_key_mic (crypto env) (wpa_key_mgmt s) (length (PMK s)) (PTK s) data"
    and "s = stas A i" and "no_request s" and "group_idle s" and "group_rests (groups A (auth_group A))"
    and "Pair s" and "\<not> use_ext_key_id s" and "sm_wpa s = WPA_VERSION_WPA2" and "\<forall>tr. cb_result env tr = 0"
  shows "\<exists>A'. wpa_receive (Suc (Suc n)) env data i A = Some A' \<and>
           wpa_ptk_state (stas A' i) = WPA_PTK_PTKINITDONE \<and> PTK (stas A' i) = PTK s \<and> pairwise_set (stas A' i) \<and>
           SetKey 0 (wpa_cipher_to_alg (pairwise s)) (sm_addr s) 0 (tk (PTK s)) KEY_FLAG_PAIRWISE_RX_TX \<in> set (trace A') \<and>
           SetEapol (sm_addr s) WPA_EAPOL_portValid True \<in> set (trace A') \<and>
           (authorizes_itself s \<longrightarrow> SetEapol (sm_addr s) WPA_EAPOL_authorized True \<in> set (trace A'))"
  by (rule message4_completes_handshake [OF assms])

section \<open>The key data of message 3 fits its buffer\<close>

lemma length_add_kde: "length (wpa_add_kde kde d1 d2) = 6 + length d1 + length d2"
  by (simp add: wpa_add_kde_def)

lemma length_group_key_pn: "length (fst (group_key_pn env g idx A)) = 6"
  by (auto simp: group_key_pn_def wpa_auth_get_seqnum_def Let_def split: option.split)

lemma length_random: "fst (random_get_bytes env n A) = Some b \<Longrightarrow> length b \<le> n"
  by (auto simp: random_get_bytes_def Let_def)

lemma length_key_or_random:
  "fst (if b then random_get_bytes env n A else (Some (take n k), B)) = Some key \<Longrightarrow> length key \<le> n"
  by (auto simp: random_get_bytes_def Let_def split: if_splits)

lemma length_mgmt_kde: "length (fst (ieee80211w_kde_add env i A)) \<le> ieee80211w_kde_len (conf A) (stas A i)"
  unfolding ieee80211w_kde_add_def ieee80211w_kde_len_def Let_def split_beta
  by (cases "mgmt_frame_prot (stas A i)"; cases "beacon_prot (conf A)")
    (auto simp: length_add_kde length_group_key_pn dest!: length_key_or_random split: option.split split del: if_split)

text \<open>The management keys leave the state of the stations and of the groups as it is.\<close>

lemma call_fields [simp]:
  "stas (snd (random_get_bytes env n A)) = stas A" "conf (snd (random_get_bytes env n A)) = conf A"
  "groups (snd (random_get_bytes env n A)) = groups A" "group_list (snd (random_get_bytes env n A)) = group_list A"
  "stas (snd (wpa_auth_get_seqnum env n A)) = stas A" "conf (snd (wpa_auth_get_seqnum env n A)) = conf A"
  "groups (snd (wpa_auth_get_seqnum env n A)) = groups A" "group_list (snd (wpa_auth_get_seqnum env n A)) = group_list A"
  by (simp_all add: random_get_bytes_def wpa_auth_get_seqnum_def Let_def)

lemma pn_fields [simp]:
  "stas (snd (group_key_pn env g n A)) = stas A" "conf (snd (group_key_pn env g n A)) = conf A"
  "groups (snd (group_key_pn env g n A)) = groups A" "group_list (snd (group_key_pn env g n A)) = group_list A"
  by (simp_all add: group_key_pn_def Let_def split_beta)

lemma key_or_random_fields [simp]:
  "stas (snd (if b then random_get_bytes env n A else (k, A))) = stas A"
  "conf (snd (if b then random_get_bytes env n A else (k, A))) = conf A"
  "groups (snd (if b then random_get_bytes env n A else (k, A))) = groups A"
  "group_list (snd (if b then random_get_bytes env n A else (k, A))) = group_list A"
  by simp_all

lemma kde_add_fields [simp]:
  "stas (snd (ieee80211w_kde_add env i A)) = stas A" "conf (snd (ieee80211w_kde_add env i A)) = conf A"
  "groups (snd (ieee80211w_kde_add env i A)) = groups A" "group_list (snd (ieee80211w_kde_add env i A)) = group_list A"
  unfolding ieee80211w_kde_add_def Let_def split_beta
  by (cases "mgmt_frame_prot (stas A i)"; cases "beacon_prot (conf A)"; simp split: option.split split del: if_split)+

text \<open>
  C12. The key data of message 3 fits the buffer that is allocated for it, whatever the configuration,
  the group keys and the elements of the access point: the length computed in advance is at least
  the number of bytes written, so that sending message 3 never writes beyond the buffer.
\<close>

theorem message3_fits:
  "send_message3 env i wpa_ie secure gtk gtkidx rsc encr A \<noteq> None \<and>
   length (message3_kde A (stas A i) wpa_ie gtk gtkidx (fst (ieee80211w_kde_add env i A)))
     \<le> message3_kde_len A (stas A i) wpa_ie gtk"
proof -
  have len: "length (message3_kde B (stas A i) wpa_ie gtk gtkidx (fst (ieee80211w_kde_add env i A))) \<le>
             message3_kde_len A (stas A i) wpa_ie gtk" if "conf B = conf A" for B
    using length_mgmt_kde [of env i A] that
    by (simp add: message3_kde_def message3_kde_len_def length_add_kde split: option.split)
  then show ?thesis by (simp add: send_message3_def Let_def split_beta not_less)
qed

section \<open>Message 2\<close>

definition message2_taken :: "bytes \<Rightarrow> nat \<Rightarrow> wpa_authenticator \<Rightarrow> wpa_authenticator" where
  "message2_taken data i A =
     set_sm i (store_message data) (set_sm i (mark_counters (key_replay_counter data) PAIRWISE_2)
       (set_sm i (\<lambda>s. s\<lparr>MICVerified := False\<rparr>) (emit (AddRandomness (key_nonce data)) A)))"

lemma receive_message2:
  assumes "receive_message env A s data = Some PAIRWISE_2" and "wpa_replay_counter_valid (key_replay s) (key_replay_counter data)"
    and "wpa_ptk_state s = WPA_PTK_PTKSTART" and "\<not> PTK_valid s" and "\<not> reject_4way_hs_for_entropy (groups A (sm_group s))"
    and "\<not> bit (key_info data) WPA_KEY_INFO_ACK" and "bit (key_info data) WPA_KEY_INFO_MIC" and "s = stas A i"
  shows "wpa_receive n env data i A = wpa_sm_step n env i (message2_taken data i A)"
  using assms
  by (simp add: wpa_receive_def wpa_auth_valid_counter_def receive_mic_def receive_verified_def message2_taken_def Let_def)

lemma message2_taken_fields [simp]:
  "stas (message2_taken data i A) = (stas A)(i := store_message data (mark_counters (key_replay_counter data) PAIRWISE_2
     ((stas A i)\<lparr>MICVerified := False\<rparr>)))"
  "groups (message2_taken data i A) = groups A" "group_list (message2_taken data i A) = group_list A"
  "conf (message2_taken data i A) = conf A" "auth_addr (message2_taken data i A) = auth_addr A"
  "auth_wpa_ie (message2_taken data i A) = auth_wpa_ie A"
  by (simp_all add: message2_taken_def)

text \<open>The search for the key looks at few fields.\<close>

definition same_keys :: "wpa_sm \<Rightarrow> wpa_sm \<Rightarrow> bool" where
  "same_keys s t \<longleftrightarrow> sm_addr s = sm_addr t \<and> ANonce s = ANonce t \<and> SNonce s = SNonce t \<and> sm_rsnxe s = sm_rsnxe t \<and>
     dpp_z s = dpp_z t \<and> wpa_key_mgmt s = wpa_key_mgmt t \<and> pairwise s = pairwise t \<and> PMK s = PMK t"

lemma try_pmk_same:
  "same_keys s t \<Longrightarrow> conf A = conf B \<Longrightarrow> auth_addr A = auth_addr B \<Longrightarrow> try_pmk env A s data pmk = try_pmk env B t data pmk"
  by (simp add: same_keys_def try_pmk_def try_pmk_kdk_def wpa_derive_ptk_def Let_def cong: option.case_cong ptk_trial.case_cong)

lemma find_pmk_same:
  assumes "same_keys s t" and "conf A = conf B" and "auth_addr A = auth_addr B"
  shows "find_pmk env A s data ps = find_pmk env B t data ps"
  using try_pmk_same [OF assms] by (induction ps) (auto split: ptk_trial.split)

lemma message2_data_same:
  "wpa_key_mgmt s = wpa_key_mgmt t \<Longrightarrow> message2_key_data env s n ptk data = message2_key_data env t n ptk data"
  by (simp add: message2_key_data_def Let_def)

lemma message2_mismatch_same:
  "conf A = conf B \<Longrightarrow> wpa_key_mgmt s = wpa_key_mgmt t \<Longrightarrow> sm_wpa_ie s = sm_wpa_ie t \<Longrightarrow> sm_rsnxe s = sm_rsnxe t \<Longrightarrow>
   dpp_z s = dpp_z t \<Longrightarrow> message2_mismatch A s kde = message2_mismatch B t kde"
  by (simp add: message2_mismatch_def cong: option.case_cong)

text \<open>The state after a message 2 that one of the pre-shared keys fits.\<close>

lemma PTKCALCNEGOTIATING_accepts:
  assumes s: "s = stas A i" and "uses_psk s" and psk: "\<forall>tr. cb_get_psk env tr (sm_addr s) = ps"
    and "last_rx_eapol_key s = Some data" and find: "find_pmk env A s data ps = Some (pmk, 0, ptk)"
    and kd: "message2_key_data env s (wpa_mic_len (wpa_key_mgmt s) (length (PMK s))) ptk data = Some (Inr kd)"
    and "wpa_parse_kde_ies kd = (0, kde)" and "\<not> message2_mismatch A s kde"
  obtains B where "sm_WPA_PTK_PTKCALCNEGOTIATING_Enter env i A = Some B"
    and "stas B i = s\<lparr>changed := True, wpa_ptk_state := WPA_PTK_PTKCALCNEGOTIATING, EAPOLKeyReceived := False, update_snonce := False,
           pending_1_of_4_timeout := False, PMK := take 32 pmk, MICVerified := True, PTK := ptk, PTK_valid := True\<rparr>"
    and "conf B = conf A" and "groups B = groups A" and "group_list B = group_list A" and "auth_wpa_ie B = auth_wpa_ie A"
proof -
  let ?A = "set_sm i (\<lambda>s. s\<lparr>EAPOLKeyReceived := False, update_snonce := False\<rparr>) (enter_ptk WPA_PTK_PTKCALCNEGOTIATING i A)"
  let ?s = "stas ?A i"
  let ?A2 = "set_sm i (\<lambda>s. s\<lparr>PMK := pmk\<rparr>) ?A"
  have same: "same_keys ?s s" by (simp add: same_keys_def s enter_ptk_def)
  have s': "uses_psk ?s" "sm_addr ?s = sm_addr s" "last_rx_eapol_key ?s = Some data" "wpa_key_mgmt ?s = wpa_key_mgmt s" "PMK ?s = PMK s"
    using assms(2,4) by (simp_all add: uses_psk_def enter_ptk_def s)
  have f: "find_pmk env ?A ?s data ps = Some (pmk, 0, ptk)"
    using find find_pmk_same [OF same, of ?A A] by (simp add: enter_ptk_def)
  have kd': "message2_key_data env (stas ?A2 i) (wpa_mic_len (wpa_key_mgmt s) (length (PMK s))) ptk data = Some (Inr kd)"
    using kd message2_data_same [of "stas ?A2 i" s] by (simp add: enter_ptk_def s)
  have mm: "\<not> message2_mismatch ?A2 (stas ?A2 i) kde"
    using assms(8) message2_mismatch_same [of ?A2 A "stas ?A2 i" s] by (simp add: enter_ptk_def s)
  have psk_akm: "wpa_key_mgmt_wpa_psk (wpa_key_mgmt s)" using assms(2) by (simp add: uses_psk_def)
  show thesis
  proof (rule that)
    show "sm_WPA_PTK_PTKCALCNEGOTIATING_Enter env i A =
          Some (set_sm i (\<lambda>s. s\<lparr>PMK := (if wpa_key_mgmt_wpa_psk (wpa_key_mgmt s) then take 32 pmk else PMK s),
                  MICVerified := True, PTK := ptk, PTK_valid := True\<rparr>)
                (emit (CancelWpaTimeout (WpaSendEapolTimeout i)) (set_sm i (\<lambda>s. s\<lparr>pending_1_of_4_timeout := False\<rparr>) ?A2)))"
      unfolding sm_WPA_PTK_PTKCALCNEGOTIATING_Enter_def ptk_candidates_def Let_def
      using s' f kd' mm psk assms(7) by (simp add: accept_message2_def)
  qed (use psk_akm in \<open>simp_all add: enter_ptk_def s\<close>)
qed

section \<open>Message 3\<close>

text \<open>An encrypted frame is sent if its key data can be wrapped and its MIC computed.\<close>

lemma send_eapol_sends:
  assumes s: "s = stas A i" and "uses_key_wrap s" and "PTK_valid s" and mic: "wpa_mic_len (wpa_key_mgmt s) (length (PMK s)) \<noteq> 0"
    and wrap: "\<forall>k d. aes_wrap (crypto env) k d \<noteq> None"
    and key_mic: "\<forall>buf. wpa_eapol_key_mic (crypto env) (kck (PTK s)) (wpa_key_mgmt s) (eapol_version_used s) buf \<noteq> None"
    and "bit info WPA_KEY_INFO_MIC" and "length (counter (hd (key_replay s))) = 8"
  obtains B frame where "send_eapol env i info rsc nonce (Some kde) keyidx True A = B"
    and "stas B = (stas A)(i := s\<lparr>key_replay := next_replay_counter (key_replay s)\<rparr>)"
    and "groups B = groups A" and "group_list B = group_list A" and "conf B = conf A"
    and "trace B = trace A @ [SetEapol (sm_addr s) WPA_EAPOL_inc_EapolFramesTx True, SendEapol (sm_addr s) frame (pairwise_set s)]"
    and "\<forall>b. bit info b \<longrightarrow> bit (key_info frame) b" and "key_replay_counter frame = counter (hd (next_replay_counter (key_replay s)))"
proof -
  obtain w where w: "aes_wrap (crypto env) (kek (PTK s)) (kde @ wrap_padding (length kde)) = Some w" using wrap by blast
  have kd: "eapol_key_data (crypto env) s ctr (Some kde) True =
            Some (w, length kde + length (wrap_padding (length kde)) + 8, replicate 16 0, ctr)" for ctr
    using assms(2) w by (simp add: eapol_key_data_def Let_def)
  define m where "m buf = the (wpa_eapol_key_mic (crypto env) (kck (PTK s)) (wpa_key_mgmt s) (eapol_version_used s) buf)" for buf
  have m: "wpa_eapol_key_mic (crypto env) (kck (PTK s)) (wpa_key_mgmt s) (eapol_version_used s) buf = Some (m buf)" for buf
    using key_mic by (simp add: m_def)
  define full where "full = info OR of_nat (eapol_version_used s) OR
    flags (flag_of (sm_wpa s = WPA_VERSION_WPA2) WPA_KEY_INFO_ENCR_KEY_DATA) OR
    (if sm_wpa s \<noteq> WPA_VERSION_WPA2 then push_bit 4 (of_nat keyidx) else 0)"
  define rc where "rc = inc_byte_array (counter (hd (key_replay s)))"
  define body where "body = eapol_frame (conf A) s full rc (case nonce of None \<Rightarrow> replicate 32 0 | Some n \<Rightarrow> n) (replicate 16 0)
    (case rsc of None \<Rightarrow> replicate 8 0 | Some r \<Rightarrow> r) (length kde + length (wrap_padding (length kde)) + 8) w"
  let ?n = "wpa_mic_len (wpa_key_mgmt s) (length (PMK s))"
  let ?frame = "body (take ?n (m (body (replicate ?n 0)) @ replicate ?n 0))"
  have full: "bit info b \<Longrightarrow> bit full b" for b by (simp add: full_def bit_or_iff)
  have rc: "length rc = 8" "counter (hd (next_replay_counter (key_replay s))) = rc"
    using assms(8) by (simp_all add: rc_def next_replay_counter_def)
  have eq: "send_eapol env i info rsc nonce (Some kde) keyidx True A =
        emit (SendEapol (sm_addr s) ?frame (pairwise_set s)) (wpa_auth_set_eapol i WPA_EAPOL_inc_EapolFramesTx True
          (set_group (sm_group s) (\<lambda>g. g\<lparr>Counter := Counter (groups A (sm_group s))\<rparr>)
            (set_sm i (\<lambda>s. s\<lparr>key_replay := next_replay_counter (key_replay s)\<rparr>) A)))"
    using assms(3,4) full [OF assms(7)]
    by (simp add: send_eapol_def Let_def s [symmetric] kd full_def [symmetric] rc body_def m)
  show thesis
  proof (rule that [OF eq])
    show "\<forall>b. bit info b \<longrightarrow> bit (key_info ?frame) b" using full unfolding body_def key_info_frame by blast
    show "key_replay_counter ?frame = counter (hd (next_replay_counter (key_replay s)))"
      unfolding rc(2) unfolding body_def by (rule replay_counter_frame [OF rc(1)])
  qed (simp_all add: wpa_auth_set_eapol_def s)
qed

lemma wpa_send_eapol_sends:
  assumes s: "s = stas A i" and "uses_key_wrap s" and "PTK_valid s" and "wpa_mic_len (wpa_key_mgmt s) (length (PMK s)) \<noteq> 0"
    and "\<forall>k d. aes_wrap (crypto env) k d \<noteq> None"
    and "\<forall>buf. wpa_eapol_key_mic (crypto env) (kck (PTK s)) (wpa_key_mgmt s) (eapol_version_used s) buf \<noteq> None"
    and mic: "bit info WPA_KEY_INFO_MIC" and "length (counter (hd (key_replay s))) = 8"
  obtains B frame where "wpa_send_eapol env i info rsc nonce (Some kde) keyidx True A = B"
    and "stas B = (stas A)(i := s\<lparr>key_replay := next_replay_counter (key_replay s)\<rparr>)"
    and "groups B = groups A" and "group_list B = group_list A" and "conf B = conf A"
    and "SendEapol (sm_addr s) frame (pairwise_set s) \<in> set (trace B)"
    and "\<forall>b. bit info b \<longrightarrow> bit (key_info frame) b" and "key_replay_counter frame = counter (hd (next_replay_counter (key_replay s)))"
proof -
  obtain B frame where B: "send_eapol env i info rsc nonce (Some kde) keyidx True A = B"
    "stas B = (stas A)(i := s\<lparr>key_replay := next_replay_counter (key_replay s)\<rparr>)"
    "groups B = groups A" "group_list B = group_list A" "conf B = conf A"
    "trace B = trace A @ [SetEapol (sm_addr s) WPA_EAPOL_inc_EapolFramesTx True, SendEapol (sm_addr s) frame (pairwise_set s)]"
    and frame: "\<forall>b. bit info b \<longrightarrow> bit (key_info frame) b" "key_replay_counter frame = counter (hd (next_replay_counter (key_replay s)))"
    using send_eapol_sends [OF assms] by blast
  show thesis
  proof (rule that [OF _ _ _ _ _ _ frame])
    show "SendEapol (sm_addr s) frame (pairwise_set s) \<in> set (trace (wpa_send_eapol env i info rsc nonce (Some kde) keyidx True A))"
      by (simp add: wpa_send_eapol_def Let_def B mic)
  qed (simp_all add: wpa_send_eapol_def Let_def B mic)
qed

lemma PTKINITNEGOTIATING_sends:
  assumes s: "s = stas A i" and "uses_key_wrap s" and "PTK_valid s" and mic_len: "wpa_mic_len (wpa_key_mgmt s) (length (PMK s)) \<noteq> 0"
    and "\<forall>k d. aes_wrap (crypto env) k d \<noteq> None"
    and "\<forall>buf. wpa_eapol_key_mic (crypto env) (kck (PTK s)) (wpa_key_mgmt s) (eapol_version_used s) buf \<noteq> None"
    and "length (counter (hd (key_replay s))) = 8"
    and wpa2: "sm_wpa s = WPA_VERSION_WPA2" "\<not> use_ext_key_id s" "wpa_key_mgmt s \<noteq> WPA_KEY_MGMT_OSEN" "\<not> disable_gtk (conf A)"
    and ctr: "TimeoutCtr s = 0" "wpa_pairwise_update_count (conf A) \<noteq> 0"
  obtains B frame where "sm_WPA_PTK_PTKINITNEGOTIATING_Enter env i A = Some B"
    and "stas B = (stas A)(i := s\<lparr>changed := True, wpa_ptk_state := WPA_PTK_PTKINITNEGOTIATING, TimeoutEvt := False, TimeoutCtr := 1,
           key_replay := next_replay_counter (key_replay s)\<rparr>)"
    and "groups B = groups A" and "group_list B = group_list A" and "conf B = conf A"
    and "SendEapol (sm_addr s) frame (pairwise_set s) \<in> set (trace B)"
    and "\<forall>b \<in> {WPA_KEY_INFO_SECURE, WPA_KEY_INFO_MIC, WPA_KEY_INFO_ACK, WPA_KEY_INFO_INSTALL, WPA_KEY_INFO_KEY_TYPE}. bit (key_info frame) b"
    and "key_replay_counter frame = counter (hd (next_replay_counter (key_replay s)))"
proof -
  define C where "C = set_sm i (\<lambda>s. s\<lparr>TimeoutEvt := False, TimeoutCtr := TimeoutCtr s + 1\<rparr>) (enter_ptk WPA_PTK_PTKINITNEGOTIATING i A)"
  define D where "D = snd (wpa_auth_get_seqnum env (GN (groups A (sm_group s))) C)"
  define E where "E = snd (ieee80211w_kde_add env i D)"
  define t where "t = s\<lparr>changed := True, wpa_ptk_state := WPA_PTK_PTKINITNEGOTIATING, TimeoutEvt := False, TimeoutCtr := 1\<rparr>"
  have f: "stas E = (stas A)(i := t)" "groups E = groups A" "group_list E = group_list A" "conf E = conf A"
    "stas D = (stas A)(i := t)" "groups D = groups A" "conf D = conf A" "stas C i = t" "conf C = conf A" "groups C = groups A"
    using ctr by (simp_all add: E_def D_def C_def t_def enter_ptk_def s)
  have v: "eapol_version_used t = eapol_version_used s" by (simp add: t_def eapol_version_used_def)
  then have t: "uses_key_wrap t" "PTK_valid t" "wpa_mic_len (wpa_key_mgmt t) (length (PMK t)) \<noteq> 0"
    "\<forall>buf. wpa_eapol_key_mic (crypto env) (kck (PTK t)) (wpa_key_mgmt t) (eapol_version_used t) buf \<noteq> None"
    "length (counter (hd (key_replay t))) = 8"
    using assms(2-7) by (simp_all add: uses_key_wrap_def, simp_all add: t_def)
  let ?info = "flags (flag_of True 9 @ flag_of (wpa_mic_len (wpa_key_mgmt t) (length (PMK t)) \<noteq> 0) 8 @ [7, 6, 3])"
  have info: "\<forall>b \<in> {9, 8, 7, 6, 3}. bit ?info b" using t(3) by (simp add: flags_def flag_of_def bit_simps)
  let ?g = "groups A (sm_group s)"
  define rsc where "rsc = (case fst (wpa_auth_get_seqnum env (GN ?g) C) of None \<Rightarrow> replicate 8 0 | Some b \<Rightarrow> b)"
  define kde where "kde = message3_kde E t (auth_wpa_ie D) (Some (the_gtk ?g)) (GN ?g) (fst (ieee80211w_kde_add env i D))"
  have ti: "t = stas E i" by (simp add: f)
  obtain B frame where B: "wpa_send_eapol env i ?info (Some rsc) (Some (ANonce t)) (Some kde) 0 True E = B"
    "stas B = (stas E)(i := t\<lparr>key_replay := next_replay_counter (key_replay t)\<rparr>)"
    "groups B = groups E" "group_list B = group_list E" "conf B = conf E"
    "SendEapol (sm_addr t) frame (pairwise_set t) \<in> set (trace B)"
    "\<forall>b. bit ?info b \<longrightarrow> bit (key_info frame) b" "key_replay_counter frame = counter (hd (next_replay_counter (key_replay t)))"
    using wpa_send_eapol_sends [OF ti t(1-3) assms(5) t(4) _ t(5)] info by blast
  have send: "send_message3 env i (auth_wpa_ie D) True (Some (the_gtk ?g)) (GN ?g) (Some rsc) True D = Some B"
    using message3_fits [of env i "auth_wpa_ie D" True "Some (the_gtk ?g)" "GN ?g" "Some rsc" True D] B(1)
    by (simp add: send_message3_def Let_def split_beta f E_def [symmetric] kde_def split: if_splits)
  have not_more: "\<not> 1 > wpa_pairwise_update_count (conf A)" "TimeoutCtr t = 1" using ctr(2) by (simp_all add: t_def)
  have tg: "sm_group t = sm_group s" "sm_wpa t = WPA_VERSION_WPA2" "\<not> use_ext_key_id t" "wpa_key_mgmt t \<noteq> WPA_KEY_MGMT_OSEN"
    using wpa2 by (simp_all add: t_def)
  have "sm_WPA_PTK_PTKINITNEGOTIATING_Enter env i A = Some B"
    unfolding sm_WPA_PTK_PTKINITNEGOTIATING_Enter_def C_def [symmetric] Let_def
    using send not_more tg wpa2(4)
    by (simp add: f split_beta D_def [symmetric] message3_wpa_ie_def rsc_def [symmetric] Let_def)
  then show thesis by (rule that) (use B info in \<open>simp_all add: f t_def\<close>)
qed

text \<open>The rounds from a verified message 2 to the state that waits for message 4.\<close>

lemma message3_rounds:
  assumes s: "s = stas A i" and st: "wpa_ptk_state s = WPA_PTK_PTKCALCNEGOTIATING" "MICVerified s" "\<not> EAPOLKeyReceived s" "\<not> update_snonce s"
    and rest: "no_request (s\<lparr>in_step_loop := False\<rparr>)" "group_idle s" "group_rests (groups A (auth_group A))"
    and key: "uses_key_wrap s" "PTK_valid s" "wpa_mic_len (wpa_key_mgmt s) (length (PMK s)) \<noteq> 0"
    and wrap: "\<forall>k d. aes_wrap (crypto env) k d \<noteq> None"
    and mic: "\<forall>buf. wpa_eapol_key_mic (crypto env) (kck (PTK s)) (wpa_key_mgmt s) (eapol_version_used s) buf \<noteq> None"
    and len: "length (counter (hd (key_replay s))) = 8"
    and wpa2: "sm_wpa s = WPA_VERSION_WPA2" "\<not> use_ext_key_id s" "wpa_key_mgmt s \<noteq> WPA_KEY_MGMT_OSEN" "\<not> disable_gtk (conf A)"
    and count: "wpa_pairwise_update_count (conf A) \<noteq> 0"
  obtains B frame where "wpa_sm_loop (Suc (Suc (Suc n))) env i A = Some B"
    and "stas B i = s\<lparr>wpa_ptk_state := WPA_PTK_PTKINITNEGOTIATING, TimeoutEvt := False, TimeoutCtr := 1, changed := False,
           key_replay := next_replay_counter (key_replay s)\<rparr>"
    and "SendEapol (sm_addr s) frame (pairwise_set s) \<in> set (trace B)"
    and "\<forall>b \<in> {WPA_KEY_INFO_SECURE, WPA_KEY_INFO_MIC, WPA_KEY_INFO_ACK, WPA_KEY_INFO_INSTALL, WPA_KEY_INFO_KEY_TYPE}. bit (key_info frame) b"
    and "key_replay_counter frame = counter (hd (next_replay_counter (key_replay s)))"
proof -
  define A1 where "A1 = sm_WPA_PTK_PTKCALCNEGOTIATING2_Enter i (round_start i A)"
  define R where "R = round_start i A1"
  define r where "r = s\<lparr>wpa_ptk_state := WPA_PTK_PTKCALCNEGOTIATING2, TimeoutCtr := 0, changed := False\<rparr>"
  have A1: "stas A1 i = r\<lparr>changed := True\<rparr>" "group_list A1 = group_list A" "conf A1 = conf A"
    "groups A1 = (groups A)(auth_group A := (groups A (auth_group A))\<lparr>g_changed := False\<rparr>)"
    by (simp_all add: A1_def r_def sm_WPA_PTK_PTKCALCNEGOTIATING2_Enter_def enter_ptk_def s)
  have R: "r = stas R i" "conf R = conf A" "group_list R = group_list A" by (simp_all add: R_def A1 r_def)
  have q: "no_request (r\<lparr>in_step_loop := False\<rparr>)" "group_idle r" using rest(1,2) by (simp_all add: r_def no_request_def group_idle_def)
  have v: "eapol_version_used r = eapol_version_used s" by (simp add: r_def eapol_version_used_def)
  then have key': "uses_key_wrap r" "PTK_valid r" "wpa_mic_len (wpa_key_mgmt r) (length (PMK r)) \<noteq> 0"
    "\<forall>buf. wpa_eapol_key_mic (crypto env) (kck (PTK r)) (wpa_key_mgmt r) (eapol_version_used r) buf \<noteq> None"
    using key mic by (simp_all add: uses_key_wrap_def, simp_all add: r_def)
  have "sm_WPA_PTK_Step env i (round_start i A) = Some A1"
    using st rest(1) by (simp add: A1_def sm_WPA_PTK_Step_def sm_WPA_PTK_switch_def no_request_def Let_def s)
  then have 1: "wpa_sm_loop (Suc (Suc (Suc n))) env i A = wpa_sm_loop (Suc (Suc n)) env i A1"
    using rest q by (subst loop_round [of A i env A1]) (auto simp: A1 no_request_def group_idle_def s)
  obtain A2 frame where A2: "sm_WPA_PTK_PTKINITNEGOTIATING_Enter env i R = Some A2"
    "stas A2 = (stas R)(i := r\<lparr>changed := True, wpa_ptk_state := WPA_PTK_PTKINITNEGOTIATING, TimeoutEvt := False, TimeoutCtr := 1,
       key_replay := next_replay_counter (key_replay r)\<rparr>)"
    "groups A2 = groups R" "group_list A2 = group_list R" "conf A2 = conf R"
    "SendEapol (sm_addr r) frame (pairwise_set r) \<in> set (trace A2)"
    "\<forall>b \<in> {9, 8, 7, 6, 3}. bit (key_info frame) b" "key_replay_counter frame = counter (hd (next_replay_counter (key_replay r)))"
    using PTKINITNEGOTIATING_sends [OF R(1) key'(1-3) wrap key'(4)] len wpa2 count by (auto simp: R(2) r_def)
  have g: "group_rests (groups A2 (auth_group A2))" using rest(3) by (simp add: A2 R_def A1)
  have "sm_WPA_PTK_Step env i R = Some A2"
    using A2(1) q(1) by (simp add: sm_WPA_PTK_Step_def sm_WPA_PTK_switch_def no_request_def Let_def R(1) [symmetric]) (simp add: r_def)
  then have 2: "wpa_sm_loop (Suc (Suc n)) env i A1 = wpa_sm_loop (Suc n) env i A2"
    using q g A1 by (subst loop_round [of A1 i env A2]) (auto simp: R_def [symmetric] A2(2) no_request_def group_idle_def)
  have "sm_WPA_PTK_Step env i (round_start i A2) = Some (round_start i A2)"
    using q(1) st(3,4) count
    by (simp add: sm_WPA_PTK_Step_def sm_WPA_PTK_switch_def step_PTKINITNEGOTIATING_def pairwise_received_def no_request_def Let_def A2 R(2)
        , simp add: r_def)
  then have 3: "wpa_sm_loop (Suc n) env i A2 = Some (round_start i A2)"
    using q g by (intro loop_rests) (auto simp: A2(2) no_request_def group_idle_def)
  show thesis
    by (rule that [OF trans [OF 1 trans [OF 2 3]], of frame]) (use A2 in \<open>simp_all add: r_def\<close>)
qed

text \<open>Of the counters of a message that was taken none is pending, so the next is the only one.\<close>

lemma only_next_counter_valid:
  "wpa_replay_counter_valid (next_replay_counter (wpa_replay_counter_mark_invalid cs None)) rc \<longleftrightarrow>
   rc = counter (hd (next_replay_counter (wpa_replay_counter_mark_invalid cs None)))"
proof -
  have "\<not> wpa_replay_counter_valid (take k (wpa_replay_counter_mark_invalid cs None)) rc" for k
    by (auto simp: wpa_replay_counter_mark_invalid_def dest!: replay_counter_valid_set in_set_takeD split: if_splits)
  then show ?thesis by (simp add: next_replay_counter_def)
qed

lemma counter_hd_mark: "cs \<noteq> [] \<Longrightarrow> counter (hd (wpa_replay_counter_mark_invalid cs rc)) = counter (hd cs)"
  by (cases cs) (simp_all add: wpa_replay_counter_mark_invalid_def)

text \<open>
  C6. A correct message 2 is answered with message 3. For a station with pre-shared keys that has
  been sent message 1, a message 2 with a pending replay counter whose MIC one of the keys fits, and
  whose elements are those of the association, leads within four rounds to the state that waits for
  message 4: the transient key is the one derived from that key, and message 3 has been sent,
  protected with it and with the one pending replay counter.
\<close>

theorem message2_answered:
  assumes "receive_message env A s data = Some PAIRWISE_2" and "wpa_replay_counter_valid (key_replay s) (key_replay_counter data)"
    and "wpa_ptk_state s = WPA_PTK_PTKSTART" and "\<not> PTK_valid s" and "\<not> reject_4way_hs_for_entropy (groups A (sm_group s))"
    and "\<not> bit (key_info data) WPA_KEY_INFO_ACK" and "bit (key_info data) WPA_KEY_INFO_MIC" and s: "s = stas A i"
    and "no_request s" and "group_idle s" and "group_rests (groups A (auth_group A))"
    and psk: "uses_psk s" "\<forall>tr. cb_get_psk env tr (sm_addr s) = ps"
    and find: "find_pmk env A (s\<lparr>SNonce := key_nonce data\<rparr>) data ps = Some (pmk, 0, ptk)"
    and kd: "message2_key_data env s (wpa_mic_len (wpa_key_mgmt s) (length (PMK s))) ptk data = Some (Inr kd)"
    and kde: "wpa_parse_kde_ies kd = (0, kde)" "\<not> message2_mismatch A s kde"
    and wpa2: "sm_wpa s = WPA_VERSION_WPA2" "\<not> use_ext_key_id s" "wpa_key_mgmt s \<noteq> WPA_KEY_MGMT_OSEN" "\<not> disable_gtk (conf A)"
    and "uses_key_wrap s" and mic_len: "wpa_mic_len (wpa_key_mgmt s) (length (take 32 pmk)) \<noteq> 0"
    and "\<forall>k d. aes_wrap (crypto env) k d \<noteq> None"
    and key_mic: "\<forall>buf. wpa_eapol_key_mic (crypto env) (kck ptk) (wpa_key_mgmt s) (eapol_version_used s) buf \<noteq> None"
    and "length (key_replay s) = RSNA_MAX_EAPOL_RETRIES" and "length (counter (hd (key_replay s))) = 8"
    and count: "wpa_pairwise_update_count (conf A) \<noteq> 0"
  shows "\<exists>A' frame. wpa_receive (Suc (Suc (Suc (Suc n)))) env data i A = Some A' \<and>
           wpa_ptk_state (stas A' i) = WPA_PTK_PTKINITNEGOTIATING \<and> PTK_valid (stas A' i) \<and> PTK (stas A' i) = ptk \<and>
           SendEapol (sm_addr s) frame (pairwise_set s) \<in> set (trace A') \<and>
           (\<forall>b \<in> {WPA_KEY_INFO_SECURE, WPA_KEY_INFO_MIC, WPA_KEY_INFO_ACK, WPA_KEY_INFO_INSTALL, WPA_KEY_INFO_KEY_TYPE}.
              bit (key_info frame) b) \<and>
           (\<forall>rc. wpa_replay_counter_valid (key_replay (stas A' i)) rc \<longleftrightarrow> rc = key_replay_counter frame)"
proof -
  define B where "B = set_sm i (\<lambda>s. s\<lparr>in_step_loop := True\<rparr>) (message2_taken data i A)"
  define D where "D = round_start i B"
  define d where "d = stas D i"
  define mk where "mk = mark_counters (key_replay_counter data) PAIRWISE_2"
  have d: "d = (store_message data (mk (s\<lparr>MICVerified := False\<rparr>)))\<lparr>in_step_loop := True, changed := False\<rparr>"
    by (simp add: d_def D_def B_def s mk_def)
  note fields = store_message_def mk_def mark_counters_def Let_def
  have same: "same_keys d (s\<lparr>SNonce := key_nonce data\<rparr>)" by (simp add: d same_keys_def fields)
  have D: "conf D = conf A" "auth_addr D = auth_addr A" "group_list D = group_list A" "groups D (auth_group A) = (groups A (auth_group A))\<lparr>g_changed := False\<rparr>"
    by (simp_all add: D_def B_def)
  have "message2_mismatch D d kde = message2_mismatch A s kde"
    by (rule message2_mismatch_same) (simp_all add: D d fields)
  moreover have "message2_key_data env d (wpa_mic_len (wpa_key_mgmt d) (length (PMK d))) ptk data = Some (Inr kd)"
    using kd message2_data_same [of d s] by (simp add: d fields)
  moreover have "find_pmk env D d data ps = Some (pmk, 0, ptk)" using find find_pmk_same [OF same D(1,2)] by simp
  moreover have "uses_psk d" "\<forall>tr. cb_get_psk env tr (sm_addr d) = ps" "last_rx_eapol_key d = Some data"
    using psk by (simp_all add: d fields uses_psk_def)
  ultimately obtain E where E: "sm_WPA_PTK_PTKCALCNEGOTIATING_Enter env i D = Some E"
    "stas E i = d\<lparr>changed := True, wpa_ptk_state := WPA_PTK_PTKCALCNEGOTIATING, EAPOLKeyReceived := False, update_snonce := False,
       pending_1_of_4_timeout := False, PMK := take 32 pmk, MICVerified := True, PTK := ptk, PTK_valid := True\<rparr>"
    "conf E = conf D" "groups E = groups D" "group_list E = group_list D"
    using PTKCALCNEGOTIATING_accepts [OF d_def] kde by blast
  have e: "no_request ((stas E i)\<lparr>in_step_loop := False\<rparr>)" "group_idle (stas E i)" "group_rests (groups E (auth_group E))"
    using assms(9-11) by (simp_all add: E d D fields no_request_def group_idle_def)
  have v: "eapol_version_used (stas E i) = eapol_version_used s" by (simp add: E d fields eapol_version_used_def)
  then have k: "uses_key_wrap (stas E i)" using assms(22) by (simp add: uses_key_wrap_def, simp add: E d fields)
  have dd: "wpa_ptk_state d = WPA_PTK_PTKSTART" "pairwise_received d" "no_request (d\<lparr>in_step_loop := False\<rparr>)"
    using assms(3,9) pairwise_message_bits [OF assms(1)] by (simp_all add: d fields pairwise_received_def no_request_def)
  then have "sm_WPA_PTK_Step env i D = Some E"
    using E(1) by (simp add: sm_WPA_PTK_Step_def sm_WPA_PTK_switch_def Let_def no_request_def d_def)
  moreover have "\<not> pending_deinit (stas B i)" "changed (stas E i)" "\<not> Init (stas E i)" "\<not> pending_deinit (stas E i)"
    using assms(9) e(1) by (simp_all add: B_def s [symmetric] fields no_request_def E(2))
  ultimately have first: "wpa_sm_loop (Suc m) env i B = wpa_sm_loop m env i E" for m
    using e(2,3) by (subst loop_round [of B i env E]) (auto simp: D_def)
  have sE: "stas E i = stas E i" "wpa_ptk_state (stas E i) = WPA_PTK_PTKCALCNEGOTIATING" "MICVerified (stas E i)"
    "\<not> EAPOLKeyReceived (stas E i)" "\<not> update_snonce (stas E i)" by (simp_all add: E)
  have x: "PTK_valid (stas E i)" "wpa_mic_len (wpa_key_mgmt (stas E i)) (length (PMK (stas E i))) \<noteq> 0"
    "\<forall>buf. wpa_eapol_key_mic (crypto env) (kck (PTK (stas E i))) (wpa_key_mgmt (stas E i)) (eapol_version_used (stas E i)) buf \<noteq> None"
    "length (counter (hd (key_replay (stas E i)))) = 8" "sm_wpa (stas E i) = WPA_VERSION_WPA2" "\<not> use_ext_key_id (stas E i)"
    "wpa_key_mgmt (stas E i) \<noteq> WPA_KEY_MGMT_OSEN" "\<not> disable_gtk (conf E)" "wpa_pairwise_update_count (conf E) \<noteq> 0"
    using mic_len key_mic wpa2 count assms(26,27) unfolding v by (auto simp: E d D fields counter_hd_mark length_0_conv [symmetric] simp del: length_0_conv)
  obtain F frame where F: "wpa_sm_loop (Suc (Suc (Suc n))) env i E = Some F"
    "stas F i = (stas E i)\<lparr>wpa_ptk_state := WPA_PTK_PTKINITNEGOTIATING, TimeoutEvt := False, TimeoutCtr := 1, changed := False,
       key_replay := next_replay_counter (key_replay (stas E i))\<rparr>"
    and frame: "SendEapol (sm_addr (stas E i)) frame (pairwise_set (stas E i)) \<in> set (trace F)" "\<forall>b \<in> {9, 8, 7, 6, 3}. bit (key_info frame) b"
    "key_replay_counter frame = counter (hd (next_replay_counter (key_replay (stas E i))))"
    using message3_rounds [OF sE e k x(1,2) assms(24) x(3-9)] by blast
  have "wpa_receive (Suc (Suc (Suc (Suc n)))) env data i A = Some (set_sm i (\<lambda>s. s\<lparr>in_step_loop := False\<rparr>) F)"
    unfolding receive_message2 [OF assms(1-8)] wpa_sm_step_def wpa_sm_guard_def B_def [symmetric] first F(1)
    using assms(9) e(1) by (simp add: F(2) s [symmetric] no_request_def fields)
  moreover have "wpa_replay_counter_valid (key_replay (stas F i)) rc \<longleftrightarrow> rc = key_replay_counter frame" for rc
    unfolding frame(3) by (simp add: F(2) E(2) d fields only_next_counter_valid)
  ultimately show ?thesis using frame(1,2) by (auto simp: F(2) E(2) d fields intro!: exI [of _ frame])
qed

end
