(* ===== verification/Wpa_Retries.thy ===== *)
theory Wpa_Retries
  imports Wpa_Handshake
begin

text \<open>
  Messages that are not answered: message 1 is sent again at every timeout, as often as the
  configuration says, and then the station is disconnected.
\<close>

section \<open>Waiting for message 2\<close>

definition waits_for_message2 :: "wpa_env \<Rightarrow> nat \<Rightarrow> u32 \<Rightarrow> wpa_authenticator \<Rightarrow> bool" where
  "waits_for_message2 env i c A \<longleftrightarrow>
     (let s = stas A i
      in wpa_ptk_state s = WPA_PTK_PTKSTART \<and> TimeoutCtr s = c \<and> no_request s \<and> group_idle s \<and> \<not> pairwise_received s \<and>
         \<not> TimeoutEvt s \<and> \<not> waiting_radius_psk s \<and> message1_pmkid env A s \<noteq> None) \<and> group_rests (groups A (auth_group A))"

text \<open>Message 1 is sent in clear, so that nothing can keep it from being sent.\<close>

lemma send_eapol_clear:
  assumes "\<not> bit info WPA_KEY_INFO_MIC" and "s = stas A i"
  obtains frame where "send_eapol env i info None nonce kde 0 False A =
      emit (SendEapol (sm_addr s) frame (pairwise_set s)) (wpa_auth_set_eapol i WPA_EAPOL_inc_EapolFramesTx True
        (set_group (sm_group s) (\<lambda>g. g\<lparr>Counter := Counter (groups A (sm_group s))\<rparr>)
          (set_sm i (\<lambda>s. s\<lparr>key_replay := next_replay_counter (key_replay s)\<rparr>) A)))"
    and "\<forall>b. bit info b \<longrightarrow> bit (key_info frame) b"
proof -
  have v: "\<not> bit (of_nat (eapol_version_used s) :: u16) 8" by (simp add: eapol_version_used_def bit_of_nat_iff_bit)
  define full where "full = info OR of_nat (eapol_version_used s) OR flags (flag_of False 12) OR
    (if sm_wpa s \<noteq> WPA_VERSION_WPA2 then push_bit 4 (of_nat 0) else 0)"
  have full: "\<not> bit full 8" "bit info b \<Longrightarrow> bit full b" for b
    using assms(1) v by (simp_all add: full_def bit_or_iff flags_def flag_of_def)
  define kd where "kd = (case kde of None \<Rightarrow> [] | Some d \<Rightarrow> d)"
  have e: "eapol_key_data (crypto env) s ctr kde False = Some (kd, length kd, replicate 16 0, ctr)" for ctr
    by (simp add: eapol_key_data_def kd_def Let_def split: option.split)
  let ?n = "wpa_mic_len (wpa_key_mgmt s) (length (PMK s))"
  let ?frame = "eapol_frame (conf A) s full (counter (hd (next_replay_counter (key_replay s))))
    (case nonce of None \<Rightarrow> replicate 32 0 | Some n \<Rightarrow> n) (replicate 16 0) (replicate 8 0) (length kd) kd (replicate ?n 0)"
  show thesis
  proof (rule that [of ?frame])
    show "send_eapol env i info None nonce kde 0 False A =
      emit (SendEapol (sm_addr s) ?frame (pairwise_set s)) (wpa_auth_set_eapol i WPA_EAPOL_inc_EapolFramesTx True
        (set_group (sm_group s) (\<lambda>g. g\<lparr>Counter := Counter (groups A (sm_group s))\<rparr>)
          (set_sm i (\<lambda>s. s\<lparr>key_replay := next_replay_counter (key_replay s)\<rparr>) A)))"
      using full(1) by (simp add: send_eapol_def Let_def assms(2) [symmetric] e full_def [symmetric])
  qed (use full(2) in \<open>simp\<close>)
qed

lemma message1_pmkid_same:
  assumes "sm_wpa s = sm_wpa t" "wpa_key_mgmt s = wpa_key_mgmt t" "sm_pmksa s = sm_pmksa t" "PMK s = PMK t" "sm_addr s = sm_addr t"
    "auth_addr A = auth_addr B"
  shows "message1_pmkid env A s = message1_pmkid env B t"
  unfolding message1_pmkid_def assms ..

text \<open>Entering the state again: message 1 goes out while the counter is within its limit.\<close>

lemma PTKSTART_sends:
  assumes s: "s = stas A i" and "message1_pmkid env A s \<noteq> None" and "TimeoutCtr s + 1 \<le> wpa_pairwise_update_count (conf A)"
  obtains B frame kr b where "sm_WPA_PTK_PTKSTART_Enter env i A = Some B"
    and "stas B = (stas A)(i := s\<lparr>changed := True, wpa_ptk_state := WPA_PTK_PTKSTART, PTKRequest := False, TimeoutEvt := False,
           alt_snonce_valid := False, ptkstart_without_success := ptkstart_without_success s + 1, TimeoutCtr := TimeoutCtr s + 1,
           key_replay := kr, pending_1_of_4_timeout := b\<rparr>)"
    and "groups B = groups A" and "group_list B = group_list A" and "conf B = conf A" and "auth_addr B = auth_addr A"
    and "SendEapol (sm_addr s) frame (pairwise_set s) \<in> set (trace B)" and "bit (key_info frame) WPA_KEY_INFO_ACK"
    and "set (trace A) \<subseteq> set (trace B)"
proof -
  define C where "C = set_sm i (\<lambda>s. s\<lparr>PTKRequest := False, TimeoutEvt := False, alt_snonce_valid := False,
      ptkstart_without_success := ptkstart_without_success s + 1, TimeoutCtr := TimeoutCtr s + 1\<rparr>) (enter_ptk WPA_PTK_PTKSTART i A)"
  define t where "t = s\<lparr>changed := True, wpa_ptk_state := WPA_PTK_PTKSTART, PTKRequest := False, TimeoutEvt := False,
      alt_snonce_valid := False, ptkstart_without_success := ptkstart_without_success s + 1, TimeoutCtr := TimeoutCtr s + 1\<rparr>"
  have C: "stas C = (stas A)(i := t)" "conf C = conf A" "groups C = groups A" "group_list C = group_list A" "auth_addr C = auth_addr A"
    "trace C = trace A" by (simp_all add: C_def t_def enter_ptk_def s)
  have "message1_pmkid env C t = message1_pmkid env A s" by (rule message1_pmkid_same) (simp_all add: t_def C)
  then obtain p where p: "message1_pmkid env C t = Some p" using assms(2) by auto
  define info where "info = flags ([7, 3] @ flag_of (pairwise_set t \<and> sm_wpa t \<noteq> WPA_VERSION_WPA) 9)"
  have info: "\<not> bit info 8" "bit info 7" "bit info 3" by (simp_all add: info_def flags_def flag_of_def bit_simps)
  have ta: "sm_addr t = sm_addr s" "pairwise_set t = pairwise_set s" by (simp_all add: t_def)
  have ti: "t = stas C i" by (simp add: C)
  obtain frame where f: "send_eapol env i info None (Some (ANonce t)) (map_option (\<lambda>p. wpa_add_kde RSN_KEY_DATA_PMKID p []) p) 0 False C =
      emit (SendEapol (sm_addr t) frame (pairwise_set t)) (wpa_auth_set_eapol i WPA_EAPOL_inc_EapolFramesTx True
        (set_group (sm_group t) (\<lambda>g. g\<lparr>Counter := Counter (groups C (sm_group t))\<rparr>)
          (set_sm i (\<lambda>s. s\<lparr>key_replay := next_replay_counter (key_replay s)\<rparr>) C)))"
    and fi: "\<forall>b. bit info b \<longrightarrow> bit (key_info frame) b"
    by (rule send_eapol_clear [OF info(1) ti])
  let ?B = "wpa_send_eapol env i info None (Some (ANonce t)) (map_option (\<lambda>p. wpa_add_kde RSN_KEY_DATA_PMKID p []) p) 0 False C"
  have "\<not> TimeoutCtr t > wpa_pairwise_update_count (conf A)" using assms(3) by (simp add: t_def not_less)
  then have "sm_WPA_PTK_PTKSTART_Enter env i A = Some ?B"
    unfolding sm_WPA_PTK_PTKSTART_Enter_def C_def [symmetric] Let_def ti [symmetric] using p by (simp add: C info_def)
  then show thesis
  proof (rule that [of _ "TimeoutCtr t = 1 \<or> pending_1_of_4_timeout s" "next_replay_counter (key_replay t)" frame])
    show "stas ?B = (stas A)(i := s\<lparr>changed := True, wpa_ptk_state := WPA_PTK_PTKSTART, PTKRequest := False, TimeoutEvt := False,
           alt_snonce_valid := False, ptkstart_without_success := ptkstart_without_success s + 1, TimeoutCtr := TimeoutCtr s + 1,
           key_replay := next_replay_counter (key_replay t), pending_1_of_4_timeout := TimeoutCtr t = 1 \<or> pending_1_of_4_timeout s\<rparr>)"
      using info by (simp add: wpa_send_eapol_def Let_def f C wpa_auth_set_eapol_def) (simp add: t_def)
  qed (use fi info in \<open>auto simp: wpa_send_eapol_def Let_def f C wpa_auth_set_eapol_def ta\<close>)
qed

section \<open>Timeouts\<close>

text \<open>What a timeout hands to the machines, and their first step.\<close>

definition timeout_taken :: "nat \<Rightarrow> wpa_authenticator \<Rightarrow> wpa_authenticator" where
  "timeout_taken i A = set_sm i (\<lambda>s. s\<lparr>pending_1_of_4_timeout := False, TimeoutEvt := True, in_step_loop := True\<rparr>) A"

lemma timeout_step:
  "\<not> waiting_radius_psk (stas A i) \<Longrightarrow> \<not> in_step_loop (stas A i) \<Longrightarrow> wpa_sm_loop n env i (timeout_taken i A) = Some B \<Longrightarrow>
   \<not> pending_deinit (stas B i) \<Longrightarrow>
   wpa_send_eapol_timeout n env i A = Some (set_sm i (\<lambda>s. s\<lparr>in_step_loop := False\<rparr>) B)"
  by (simp add: wpa_send_eapol_timeout_def wpa_sm_step_def wpa_sm_guard_def timeout_taken_def set_sm_def comp_def Let_def)

lemma waiting_step:
  assumes "waits_for_message2 env i c A" and "c \<le> wpa_pairwise_update_count (conf A)"
  shows "sm_WPA_PTK_Step env i (round_start i (timeout_taken i A)) = sm_WPA_PTK_PTKSTART_Enter env i (round_start i (timeout_taken i A))"
  using assms
  by (simp add: waits_for_message2_def sm_WPA_PTK_Step_def sm_WPA_PTK_switch_def pairwise_received_def no_request_def
      timeout_taken_def Let_def not_less [symmetric]) blast

lemma timeout_resends:
  assumes w: "waits_for_message2 env i c A" and c: "c < wpa_pairwise_update_count (conf A)"
  shows "\<exists>A' frame. wpa_send_eapol_timeout (Suc (Suc n)) env i A = Some A' \<and> waits_for_message2 env i (c + 1) A' \<and> conf A' = conf A \<and>
    sm_addr (stas A' i) = sm_addr (stas A i) \<and> group_list A' = group_list A \<and>
    SendEapol (sm_addr (stas A i)) frame (pairwise_set (stas A i)) \<in> set (trace A') \<and> bit (key_info frame) WPA_KEY_INFO_ACK"
proof -
  define s where "s = stas A i"
  define T where "T = timeout_taken i A"
  define R where "R = round_start i T"
  define r where "r = stas R i"
  note w' = w [unfolded waits_for_message2_def Let_def, folded s_def]
  have r: "r = s\<lparr>pending_1_of_4_timeout := False, TimeoutEvt := True, in_step_loop := True, changed := False\<rparr>"
    by (simp add: r_def R_def T_def timeout_taken_def s_def)
  have R: "conf R = conf A" "auth_addr R = auth_addr A" "group_list R = group_list A"
    "groups R (auth_group A) = (groups A (auth_group A))\<lparr>g_changed := False\<rparr>" by (simp_all add: R_def T_def timeout_taken_def)
  have "message1_pmkid env R r = message1_pmkid env A s" by (rule message1_pmkid_same) (simp_all add: r R)
  then have p: "message1_pmkid env R r \<noteq> None" using w' by simp
  have le: "TimeoutCtr r + 1 \<le> wpa_pairwise_update_count (conf R)" using c w' by (simp add: r R inc_le)
  obtain B frame kr b where B: "sm_WPA_PTK_PTKSTART_Enter env i R = Some B"
    "stas B = (stas R)(i := r\<lparr>changed := True, wpa_ptk_state := WPA_PTK_PTKSTART, PTKRequest := False, TimeoutEvt := False,
       alt_snonce_valid := False, ptkstart_without_success := ptkstart_without_success r + 1, TimeoutCtr := TimeoutCtr r + 1,
       key_replay := kr, pending_1_of_4_timeout := b\<rparr>)"
    "groups B = groups R" "group_list B = group_list R" "conf B = conf R" "auth_addr B = auth_addr R"
    and frame: "SendEapol (sm_addr r) frame (pairwise_set r) \<in> set (trace B)" "bit (key_info frame) WPA_KEY_INFO_ACK"
    by (rule PTKSTART_sends [OF r_def p le]) (rule that, assumption+)
  have step: "sm_WPA_PTK_Step env i R = Some B"
    using waiting_step [OF w] c B(1) by (simp add: R_def T_def)
  have g: "group_rests (groups B (auth_group B))" using w' by (simp add: B R)
  have q: "no_request ((stas B i)\<lparr>in_step_loop := False\<rparr>)" "group_idle (stas B i)" "\<not> pairwise_received (stas B i)"
    using w' by (simp_all add: B(2) r no_request_def group_idle_def pairwise_received_def)
  have "wpa_sm_loop (Suc (Suc n)) env i T = wpa_sm_loop (Suc n) env i B"
    using step q g w' by (subst loop_round [of T i env B]) (auto simp: R_def B(2) r no_request_def T_def timeout_taken_def s_def)
  also have "\<dots> = Some (round_start i B)"
    using q g le by (intro loop_rests)
      (auto simp: no_request_def sm_WPA_PTK_Step_def sm_WPA_PTK_switch_def pairwise_received_def Let_def B R not_less)
  finally have loop: "wpa_sm_loop (Suc (Suc n)) env i T = Some (round_start i B)" .
  have "message1_pmkid env B (stas B i) = message1_pmkid env A s" by (rule message1_pmkid_same) (simp_all add: B r R)
  then have m: "message1_pmkid env (set_sm i (\<lambda>s. s\<lparr>in_step_loop := False\<rparr>) (round_start i B))
      (stas (set_sm i (\<lambda>s. s\<lparr>in_step_loop := False\<rparr>) (round_start i B)) i) \<noteq> None"
    using w' by (subst message1_pmkid_same [where t = "stas B i" and B = B]) simp_all
  have "wpa_send_eapol_timeout (Suc (Suc n)) env i A = Some (set_sm i (\<lambda>s. s\<lparr>in_step_loop := False\<rparr>) (round_start i B))"
    using w' q(1) by (intro timeout_step loop [unfolded T_def]) (simp_all add: s_def no_request_def)
  moreover have "waits_for_message2 env i (c + 1) (set_sm i (\<lambda>s. s\<lparr>in_step_loop := False\<rparr>) (round_start i B))"
    using w' q g m unfolding waits_for_message2_def Let_def
    by (simp add: B(2) r no_request_def group_idle_def pairwise_received_def)
  ultimately show ?thesis using frame by (auto simp: B R r s_def intro!: exI [of _ frame])
qed

section \<open>The end of a handshake\<close>

lemma remove_ptk_fields [simp]:
  "stas (wpa_remove_ptk env i A) = (stas A)(i := (stas A i)\<lparr>PTK_valid := False, PTK := zero_ptk, pairwise_set := False\<rparr>)"
  "groups (wpa_remove_ptk env i A) = groups A" "group_list (wpa_remove_ptk env i A) = group_list A" "conf (wpa_remove_ptk env i A) = conf A"
  by (simp_all add: wpa_remove_ptk_def wpa_auth_set_key_def Let_def)

lemma remove_ptk_trace: "set (trace A) \<subseteq> set (trace (wpa_remove_ptk env i A))"
  by (auto simp: wpa_remove_ptk_def wpa_auth_set_key_def Let_def)

text \<open>A station on its way out: nothing is pending but, perhaps, its deauthentication.\<close>

definition leaving :: "nat \<Rightarrow> mac \<Rightarrow> wpa_authenticator \<Rightarrow> bool" where
  "leaving i a A \<longleftrightarrow> no_request ((stas A i)\<lparr>in_step_loop := False, DeauthenticationRequest := False\<rparr>) \<and> group_idle (stas A i) \<and>
     group_rests (groups A (auth_group A)) \<and> sm_addr (stas A i) = a"

lemma leaving_round_start: "leaving i a A \<Longrightarrow> leaving i a (round_start i A)"
  by (auto simp: leaving_def no_request_def group_idle_def)

lemma loop_leaving:
  assumes "leaving i a A" and "sm_WPA_PTK_Step env i (round_start i A) = Some B" and "leaving i a B" and "changed (stas B i)"
  shows "wpa_sm_loop (Suc n) env i A = wpa_sm_loop n env i B"
  using assms by (subst loop_round [of A i env B]) (auto simp: leaving_def no_request_def)

lemma leaving_DISCONNECT:
  fixes env
  assumes "leaving i a A" and "disconnect_reason (stas A i) = reason" and "reason \<noteq> 0"
  defines "B \<equiv> sm_WPA_PTK_DISCONNECT_Enter env i A"
  shows "leaving i a B" and "wpa_ptk_state (stas B i) = WPA_PTK_DISCONNECT" and "changed (stas B i)" and "StaDisconnect a reason \<in> set (trace B)"
proof -
  note defs = B_def sm_WPA_PTK_DISCONNECT_Enter_def wpa_sta_disconnect_def event_remove_keys_def enter_ptk_def Let_def
  show "leaving i a B" using assms(1) by (simp add: defs leaving_def no_request_def group_idle_def)
  show "wpa_ptk_state (stas B i) = WPA_PTK_DISCONNECT" "changed (stas B i)" by (simp_all add: defs)
  show "StaDisconnect a reason \<in> set (trace B)"
    using assms(1-3) by (auto simp: defs leaving_def intro: subsetD [OF remove_ptk_trace])
qed

lemma leaving_DISCONNECTED:
  assumes "leaving i a A" and "wpa_ptk_state (stas A i) = WPA_PTK_DISCONNECT"
  defines "B \<equiv> sm_WPA_PTK_DISCONNECTED_Enter i A"
  shows "sm_WPA_PTK_Step env i A = Some B" and "leaving i a B" and "wpa_ptk_state (stas B i) = WPA_PTK_DISCONNECTED" and "changed (stas B i)"
    and "\<not> DeauthenticationRequest (stas B i)" and "trace B = trace A"
  using assms(1,2)
  by (simp_all add: B_def sm_WPA_PTK_DISCONNECTED_Enter_def enter_ptk_def leaving_def no_request_def group_idle_def
      sm_WPA_PTK_Step_def sm_WPA_PTK_switch_def Let_def)

lemma leaving_INITIALIZE:
  fixes env
  assumes "leaving i a A" and "wpa_ptk_state (stas A i) = WPA_PTK_DISCONNECTED" and "\<not> DeauthenticationRequest (stas A i)"
  defines "B \<equiv> sm_WPA_PTK_INITIALIZE_Enter env i A"
  shows "sm_WPA_PTK_Step env i A = Some B" and "leaving i a B" and "wpa_ptk_state (stas B i) = WPA_PTK_INITIALIZE" and "changed (stas B i)"
    and "\<not> DeauthenticationRequest (stas B i)" and "\<not> PTK_valid (stas B i)" and "set (trace A) \<subseteq> set (trace B)"
proof -
  note defs = B_def sm_WPA_PTK_INITIALIZE_Enter_def wpa_auth_set_eapol_def enter_ptk_def Let_def
  have "\<not> Init (stas A i)" "\<not> GUpdateStationKeys (stas A i)"
    using assms(1) by (simp_all add: leaving_def no_request_def group_idle_def)
  note this [simp]
  show "sm_WPA_PTK_Step env i A = Some B"
    using assms(1-3) by (simp add: B_def sm_WPA_PTK_Step_def sm_WPA_PTK_switch_def leaving_def no_request_def Let_def)
  show "leaving i a B" using assms(1) by (simp add: defs leaving_def no_request_def group_idle_def)
  show "wpa_ptk_state (stas B i) = WPA_PTK_INITIALIZE" "changed (stas B i)" "\<not> DeauthenticationRequest (stas B i)" "\<not> PTK_valid (stas B i)"
    using assms(3) by (simp_all add: defs)
  show "set (trace A) \<subseteq> set (trace B)" by (auto simp: defs intro: subsetD [OF remove_ptk_trace])
qed

text \<open>From the decision to disconnect, the machine comes to rest in its initial state.\<close>

lemma disconnected_loop:
  assumes "leaving i a A" and "wpa_ptk_state (stas A i) = WPA_PTK_DISCONNECT" and out: "x \<in> set (trace A)"
  shows "\<exists>B. wpa_sm_loop (Suc (Suc (Suc n))) env i A = Some B \<and> leaving i a B \<and> wpa_ptk_state (stas B i) = WPA_PTK_INITIALIZE \<and>
           \<not> PTK_valid (stas B i) \<and> x \<in> set (trace B)"
proof -
  define B where "B = sm_WPA_PTK_DISCONNECTED_Enter i (round_start i A)"
  define C where "C = sm_WPA_PTK_INITIALIZE_Enter env i (round_start i B)"
  note B = leaving_DISCONNECTED [OF leaving_round_start [OF assms(1)], folded B_def]
  have st: "wpa_ptk_state (stas (round_start i A) i) = WPA_PTK_DISCONNECT" using assms(2) by simp
  note B = B [OF st]
  have st': "wpa_ptk_state (stas (round_start i B) i) = WPA_PTK_DISCONNECTED" "\<not> DeauthenticationRequest (stas (round_start i B) i)"
    using B(3,5) by simp_all
  note C = leaving_INITIALIZE [OF leaving_round_start [OF B(2)] st', of env, folded C_def]
  have "sm_WPA_PTK_Step env i (round_start i C) = Some (round_start i C)"
    using C(2,3,5) by (simp add: sm_WPA_PTK_Step_def sm_WPA_PTK_switch_def leaving_def no_request_def Let_def)
  then have "wpa_sm_loop (Suc n) env i C = Some (round_start i C)"
    using C(2) by (intro loop_rests) (auto simp: leaving_def no_request_def)
  then have "wpa_sm_loop (Suc (Suc (Suc n))) env i A = Some (round_start i C)"
    by (simp only: loop_leaving [OF assms(1) B(1,2,4)] loop_leaving [OF B(2) C(1,2,4)])
  then show ?thesis using C(3,6,7) B(6) out leaving_round_start [OF C(2)] by auto
qed

lemma timeout_ends:
  assumes w: "waits_for_message2 env i c A" and c: "c = wpa_pairwise_update_count (conf A)" "c + 1 \<noteq> 0"
  defines "a \<equiv> sm_addr (stas A i)"
  shows "\<exists>A'. wpa_send_eapol_timeout (Suc (Suc (Suc (Suc (Suc n))))) env i A = Some A' \<and> StaDisconnect a 15 \<in> set (trace A') \<and>
    wpa_ptk_state (stas A' i) = WPA_PTK_INITIALIZE \<and> \<not> PTK_valid (stas A' i)"
proof -
  define T where "T = timeout_taken i A"
  define B where "B = set_sm i (\<lambda>s. s\<lparr>PTKRequest := False, TimeoutEvt := False, alt_snonce_valid := False,
      ptkstart_without_success := ptkstart_without_success s + 1, TimeoutCtr := TimeoutCtr s + 1\<rparr>) (enter_ptk WPA_PTK_PTKSTART i (round_start i T))"
  define C where "C = set_sm i (\<lambda>s. s\<lparr>disconnect_reason := 15\<rparr>) (handshake_failure (round_start i B))"
  define D where "D = sm_WPA_PTK_DISCONNECT_Enter env i C"
  note w' = w [unfolded waits_for_message2_def Let_def]
  have more: "c + 1 > c" using c(2) unatSuc [of c] by (simp add: word_less_nat_alt add.commute)
  have T: "leaving i a T" using w' by (simp add: T_def timeout_taken_def leaving_def no_request_def group_idle_def a_def)
  have B: "leaving i a B" "changed (stas B i)" "TimeoutCtr (stas B i) = c + 1" "wpa_ptk_state (stas B i) = WPA_PTK_PTKSTART"
    "\<not> pairwise_received (stas B i)" "\<not> DeauthenticationRequest (stas B i)" "conf B = conf A"
    using w' T by (simp_all add: B_def enter_ptk_def leaving_def T_def timeout_taken_def no_request_def group_idle_def pairwise_received_def)
  have "sm_WPA_PTK_Step env i (round_start i T) = Some B"
    using waiting_step [OF w] c more w' unfolding sm_WPA_PTK_PTKSTART_Enter_def T_def [symmetric] B_def [symmetric] Let_def
    by (simp add: B(3,7))
  note 1 = loop_leaving [OF T this B(1,2)]
  have C: "leaving i a C" "disconnect_reason (stas C i) = 15"
    using B(1) by (simp_all add: C_def handshake_failure_def leaving_def no_request_def group_idle_def)
  note D = leaving_DISCONNECT [OF C, of env, simplified, folded D_def]
  have "sm_WPA_PTK_Step env i (round_start i B) = Some D"
    using B more c(1) by (simp add: sm_WPA_PTK_Step_def sm_WPA_PTK_switch_def leaving_def no_request_def pairwise_received_def
        retry_limit_def Let_def D_def C_def) blast
  note 2 = loop_leaving [OF B(1) this D(1,3)]
  obtain E where E: "wpa_sm_loop (Suc (Suc (Suc n))) env i D = Some E" "leaving i a E" "wpa_ptk_state (stas E i) = WPA_PTK_INITIALIZE"
    "\<not> PTK_valid (stas E i)" "StaDisconnect a 15 \<in> set (trace E)"
    using disconnected_loop [OF D(1,2,4)] by auto
  have "wpa_sm_loop (Suc (Suc (Suc (Suc (Suc n))))) env i (timeout_taken i A) = Some E"
    unfolding T_def [symmetric] 1 2 by (rule E(1))
  moreover have "\<not> pending_deinit (stas E i)" using E(2) by (simp add: leaving_def no_request_def)
  ultimately show ?thesis
    using timeout_step [of A i "Suc (Suc (Suc (Suc (Suc n))))" env E] E w' by (simp add: no_request_def)
qed

text \<open>The timeouts of a station that does not answer.\<close>

primrec timeouts :: "nat \<Rightarrow> nat \<Rightarrow> wpa_env \<Rightarrow> nat \<Rightarrow> wpa_authenticator \<Rightarrow> wpa_authenticator option" where
  "timeouts 0 n env i A = Some A"
| "timeouts (Suc k) n env i A = wpa_send_eapol_timeout n env i A \<bind> timeouts k n env i"

text \<open>
  C20. A station that does not answer is disconnected. If message 1 was sent \<open>c\<close> times and no message
  2 comes, every timeout sends it again until it was sent as often as configured; the timeout after
  that disconnects the station with reason 15 (4-way handshake timeout), and its machine comes to rest
  in the initial state without a key. No run of the machines takes more than five rounds.
\<close>

theorem unanswered_handshake_ends:
  assumes "waits_for_message2 env i c A" and "c \<le> wpa_pairwise_update_count (conf A)" and "wpa_pairwise_update_count (conf A) + 1 \<noteq> 0"
  shows "\<exists>A'. timeouts (Suc (unat (wpa_pairwise_update_count (conf A) - c))) (n + 5) env i A = Some A' \<and>
           StaDisconnect (sm_addr (stas A i)) 15 \<in> set (trace A') \<and>
           wpa_ptk_state (stas A' i) = WPA_PTK_INITIALIZE \<and> \<not> PTK_valid (stas A' i)"
  using assms
proof (induction "unat (wpa_pairwise_update_count (conf A) - c)" arbitrary: c A)
  case 0
  then have "c = wpa_pairwise_update_count (conf A)" by (simp add: unat_eq_0)
  with timeout_ends [OF 0(2) this, of n] 0 show ?case by (auto simp: eval_nat_numeral)
next
  case (Suc k)
  let ?max = "wpa_pairwise_update_count (conf A)"
  have "c \<noteq> ?max" using Suc.hyps(2) by auto
  then have less: "c < ?max" using Suc.prems(2) by simp
  obtain B frame where B: "wpa_send_eapol_timeout (n + 5) env i A = Some B" "waits_for_message2 env i (c + 1) B" "conf B = conf A"
    "sm_addr (stas B i) = sm_addr (stas A i)"
    using timeout_resends [OF Suc.prems(1) less, of "n + 3"] by (auto simp: eval_nat_numeral)
  have suc: "unat (c + 1) = Suc (unat c)" 
  proof -
    have "c + 1 \<noteq> 0" using less by (metis max_word_wrap not_less word_order.extremum)
    then show ?thesis using unatSuc [of c] by (simp add: add.commute)
  qed
  have le: "c + 1 \<le> ?max" using less by (rule inc_le)
  have "k = unat (?max - (c + 1))"
    using Suc.hyps(2) suc le Suc.prems(2) by (simp add: unat_sub)
  then have "\<exists>A'. timeouts (Suc k) (n + 5) env i B = Some A' \<and> StaDisconnect (sm_addr (stas B i)) 15 \<in> set (trace A') \<and>
       wpa_ptk_state (stas A' i) = WPA_PTK_INITIALIZE \<and> \<not> PTK_valid (stas A' i)"
    using Suc.hyps(1) [of B "c + 1"] B le Suc.prems(3) by simp
  then show ?case unfolding Suc.hyps(2) [symmetric] using B(1,4) by simp
qed

end
