(* ===== verification/Wpa_Assoc.thy ===== *)
theory Wpa_Assoc
  imports Wpa_Retries
begin

text \<open>
  The association of a station starts the four-way handshake: the machines are initialized, the key
  is looked up, and message 1 is sent.
\<close>

section \<open>Initializing\<close>

text \<open>What \<open>INITIALIZE\<close> leaves, for a station whose group key is not being renewed.\<close>

lemma INITIALIZE_fields:
  assumes "\<not> GUpdateStationKeys (stas A i)"
  defines "s \<equiv> stas A i"
  shows "stas (sm_WPA_PTK_INITIALIZE_Enter env i A) i = s\<lparr>wpa_ptk_state := WPA_PTK_INITIALIZE, changed := \<not> Init s, keycount := 0,
           PInitAKeys := (sm_wpa s \<noteq> WPA_VERSION_WPA \<and> PInitAKeys s), Pair := True, PTK_valid := False, PTK := zero_ptk,
           pairwise_set := False, TimeoutCtr := 0\<rparr>"
    and "groups (sm_WPA_PTK_INITIALIZE_Enter env i A) = groups A" and "group_list (sm_WPA_PTK_INITIALIZE_Enter env i A) = group_list A"
    and "conf (sm_WPA_PTK_INITIALIZE_Enter env i A) = conf A" and "sta_list (sm_WPA_PTK_INITIALIZE_Enter env i A) = sta_list A"
    and "auth_addr (sm_WPA_PTK_INITIALIZE_Enter env i A) = auth_addr A"
proof -
  define C where "C = set_sm i (\<lambda>s. s\<lparr>PInitAKeys := (if sm_wpa s = WPA_VERSION_WPA then False else PInitAKeys s), Pair := True\<rparr>)
    (set_sm i (\<lambda>s. s\<lparr>changed := (if Init s then False else changed s), keycount := 0\<rparr>) (enter_ptk WPA_PTK_INITIALIZE i A))"
  define D where "D = set_sm i (\<lambda>s. s\<lparr>TimeoutCtr := 0\<rparr>) (wpa_auth_set_eapol i WPA_EAPOL_portValid False
    (wpa_remove_ptk env i (wpa_auth_set_eapol i WPA_EAPOL_portEnabled False C)))"
  have ne: "\<not> GUpdateStationKeys (stas (set_sm i (\<lambda>s. s\<lparr>changed := (if Init s then False else changed s), keycount := 0\<rparr>)
      (enter_ptk WPA_PTK_INITIALIZE i A)) i)" using assms(1) by (simp add: enter_ptk_def)
  have eq: "sm_WPA_PTK_INITIALIZE_Enter env i A =
      (if authorizes_itself (stas D i) then wpa_auth_set_eapol i WPA_EAPOL_authorized False D else D)"
    using ne by (simp add: sm_WPA_PTK_INITIALIZE_Enter_def Let_def D_def C_def)
  have D: "stas D i = s\<lparr>wpa_ptk_state := WPA_PTK_INITIALIZE, changed := \<not> Init s, keycount := 0,
           PInitAKeys := (sm_wpa s \<noteq> WPA_VERSION_WPA \<and> PInitAKeys s), Pair := True, PTK_valid := False, PTK := zero_ptk,
           pairwise_set := False, TimeoutCtr := 0\<rparr>"
    by (simp add: D_def C_def enter_ptk_def s_def wpa_auth_set_eapol_def)
  have f: "groups D = groups A" "group_list D = group_list A" "conf D = conf A" "sta_list D = sta_list A" "auth_addr D = auth_addr A"
    by (simp_all add: D_def C_def enter_ptk_def wpa_auth_set_eapol_def wpa_remove_ptk_def wpa_auth_set_key_def Let_def)
  show "stas (sm_WPA_PTK_INITIALIZE_Enter env i A) i = s\<lparr>wpa_ptk_state := WPA_PTK_INITIALIZE, changed := \<not> Init s, keycount := 0,
           PInitAKeys := (sm_wpa s \<noteq> WPA_VERSION_WPA \<and> PInitAKeys s), Pair := True, PTK_valid := False, PTK := zero_ptk,
           pairwise_set := False, TimeoutCtr := 0\<rparr>"
    unfolding eq D [symmetric] by (simp add: wpa_auth_set_eapol_def)
  show "groups (sm_WPA_PTK_INITIALIZE_Enter env i A) = groups A" "group_list (sm_WPA_PTK_INITIALIZE_Enter env i A) = group_list A"
    "conf (sm_WPA_PTK_INITIALIZE_Enter env i A) = conf A" "sta_list (sm_WPA_PTK_INITIALIZE_Enter env i A) = sta_list A"
    "auth_addr (sm_WPA_PTK_INITIALIZE_Enter env i A) = auth_addr A"
    unfolding eq f [symmetric] by (simp_all add: wpa_auth_set_eapol_def)
qed

text \<open>The only round of a run with \<open>Init\<close> set.\<close>

lemma init_loop:
  assumes "Init (stas A i)" and "\<not> pending_deinit (stas A i)" and "\<not> GUpdateStationKeys (stas A i)"
    and "group_rests (groups A (auth_group A))" and s: "s = stas A i"
  obtains B where "wpa_sm_loop (Suc n) env i A = Some B"
    and "stas B i = s\<lparr>wpa_ptk_state := WPA_PTK_INITIALIZE, changed := False, keycount := 0,
           PInitAKeys := (sm_wpa s \<noteq> WPA_VERSION_WPA \<and> PInitAKeys s), Pair := True, PTK_valid := False, PTK := zero_ptk,
           pairwise_set := False, TimeoutCtr := 0, wpa_ptk_group_state := WPA_PTK_GROUP_IDLE, GTimeoutCtr := 0, PtkGroupInit := False\<rparr>"
    and "groups B = (groups A)(auth_group A := (groups A (auth_group A))\<lparr>g_changed := False\<rparr>)" and "group_list B = group_list A"
    and "conf B = conf A" and "sta_list B = sta_list A" and "auth_addr B = auth_addr A"
proof -
  define P where "P = sm_WPA_PTK_INITIALIZE_Enter env i (round_start i A)"
  have "\<not> GUpdateStationKeys (stas (round_start i A) i)" using assms(3) by simp
  note P = INITIALIZE_fields [OF this, of env, folded P_def]
  define B where "B = sm_WPA_PTK_GROUP_Step env i P"
  have eq: "B = set_sm i (\<lambda>s. s\<lparr>PtkGroupInit := False\<rparr>) (sm_WPA_PTK_GROUP_IDLE_Enter i P)"
    using assms(1) by (simp add: B_def sm_WPA_PTK_GROUP_Step_def Let_def P(1))
  have B: "stas B i = s\<lparr>wpa_ptk_state := WPA_PTK_INITIALIZE, changed := False, keycount := 0,
           PInitAKeys := (sm_wpa s \<noteq> WPA_VERSION_WPA \<and> PInitAKeys s), Pair := True, PTK_valid := False, PTK := zero_ptk,
           pairwise_set := False, TimeoutCtr := 0, wpa_ptk_group_state := WPA_PTK_GROUP_IDLE, GTimeoutCtr := 0, PtkGroupInit := False\<rparr>"
    using assms(1) by (simp add: eq sm_WPA_PTK_GROUP_IDLE_Enter_def enter_ptk_group_def P(1) s)
  have f: "groups B = (groups A)(auth_group A := (groups A (auth_group A))\<lparr>g_changed := False\<rparr>)" "group_list B = group_list A"
    "conf B = conf A" "sta_list B = sta_list A" "auth_addr B = auth_addr A"
    by (simp_all add: eq sm_WPA_PTK_GROUP_IDLE_Enter_def enter_ptk_group_def P)
  have "\<not> pending_deinit (stas P i)" "\<not> pending_deinit (stas B i)" using assms(2) by (simp_all add: P(1) B s)
  moreover have "group_rests (groups B (auth_group B))" using assms(4) by (simp add: f)
  moreover have "sm_WPA_PTK_Step env i (round_start i A) = Some P" using assms(1) by (simp add: sm_WPA_PTK_Step_def Let_def P_def)
  ultimately have "wpa_sm_round env step i A = Some B" for step
    using assms(2) by (simp add: wpa_sm_round_def round_start_def [symmetric] Let_def B_def [symmetric] group_step_rests)
  moreover have "\<not> wpa_sm_again i B" using B f by (simp add: wpa_sm_again_def)
  ultimately have "wpa_sm_loop (Suc n) env i A = Some B" by simp
  then show thesis by (rule that) (fact B f)+
qed

section \<open>From the request to message 1\<close>

text \<open>A station without any request but, perhaps, that to authenticate.\<close>

definition starting :: "nat \<Rightarrow> wpa_authenticator \<Rightarrow> bool" where
  "starting i A \<longleftrightarrow> no_request ((stas A i)\<lparr>in_step_loop := False, AuthenticationRequest := False\<rparr>) \<and> group_idle (stas A i) \<and>
     group_rests (groups A (auth_group A))"

lemma starting_round_start: "starting i A \<Longrightarrow> starting i (round_start i A)"
  by (auto simp: starting_def no_request_def group_idle_def)

lemma loop_starting:
  assumes "starting i A" and "sm_WPA_PTK_Step env i (round_start i A) = Some B" and "starting i B" and "changed (stas B i)"
  shows "wpa_sm_loop (Suc n) env i A = wpa_sm_loop n env i B"
  using assms by (subst loop_round [of A i env B]) (auto simp: starting_def no_request_def)

lemma start_AUTHENTICATION:
  assumes "starting i A" and "AuthenticationRequest (stas A i)"
  defines "B \<equiv> sm_WPA_PTK_AUTHENTICATION_Enter i A"
  shows "sm_WPA_PTK_Step env i A = Some B" and "starting i B" and "changed (stas B i)" and "groups B = groups A"
    and "stas B i = (stas A i)\<lparr>changed := True, wpa_ptk_state := WPA_PTK_AUTHENTICATION, PTK := zero_ptk, PTK_valid := False,
           AuthenticationRequest := False\<rparr>" and "conf B = conf A"
proof -
  note defs = B_def sm_WPA_PTK_AUTHENTICATION_Enter_def enter_ptk_def wpa_auth_set_eapol_def Let_def
  show "sm_WPA_PTK_Step env i A = Some B"
    using assms(1,2) by (simp add: B_def sm_WPA_PTK_Step_def starting_def no_request_def Let_def)
  show "stas B i = (stas A i)\<lparr>changed := True, wpa_ptk_state := WPA_PTK_AUTHENTICATION, PTK := zero_ptk, PTK_valid := False,
           AuthenticationRequest := False\<rparr>" "groups B = groups A" "conf B = conf A" "changed (stas B i)" by (simp_all add: defs)
  show "starting i B" using assms(1) by (simp add: defs starting_def no_request_def group_idle_def)
qed

lemma start_AUTHENTICATION2:
  assumes "starting i A" and "wpa_ptk_state (stas A i) = WPA_PTK_AUTHENTICATION" and "\<not> AuthenticationRequest (stas A i)"
    and "first_sta_seen (groups A (sm_group (stas A i)))" and "\<forall>tr n. random_bytes env tr n \<noteq> None"
  defines "B \<equiv> sm_WPA_PTK_AUTHENTICATION2_Enter env i A"
  shows "sm_WPA_PTK_Step env i A = Some B" and "starting i B" and "changed (stas B i)" and "groups B = groups A"
    and "\<exists>n. stas B i = (stas A i)\<lparr>changed := True, wpa_ptk_state := WPA_PTK_AUTHENTICATION2, ReAuthenticationRequest := False, ANonce := n,
           TimeoutCtr := 0\<rparr>" and "conf B = conf A"
proof -
  obtain r where r: "random_bytes env (trace A @ [GetRandom 32]) 32 = Some r" using assms(5) by blast
  have B: "B = set_sm i (\<lambda>s. s\<lparr>ANonce := take 32 (r @ replicate 32 0), TimeoutCtr := 0\<rparr>) (emit (GetRandom 32)
      (set_sm i (\<lambda>s. s\<lparr>ReAuthenticationRequest := False\<rparr>) (enter_ptk WPA_PTK_AUTHENTICATION2 i A)))"
    using assms(4) r by (simp add: B_def sm_WPA_PTK_AUTHENTICATION2_Enter_def wpa_group_ensure_init_def new_anonce_def random_get_bytes_def
        enter_ptk_def Let_def)
  show "sm_WPA_PTK_Step env i A = Some B"
    using assms(1-3) by (simp add: B_def sm_WPA_PTK_Step_def sm_WPA_PTK_switch_def starting_def no_request_def Let_def)
  show "\<exists>n. stas B i = (stas A i)\<lparr>changed := True, wpa_ptk_state := WPA_PTK_AUTHENTICATION2, ReAuthenticationRequest := False, ANonce := n,
           TimeoutCtr := 0\<rparr>" "groups B = groups A" "conf B = conf A" "changed (stas B i)"
    by (rule exI [of _ "take 32 (r @ replicate 32 0)"]) (simp_all add: B enter_ptk_def)
  show "starting i B" using assms(1) by (simp add: B enter_ptk_def starting_def no_request_def group_idle_def)
qed

lemma start_INITPSK:
  assumes "starting i A" and "wpa_ptk_state (stas A i) = WPA_PTK_AUTHENTICATION2" and "\<not> AuthenticationRequest (stas A i)"
    and "wpa_key_mgmt (stas A i) = WPA_KEY_MGMT_PSK" and "\<forall>tr. cb_get_psk env tr (sm_addr (stas A i)) = (psk, vlan) # ps"
  defines "B \<equiv> sm_WPA_PTK_INITPSK_Enter env i A"
  shows "sm_WPA_PTK_Step env i A = Some B" and "starting i B" and "changed (stas B i)" and "groups B = groups A"
    and "stas B i = (stas A i)\<lparr>changed := True, wpa_ptk_state := WPA_PTK_INITPSK, PMK := psk, req_replay_counter_used := False\<rparr>"
    and "conf B = conf A"
proof -
  have B: "B = set_sm i (\<lambda>s. s\<lparr>PMK := psk, req_replay_counter_used := False\<rparr>) (enter_ptk WPA_PTK_INITPSK i A)"
    using assms(5) by (simp add: B_def sm_WPA_PTK_INITPSK_Enter_def enter_ptk_def Let_def)
  have "step_AUTHENTICATION2 env i A = B"
    using assms(4) by (simp add: B_def step_AUTHENTICATION2_def akm_defs Let_def)
  then show "sm_WPA_PTK_Step env i A = Some B"
    using assms(1-3) by (simp add: sm_WPA_PTK_Step_def sm_WPA_PTK_switch_def starting_def no_request_def Let_def)
  show "stas B i = (stas A i)\<lparr>changed := True, wpa_ptk_state := WPA_PTK_INITPSK, PMK := psk, req_replay_counter_used := False\<rparr>"
    "groups B = groups A" "conf B = conf A" "changed (stas B i)" by (simp_all add: B enter_ptk_def)
  show "starting i B" using assms(1) by (simp add: B enter_ptk_def starting_def no_request_def group_idle_def)
qed

text \<open>The five rounds of the run that the request to authenticate starts.\<close>

lemma authentication_loop:
  assumes A: "starting i A" and req: "AuthenticationRequest (stas A i)" and seen: "first_sta_seen (groups A (sm_group (stas A i)))"
    and random: "\<forall>tr n. random_bytes env tr n \<noteq> None" and akm: "wpa_key_mgmt (stas A i) = WPA_KEY_MGMT_PSK"
    and psk: "\<forall>tr. cb_get_psk env tr (sm_addr (stas A i)) = (psk, vlan) # ps" and ctr: "wpa_pairwise_update_count (conf A) \<noteq> 0"
    and quiet: "\<not> pairwise_received (stas A i)" "\<not> pairwise_set (stas A i)"
  obtains B frame where "wpa_sm_loop (n + 5) env i A = Some B" and "starting i B" and "wpa_ptk_state (stas B i) = WPA_PTK_PTKSTART"
    and "PMK (stas B i) = psk" and "TimeoutCtr (stas B i) = 1" and "SendEapol (sm_addr (stas A i)) frame False \<in> set (trace B)"
    and "bit (key_info frame) WPA_KEY_INFO_ACK"
proof -
  define A0 where "A0 = round_start i A"
  define A1 where "A1 = sm_WPA_PTK_AUTHENTICATION_Enter i A0"
  have A0: "starting i A0" "AuthenticationRequest (stas A0 i)" using A req by (simp_all add: A0_def starting_round_start)
  note A1 = start_AUTHENTICATION [OF A0, folded A1_def]
  note 1 = loop_starting [OF A A1(1) [unfolded A0_def] A1(2,3)]
  define R1 where "R1 = round_start i A1"
  have R1: "starting i R1" "wpa_ptk_state (stas R1 i) = WPA_PTK_AUTHENTICATION" "\<not> AuthenticationRequest (stas R1 i)"
    "first_sta_seen (groups R1 (sm_group (stas R1 i)))"
    using starting_round_start [OF A1(2)] seen by (auto simp: R1_def A1 A0_def)
  define A2 where "A2 = sm_WPA_PTK_AUTHENTICATION2_Enter env i R1"
  note A2 = start_AUTHENTICATION2 [OF R1 random, folded A2_def]
  note 2 = loop_starting [OF A1(2) A2(1) [unfolded R1_def] A2(2,3)]
  from A2(5) obtain nonce where a2: "stas A2 i = (stas R1 i)\<lparr>changed := True, wpa_ptk_state := WPA_PTK_AUTHENTICATION2,
      ReAuthenticationRequest := False, ANonce := nonce, TimeoutCtr := 0\<rparr>" by blast
  define R2 where "R2 = round_start i A2"
  have R2: "starting i R2" "wpa_ptk_state (stas R2 i) = WPA_PTK_AUTHENTICATION2" "\<not> AuthenticationRequest (stas R2 i)"
    "wpa_key_mgmt (stas R2 i) = WPA_KEY_MGMT_PSK" "\<forall>tr. cb_get_psk env tr (sm_addr (stas R2 i)) = (psk, vlan) # ps"
    using starting_round_start [OF A2(2)] akm psk by (simp_all add: R2_def a2 R1_def A1(5) A0_def)
  define A3 where "A3 = sm_WPA_PTK_INITPSK_Enter env i R2"
  note A3 = start_INITPSK [OF R2, folded A3_def]
  note 3 = loop_starting [OF A2(2) A3(1) [unfolded R2_def] A3(2,3)]
  define R3 where "R3 = round_start i A3"
  define r where "r = stas R3 i"
  have r: "r = (stas A i)\<lparr>changed := False, wpa_ptk_state := WPA_PTK_INITPSK, PTK := zero_ptk, PTK_valid := False,
      AuthenticationRequest := False, ReAuthenticationRequest := False, ANonce := nonce, TimeoutCtr := 0, PMK := psk,
      req_replay_counter_used := False\<rparr>"
    by (simp add: r_def R3_def A3(5) R2_def a2 R1_def A1(5) A0_def)
  have cf: "conf R3 = conf A" by (simp add: R3_def A3(6) R2_def A2(6) R1_def A1(6) A0_def)
  have p: "message1_pmkid env R3 r \<noteq> None" using akm by (simp add: message1_pmkid_def r akm_defs)
  have le: "TimeoutCtr r + 1 \<le> wpa_pairwise_update_count (conf R3)" using ctr by (simp add: r cf word_le_nat_alt unat_gt_0 Suc_le_eq)
  obtain A4 frame kr b where A4: "sm_WPA_PTK_PTKSTART_Enter env i R3 = Some A4"
    "stas A4 = (stas R3)(i := r\<lparr>changed := True, wpa_ptk_state := WPA_PTK_PTKSTART, PTKRequest := False, TimeoutEvt := False,
       alt_snonce_valid := False, ptkstart_without_success := ptkstart_without_success r + 1, TimeoutCtr := TimeoutCtr r + 1,
       key_replay := kr, pending_1_of_4_timeout := b\<rparr>)"
    "groups A4 = groups R3" "group_list A4 = group_list R3" "conf A4 = conf R3"
    "SendEapol (sm_addr r) frame (pairwise_set r) \<in> set (trace A4)" "bit (key_info frame) WPA_KEY_INFO_ACK"
    by (rule PTKSTART_sends [OF r_def p le]) (rule that, assumption+)
  have R3: "starting i R3" using starting_round_start [OF A3(2)] by (simp add: R3_def)
  have s4: "starting i A4" "changed (stas A4 i)"
    using R3 by (simp_all add: starting_def A4 no_request_def group_idle_def r_def)
  have "sm_WPA_PTK_Step env i R3 = Some A4"
    using R3 A4(1) psk by (simp add: sm_WPA_PTK_Step_def sm_WPA_PTK_switch_def starting_def no_request_def Let_def r_def [symmetric]) (simp add: r)
  note 4 = loop_starting [OF A3(2) this [unfolded R3_def] s4]
  have rest: "sm_WPA_PTK_Step env i (round_start i A4) = Some (round_start i A4)"
    using s4(1) quiet ctr by (simp add: sm_WPA_PTK_Step_def sm_WPA_PTK_switch_def starting_def no_request_def pairwise_received_def Let_def
        A4 r cf) blast
  then have 5: "wpa_sm_loop (Suc n) env i A4 = Some (round_start i A4)"
    using s4(1) by (intro loop_rests) (auto simp: starting_def no_request_def)
  have "wpa_sm_loop (n + 5) env i A = Some (round_start i A4)"
    by (simp only: numeral_eq_Suc add_Suc_right add_0_right pred_numeral_simps Num.arith_simps 1 2 3 4 5 One_nat_def)
  then show thesis
    using starting_round_start [OF s4(1)] A4(6,7) quiet(2) by (intro that [of "round_start i A4" frame]) (simp_all add: A4(2) r)
qed

text \<open>
  C19. An association starts the handshake. A new station of a network with pre-shared keys, whose
  group has its keys and whose random numbers do not fail, is initialized and authenticated when it
  associates: its machine takes the first pre-shared key as the master key, sends message 1 and waits
  for message 2. The two runs of the machines take one and five rounds.
\<close>

theorem association_starts_handshake:
  assumes s: "s = stas A i" and "\<not> started s" and "no_request s" and "\<not> GUpdateStationKeys s" and "\<not> PtkGroupInit s" and "\<not> pairwise_received s"
    and "i \<in> set (sta_list A)" and "conf_wpa (conf A) \<noteq> 0" and "wpa_key_mgmt s = WPA_KEY_MGMT_PSK"
    and "group_rests (groups A (auth_group A))" and "first_sta_seen (groups A (sm_group s))"
    and "\<forall>tr n. random_bytes env tr n \<noteq> None" and "\<forall>tr. cb_get_psk env tr (sm_addr s) = (psk, vlan) # ps"
    and "wpa_pairwise_update_count (conf A) \<noteq> 0"
  shows "\<exists>A' frame. wpa_auth_sta_associated (n + 5) env i A = Some A' \<and> wpa_ptk_state (stas A' i) = WPA_PTK_PTKSTART \<and>
           PMK (stas A' i) = psk \<and> TimeoutCtr (stas A' i) = 1 \<and>
           SendEapol (sm_addr s) frame False \<in> set (trace A') \<and> bit (key_info frame) WPA_KEY_INFO_ACK"
proof -
  define I where "I = set_sm i (\<lambda>s. s\<lparr>in_step_loop := True\<rparr>) (set_sm i (\<lambda>s. s\<lparr>started := True, Init := True\<rparr>) A)"
  have I: "stas I i = s\<lparr>started := True, Init := True, in_step_loop := True\<rparr>" "groups I = groups A" "group_list I = group_list A"
    "conf I = conf A" "sta_list I = sta_list A" by (simp_all add: I_def s)
  have i: "Init (stas I i)" "\<not> pending_deinit (stas I i)" "\<not> GUpdateStationKeys (stas I i)" "group_rests (groups I (auth_group I))"
    using assms(3,4,10) by (simp_all add: I no_request_def)
  obtain B where B: "wpa_sm_loop (Suc (n + 4)) env i I = Some B"
    "stas B i = (stas I i)\<lparr>wpa_ptk_state := WPA_PTK_INITIALIZE, changed := False, keycount := 0,
       PInitAKeys := (sm_wpa (stas I i) \<noteq> WPA_VERSION_WPA \<and> PInitAKeys (stas I i)), Pair := True, PTK_valid := False, PTK := zero_ptk,
       pairwise_set := False, TimeoutCtr := 0, wpa_ptk_group_state := WPA_PTK_GROUP_IDLE, GTimeoutCtr := 0, PtkGroupInit := False\<rparr>"
    "groups B = (groups I)(auth_group I := (groups I (auth_group I))\<lparr>g_changed := False\<rparr>)" "group_list B = group_list I"
    "conf B = conf I" "sta_list B = sta_list I"
    by (rule init_loop [OF i refl, of "n + 4" env]) (rule that, assumption+)
  define J where "J = set_sm i (\<lambda>s. s\<lparr>Init := False, AuthenticationRequest := True\<rparr>) (set_sm i (\<lambda>s. s\<lparr>in_step_loop := False\<rparr>) B)"
  define L where "L = set_sm i (\<lambda>s. s\<lparr>in_step_loop := True\<rparr>) J"
  have n5: "Suc (n + 4) = n + 5" by simp
  have first: "wpa_sm_step (n + 5) env i (set_sm i (\<lambda>s. s\<lparr>started := True, Init := True\<rparr>) A) = Some (set_sm i (\<lambda>s. s\<lparr>in_step_loop := False\<rparr>) B)"
    using B(1) assms(3) unfolding wpa_sm_step_def wpa_sm_guard_def n5 I_def
    by (simp add: s [symmetric] no_request_def B(2) I)
  have L: "starting i L" "AuthenticationRequest (stas L i)" "first_sta_seen (groups L (sm_group (stas L i)))"
    "wpa_key_mgmt (stas L i) = WPA_KEY_MGMT_PSK" "\<forall>tr. cb_get_psk env tr (sm_addr (stas L i)) = (psk, vlan) # ps"
    "wpa_pairwise_update_count (conf L) \<noteq> 0" "\<not> pairwise_received (stas L i)" "\<not> pairwise_set (stas L i)" "sm_addr (stas L i) = sm_addr s"
    "\<not> in_step_loop (stas J i)"
    using assms(3-14) by (auto simp: L_def J_def B I starting_def no_request_def group_idle_def pairwise_received_def)
  obtain C frame where C: "wpa_sm_loop (n + 5) env i L = Some C" "starting i C" "wpa_ptk_state (stas C i) = WPA_PTK_PTKSTART"
    "PMK (stas C i) = psk" "TimeoutCtr (stas C i) = 1" "SendEapol (sm_addr (stas L i)) frame False \<in> set (trace C)"
    "bit (key_info frame) WPA_KEY_INFO_ACK"
    using authentication_loop [OF L(1-3) assms(12) L(4-8)] by blast
  have "wpa_auth_sta_associated (n + 5) env i A = Some (set_sm i (\<lambda>s. s\<lparr>in_step_loop := False\<rparr>) C)"
    using C(1,2) L(10) first assms(2,7,8)
    by (simp add: wpa_auth_sta_associated_def s [symmetric] B(6) I(5) J_def [symmetric] wpa_sm_step_def wpa_sm_guard_def L_def [symmetric]
        starting_def no_request_def)
  then show ?thesis using C L(9) by auto
qed

end
