(* ===== verification/Wpa_Replay.thy ===== *)
theory Wpa_Replay
  imports Wpa_Handshake Wpa_Runs
begin

text \<open>
  Replay protection, and three places where the code does not do what it means to: a buffer that is
  freed twice, an answer of the RADIUS server that takes the place of message 4, and a group of a VLAN
  whose rekeying never ends.
\<close>

section \<open>Replay counters\<close>

text \<open>
  A counter is passed if the last counter that was sent to the station is at least as large; spent if,
  moreover, it is pending neither for the current handshake nor among the counters of messages 1 that
  are kept aside. The largest counter is bounded by what it was at a time, \<open>v\<close>, and the length of the
  trace, as every frame that is sent sets a timeout; the counter of 64 bits wraps around behind that.
\<close>

definition pending :: "bytes \<Rightarrow> wpa_key_replay_counter list \<Rightarrow> bool" where
  "pending rc cs \<longleftrightarrow> (\<exists>c \<in> set cs. valid c \<and> counter c = rc)"

definition passed :: "bool \<Rightarrow> bytes \<Rightarrow> nat \<Rightarrow> nat \<Rightarrow> wpa_authenticator \<Rightarrow> bool" where
  "passed spent rc i v A \<longleftrightarrow>
     v + length (trace A) \<ge> 2 ^ 64 \<or>
     (let s = stas A i; last = counter (hd (key_replay s)) in
        key_replay s \<noteq> [] \<and> length rc = 8 \<and> length last = 8 \<and>
        be_value rc \<le> be_value last \<and> be_value last \<le> v + length (trace A) \<and>
        (spent \<longrightarrow> \<not> pending rc (key_replay s) \<and> \<not> pending rc (prev_key_replay s)))"

lemma not_pending: "\<not> pending rc cs \<Longrightarrow> \<not> wpa_replay_counter_valid cs rc"
  using replay_counter_valid_set by (auto simp: pending_def)

lemma mark_nonempty: "wpa_replay_counter_mark_invalid cs rc = [] \<longleftrightarrow> cs = []"
  by (simp add: wpa_replay_counter_mark_invalid_def)

lemma pending_mark [simp]:
  "\<not> pending rc (wpa_replay_counter_mark_invalid cs None)" "\<not> pending rc (wpa_replay_counter_mark_invalid cs (Some rc))"
  "\<not> pending rc (replicate n no_counter)"
  by (auto simp: pending_def wpa_replay_counter_mark_invalid_def no_counter_def split: if_splits)

lemma pending_marked: "pending rc (wpa_replay_counter_mark_invalid cs r) \<Longrightarrow> pending rc cs"
  by (auto simp: pending_def wpa_replay_counter_mark_invalid_def split: if_splits)

lemma passed_same:
  "passed b rc i v A \<Longrightarrow> length (trace A) \<le> length (trace B) \<Longrightarrow> key_replay (stas B i) = key_replay (stas A i) \<Longrightarrow>
   prev_key_replay (stas B i) = prev_key_replay (stas A i) \<Longrightarrow> passed b rc i v B"
  by (auto simp: passed_def Let_def)

text \<open>Sending a frame takes the next counter, for the station it is sent to.\<close>

lemma passed_next:
  assumes "passed b rc i v A" and "length (trace B) > length (trace A)"
    and "key_replay (stas B i) = next_replay_counter (key_replay (stas A i))" and "prev_key_replay (stas B i) = prev_key_replay (stas A i)"
  shows "passed b rc i v B"
proof (cases "v + length (trace B) \<ge> 2 ^ 64")
  case False
  let ?cs = "key_replay (stas A i)"
  have A: "?cs \<noteq> []" "length rc = 8" "length (counter (hd ?cs)) = 8" "be_value rc \<le> be_value (counter (hd ?cs))"
    "be_value (counter (hd ?cs)) \<le> v + length (trace A)"
    "b \<longrightarrow> \<not> pending rc ?cs \<and> \<not> pending rc (prev_key_replay (stas A i))"
    using assms(1,2) False by (auto simp: passed_def Let_def)
  have "be_value (inc_byte_array (counter (hd ?cs))) = be_value (counter (hd ?cs)) + 1"
    using A False assms(2) by (simp add: be_value_inc_byte_array)
  then have n: "be_value (counter (hd (next_replay_counter ?cs))) = be_value (counter (hd ?cs)) + 1" by (simp add: next_replay_counter_def)
  have "\<not> pending rc (next_replay_counter ?cs)" if "\<not> pending rc ?cs"
    using that n A(4) by (auto simp: pending_def next_replay_counter_def dest: in_set_takeD)
  then show ?thesis using A assms(2-4) n by (auto simp: passed_def Let_def next_replay_counter_def)
qed (simp add: passed_def)

lemma send_eapol_station:
  shows "length (trace A) \<le> length (trace (send_eapol env j info rsc nonce kde keyidx encr A)) \<and>
    stas (send_eapol env j info rsc nonce kde keyidx encr A) =
      (stas A)(j := (stas A j)\<lparr>key_replay := next_replay_counter (key_replay (stas A j))\<rparr>)"
proof -
  let ?B = "set_sm j (\<lambda>s. s\<lparr>key_replay := next_replay_counter (key_replay s)\<rparr>) A"
  define R where "R = (\<lambda>X :: wpa_authenticator. length (trace A) \<le> length (trace X) \<and> stas X = stas ?B)"
  have R: "R ?B" "R X \<Longrightarrow> R (emit x X)" "R X \<Longrightarrow> R (wpa_auth_set_eapol k var v X)" "R X \<Longrightarrow> R (set_group g f X)" for X x g f k var v
    by (simp_all add: R_def wpa_auth_set_eapol_def)
  have opt: "R x \<Longrightarrow> (\<And>y. m = Some y \<Longrightarrow> R (f y)) \<Longrightarrow> R (case m of None \<Rightarrow> x | Some y \<Rightarrow> f y)"
    for x m and f :: "'z \<Rightarrow> wpa_authenticator" by (simp split: option.split)
  have "R (send_eapol env j info rsc nonce kde keyidx encr A)"
    unfolding send_eapol_def Let_def split_beta by (rule opt, rule R, rule opt, (rule R)+)
  then show ?thesis by (simp add: R_def)
qed

lemma wpa_send_eapol_station:
  assumes "wpa_send_eapol env j info rsc nonce kde keyidx encr A = B"
  shows "length (trace B) > length (trace A) \<and> last_rx_eapol_key (stas B i) = last_rx_eapol_key (stas A i) \<and>
    key_replay (stas B i) = (if i = j then next_replay_counter (key_replay (stas A i)) else key_replay (stas A i)) \<and>
    prev_key_replay (stas B i) = prev_key_replay (stas A i)"
  using assms [symmetric] send_eapol_station [of A env j info rsc nonce kde keyidx encr]
  by (simp add: wpa_send_eapol_def Let_def)

lemma passed_send: "passed b rc i v A \<Longrightarrow> passed b rc i v (wpa_send_eapol env j info rsc nonce kde keyidx encr A)"
  using wpa_send_eapol_station [of env j info rsc nonce kde keyidx encr A _ i, OF refl]
  by (cases "i = j") (auto elim: passed_same passed_next)

lemma passed_set_sm:
  "passed b rc i v A \<Longrightarrow> (i = j \<Longrightarrow> key_replay (f (stas A i)) = key_replay (stas A i) \<and> prev_key_replay (f (stas A i)) = prev_key_replay (stas A i)) \<Longrightarrow>
   passed b rc i v (set_sm j f A)"
  by (erule passed_same) auto

text \<open>The station may do whatever it likes but associate anew, which starts the counter again.\<close>

fun same_association :: "nat \<Rightarrow> wpa_input \<Rightarrow> bool" where
  "same_association i (StaInit j addr) \<longleftrightarrow> j \<noteq> i"
| "same_association i (StaAssociated j) \<longleftrightarrow> j \<noteq> i"
| "same_association i _ \<longleftrightarrow> True"

lemma passed_take:
  assumes "passed b rc i v A"
  shows "passed b rc i v (set_sm j (mark_counters rc' msg) A)"
    and "passed True rc i v (set_sm i (mark_counters rc msg) A)"
proof -
  let ?m = "\<lambda>rc. mark_counters rc msg (stas A i)"
  have hd: "key_replay (?m rc) = [] \<longleftrightarrow> key_replay (stas A i) = []"
    "key_replay (stas A i) \<noteq> [] \<Longrightarrow> counter (hd (key_replay (?m rc))) = counter (hd (key_replay (stas A i)))" for rc
    by (simp_all add: mark_counters_def Let_def mark_nonempty counter_hd_mark)
  have none: "\<not> pending rc (key_replay (?m rc'))" for rc' by (simp add: mark_counters_def Let_def)
  have prev: "\<not> pending rc (prev_key_replay (?m rc))" by (simp add: mark_counters_def Let_def)
  have kept: "\<not> pending rc (prev_key_replay (?m rc'))" if "\<not> pending rc (key_replay (stas A i))"
    using that by (auto simp: mark_counters_def Let_def dest: pending_marked)
  show "passed True rc i v (set_sm i (mark_counters rc msg) A)"
    using assms hd [of rc] none [of rc] prev by (auto simp: passed_def Let_def)
  show "passed b rc i v (set_sm j (mark_counters rc' msg) A)"
    using assms hd [of rc'] none [of rc'] kept by (cases "j = i") (auto simp: passed_def Let_def)
qed

interpretation counters: wpa_operations "passed b rc i v" env "\<lambda>j. True" "same_association i" for b rc i v env
proof
  fix A A' B j g x f n gs l info keyidx rsc nonce kde encr addr rc' msg data ie_data st
  assume A: "passed b rc i v A"
  show "passed b rc i v (emit x A)" by (rule passed_same [OF A]) simp_all
  show "passed b rc i v (set_group g f A)" "passed b rc i v (A\<lparr>next_group := n, groups := gs\<rparr>)" "passed b rc i v (A\<lparr>group_list := l\<rparr>)"
    by (rule passed_same [OF A]; simp)+
  show "passed b rc i v (set_sm j (\<lambda>s. s\<lparr>GUpdateStationKeys := False\<rparr>) A)" "passed b rc i v (set_sm j (\<lambda>s. s\<lparr>Disconnect := True\<rparr>) A)"
    "passed b rc i v (set_sm j (\<lambda>s. s\<lparr>GUpdateStationKeys := True\<rparr>) A)" "passed b rc i v (set_sm j (store_message data) A)"
    by (rule passed_set_sm [OF A]; simp add: store_message_def)+
  show "stas B = stas A \<Longrightarrow> trace B = trace A \<Longrightarrow> passed b rc i v B" by (rule passed_same [OF A]) simp_all
  show "passed b rc i v (wpa_send_eapol env j info rsc nonce kde keyidx encr A)" by (rule passed_send [OF A])
  show "passed b rc i v (set_sm j (mark_counters rc' msg) A)" by (rule passed_take(1) [OF A])
  show "same_association i (StaAssociated j) \<Longrightarrow>
        passed b rc i v (set_sm j (\<lambda>s. s\<lparr>key_replay := replicate RSNA_MAX_EAPOL_RETRIES no_counter, ReAuthenticationRequest := True\<rparr>) A)"
    by (rule passed_set_sm [OF A]) simp
  show "same_association i (StaInit j addr) \<Longrightarrow> passed b rc i v (wpa_auth_sta_init j addr A)"
    by (rule passed_same [OF A]) (simp_all add: wpa_auth_sta_init_def wpa_group_get_def Let_def)
next
  fix A j f
  show "passed b rc i v A \<Longrightarrow> same_station (stas A j) (f (stas A j)) \<Longrightarrow> passed b rc i v (set_sm j f A)"
    by (erule passed_set_sm) (simp add: same_station_def)
next
  fix A x
  show "passed b rc i v A \<Longrightarrow> passed b rc i v (emit x A)" by (erule passed_same) simp_all
qed simp_all

text \<open>The machines do not touch the received frame.\<close>

definition holds_frame :: "nat \<Rightarrow> bytes option \<Rightarrow> wpa_authenticator \<Rightarrow> bool" where
  "holds_frame i d A \<longleftrightarrow> last_rx_eapol_key (stas A i) = d"

interpretation frame: wpa_machines "holds_frame i d" env "\<lambda>j. True" for i d env
  by unfold_locales (auto simp: holds_frame_def same_station_def wpa_send_eapol_station)

text \<open>A frame that reaches the machines has its counter spent.\<close>

lemma taken_spends_counter:
  assumes r: "wpa_receive n env data i A = Some B" and msg: "receive_message env A (stas A i) data = Some msg" "msg \<noteq> REQUEST"
    and valid: "wpa_replay_counter_valid (key_replay (stas A i)) (key_replay_counter data)"
    and taken: "last_rx_eapol_key (stas A i) \<noteq> Some data" "last_rx_eapol_key (stas B i) = Some data"
    and A: "passed False (key_replay_counter data) i v A"
  shows "passed True (key_replay_counter data) i v B"
proof -
  let ?rc = "key_replay_counter data" and ?d = "last_rx_eapol_key (stas A i)"
  have vc: "wpa_auth_valid_counter data msg i A = (True, A)" using msg(2) valid by (simp add: wpa_auth_valid_counter_def Let_def)
  define C where "C = (if msg = PAIRWISE_2 then emit (AddRandomness (key_nonce data)) A else A)"
  define D where "D = snd (receive_mic env data msg i C)"
  have C: "passed False ?rc i v C" using A by (simp add: C_def counters.J_quiet)
  have D: "passed False ?rc i v D" unfolding D_def by (rule counters.J_receive_mic [OF C TrueI])
  have hC: "holds_frame i ?d C" by (simp add: C_def holds_frame_def)
  have hD: "holds_frame i ?d D" unfolding D_def by (rule frame.J_receive_mic [OF hC TrueI])
  have hP: "holds_frame i ?d (emit PoolReady C)" using hC by (simp add: holds_frame_def)
  from r have "B = A \<or> B = C \<or> B = D \<or> sta_disconnect_now n env i 2 (emit PoolReady C) = Some B \<or>
      receive_verified n env data msg i D = Some B"
    unfolding wpa_receive_def msg option.case Let_def vc split_beta fst_conv snd_conv C_def [symmetric] D_def [symmetric]
    by (auto split: if_split_asm)
  moreover have "B \<noteq> A" "B \<noteq> C" "B \<noteq> D" using taken hC hD by (auto simp: holds_frame_def)
  moreover have "sta_disconnect_now n env i 2 (emit PoolReady C) \<noteq> Some B"
    using frame.J_disconnect_now [OF hP] taken by (auto simp: holds_frame_def)
  ultimately have "receive_verified n env data msg i D = Some B" by blast
  then have "wpa_sm_step n env i (set_sm i (store_message data) (set_sm i (mark_counters ?rc msg) D)) = Some B"
    using msg(2) by (simp add: receive_verified_def)
  then show ?thesis by (rule counters.J_sm_step [OF counters.J_store [OF passed_take(2) [OF D] TrueI]])
qed


text \<open>The counters of requests grow.\<close>

lemma request_counter_grows:
  assumes "req_replay_counter_used s" and "length (req_replay_counter s) = length rc"
  shows "wpa_auth_valid_request_counter s rc \<longleftrightarrow> be_value (req_replay_counter s) < be_value rc"
  using assms by (simp add: wpa_auth_valid_request_counter_def memcmp_less_be_value)

section \<open>A buffer that is freed twice\<close>

text \<open>
  C39. If the key data of message 2 is marked as encrypted and cannot be unwrapped, \<open>PTKCALCNEGOTIATING\<close>
  frees the buffer for the decrypted data and jumps to the end of the function, which frees it again.
  A station that knows the key of the network and sends such a message 2 makes the authenticator do
  this as soon as its machine is run.
\<close>

theorem message2_double_free:
  assumes "receive_message env A s data = Some PAIRWISE_2" and "wpa_replay_counter_valid (key_replay s) (key_replay_counter data)"
    and "wpa_ptk_state s = WPA_PTK_PTKSTART" and "\<not> PTK_valid s" and "\<not> reject_4way_hs_for_entropy (groups A (sm_group s))"
    and "\<not> bit (key_info data) WPA_KEY_INFO_ACK" and "bit (key_info data) WPA_KEY_INFO_MIC" and s: "s = stas A i"
    and "no_request s" and psk: "uses_psk s" "\<forall>tr. cb_get_psk env tr (sm_addr s) = ps"
    and find: "find_pmk env A (s\<lparr>SNonce := key_nonce data\<rparr>) data ps = Some (pmk, vlan, ptk)"
    and n: "mic_len = wpa_mic_len (wpa_key_mgmt s) (length (PMK s))" "kd = take (get_be16 data (81 + mic_len)) (drop (83 + mic_len) data)"
    and encr: "bit (key_info data) WPA_KEY_INFO_ENCR_KEY_DATA" "key_ver data = WPA_KEY_INFO_TYPE_HMAC_SHA1_AES" "mic_len \<noteq> 0"
      "length kd \<ge> 8" "length kd mod 8 = 0" "aes_unwrap (crypto env) (kek ptk) kd = None"
  shows "wpa_receive (Suc fuel) env data i A = None"
proof -
  define B where "B = set_sm i (\<lambda>s. s\<lparr>in_step_loop := True\<rparr>) (message2_taken data i A)"
  define D where "D = round_start i B"
  define E where "E = set_sm i (\<lambda>s. s\<lparr>EAPOLKeyReceived := False, update_snonce := False\<rparr>) (enter_ptk WPA_PTK_PTKCALCNEGOTIATING i D)"
  define d where "d = stas E i"
  note fields = store_message_def mark_counters_def Let_def
  have d: "d = (store_message data (mark_counters (key_replay_counter data) PAIRWISE_2 (s\<lparr>MICVerified := False\<rparr>)))\<lparr>in_step_loop := True,
      changed := True, wpa_ptk_state := WPA_PTK_PTKCALCNEGOTIATING, EAPOLKeyReceived := False, update_snonce := False\<rparr>"
    by (simp add: d_def E_def D_def B_def enter_ptk_def s)
  have "same_keys d (s\<lparr>SNonce := key_nonce data\<rparr>)" "conf E = conf A" "auth_addr E = auth_addr A"
    by (simp_all add: d same_keys_def fields E_def D_def B_def enter_ptk_def)
  then have f: "find_pmk env E d data ps = Some (pmk, vlan, ptk)" using find find_pmk_same by metis
  have u: "uses_psk d" "sm_addr d = sm_addr s" "last_rx_eapol_key d = Some data" "wpa_key_mgmt d = wpa_key_mgmt s" "PMK d = PMK s"
    using psk(1) by (simp_all add: d fields uses_psk_def)
  have len: "\<not> length data < 83 + mic_len" "\<not> get_be16 data (81 + mic_len) > length data - 83 - mic_len"
    using assms(1) by (auto simp: receive_message_def Let_def n(1) split: if_splits)
  then have "length kd = get_be16 data (81 + mic_len)" by (simp add: n(2))
  then have "message2_key_data env t mic_len ptk data = None" for t
    using encr len by (simp add: message2_key_data_def Let_def n(2))
  then have "sm_WPA_PTK_PTKCALCNEGOTIATING_Enter env i D = None"
    unfolding sm_WPA_PTK_PTKCALCNEGOTIATING_Enter_def E_def [symmetric] d_def [symmetric] ptk_candidates_def Let_def
    using u psk(2) f by (simp add: n(1) [symmetric] accept_message2_def)
  moreover have "sm_WPA_PTK_Step env i D = sm_WPA_PTK_PTKCALCNEGOTIATING_Enter env i D"
    using assms(3,9) pairwise_message_bits [OF assms(1)]
    by (simp add: sm_WPA_PTK_Step_def sm_WPA_PTK_switch_def pairwise_received_def Let_def no_request_def D_def B_def s [symmetric] fields)
  moreover have "\<not> pending_deinit (stas B i)" using assms(9) by (simp add: B_def s [symmetric] no_request_def fields)
  ultimately have "wpa_sm_loop (Suc fuel) env i B = None"
    by (simp add: wpa_sm_round_def round_start_def [symmetric] D_def)
  then show ?thesis
    unfolding receive_message2 [OF assms(1-8)] wpa_sm_step_def wpa_sm_guard_def B_def
    using assms(9) by (simp add: s [symmetric] no_request_def fields)
qed

section \<open>An answer of the RADIUS server in place of message 4\<close>

text \<open>
  C40. An answer of the RADIUS server to the question for a pre-shared key is taken as a received
  message, whatever the machine waits for. A question that is still open when a later handshake of
  the same station has reached message 3 thus completes that handshake when it is answered: the key
  is installed and the port opened though no message 4 has been received.
\<close>

theorem radius_answer_completes_handshake:
  assumes "wpa_ptk_state s = WPA_PTK_PTKINITNEGOTIATING" and "waiting_radius_psk s" and "MICVerified s" and "\<not> update_snonce s"
    and "EAPOLKeyPairwise s" and "\<not> EAPOLKeyRequest s" and s: "s = stas A i" and "no_request s" and "group_idle s"
    and "group_rests (groups A (auth_group A))" and "Pair s" and "\<not> use_ext_key_id s" and "sm_wpa s = WPA_VERSION_WPA2"
    and "\<forall>tr. cb_result env tr = 0"
  shows "\<exists>A'. wpa_sm_step (Suc (Suc n)) env i (wpa_auth_sta_radius_psk_resp True i A) = Some A' \<and>
           wpa_ptk_state (stas A' i) = WPA_PTK_PTKINITDONE \<and>
           SetKey 0 (wpa_cipher_to_alg (pairwise s)) (sm_addr s) 0 (tk (PTK s)) KEY_FLAG_PAIRWISE_RX_TX \<in> set (trace A') \<and>
           SetEapol (sm_addr s) WPA_EAPOL_portValid True \<in> set (trace A')"
proof -
  define B where "B = set_sm i (\<lambda>s. s\<lparr>in_step_loop := True\<rparr>) (wpa_auth_sta_radius_psk_resp True i A)"
  define D where "D = round_start i B"
  define E where "E = sm_WPA_PTK_PTKINITDONE_Enter env i D"
  have d: "stas D i = s\<lparr>waiting_radius_psk := False, EAPOLKeyReceived := True, in_step_loop := True, changed := False\<rparr>"
    and D: "group_list D = group_list A" "groups D (auth_group A) = (groups A (auth_group A))\<lparr>g_changed := False\<rparr>"
    using assms(2) by (simp_all add: D_def B_def wpa_auth_sta_radius_psk_resp_def Let_def s)
  note E = PTKINITDONE_completes [of D i env, OF _ _ refl, folded E_def, simplified Let_def d, simplified, simplified assms(11-14) if_False]
  have r: "no_request ((stas E i)\<lparr>in_step_loop := False\<rparr>)" "group_idle (stas E i)" "\<not> Init (stas E i)" "\<not> pending_deinit (stas E i)"
    "changed (stas E i)" "wpa_ptk_state (stas E i) = WPA_PTK_PTKINITDONE"
    using assms(8,9,13) E(1) by (simp_all add: d no_request_def group_idle_def)
  have g: "group_rests (groups E (auth_group E))" using E(2,3) assms(10) D by simp
  have "sm_WPA_PTK_Step env i D = Some E"
    using assms(1,3-6,8) by (simp add: sm_WPA_PTK_Step_def sm_WPA_PTK_switch_def step_PTKINITNEGOTIATING_def pairwise_received_def
        no_request_def Let_def d E_def)
  moreover have b: "\<not> pending_deinit (stas B i)" using assms(2,8) by (simp add: B_def wpa_auth_sta_radius_psk_resp_def s [symmetric] no_request_def Let_def)
  ultimately have "wpa_sm_loop (Suc (Suc n)) env i B = wpa_sm_loop (Suc n) env i E"
    using r g by (subst loop_round [of B i env E]) (auto simp: D_def)
  also have "\<dots> = Some (round_start i E)"
    using r g by (intro loop_rests) (auto intro!: done_rests simp: no_request_def)
  finally have loop: "wpa_sm_loop (Suc (Suc n)) env i B = Some (round_start i E)" .
  have "wpa_sm_step (Suc (Suc n)) env i (wpa_auth_sta_radius_psk_resp True i A) = Some (set_sm i (\<lambda>s. s\<lparr>in_step_loop := False\<rparr>) (round_start i E))"
    unfolding wpa_sm_step_def wpa_sm_guard_def B_def [symmetric] loop
    using assms(2,8) r(4) by (simp add: wpa_auth_sta_radius_psk_resp_def s [symmetric] no_request_def Let_def)
  then show ?thesis using r E(5) by auto
qed

section \<open>A group of a VLAN that is never done\<close>

text \<open>
  The group machine counts the stations that have yet to confirm the new group key in the group of
  the station, but a confirmation is counted in the group of the authenticator. The group of a VLAN
  therefore waits for ever, and the count of the other group becomes negative.
\<close>

lemma vlan_group_never_done:
  assumes "sm_group (stas A i) \<noteq> auth_group A"
  shows "groups (wpa_gkeydone_sta i A) (sm_group (stas A i)) = groups A (sm_group (stas A i))"
    and "GKeyDoneStations (groups (wpa_gkeydone_sta i A) (auth_group A)) = GKeyDoneStations (groups A (auth_group A)) - 1"
  using assms by (simp_all add: wpa_gkeydone_sta_def)

end
