(* ===== verification/Wpa_Negotiation.thy ===== *)
theory Wpa_Negotiation
  imports Wpa_Elements
begin

text \<open>
  What holds of the elements: a parser never reads outside its element and knows all suites it finds,
  what is advertised is read back, the elements of the access point fit their buffer, and an association is accepted only with
  suites that both sides allow.
\<close>

section \<open>Reading stays inside the element\<close>

text \<open>A part of a parser that ends well leaves a position from which \<open>left\<close> bytes are in the element.\<close>

definition in_element :: "bytes \<Rightarrow> (int \<times> ie_parse) option \<Rightarrow> bool" where
  "in_element ie m \<longleftrightarrow> (case m of None \<Rightarrow> False | Some (r, d, pos, left) \<Rightarrow> r = 0 \<longrightarrow> pos + left \<le> length ie)"

lemma in_element_Some [simp]: "in_element ie (Some (r, d, pos, left)) \<longleftrightarrow> (r = 0 \<longrightarrow> pos + left \<le> length ie)"
  by (simp add: in_element_def)

lemma in_element_then:
  assumes "in_element ie m" and "\<And>d pos left. pos + left \<le> length ie \<Longrightarrow> in_element ie (f (d, pos, left))"
  shows "in_element ie (ie_then m f)"
proof -
  obtain r d pos left where m: "m = Some (r, d, pos, left)" using assms(1) by (auto simp: in_element_def split: option.splits)
  show ?thesis using assms(1) assms(2) [of pos left d] by (auto simp: m ie_then_def)
qed

lemma rd_in_element [simp]:
  "i < length ie \<Longrightarrow> rd_byte ie i = Some (ie ! i)"
  "i + 2 \<le> length ie \<Longrightarrow> rd_le16 ie i = Some (unat (ie ! i) + unat (ie ! (i + 1)) * 256)"
  "i + 4 \<le> length ie \<Longrightarrow> rd_be32 ie i = Some (get_be32 ie i)"
  "i + n \<le> length ie \<Longrightarrow> rd_bytes ie i n = Some (take n (drop i ie))"
  by (simp_all add: rd_byte_def rd_le16_def rd_be32_def rd_bytes_def)

lemma read_suites_in_element: "pos + 4 * n \<le> length ie \<Longrightarrow> \<exists>w. read_suites f ie n pos acc = Some w"
  by (induction n arbitrary: pos acc) auto

lemma suite_list_in_element:
  assumes "pos + left \<le> length ie" and "b \<noteq> 0"
  shows "in_element ie (ie_suite_list f upd (- b) (- s) ie (d, pos, left))"
proof (cases "left \<ge> 2")
  case True
  define n where "n = unat (ie ! pos) + unat (ie ! (pos + 1)) * 256"
  have n: "rd_le16 ie pos = Some n" using assms True by (simp add: n_def)
  show ?thesis
  proof (cases "n > (left - 2) div 4")
    case False
    then have le: "pos + 2 + 4 * n \<le> length ie" using assms True by linarith
    then obtain w where "read_suites f ie n (pos + 2) 0 = Some w" using read_suites_in_element by blast
    then show ?thesis using assms True False by (simp add: ie_suite_list_def n in_element_def) linarith
  qed (use assms True in \<open>simp add: ie_suite_list_def n in_element_def\<close>)
qed (use assms in \<open>simp add: ie_suite_list_def\<close>)

lemmas suite_lists_in_element =
  suite_list_in_element [where b = 4, simplified] suite_list_in_element [where b = 6, simplified]

lemma parse_parts_in_element:
  assumes "pos + left \<le> length ie"
  shows "in_element ie (ie_capabilities_field ie (d, pos, left))" and "in_element ie (rsn_ie_group ie (d, pos, left))"
    and "in_element ie (rsn_ie_mgmt_group ie (d, pos, left))" and "in_element ie (wpa_ie_group ie (d, pos, left))"
    and "in_element ie (rsn_ie_pairwise ie (d, pos, left))" and "in_element ie (rsn_ie_pmkids ie (d, pos, left))"
proof -
  show "in_element ie (rsn_ie_pairwise ie (d, pos, left))"
    by (auto simp: rsn_ie_pairwise_def Let_def intro!: in_element_then suite_lists_in_element assms)
  show "in_element ie (rsn_ie_pmkids ie (d, pos, left))"
  proof (cases "left \<ge> 2")
    case True
    define n where "n = unat (ie ! pos) + unat (ie ! (pos + 1)) * 256"
    have "rd_le16 ie pos = Some n" using assms True by (simp add: n_def)
    moreover have "pos + 2 + 16 * n \<le> length ie" if "\<not> n > (left - 2) div 16" using that assms True by linarith
    ultimately show ?thesis using assms True by (auto simp: rsn_ie_pmkids_def)
  qed (use assms in \<open>simp add: rsn_ie_pmkids_def\<close>)
qed (use assms in \<open>auto simp: ie_capabilities_field_def rsn_ie_group_def rsn_ie_mgmt_group_def wpa_ie_group_def Let_def\<close>)

lemma headers_in_element: "in_element ie (rsn_ie_header ie d)" "in_element ie (wpa_ie_header ie d)"
proof -
  have first: "rd_byte ie 0 = Some (ie ! 0)" if "\<not> length ie < 4" using that by (intro rd_in_element(1)) linarith
  show "in_element ie (rsn_ie_header ie d)"
    by (cases "length ie < 4"; cases "length ie \<ge> 6") (auto simp: rsn_ie_header_def first)
  show "in_element ie (wpa_ie_header ie d)"
    by (cases "length ie < 8") (auto simp: wpa_ie_header_def first)
qed

lemma in_element_some: "in_element ie m \<Longrightarrow> \<exists>r d. map_option (\<lambda>(r, data, pos, left). (r, data)) m = Some (r, d)"
  by (auto simp: in_element_def split: option.splits)

lemma parse_rsn_total: "\<exists>r d. wpa_parse_wpa_ie_rsn ie = Some (r, d)"
  unfolding wpa_parse_wpa_ie_rsn_def
  by (rule in_element_some [where ie = ie], (rule in_element_then headers_in_element parse_parts_in_element suite_lists_in_element | assumption)+)

lemma parse_wpa_total: "\<exists>r d. wpa_parse_wpa_ie_wpa ie = Some (r, d)"
  unfolding wpa_parse_wpa_ie_wpa_def
  by (rule in_element_some [where ie = ie], (rule in_element_then headers_in_element parse_parts_in_element suite_lists_in_element | assumption)+)

lemma validate_total:
  "\<exists>r A'. wpa_validate_wpa_ie env i e A = Some (r, A')"
proof -
  have read: "\<exists>res data B. (if rsn then read_rsn_request e ie A else read_wpa_request ie A) = Some (res, data, B)" for rsn ie
    using parse_rsn_total [of ie] parse_wpa_total [of ie] by (auto simp: read_rsn_request_def read_wpa_request_def Let_def)
  show ?thesis
  proof (cases "el_wpa_ie e")
    case (Some ie)
    obtain res data B where "(if ie ! 0 = 48 then read_rsn_request e ie A else read_wpa_request ie A) = Some (res, data, B)"
      using read [of "ie ! 0 = 48" ie] by blast
    then show ?thesis using Some by (cases ie) (auto simp: wpa_validate_wpa_ie_def Let_def surj_pair split: if_splits)
  qed (simp add: wpa_validate_wpa_ie_def)
qed


text \<open>
  C38. Whatever a station sends as its element, the parsers and the decision on its association read
  nothing outside it: validation always has a result.
\<close>

theorem validation_reads_inside:
  "\<exists>r A'. wpa_validate_wpa_ie env i e A = Some (r, A')"
  by (rule validate_total)

section \<open>What a parsed element can hold\<close>

definition rsn_typed :: "wpa_ie_data \<Rightarrow> bool" where
  "rsn_typed d \<longleftrightarrow> ie_proto d \<in> {WPA_PROTO_RSN, WPA_PROTO_OSEN} \<and> wpa_cipher_valid_group (ie_group_cipher d) \<and>
     wpa_cipher_valid_mgmt_group (ie_mgmt_group_cipher d) \<and> ie_pairwise_cipher d AND NOT 0x7b59 = 0 \<and>
     ie_key_mgmt d AND NOT 0x10bf8183 = 0 \<and> (\<forall>p \<in> set (ie_pmkid d). length p = 16)"

text \<open>The data of a part of a parser that ends well.\<close>

definition parses_to :: "(wpa_ie_data \<Rightarrow> bool) \<Rightarrow> (int \<times> ie_parse) option \<Rightarrow> bool" where
  "parses_to P m \<longleftrightarrow> (\<forall>d pos left. m = Some (0, d, pos, left) \<longrightarrow> P d)"

lemma parses_to_then:
  assumes "parses_to P m" and "\<And>d pos left. P d \<Longrightarrow> parses_to Q (f (d, pos, left))"
  shows "parses_to Q (ie_then m f)"
  using assms unfolding parses_to_def ie_then_def by (auto split: option.splits if_splits prod.splits) blast+

lemma suite_of_mask: "\<forall>w \<in> snd ` set table. w AND NOT m = 0 \<Longrightarrow> suite_of table s AND NOT m = 0"
  by (auto simp: suite_of_def dest!: map_of_SomeD split: option.split)

lemma selector_masks:
  "rsn_selector_to_bitfield s AND NOT 0x7b79 = 0" "rsn_key_mgmt_to_bitfield s AND NOT 0x10bf8183 = 0"
  unfolding rsn_selector_to_bitfield_def rsn_key_mgmt_to_bitfield_def by (rule suite_of_mask, simp)+

lemma read_suites_mask:
  "read_suites f ie n pos acc = Some w \<Longrightarrow> (\<And>s. f s AND NOT m = 0) \<Longrightarrow> acc AND NOT m = 0 \<Longrightarrow> w AND NOT m = 0"
  by (induction n arbitrary: pos acc) (auto simp: bit.conj_disj_distrib2 split: Option.bind_splits)

lemma suite_list_typed:
  assumes "\<And>s. f s AND NOT m = 0" and "\<And>w. w AND NOT m = 0 \<Longrightarrow> P (upd w d)" and "P d" and "b \<noteq> 0"
  shows "parses_to P (ie_suite_list f upd b s ie (d, pos, left))"
  using assms read_suites_mask [of f _ _ _ 0 _ m]
  by (auto simp: parses_to_def ie_suite_list_def split: if_splits Option.bind_splits)

lemma parts_typed:
  assumes "rsn_typed d"
  shows "parses_to rsn_typed (rsn_ie_group ie (d, pos, left))" and "parses_to rsn_typed (ie_capabilities_field ie (d, pos, left))"
    and "parses_to rsn_typed (rsn_ie_pmkids ie (d, pos, left))" and "parses_to rsn_typed (rsn_ie_mgmt_group ie (d, pos, left))"
    and "parses_to rsn_typed (rsn_ie_header ie d)"
  using assms
  by (auto simp: parses_to_def rsn_typed_def rsn_ie_group_def ie_capabilities_field_def rsn_ie_pmkids_def rsn_ie_mgmt_group_def
      rsn_ie_header_def rd_bytes_def Let_def wpa_cipher_valid_group_def split: if_splits Option.bind_splits)

lemma pairwise_typed:
  assumes "rsn_typed d"
  shows "parses_to rsn_typed (rsn_ie_pairwise ie (d, pos, left))"
proof (cases "left \<ge> 2")
  case True
  let ?P = "\<lambda>d. rsn_typed (d\<lparr>ie_pairwise_cipher := 0\<rparr>) \<and> ie_pairwise_cipher d AND NOT 0x7b79 = 0"
  have split: "(NOT 0x7b59 :: u32) = NOT 0x7b79 OR 0x20" by simp
  have "w AND NOT 0x7b59 = 0" if "w AND NOT 0x7b79 = 0" "w AND 0x20 = 0" for w :: u32
    unfolding split bit.conj_disj_distrib using that by simp
  then have ok: "rsn_typed (d\<lparr>ie_has_pairwise := h\<rparr>)" if "?P d" "ie_pairwise_cipher d AND 0x20 = 0" for d h
    using that by (simp add: rsn_typed_def)
  have "ie_pairwise_cipher d AND NOT 0x7b79 = 0"
  proof -
    have "ie_pairwise_cipher d AND NOT 0x7b79 = (ie_pairwise_cipher d AND NOT 0x7b59) AND NOT 0x7b79" by (simp add: and.assoc)
    then show ?thesis using assms unfolding rsn_typed_def by simp
  qed
  then have "?P d" using assms by (simp add: rsn_typed_def)
  then have "parses_to ?P (ie_suite_list rsn_selector_to_bitfield (\<lambda>w d. d\<lparr>ie_pairwise_cipher := w\<rparr>) (- 4) (- 5) ie (d, pos, left))"
    by (intro suite_list_typed [OF selector_masks(1)]) simp_all
  then show ?thesis
    unfolding rsn_ie_pairwise_def prod.case
    by (rule parses_to_then) (use True ok in \<open>auto simp: parses_to_def Let_def split: if_splits\<close>)
next
  case False
  then show ?thesis using assms by (auto simp: rsn_ie_pairwise_def ie_suite_list_def ie_then_def parses_to_def rsn_typed_def)
qed

lemma akms_typed:
  "rsn_typed d \<Longrightarrow> parses_to rsn_typed (ie_suite_list rsn_key_mgmt_to_bitfield (\<lambda>w d. d\<lparr>ie_key_mgmt := w\<rparr>) (- 6) (- 7) ie (d, pos, left))"
  by (rule suite_list_typed [OF selector_masks(2)]) (simp_all add: rsn_typed_def)

lemma defaults_typed: "rsn_typed rsn_ie_defaults"
  by (simp add: rsn_typed_def rsn_ie_defaults_def wpa_cipher_valid_group_def wpa_cipher_valid_pairwise_def wpa_cipher_valid_mgmt_group_def)

text \<open>
  C14. What an RSN element is parsed to. When the parser accepts an element, whatever its bytes, the
  group cipher is one a group can use, the group management cipher one for management frames, every
  PMKID has 16 octets, and the pairwise ciphers and the key management suites are sets of suites that
  the parser knows; the cipher for management frames is never among the pairwise ones.
\<close>

theorem parsed_element_typed:
  assumes "wpa_parse_wpa_ie_rsn ie = Some (0, d)"
  shows "ie_proto d \<in> {WPA_PROTO_RSN, WPA_PROTO_OSEN} \<and> wpa_cipher_valid_group (ie_group_cipher d) \<and>
    wpa_cipher_valid_mgmt_group (ie_mgmt_group_cipher d) \<and> ie_pairwise_cipher d AND NOT 0x7b59 = 0 \<and>
    ie_key_mgmt d AND NOT 0x10bf8183 = 0 \<and> (\<forall>p \<in> set (ie_pmkid d). length p = 16)"
proof -
  have "parses_to rsn_typed
       (ie_then (ie_then (ie_then (ie_then (ie_then (ie_then
          (rsn_ie_header ie rsn_ie_defaults)
          (rsn_ie_group ie))
          (rsn_ie_pairwise ie))
          (ie_suite_list rsn_key_mgmt_to_bitfield (\<lambda>w d. d\<lparr>ie_key_mgmt := w\<rparr>) (- 6) (- 7) ie))
          (ie_capabilities_field ie))
          (rsn_ie_pmkids ie))
          (rsn_ie_mgmt_group ie))"
    by (rule parses_to_then [where P = rsn_typed] parts_typed pairwise_typed akms_typed defaults_typed | assumption)+
  then show ?thesis using assms unfolding rsn_typed_def [symmetric] by (auto simp: wpa_parse_wpa_ie_rsn_def parses_to_def)
qed

section \<open>What is written fits its buffer\<close>

text \<open>A writer ends in an error code or in a buffer of at most \<open>n\<close> bytes, never outside its buffer.\<close>

definition written :: "nat \<Rightarrow> (int + bytes) option \<Rightarrow> bool" where
  "written n m \<longleftrightarrow> (case m of None \<Rightarrow> False | Some (Inl e) \<Rightarrow> e < 0 | Some (Inr buf) \<Rightarrow> length buf \<le> n)"

lemma written_simps [simp]:
  "written n (Some (Inl e)) \<longleftrightarrow> e < 0" "written n (Some (Inr buf)) \<longleftrightarrow> length buf \<le> n" "\<not> written n None"
  by (simp_all add: written_def)

lemma written_then:
  assumes "written n m" and "\<And>buf. length buf \<le> n \<Longrightarrow> written k (f buf)"
  shows "written k (m \<bind> (\<lambda>r. case r of Inl e \<Rightarrow> Some (Inl e) | Inr buf \<Rightarrow> f buf))"
proof (cases m)
  case (Some r)
  then show ?thesis using assms by (cases r) auto
qed (use assms in simp)

lemma written_put_bytes:
  assumes "length buf \<le> n" and "n + length bs \<le> len" and "\<And>buf. length buf \<le> n + length bs \<Longrightarrow> written k (f buf)"
  shows "written k (put_bytes len bs buf \<bind> f)"
  using assms by (simp add: put_bytes_def)

lemma written_if: "(\<not> P \<Longrightarrow> written k m) \<Longrightarrow> written k (if P then Some (Inl (- 1)) else m)"
  by simp

lemma written_map:
  assumes "written n m" and "\<And>buf. length buf \<le> n \<Longrightarrow> length (f buf) \<le> k"
  shows "written k (m \<bind> (\<lambda>r. Some (map_sum id f r)))"
  using assms by (auto simp: written_def split: option.splits sum.splits)

lemma length_set_element_len [simp]: "length (set_element_len el) = length el"
  by (simp add: set_element_len_def)

lemma length_put_le16 [simp]: "length (put_le16 n) = 2"
  by (simp add: put_le16_def)

lemma length_put_suites: "length (put_suites table w) \<le> length table"
  by (simp add: put_suites_def)

lemmas put_suites_tables = rsn_cipher_put_suites_def rsn_akm_put_suites_def wpa_cipher_put_suites_def wpa_akm_put_suites_def

lemma length_suite_lists:
  "length (rsn_cipher_put_suites w) \<le> 6" "length (rsn_akm_put_suites w) \<le> 8"
  "length (wpa_cipher_put_suites w) \<le> 3" "length (wpa_akm_put_suites w) \<le> 2"
  unfolding put_suites_tables by (rule order_trans [OF length_put_suites], simp)+

lemma length_concat_put_be32 [simp]: "length (concat (map put_be32 ss)) = 4 * length ss"
  by (induction ss) simp_all

lemma written_suites:
  assumes "length ss \<le> k" and "length buf \<le> n" and "n + 2 + 4 * k \<le> len" and "m = n + 2 + 4 * k"
  shows "written m (write_suites len ss buf)"
  using assms by (simp add: write_suites_def put_bytes_def)

lemma rsn_ie_written:
  assumes "76 \<le> len"
  shows "written 76 (wpa_write_rsn_ie cf len None)"
proof -
  have not_None: "((None :: bytes option) \<noteq> None) = False" by simp
  have mg: "written 76 (write_mgmt_group cf len False el \<bind> (\<lambda>r. Some (map_sum id set_element_len r)))" if "length el \<le> 70" for el
    using that assms by (auto simp: write_mgmt_group_def put_bytes_def split: option.splits)
  have pm: "written 70 (write_pmkid len None el)" if "length el \<le> 70" for el
    using that by (simp add: write_pmkid_def)
  note tail = written_put_bytes [where n = 68, OF _ _ written_then [OF pm mg]]
  note akm = written_then [OF written_suites [OF length_suite_lists(2), where n = 34] tail]
  note pairwise = written_then [OF written_suites [OF length_suite_lists(1), where n = 8] akm]
  note all = written_put_bytes [where n = 4, OF _ _ pairwise]
  show ?thesis
    unfolding wpa_write_rsn_ie_def Let_def not_None
    by (rule written_put_bytes [where n = 0, OF _ _ written_if [OF all]]) (use assms in simp_all)
qed

lemma wpa_ie_written:
  assumes "36 \<le> len"
  shows "written 36 (wpa_write_wpa_ie cf len)"
proof -
  note akm = written_map [OF written_suites [OF length_suite_lists(4), where n = 26]]
  note pairwise = written_then [OF written_suites [OF length_suite_lists(3), where n = 12] akm]
  note all = written_put_bytes [where n = 8, OF _ _ pairwise]
  show ?thesis
    unfolding wpa_write_wpa_ie_def Let_def
    by (rule written_put_bytes [where n = 0, OF _ _ written_if [OF all]]) (use assms in simp_all)
qed


lemma length_capab_bytes: "length (capab_bytes w) = capab_len w"
  by (induction w rule: capab_len.induct) (subst capab_bytes.simps, subst capab_len.simps, simp)

lemma capab_len_le: "unat w < 256 ^ n \<Longrightarrow> capab_len w \<le> n"
proof (induction n arbitrary: w)
  case (Suc n)
  have "unat (drop_bit 8 w) < 256 ^ n" using Suc.prems by (simp add: drop_bit_eq_div unat_div less_mult_imp_div_less mult.commute)
  then show ?case using Suc.IH [of "drop_bit 8 w"] by (subst capab_len.simps) simp
qed (simp add: capab_len.simps unat_eq_0)

lemma rsnx_capab_small: "m < 3 \<Longrightarrow> unat (rsnx_capab cf OR of_nat m) < 256 ^ 3"
proof -
  assume "m < 3"
  then have m: "m = 0 \<or> m = 1 \<or> m = 2" by linarith
  show ?thesis
    unfolding rsnx_capab_def Let_def using m by (elim disjE) (simp_all split: if_split)
qed

lemma rsnxe_written:
  assumes "5 \<le> len"
  shows "written 5 (wpa_write_rsnxe cf len)"
proof -
  have "capab_len (rsnx_capab cf) \<le> 3" using rsnx_capab_small [of 0 cf] by (intro capab_len_le) simp
  then have "capab_len (rsnx_capab cf OR of_nat (capab_len (rsnx_capab cf) - 1)) \<le> 3"
    by (intro capab_len_le rsnx_capab_small) linarith
  then show ?thesis
    using assms by (simp add: wpa_write_rsnxe_def Let_def put_bytes_def length_capab_bytes)
qed

lemma osen_length: "length (wpa_write_osen cf) = 24"
  by (simp add: wpa_write_osen_def Let_def)

text \<open>
  C15. Whatever the configuration, the elements of the access point are written without leaving the
  buffer of 128 bytes. Building them always has a result: an error code below 0 of one of the writers,
  which leaves the authenticator as it was; or at most 117 bytes, for which memory is asked. If there
  is memory, they are the elements of the access point and the result is 0. If there is none, the
  result is -1 and the old elements are gone, too.
\<close>

theorem own_elements_fit:
  "\<exists>r A'. wpa_auth_gen_wpa_ie env A = Some (r, A') \<and>
     (r < 0 \<and> A' = A \<and> own_elements (conf A) = Some (Inl r) \<or>
      (\<exists>ie. own_elements (conf A) = Some (Inr ie) \<and> length ie \<le> 117 \<and> trace A' = trace A @ [Malloc (length ie)] \<and>
         (if malloc_ok env (trace A') (length ie) then r = 0 \<and> auth_wpa_ie A' = ie else r = - 1 \<and> auth_wpa_ie A' = [])))"
proof -
  let ?cf = "conf A"
  define buf where "buf = (if conf_wpa ?cf = WPA_PROTO_OSEN then wpa_write_osen ?cf else [])"
  define m where "m = (if conf_wpa ?cf AND WPA_PROTO_RSN = 0 then Some (Inr buf)
           else wpa_write_rsn_ie ?cf (128 - length buf) None \<bind> (\<lambda>r. case r of Inl e \<Rightarrow> Some (Inl e) | Inr el \<Rightarrow>
             wpa_write_rsnxe ?cf (128 - length (buf @ el)) \<bind> (\<lambda>r. Some (map_sum id ((@) (buf @ el)) r))))"
  have buf: "(if conf_wpa ?cf = WPA_PROTO_OSEN then put_bytes 128 (wpa_write_osen ?cf) [] else Some []) = Some buf"
    by (simp add: buf_def put_bytes_def osen_length)
  have m: "written 81 m"
  proof (cases "conf_wpa ?cf AND WPA_PROTO_RSN = 0")
    case True
    then show ?thesis by (simp add: m_def buf_def osen_length)
  next
    case False
    then have "buf = []" by (auto simp: buf_def)
    moreover have "written 81 (wpa_write_rsnxe ?cf (128 - length el) \<bind> (\<lambda>r. Some (map_sum id ((@) el) r)))"
      if "length el \<le> 76" for el using that by (intro written_map [OF rsnxe_written]) auto
    ultimately show ?thesis using False by (simp add: m_def) (rule written_then [OF rsn_ie_written]; simp)
  qed
  have own: "own_elements ?cf = m \<bind> (\<lambda>r. case r of Inl e \<Rightarrow> Some (Inl e) | Inr buf \<Rightarrow>
       if conf_wpa ?cf AND WPA_PROTO_WPA = 0 then Some (Inr buf)
       else wpa_write_wpa_ie ?cf (128 - length buf) \<bind> (\<lambda>r. Some (map_sum id ((@) buf) r)))"
    unfolding own_elements_def buf m_def Let_def by (simp only: bind.bind_lunit)
  have "written 117 (own_elements ?cf)"
    unfolding own by (rule written_then [OF m]) (auto intro!: written_map [OF wpa_ie_written])
  then show ?thesis
    by (auto simp: wpa_auth_gen_wpa_ie_def os_malloc_def Let_def written_def split: option.splits sum.splits)
qed


section \<open>What is advertised is read back\<close>

lemma single_bit_and:
  fixes w :: u32
  assumes "w AND 2 ^ n \<noteq> 0"
  shows "w AND 2 ^ n = 2 ^ n"
proof -
  obtain k where "bit (w AND 2 ^ n) k" using assms by (metis bit_word_eqI bit_0_eq bot_apply bot_bool_def)
  then have "bit w n" by (auto simp: bit_and_iff bit_exp_iff)
  then show ?thesis by (intro bit_word_eqI) (auto simp: bit_and_iff bit_exp_iff)
qed

text \<open>The set of the suites of a table, and a table whose selectors the function \<open>f\<close> reads back.\<close>

primrec table_mask :: "(u32 \<times> nat) list \<Rightarrow> u32" where
  "table_mask [] = 0"
| "table_mask (cs # table) = fst cs OR table_mask table"

definition reads_back :: "(nat \<Rightarrow> u32) \<Rightarrow> (u32 \<times> nat) list \<Rightarrow> bool" where
  "reads_back f table \<longleftrightarrow> (\<forall>(c, s)\<in>set table. f s = c \<and> s < 4294967296 \<and> (\<exists>n. c = 2 ^ n))"

lemma fold_put_suites:
  "reads_back f table \<Longrightarrow> fold (\<lambda>s a. a OR f s) (put_suites table w) acc = acc OR (w AND table_mask table)"
proof (induction table arbitrary: acc)
  case (Cons cs table)
  obtain c s where cs: "cs = (c, s)" by fastforce
  obtain n where f: "f s = c" and tl: "reads_back f table" and n: "c = 2 ^ n"
    using Cons.prems by (auto simp: reads_back_def cs)
  have c: "w AND c = 0 \<or> w AND c = c" using single_bit_and n by blast
  show ?case
  proof (cases "w AND c = 0")
    case True
    then show ?thesis using Cons.IH [OF tl] by (simp add: put_suites_def cs bit.conj_disj_distrib)
  next
    case False
    then show ?thesis
      using Cons.IH [OF tl, of "acc OR c"] f c by (simp add: put_suites_def cs bit.conj_disj_distrib or.assoc)
  qed
qed (simp add: put_suites_def)

lemma put_suites_read:
  assumes "reads_back f table" and "put_suites table w = ss"
  shows "fold (\<lambda>s a. a OR f s) ss 0 = w AND table_mask table" and "\<forall>s\<in>set ss. s < 4294967296"
  using fold_put_suites [OF assms(1), of w 0] assms by (simp, fastforce simp: reads_back_def put_suites_def)

lemma single_bits:
  "\<exists>n. 2 ^ n = (0x1 :: u32)" "\<exists>n. 2 ^ n = (0x2 :: u32)" "\<exists>n. 2 ^ n = (0x8 :: u32)" "\<exists>n. 2 ^ n = (0x10 :: u32)" "\<exists>n. 2 ^ n = (0x40 :: u32)"
  "\<exists>n. 2 ^ n = (0x80 :: u32)" "\<exists>n. 2 ^ n = (0x100 :: u32)" "\<exists>n. 2 ^ n = (0x200 :: u32)" "\<exists>n. 2 ^ n = (0x10000 :: u32)"
  "\<exists>n. 2 ^ n = (0x20000 :: u32)" "\<exists>n. 2 ^ n = (0x800000 :: u32)" "\<exists>n. 2 ^ n = (0x10000000 :: u32)"
  by (rule exI [of _ 0] exI [of _ 1] exI [of _ 3] exI [of _ 4] exI [of _ 6] exI [of _ 7] exI [of _ 8] exI [of _ 9] exI [of _ 16]
      exI [of _ 17] exI [of _ 23] exI [of _ 28], simp; fail)+

lemma rsn_tables_read:
  "reads_back rsn_selector_to_bitfield
     [(WPA_CIPHER_CCMP_256, RSN_CIPHER_SUITE_CCMP_256), (WPA_CIPHER_GCMP_256, RSN_CIPHER_SUITE_GCMP_256),
      (WPA_CIPHER_CCMP, RSN_CIPHER_SUITE_CCMP), (WPA_CIPHER_GCMP, RSN_CIPHER_SUITE_GCMP),
      (WPA_CIPHER_TKIP, RSN_CIPHER_SUITE_TKIP), (WPA_CIPHER_NONE, RSN_CIPHER_SUITE_NONE)]"
  by (simp add: reads_back_def rsn_selector_to_bitfield_def suite_of_def single_bits)

lemma rsn_akms_read:
  "reads_back rsn_key_mgmt_to_bitfield
     [(WPA_KEY_MGMT_IEEE8021X, RSN_AUTH_KEY_MGMT_UNSPEC_802_1X), (WPA_KEY_MGMT_PSK, RSN_AUTH_KEY_MGMT_PSK_OVER_802_1X),
      (WPA_KEY_MGMT_IEEE8021X_SHA384, RSN_AUTH_KEY_MGMT_802_1X_SHA384),
      (WPA_KEY_MGMT_IEEE8021X_SHA256, RSN_AUTH_KEY_MGMT_802_1X_SHA256), (WPA_KEY_MGMT_PSK_SHA256, RSN_AUTH_KEY_MGMT_PSK_SHA256),
      (WPA_KEY_MGMT_IEEE8021X_SUITE_B, RSN_AUTH_KEY_MGMT_802_1X_SUITE_B),
      (WPA_KEY_MGMT_IEEE8021X_SUITE_B_192, RSN_AUTH_KEY_MGMT_802_1X_SUITE_B_192),
      (WPA_KEY_MGMT_DPP, RSN_AUTH_KEY_MGMT_DPP)]"
  by (simp add: reads_back_def rsn_key_mgmt_to_bitfield_def suite_of_def single_bits)


text \<open>Reading at a position of a list that is known there.\<close>

declare rd_in_element [simp del]

lemma rd_le16_at: "pos = length xs \<Longrightarrow> n < 65536 \<Longrightarrow> rd_le16 (xs @ put_le16 n @ ys) pos = Some n"
  by (simp add: rd_le16_def put_le16_def nth_append)

lemma rd_be32_at: "pos = length xs \<Longrightarrow> n < 4294967296 \<Longrightarrow> rd_be32 (xs @ put_be32 n @ ys) pos = Some n"
  by (simp add: rd_be32_def get_put_be32)

lemma rd_bytes_at: "pos = length xs \<Longrightarrow> n = length p \<Longrightarrow> rd_bytes (xs @ p @ ys) pos n = Some p"
  by (simp add: rd_bytes_def)

lemma read_suites_at:
  "\<forall>s\<in>set ss. s < 4294967296 \<Longrightarrow> pos = length xs \<Longrightarrow>
   read_suites f (xs @ concat (map put_be32 ss) @ ys) (length ss) pos acc = Some (fold (\<lambda>s a. a OR f s) ss acc)"
proof (induction ss arbitrary: xs pos acc)
  case (Cons s ss)
  have "rd_be32 (xs @ put_be32 s @ concat (map put_be32 ss) @ ys) pos = Some s"
    using Cons.prems by (intro rd_be32_at) auto
  moreover have "read_suites f ((xs @ put_be32 s) @ concat (map put_be32 ss) @ ys) (length ss) (pos + 4) (acc OR f s) =
      Some (fold (\<lambda>s a. a OR f s) ss (acc OR f s))" using Cons.prems by (intro Cons.IH) auto
  ultimately show ?case by simp
qed simp

definition suite_bytes :: "nat list \<Rightarrow> bytes" where
  "suite_bytes ss = put_le16 (length ss) @ concat (map put_be32 ss)"

lemma length_suite_bytes [simp]: "length (suite_bytes ss) = 2 + 4 * length ss"
  by (simp add: suite_bytes_def)

lemma suite_list_at:
  assumes "\<forall>s\<in>set ss. s < 4294967296" and "ss \<noteq> []" and "length ss < 100"
  shows "ie_suite_list f upd b s (xs @ suite_bytes ss @ ys) (d, length xs, length (suite_bytes ss @ ys)) =
     Some (0, upd (fold (\<lambda>s a. a OR f s) ss 0) d, length (xs @ suite_bytes ss), length ys)"
proof -
  have "rd_le16 (xs @ suite_bytes ss @ ys) (length xs) = Some (length ss)"
    using assms by (simp add: suite_bytes_def rd_le16_at)
  moreover have "read_suites f ((xs @ put_le16 (length ss)) @ concat (map put_be32 ss) @ ys) (length ss) (length xs + 2) 0 =
     Some (fold (\<lambda>s a. a OR f s) ss 0)" using assms by (intro read_suites_at) auto
  ultimately show ?thesis using assms by (simp add: ie_suite_list_def suite_bytes_def)
qed

text \<open>The element that the writer makes.\<close>

definition writes_mgmt_group :: "wpa_auth_config \<Rightarrow> bool" where
  "writes_mgmt_group cf \<longleftrightarrow> ieee80211w cf \<noteq> NO_MGMT_FRAME_PROTECTION \<and> group_mgmt_cipher cf \<noteq> WPA_CIPHER_AES_128_CMAC"

definition pmkid_bytes :: "wpa_auth_config \<Rightarrow> bytes option \<Rightarrow> bytes" where
  "pmkid_bytes cf pmkid =
     (case pmkid of Some p \<Rightarrow> put_le16 1 @ p | None \<Rightarrow> if writes_mgmt_group cf then put_le16 0 else []) @
     (if writes_mgmt_group cf then put_be32 (the (mgmt_group_suite (group_mgmt_cipher cf))) else [])"

definition rsn_body :: "wpa_auth_config \<Rightarrow> bytes option \<Rightarrow> bytes" where
  "rsn_body cf pmkid = put_be32 (wpa_cipher_to_suite WPA_PROTO_RSN (wpa_group_cipher cf)) @
     suite_bytes (rsn_cipher_put_suites (rsn_pairwise cf)) @ suite_bytes (rsn_akm_put_suites (conf_key_mgmt cf)) @
     put_le16 (unat (wpa_own_rsn_capab cf)) @ pmkid_bytes cf pmkid"

lemma write_suites_Inr:
  "write_suites len ss buf = Some (Inr el) \<longleftrightarrow> ss \<noteq> [] \<and> length buf + length (suite_bytes ss) \<le> len \<and> el = buf @ suite_bytes ss"
  by (auto simp: write_suites_def put_bytes_def suite_bytes_def)

lemma bind_sum_Inr:
  "m \<bind> case_sum (\<lambda>e. Some (Inl e)) f = Some (Inr el) \<longleftrightarrow> (\<exists>b. m = Some (Inr b) \<and> f b = Some (Inr el))"
proof (cases m)
  case (Some r)
  then show ?thesis by (cases r) auto
qed simp

lemma bind_map_Inr:
  "m \<bind> (\<lambda>r. Some (map_sum id f r)) = Some (Inr el) \<longleftrightarrow> (\<exists>b. m = Some (Inr b) \<and> el = f b)"
proof (cases m)
  case (Some r)
  then show ?thesis by (cases r) auto
qed simp

lemma put_bytes_Some: "put_bytes len bs buf = Some el \<longleftrightarrow> length buf + length bs \<le> len \<and> el = buf @ bs"
  by (auto simp: put_bytes_def)

lemma write_pmkid_Inr:
  "write_pmkid len pmkid el = Some (Inr el') \<Longrightarrow> el' = el @ (case pmkid of Some p \<Rightarrow> put_le16 1 @ p | None \<Rightarrow> [])"
  by (auto simp: write_pmkid_def put_bytes_Some split: option.splits if_splits)

lemma write_mgmt_group_Inr:
  "write_mgmt_group cf len has el = Some (Inr el') \<Longrightarrow>
   el' = el @ (if writes_mgmt_group cf then (if has then [] else put_le16 0) @ put_be32 (the (mgmt_group_suite (group_mgmt_cipher cf))) else [])
   \<and> (writes_mgmt_group cf \<longrightarrow> mgmt_group_suite (group_mgmt_cipher cf) \<noteq> None)"
  by (auto simp: write_mgmt_group_def writes_mgmt_group_def put_bytes_Some bind_eq_Some_conv split: option.splits if_splits)

lemma rsn_ie_shape:
  assumes "wpa_write_rsn_ie cf len pmkid = Some (Inr el)"
  shows "el = [48, of_nat (length (rsn_body cf pmkid) + 2), 1, 0] @ rsn_body cf pmkid"
    and "rsn_cipher_put_suites (rsn_pairwise cf) \<noteq> []" and "rsn_akm_put_suites (conf_key_mgmt cf) \<noteq> []"
    and "writes_mgmt_group cf \<Longrightarrow> mgmt_group_suite (group_mgmt_cipher cf) \<noteq> None"
proof -
  let ?suite = "wpa_cipher_to_suite WPA_PROTO_RSN (wpa_group_cipher cf)"
  let ?front = "[48, 0] @ put_le16 1 @ put_be32 ?suite @ suite_bytes (rsn_cipher_put_suites (rsn_pairwise cf)) @
     suite_bytes (rsn_akm_put_suites (conf_key_mgmt cf)) @ put_le16 (unat (wpa_own_rsn_capab cf))"
  have ne: "?suite \<noteq> 0" using assms by (auto simp: wpa_write_rsn_ie_def Let_def bind_eq_Some_conv split: if_splits)
  then obtain el1 el2 where ss: "rsn_cipher_put_suites (rsn_pairwise cf) \<noteq> []" "rsn_akm_put_suites (conf_key_mgmt cf) \<noteq> []"
      and 1: "write_pmkid len pmkid ?front = Some (Inr el1)" and 2: "write_mgmt_group cf len (pmkid \<noteq> None) el1 = Some (Inr el2)"
      and el: "el = set_element_len el2"
    using assms
    by (auto simp only: wpa_write_rsn_ie_def Let_def if_False bind_eq_Some_conv [of "put_bytes _ _ _"] put_bytes_Some
          bind_sum_Inr bind_map_Inr write_suites_Inr append_assoc append_Nil simp_thms option.inject sum.inject)
  show "rsn_cipher_put_suites (rsn_pairwise cf) \<noteq> []" "rsn_akm_put_suites (conf_key_mgmt cf) \<noteq> []" by (fact ss)+
  show "mgmt_group_suite (group_mgmt_cipher cf) \<noteq> None" if "writes_mgmt_group cf"
    using write_mgmt_group_Inr [OF 2] that by blast
  show "el = [48, of_nat (length (rsn_body cf pmkid) + 2), 1, 0] @ rsn_body cf pmkid"
    unfolding el using write_pmkid_Inr [OF 1] write_mgmt_group_Inr [OF 2]
    by (cases pmkid; cases "writes_mgmt_group cf")
      (simp_all add: set_element_len_def rsn_body_def pmkid_bytes_def writes_mgmt_group_def put_le16_def)
qed


lemma ie_then_0: "m = Some (0, st) \<Longrightarrow> ie_then m f = f st"
  by (simp add: ie_then_def)

lemma group_at:
  assumes "wpa_cipher_valid_group c"
  shows "rsn_ie_group (xs @ put_be32 (wpa_cipher_to_suite WPA_PROTO_RSN c) @ ys) (d, length xs, 4 + length ys) =
           Some (0, d\<lparr>ie_group_cipher := c, ie_has_group := True\<rparr>, length xs + 4, length ys)"
proof -
  define s where "s = wpa_cipher_to_suite WPA_PROTO_RSN c"
  have c: "c = WPA_CIPHER_CCMP_256 \<or> c = WPA_CIPHER_GCMP_256 \<or> c = WPA_CIPHER_CCMP \<or> c = WPA_CIPHER_GCMP \<or>
      c = WPA_CIPHER_TKIP \<or> c = WPA_CIPHER_GTK_NOT_USED"
    using assms by (simp add: wpa_cipher_valid_group_def wpa_cipher_valid_pairwise_def disj_assoc)
  have "rsn_selector_to_bitfield s = c \<and> s < 4294967296"
    unfolding s_def using c
    by (elim disjE) (simp_all add: wpa_cipher_to_suite_def first_suite_def rsn_selector_to_bitfield_def suite_of_def)
  moreover from this have "rd_be32 (xs @ put_be32 s @ ys) (length xs) = Some s" by (intro rd_be32_at) auto
  ultimately show ?thesis using assms unfolding s_def [symmetric] by (simp add: rsn_ie_group_def Let_def)
qed

lemma capabilities_at:
  "ie_capabilities_field (xs @ put_le16 (unat (c :: u16)) @ ys) (d, length xs, 2 + length ys) =
     Some (0, d\<lparr>ie_capabilities := c\<rparr>, length xs + 2, length ys)"
proof -
  have "unat c < 65536" using unsigned_less [of c] by simp
  then show ?thesis by (simp add: ie_capabilities_field_def rd_le16_at)
qed

lemma mgmt_group_suite_back:
  assumes "mgmt_group_suite c = Some s"
  shows "rsn_selector_to_bitfield s = c" and "s < 4294967296" and "wpa_cipher_valid_mgmt_group c"
  using assms
  by (auto simp: mgmt_group_suite_def rsn_selector_to_bitfield_def suite_of_def wpa_cipher_valid_mgmt_group_def split: if_splits)

lemma pmkids_at:
  assumes "case pmkid of Some p \<Rightarrow> length p = 16 | None \<Rightarrow> True"
    and "writes_mgmt_group cf \<Longrightarrow> mgmt_group_suite (group_mgmt_cipher cf) \<noteq> None"
    and "ie_pmkid d = []" and "ie_mgmt_group_cipher d = WPA_CIPHER_AES_128_CMAC"
  shows "\<exists>pos left. ie_then (rsn_ie_pmkids (xs @ pmkid_bytes cf pmkid) (d, length xs, length (pmkid_bytes cf pmkid)))
           (rsn_ie_mgmt_group (xs @ pmkid_bytes cf pmkid)) =
         Some (0, d\<lparr>ie_pmkid := (case pmkid of Some p \<Rightarrow> [p] | None \<Rightarrow> []),
                   ie_mgmt_group_cipher := (if writes_mgmt_group cf then group_mgmt_cipher cf else WPA_CIPHER_AES_128_CMAC)\<rparr>, pos, left)"
proof -
  define ps where "ps = (case pmkid of Some p \<Rightarrow> put_le16 1 @ p | None \<Rightarrow> if writes_mgmt_group cf then put_le16 0 else [])"
  define ms where "ms = (if writes_mgmt_group cf then put_be32 (the (mgmt_group_suite (group_mgmt_cipher cf))) else [])"
  have pb: "pmkid_bytes cf pmkid = ps @ ms" by (simp add: pmkid_bytes_def ps_def ms_def)
  have "ms = [] \<or> ps \<noteq> []" by (auto simp: ps_def ms_def put_le16_def split: option.splits)
  have pm: "rsn_ie_pmkids (xs @ ps @ ms) (d, length xs, length (ps @ ms)) =
      Some (0, d\<lparr>ie_pmkid := (case pmkid of Some p \<Rightarrow> [p] | None \<Rightarrow> [])\<rparr>, length (xs @ ps), length ms)"
  proof (cases pmkid)
    case (Some p)
    have "rd_le16 (xs @ put_le16 1 @ p @ ms) (length xs) = Some 1" by (intro rd_le16_at) auto
    moreover have "rd_bytes ((xs @ put_le16 1) @ p @ ms) (length xs + 2) 16 = Some p"
      using assms(1) Some by (intro rd_bytes_at) auto
    ultimately show ?thesis using assms(1) Some by (simp add: ps_def rsn_ie_pmkids_def)
  next
    case None
    show ?thesis
    proof (cases "writes_mgmt_group cf")
      case True
      have "rd_le16 (xs @ put_le16 0 @ ms) (length xs) = Some 0" by (intro rd_le16_at) auto
      then show ?thesis using None True by (simp add: ps_def rsn_ie_pmkids_def rd_bytes_def)
    qed (use None assms(3) in \<open>simp add: ps_def ms_def rsn_ie_pmkids_def\<close>)
  qed
  have "\<exists>pos left. rsn_ie_mgmt_group (xs @ ps @ ms) (d', length (xs @ ps), length ms) =
      Some (0, d'\<lparr>ie_mgmt_group_cipher := (if writes_mgmt_group cf then group_mgmt_cipher cf else WPA_CIPHER_AES_128_CMAC)\<rparr>, pos, left)"
    if "ie_mgmt_group_cipher d' = WPA_CIPHER_AES_128_CMAC" for d'
  proof (cases "writes_mgmt_group cf")
    case True
    then obtain s where s: "mgmt_group_suite (group_mgmt_cipher cf) = Some s" using assms(2) by blast
    have "rd_be32 ((xs @ ps) @ put_be32 s @ []) (length (xs @ ps)) = Some s"
      using mgmt_group_suite_back(2) [OF s] by (intro rd_be32_at) auto
    then show ?thesis using True s mgmt_group_suite_back [OF s] by (simp add: ms_def rsn_ie_mgmt_group_def)
  qed (use that in \<open>simp add: ms_def rsn_ie_mgmt_group_def\<close>)
  then show ?thesis unfolding pb ie_then_0 [OF pm] using assms(4) by simp
qed


lemma header_at:
  assumes "length body < 254" and "4 \<le> length body"
  shows "rsn_ie_header ([48, of_nat (length body + 2), 1, 0] @ body) d = Some (0, d, 4, length body)"
proof -
  let ?n = "of_nat (length body + 2) :: byte"
  have n: "unat ?n = length body + 2" using assms(1) by (subst unat_byte_of_nat) simp
  obtain x y t where body: "body = x # y # t" using assms(2) by (cases body; cases "tl body") auto
  have "unat x < 256" "unat y < 256" using unsigned_less [of x] unsigned_less [of y] by simp_all
  then have osen: "get_be32 ([48, ?n, 1, 0] @ x # y # t) 2 \<noteq> OSEN_IE_VENDOR_TYPE"
    by (simp add: get_be32_def get_be24_def get_be16_def)
  have "rd_byte ([48, ?n, 1, 0] @ body) 0 = Some 48" "rd_byte ([48, ?n, 1, 0] @ body) 1 = Some ?n"
    "rd_le16 ([48, ?n, 1, 0] @ body) 2 = Some 1" "rd_be32 ([48, ?n, 1, 0] @ body) 2 = Some (get_be32 ([48, ?n, 1, 0] @ x # y # t) 2)"
    by (simp_all add: rd_byte_def rd_le16_def rd_be32_def body)
  then show ?thesis using n osen assms by (simp only: rsn_ie_header_def) (simp del: of_nat_add)
qed

lemma length_rsn_body:
  assumes "case pmkid of Some p \<Rightarrow> length p = 16 | None \<Rightarrow> True"
  shows "length (rsn_body cf pmkid) < 254" and "4 \<le> length (rsn_body cf pmkid)"
  using assms length_suite_lists(1) [of "rsn_pairwise cf"] length_suite_lists(2) [of "conf_key_mgmt cf"]
  by (auto simp: rsn_body_def pmkid_bytes_def split: option.splits)

lemma rsn_ie_reads_back:
  assumes "wpa_write_rsn_ie cf len pmkid = Some (Inr el)" and "wpa_cipher_valid_group (wpa_group_cipher cf)"
    and "case pmkid of Some p \<Rightarrow> length p = 16 | None \<Rightarrow> True"
  shows "wpa_parse_wpa_ie_rsn el = Some (0,
    \<lparr>ie_proto = WPA_PROTO_RSN, ie_pairwise_cipher = rsn_pairwise cf AND 0x359, ie_has_pairwise = True,
     ie_group_cipher = wpa_group_cipher cf, ie_has_group = True, ie_key_mgmt = conf_key_mgmt cf AND 0x10830183,
     ie_capabilities = wpa_own_rsn_capab cf, ie_pmkid = (case pmkid of Some p \<Rightarrow> [p] | None \<Rightarrow> []),
     ie_mgmt_group_cipher = (if ieee80211w cf = NO_MGMT_FRAME_PROTECTION then WPA_CIPHER_AES_128_CMAC else group_mgmt_cipher cf)\<rparr>)"
proof -
  note shape = rsn_ie_shape [OF assms(1)]
  define hd where "hd = [48, of_nat (length (rsn_body cf pmkid) + 2), 1, 0 :: byte]"
  define gs where "gs = put_be32 (wpa_cipher_to_suite WPA_PROTO_RSN (wpa_group_cipher cf))"
  define ps where "ps = rsn_cipher_put_suites (rsn_pairwise cf)"
  define as where "as = rsn_akm_put_suites (conf_key_mgmt cf)"
  define cs where "cs = put_le16 (unat (wpa_own_rsn_capab cf))"
  define ms where "ms = pmkid_bytes cf pmkid"
  have body: "rsn_body cf pmkid = gs @ suite_bytes ps @ suite_bytes as @ cs @ ms"
    by (simp add: rsn_body_def gs_def ps_def as_def cs_def ms_def)
  have el: "el = hd @ gs @ suite_bytes ps @ suite_bytes as @ cs @ ms" using shape(1) by (simp add: hd_def body)
  have ps: "fold (\<lambda>s a. a OR rsn_selector_to_bitfield s) ps 0 = rsn_pairwise cf AND 0x359" "\<forall>s\<in>set ps. s < 4294967296"
    using put_suites_read [OF rsn_tables_read, of "rsn_pairwise cf" ps] by (simp_all add: ps_def rsn_cipher_put_suites_def)
  have as: "fold (\<lambda>s a. a OR rsn_key_mgmt_to_bitfield s) as 0 = conf_key_mgmt cf AND 0x10830183" "\<forall>s\<in>set as. s < 4294967296"
    using put_suites_read [OF rsn_akms_read, of "conf_key_mgmt cf" as] by (simp_all add: as_def rsn_akm_put_suites_def)
  have len: "length ps < 100" "length as < 100" "ps \<noteq> []" "as \<noteq> []"
    using length_suite_lists(1) [of "rsn_pairwise cf"] length_suite_lists(2) [of "conf_key_mgmt cf"] shape(2,3)
    by (auto simp: ps_def as_def)
  have h: "rsn_ie_header el d = Some (0, d, 4, length (gs @ suite_bytes ps @ suite_bytes as @ cs @ ms))" for d
    using header_at [OF length_rsn_body [OF assms(3), of cf]] by (simp add: shape(1) body)
  have lhd: "length hd = 4" "length gs = 4" "length cs = 2" by (simp_all add: hd_def gs_def cs_def)
  have g: "rsn_ie_group el (d, 4, length (gs @ suite_bytes ps @ suite_bytes as @ cs @ ms)) =
      Some (0, d\<lparr>ie_group_cipher := wpa_group_cipher cf, ie_has_group := True\<rparr>, length (hd @ gs), length (suite_bytes ps @ suite_bytes as @ cs @ ms))" for d
    using group_at [OF assms(2), of hd "suite_bytes ps @ suite_bytes as @ cs @ ms" d]
    unfolding gs_def [symmetric] by (simp add: el lhd)
  have p: "rsn_ie_pairwise el (d, length (hd @ gs), length (suite_bytes ps @ suite_bytes as @ cs @ ms)) =
      Some (0, d\<lparr>ie_pairwise_cipher := rsn_pairwise cf AND 0x359, ie_has_pairwise := True\<rparr>,
              length (hd @ gs @ suite_bytes ps), length (suite_bytes as @ cs @ ms))" for d
  proof -
    have "(rsn_pairwise cf AND 0x359) AND WPA_CIPHER_AES_128_CMAC = 0" by (simp add: and.assoc)
    then show ?thesis
      using suite_list_at [OF ps(2) len(3,1), of rsn_selector_to_bitfield "\<lambda>w d. d\<lparr>ie_pairwise_cipher := w\<rparr>" "- 4" "- 5" "hd @ gs" "suite_bytes as @ cs @ ms" d]
      by (simp add: rsn_ie_pairwise_def el ie_then_def ps(1) Let_def)
  qed
  have a: "ie_suite_list rsn_key_mgmt_to_bitfield (\<lambda>w d. d\<lparr>ie_key_mgmt := w\<rparr>) (- 6) (- 7) el
        (d, length (hd @ gs @ suite_bytes ps), length (suite_bytes as @ cs @ ms)) =
      Some (0, d\<lparr>ie_key_mgmt := conf_key_mgmt cf AND 0x10830183\<rparr>, length (hd @ gs @ suite_bytes ps @ suite_bytes as), length (cs @ ms))" for d
    using suite_list_at [OF as(2) len(4,2), of rsn_key_mgmt_to_bitfield "\<lambda>w d. d\<lparr>ie_key_mgmt := w\<rparr>" "- 6" "- 7" "hd @ gs @ suite_bytes ps" "cs @ ms" d]
    by (simp add: el as(1))
  have c: "ie_capabilities_field el (d, length (hd @ gs @ suite_bytes ps @ suite_bytes as), length (cs @ ms)) =
      Some (0, d\<lparr>ie_capabilities := wpa_own_rsn_capab cf\<rparr>, length (hd @ gs @ suite_bytes ps @ suite_bytes as @ cs), length ms)" for d
    using capabilities_at [of "hd @ gs @ suite_bytes ps @ suite_bytes as" "wpa_own_rsn_capab cf" ms d]
    unfolding cs_def [symmetric] by (simp add: el lhd)
  have m: "\<exists>pos left. ie_then (rsn_ie_pmkids el (d, length (hd @ gs @ suite_bytes ps @ suite_bytes as @ cs), length ms)) (rsn_ie_mgmt_group el) =
         Some (0, d\<lparr>ie_pmkid := (case pmkid of Some p \<Rightarrow> [p] | None \<Rightarrow> []),
                   ie_mgmt_group_cipher := (if writes_mgmt_group cf then group_mgmt_cipher cf else WPA_CIPHER_AES_128_CMAC)\<rparr>, pos, left)"
    if "ie_pmkid d = []" and "ie_mgmt_group_cipher d = WPA_CIPHER_AES_128_CMAC" for d
    using pmkids_at [OF assms(3) shape(4) that, of "hd @ gs @ suite_bytes ps @ suite_bytes as @ cs"]
    unfolding ms_def [symmetric] by (simp add: el)
  have assoc: "ie_then (ie_then x f) g = ie_then x (\<lambda>st. ie_then (f st) g)" for x f g
    by (auto simp: ie_then_def split: option.splits)
  let ?d = "rsn_ie_defaults\<lparr>ie_group_cipher := wpa_group_cipher cf, ie_has_group := True,
      ie_pairwise_cipher := rsn_pairwise cf AND 0x359, ie_has_pairwise := True,
      ie_key_mgmt := conf_key_mgmt cf AND 0x10830183, ie_capabilities := wpa_own_rsn_capab cf\<rparr>"
  obtain pos left where m': "ie_then (rsn_ie_pmkids el (?d, length (hd @ gs @ suite_bytes ps @ suite_bytes as @ cs), length ms)) (rsn_ie_mgmt_group el) =
      Some (0, ?d\<lparr>ie_pmkid := (case pmkid of Some p \<Rightarrow> [p] | None \<Rightarrow> []),
                ie_mgmt_group_cipher := (if writes_mgmt_group cf then group_mgmt_cipher cf else WPA_CIPHER_AES_128_CMAC)\<rparr>, pos, left)"
    using m [of ?d] by (auto simp: rsn_ie_defaults_def)
  show ?thesis
    unfolding wpa_parse_wpa_ie_rsn_def assoc ie_then_0 [OF h] ie_then_0 [OF g] ie_then_0 [OF p] ie_then_0 [OF a] ie_then_0 [OF c] m'
    by (auto simp: rsn_ie_defaults_def writes_mgmt_group_def)
qed

text \<open>
  C13. Reading back what the access point advertises. If the writer of the RSN element succeeds for a
  configuration with a group cipher that an RSN element may name, then the parser accepts the element
  and finds the configuration in it: the group cipher, those of the pairwise ciphers and of the key
  management suites that have a selector, the capabilities, the PMKID if one was given, and the group
  management cipher (the default one where none is written).
\<close>

theorem rsn_ie_roundtrip:
  assumes "wpa_write_rsn_ie cf len pmkid = Some (Inr el)" and "wpa_cipher_valid_group (wpa_group_cipher cf)"
    and "case pmkid of Some p \<Rightarrow> length p = 16 | None \<Rightarrow> True"
  shows "wpa_parse_wpa_ie_rsn el = Some (0,
    \<lparr>ie_proto = WPA_PROTO_RSN, ie_pairwise_cipher = rsn_pairwise cf AND 0x359, ie_has_pairwise = True,
     ie_group_cipher = wpa_group_cipher cf, ie_has_group = True, ie_key_mgmt = conf_key_mgmt cf AND 0x10830183,
     ie_capabilities = wpa_own_rsn_capab cf, ie_pmkid = (case pmkid of Some p \<Rightarrow> [p] | None \<Rightarrow> []),
     ie_mgmt_group_cipher = (if ieee80211w cf = NO_MGMT_FRAME_PROTECTION then WPA_CIPHER_AES_128_CMAC else group_mgmt_cipher cf)\<rparr>)"
  using rsn_ie_reads_back [OF assms] .


section \<open>Only what both sides allow\<close>

lemma first_suite_Some:
  "first_suite table w = Some x \<Longrightarrow> \<exists>c. (c, x) \<in> set table \<and> w AND c \<noteq> 0"
  by (auto simp: first_suite_def find_Some_iff) (metis nth_mem)

lemma u32_cipher_bits:
  fixes w :: u32
  shows "w AND 0x200 \<noteq> 0 \<Longrightarrow> w AND 0x200 = 0x200" "w AND 0x100 \<noteq> 0 \<Longrightarrow> w AND 0x100 = 0x100" "w AND 0x10 \<noteq> 0 \<Longrightarrow> w AND 0x10 = 0x10"
    "w AND 0x40 \<noteq> 0 \<Longrightarrow> w AND 0x40 = 0x40" "w AND 0x8 \<noteq> 0 \<Longrightarrow> w AND 0x8 = 0x8"
  using single_bit_and [of w 9] single_bit_and [of w 8] single_bit_and [of w 4] single_bit_and [of w 6] single_bit_and [of w 3] by simp_all

lemma picked_cipher:
  assumes "wpa_pick_pairwise_cipher w False = Some c"
  shows "wpa_cipher_valid_pairwise c" and "w AND c = c" and "c = WPA_CIPHER_TKIP \<Longrightarrow> w AND 0x350 = 0"
proof -
  show "wpa_cipher_valid_pairwise c" "w AND c = c"
    using first_suite_Some [OF assms [unfolded wpa_pick_pairwise_cipher_def]] by (auto simp: wpa_cipher_valid_pairwise_def u32_cipher_bits)
  have split: "(0x350 :: u32) = 0x200 OR (0x100 OR (0x10 OR 0x40))" by simp
  show "w AND 0x350 = 0" if "c = WPA_CIPHER_TKIP"
    using assms that unfolding split bit.conj_disj_distrib
    by (auto simp: wpa_pick_pairwise_cipher_def first_suite_def split: if_splits)
qed

lemma picked_key_mgmt:
  assumes "w AND NOT 0x10830183 = 0" and "w \<noteq> 0"
  shows "w AND pick_key_mgmt w = pick_key_mgmt w" and "pick_key_mgmt w \<noteq> 0"
proof -
  have mask: "(0x10830183 :: u32) = 0x20000 OR (0x10000 OR (0x10000000 OR (0x80 OR (0x100 OR (0x1 OR (0x800000 OR 0x2))))))" by simp
  have "w AND 0x10830183 = w" using assms(1) by (metis and.right_neutral bit.conj_disj_distrib bit.disj_cancel_right or.right_neutral)
  then have w: "w = w AND 0x20000 OR (w AND 0x10000 OR (w AND 0x10000000 OR (w AND 0x80 OR (w AND 0x100 OR (w AND 0x1 OR (w AND 0x800000 OR w AND 0x2))))))"
    unfolding mask bit.conj_disj_distrib by simp
  have psk: "w AND 0x2 \<noteq> 0" if "w AND 0x20000 = 0" "w AND 0x10000 = 0" "w AND 0x10000000 = 0" "w AND 0x80 = 0" "w AND 0x100 = 0"
      "w AND 0x1 = 0" "w AND 0x800000 = 0"
    using w assms(2) unfolding that or.left_neutral by simp
  show "w AND pick_key_mgmt w = pick_key_mgmt w"
    using psk single_bit_and [of w 17] single_bit_and [of w 16] single_bit_and [of w 28] single_bit_and [of w 7]
      single_bit_and [of w 8] single_bit_and [of w 0] single_bit_and [of w 23] single_bit_and [of w 1]
    by (simp add: pick_key_mgmt_def first_suite_def)
  show "pick_key_mgmt w \<noteq> 0" by (simp add: pick_key_mgmt_def first_suite_def)
qed

text \<open>The cached key that \<open>use_pmksa\<close> finds.\<close>

definition found_pmksa :: "wpa_env \<Rightarrow> nat \<Rightarrow> wpa_ie_data \<Rightarrow> wpa_authenticator \<Rightarrow> pmksa_ref option" where
  "found_pmksa env i data A = sm_pmksa (stas (use_pmksa env i data A) i)"

lemma use_pmksa_stas:
  "stas (use_pmksa env i data A) = (stas A)(i := (stas A i)\<lparr>sm_pmksa := found_pmksa env i data A\<rparr>)"
  "conf (use_pmksa env i data A) = conf A"
  by (auto simp: use_pmksa_def found_pmksa_def Let_def set_sm_def split: option.splits prod.splits)

lemma refused:
  "r \<noteq> WPA_IE_OK \<Longrightarrow> (if P then (r, B) else m) = (WPA_IE_OK, A') \<longleftrightarrow> \<not> P \<and> m = (WPA_IE_OK, A')"
  "r \<noteq> WPA_IE_OK \<Longrightarrow> (case x of None \<Rightarrow> (r, B) | Some c \<Rightarrow> f c) = (WPA_IE_OK, A') \<longleftrightarrow> (\<exists>c. x = Some c \<and> f c = (WPA_IE_OK, A'))"
  by (auto split: option.splits)

text \<open>The station once its elements have been copied.\<close>

definition with_elements :: "assoc_elements \<Rightarrow> bytes \<Rightarrow> wpa_ie_data \<Rightarrow> wpa_auth_config \<Rightarrow> wpa_sm \<Rightarrow> wpa_sm" where
  "with_elements e ie data cf s =
     (accept_key_id data cf s)\<lparr>sm_wpa_ie := Some ie, sm_rsnxe := (if el_rsnxe e = Some [] then None else el_rsnxe e)\<rparr>"

lemma copy_element_fields:
  "stas (snd (copy_element env old new A)) = stas A" "conf (snd (copy_element env old new A)) = conf A"
  "fst (copy_element env old new A) = None \<or> fst (copy_element env old new A) = Some new"
  by (auto simp: copy_element_def os_malloc_def Let_def split: option.split)

lemma accept_elements_OK:
  assumes "accept_elements env i e ie data A = (WPA_IE_OK, A')"
  shows "stas A' = (stas A)(i := with_elements e ie data (conf A) (stas A i))"
proof -
  define B where "B = set_sm i (accept_key_id data (conf A)) A"
  obtain w C where w: "copy_element env (sm_wpa_ie (stas B i)) ie B = (w, C)" by (metis prod.collapse)
  define D where "D = set_sm i (\<lambda>s. s\<lparr>sm_wpa_ie := w\<rparr>) C"
  have C: "stas C = stas B" "w = None \<or> w = Some ie" using copy_element_fields [of env "sm_wpa_ie (stas B i)" ie B] w by auto
  note r = assms [unfolded accept_elements_def Let_def, folded B_def, unfolded w prod.case, folded D_def]
  then have w': "w = Some ie" using C(2) by auto
  have D: "stas D = (stas A)(i := (accept_key_id data (conf A) (stas A i))\<lparr>sm_wpa_ie := Some ie\<rparr>)"
    by (simp add: D_def C(1) w' B_def)
  show ?thesis
  proof (cases "el_rsnxe e = None \<or> el_rsnxe e = Some []")
    case True
    then show ?thesis using r D w' by (auto simp: with_elements_def)
  next
    case False
    then obtain x xs where x: "el_rsnxe e = Some (x # xs)" by (metis neq_Nil_conv option.exhaust)
    obtain v F where v: "copy_element env (sm_rsnxe (stas D i)) (x # xs) D = (v, F)" by (metis prod.collapse)
    have F: "stas F = stas D" "v = None \<or> v = Some (x # xs)"
      using copy_element_fields [of env "sm_rsnxe (stas D i)" "x # xs" D] v by auto
    then show ?thesis using r D w' x v by (auto simp: with_elements_def split: if_splits)
  qed
qed

lemma with_elements_fields [simp]:
  "sm_pmksa (with_elements e ie data cf s) = sm_pmksa s" "wpa_key_mgmt (with_elements e ie data cf s) = wpa_key_mgmt s"
  "pairwise (with_elements e ie data cf s) = pairwise s" "sm_wpa (with_elements e ie data cf s) = sm_wpa s"
  "mgmt_frame_prot (with_elements e ie data cf s) = mgmt_frame_prot s" "mfpr (with_elements e ie data cf s) = mfpr s"
  "sm_wpa_ie (with_elements e ie data cf s) = Some ie" "sm_addr (with_elements e ie data cf s) = sm_addr s"
  by (simp_all add: with_elements_def accept_key_id_def Let_def)

text \<open>What an accepted request has been checked for, and the station after it.\<close>

lemma validate_request_OK:
  assumes "validate_request env i e rsn ie data A = (WPA_IE_OK, A')"
  defines "cf \<equiv> conf A" and "mfp \<equiv> ieee80211w (conf A) \<noteq> NO_MGMT_FRAME_PROTECTION \<and> ie_capabilities data AND 0x80 \<noteq> 0"
    and "ciphers \<equiv> ie_pairwise_cipher data AND (if rsn then rsn_pairwise (conf A) else wpa_pairwise (conf A))"
    and "akm \<equiv> ie_key_mgmt data AND conf_key_mgmt (conf A)"
  shows "ie_group_cipher data = wpa_group_cipher cf \<and> akm \<noteq> 0 \<and> (mfp \<longrightarrow> ciphers AND WPA_CIPHER_TKIP = 0) \<and>
    (ieee80211w cf = MGMT_FRAME_PROTECTION_REQUIRED \<longrightarrow> mfp) \<and>
    (pick_key_mgmt akm = WPA_KEY_MGMT_DPP \<longrightarrow> sm_pmksa (stas A' i) \<noteq> None) \<and>
    (\<exists>c. wpa_pick_pairwise_cipher ciphers False = Some c \<and>
       stas A' = (stas A)(i := with_elements e ie data cf ((stas A i)
         \<lparr>wpa_key_mgmt := pick_key_mgmt akm, mgmt_frame_prot := mfp, mfpr := (ie_capabilities data AND 0x40 \<noteq> 0),
          pairwise := c, sm_wpa := (if rsn then WPA_VERSION_WPA2 else WPA_VERSION_WPA), sm_pmksa := sm_pmksa (stas A' i)\<rparr>)))"
  using assms(1) unfolding validate_request_def Let_def
  by (simp only: refused wpa_validate_result.distinct not_False_eq_True simp_thms, elim exE conjE)
    (drule accept_elements_OK, unfold cf_def mfp_def ciphers_def akm_def, intro conjI impI exI; (assumption | blast)?; simp add: use_pmksa_stas)


text \<open>
  C5. A station associates only with what both sides allow. When its request is accepted, the request
  has an element that could be read and whose group cipher is that of the access point. The key
  management suite chosen is one of the element and of the configuration, and so is the pairwise
  cipher; that is TKIP only if no stronger cipher is in both sets, and never together with management
  frame protection, which is on whenever it is required. The element is kept for the comparison in the
  handshake, and no other station is touched.
\<close>

theorem association_is_allowed:
  assumes "wpa_validate_wpa_ie env i e A = Some (WPA_IE_OK, A')" and "conf_key_mgmt (conf A) AND NOT 0x10830183 = 0"
  shows "\<exists>ie data B. el_wpa_ie e = Some ie \<and>
    (if ie ! 0 = 48 then read_rsn_request e ie A else read_wpa_request ie A) = Some (0, data, B) \<and>
    (let s = stas A' i; own = (if ie ! 0 = 48 then rsn_pairwise (conf A) else wpa_pairwise (conf A)) in
       ie_group_cipher data = wpa_group_cipher (conf A) \<and>
       wpa_key_mgmt s \<noteq> 0 \<and> (ie_key_mgmt data AND conf_key_mgmt (conf A)) AND wpa_key_mgmt s = wpa_key_mgmt s \<and>
       wpa_cipher_valid_pairwise (pairwise s) \<and> (ie_pairwise_cipher data AND own) AND pairwise s = pairwise s \<and>
       (pairwise s = WPA_CIPHER_TKIP \<longrightarrow> (ie_pairwise_cipher data AND own) AND 0x350 = 0 \<and> \<not> mgmt_frame_prot s) \<and>
       (ieee80211w (conf A) = MGMT_FRAME_PROTECTION_REQUIRED \<longrightarrow> mgmt_frame_prot s) \<and>
       sm_wpa s = (if ie ! 0 = 48 then WPA_VERSION_WPA2 else WPA_VERSION_WPA) \<and> sm_wpa_ie s = Some ie \<and>
       (\<forall>j. j \<noteq> i \<longrightarrow> stas A' j = stas A j))"
proof -
  obtain ie data B where ie: "el_wpa_ie e = Some ie"
      and read: "(if ie ! 0 = 48 then read_rsn_request e ie A else read_wpa_request ie A) = Some (0, data, B)"
      and ok: "validate_request env i e (ie ! 0 = 48) ie data B = (WPA_IE_OK, A')"
    using assms(1) by (cases rule: validate_cases) (auto split: if_splits)
  have B: "conf B = conf A" "stas B = stas A" using read read_request_keeps by (metis (full_types))+
  define own where "own = (if ie ! 0 = 48 then rsn_pairwise (conf A) else wpa_pairwise (conf A))"
  define akm where "akm = ie_key_mgmt data AND conf_key_mgmt (conf A)"
  note checked = validate_request_OK [OF ok, unfolded B, folded own_def akm_def]
  obtain c where c: "wpa_pick_pairwise_cipher (ie_pairwise_cipher data AND own) False = Some c" and A': "stas A' = (stas A)(i := with_elements e ie data (conf A) ((stas A i)
         \<lparr>wpa_key_mgmt := pick_key_mgmt akm, mgmt_frame_prot := (ieee80211w (conf A) \<noteq> NO_MGMT_FRAME_PROTECTION \<and> ie_capabilities data AND 0x80 \<noteq> 0),
          mfpr := (ie_capabilities data AND 0x40 \<noteq> 0),
          pairwise := c, sm_wpa := (if ie ! 0 = 48 then WPA_VERSION_WPA2 else WPA_VERSION_WPA), sm_pmksa := sm_pmksa (stas A' i)\<rparr>))"
    using checked by blast
  note s = fun_cong [OF A', of i, simplified fun_upd_same]
  have "akm AND NOT 0x10830183 = 0" using assms(2) by (simp add: akm_def and.assoc)
  note akm = picked_key_mgmt [OF this] picked_cipher [OF c]
  have tkip: "(ie_pairwise_cipher data AND own) AND WPA_CIPHER_TKIP \<noteq> 0" if "c = WPA_CIPHER_TKIP" using akm(4) that by simp
  have fields: "wpa_key_mgmt (stas A' i) = pick_key_mgmt akm" "pairwise (stas A' i) = c" "sm_wpa_ie (stas A' i) = Some ie"
    "mgmt_frame_prot (stas A' i) \<longleftrightarrow> ieee80211w (conf A) \<noteq> NO_MGMT_FRAME_PROTECTION \<and> ie_capabilities data AND 0x80 \<noteq> 0"
    "sm_wpa (stas A' i) = (if ie ! 0 = 48 then WPA_VERSION_WPA2 else WPA_VERSION_WPA)"
    by (subst s, simp)+
  have others: "\<forall>j. j \<noteq> i \<longrightarrow> stas A' j = stas A j" by (subst A') simp
  have ne: "akm \<noteq> 0" and "ie_group_cipher data = wpa_group_cipher (conf A)"
    and "ieee80211w (conf A) = MGMT_FRAME_PROTECTION_REQUIRED \<longrightarrow> mgmt_frame_prot (stas A' i)"
    and "mgmt_frame_prot (stas A' i) \<longrightarrow> (ie_pairwise_cipher data AND own) AND WPA_CIPHER_TKIP = 0"
    using checked unfolding fields by blast+
  then show ?thesis
    using ie read akm(1,2) [OF ne] akm(3-5) tkip others fields(3,5) unfolding Let_def own_def akm_def fields(1,2)
    by (intro exI [of _ ie] exI [of _ data] exI [of _ B]) blast
qed

end
