(* ===== verification/Wpa_Witness.thy ===== *)
theory Wpa_Witness
  imports Wpa_Access Wpa_Assoc Wpa_Replay Wpa_Negotiation "HOL-Library.Code_Target_Nat"
begin

text \<open>
  Concrete instances of the theorems about the WPA authenticator: a network with one pre-shared key
  and cryptographic functions that can be followed by hand, whose MIC is a constant.
\<close>

section \<open>A network\<close>

definition demo_crypto :: wpa_crypto where
  "demo_crypto = \<lparr>hmac_md5 = (\<lambda>k d. Some (replicate 16 1)), hmac_sha1 = (\<lambda>k d. Some (replicate 20 1)),
     hmac_sha256 = (\<lambda>k d. Some (replicate 32 1)), hmac_sha384 = (\<lambda>k d. Some (replicate 48 1)), hmac_sha512 = (\<lambda>k d. Some (replicate 64 1)),
     omac1_aes_128 = (\<lambda>k d. Some (replicate 16 1)), sha1_prf = (\<lambda>k l d n. Some (replicate n 7)), sha256_prf = (\<lambda>k l d n. Some (replicate n 7)),
     sha384_prf = (\<lambda>k l d n. Some (replicate n 7)), sha512_prf = (\<lambda>k l d n. Some (replicate n 7)),
     aes_wrap = (\<lambda>k d. Some (replicate 8 0xa6 @ d)), aes_unwrap = (\<lambda>k d. if take 8 d = replicate 8 0xa6 then Some (drop 8 d) else None),
     rc4_skip = (\<lambda>k n d. d)\<rparr>"

definition demo_psk :: bytes where "demo_psk = replicate 32 9"

definition demo_env :: wpa_env where
  "demo_env = \<lparr>crypto = demo_crypto, random_bytes = (\<lambda>tr n. Some (replicate n 5)), random_pool_ready = (\<lambda>tr. True),
     ntp_timestamp = (\<lambda>tr. replicate 8 3), cb_get_eapol = (\<lambda>tr a v. False), cb_get_psk = (\<lambda>tr a. [(demo_psk, 0)]),
     cb_get_msk = (\<lambda>tr a. None), cb_get_seqnum = (\<lambda>tr i. Some (replicate 8 0)), cb_result = (\<lambda>tr. 0), cb_get_sta_count = (\<lambda>tr. 1),
     ap_get_sta = (\<lambda>tr a. True), ap_sta_bind_vlan = (\<lambda>tr a. False),
     pmksa_get = (\<lambda>tr a p. None), pmksa_get_okc = (\<lambda>tr a p. None),
     malloc_ok = (\<lambda>tr n. True), cut_off = False\<rparr>"

definition demo_conf :: wpa_auth_config where
  "demo_conf = \<lparr>conf_wpa = 2, extended_key_id = 0, conf_key_mgmt = WPA_KEY_MGMT_PSK, wpa_pairwise = 0, wpa_group_cipher = WPA_CIPHER_CCMP,
     wpa_group_rekey = 600, wpa_strict_rekey = False, wpa_gmk_rekey = 0,
     wpa_ptk_rekey = 0, wpa_deny_ptk0_rekey = False, wpa_group_update_count = 4, wpa_pairwise_update_count = 4,
     wpa_disable_eapol_key_retries = False, rsn_pairwise = WPA_CIPHER_CCMP, rsn_preauth = False, eapol_version = 2, wmm_enabled = False,
     okc = False, tx_status = True, ieee80211w = NO_MGMT_FRAME_PROTECTION, beacon_prot = False,
     group_mgmt_cipher = WPA_CIPHER_AES_128_CMAC, ssid = [], disable_gtk = False, sae_pwe = 0, sae_pk = False, secure_ltf = False,
     secure_rtt = False, prot_range_neg = False, transition_disable = 0, dpp_pfs = 0,
     force_kdk_derivation = False, radius_psk = False, no_disconnect_on_group_keyerror = False, conf_ssid_protection = False\<rparr>"

definition demo_rsn_ie :: bytes where
  "demo_rsn_ie = [48, 20, 1, 0, 0, 0x0f, 0xac, 4, 1, 0, 0, 0x0f, 0xac, 4, 1, 0, 0, 0x0f, 0xac, 2, 0, 0]"

definition demo_addr :: mac where "demo_addr = [2, 0, 0, 0, 0, 1]"

definition demo_group :: wpa_group where
  "demo_group = zero_group\<lparr>wpa_group_state := WPA_GROUP_SETKEYSDONE, GTKAuthenticator := True, GTK_len := 16, GN := 1, GM := 2,
     first_sta_seen := True\<rparr>"

definition demo_auth :: "wpa_sm \<Rightarrow> wpa_authenticator" where
  "demo_auth s = \<lparr>conf = demo_conf, auth_addr = [2, 0, 0, 0, 0, 0], auth_wpa_ie = demo_rsn_ie, group_list = [0], groups = (\<lambda>g. demo_group),
     next_group = 1, sta_list = [0], stas = (\<lambda>i. s), dot11RSNAAuthenticationSuiteSelected = 0,
     dot11RSNAPairwiseCipherSelected = 0, dot11RSNAGroupCipherSelected = 0, dot11RSNAPMKIDUsed = [], dot11RSNA4WayHandshakeFailures = 0, auth_RemoteMICFailures = 0,
     non_tx_beacon_prot = False, trace = []\<rparr>"

text \<open>Its request, and the station after it; with message 1 sent under counter 1.\<close>

definition demo_request :: assoc_elements where
  "demo_request = \<lparr>el_freq = 2412, el_wpa_ie = Some demo_rsn_ie, el_rsnxe = None, el_mdie = False, el_owe_dh = False\<rparr>"

definition demo_sm0 :: wpa_sm where
  "demo_sm0 = zero_sm\<lparr>sm_wpa := WPA_VERSION_WPA2, wpa_key_mgmt := WPA_KEY_MGMT_PSK, pairwise := WPA_CIPHER_CCMP,
     sm_wpa_ie := Some demo_rsn_ie, sm_addr := demo_addr\<rparr>"

definition demo_sm1 :: wpa_sm where
  "demo_sm1 = demo_sm0\<lparr>started := True, Pair := True, wpa_ptk_state := WPA_PTK_PTKSTART,
     TimeoutCtr := 1, PMK := demo_psk, ANonce := replicate 32 5,
     key_replay := \<lparr>counter = [0, 0, 0, 0, 0, 0, 0, 1], valid = True\<rparr> # replicate 3 no_counter\<rparr>"

text \<open>A frame of the pairwise handshake with given flags, counter, MIC and key data.\<close>

definition demo_frame :: "u16 \<Rightarrow> byte \<Rightarrow> byte \<Rightarrow> bytes \<Rightarrow> bytes" where
  "demo_frame info ctr mic kd =
     [2, 3] @ put_be16 (95 + length kd) @ [2] @ put_be16 (unat info) @ [0, 0] @ [0, 0, 0, 0, 0, 0, 0, ctr] @ replicate 32 6 @
     replicate 16 0 @ replicate 8 0 @ replicate 8 0 @ replicate 16 mic @ put_be16 (length kd) @ kd"

section \<open>Common parts\<close>

definition demo_ptk :: wpa_ptk where
  "demo_ptk = \<lparr>kck = replicate 16 7, kek = replicate 16 7, tk = replicate 16 7, kdk = []\<rparr>"

text \<open>Message 2, message 2 with key data that cannot be unwrapped, and message 4.\<close>

definition demo_message2 :: bytes where "demo_message2 = demo_frame 0x10a 1 1 demo_rsn_ie"
definition demo_bad_message2 :: bytes where "demo_bad_message2 = demo_frame 0x110a 1 1 (replicate 16 0)"
definition demo_message4 :: bytes where "demo_message4 = demo_frame 0x30a 2 1 []"

text \<open>A message 2 with a wrong MIC.\<close>

definition demo_forged2 :: bytes where "demo_forged2 = demo_frame 0x10a 1 0 demo_rsn_ie"

text \<open>The station after message 3.\<close>

definition demo_sm3 :: wpa_sm where
  "demo_sm3 = demo_sm1\<lparr>wpa_ptk_state := WPA_PTK_PTKINITNEGOTIATING, PTK := demo_ptk, PTK_valid := True, MICVerified := True,
     EAPOLKeyPairwise := True, SNonce := replicate 32 6,
     key_replay := \<lparr>counter = [0, 0, 0, 0, 0, 0, 0, 2], valid = True\<rparr> # replicate 3 no_counter\<rparr>"

lemma demo_stas [simp]: "stas (demo_auth s) i = s"
  by (simp add: demo_auth_def)

lemma demo_rests:
  "no_request demo_sm1" "no_request demo_sm3" "group_idle demo_sm1" "group_idle demo_sm3"
  "group_rests (groups (demo_auth s) (auth_group (demo_auth s)))"
  by (simp_all add: no_request_def group_idle_def group_rests_def demo_sm1_def demo_sm3_def demo_sm0_def zero_sm_def
      demo_auth_def demo_group_def zero_group_def)

lemma demo_results: "cb_result demo_env tr = 0" "cb_get_psk demo_env tr a = [(demo_psk, 0)]"
  by (simp_all add: demo_env_def)

lemma demo_total: "aes_wrap (crypto demo_env) k d \<noteq> None" "wpa_eapol_key_mic (crypto demo_env) (kck demo_ptk) akm WPA_KEY_INFO_TYPE_HMAC_SHA1_AES buf \<noteq> None"
  by (simp_all add: demo_env_def demo_crypto_def demo_ptk_def wpa_eapol_key_mic_def)

section \<open>The four-way handshake\<close>

theorem message4_completes_witness:
  "\<exists>A'. wpa_receive 2 demo_env demo_message4 0 (demo_auth demo_sm3) = Some A' \<and> wpa_ptk_state (stas A' 0) = WPA_PTK_PTKINITDONE \<and>
     SetKey 0 WPA_ALG_CCMP demo_addr 0 (replicate 16 7) KEY_FLAG_PAIRWISE_RX_TX \<in> set (trace A') \<and>
     SetEapol demo_addr WPA_EAPOL_authorized True \<in> set (trace A')"
proof -
  have f: "wpa_cipher_to_alg (pairwise demo_sm3) = WPA_ALG_CCMP" "sm_addr demo_sm3 = demo_addr" "tk (PTK demo_sm3) = replicate 16 7"
    "authorizes_itself demo_sm3" by code_simp+
  have "receive_message demo_env (demo_auth demo_sm3) demo_sm3 demo_message4 = Some PAIRWISE_4" by code_simp
  moreover have "wpa_replay_counter_valid (key_replay demo_sm3) (key_replay_counter demo_message4)"
    "wpa_ptk_state demo_sm3 = WPA_PTK_PTKINITNEGOTIATING" "PTK_valid demo_sm3" "\<not> update_snonce demo_sm3"
    "\<not> bit (key_info demo_message4) WPA_KEY_INFO_ACK" "bit (key_info demo_message4) WPA_KEY_INFO_MIC"
    "wpa_verify_key_mic (crypto demo_env) (wpa_key_mgmt demo_sm3) (length (PMK demo_sm3)) (PTK demo_sm3) demo_message4"
    "Pair demo_sm3" "\<not> use_ext_key_id demo_sm3" "sm_wpa demo_sm3 = WPA_VERSION_WPA2" by code_simp+
  ultimately show ?thesis
    using message4_completes [of demo_env "demo_auth demo_sm3" demo_sm3 demo_message4 0 0] demo_rests demo_results f
    by (auto simp: numeral_2_eq_2)
qed

theorem message2_answered_witness:
  "\<exists>A' frame. wpa_receive 4 demo_env demo_message2 0 (demo_auth demo_sm1) = Some A' \<and>
     wpa_ptk_state (stas A' 0) = WPA_PTK_PTKINITNEGOTIATING \<and> PTK (stas A' 0) = demo_ptk \<and>
     SendEapol demo_addr frame False \<in> set (trace A') \<and> bit (key_info frame) WPA_KEY_INFO_INSTALL"
proof -
  have f: "sm_addr demo_sm1 = demo_addr" "\<not> pairwise_set demo_sm1" "eapol_version_used demo_sm1 = WPA_KEY_INFO_TYPE_HMAC_SHA1_AES" by code_simp+
  have "receive_message demo_env (demo_auth demo_sm1) demo_sm1 demo_message2 = Some PAIRWISE_2" by code_simp
  moreover have "find_pmk demo_env (demo_auth demo_sm1) (demo_sm1\<lparr>SNonce := key_nonce demo_message2\<rparr>) demo_message2 [(demo_psk, 0)] =
      Some (demo_psk, 0, demo_ptk)"
    "message2_key_data demo_env demo_sm1 (wpa_mic_len (wpa_key_mgmt demo_sm1) (length (PMK demo_sm1))) demo_ptk demo_message2 = Some (Inr demo_rsn_ie)"
    by code_simp+
  moreover have "wpa_parse_kde_ies demo_rsn_ie = (0, no_kdes\<lparr>kde_rsn_ie := Some demo_rsn_ie\<rparr>)"
    using kde_loop_element [of "drop 2 demo_rsn_ie" 48 "[]" no_kdes]
    by (simp add: demo_rsn_ie_def wpa_parse_kde_ies_def wpa_parse_kde_ie_def)
  moreover have "\<not> message2_mismatch (demo_auth demo_sm1) demo_sm1 (no_kdes\<lparr>kde_rsn_ie := Some demo_rsn_ie\<rparr>)" by code_simp
  moreover have "wpa_replay_counter_valid (key_replay demo_sm1) (key_replay_counter demo_message2)"
    "wpa_ptk_state demo_sm1 = WPA_PTK_PTKSTART" "\<not> PTK_valid demo_sm1"
    "\<not> reject_4way_hs_for_entropy (groups (demo_auth demo_sm1) (sm_group demo_sm1))"
    "\<not> bit (key_info demo_message2) WPA_KEY_INFO_ACK" "bit (key_info demo_message2) WPA_KEY_INFO_MIC" "uses_psk demo_sm1"
    "sm_wpa demo_sm1 = WPA_VERSION_WPA2" "\<not> use_ext_key_id demo_sm1" "wpa_key_mgmt demo_sm1 \<noteq> WPA_KEY_MGMT_OSEN"
    "\<not> disable_gtk (conf (demo_auth demo_sm1))" "uses_key_wrap demo_sm1" "wpa_mic_len (wpa_key_mgmt demo_sm1) (length (take 32 demo_psk)) \<noteq> 0"
    "length (key_replay demo_sm1) = RSNA_MAX_EAPOL_RETRIES" "length (counter (hd (key_replay demo_sm1))) = 8"
    "wpa_pairwise_update_count (conf (demo_auth demo_sm1)) \<noteq> 0" by code_simp+
  ultimately show ?thesis
    using message2_answered [of demo_env "demo_auth demo_sm1" demo_sm1 demo_message2 0 "[(demo_psk, 0)]" demo_psk demo_ptk demo_rsn_ie
        "no_kdes\<lparr>kde_rsn_ie := Some demo_rsn_ie\<rparr>" 0] demo_rests demo_results demo_total f
    by (auto simp: eval_nat_numeral)
qed

theorem unanswered_handshake_ends_witness:
  "\<exists>A'. timeouts 4 5 demo_env 0 (demo_auth demo_sm1) = Some A' \<and> StaDisconnect demo_addr 15 \<in> set (trace A') \<and>
     wpa_ptk_state (stas A' 0) = WPA_PTK_INITIALIZE"
proof -
  have f: "sm_addr demo_sm1 = demo_addr" "wpa_pairwise_update_count (conf (demo_auth demo_sm1)) = 4" by code_simp+
  have "message1_pmkid demo_env (demo_auth demo_sm1) demo_sm1 = Some None" "wpa_ptk_state demo_sm1 = WPA_PTK_PTKSTART" "TimeoutCtr demo_sm1 = 1"
    "\<not> pairwise_received demo_sm1" "\<not> TimeoutEvt demo_sm1" "\<not> waiting_radius_psk demo_sm1" by code_simp+
  then have w: "waits_for_message2 demo_env 0 1 (demo_auth demo_sm1)"
    using demo_rests by (simp add: waits_for_message2_def Let_def)
  have n: "Suc (unat (4 - 1 :: u32)) = 4" "(0::nat) + 5 = 5" "(1::u32) \<le> 4" "(4::u32) + 1 \<noteq> 0" by simp_all
  show ?thesis using unanswered_handshake_ends [OF w, of 0, unfolded f demo_stas n, OF n(3,4)] by blast
qed

section \<open>Replay\<close>

text \<open>
  A message 2 with a wrong MIC is taken, and the machine finds no key for it; the right one that follows
  under the same counter is dropped.
\<close>

lemma demo_forged2_taken:
  "case wpa_receive 10 demo_env demo_forged2 0 (demo_auth demo_sm1) of None \<Rightarrow> False
   | Some B \<Rightarrow> last_rx_eapol_key (stas B 0) = Some demo_forged2 \<and> length (trace B) < 100 \<and>
       receive_message demo_env B (stas B 0) demo_message2 = Some PAIRWISE_2"
  by code_simp


section \<open>Where the code fails\<close>

theorem message2_double_free_witness:
  "wpa_receive (Suc 99) demo_env demo_bad_message2 0 (demo_auth demo_sm1) = None"
proof -
  have "receive_message demo_env (demo_auth demo_sm1) demo_sm1 demo_bad_message2 = Some PAIRWISE_2" by code_simp
  moreover have "find_pmk demo_env (demo_auth demo_sm1) (demo_sm1\<lparr>SNonce := key_nonce demo_bad_message2\<rparr>) demo_bad_message2 [(demo_psk, 0)] =
      Some (demo_psk, 0, demo_ptk)" by code_simp
  moreover have "wpa_replay_counter_valid (key_replay demo_sm1) (key_replay_counter demo_bad_message2)"
    "wpa_ptk_state demo_sm1 = WPA_PTK_PTKSTART" "\<not> PTK_valid demo_sm1"
    "\<not> reject_4way_hs_for_entropy (groups (demo_auth demo_sm1) (sm_group demo_sm1))"
    "\<not> bit (key_info demo_bad_message2) WPA_KEY_INFO_ACK" "bit (key_info demo_bad_message2) WPA_KEY_INFO_MIC" "uses_psk demo_sm1"
    "wpa_mic_len (wpa_key_mgmt demo_sm1) (length (PMK demo_sm1)) = 16"
    "take (get_be16 demo_bad_message2 97) (drop 99 demo_bad_message2) = replicate 16 0"
    "bit (key_info demo_bad_message2) WPA_KEY_INFO_ENCR_KEY_DATA" "key_ver demo_bad_message2 = WPA_KEY_INFO_TYPE_HMAC_SHA1_AES"
    "aes_unwrap (crypto demo_env) (kek demo_ptk) (replicate 16 0) = None" by code_simp+
  ultimately show ?thesis
    using message2_double_free [of demo_env "demo_auth demo_sm1" demo_sm1 demo_bad_message2 0 "[(demo_psk, 0)]" demo_psk 0 demo_ptk 16
        "replicate 16 0" 99] demo_rests demo_results by simp
qed

theorem radius_answer_completes_handshake_witness:
  "\<exists>A'. wpa_sm_step 2 demo_env 0 (wpa_auth_sta_radius_psk_resp True 0 (demo_auth (demo_sm3\<lparr>waiting_radius_psk := True\<rparr>))) = Some A' \<and>
     wpa_ptk_state (stas A' 0) = WPA_PTK_PTKINITDONE \<and> SetEapol demo_addr WPA_EAPOL_portValid True \<in> set (trace A')"
proof -
  let ?s = "demo_sm3\<lparr>waiting_radius_psk := True\<rparr>"
  have "no_request ?s" "group_idle ?s" using demo_rests(2,4) by (simp_all add: no_request_def group_idle_def)
  moreover have "wpa_ptk_state ?s = WPA_PTK_PTKINITNEGOTIATING" "MICVerified ?s" "\<not> update_snonce ?s" "EAPOLKeyPairwise ?s" "\<not> EAPOLKeyRequest ?s"
    "Pair ?s" "\<not> use_ext_key_id ?s" "sm_wpa ?s = WPA_VERSION_WPA2" "sm_addr ?s = demo_addr" by code_simp+
  ultimately show ?thesis
    using radius_answer_completes_handshake [of ?s "demo_auth ?s" 0 demo_env 0] demo_rests(5) demo_results by (auto simp: numeral_2_eq_2)
qed

section \<open>Keys\<close>

theorem ptk_same_at_both_ends_witness:
  "wpa_pmk_to_ptk demo_crypto demo_psk ''Pairwise key expansion'' demo_addr [2, 0, 0, 0, 0, 0] (replicate 32 5) (replicate 32 6)
     WPA_KEY_MGMT_PSK WPA_CIPHER_CCMP [] 0 =
   wpa_pmk_to_ptk demo_crypto demo_psk ''Pairwise key expansion'' [2, 0, 0, 0, 0, 0] demo_addr (replicate 32 6) (replicate 32 5)
     WPA_KEY_MGMT_PSK WPA_CIPHER_CCMP [] 0"
  by (rule ptk_same_at_both_ends) (simp_all add: demo_addr_def ETH_ALEN_def)


section \<open>No access without a key\<close>

lemma demo_forged2_stranger: "stranger_frame demo_env K demo_forged2"
  unfolding stranger_frame_def
proof (intro ballI allI impI)
  fix pmk aa spa anonce snonce akm cipher z kdk_len ptk
  assume "wpa_pmk_to_ptk (crypto demo_env) pmk ''Pairwise key expansion'' aa spa anonce snonce akm cipher z kdk_len = Some ptk"
  then have k: "length (kck ptk) \<le> wpa_mic_len akm (length pmk)"
    by (auto simp: wpa_pmk_to_ptk_def Let_def mic_len_eq_kck_len split: if_splits Option.bind_splits)
  have v: "key_ver demo_forged2 = 2" "\<not> length demo_forged2 < 81" "drop 81 demo_forged2 ! 0 = 0" "drop 81 demo_forged2 \<noteq> []" by code_simp+
  show "\<not> wpa_verify_key_mic (crypto demo_env) akm (length pmk) ptk demo_forged2"
  proof (cases "kck ptk = []")
    case False
    with k have pos: "0 < wpa_mic_len akm (length pmk)" by (cases "kck ptk") auto
    let ?n = "wpa_mic_len akm (length pmk)"
    have "take ?n (drop 81 demo_forged2) ! 0 \<noteq> (replicate 16 1 @ replicate ?n 0) ! 0"
      using v pos by (simp add: nth_append)
    then have "os_memcmp_const (take ?n (drop 81 demo_forged2)) (replicate 16 1 @ replicate ?n 0) ?n \<noteq> 0"
      using pos by (auto simp: memcmp_const_nth)
    then show ?thesis using False v
      by (simp add: wpa_verify_key_mic_def wpa_eapol_key_mic_def demo_env_def demo_crypto_def Let_def)
  qed (simp add: wpa_verify_key_mic_def wpa_eapol_key_mic_def Let_def)
qed

theorem association_starts_handshake_witness:
  "\<exists>A' frame. wpa_auth_sta_associated (0 + 5) demo_env 0 (demo_auth demo_sm0) = Some A' \<and>
     wpa_ptk_state (stas A' 0) = WPA_PTK_PTKSTART \<and> SendEapol demo_addr frame False \<in> set (trace A')"
proof -
  have "\<not> started demo_sm0" "\<not> GUpdateStationKeys demo_sm0" "\<not> PtkGroupInit demo_sm0" "\<not> pairwise_received demo_sm0"
    "0 \<in> set (sta_list (demo_auth demo_sm0))" "conf_wpa (conf (demo_auth demo_sm0)) \<noteq> 0" "wpa_key_mgmt demo_sm0 = WPA_KEY_MGMT_PSK"
    "first_sta_seen (groups (demo_auth demo_sm0) (sm_group demo_sm0))" "sm_addr demo_sm0 = demo_addr"
    "wpa_pairwise_update_count (conf (demo_auth demo_sm0)) \<noteq> 0" by code_simp+
  moreover have "no_request demo_sm0" by (simp add: no_request_def demo_sm0_def zero_sm_def)
  moreover have "\<forall>tr n. random_bytes demo_env tr n \<noteq> None" by (simp add: demo_env_def)
  ultimately show ?thesis
    using association_starts_handshake [of demo_sm0 "demo_auth demo_sm0" 0 demo_env demo_psk 0 "[]" 0] demo_rests(5) demo_results by auto
qed

text \<open>
  A network with two stations. The one without a key answers message 1 with a message 2 whose MIC is
  wrong; it is looked at and no key is found. The other has been sent message 3 and answers with
  message 4, so that its port is opened.
\<close>

definition demo_other :: wpa_sm where "demo_other = demo_sm3\<lparr>sm_addr := [2, 0, 0, 0, 0, 2]\<rparr>"

definition demo_net :: wpa_authenticator where
  "demo_net = (demo_auth demo_sm1)\<lparr>stas := (\<lambda>i. if i = 0 then demo_sm1 else demo_other)\<rparr>"

lemma demo_forged2_in_net:
  "case wpa_receive 10 demo_env demo_forged2 0 demo_net of None \<Rightarrow> False
   | Some B \<Rightarrow> wpa_ptk_state (stas B 0) = WPA_PTK_PTKCALCNEGOTIATING \<and> PskFailureReport demo_addr \<in> set (trace B) \<and>
       stas B 1 = demo_other \<and> group_rests (groups B (auth_group B)) \<and>
       receive_message demo_env B demo_other demo_message4 = Some PAIRWISE_4"
  by code_simp

lemma demo_other_facts:
  "wpa_replay_counter_valid (key_replay demo_other) (key_replay_counter demo_message4)"
  "wpa_ptk_state demo_other = WPA_PTK_PTKINITNEGOTIATING" "PTK_valid demo_other" "\<not> update_snonce demo_other"
  "\<not> bit (key_info demo_message4) WPA_KEY_INFO_ACK" "bit (key_info demo_message4) WPA_KEY_INFO_MIC"
  "wpa_verify_key_mic (crypto demo_env) (wpa_key_mgmt demo_other) (length (PMK demo_other)) (PTK demo_other) demo_message4"
  "no_request demo_other" "group_idle demo_other" "Pair demo_other" "\<not> use_ext_key_id demo_other" "sm_wpa demo_other = WPA_VERSION_WPA2"
  "sm_addr demo_other = [2, 0, 0, 0, 0, 2]"
  by code_simp+

lemma demo_message4_in_net:
  assumes "stas B 1 = demo_other" and "group_rests (groups B (auth_group B))"
    and "receive_message demo_env B demo_other demo_message4 = Some PAIRWISE_4"
  shows "\<exists>A'. wpa_receive 10 demo_env demo_message4 1 B = Some A' \<and> SetEapol [2, 0, 0, 0, 0, 2] WPA_EAPOL_portValid True \<in> set (trace A')"
  using message4_completes_handshake [OF assms(3) demo_other_facts(1-7) assms(1) [symmetric] demo_other_facts(8,9) assms(2) demo_other_facts(10-12), of 8]
    demo_results(1) by (auto simp: demo_other_facts(13) eval_nat_numeral)

theorem no_key_no_access_witness:
  "\<exists>B A'. wpa_run 10 demo_env [Receive 0 demo_forged2] demo_net = Some B \<and> wpa_ptk_state (stas B 0) = WPA_PTK_PTKCALCNEGOTIATING \<and>
     PskFailureReport demo_addr \<in> set (trace B) \<and>
     wpa_run 10 demo_env [Receive 0 demo_forged2, Receive 1 demo_message4] demo_net = Some A' \<and>
     (\<exists>out \<in> set (trace A'). gives_access [2, 0, 0, 0, 0, 2] out) \<and> (\<forall>out \<in> set (trace A'). \<not> gives_access demo_addr out)"
proof -
  obtain B where B: "wpa_receive 10 demo_env demo_forged2 0 demo_net = Some B" "wpa_ptk_state (stas B 0) = WPA_PTK_PTKCALCNEGOTIATING"
    "PskFailureReport demo_addr \<in> set (trace B)" "stas B 1 = demo_other" "group_rests (groups B (auth_group B))"
    "receive_message demo_env B demo_other demo_message4 = Some PAIRWISE_4"
    using demo_forged2_in_net by (cases "wpa_receive 10 demo_env demo_forged2 0 demo_net") auto
  obtain A' where A': "wpa_receive 10 demo_env demo_message4 1 B = Some A'" "SetEapol [2, 0, 0, 0, 0, 2] WPA_EAPOL_portValid True \<in> set (trace A')"
    using demo_message4_in_net [OF B(4-6)] by blast
  have run: "wpa_run 10 demo_env [Receive 0 demo_forged2, Receive 1 demo_message4] demo_net = Some A'" using B(1) A'(1) by simp
  have "keyless demo_env {demo_psk} demo_sm1" by (simp add: keyless_def demo_sm1_def demo_sm0_def zero_sm_def)
  moreover have "master_keys demo_env {demo_psk}" by (simp add: master_keys_def demo_env_def)
  moreover have "sm_addr demo_sm1 = demo_addr" "demo_addr \<noteq> [2, 0, 0, 0, 0, 2]" by code_simp+
  ultimately have "\<forall>out \<in> set (trace A'). \<not> gives_access demo_addr out"
    using no_key_no_access [OF _ _ _ _ _ run, where K = "{demo_psk}" and v = 0 and a = demo_addr] demo_forged2_stranger
    by (simp add: demo_net_def demo_auth_def demo_other_facts(13))
  then show ?thesis using B(1-3) run A'(2) by (auto intro!: exI [of _ B] bexI [of _ "SetEapol [2, 0, 0, 0, 0, 2] WPA_EAPOL_portValid True"])
qed

section \<open>Elements\<close>

text \<open>The element that the access point writes, and the request with it.\<close>

lemma demo_own_element: "wpa_write_rsn_ie demo_conf 128 None = Some (Inr demo_rsn_ie)"
  by (simp add: wpa_write_rsn_ie_def Let_def put_bytes_def demo_conf_def wpa_cipher_to_suite_def first_suite_def write_suites_def
      put_suites_tables put_suites_def wpa_own_rsn_capab_def write_pmkid_def write_mgmt_group_def put_be32_def put_le16_def
      set_element_len_def demo_rsn_ie_def)

definition demo_data :: wpa_ie_data where
  "demo_data = \<lparr>ie_proto = WPA_PROTO_RSN, ie_pairwise_cipher = WPA_CIPHER_CCMP, ie_has_pairwise = True,
     ie_group_cipher = WPA_CIPHER_CCMP, ie_has_group = True, ie_key_mgmt = WPA_KEY_MGMT_PSK,
     ie_capabilities = 0, ie_pmkid = [], ie_mgmt_group_cipher = WPA_CIPHER_AES_128_CMAC\<rparr>"

lemma demo_conf_facts:
  "wpa_cipher_valid_group (wpa_group_cipher demo_conf)" "rsn_pairwise demo_conf AND 0x359 = WPA_CIPHER_CCMP"
  "conf_key_mgmt demo_conf AND 0x10830183 = WPA_KEY_MGMT_PSK" "wpa_own_rsn_capab demo_conf = 0"
  "wpa_group_cipher demo_conf = WPA_CIPHER_CCMP" "ieee80211w demo_conf = NO_MGMT_FRAME_PROTECTION" by code_simp+

theorem rsn_ie_roundtrip_witness: "wpa_parse_wpa_ie_rsn demo_rsn_ie = Some (0, demo_data)"
  using rsn_ie_roundtrip [OF demo_own_element demo_conf_facts(1)] by (simp add: demo_data_def demo_conf_facts)

lemma demo_element_read: "wpa_parse_wpa_ie_rsn demo_rsn_ie = Some (0, demo_data)"
  using rsn_ie_reads_back [OF demo_own_element demo_conf_facts(1)] by (simp add: demo_data_def demo_conf_facts)

theorem parsed_element_typed_witness:
  "wpa_cipher_valid_group (ie_group_cipher demo_data) \<and> ie_key_mgmt demo_data AND NOT 0x10bf8183 = 0"
  using parsed_element_typed [OF demo_element_read] by blast

lemma demo_accepted: "\<exists>A'. wpa_validate_wpa_ie demo_env 0 demo_request (demo_auth zero_sm) = Some (WPA_IE_OK, A')"
proof -
  have "map_option fst (wpa_validate_wpa_ie demo_env 0 demo_request (demo_auth zero_sm)) = Some WPA_IE_OK" by code_simp
  then show ?thesis by auto
qed

theorem association_is_allowed_witness:
  "\<exists>A'. wpa_validate_wpa_ie demo_env 0 demo_request (demo_auth zero_sm) = Some (WPA_IE_OK, A') \<and>
     wpa_cipher_valid_pairwise (pairwise (stas A' 0)) \<and> sm_wpa_ie (stas A' 0) = Some demo_rsn_ie"
proof -
  obtain A' where A': "wpa_validate_wpa_ie demo_env 0 demo_request (demo_auth zero_sm) = Some (WPA_IE_OK, A')" using demo_accepted by blast
  have "conf_key_mgmt (conf (demo_auth zero_sm)) AND NOT 0x10830183 = 0" "el_wpa_ie demo_request = Some demo_rsn_ie" by code_simp+
  then show ?thesis using association_is_allowed [OF A'] A' by (auto simp: Let_def)
qed

end
