(* ===== verification/Spec2Isabelle.thy ===== *)
theory Spec2Isabelle
  imports Darkflows Ap_List Eapol_Auth Pmksa_Cache Eloop Bitfield Base64 Eap_Witness Wpa_Witness
begin

text \<open>
  A verification of the C code of DarkFlows, a router that serves wireless clients with hostapd:
  the command dispatcher \<open>src/C/darkflows.c\<close> and core parts of \<open>src/src/hostapd-2.11\<close>, called
  \<open>H\<close> below (file names are those under \<open>H/src\<close>).

  \<^bold>\<open>The program and its parts.\<close> hostapd is a single process around an event loop
  (\<open>utils/eloop.c\<close>). A station that wants access goes through two stages. In the first it is
  authenticated by an authenticator (\<open>eapol_auth/eapol_auth_sm.c\<close>), six coupled state machines that
  open and close the controlled port. This runs in step with an EAP server
  (\<open>eap_server/eap_server.c\<close>), which it shares an interface record with; the EAP server calls its
  methods through a table of functions and reports success, failure or the next request. A station
  that authenticated before may skip this with a cached key (\<open>ap/pmksa_cache_auth.c\<close>), a station of
  a network with a pre-shared key skips it always. In the second stage the WPA/RSN authenticator
  (\<open>ap/wpa_auth.c\<close>) proves with the four-way handshake that the station holds the master key, derives
  and installs the keys of the session, and hands out the group key. Beside this runs a table of
  neighbouring access points (\<open>ap/ap_list.c\<close>) that decides about protection modes. Bit fields
  (\<open>utils/bitfield.c\<close>) and Base64 (\<open>utils/base64.c\<close>) are used all over.

  \<^bold>\<open>Conventions.\<close> The state of a component is a record with the fields of the C structure that the
  modelled code uses, an operation is a function that returns the new state. The code is that of the
  build of the router (\<open>hostapd/defconfig\<close>); what is left out by its preprocessor symbols is not part
  of the model. A result of type \<open>option\<close> is \<open>None\<close> when the C code has no defined result (a null
  pointer or an array bound is violated, memory is freed twice, or a loop does not end); error codes
  and null results are values. Machine integers have their width where they can wrap. Cryptographic
  functions, the allocator, the clock, the kernel and the callbacks of the driver are parameters,
  records of functions with names ending in \<open>_env\<close> or \<open>_crypto\<close>, and the theorems hold for all of
  them unless they say otherwise. Calls out of a component are kept in order in a trace, on which the
  answers of the environment may depend. Logging and the release of memory that is not reused are
  left out.

  \<^bold>\<open>Theories.\<close>
  \<^item> \<open>Prelude\<close>, \<open>Common\<close>, \<open>Linked_Lists\<close>: integers, byte strings and C strings, helpers of
    \<open>utils/common.c\<close>, and lists linked through a heap.
  \<^item> \<open>Darkflows\<close>: the command dispatcher as a whole; when it executes what, and what a command file
    is read as.
  \<^item> \<open>Os_Time\<close>, \<open>Eloop\<close>: relative times and the event loop with its select variant. The loop is
    modelled over a list of wake-ups, one for each return of \<open>select\<close>, so that a run is a finite
    prefix of the run of the program of any length. A run has a defined course, timeouts stay
    ordered, and what is due runs.
  \<^item> \<open>Ap_List\<close>, \<open>Pmksa_Cache\<close>: the two tables, on a heap of linked entries with hash chains. Both are
    proved to refine operations on plain lists of entries.
  \<^item> \<open>Bitfield\<close>, \<open>Base64\<close>: the helpers, against sets of bits and as round trips.
  \<^item> \<open>Eapol_Auth\<close>: the authenticator. The bound of a hundred rounds of its loop is the one of the
    code. The lemmas show for what cause the port opens, that the driver always knows its state, and
    how long a failed station is held off. The EAP server is a parameter of this theory.
  \<^item> \<open>Eap_Common\<close>, \<open>Eap_Server\<close>: EAP frames and the whole EAP server with pass-through and
    re-authentication (ERP). Its two loops are partial functions: they are undefined where the code
    does not return.
  \<^item> \<open>Eap_Server_Props\<close>: under a contract of the methods (a locale) the server always returns, by a
    rank on its states; the handling of Nak and of retransmission times.
  \<^item> \<open>Eap_Success\<close>, \<open>Eap_Reauth\<close>: what makes the server report success, the authenticity of
    re-authentication and its protection against replay, and a null pointer that a peer can make the
    server dereference.
  \<^item> \<open>Eap_Methods\<close>, \<open>Eap_Access\<close>: the methods Identity, MD5-Challenge and Generic Token Card with
    their registration; they satisfy the contract, and their success depends exactly on the
    password. \<open>Eap_Compose\<close> and \<open>Access_Control\<close> put the EAP server with these methods in the place
    of the parameter of the authenticator: no unknown user is given access by the two together.
    \<open>Eap_Witness\<close> holds concrete instances.
  \<^item> \<open>Wpa_Defs\<close>, \<open>Wpa_Common\<close>: the cipher and key management suites of \<open>common/defs.h\<close> and
    \<open>common/wpa_common.c\<close>, the derivation of the transient key, the integrity code, and the parser of
    key data; both ends derive the same key, and what message 3 carries is parsed as it was built.
  \<^item> \<open>Wpa_State\<close>, \<open>Wpa_Frames\<close>, \<open>Wpa_Group\<close>, \<open>Wpa_Ptk\<close>, \<open>Wpa_Auth\<close>, \<open>Wpa_Receive\<close>: the structures of
    \<open>ap/wpa_auth_i.h\<close> and the code of \<open>ap/wpa_auth.c\<close> in its order: sending EAPOL-Key frames, the
    group machines with the groups of VLANs, the pairwise and the group machine of a station, the
    loop \<open>wpa_sm_step\<close> with rekeying and events, and the reception of frames. The machines of one
    station may run those of others when a group is rekeyed, so \<open>wpa_sm_step\<close> takes an amount of
    fuel for rounds and depth; the liveness theorems give the number of rounds that is enough (two to
    six), so that their runs are not vacuous.
  \<^item> \<open>Wpa_Elements\<close>, \<open>Wpa_Negotiation\<close>: the RSN and WPA elements of \<open>ap/wpa_auth_ie.c\<close> and
    \<open>common/wpa_common.c\<close>, written with a check against the buffer and parsed with a check of every
    read, and \<open>wpa_validate_wpa_ie\<close>, which decides on an association and sets the parameters of the
    station: only what both sides allow is accepted, whatever the bytes of the request, and what is
    advertised is read back.
  \<^item> \<open>Wpa_Stations\<close>, \<open>Wpa_Access\<close>: what every operation of the group keeps and what every step of
    every station keeps, as locales, and their use: a station without a master key is never given
    access, through any association requests, frames, timeouts and events.
  \<^item> \<open>Wpa_Assoc\<close>, \<open>Wpa_Handshake\<close>, \<open>Wpa_Retries\<close>, \<open>Wpa_Replay\<close>: the course of the handshake from the
    association through its four messages to the open port, or through unanswered messages to the
    disconnection; replay counters; two defects. \<open>Wpa_Witness\<close> holds concrete instances.

  \<^bold>\<open>Locales.\<close> Interfaces between parts are locales, each interpreted on the model: linked lists with
  an index, machines beside the port machine and invariants of a run of the authenticator, the
  contract of the EAP methods, invariants of a run of the EAP server, and invariants of the groups
  and of the stations of the WPA authenticator.

  \<^bold>\<open>Not modelled.\<close> Drivers, netlink and sockets (kernel interfaces); cryptography and TLS
  (parameters); the EAP methods that rest on them; textual dumps and listings; the parts of hostapd
  that the build of the router leaves out (fast transition, FILS, SAE, multi-link, P2P, mesh) or that
  it does not use (WPS, DPP provisioning, FST), the supplicant, and the scripts and web interface of
  the router. Of the WPA authenticator: WNM sleep mode, test entry points and MIB output; its PMKSA
  cache is a parameter of its environment, with \<open>Pmksa_Cache\<close> as the model of that cache. RADIUS messages and
  the table of stations, which are mostly calls of drivers and of the parts above.
\<close>

end
